(* ===== verification/Prelude.thy ===== *)
theory Prelude imports Main "HOL-Library.Word" "HOL-Library.AList" "HOL-Library.List_Lexorder" begin

text \<open>
  Vocabulary shared by every component theory: Python strings as lists of code
  points, bytes as 8-bit words, results of fallible code as sums (an exception is
  an \<open>Inl\<close>), the sequencing of such results, dictionaries as association lists
  (insertion order and keys kept, one entry per key), and the POSIX path functions
  of \<open>os.path\<close> that the modelled modules call.
\<close>

named_theorems res_simps \<open>equations and characterisations of result sequencing\<close>
named_theorems dict_simps \<open>lookups in updated association lists\<close>

named_theorems exec \<open>equations that evaluate the definitions on concrete inputs\<close>

section \<open>Strings and bytes\<close>

type_synonym ustr = "int list"
type_synonym byte = "8 word"
type_synonym bytes = "byte list"

definition ul :: "string \<Rightarrow> ustr" where
  "ul s = map of_char s"

definition bl :: "string \<Rightarrow> bytes" where
  "bl s = map of_char s"

lemma ul_eq_iff [simp]: "ul s = ul t \<longleftrightarrow> s = t"
  unfolding ul_def by (rule inj_map_eq_map) (simp add: inj_def)

lemma length_ul [simp]: "length (ul s) = length s"
  by (simp add: ul_def)

lemma ul_eq_Nil [simp]: "ul s = [] \<longleftrightarrow> s = []" "[] = ul s \<longleftrightarrow> s = []"
  by (auto simp: ul_def)

lemma ul_append: "ul (s @ t) = ul s @ ul t"
  by (simp add: ul_def)

lemma length_bl [simp]: "length (bl s) = length s"
  by (simp add: bl_def)

lemma ul_bounded: "c \<in> set (ul s) \<Longrightarrow> 0 \<le> c \<and> c < 256"
proof -
  have "0 \<le> (of_char (ch :: char) :: int) \<and> of_char ch < (256 :: int)" for ch
    by (metis char_of_char of_char_of pos_mod_bound pos_mod_sign zero_less_numeral)
  then show "c \<in> set (ul s) \<Longrightarrow> 0 \<le> c \<and> c < 256"
    by (auto simp: ul_def)
qed

section \<open>Results: exceptions as values\<close>

definition rbind :: "'e + 'a \<Rightarrow> ('a \<Rightarrow> 'e + 'c) \<Rightarrow> 'e + 'c" where
  "rbind m f = (case m of Inl e \<Rightarrow> Inl e | Inr x \<Rightarrow> f x)"

lemma rbind_simps [simp, res_simps]:
  "rbind (Inl e) f = Inl e"
  "rbind (Inr x) f = f x"
  by (simp_all add: rbind_def)

lemma rbind_Inr_iff [res_simps]: "rbind m f = Inr y \<longleftrightarrow> (\<exists>x. m = Inr x \<and> f x = Inr y)"
  by (cases m) auto

lemma rbind_Inl_iff [res_simps]:
  "rbind m f = Inl e \<longleftrightarrow> m = Inl e \<or> (\<exists>x. m = Inr x \<and> f x = Inl e)"
  by (cases m) auto

lemma rbind_assoc: "rbind (rbind m f) g = rbind m (\<lambda>x. rbind (f x) g)"
  by (cases m) auto

lemma rbind_cong [fundef_cong]:
  "m = m' \<Longrightarrow> (\<And>x. m' = Inr x \<Longrightarrow> f x = g x) \<Longrightarrow> rbind m f = rbind m' g"
  by (cases m') auto

lemma if_Inl_eq_Inr [res_simps]:
  "(if c then Inl e else r) = Inr y \<longleftrightarrow> \<not> c \<and> r = Inr y"
  "(if c then r else Inl e) = Inr y \<longleftrightarrow> c \<and> r = Inr y"
  by auto

text \<open>
  Evaluation of concrete inputs by \<open>simp\<close>: these congruences keep the simplifier from
  rewriting the continuation of a sequencing step before its value is known.
\<close>

lemma rbind_weak_cong: "m = m' \<Longrightarrow> rbind m f = rbind m' f"
  by simp

lemma Let_weak_cong: "x = x' \<Longrightarrow> Let x f = Let x' f"
  by simp

lemmas eval_cong = rbind_weak_cong Let_weak_cong

declare Let_def [exec] ul_def [exec] bl_def [exec]

text \<open>A loop that stops at the first exception.\<close>

fun rfold :: "('s \<Rightarrow> 'a \<Rightarrow> 'e + 's) \<Rightarrow> 's \<Rightarrow> 'a list \<Rightarrow> 'e + 's" where
  "rfold f s [] = Inr s"
| "rfold f s (x # xs) = rbind (f s x) (\<lambda>s'. rfold f s' xs)"

lemma rfold_append: "rfold f s (xs @ ys) = rbind (rfold f s xs) (\<lambda>s'. rfold f s' ys)"
  by (induction xs arbitrary: s) (auto simp: rbind_assoc)

lemma rfold_invariant:
  assumes "rfold f s xs = Inr t" and "P s"
    and "\<And>s x t. x \<in> set xs \<Longrightarrow> P s \<Longrightarrow> f s x = Inr t \<Longrightarrow> P t"
  shows "P t"
  using assms by (induction xs arbitrary: s) (auto simp: res_simps)

fun rmap :: "('a \<Rightarrow> 'e + 'c) \<Rightarrow> 'a list \<Rightarrow> 'e + 'c list" where
  "rmap f [] = Inr []"
| "rmap f (x # xs) = rbind (f x) (\<lambda>y. rbind (rmap f xs) (\<lambda>ys. Inr (y # ys)))"

lemma map_filter_unfold [exec]:
  "List.map_filter f [] = []"
  "List.map_filter f (x # xs) = (case f x of None \<Rightarrow> List.map_filter f xs | Some y \<Rightarrow> y # List.map_filter f xs)"
  by (auto simp: List.map_filter_simps)

section \<open>Dictionaries\<close>

text \<open>
  A Python dictionary is an association list with one entry per key; \<open>AList.update\<close>
  replaces in place or appends, \<open>AList.delete\<close> removes, as \<open>d[k] = v\<close> and
  \<open>d.pop(k, None)\<close> do. A Python set held in a dictionary is a list without repetition.
\<close>

abbreviation dkeys :: "('k \<times> 'v) list \<Rightarrow> 'k list" where
  "dkeys d \<equiv> map fst d"

definition get_set :: "('k \<times> 'v list) list \<Rightarrow> 'k \<Rightarrow> 'v list" where
  "get_set d k = (case map_of d k of None \<Rightarrow> [] | Some xs \<Rightarrow> xs)"

definition set_add :: "'k \<Rightarrow> 'v \<Rightarrow> ('k \<times> 'v list) list \<Rightarrow> ('k \<times> 'v list) list" where
  "set_add k x d = AList.update k (List.insert x (get_set d k)) d"

definition set_discard :: "'k \<Rightarrow> 'v \<Rightarrow> ('k \<times> 'v list) list \<Rightarrow> ('k \<times> 'v list) list" where
  "set_discard k x d =
     (case map_of d k of None \<Rightarrow> d | Some xs \<Rightarrow> AList.update k (removeAll x xs) d)"

declare get_set_def [exec] set_add_def [exec] set_discard_def [exec]

lemmas dict_lookup [dict_simps] = update_conv' delete_conv'

lemma get_set_update [dict_simps]:
  "get_set (AList.update k xs d) j = (if j = k then xs else get_set d j)"
  by (simp add: get_set_def dict_simps)

lemma get_set_delete [dict_simps]:
  "get_set (AList.delete k d) j = (if j = k then [] else get_set d j)"
  by (simp add: get_set_def dict_simps)

lemma get_set_add [dict_simps]:
  "set (get_set (set_add k x d) j) = (if j = k then insert x (set (get_set d k)) else set (get_set d j))"
  by (simp add: set_add_def dict_simps)

lemma get_set_discard [dict_simps]:
  "set (get_set (set_discard k x d) j) = (if j = k then set (get_set d k) - {x} else set (get_set d j))"
proof (cases "map_of d k")
  case None
  then show ?thesis
    by (simp add: set_discard_def get_set_def)
next
  case (Some xs)
  then have "get_set d k = xs"
    by (simp add: get_set_def)
  with Some show ?thesis
    by (simp add: set_discard_def dict_simps)
qed

lemma get_set_Nil [simp]: "get_set [] k = []"
  by (simp add: get_set_def)

lemma distinct_keys_delete [simp]: "distinct (dkeys d) \<Longrightarrow> distinct (dkeys (AList.delete k d))"
  by (rule distinct_delete)

lemma distinct_keys_set_add [simp]: "distinct (dkeys d) \<Longrightarrow> distinct (dkeys (set_add k x d))"
  by (simp add: set_add_def distinct_update)

lemma distinct_keys_set_discard [simp]:
  "distinct (dkeys d) \<Longrightarrow> distinct (dkeys (set_discard k x d))"
  by (auto simp: set_discard_def distinct_update split: option.splits)

lemma dom_map_of_keys: "dom (map_of d) = set (dkeys d)"
  by (simp add: dom_map_of_conv_image_fst)

lemma map_of_sort_key [simp]:
  fixes d :: "('k::linorder \<times> 'v) list"
  assumes "distinct (dkeys d)"
  shows "map_of (sort_key fst d) = map_of d"
proof -
  have "distinct (dkeys (sort_key fst d))"
    using assms by (simp add: distinct_map)
  then show ?thesis
    using assms by (simp add: map_of_inject_set)
qed

end
