(* ===== verification/Py_Path.thy ===== *)
theory Py_Path imports Main Prelude begin

text \<open>
  The parts of \<open>posixpath\<close> and \<open>str\<close> that the modelled modules call on paths:
  \<open>os.path.dirname\<close>, \<open>os.path.basename\<close>, \<open>os.path.join\<close>, \<open>startswith\<close> and
  \<open>removeprefix\<close>, on lists of code points.
\<close>

definition slash :: int where "slash = 47"

definition path_head :: "ustr \<Rightarrow> ustr" where
  "path_head p = rev (dropWhile (\<lambda>c. c \<noteq> slash) (rev p))"

definition os_basename :: "ustr \<Rightarrow> ustr" where
  "os_basename p = rev (takeWhile (\<lambda>c. c \<noteq> slash) (rev p))"

definition rstrip_slash :: "ustr \<Rightarrow> ustr" where
  "rstrip_slash p = rev (dropWhile (\<lambda>c. c = slash) (rev p))"

definition os_dirname :: "ustr \<Rightarrow> ustr" where
  "os_dirname p =
     (let h = path_head p
      in if h \<noteq> [] \<and> h \<noteq> replicate (length h) slash then rstrip_slash h else h)"

definition os_join :: "ustr \<Rightarrow> ustr \<Rightarrow> ustr" where
  "os_join p q =
     (if q \<noteq> [] \<and> hd q = slash then q
      else if p = [] \<or> last p = slash then p @ q
      else p @ [slash] @ q)"

definition starts_with :: "'a list \<Rightarrow> 'a list \<Rightarrow> bool" where
  "starts_with s pre \<longleftrightarrow> take (length pre) s = pre"

definition remove_prefix :: "ustr \<Rightarrow> ustr \<Rightarrow> ustr" where
  "remove_prefix s pre = (if starts_with s pre then drop (length pre) s else s)"

lemma starts_with_append [simp]: "starts_with (pre @ s) pre"
  by (simp add: starts_with_def)

lemma starts_with_iff: "starts_with s pre \<longleftrightarrow> (\<exists>r. s = pre @ r)"
  by (metis append_take_drop_id starts_with_append starts_with_def)

lemmas path_exec [exec] = slash_def path_head_def os_basename_def rstrip_slash_def os_dirname_def os_join_def
  starts_with_def remove_prefix_def

text \<open>A path that does not begin with a slash has a proper parent.\<close>

definition relative :: "ustr \<Rightarrow> bool" where
  "relative p \<longleftrightarrow> p \<noteq> [] \<and> hd p \<noteq> slash"

lemma path_head_basename: "path_head p @ os_basename p = p"
  by (metis os_basename_def path_head_def rev_append rev_rev_ident takeWhile_dropWhile_id)

lemma path_head_last: "path_head p \<noteq> [] \<Longrightarrow> last (path_head p) = slash"
  using hd_dropWhile [of "\<lambda>c. c \<noteq> slash" "rev p"] by (simp add: path_head_def last_rev)

lemma rstrip_slash_last: "rstrip_slash p \<noteq> [] \<Longrightarrow> last (rstrip_slash p) \<noteq> slash"
  using hd_dropWhile [of "\<lambda>c. c = slash" "rev p"] by (simp add: rstrip_slash_def last_rev)

lemma rstrip_slash_append: "p = rstrip_slash p @ rev (takeWhile (\<lambda>c. c = slash) (rev p))"
  unfolding rstrip_slash_def by (metis rev_append rev_rev_ident takeWhile_dropWhile_id)

lemma dirname_prefix: "\<exists>r. p = os_dirname p @ r"
proof -
  obtain r where "p = path_head p @ r" by (metis path_head_basename)
  moreover obtain r' where "path_head p = rstrip_slash (path_head p) @ r'"
    using rstrip_slash_append by blast
  ultimately have "p = rstrip_slash (path_head p) @ r' @ r" and "p = path_head p @ r"
    by (metis append_assoc)+
  moreover have "os_dirname p = path_head p \<or> os_dirname p = rstrip_slash (path_head p)"
    by (simp add: os_dirname_def Let_def)
  ultimately show ?thesis by metis
qed

lemma dirname_shorter:
  assumes "relative p"
  shows "os_dirname p = [] \<or> relative (os_dirname p) \<and> length (os_dirname p) < length p"
proof (cases "path_head p = []")
  case True
  then show ?thesis by (simp add: os_dirname_def)
next
  case False
  obtain r where r: "p = path_head p @ r" by (metis path_head_basename)
  from False assms r have hd: "hd (path_head p) \<noteq> slash"
    by (metis hd_append2 relative_def)
  have ne: "path_head p \<noteq> replicate (length (path_head p)) slash"
    using False hd by (metis hd_replicate length_0_conv)
  let ?d = "rstrip_slash (path_head p)"
  obtain s where k: "path_head p = ?d @ s"
    using rstrip_slash_append by blast
  from k path_head_last [OF False] rstrip_slash_last [of "path_head p"] have "s \<noteq> []"
    using False by fastforce
  then have "length ?d < length (path_head p)"
    by (subst (2) k) simp
  also have "\<dots> \<le> length p" by (subst (2) r) simp
  finally have len: "length ?d < length p" .
  have "?d = [] \<or> relative ?d"
    using k hd by (metis hd_append2 relative_def)
  with len False ne show ?thesis by (auto simp: os_dirname_def)
qed

end
