(* ===== verification/Py_Bytes.thy ===== *)
theory Py_Bytes imports Main Prelude begin

text \<open>
  Byte-level operations of the Python library that the wire modules call:
  \<open>str.encode("utf-8")\<close> and \<open>bytes.decode("utf-8")\<close> (both strict),
  \<open>struct.pack(">I", n)\<close> and its inverse, \<open>bytes.hex\<close> and \<open>bytes.fromhex\<close>, decimal
  integers, and the shapes the modules check with regular expressions: lower-case
  hexadecimal of a fixed length, \<open>sha256:\<close> digests and canonical UUIDs.
\<close>

section \<open>UTF-8\<close>

definition byte_of :: "int \<Rightarrow> byte" where
  "byte_of i = word_of_int i"

definition utf8_char :: "int \<Rightarrow> bytes option" where
  "utf8_char c =
     (if c < 0 then None
      else if c < 128 then Some [byte_of c]
      else if c < 2048 then Some [byte_of (192 + c div 64), byte_of (128 + c mod 64)]
      else if 55296 \<le> c \<and> c < 57344 then None
      else if c < 65536 then
        Some [byte_of (224 + c div 4096), byte_of (128 + c div 64 mod 64), byte_of (128 + c mod 64)]
      else if c < 1114112 then
        Some [byte_of (240 + c div 262144), byte_of (128 + c div 4096 mod 64),
              byte_of (128 + c div 64 mod 64), byte_of (128 + c mod 64)]
      else None)"

fun utf8_encode :: "ustr \<Rightarrow> bytes option" where
  "utf8_encode [] = Some []"
| "utf8_encode (c # s) =
     (case utf8_char c of
        None \<Rightarrow> None
      | Some b \<Rightarrow> (case utf8_encode s of None \<Rightarrow> None | Some bs \<Rightarrow> Some (b @ bs)))"

definition cont :: "byte \<Rightarrow> bool" where
  "cont b \<longleftrightarrow> 128 \<le> uint b \<and> uint b < 192"

fun utf8_decode :: "bytes \<Rightarrow> ustr option" where
  "utf8_decode [] = Some []"
| "utf8_decode (a # r) =
     (if uint a < 128 then map_option ((#) (uint a)) (utf8_decode r)
      else if uint a < 194 then None
      else if uint a < 224 then
        (case r of
           b1 # r1 \<Rightarrow>
             if cont b1 then map_option ((#) ((uint a - 192) * 64 + (uint b1 - 128))) (utf8_decode r1) else None
         | _ \<Rightarrow> None)
      else if uint a < 240 then
        (case r of
           b1 # b2 # r2 \<Rightarrow>
             (let c = (uint a - 224) * 4096 + (uint b1 - 128) * 64 + (uint b2 - 128)
              in if cont b1 \<and> cont b2 \<and> 2048 \<le> c \<and> \<not> (55296 \<le> c \<and> c < 57344)
                 then map_option ((#) c) (utf8_decode r2) else None)
         | _ \<Rightarrow> None)
      else if uint a < 245 then
        (case r of
           b1 # b2 # b3 # r3 \<Rightarrow>
             (let c = (uint a - 240) * 262144 + (uint b1 - 128) * 4096 + (uint b2 - 128) * 64 + (uint b3 - 128)
              in if cont b1 \<and> cont b2 \<and> cont b3 \<and> 65536 \<le> c \<and> c < 1114112
                 then map_option ((#) c) (utf8_decode r3) else None)
         | _ \<Rightarrow> None)
      else None)"

lemma length_utf8_decode: "utf8_decode b = Some t \<Longrightarrow> length t \<le> length b"
  by (induction b arbitrary: t rule: utf8_decode.induct)
    (fastforce simp: Let_def split: if_splits list.splits)+

lemma utf8_decode_replicate: "uint a < 128 \<Longrightarrow> utf8_decode (replicate n a) = Some (replicate n (uint a))"
  by (induction n) simp_all

lemma uint_byte_of [simp]: "0 \<le> i \<Longrightarrow> i < 256 \<Longrightarrow> uint (byte_of i) = i"
  by (simp add: byte_of_def uint_word_of_int take_bit_int_eq_self_iff)

lemma byte_of_uint [simp]: "byte_of (uint b) = b"
  by (simp add: byte_of_def)

lemma cont_byte_of [simp]: "0 \<le> k \<Longrightarrow> k < 64 \<Longrightarrow> cont (byte_of (128 + k))"
  by (simp add: cont_def)

lemma div_split:
  fixes c :: int
  assumes "0 \<le> b"
  shows "c div (a * b) * b + c div a mod b = c div a"
  using assms by (simp add: zdiv_zmult2_eq)

lemma sixbit: "0 \<le> c mod (64 :: int)" "c mod 64 < (64 :: int)"
  by simp_all

lemma utf8_decode3:
  assumes "0 \<le> x" "x < 16" "0 \<le> y" "y < 64" "0 \<le> z" "z < 64"
    and c: "x * 4096 + y * 64 + z = c" and "2048 \<le> c" "\<not> (55296 \<le> c \<and> c < 57344)"
  shows "utf8_decode (byte_of (224 + x) # byte_of (128 + y) # byte_of (128 + z) # r) = map_option ((#) c) (utf8_decode r)"
  using assms(1-6,8-) unfolding c [symmetric] by (simp add: Let_def add.assoc)

lemma utf8_decode4:
  assumes "0 \<le> w" "w < 5" "0 \<le> x" "x < 64" "0 \<le> y" "y < 64" "0 \<le> z" "z < 64"
    and c: "w * 262144 + x * 4096 + y * 64 + z = c" and "65536 \<le> c" "c < 1114112"
  shows "utf8_decode (byte_of (240 + w) # byte_of (128 + x) # byte_of (128 + y) # byte_of (128 + z) # r) =
           map_option ((#) c) (utf8_decode r)"
  using assms(1-8,10-) unfolding c [symmetric] by (simp add: Let_def add.assoc)

lemma utf8_char_decode:
  assumes "utf8_char c = Some b"
  shows "utf8_decode (b @ r) = map_option ((#) c) (utf8_decode r)"
proof -
  note sixbit [simp]
  consider "0 \<le> c" "c < 128" | "128 \<le> c" "c < 2048"
    | "2048 \<le> c" "c < 65536" "\<not> (55296 \<le> c \<and> c < 57344)" | "65536 \<le> c" "c < 1114112"
    using assms by (auto simp: utf8_char_def split: if_splits)
  then show ?thesis
  proof cases
    case 1
    with assms show ?thesis by (auto simp: utf8_char_def)
  next
    case 2
    then have "c div 64 < 32" "2 \<le> c div 64" by auto
    with 2 assms show ?thesis by (auto simp: utf8_char_def)
  next
    case 3
    then have b: "c div 4096 < 16" "0 \<le> c div 4096" by auto
    have "c div 4096 * 64 + c div 64 mod 64 = c div 64"
      using div_split [of 64 c 64] by simp
    then have v: "c div 4096 * 4096 + c div 64 mod 64 * 64 + c mod 64 = c"
      using div_mult_mod_eq [of c 64] by linarith
    have "b = [byte_of (224 + c div 4096), byte_of (128 + c div 64 mod 64), byte_of (128 + c mod 64)]"
      using 3 assms by (auto simp: utf8_char_def)
    with utf8_decode3 [OF b(2,1) _ _ _ _ v] 3 show ?thesis by simp
  next
    case 4
    then have b: "c div 262144 < 5" "0 \<le> c div 262144" by auto
    have "c div 4096 * 64 + c div 64 mod 64 = c div 64" "c div 262144 * 64 + c div 4096 mod 64 = c div 4096"
      using div_split [of 64 c 64] div_split [of 64 c 4096] by simp_all
    then have v: "c div 262144 * 262144 + c div 4096 mod 64 * 4096 + c div 64 mod 64 * 64 + c mod 64 = c"
      using div_mult_mod_eq [of c 64] by linarith
    have "b = [byte_of (240 + c div 262144), byte_of (128 + c div 4096 mod 64),
              byte_of (128 + c div 64 mod 64), byte_of (128 + c mod 64)]"
      using 4 assms by (auto simp: utf8_char_def)
    with utf8_decode4 [OF b(2,1) _ _ _ _ _ _ v] 4 show ?thesis by simp
  qed
qed

text \<open>Decoding undoes encoding.\<close>

lemma utf8_decode_encode: "utf8_encode s = Some b \<Longrightarrow> utf8_decode b = Some s"
  by (induction s arbitrary: b) (auto simp: utf8_char_decode split: option.splits)

lemma utf8_encode_append:
  "utf8_encode (s @ t) =
     (case utf8_encode s of None \<Rightarrow> None
      | Some a \<Rightarrow> (case utf8_encode t of None \<Rightarrow> None | Some b \<Rightarrow> Some (a @ b)))"
  by (induction s) (auto split: option.splits)

lemma utf8_encode_ascii:
  "\<forall>c \<in> set s. 0 \<le> c \<and> c < 128 \<Longrightarrow> utf8_encode s = Some (map byte_of s)"
  by (induction s) (auto simp: utf8_char_def)

lemma utf8_encode_eq_Nil [simp]: "utf8_encode s = Some [] \<longleftrightarrow> s = []"
  by (cases s) (auto simp: utf8_char_def split: option.splits if_splits)

section \<open>Big-endian 32-bit lengths\<close>

definition pack_u32 :: "nat \<Rightarrow> bytes" where
  "pack_u32 n = [byte_of (int n div 16777216 mod 256), byte_of (int n div 65536 mod 256),
                 byte_of (int n div 256 mod 256), byte_of (int n mod 256)]"

definition unpack_u32 :: "bytes \<Rightarrow> nat" where
  "unpack_u32 bs = nat (foldl (\<lambda>a b. a * 256 + uint b) 0 bs)"

lemma length_pack_u32 [simp]: "length (pack_u32 n) = 4"
  by (simp add: pack_u32_def)

lemma unpack_u32_bytes:
  assumes "0 \<le> a" "a < 256" "0 \<le> b" "b < 256" "0 \<le> c" "c < 256" "0 \<le> d" "d < 256"
  shows "unpack_u32 [byte_of a, byte_of b, byte_of c, byte_of d] = nat (((a * 256 + b) * 256 + c) * 256 + d)"
  using assms by (simp add: unpack_u32_def)

lemma unpack_pack_u32:
  assumes "n < 4294967296"
  shows "unpack_u32 (pack_u32 n) = n"
proof -
  define a b c where "a = int n div 16777216" and "b = int n div 65536" and "c = int n div 256"
  have a: "a mod 256 = a" "0 \<le> a" "a < 256" using assms by (auto simp: a_def)
  have "a * 256 + b mod 256 = b" "b * 256 + c mod 256 = c" "c * 256 + int n mod 256 = int n"
    using div_split [of 256 "int n" 65536] div_split [of 256 "int n" 256] by (simp_all add: a_def b_def c_def)
  then have "nat (((a mod 256 * 256 + b mod 256) * 256 + c mod 256) * 256 + int n mod 256) = n"
    using a(1) by simp
  then show ?thesis
    unfolding pack_u32_def a_def [symmetric] b_def [symmetric] c_def [symmetric]
    by (subst unpack_u32_bytes) (simp_all only: pos_mod_sign pos_mod_bound zero_less_numeral)
qed

section \<open>Hexadecimal\<close>

definition hex_digit :: "int \<Rightarrow> int" where
  "hex_digit d = (if d < 10 then 48 + d else 87 + d)"

definition is_hex_lower :: "int \<Rightarrow> bool" where
  "is_hex_lower c \<longleftrightarrow> 48 \<le> c \<and> c \<le> 57 \<or> 97 \<le> c \<and> c \<le> 102"

definition hex_value :: "int \<Rightarrow> int" where
  "hex_value c = (if c \<le> 57 then c - 48 else if c \<le> 70 then c - 55 else c - 87)"

definition hex_of_bytes :: "bytes \<Rightarrow> ustr" where
  "hex_of_bytes bs = concat (map (\<lambda>b. [hex_digit (uint b div 16), hex_digit (uint b mod 16)]) bs)"

fun bytes_of_hex :: "ustr \<Rightarrow> bytes" where
  "bytes_of_hex (a # b # r) = byte_of (hex_value a * 16 + hex_value b) # bytes_of_hex r"
| "bytes_of_hex _ = []"

lemma uint_byte_bounds: "0 \<le> uint (b :: byte)" "uint (b :: byte) < 256"
  using unsigned_less [of b, where 'a = int] by simp_all

lemma hex_value_digit: "0 \<le> d \<Longrightarrow> d < 16 \<Longrightarrow> hex_value (hex_digit d) = d"
  by (auto simp: hex_value_def hex_digit_def)

lemma is_hex_lower_digit: "0 \<le> d \<Longrightarrow> d < 16 \<Longrightarrow> is_hex_lower (hex_digit d)"
  by (auto simp: is_hex_lower_def hex_digit_def)

lemma nibbles: "0 \<le> uint (b :: byte) div 16" "uint b div 16 < 16" "0 \<le> uint b mod 16" "uint b mod 16 < 16"
  using uint_byte_bounds [of b] by (simp_all add: pos_imp_zdiv_nonneg_iff)

lemma bytes_of_hex_of_bytes [simp]: "bytes_of_hex (hex_of_bytes bs) = bs"
proof (induction bs)
  case (Cons b bs)
  have "uint b div 16 * 16 + uint b mod 16 = uint b" by simp
  with Cons nibbles [of b] show ?case by (simp add: hex_of_bytes_def hex_value_digit)
qed (simp add: hex_of_bytes_def)

lemma length_hex_of_bytes [simp]: "length (hex_of_bytes bs) = 2 * length bs"
  by (induction bs) (auto simp: hex_of_bytes_def)

lemma hex_of_bytes_lower: "c \<in> set (hex_of_bytes bs) \<Longrightarrow> is_hex_lower c"
  using nibbles by (auto simp: hex_of_bytes_def is_hex_lower_digit)

lemma length_bytes_of_hex: "length (bytes_of_hex s) = length s div 2"
  by (induction s rule: bytes_of_hex.induct) auto

section \<open>Shapes checked with regular expressions\<close>

definition is_hex32 :: "ustr \<Rightarrow> bool" where
  "is_hex32 s \<longleftrightarrow> length s = 64 \<and> (\<forall>c \<in> set s. is_hex_lower c)"

definition digest_prefix :: ustr where "digest_prefix = ul ''sha256:''"

definition is_digest :: "ustr \<Rightarrow> bool" where
  "is_digest s \<longleftrightarrow> take 7 s = digest_prefix \<and> is_hex32 (drop 7 s)"

text \<open>\<open>str(uuid.UUID(s)) = s\<close> holds of the lower-case 8-4-4-4-12 form only.\<close>

definition uuid_shape :: "bool list" where
  "uuid_shape = replicate 8 False @ True # replicate 4 False @ True # replicate 4 False @ True #
     replicate 4 False @ True # replicate 12 False"

definition is_uuid :: "ustr \<Rightarrow> bool" where
  "is_uuid s \<longleftrightarrow> list_all2 (\<lambda>dash c. if dash then c = 45 else is_hex_lower c) uuid_shape s"

lemma is_hex32_hex_of_bytes: "length bs = 32 \<Longrightarrow> is_hex32 (hex_of_bytes bs)"
  by (auto simp: is_hex32_def hex_of_bytes_lower)

lemma is_digest_hex: "length bs = 32 \<Longrightarrow> is_digest (digest_prefix @ hex_of_bytes bs)"
  by (simp add: is_digest_def digest_prefix_def is_hex32_hex_of_bytes)

definition is_ascii :: "ustr \<Rightarrow> bool" where
  "is_ascii s \<longleftrightarrow> (\<forall>c \<in> set s. 32 \<le> c \<and> c < 127 \<and> c \<noteq> 34 \<and> c \<noteq> 92)"

lemma is_hex_lower_ascii: "is_hex_lower c \<Longrightarrow> 32 \<le> c \<and> c < 127 \<and> c \<noteq> 34 \<and> c \<noteq> 92"
  by (auto simp: is_hex_lower_def)

lemma is_hex32_ascii: "is_hex32 s \<Longrightarrow> is_ascii s"
  using is_hex_lower_ascii by (auto simp: is_hex32_def is_ascii_def)

lemma is_digest_ascii: "is_digest s \<Longrightarrow> is_ascii s"
proof -
  assume d: "is_digest s"
  have "is_ascii digest_prefix" by (simp add: is_ascii_def digest_prefix_def ul_def)
  moreover have "is_ascii (drop 7 s)" using d is_hex32_ascii by (auto simp: is_digest_def)
  moreover have "s = digest_prefix @ drop 7 s" using d by (metis append_take_drop_id is_digest_def)
  ultimately show ?thesis by (metis Un_iff is_ascii_def set_append)
qed

lemma is_uuid_ascii: "is_uuid s \<Longrightarrow> is_ascii s"
proof -
  assume u: "is_uuid s"
  have "32 \<le> c \<and> c < 127 \<and> c \<noteq> 34 \<and> c \<noteq> 92" if "c \<in> set s" for c
  proof -
    from that obtain i where i: "i < length s" "s ! i = c" by (auto simp: in_set_conv_nth)
    moreover from this(1) u have "i < length uuid_shape"
      unfolding is_uuid_def by (simp only: list_all2_lengthD)
    ultimately have "if uuid_shape ! i then c = 45 else is_hex_lower c"
      using u list_all2_nthD [of _ uuid_shape s i] unfolding is_uuid_def by blast
    then show ?thesis using is_hex_lower_ascii [of c] by (cases "uuid_shape ! i") simp_all
  qed
  then show ?thesis by (simp add: is_ascii_def)
qed

section \<open>Decimal integers\<close>

function dec_nat :: "int \<Rightarrow> ustr" where
  "dec_nat n = (if n < 10 then [48 + n] else dec_nat (n div 10) @ [48 + n mod 10])"
  by pat_completeness auto
termination by (relation "measure nat") auto

declare dec_nat.simps [simp del]

definition dec_int :: "int \<Rightarrow> ustr" where
  "dec_int i = (if i < 0 then 45 # dec_nat (- i) else dec_nat i)"

definition is_digit :: "int \<Rightarrow> bool" where
  "is_digit c \<longleftrightarrow> 48 \<le> c \<and> c \<le> 57"

definition digits_value :: "ustr \<Rightarrow> int" where
  "digits_value ds = foldl (\<lambda>a d. a * 10 + (d - 48)) 0 ds"

lemma dec_nat_digits: "0 \<le> n \<Longrightarrow> c \<in> set (dec_nat n) \<Longrightarrow> is_digit c"
proof (induction n rule: dec_nat.induct)
  case (1 n)
  then show ?case by (cases "n < 10") (auto simp: dec_nat.simps [of n] is_digit_def)
qed

lemma digits_value_snoc: "digits_value (ds @ [d]) = digits_value ds * 10 + (d - 48)"
  by (simp add: digits_value_def)

lemma dec_nat_small: "n < 10 \<Longrightarrow> dec_nat n = [48 + n]"
  by (simp add: dec_nat.simps)

lemma dec_nat_large: "\<not> n < 10 \<Longrightarrow> dec_nat n = dec_nat (n div 10) @ [48 + n mod 10]"
  by (subst dec_nat.simps) simp

lemma digits_value_dec_nat: "0 \<le> n \<Longrightarrow> digits_value (dec_nat n) = n"
proof (induction n rule: dec_nat.induct)
  case (1 n)
  show ?case
  proof (cases "n < 10")
    case True
    then show ?thesis by (simp add: dec_nat_small digits_value_def)
  next
    case False
    with 1 have "digits_value (dec_nat (n div 10)) = n div 10" by (simp add: pos_imp_zdiv_nonneg_iff)
    then show ?thesis unfolding dec_nat_large [OF False] digits_value_snoc by simp
  qed
qed

lemma dec_nat_ne [simp]: "dec_nat n \<noteq> []"
  by (subst dec_nat.simps) simp

text \<open>No leading zero, except in \<open>0\<close> itself.\<close>

lemma dec_nat_hd: "0 \<le> n \<Longrightarrow> hd (dec_nat n) = 48 \<Longrightarrow> n = 0"
proof (induction n rule: dec_nat.induct)
  case (1 n)
  show ?case
  proof (cases "n < 10")
    case True
    with "1.prems" show ?thesis by (simp add: dec_nat_small)
  next
    case False
    have "hd (dec_nat (n div 10)) = 48" using "1.prems"(2) unfolding dec_nat_large [OF False] by simp
    moreover have "0 \<le> n div 10" using False by (simp add: pos_imp_zdiv_nonneg_iff)
    ultimately have "n div 10 = 0" using "1.IH" [OF False] by blast
    with False show ?thesis by simp
  qed
qed

lemma dec_nat_zero [simp]: "dec_nat 0 = [48]"
  by (simp add: dec_nat_small)

lemmas bytes_exec [exec] = dec_nat_small dec_nat_large byte_of_def utf8_char_def cont_def pack_u32_def unpack_u32_def hex_digit_def
  is_hex_lower_def hex_value_def hex_of_bytes_def is_hex32_def digest_prefix_def is_digest_def uuid_shape_def is_uuid_def
  dec_int_def is_digit_def digits_value_def

end
