(* ===== verification/Py_Json.thy ===== *)
theory Py_Json imports Main Prelude Py_Path Py_Bytes begin

text \<open>
  The part of Python's \<open>json\<close> the modules use: \<open>json.loads\<close>, plain (the last value
  of a repeated key wins) or with an \<open>object_pairs_hook\<close> that refuses a repeated key;
  the canonical encoder of \<open>src/palimpsest_local/oci_provenance.py\<close>
  (\<open>canonical_json_bytes\<close>: sorted keys, compact separators, no ASCII escaping, no NaN,
  strict UTF-8) and \<open>json.dumps\<close> with sorted keys, compact separators and its default
  ASCII escaping.

  The code tests a floating point number in one way only, by comparing it with an
  integer, so the model keeps of a float the integer it equals, if any: \<open>JFifteen\<close> is
  15.0, the one float an accepted message can carry on (it prints as \<open>15.0\<close>), and
  \<open>JFloat\<close> any other (\<open>None\<close> for a fraction, NaN or an infinity; nothing that accepts
  one of those serialises it, and \<open>dump\<close> has no text for it).

  The scanner recurses for every array and object it enters, and past the interpreter's
  recursion limit it raises \<open>RecursionError\<close> (\<open>JDeep\<close>). How many levels are left depends
  on the caller's stack: it is a field of the hook, \<open>None\<close> for more than the text can need.
  The frames of a hook call are not counted apart.
\<close>

datatype json = JNull | JBool bool | JInt int | JFifteen | JFloat "int option" | JStr ustr
  | JArr "json list" | JObj "(ustr \<times> json) list"

section \<open>The canonical encoder\<close>

definition esc_char :: "int \<Rightarrow> ustr" where
  "esc_char c =
     (if c = 34 then [92, 34] else if c = 92 then [92, 92]
      else if c = 8 then [92, 98] else if c = 9 then [92, 116] else if c = 10 then [92, 110]
      else if c = 12 then [92, 102] else if c = 13 then [92, 114]
      else if c < 32 then [92, 117, 48, 48, hex_digit (c div 16), hex_digit (c mod 16)]
      else [c])"

definition dump_str :: "ustr \<Rightarrow> ustr" where
  "dump_str s = 34 # concat (map esc_char s) @ [34]"

text \<open>\<open>int.__repr__\<close> and \<open>int()\<close> refuse more than 4300 digits.\<close>

definition max_digits :: nat where "max_digits = 4300"

fun dump :: "json \<Rightarrow> ustr option"
  and dump_items :: "json list \<Rightarrow> ustr option"
  and dump_pairs :: "(ustr \<times> json) list \<Rightarrow> ustr option" where
  "dump JNull = Some (ul ''null'')"
| "dump (JBool b) = Some (if b then ul ''true'' else ul ''false'')"
| "dump (JInt i) = (if length (dec_nat \<bar>i\<bar>) \<le> max_digits then Some (dec_int i) else None)"
| "dump JFifteen = Some (ul ''15.0'')"
| "dump (JFloat x) = None"
| "dump (JStr s) = Some (dump_str s)"
| "dump (JArr vs) = map_option ((#) 91) (dump_items vs)"
| "dump (JObj ps) = map_option ((#) 123) (dump_pairs ps)"
| "dump_items [] = Some [93]"
| "dump_items (v # vs) =
     (case dump v of None \<Rightarrow> None
      | Some a \<Rightarrow> (if vs = [] then Some (a @ [93])
                   else map_option (\<lambda>b. a @ 44 # b) (dump_items vs)))"
| "dump_pairs [] = Some [125]"
| "dump_pairs (p # ps) =
     (case dump (snd p) of None \<Rightarrow> None
      | Some a \<Rightarrow> (if ps = [] then Some (dump_str (fst p) @ 58 # a @ [125])
                   else map_option (\<lambda>b. dump_str (fst p) @ 58 # a @ 44 # b) (dump_pairs ps)))"

text \<open>\<open>sort_keys\<close>: every object's items in the order of their keys.\<close>

primrec canon :: "json \<Rightarrow> json" where
  "canon JNull = JNull"
| "canon (JBool b) = JBool b"
| "canon (JInt i) = JInt i"
| "canon JFifteen = JFifteen"
| "canon (JFloat x) = JFloat x"
| "canon (JStr s) = JStr s"
| "canon (JArr vs) = JArr (map canon vs)"
| "canon (JObj ps) = JObj (sort_key fst (map (map_prod id canon) ps))"

definition canonical_json_bytes :: "json \<Rightarrow> bytes option" where
  "canonical_json_bytes v = (case dump (canon v) of None \<Rightarrow> None | Some t \<Rightarrow> utf8_encode t)"

section \<open>The decoder\<close>

text \<open>
  Text that is not JSON, a key the hook refuses, a constant (NaN, an infinity) the hook refuses,
  an integer of more than 4300 digits (a plain \<open>ValueError\<close>, not a \<open>JSONDecodeError\<close>), the recursion limit,
  and fuel.
\<close>

datatype jerr = JBad | JDup | JConst | JLong | JDeep | JFuel

definition is_ws :: "int \<Rightarrow> bool" where
  "is_ws c \<longleftrightarrow> c = 32 \<or> c = 9 \<or> c = 10 \<or> c = 13"

definition skip_ws :: "ustr \<Rightarrow> ustr" where
  "skip_ws s = dropWhile is_ws s"

definition is_hex_any :: "int \<Rightarrow> bool" where
  "is_hex_any c \<longleftrightarrow> is_hex_lower c \<or> 65 \<le> c \<and> c \<le> 70"

definition hex4 :: "ustr \<Rightarrow> int option" where
  "hex4 s = (if 4 \<le> length s \<and> list_all is_hex_any (take 4 s)
             then Some (foldl (\<lambda>a c. a * 16 + hex_value c) 0 (take 4 s)) else None)"

text \<open>A \<open>\\u\<close> escape of a low surrogate at the front of the text.\<close>

definition low_escape :: "ustr \<Rightarrow> int option" where
  "low_escape s =
     (if take 2 s = [92, 117] then
        (case hex4 (drop 2 s) of None \<Rightarrow> None
         | Some l \<Rightarrow> if 56320 \<le> l \<and> l < 57344 then Some l else None)
      else None)"

definition simple_escape :: "int \<Rightarrow> int option" where
  "simple_escape e =
     (if e = 34 \<or> e = 92 \<or> e = 47 then Some e
      else if e = 98 then Some 8 else if e = 102 then Some 12 else if e = 110 then Some 10
      else if e = 114 then Some 13 else if e = 116 then Some 9 else None)"

text \<open>The text after an opening quote: the string and what follows its closing quote.\<close>

fun scan_str :: "ustr \<Rightarrow> (ustr \<times> ustr) option" where
  "scan_str [] = None"
| "scan_str (c # r) =
     (if c = 34 then Some ([], r)
      else if c = 92 then
        (case r of
           [] \<Rightarrow> None
         | e # r1 \<Rightarrow>
             if e = 117 then
               (case hex4 r1 of
                  None \<Rightarrow> None
                | Some u \<Rightarrow>
                    if 55296 \<le> u \<and> u < 56320 then
                      (case low_escape (drop 4 r1) of
                         Some l \<Rightarrow> map_option (map_prod ((#) (65536 + (u - 55296) * 1024 + (l - 56320))) id)
                                     (scan_str (drop 10 r1))
                       | None \<Rightarrow> map_option (map_prod ((#) u) id) (scan_str (drop 4 r1)))
                    else map_option (map_prod ((#) u) id) (scan_str (drop 4 r1)))
             else (case simple_escape e of
                     None \<Rightarrow> None
                   | Some x \<Rightarrow> map_option (map_prod ((#) x) id) (scan_str r1)))
      else if c < 32 then None
      else map_option (map_prod ((#) c) id) (scan_str r))"

text \<open>
  Numbers. The double nearest to a decimal \<open>m * 10 ^ e\<close> is 15 when the decimal is at most
  half a unit in the last place (\<open>2 ^ -50\<close>) away from 15, ties going to the even 15.
\<close>

definition decimal_is_15 :: "int \<Rightarrow> int \<Rightarrow> bool" where
  "decimal_is_15 m e =
     (if 0 \<le> e then m * 10 ^ nat e = 15
      else \<bar>m * 2 ^ 50 - 15 * 2 ^ 50 * 10 ^ nat (- e)\<bar> \<le> 10 ^ nat (- e))"

text \<open>
  The integer the nearest double equals, for a decimal written as the fraction \<open>p / q\<close>:
  the significand has 53 bits and is rounded half to even, a value of at least
  \<open>2 ^ 1024 - 2 ^ 970\<close> becomes infinite and one of at most \<open>2 ^ -1075\<close> zero.
\<close>

fun bit_count :: "nat \<Rightarrow> nat" where
  "bit_count n = (if n = 0 then 0 else Suc (bit_count (n div 2)))"

declare bit_count.simps [simp del]

definition round_half_even :: "int \<Rightarrow> int \<Rightarrow> int" where
  "round_half_even p q =
     (let d = p div q; r = 2 * (p mod q) in if r > q \<or> r = q \<and> odd d then d + 1 else d)"

definition double_int :: "int \<Rightarrow> int \<Rightarrow> int option" where
  "double_int p q =
     (if p * 2 ^ 1075 \<le> q then Some 0
      else if (2 ^ 1024 - 2 ^ 970) * q \<le> p then None
      else if p < q then (if round_half_even (p * 2 ^ 53) q = 2 ^ 53 then Some 1 else None)
      else
        (let bits = bit_count (nat (p div q))
         in if 53 \<le> bits then Some (round_half_even p (q * 2 ^ (bits - 53)) * 2 ^ (bits - 53))
            else (let m = round_half_even (p * 2 ^ (53 - bits)) q
                  in if m mod 2 ^ (53 - bits) = 0 then Some (m div 2 ^ (53 - bits)) else None)))"

definition decimal_int :: "int \<Rightarrow> int \<Rightarrow> int option" where
  "decimal_int m e = (if 0 \<le> e then double_int (m * 10 ^ nat e) 1 else double_int m (10 ^ nat (- e)))"

definition scan_frac :: "ustr \<Rightarrow> ustr \<times> ustr" where
  "scan_frac s =
     (if s \<noteq> [] \<and> hd s = 46 \<and> takeWhile is_digit (tl s) \<noteq> []
      then (takeWhile is_digit (tl s), dropWhile is_digit (tl s)) else ([], s))"

definition scan_exp :: "ustr \<Rightarrow> int option \<times> ustr" where
  "scan_exp s =
     (if s \<noteq> [] \<and> (hd s = 101 \<or> hd s = 69) then
        (let r = tl s;
             signed = (r \<noteq> [] \<and> (hd r = 43 \<or> hd r = 45));
             ds = (if signed then tl r else r)
         in if takeWhile is_digit ds = [] then (None, s)
            else (Some (if signed \<and> hd r = 45 then - digits_value (takeWhile is_digit ds)
                        else digits_value (takeWhile is_digit ds)),
                  dropWhile is_digit ds))
      else (None, s))"

definition scan_digits :: "ustr \<Rightarrow> (ustr \<times> ustr) option" where
  "scan_digits s =
     (case s of
        [] \<Rightarrow> None
      | c # r \<Rightarrow> if c = 48 then Some ([48], r)
                 else if is_digit c then Some (takeWhile is_digit s, dropWhile is_digit s) else None)"

definition scan_number :: "ustr \<Rightarrow> (json \<times> ustr) option" where
  "scan_number s =
     (let neg = (s \<noteq> [] \<and> hd s = 45); s0 = (if neg then tl s else s)
      in case scan_digits s0 of
           None \<Rightarrow> None
         | Some (ds, r) \<Rightarrow>
             (let (fs, r1) = scan_frac r; (ex, r2) = scan_exp r1
              in if fs = [] \<and> ex = None then
                   (if length ds \<le> max_digits
                    then Some (JInt (if neg then - digits_value ds else digits_value ds), r2) else None)
                 else
                   (let m = digits_value (ds @ fs); e = (case ex of None \<Rightarrow> 0 | Some e \<Rightarrow> e) - int (length fs)
                    in Some (if \<not> neg \<and> decimal_is_15 m e then JFifteen
                             else JFloat (map_option (\<lambda>i. if neg then - i else i) (decimal_int m e)), r2))))"

definition scan_literal :: "ustr \<Rightarrow> (json \<times> ustr) option" where
  "scan_literal s =
     (if starts_with s (ul ''null'') then Some (JNull, drop 4 s)
      else if starts_with s (ul ''true'') then Some (JBool True, drop 4 s)
      else if starts_with s (ul ''false'') then Some (JBool False, drop 5 s)
      else if starts_with s (ul ''NaN'') then Some (JFloat None, drop 3 s)
      else if starts_with s (ul ''Infinity'') then Some (JFloat None, drop 8 s)
      else if starts_with s (ul ''-Infinity'') then Some (JFloat None, drop 9 s)
      else scan_number s)"

definition is_constant :: "ustr \<Rightarrow> bool" where
  "is_constant s \<longleftrightarrow> starts_with s (ul ''NaN'') \<or> starts_with s (ul ''Infinity'') \<or> starts_with s (ul ''-Infinity'')"

definition long_number :: "ustr \<Rightarrow> bool" where
  "long_number s \<longleftrightarrow> scan_digits (if s \<noteq> [] \<and> hd s = 45 then tl s else s) \<noteq> None"

text \<open>
  The hooks: \<open>object_pairs_hook\<close> runs when an object is complete (\<open>_reject_pairs\<close>, or the plain
  \<open>dict(pairs)\<close>), and \<open>parse_constant\<close> on NaN and the infinities, which \<open>json.loads\<close> accepts
  without one.
\<close>

record hook =
  hk_pairs :: "(ustr \<times> json) list \<Rightarrow> jerr + json"
  hk_constants :: bool
  hk_levels :: "nat option"

text \<open>Entering an array or an object takes one level, before its first character is looked at.\<close>

definition hk_enter :: "hook \<Rightarrow> hook option" where
  "hk_enter hk =
     (case hk_levels hk of
        None \<Rightarrow> Some hk
      | Some 0 \<Rightarrow> None
      | Some (Suc k) \<Rightarrow> Some (hk\<lparr>hk_levels := Some k\<rparr>))"

definition reject_pairs :: "(ustr \<times> json) list \<Rightarrow> jerr + json" where
  "reject_pairs ps = (if distinct (map fst ps) then Inr (JObj ps) else Inl JDup)"

definition last_wins :: "(ustr \<times> json) list \<Rightarrow> jerr + json" where
  "last_wins ps = Inr (JObj (fold (\<lambda>(k, v). AList.update k v) ps []))"

text \<open>
  The scanner, on fuel. At most two steps down share a position of the text, so fuel above
  twice its length is never used up (\<open>scan_consumes\<close>).
\<close>

fun scan_value :: "hook \<Rightarrow> nat \<Rightarrow> ustr \<Rightarrow> jerr + json \<times> ustr"
  and scan_items :: "hook \<Rightarrow> nat \<Rightarrow> ustr \<Rightarrow> jerr + json list \<times> ustr"
  and scan_pairs :: "hook \<Rightarrow> nat \<Rightarrow> ustr \<Rightarrow> jerr + (ustr \<times> json) list \<times> ustr" where
  "scan_value hk 0 s = Inl JFuel"
| "scan_value hk (Suc n) s =
     (case s of
        [] \<Rightarrow> Inl JBad
      | c # r \<Rightarrow>
          if c = 34 then
            (case scan_str r of None \<Rightarrow> Inl JBad | Some (x, r1) \<Rightarrow> Inr (JStr x, r1))
          else if c = 91 then
            (case hk_enter hk of
               None \<Rightarrow> Inl JDeep
             | Some hk1 \<Rightarrow>
                 (case skip_ws r of
                    [] \<Rightarrow> Inl JBad
                  | d # r1 \<Rightarrow>
                      if d = 93 then Inr (JArr [], r1)
                      else rbind (scan_items hk1 n (d # r1)) (\<lambda>(vs, r2). Inr (JArr vs, r2))))
          else if c = 123 then
            (case hk_enter hk of
               None \<Rightarrow> Inl JDeep
             | Some hk1 \<Rightarrow>
                 (case skip_ws r of
                    [] \<Rightarrow> Inl JBad
                  | d # r1 \<Rightarrow>
                      if d = 125 then Inr (JObj [], r1)
                      else rbind (scan_pairs hk1 n (d # r1)) (\<lambda>(ps, r2).
                           rbind (hk_pairs hk ps) (\<lambda>v. Inr (v, r2)))))
          else (case scan_literal s of
                  None \<Rightarrow> Inl (if long_number s then JLong else JBad)
                | Some vr \<Rightarrow> if hk_constants hk \<or> \<not> is_constant s then Inr vr else Inl JConst))"
| "scan_items hk 0 s = Inl JFuel"
| "scan_items hk (Suc n) s =
     rbind (scan_value hk n s) (\<lambda>(v, r).
       case skip_ws r of
         [] \<Rightarrow> Inl JBad
       | c # r1 \<Rightarrow>
           if c = 93 then Inr ([v], r1)
           else if c = 44 then rbind (scan_items hk n (skip_ws r1)) (\<lambda>(vs, r2). Inr (v # vs, r2))
           else Inl JBad)"
| "scan_pairs hk 0 s = Inl JFuel"
| "scan_pairs hk (Suc n) s =
     (case s of
        [] \<Rightarrow> Inl JBad
      | q # r \<Rightarrow>
          if q \<noteq> 34 then Inl JBad
          else case scan_str r of
            None \<Rightarrow> Inl JBad
          | Some (k, r1) \<Rightarrow>
              (case skip_ws r1 of
                 [] \<Rightarrow> Inl JBad
               | c # r2 \<Rightarrow>
                   if c \<noteq> 58 then Inl JBad
                   else rbind (scan_value hk n (skip_ws r2)) (\<lambda>(v, r3).
                     case skip_ws r3 of
                       [] \<Rightarrow> Inl JBad
                     | e # r4 \<Rightarrow>
                         if e = 125 then Inr ([(k, v)], r4)
                         else if e = 44 then
                           rbind (scan_pairs hk n (skip_ws r4)) (\<lambda>(ps, r5). Inr ((k, v) # ps, r5))
                         else Inl JBad)))"

definition loads_with :: "hook \<Rightarrow> ustr \<Rightarrow> jerr + json" where
  "loads_with hk s =
     (if s \<noteq> [] \<and> hd s = 65279 then Inl JBad
      else rbind (scan_value hk (Suc (2 * length s)) (skip_ws s)) (\<lambda>(v, r).
           if skip_ws r = [] then Inr v else Inl JBad))"

definition loads :: "ustr \<Rightarrow> jerr + json" where
  "loads = loads_with \<lparr>hk_pairs = reject_pairs, hk_constants = True, hk_levels = None\<rparr>"

definition loads_plain :: "ustr \<Rightarrow> jerr + json" where
  "loads_plain = loads_with \<lparr>hk_pairs = last_wins, hk_constants = True, hk_levels = None\<rparr>"

text \<open>Neither a repeated key nor a constant: the strict readers of the image modules.\<close>

definition loads_strict :: "ustr \<Rightarrow> jerr + json" where
  "loads_strict = loads_with \<lparr>hk_pairs = reject_pairs, hk_constants = False, hk_levels = None\<rparr>"

text \<open>The same with the levels the interpreter's stack still has.\<close>

definition loads_plain_at :: "nat option \<Rightarrow> ustr \<Rightarrow> jerr + json" where
  "loads_plain_at lv = loads_with \<lparr>hk_pairs = last_wins, hk_constants = True, hk_levels = lv\<rparr>"

definition loads_strict_at :: "nat option \<Rightarrow> ustr \<Rightarrow> jerr + json" where
  "loads_strict_at lv = loads_with \<lparr>hk_pairs = reject_pairs, hk_constants = False, hk_levels = lv\<rparr>"

lemma loads_at_None [simp]: "loads_plain_at None = loads_plain" "loads_strict_at None = loads_strict"
  by (simp_all add: loads_plain_at_def loads_plain_def loads_strict_at_def loads_strict_def)

section \<open>\<open>json.dumps\<close> with its default ASCII escaping\<close>

definition u_escape :: "int \<Rightarrow> ustr" where
  "u_escape c = [92, 117, hex_digit (c div 4096 mod 16), hex_digit (c div 256 mod 16),
                 hex_digit (c div 16 mod 16), hex_digit (c mod 16)]"

definition ascii_char :: "int \<Rightarrow> ustr" where
  "ascii_char c =
     (if c < 127 then [c]
      else if c < 65536 then u_escape c
      else u_escape (55296 + (c - 65536) div 1024) @ u_escape (56320 + (c - 65536) mod 1024))"

definition json_dumps :: "json \<Rightarrow> ustr option" where
  "json_dumps v = map_option (\<lambda>t. concat (map ascii_char t)) (dump (canon v))"

lemma bit_count_unfold:
  "bit_count 0 = 0"
  "0 < n \<Longrightarrow> bit_count n = Suc (bit_count (n div 2))"
  by (simp_all add: bit_count.simps)

lemmas scan_numeral [exec] =
  scan_value.simps(2) [of _ "pred_numeral k" for k, folded numeral_eq_Suc]
  scan_items.simps(2) [of _ "pred_numeral k" for k, folded numeral_eq_Suc]
  scan_pairs.simps(2) [of _ "pred_numeral k" for k, folded numeral_eq_Suc]

lemmas json_exec [exec] = esc_char_def dump_str_def max_digits_def canonical_json_bytes_def is_ws_def skip_ws_def
  is_hex_any_def hex4_def low_escape_def simple_escape_def decimal_is_15_def scan_frac_def scan_exp_def
  scan_digits_def scan_number_def scan_literal_def bit_count_unfold round_half_even_def double_int_def decimal_int_def
  reject_pairs_def last_wins_def hk_enter_def loads_with_def loads_def loads_plain_def loads_strict_def
  loads_plain_at_def loads_strict_at_def is_constant_def long_number_def u_escape_def ascii_char_def json_dumps_def

end
