(* ===== verification/Py_Json_Props.thy ===== *)
theory Py_Json_Props imports Main Py_Json begin

text \<open>
  Facts of the JSON layer: the scanner's fuel is never used up, and the canonical text of
  a value with distinct keys scans back to that value.
\<close>

section \<open>Every scanner consumes its input\<close>

lemma length_skip_ws: "length (skip_ws s) \<le> length s"
  by (simp add: skip_ws_def length_dropWhile_le)

lemma scan_str_shorter: "scan_str s = Some (x, r) \<Longrightarrow> length r < length s"
proof (induction s arbitrary: x r rule: measure_induct_rule [where f = length])
  case (less s)
  have ih: "scan_str t = Some (y, r) \<Longrightarrow> length t < length s \<Longrightarrow> length r < length s" for t y
    using less.IH by fastforce
  from less.prems show ?case
    by (cases s) (auto split: if_splits list.splits option.splits dest!: ih)
qed

lemma scan_digits_shorter: "scan_digits s = Some (ds, r) \<Longrightarrow> length r < length s"
  by (auto simp: scan_digits_def length_dropWhile_le less_Suc_eq_le split: list.splits if_splits)

lemma scan_frac_length: "length (snd (scan_frac s)) \<le> length s"
proof -
  have "length (dropWhile is_digit (tl s)) \<le> length (tl s)" by (rule length_dropWhile_le)
  then show ?thesis by (auto simp: scan_frac_def)
qed

lemma scan_exp_length: "length (snd (scan_exp s)) \<le> length s"
proof -
  have "length (dropWhile is_digit (tl s)) \<le> length (tl s)" "length (dropWhile is_digit (tl (tl s))) \<le> length (tl (tl s))"
    by (rule length_dropWhile_le)+
  then show ?thesis by (auto simp: scan_exp_def Let_def)
qed

lemma scan_number_shorter: "scan_number s = Some (v, r) \<Longrightarrow> length r < length s"
proof -
  assume s: "scan_number s = Some (v, r)"
  let ?s0 = "if s \<noteq> [] \<and> hd s = 45 then tl s else s"
  from s obtain ds r0 where d: "scan_digits ?s0 = Some (ds, r0)"
    by (auto simp: scan_number_def Let_def split: option.splits)
  have "r = snd (scan_exp (snd (scan_frac r0)))"
    using s unfolding scan_number_def Let_def d by (auto split: prod.splits if_splits)
  then have "length r \<le> length r0"
    using scan_exp_length scan_frac_length order_trans by metis
  moreover have "length r0 < length ?s0" using scan_digits_shorter [OF d] .
  moreover have "length ?s0 \<le> length s" by simp
  ultimately show ?thesis by linarith
qed

lemma starts_with_ne: "starts_with s p \<Longrightarrow> p \<noteq> [] \<Longrightarrow> s \<noteq> []"
  by (auto simp: starts_with_def)

lemma scan_literal_shorter: "scan_literal s = Some (v, r) \<Longrightarrow> length r < length s"
  unfolding scan_literal_def
  by (auto dest: starts_with_ne scan_number_shorter split: if_splits)

lemma skip_ws_Cons: "skip_ws r = c # r1 \<Longrightarrow> length r1 < length r"
  using length_skip_ws [of r] by simp

definition consumes :: "ustr \<Rightarrow> jerr + 'v \<times> ustr \<Rightarrow> bool" where
  "consumes s res \<longleftrightarrow> res \<noteq> Inl JFuel \<and> (\<forall>v r. res = Inr (v, r) \<longrightarrow> length r < length s)"

lemma consumes_simps [simp]:
  "consumes s (Inl e) \<longleftrightarrow> e \<noteq> JFuel"
  "consumes s (Inr (v, r)) \<longleftrightarrow> length r < length s"
  by (auto simp: consumes_def)

lemma consumes_mono: "consumes s res \<Longrightarrow> length s \<le> length t \<Longrightarrow> consumes t res"
  by (fastforce simp: consumes_def)

lemma consumes_rbind:
  "consumes s m \<Longrightarrow> (\<And>v r. m = Inr (v, r) \<Longrightarrow> length r < length s \<Longrightarrow> consumes t (f (v, r))) \<Longrightarrow> consumes t (rbind m f)"
  by (cases m) (auto simp: consumes_def)

text \<open>
  What the scanner relies on of a hook: it is no source of \<open>JFuel\<close> or \<open>JDeep\<close>, and keeps an object
  with distinct keys. Entering a value changes nothing but the levels.
\<close>

definition hook_ok :: "hook \<Rightarrow> bool" where
  "hook_ok hk \<longleftrightarrow>
     (\<forall>ps. hk_pairs hk ps \<noteq> Inl JFuel \<and> hk_pairs hk ps \<noteq> Inl JDeep \<and>
           (distinct (map fst ps) \<longrightarrow> hk_pairs hk ps = Inr (JObj ps)))"

lemma hook_ok_reject [simp]: "hook_ok \<lparr>hk_pairs = reject_pairs, hk_constants = b, hk_levels = l\<rparr>"
  by (auto simp: hook_ok_def reject_pairs_def)

lemma hk_enter_cases:
  obtains "hk_enter hk = None" "hk_levels hk = Some 0"
  | "hk_enter hk = Some hk" "hk_levels hk = None"
  | k where "hk_enter hk = Some (hk\<lparr>hk_levels := Some k\<rparr>)" "hk_levels hk = Some (Suc k)"
proof (cases "hk_levels hk")
  case (Some k)
  with that show ?thesis by (cases k) (auto simp: hk_enter_def)
qed (use that in \<open>simp add: hk_enter_def\<close>)

lemma hk_enter_None [simp]: "hk_levels hk = None \<Longrightarrow> hk_enter hk = Some hk"
  by (simp add: hk_enter_def)

lemma hk_enter_keeps: "hk_enter hk = Some hk' \<Longrightarrow> hk_pairs hk' = hk_pairs hk \<and> hk_constants hk' = hk_constants hk"
  by (rule hk_enter_cases [of hk]) auto

lemma hk_enter_ok: "hk_enter hk = Some hk' \<Longrightarrow> hook_ok hk' = hook_ok hk"
  using hk_enter_keeps by (auto simp: hook_ok_def)

lemma update_new: "k \<notin> fst ` set d \<Longrightarrow> AList.update k v d = d @ [(k, v)]"
  by (induction d) auto

lemma fold_update_distinct:
  "distinct (map fst ps) \<Longrightarrow> fst ` set d \<inter> fst ` set ps = {} \<Longrightarrow>
   fold (\<lambda>(k, v). AList.update k v) ps d = d @ ps"
  by (induction ps arbitrary: d) (auto simp: update_new)

lemma hook_ok_last_wins [simp]: "hook_ok \<lparr>hk_pairs = last_wins, hk_constants = b, hk_levels = l\<rparr>"
  by (auto simp: hook_ok_def last_wins_def fold_update_distinct [of _ "[]", simplified])

lemma scan_value_consumes:
  assumes hk: "hook_ok hk" and i: "\<And>hk s. hook_ok hk \<Longrightarrow> 2 * length s + 1 < n \<Longrightarrow> consumes s (scan_items hk n s)"
    and p: "\<And>hk s. hook_ok hk \<Longrightarrow> 2 * length s + 1 < n \<Longrightarrow> consumes s (scan_pairs hk n s)"
    and len: "2 * length s < Suc n"
  shows "consumes s (scan_value hk (Suc n) s)"
proof (cases s)
  case (Cons c r)
  consider "c = 34" | "c = 91" | "c = 123" | "c \<noteq> 34" "c \<noteq> 91" "c \<noteq> 123" by blast
  then show ?thesis
  proof cases
    case 1
    with Cons show ?thesis by (auto dest!: scan_str_shorter split: option.splits)
  next
    case 2
    show ?thesis
    proof (cases "hk_enter hk")
      case (Some hk1)
      have ok: "hook_ok hk1" using hk hk_enter_ok [OF Some] by simp
      show ?thesis
      proof (cases "skip_ws r")
        case (Cons d r1)
        note sk = skip_ws_Cons [OF Cons]
        have "consumes (d # r1) (scan_items hk1 n (d # r1))" using i [OF ok] sk len \<open>s = c # r\<close> by simp
        then have "consumes s (rbind (scan_items hk1 n (d # r1)) (\<lambda>(vs, r2). Inr (JArr vs, r2)))"
          by (rule consumes_rbind) (use sk \<open>s = c # r\<close> in simp)
        then show ?thesis using 2 sk \<open>s = c # r\<close> Cons Some by simp
      qed (use 2 Cons Some in simp)
    qed (use 2 Cons in simp)
  next
    case 3
    show ?thesis
    proof (cases "hk_enter hk")
      case (Some hk1)
      have ok: "hook_ok hk1" using hk hk_enter_ok [OF Some] by simp
      show ?thesis
      proof (cases "skip_ws r")
        case (Cons d r1)
        note sk = skip_ws_Cons [OF Cons]
        have "consumes (d # r1) (scan_pairs hk1 n (d # r1))" using p [OF ok] sk len \<open>s = c # r\<close> by simp
        then have "consumes s (rbind (scan_pairs hk1 n (d # r1)) (\<lambda>(ps, r2). rbind (hk_pairs hk ps) (\<lambda>v. Inr (v, r2))))"
          by (rule consumes_rbind) (use sk hk \<open>s = c # r\<close> in \<open>auto simp: hook_ok_def consumes_def res_simps split_beta\<close>)
        then show ?thesis using 3 sk \<open>s = c # r\<close> Cons Some by simp
      qed (use 3 Cons Some in simp)
    qed (use 3 Cons in simp)
  next
    case 4
    with Cons show ?thesis by (auto dest!: scan_literal_shorter split: option.splits)
  qed
qed simp

lemma scan_items_consumes:
  assumes v: "consumes s (scan_value hk n s)"
    and i: "\<And>t. length t < length s \<Longrightarrow> consumes t (scan_items hk n t)"
  shows "consumes s (scan_items hk (Suc n) s)"
  unfolding scan_items.simps
proof (rule consumes_rbind [OF v], clarify)
  fix x and r :: ustr assume r: "length r < length s"
  show "consumes s (case skip_ws r of [] \<Rightarrow> Inl JBad
      | c # r1 \<Rightarrow> if c = 93 then Inr ([x], r1)
                 else if c = 44 then rbind (scan_items hk n (skip_ws r1)) (\<lambda>(vs, r2). Inr (x # vs, r2)) else Inl JBad)"
  proof (cases "skip_ws r")
    case (Cons c r1)
    have len: "length r1 < length r" "length (skip_ws r1) \<le> length r1"
      using skip_ws_Cons [OF Cons] length_skip_ws by auto
    then have "consumes (skip_ws r1) (scan_items hk n (skip_ws r1))" using i r by simp
    then have "consumes s (rbind (scan_items hk n (skip_ws r1)) (\<lambda>(vs, r2). Inr (x # vs, r2)))"
      by (rule consumes_rbind) (use len r in simp)
    with Cons len r show ?thesis by simp
  qed simp
qed

lemma scan_pairs_consumes:
  assumes v: "\<And>t. length t < length s \<Longrightarrow> consumes t (scan_value hk n t)"
    and i: "\<And>t. length t < length s \<Longrightarrow> consumes t (scan_pairs hk n t)"
  shows "consumes s (scan_pairs hk (Suc n) s)"
proof (cases "\<exists>r k r1 r2. s = 34 # r \<and> scan_str r = Some (k, r1) \<and> skip_ws r1 = 58 # r2")
  case False
  then show ?thesis by (auto split: list.splits option.splits)
next
  case True
  then obtain r k r1 r2 where s: "s = 34 # r" "scan_str r = Some (k, r1)" "skip_ws r1 = 58 # r2" by blast
  have len2: "length (skip_ws r2) < length s"
    using scan_str_shorter [OF s(2)] skip_ws_Cons [OF s(3)] length_skip_ws [of r2] s(1) by simp
  have "consumes s (rbind (scan_value hk n (skip_ws r2)) (\<lambda>(v, r3).
      case skip_ws r3 of [] \<Rightarrow> Inl JBad
      | e # r4 \<Rightarrow> if e = 125 then Inr ([(k, v)], r4)
                 else if e = 44 then rbind (scan_pairs hk n (skip_ws r4)) (\<lambda>(ps, r5). Inr ((k, v) # ps, r5))
                 else Inl JBad))"
  proof (rule consumes_rbind [OF v [OF len2]], clarify)
    fix x and r3 :: ustr assume r3: "length r3 < length (skip_ws r2)"
    show "consumes s (case skip_ws r3 of [] \<Rightarrow> Inl JBad
        | e # r4 \<Rightarrow> if e = 125 then Inr ([(k, x)], r4)
                   else if e = 44 then rbind (scan_pairs hk n (skip_ws r4)) (\<lambda>(ps, r5). Inr ((k, x) # ps, r5))
                   else Inl JBad)"
    proof (cases "skip_ws r3")
      case (Cons e r4)
      have len: "length r4 < length r3" "length (skip_ws r4) \<le> length r4"
        using skip_ws_Cons [OF Cons] length_skip_ws by auto
      then have "consumes (skip_ws r4) (scan_pairs hk n (skip_ws r4))" using i r3 len2 by simp
      then have "consumes s (rbind (scan_pairs hk n (skip_ws r4)) (\<lambda>(ps, r5). Inr ((k, x) # ps, r5)))"
        by (rule consumes_rbind) (use len r3 len2 in simp)
      with Cons len r3 len2 show ?thesis by simp
    qed simp
  qed
  with s show ?thesis by simp
qed

lemma scan_consumes:
  "(\<forall>hk s. hook_ok hk \<longrightarrow> 2 * length s < n \<longrightarrow> consumes s (scan_value hk n s)) \<and>
   (\<forall>hk s. hook_ok hk \<longrightarrow> 2 * length s + 1 < n \<longrightarrow> consumes s (scan_items hk n s)) \<and>
   (\<forall>hk s. hook_ok hk \<longrightarrow> 2 * length s + 1 < n \<longrightarrow> consumes s (scan_pairs hk n s))"
proof (induction n)
  case (Suc n)
  then have v: "\<And>hk s. hook_ok hk \<Longrightarrow> 2 * length s < n \<Longrightarrow> consumes s (scan_value hk n s)"
    and i: "\<And>hk s. hook_ok hk \<Longrightarrow> 2 * length s + 1 < n \<Longrightarrow> consumes s (scan_items hk n s)"
    and p: "\<And>hk s. hook_ok hk \<Longrightarrow> 2 * length s + 1 < n \<Longrightarrow> consumes s (scan_pairs hk n s)" by auto
  show ?case
  proof (intro conjI allI impI)
    fix hk :: hook and s :: ustr assume ok: "hook_ok hk"
    show "consumes s (scan_value hk (Suc n) s)" if "2 * length s < Suc n"
      using scan_value_consumes [OF ok i p that] .
    show "consumes s (scan_items hk (Suc n) s)" if "2 * length s + 1 < Suc n"
      by (rule scan_items_consumes) (use that v i ok in auto)
    show "consumes s (scan_pairs hk (Suc n) s)" if "2 * length s + 1 < Suc n"
      by (rule scan_pairs_consumes) (use that v p ok in auto)
  qed
qed simp

lemma loads_with_no_fuel:
  assumes "hook_ok hk"
  shows "loads_with hk s \<noteq> Inl JFuel"
proof -
  have "2 * length (skip_ws s) < Suc (2 * length s)" using length_skip_ws [of s] by simp
  then have c: "consumes (skip_ws s) (scan_value hk (Suc (2 * length s)) (skip_ws s))" using scan_consumes assms by blast
  then show ?thesis
    by (cases "scan_value hk (Suc (2 * length s)) (skip_ws s)") (auto simp: loads_with_def simp del: scan_value.simps split: if_splits)
qed

lemma loads_no_fuel: "loads s \<noteq> Inl JFuel" "loads_plain s \<noteq> Inl JFuel" "loads_strict s \<noteq> Inl JFuel"
  by (simp_all add: loads_def loads_plain_def loads_strict_def loads_with_no_fuel)

section \<open>The canonical text scans back\<close>

text \<open>The values \<open>json.loads\<close> can return and \<open>dumps\<close> can print: distinct keys, code points in strings.\<close>

definition wf_str :: "ustr \<Rightarrow> bool" where
  "wf_str s \<longleftrightarrow> (\<forall>c \<in> set s. 0 \<le> c)"

primrec wf_json :: "json \<Rightarrow> bool" where
  "wf_json JNull = True"
| "wf_json (JBool b) = True"
| "wf_json (JInt i) = True"
| "wf_json JFifteen = True"
| "wf_json (JFloat x) = True"
| "wf_json (JStr s) = wf_str s"
| "wf_json (JArr vs) = list_all (\<lambda>b. b) (map wf_json vs)"
| "wf_json (JObj ps) = (distinct (map fst ps) \<and> list_all (\<lambda>(k, b). wf_str k \<and> b) (map (map_prod id wf_json) ps))"

lemma wf_json_JArr [simp]: "wf_json (JArr vs) \<longleftrightarrow> (\<forall>v \<in> set vs. wf_json v)"
  by (simp add: list_all_iff)

lemma wf_json_JObj [simp]:
  "wf_json (JObj ps) \<longleftrightarrow> distinct (map fst ps) \<and> (\<forall>(k, v) \<in> set ps. wf_str k \<and> wf_json v)"
  by (auto simp: list_all_iff)

declare wf_json.simps(7,8) [simp del]

lemma hex4_00:
  "is_hex_lower a \<Longrightarrow> is_hex_lower b \<Longrightarrow> hex4 (48 # 48 # a # b # t) = Some (hex_value a * 16 + hex_value b)"
  by (simp add: hex4_def is_hex_any_def is_hex_lower_def hex_value_def [of 48])

lemma scan_str_dump: "wf_str s \<Longrightarrow> scan_str (concat (map esc_char s) @ 34 # r) = Some (s, r)"
proof (induction s)
  case (Cons c s)
  then have tail: "scan_str (concat (map esc_char s) @ 34 # r) = Some (s, r)" and c: "0 \<le> c"
    by (auto simp: wf_str_def)
  show ?case
  proof (cases "c < 32 \<and> c \<notin> {8, 9, 10, 12, 13}")
    case True
    let ?a = "hex_digit (c div 16)" and ?b = "hex_digit (c mod 16)"
    have n: "0 \<le> c div 16" "c div 16 < 16" "0 \<le> c mod 16" "c mod 16 < 16" using True c by auto
    have "hex4 (48 # 48 # ?a # ?b # t) = Some c" for t
      using hex4_00 [of ?a ?b t] n by (simp add: is_hex_lower_digit hex_value_digit)
    moreover have "esc_char c = [92, 117, 48, 48, ?a, ?b]" using True by (simp add: esc_char_def)
    ultimately show ?thesis using True tail by simp
  next
    case False
    then consider "c \<in> {8, 9, 10, 12, 13, 34, 92}" | "32 \<le> c" "c \<noteq> 34" "c \<noteq> 92" by force
    then show ?thesis
    proof cases
      case 1
      then obtain e where "esc_char c = [92, e]" "simple_escape e = Some c" "e \<noteq> 117"
        by (auto simp: esc_char_def simple_escape_def)
      with tail show ?thesis by simp
    next
      case 2
      then have "esc_char c = [c]" by (simp add: esc_char_def)
      with 2 tail show ?thesis by simp
    qed
  qed
qed simp

lemma scan_str_dump_str: "wf_str s \<Longrightarrow> dump_str s = 34 # t \<Longrightarrow> scan_str (t @ r) = Some (s, r)"
  using scan_str_dump [of s r] by (auto simp: dump_str_def)

definition num_end :: "ustr \<Rightarrow> bool" where
  "num_end r \<longleftrightarrow> r = [] \<or> hd r \<in> {44, 93, 125, 32, 9, 10, 13}"

lemma num_end_scan:
  assumes "num_end r"
  shows "scan_frac r = ([], r)" and "scan_exp r = (None, r)" and "takeWhile is_digit r = []" and "dropWhile is_digit r = r"
  using assms by (cases r; auto simp: num_end_def scan_frac_def scan_exp_def is_digit_def)+

lemma scan_digits_dec:
  assumes "0 \<le> i" and "num_end r"
  shows "scan_digits (dec_nat i @ r) = Some (dec_nat i, r)"
proof (cases "i = 0")
  case False
  have ne: "dec_nat i \<noteq> []" by simp
  then obtain c ds where c: "dec_nat i = c # ds" by (cases "dec_nat i") auto
  have all: "\<forall>d \<in> set (dec_nat i). is_digit d" using dec_nat_digits assms(1) by blast
  have "c \<noteq> 48" using dec_nat_hd [of i] assms(1) False c by auto
  moreover have "takeWhile is_digit (dec_nat i @ r) = dec_nat i" "dropWhile is_digit (dec_nat i @ r) = r"
    using all num_end_scan [OF assms(2)] by (simp_all add: takeWhile_append2 dropWhile_append2)
  ultimately show ?thesis using all c by (auto simp: scan_digits_def)
qed (simp add: scan_digits_def)

lemma dec_nat_hd_digit: "0 \<le> i \<Longrightarrow> is_digit (hd (dec_nat i))"
  by (rule dec_nat_digits [of i]) (auto intro: hd_in_set)

lemma scan_number_dec:
  assumes len: "length (dec_nat \<bar>i\<bar>) \<le> max_digits" and r: "num_end r"
  shows "scan_number (dec_int i @ r) = Some (JInt i, r)"
proof (cases "i < 0")
  case True
  with len scan_digits_dec [of "- i" r] r num_end_scan [OF r] show ?thesis
    by (simp add: scan_number_def dec_int_def Let_def digits_value_dec_nat)
next
  case False
  obtain c ds where c: "dec_nat i = c # ds" by (cases "dec_nat i") auto
  have "is_digit c" using dec_nat_hd_digit [of i] False c by simp
  then have "c \<noteq> 45" by (simp add: is_digit_def)
  moreover have "digits_value (c # ds) = i" using digits_value_dec_nat [of i] False c by simp
  ultimately show ?thesis
    using False len scan_digits_dec [of i r] r num_end_scan [OF r] c
    by (auto simp: scan_number_def dec_int_def Let_def)
qed

lemma dec_int_hd: "\<exists>c t. dec_int i = c # t \<and> (c = 45 \<and> t \<noteq> [] \<and> is_digit (hd t) \<or> is_digit c)"
proof (cases "i < 0")
  case True
  with dec_nat_hd_digit [of "- i"] show ?thesis by (auto simp: dec_int_def)
next
  case False
  with dec_nat_hd_digit [of i] show ?thesis by (cases "dec_nat i") (auto simp: dec_int_def)
qed

lemma starts_with_Cons_ne: "a \<noteq> c \<Longrightarrow> \<not> starts_with (a # s) (c # p)"
  by (simp add: starts_with_def)

lemma dec_int_no_literal:
  assumes "p \<in> {''null'', ''true'', ''false'', ''NaN'', ''Infinity'', ''-Infinity''}"
  shows "\<not> starts_with (dec_int i @ r) (ul p)"
proof -
  obtain c t where c: "dec_int i = c # t" "c = 45 \<and> t \<noteq> [] \<and> is_digit (hd t) \<or> is_digit c"
    using dec_int_hd by blast
  then show ?thesis
    using assms by (cases t) (auto simp: starts_with_def ul_def is_digit_def)
qed

lemma is_constant_dec [simp]: "\<not> is_constant (dec_int i @ r)"
  using dec_int_no_literal by (simp add: is_constant_def)

lemma scan_literal_dec:
  assumes "length (dec_nat \<bar>i\<bar>) \<le> max_digits" and "num_end r"
  shows "scan_literal (dec_int i @ r) = Some (JInt i, r)"
  using scan_number_dec [OF assms] dec_int_no_literal [of _ i r] by (simp add: scan_literal_def)

lemma scan_literal_fifteen:
  assumes "num_end r"
  shows "scan_literal (ul ''15.0'' @ r) = Some (JFifteen, r)"
proof -
  have "scan_digits (ul ''15.0'' @ r) = Some ([49, 53], 46 # 48 # r)"
    by (simp add: scan_digits_def is_digit_def ul_def)
  moreover have "scan_frac (46 # 48 # r) = ([48], r)"
    using num_end_scan(3,4) [OF assms] by (simp add: scan_frac_def is_digit_def)
  moreover have "decimal_is_15 (digits_value [49, 53, 48]) (- 1)"
    by (simp add: decimal_is_15_def digits_value_def)
  ultimately have "scan_number (ul ''15.0'' @ r) = Some (JFifteen, r)"
    using num_end_scan(2) [OF assms] by (simp add: scan_number_def Let_def ul_def)
  then show ?thesis by (simp add: scan_literal_def starts_with_def ul_def)
qed

lemma scan_value_literal:
  "s = c # t \<Longrightarrow> c \<noteq> 34 \<Longrightarrow> c \<noteq> 91 \<Longrightarrow> c \<noteq> 123 \<Longrightarrow> scan_literal s = Some vr \<Longrightarrow> \<not> is_constant s \<Longrightarrow> scan_value hk (Suc n) s = Inr vr"
  by simp

text \<open>Texts of values start with a character that is neither white space nor a closing bracket.\<close>

definition starts_value :: "ustr \<Rightarrow> bool" where
  "starts_value t \<longleftrightarrow> (\<exists>c r. t = c # r \<and> c \<in> {34, 91, 123, 45, 102, 110, 116} \<union> {48..57})"

lemma dump_starts: "dump v = Some t \<Longrightarrow> starts_value t"
proof (cases v)
  case (JInt i)
  moreover assume "dump v = Some t"
  ultimately have "t = dec_int i" by (simp split: if_splits)
  with dec_int_hd [of i] show ?thesis by (auto simp: starts_value_def is_digit_def)
next
  case (JBool b)
  moreover assume "dump v = Some t"
  ultimately show ?thesis by (cases b) (auto simp: starts_value_def ul_def)
qed (auto simp: starts_value_def ul_def dump_str_def)

lemma starts_value_skip [simp]: "starts_value t \<Longrightarrow> skip_ws (t @ r) = t @ r"
  by (auto simp: starts_value_def skip_ws_def is_ws_def)

lemma skip_ws_punct [simp]: "c \<in> {34, 44, 58, 93, 125} \<Longrightarrow> skip_ws (c # r) = c # r"
  by (auto simp: skip_ws_def is_ws_def)

lemma dump_items_starts: "dump_items (v # vs) = Some u \<Longrightarrow> starts_value u"
  by (auto simp: starts_value_def split: option.splits if_splits dest!: dump_starts)

lemma num_end_punct [simp]: "num_end (44 # r)" "num_end (93 # r)" "num_end (125 # r)" "num_end []"
  by (simp_all add: num_end_def)

lemma dump_str_Cons: "\<exists>t. dump_str s = 34 # t"
  by (simp add: dump_str_def)

text \<open>How deep a value is nested, and whether a hook has the levels left for it.\<close>

primrec depth :: "json \<Rightarrow> nat" where
  "depth JNull = 0"
| "depth (JBool b) = 0"
| "depth (JInt i) = 0"
| "depth JFifteen = 0"
| "depth (JFloat x) = 0"
| "depth (JStr s) = 0"
| "depth (JArr vs) = Suc (foldr max (map depth vs) 0)"
| "depth (JObj ps) = Suc (foldr (\<lambda>(k, d). max d) (map (map_prod id depth) ps) 0)"

definition has_room :: "hook \<Rightarrow> nat \<Rightarrow> bool" where
  "has_room hk d \<longleftrightarrow> pred_option (\<lambda>k. d \<le> k) (hk_levels hk)"

lemma has_room_None [simp]: "hk_levels hk = None \<Longrightarrow> has_room hk d"
  by (simp add: has_room_def)

lemma has_room_mono: "has_room hk d \<Longrightarrow> e \<le> d \<Longrightarrow> has_room hk e"
  by (cases "hk_levels hk") (auto simp: has_room_def)

lemma has_room_Suc: "has_room hk (Suc d) \<Longrightarrow> \<exists>hk'. hk_enter hk = Some hk' \<and> has_room hk' d"
  by (rule hk_enter_cases [of hk]) (auto simp: has_room_def)

lemma depth_items: "v \<in> set vs \<Longrightarrow> depth v \<le> foldr max (map depth vs) 0"
  by (induction vs) (auto simp: le_max_iff_disj)

lemma depth_pairs: "(k, v) \<in> set ps \<Longrightarrow> depth v \<le> foldr (\<lambda>(k, d). max d) (map (map_prod id depth) ps) 0"
  by (induction ps) (auto simp: le_max_iff_disj)

lemma has_room_JArr: "has_room hk (depth (JArr vs)) \<Longrightarrow> \<exists>hk'. hk_enter hk = Some hk' \<and> (\<forall>v \<in> set vs. has_room hk' (depth v))"
proof -
  assume "has_room hk (depth (JArr vs))"
  then obtain hk' where h: "hk_enter hk = Some hk'" "has_room hk' (foldr max (map depth vs) 0)"
    unfolding depth.simps by (blast dest: has_room_Suc)
  have "has_room hk' (depth v)" if "v \<in> set vs" for v using has_room_mono [OF h(2) depth_items [OF that]] .
  with h(1) show ?thesis by auto
qed

lemma has_room_JObj: "has_room hk (depth (JObj ps)) \<Longrightarrow> \<exists>hk'. hk_enter hk = Some hk' \<and> (\<forall>(k, v) \<in> set ps. has_room hk' (depth v))"
proof -
  assume "has_room hk (depth (JObj ps))"
  then obtain hk' where h: "hk_enter hk = Some hk'"
      "has_room hk' (foldr (\<lambda>(k, d). max d) (map (map_prod id depth) ps) 0)"
    unfolding depth.simps by (blast dest: has_room_Suc)
  have "has_room hk' (depth v)" if "(k, v) \<in> set ps" for k v using has_room_mono [OF h(2) depth_pairs [OF that]] .
  with h(1) show ?thesis by auto
qed

lemma scan_dump:
  "(dump v = Some t \<longrightarrow> hook_ok hk \<longrightarrow> has_room hk (depth v) \<longrightarrow> wf_json v \<longrightarrow> num_end r \<longrightarrow> 2 * length t \<le> n \<longrightarrow>
     scan_value hk n (t @ r) = Inr (v, r))"
  "(dump_items vs = Some u \<longrightarrow> hook_ok hk \<longrightarrow> vs \<noteq> [] \<longrightarrow> (\<forall>v \<in> set vs. has_room hk (depth v)) \<longrightarrow> (\<forall>v \<in> set vs. wf_json v) \<longrightarrow>
     2 * length u \<le> n \<longrightarrow> scan_items hk n (u @ r) = Inr (vs, r))"
  "(dump_pairs ps = Some w \<longrightarrow> hook_ok hk \<longrightarrow> ps \<noteq> [] \<longrightarrow> (\<forall>(k, v) \<in> set ps. has_room hk (depth v)) \<longrightarrow>
     (\<forall>(k, v) \<in> set ps. wf_str k \<and> wf_json v) \<longrightarrow> 2 * length w \<le> n \<longrightarrow> scan_pairs hk n (w @ r) = Inr (ps, r))"
proof (induction v and vs and ps arbitrary: hk t r n and hk u r n and hk w r n rule: dump_dump_items_dump_pairs.induct)
  case (3 i)
  show ?case
  proof (intro impI)
    assume a: "dump (JInt i) = Some t" "num_end r" "2 * length t \<le> n"
    then have t: "t = dec_int i" and l: "length (dec_nat \<bar>i\<bar>) \<le> max_digits" by (auto split: if_splits)
    obtain c s where c: "dec_int i = c # s" "c = 45 \<or> is_digit c" using dec_int_hd [of i] by auto
    obtain m where n: "n = Suc m" using a(3) t c(1) by (cases n) auto
    show "scan_value hk n (t @ r) = Inr (JInt i, r)"
      unfolding n t using c scan_literal_dec [OF l a(2)] is_constant_dec [of i r]
      by (intro scan_value_literal [where c = c and t = "s @ r"]) (auto simp: is_digit_def)
  qed
next
  case 4
  show ?case
  proof (intro impI)
    assume a: "dump JFifteen = Some t" "num_end r" "2 * length t \<le> n"
    then have t: "t = ul ''15.0''" by simp
    obtain m where n: "n = Suc m" using a(3) t by (cases n) auto
    show "scan_value hk n (t @ r) = Inr (JFifteen, r)"
      unfolding n t using scan_literal_fifteen [OF a(2)]
      by (intro scan_value_literal [where c = 49 and t = "[53, 46, 48] @ r"]) (auto simp: ul_def is_constant_def starts_with_def)
  qed
next
  case (6 s)
  show ?case
  proof (intro impI)
    assume a: "dump (JStr s) = Some t" "wf_json (JStr s)" "2 * length t \<le> n"
    then obtain t' where t: "t = 34 # t'" "dump_str s = 34 # t'" by (auto simp: dump_str_def)
    obtain m where n: "n = Suc m" using a(3) t by (cases n) auto
    show "scan_value hk n (t @ r) = Inr (JStr s, r)"
      using scan_str_dump_str [OF _ t(2)] a(2) t(1) n by simp
  qed
next
  case (7 vs)
  show ?case
  proof (intro impI)
    assume hk: "hook_ok hk" "has_room hk (depth (JArr vs))"
      and a: "dump (JArr vs) = Some t" "wf_json (JArr vs)" "2 * length t \<le> n"
    obtain hk1 where h1: "hk_enter hk = Some hk1" "\<forall>v \<in> set vs. has_room hk1 (depth v)" using has_room_JArr [OF hk(2)] by blast
    have ok1: "hook_ok hk1" using hk(1) hk_enter_ok [OF h1(1)] by simp
    from a obtain u where u: "dump_items vs = Some u" "t = 91 # u" by auto
    obtain m where n: "n = Suc m" using a(3) u by (cases n) auto
    show "scan_value hk n (t @ r) = Inr (JArr vs, r)"
    proof (cases "vs = []")
      case True
      with u have "u = [93]" by simp
      with True u n h1 show ?thesis by simp
    next
      case False
      then obtain v vs' where vs: "vs = v # vs'" by (cases vs) auto
      have st: "starts_value u" using dump_items_starts u vs by simp
      then obtain c u' where c: "u = c # u'" "c \<noteq> 93" by (auto simp: starts_value_def)
      have "scan_items hk1 m (u @ r) = Inr (vs, r)" using 7 u False a(2,3) n h1(2) ok1 by simp
      with st c u n h1(1) starts_value_skip [OF st, of r] show ?thesis by simp
    qed
  qed
next
  case (8 ps)
  show ?case
  proof (intro impI)
    assume hk: "hook_ok hk" "has_room hk (depth (JObj ps))"
      and a: "dump (JObj ps) = Some t" "wf_json (JObj ps)" "2 * length t \<le> n"
    obtain hk1 where h1: "hk_enter hk = Some hk1" "\<forall>(k, v) \<in> set ps. has_room hk1 (depth v)" using has_room_JObj [OF hk(2)] by blast
    have ok1: "hook_ok hk1" using hk(1) hk_enter_ok [OF h1(1)] by simp
    from a obtain u where u: "dump_pairs ps = Some u" "t = 123 # u" by auto
    obtain m where n: "n = Suc m" using a(3) u by (cases n) auto
    show "scan_value hk n (t @ r) = Inr (JObj ps, r)"
    proof (cases "ps = []")
      case True
      with u have "u = [125]" by simp
      with True u n h1 show ?thesis by simp
    next
      case False
      then obtain p ps' where ps: "ps = p # ps'" by (cases ps) auto
      obtain u' where c: "u = 34 # u'"
        using u ps dump_str_Cons [of "fst p"] by (auto split: option.splits if_splits)
      have "scan_pairs hk1 m (u @ r) = Inr (ps, r)" using 8 u False a(2,3) n h1(2) ok1 by simp
      with c u n a(2) hk h1(1) show ?thesis by (simp add: hook_ok_def)
    qed
  qed
next
  case (10 v vs)
  show ?case
  proof (intro impI)
    assume hk: "hook_ok hk" "\<forall>x \<in> set (v # vs). has_room hk (depth x)"
      and a: "dump_items (v # vs) = Some u" "\<forall>x \<in> set (v # vs). wf_json x" "2 * length u \<le> n"
    then obtain t where t: "dump v = Some t" by (auto split: option.splits)
    have tne: "t \<noteq> []" using dump_starts [OF t] by (auto simp: starts_value_def)
    obtain m where n: "n = Suc m" using a(1,3) t by (cases n) (auto split: if_splits)
    show "scan_items hk n (u @ r) = Inr (v # vs, r)"
    proof (cases "vs = []")
      case True
      then have u: "u = t @ [93]" using a t by simp
      have "scan_value hk m (t @ 93 # r) = Inr (v, 93 # r)" using "10.IH"(1) t hk a u n by simp
      with u n True show ?thesis by simp
    next
      case False
      then obtain b where b: "dump_items vs = Some b" "u = t @ 44 # b" using a t by auto
      have st: "starts_value b" using False b(1) dump_items_starts by (cases vs) auto
      have "scan_value hk m (t @ 44 # b @ r) = Inr (v, 44 # b @ r)" using "10.IH"(1) t hk a b n by simp
      moreover have "scan_items hk m (b @ r) = Inr (vs, r)" using "10.IH"(2) t hk a b n False by simp
      ultimately show ?thesis using b n starts_value_skip [OF st, of r] by simp
    qed
  qed
next
  case (12 p ps)
  show ?case
  proof (intro impI)
    assume hk: "hook_ok hk" "\<forall>(k, v) \<in> set (p # ps). has_room hk (depth v)"
      and a: "dump_pairs (p # ps) = Some w" "\<forall>(k, v) \<in> set (p # ps). wf_str k \<and> wf_json v" "2 * length w \<le> n"
    obtain k v where p: "p = (k, v)" by fastforce
    from a obtain t where t: "dump v = Some t" using p by (auto split: option.splits)
    have st: "starts_value t" using dump_starts [OF t] .
    obtain q where q: "dump_str k = 34 # q" using dump_str_Cons by blast
    obtain m where n: "n = Suc m" using a(1,3) t p q by (cases n) (auto split: if_splits)
    have k: "scan_str (q @ r') = Some (k, r')" for r' using scan_str_dump_str [OF _ q] a(2) p by simp
    show "scan_pairs hk n (w @ r) = Inr (p # ps, r)"
    proof (cases "ps = []")
      case True
      then have u: "w = 34 # q @ 58 # t @ [125]" using a t p q by simp
      have "scan_value hk m (t @ 125 # r) = Inr (v, 125 # r)" using "12.IH"(1) t p hk a u n by simp
      with u n True k p starts_value_skip [OF st] show ?thesis by simp
    next
      case False
      then obtain b where b: "dump_pairs ps = Some b" "w = 34 # q @ 58 # t @ 44 # b" using a t p q by auto
      obtain b' where b': "b = 34 # b'"
        using False b(1) dump_str_Cons by (cases ps) (auto simp: dump_str_def split: option.splits if_splits)
      have "scan_value hk m (t @ 44 # b @ r) = Inr (v, 44 # b @ r)" using "12.IH"(1) t p hk a b n by simp
      moreover have "scan_pairs hk m (b @ r) = Inr (ps, r)" using "12.IH"(2) t p hk a b n False by simp
      ultimately show ?thesis using b b' n k p starts_value_skip [OF st] by simp
    qed
  qed
qed (auto simp: ul_def starts_with_def is_constant_def scan_literal_def scan_number_def numeral_2_eq_2 split: if_splits dest!: Suc_le_D)

section \<open>The recursion limit\<close>

text \<open>
  Running out of levels is the only effect of the limit: otherwise the scanner gives what it
  gives without one. It takes one character of the text for each level.
\<close>

definition unlimited :: "hook \<Rightarrow> hook" where
  "unlimited hk = hk\<lparr>hk_levels := None\<rparr>"

lemma unlimited_simps [simp]:
  "hk_pairs (unlimited hk) = hk_pairs hk" "hk_constants (unlimited hk) = hk_constants hk"
  "hk_enter (unlimited hk) = Some (unlimited hk)" "unlimited (hk\<lparr>hk_levels := l\<rparr>) = unlimited hk"
  by (simp_all add: unlimited_def)

definition deep_or :: "hook \<Rightarrow> ustr \<Rightarrow> jerr + 'a \<Rightarrow> jerr + 'a \<Rightarrow> bool" where
  "deep_or hk s res full \<longleftrightarrow> res = full \<or> res = Inl JDeep \<and> (\<exists>k. hk_levels hk = Some k \<and> k < length s)"

lemma deep_or_same [simp]: "deep_or hk s res res"
  by (simp add: deep_or_def)

lemma deep_or_mono: "deep_or hk s res full \<Longrightarrow> length s \<le> length t \<Longrightarrow> deep_or hk t res full"
  by (fastforce simp: deep_or_def)

lemma deep_or_rbind:
  "deep_or hk s m m' \<Longrightarrow> (\<And>x. m = Inr x \<Longrightarrow> deep_or hk s (f x) (f' x)) \<Longrightarrow> deep_or hk s (rbind m f) (rbind m' f')"
  by (cases m) (auto simp: deep_or_def)

text \<open>Inside an array or an object: one level and at least one character less.\<close>

lemma deep_or_enter:
  assumes "\<And>hk1. hk_enter hk = Some hk1 \<Longrightarrow> unlimited hk1 = unlimited hk \<Longrightarrow> deep_or hk1 r (g hk1) (g' (unlimited hk))"
  shows "deep_or hk (c # r) (case hk_enter hk of None \<Rightarrow> Inl JDeep | Some hk1 \<Rightarrow> g hk1) (g' (unlimited hk))"
proof (rule hk_enter_cases [of hk])
  assume "hk_enter hk = None" "hk_levels hk = Some 0"
  then show ?thesis by (simp add: deep_or_def)
next
  assume "hk_enter hk = Some hk" "hk_levels hk = None"
  with assms show ?thesis by (auto simp: deep_or_def)
next
  fix k assume "hk_enter hk = Some (hk\<lparr>hk_levels := Some k\<rparr>)" "hk_levels hk = Some (Suc k)"
  with assms [of "hk\<lparr>hk_levels := Some k\<rparr>"] show ?thesis by (auto simp: deep_or_def)
qed

lemma scan_value_deep:
  assumes ok: "hook_ok hk" and len: "2 * length s < Suc n"
    and i: "\<And>hk s. hook_ok hk \<Longrightarrow> 2 * length s + 1 < n \<Longrightarrow> deep_or hk s (scan_items hk n s) (scan_items (unlimited hk) n s)"
    and p: "\<And>hk s. hook_ok hk \<Longrightarrow> 2 * length s + 1 < n \<Longrightarrow> deep_or hk s (scan_pairs hk n s) (scan_pairs (unlimited hk) n s)"
  shows "deep_or hk s (scan_value hk (Suc n) s) (scan_value (unlimited hk) (Suc n) s)"
proof (cases s)
  case (Cons c r)
  have items: "deep_or h r (rbind (scan_items h n (d # r1)) f) (rbind (scan_items (unlimited hk) n (d # r1)) f)"
    and pairs: "deep_or h r (rbind (scan_pairs h n (d # r1)) g) (rbind (scan_pairs (unlimited hk) n (d # r1)) g)"
    if "skip_ws r = d # r1" "hk_enter hk = Some h" "unlimited h = unlimited hk" for h d r1 f g
  proof -
    have l: "length (d # r1) \<le> length r" using that(1) length_skip_ws [of r] by simp
    then have l': "2 * length (d # r1) + 1 < n" using len Cons by simp
    note ok1 = ok [folded hk_enter_ok [OF that(2)]]
    show "deep_or h r (rbind (scan_items h n (d # r1)) f) (rbind (scan_items (unlimited hk) n (d # r1)) f)"
      using deep_or_mono [OF i [OF ok1 l'] l] that(3) by (intro deep_or_rbind) auto
    show "deep_or h r (rbind (scan_pairs h n (d # r1)) g) (rbind (scan_pairs (unlimited hk) n (d # r1)) g)"
      using deep_or_mono [OF p [OF ok1 l'] l] that(3) by (intro deep_or_rbind) auto
  qed
  consider "c = 91" | "c = 123" | "c \<noteq> 91" "c \<noteq> 123" by blast
  then show ?thesis
  proof cases
    case 1
    let ?g = "\<lambda>h. case skip_ws r of [] \<Rightarrow> Inl JBad
        | d # r1 \<Rightarrow> if d = 93 then Inr (JArr [], r1) else rbind (scan_items h n (d # r1)) (\<lambda>(vs, r2). Inr (JArr vs, r2))"
    have "deep_or hk (c # r) (case hk_enter hk of None \<Rightarrow> Inl JDeep | Some h \<Rightarrow> ?g h) (?g (unlimited hk))"
      by (rule deep_or_enter) (auto split: list.splits intro: items)
    then show ?thesis by (simp add: Cons 1)
  next
    case 2
    let ?g = "\<lambda>h. case skip_ws r of [] \<Rightarrow> Inl JBad
        | d # r1 \<Rightarrow> if d = 125 then Inr (JObj [], r1)
                    else rbind (scan_pairs h n (d # r1)) (\<lambda>(ps, r2). rbind (hk_pairs hk ps) (\<lambda>v. Inr (v, r2)))"
    have "deep_or hk (c # r) (case hk_enter hk of None \<Rightarrow> Inl JDeep | Some h \<Rightarrow> ?g h) (?g (unlimited hk))"
      by (rule deep_or_enter) (auto split: list.splits intro: pairs)
    then show ?thesis unfolding Cons 2 scan_value.simps unlimited_simps by simp
  next
    case 3
    then show ?thesis unfolding Cons scan_value.simps unlimited_simps by simp
  qed
qed simp

lemma scan_items_deep:
  assumes v: "deep_or hk s (scan_value hk n s) (scan_value (unlimited hk) n s)" and c: "consumes s (scan_value hk n s)"
    and i: "\<And>t. length t < length s \<Longrightarrow> deep_or hk t (scan_items hk n t) (scan_items (unlimited hk) n t)"
  shows "deep_or hk s (scan_items hk (Suc n) s) (scan_items (unlimited hk) (Suc n) s)"
  unfolding scan_items.simps
proof (rule deep_or_rbind [OF v], clarify)
  fix x r assume "scan_value hk n s = Inr (x, r)"
  with c have r: "length r < length s" by simp
  have "deep_or hk s (rbind (scan_items hk n (skip_ws r1)) f) (rbind (scan_items (unlimited hk) n (skip_ws r1)) f)"
    if "skip_ws r = d # r1" for d r1 f
  proof (rule deep_or_rbind)
    have "length (skip_ws r1) < length s" using skip_ws_Cons [OF that] length_skip_ws [of r1] r by simp
    from deep_or_mono [OF i [OF this]] this
    show "deep_or hk s (scan_items hk n (skip_ws r1)) (scan_items (unlimited hk) n (skip_ws r1))" by simp
  qed simp
  then show "deep_or hk s
      (case skip_ws r of [] \<Rightarrow> Inl JBad
       | c # r1 \<Rightarrow> if c = 93 then Inr ([x], r1)
                   else if c = 44 then rbind (scan_items hk n (skip_ws r1)) (\<lambda>(vs, r2). Inr (x # vs, r2)) else Inl JBad)
      (case skip_ws r of [] \<Rightarrow> Inl JBad
       | c # r1 \<Rightarrow> if c = 93 then Inr ([x], r1)
                   else if c = 44 then rbind (scan_items (unlimited hk) n (skip_ws r1)) (\<lambda>(vs, r2). Inr (x # vs, r2)) else Inl JBad)"
    by (auto split: list.splits)
qed

lemma scan_pairs_deep:
  assumes v: "\<And>t. length t < length s \<Longrightarrow> deep_or hk t (scan_value hk n t) (scan_value (unlimited hk) n t)"
    and c: "\<And>t. length t < length s \<Longrightarrow> consumes t (scan_value hk n t)"
    and i: "\<And>t. length t < length s \<Longrightarrow> deep_or hk t (scan_pairs hk n t) (scan_pairs (unlimited hk) n t)"
  shows "deep_or hk s (scan_pairs hk (Suc n) s) (scan_pairs (unlimited hk) (Suc n) s)"
proof (cases "\<exists>r k r1 r2. s = 34 # r \<and> scan_str r = Some (k, r1) \<and> skip_ws r1 = 58 # r2")
  case False
  then show ?thesis by (auto split: list.splits option.splits)
next
  case True
  then obtain r k r1 r2 where s: "s = 34 # r" "scan_str r = Some (k, r1)" "skip_ws r1 = 58 # r2" by blast
  have len2: "length (skip_ws r2) < length s"
    using scan_str_shorter [OF s(2)] skip_ws_Cons [OF s(3)] length_skip_ws [of r2] s(1) by simp
  let ?rest = "\<lambda>h (x, r3). case skip_ws r3 of [] \<Rightarrow> Inl JBad
      | e # r4 \<Rightarrow> if e = 125 then Inr ([(k, x)], r4)
                 else if e = 44 then rbind (scan_pairs h n (skip_ws r4)) (\<lambda>(ps, r5). Inr ((k, x) # ps, r5)) else Inl JBad"
  have "deep_or hk s (rbind (scan_value hk n (skip_ws r2)) (?rest hk))
     (rbind (scan_value (unlimited hk) n (skip_ws r2)) (?rest (unlimited hk)))"
  proof (rule deep_or_rbind, goal_cases)
    case 1
    show ?case using deep_or_mono [OF v [OF len2]] len2 by simp
  next
    case (2 xr)
    obtain x r3 where xr: "xr = (x, r3)" by fastforce
    with 2 c [OF len2] have r3: "length r3 < length s" using len2 by simp
    have "deep_or hk s (rbind (scan_pairs hk n (skip_ws r4)) f) (rbind (scan_pairs (unlimited hk) n (skip_ws r4)) f)"
      if "skip_ws r3 = d # r4" for d r4 f
    proof (rule deep_or_rbind)
      have "length (skip_ws r4) < length s" using skip_ws_Cons [OF that] length_skip_ws [of r4] r3 by simp
      from deep_or_mono [OF i [OF this]] this
      show "deep_or hk s (scan_pairs hk n (skip_ws r4)) (scan_pairs (unlimited hk) n (skip_ws r4))" by simp
    qed simp
    then show ?case unfolding xr by (auto split: list.splits)
  qed
  with s show ?thesis by simp
qed

lemma scan_deep:
  "(\<forall>hk s. hook_ok hk \<longrightarrow> 2 * length s < n \<longrightarrow> deep_or hk s (scan_value hk n s) (scan_value (unlimited hk) n s)) \<and>
   (\<forall>hk s. hook_ok hk \<longrightarrow> 2 * length s + 1 < n \<longrightarrow> deep_or hk s (scan_items hk n s) (scan_items (unlimited hk) n s)) \<and>
   (\<forall>hk s. hook_ok hk \<longrightarrow> 2 * length s + 1 < n \<longrightarrow> deep_or hk s (scan_pairs hk n s) (scan_pairs (unlimited hk) n s))"
proof (induction n)
  case (Suc n)
  then have v: "\<And>hk s. hook_ok hk \<Longrightarrow> 2 * length s < n \<Longrightarrow> deep_or hk s (scan_value hk n s) (scan_value (unlimited hk) n s)"
    and i: "\<And>hk s. hook_ok hk \<Longrightarrow> 2 * length s + 1 < n \<Longrightarrow> deep_or hk s (scan_items hk n s) (scan_items (unlimited hk) n s)"
    and p: "\<And>hk s. hook_ok hk \<Longrightarrow> 2 * length s + 1 < n \<Longrightarrow> deep_or hk s (scan_pairs hk n s) (scan_pairs (unlimited hk) n s)" by auto
  show ?case
  proof (intro conjI allI impI)
    fix hk :: hook and s :: ustr assume ok: "hook_ok hk"
    have c: "consumes t (scan_value hk n t)" if "2 * length t < n" for t using scan_consumes ok that by blast
    show "deep_or hk s (scan_value hk (Suc n) s) (scan_value (unlimited hk) (Suc n) s)" if "2 * length s < Suc n"
      using scan_value_deep [OF ok that i p] .
    show "deep_or hk s (scan_items hk (Suc n) s) (scan_items (unlimited hk) (Suc n) s)" if "2 * length s + 1 < Suc n"
      by (rule scan_items_deep) (use that v i c ok in auto)
    show "deep_or hk s (scan_pairs hk (Suc n) s) (scan_pairs (unlimited hk) (Suc n) s)" if "2 * length s + 1 < Suc n"
      by (rule scan_pairs_deep) (use that v p c ok in auto)
  qed
qed simp

text \<open>The levels the reader has either change nothing or run out, on a text longer than they are many.\<close>

lemma loads_with_deep: "hook_ok hk \<Longrightarrow> deep_or hk s (loads_with hk s) (loads_with (unlimited hk) s)"
proof (cases "s \<noteq> [] \<and> hd s = 65279")
  case False
  assume "hook_ok hk"
  have "2 * length (skip_ws s) < Suc (2 * length s)" using length_skip_ws [of s] by simp
  with \<open>hook_ok hk\<close> scan_deep have "deep_or hk (skip_ws s)
      (scan_value hk (Suc (2 * length s)) (skip_ws s)) (scan_value (unlimited hk) (Suc (2 * length s)) (skip_ws s))" by blast
  then have "deep_or hk s
      (scan_value hk (Suc (2 * length s)) (skip_ws s)) (scan_value (unlimited hk) (Suc (2 * length s)) (skip_ws s))"
    by (rule deep_or_mono) (rule length_skip_ws)
  then have "deep_or hk s
      (rbind (scan_value hk (Suc (2 * length s)) (skip_ws s)) (\<lambda>(v, r). if skip_ws r = [] then Inr v else Inl JBad))
      (rbind (scan_value (unlimited hk) (Suc (2 * length s)) (skip_ws s)) (\<lambda>(v, r). if skip_ws r = [] then Inr v else Inl JBad))"
    by (rule deep_or_rbind) simp
  then show ?thesis unfolding loads_with_def if_not_P [OF False] .
qed (simp add: loads_with_def)

lemma loads_plain_deep:
  "loads_plain_at lv s = loads_plain s \<or> loads_plain_at lv s = Inl JDeep \<and> (\<exists>k. lv = Some k \<and> k < length s)"
  using loads_with_deep [OF hook_ok_last_wins [of True lv], of s]
  by (auto simp: deep_or_def unlimited_def loads_plain_at_def loads_plain_def)

lemma loads_strict_deep:
  "loads_strict_at lv s = loads_strict s \<or> loads_strict_at lv s = Inl JDeep \<and> (\<exists>k. lv = Some k \<and> k < length s)"
  using loads_with_deep [OF hook_ok_reject [of False lv], of s]
  by (auto simp: deep_or_def unlimited_def loads_strict_at_def loads_strict_def)

text \<open>Without a limit the scanner never reports one.\<close>

lemma scan_unlimited:
  "hook_ok hk \<Longrightarrow> hk_levels hk = None \<Longrightarrow>
     (\<forall>s. scan_value hk n s \<noteq> Inl JDeep) \<and> (\<forall>s. scan_items hk n s \<noteq> Inl JDeep) \<and> (\<forall>s. scan_pairs hk n s \<noteq> Inl JDeep)"
proof (induction n)
  case (Suc n)
  then show ?case
    by (auto simp: res_simps hook_ok_def split: list.splits option.splits)
qed simp

lemma loads_with_unlimited: "hook_ok hk \<Longrightarrow> hk_levels hk = None \<Longrightarrow> loads_with hk s \<noteq> Inl JDeep"
  using scan_unlimited by (auto simp: loads_with_def res_simps simp del: scan_value.simps)

lemma loads_not_deep: "loads_plain s \<noteq> Inl JDeep" "loads_strict s \<noteq> Inl JDeep"
  by (simp_all add: loads_plain_def loads_strict_def loads_with_unlimited)

text \<open>One opening bracket more than there are levels.\<close>

lemma scan_brackets:
  "hk_levels hk = Some k \<Longrightarrow> scan_value hk (Suc (2 * k + n)) (replicate (Suc k) 91 @ r) = Inl JDeep"
proof (induction k arbitrary: hk)
  case 0
  then show ?case by (simp add: hk_enter_def)
next
  case (Suc k)
  have ws: "skip_ws (91 # t) = 91 # t" for t by (simp add: skip_ws_def is_ws_def)
  have "scan_value (hk\<lparr>hk_levels := Some k\<rparr>) (Suc (2 * k + n)) (replicate (Suc k) 91 @ r) = Inl JDeep"
    by (rule Suc.IH) simp
  then show ?case using Suc.prems by (simp add: hk_enter_def ws del: scan_value.simps) (simp add: scan_value.simps(2) hk_enter_def ws)
qed

lemma loads_brackets: "hk_levels hk = Some k \<Longrightarrow> loads_with hk (replicate (Suc k) 91) = Inl JDeep"
proof -
  assume k: "hk_levels hk = Some k"
  have "skip_ws (replicate (Suc k) 91) = replicate (Suc k) 91" by (simp add: skip_ws_def is_ws_def)
  moreover have "scan_value hk (Suc (2 * k + 2)) (replicate (Suc k) 91 @ []) = Inl JDeep" by (rule scan_brackets [OF k])
  ultimately show ?thesis unfolding loads_with_def by (simp del: scan_value.simps)
qed

lemma loads_at_brackets:
  "loads_plain_at (Some k) (replicate (Suc k) 91) = Inl JDeep" "loads_strict_at (Some k) (replicate (Suc k) 91) = Inl JDeep"
  unfolding loads_plain_at_def loads_strict_at_def by (rule loads_brackets, simp)+

section \<open>Canonical values\<close>

lemma insort_key_map_snd:
  "insort_key fst (map_prod (\<lambda>a. a) f x) (map (map_prod (\<lambda>a. a) f) xs) = map (map_prod (\<lambda>a. a) f) (insort_key fst x xs)"
  by (induction xs) auto

lemma sort_key_map_snd: "sort_key fst (map (map_prod id f) xs) = map (map_prod id f) (sort_key fst xs)"
  unfolding id_def by (induction xs) (simp_all add: insort_key_map_snd)

lemma distinct_keys_sort: "distinct (map fst ps) \<Longrightarrow> distinct (map fst (sort_key k ps))"
  by (metis distinct_map distinct_sort set_sort)

lemma sort_key_idem [simp]: "sort_key f (sort_key f xs) = sort_key f xs"
  by (rule sort_key_id_if_sorted) simp

lemma canon_idem [simp]: "canon (canon v) = canon v"
proof (induction v)
  case (JArr vs)
  then show ?case by simp
next
  case (JObj ps)
  let ?c = "map_prod id canon"
  have "?c (?c x) = ?c x" if "x \<in> set ps" for x
    using JObj that by (cases x) (force simp: snds.simps)
  then have "map ?c (map ?c (sort_key fst ps)) = map ?c (sort_key fst ps)" by simp
  then show ?case by (simp only: canon.simps sort_key_map_snd sort_key_idem)
qed auto

lemma canonical_json_bytes_canon [simp]: "canonical_json_bytes (canon v) = canonical_json_bytes v"
  by (simp add: canonical_json_bytes_def)

lemma wf_json_canon: "wf_json v \<Longrightarrow> wf_json (canon v)"
proof (induction v)
  case (JObj ps)
  have "distinct (map fst (map (map_prod id canon) ps))"
    using JObj.prems by simp
  then have "distinct (map fst (sort_key fst (map (map_prod id canon) ps)))" by (rule distinct_keys_sort)
  then show ?case using JObj by (force simp: snds.simps)
qed auto

lemma loads_with_dump:
  assumes "dump v = Some t" and "wf_json v"
    and "hook_ok hk" and "has_room hk (depth v)"
  shows "loads_with hk t = Inr v"
proof -
  have st: "starts_value t" using dump_starts [OF assms(1)] .
  have "scan_value hk (Suc (2 * length t)) (t @ []) = Inr (v, [])" using scan_dump(1) [of v t hk "[]" "Suc (2 * length t)"] assms
    by (simp del: scan_value.simps)
  moreover have "t \<noteq> []" "hd t \<noteq> 65279" using st by (auto simp: starts_value_def)
  ultimately show ?thesis
    using starts_value_skip [OF st, of "[]"] by (simp add: loads_with_def skip_ws_def del: scan_value.simps)
qed

lemma loads_plain_dump_at:
  "dump v = Some t \<Longrightarrow> wf_json v \<Longrightarrow> pred_option (\<lambda>k. depth v \<le> k) lv \<Longrightarrow> loads_plain_at lv t = Inr v"
  unfolding loads_plain_at_def by (rule loads_with_dump) (simp_all add: has_room_def)

lemma loads_dump:
  assumes "dump v = Some t" and "wf_json v"
  shows "loads t = Inr v" "loads_plain t = Inr v" "loads_strict t = Inr v"
  using loads_with_dump [OF assms] by (simp_all add: loads_def loads_plain_def loads_strict_def)

theorem loads_canonical:
  assumes "canonical_json_bytes v = Some b" and "wf_json v"
  obtains t where "utf8_decode b = Some t" and "loads t = Inr (canon v)" and "b \<noteq> []"
proof -
  from assms(1) obtain t where t: "dump (canon v) = Some t" "utf8_encode t = Some b"
    by (auto simp: canonical_json_bytes_def split: option.splits)
  have "t \<noteq> []" using dump_starts [OF t(1)] by (auto simp: starts_value_def)
  with t(2) have "b \<noteq> []" by auto
  with that utf8_decode_encode [OF t(2)] loads_dump [OF t(1) wf_json_canon [OF assms(2)]] show ?thesis by blast
qed

text \<open>Two values with one canonical text are one value.\<close>

lemma canonical_json_bytes_inj:
  assumes "canonical_json_bytes v = Some b" "canonical_json_bytes w = Some b" "wf_json v" "wf_json w"
  shows "canon v = canon w"
proof -
  obtain t where "utf8_decode b = Some t" "loads t = Inr (canon v)" using loads_canonical [OF assms(1,3)] .
  moreover obtain t' where "utf8_decode b = Some t'" "loads t' = Inr (canon w)" using loads_canonical [OF assms(2,4)] .
  ultimately show ?thesis by simp
qed

end
