(* ===== verification/Wire_Values.thy ===== *)
theory Wire_Values imports Main Py_Json_Props begin

text \<open>
  What the protocol modules share about values that come out of \<open>json.loads\<close>: the
  exceptions, dictionary access, optional fields, and the reading of a terminal status.
  A dictionary of the decoded JSON is its list of items; \<open>value.get(k)\<close> is \<open>jget\<close>.
\<close>

text \<open>
  \<open>Refused\<close> is the module's own error class with its message, \<open>NotCanonical\<close> the
  \<open>ArtifactValidationError\<close> of \<open>canonical_json_bytes\<close>, the others the
  built-in exceptions that the code lets through.
\<close>

datatype exn = Refused string | NotCanonical | TypeErr | ValueErr | RecursionErr

definition jget :: "(ustr \<times> json) list \<Rightarrow> string \<Rightarrow> json" where
  "jget d k = (case map_of d (ul k) of None \<Rightarrow> JNull | Some v \<Rightarrow> v)"

definition same_keys :: "(ustr \<times> json) list \<Rightarrow> string list \<Rightarrow> bool" where
  "same_keys d fs \<longleftrightarrow>
     list_all (\<lambda>k. k \<in> set (map ul fs)) (dkeys d) \<and> list_all (\<lambda>k. ul k \<in> set (dkeys d)) fs"

definition jint :: "int option \<Rightarrow> json" where
  "jint v = (case v of None \<Rightarrow> JNull | Some i \<Rightarrow> JInt i)"

definition jstr :: "ustr option \<Rightarrow> json" where
  "jstr v = (case v of None \<Rightarrow> JNull | Some s \<Rightarrow> JStr s)"

text \<open>\<open>value == 15\<close>, which is true of the float as well.\<close>

definition is_15 :: "json \<Rightarrow> bool" where
  "is_15 v \<longleftrightarrow> v = JInt 15 \<or> v = JFifteen"

definition is_text :: "json \<Rightarrow> string \<Rightarrow> bool" where
  "is_text v s \<longleftrightarrow> v = JStr (ul s)"

text \<open>Membership in a frozenset of strings hashes the value: a list or a dictionary has no hash.\<close>

definition text_in :: "json \<Rightarrow> string list \<Rightarrow> exn + bool" where
  "text_in v names =
     (case v of
        JArr _ \<Rightarrow> Inl TypeErr
      | JObj _ \<Rightarrow> Inl TypeErr
      | JStr s \<Rightarrow> Inr (s \<in> set (map ul names))
      | _ \<Rightarrow> Inr False)"

record terminal =
  t_exit :: "int option"
  t_signal :: "int option"

definition terminal_json :: "terminal \<Rightarrow> json" where
  "terminal_json t = JObj [(ul ''exit_code'', jint (t_exit t)), (ul ''signal'', jint (t_signal t))]"

definition valid_terminal :: "terminal \<Rightarrow> bool" where
  "valid_terminal t \<longleftrightarrow>
     (case (t_exit t, t_signal t) of
        (Some c, None) \<Rightarrow> 0 \<le> c \<and> c \<le> 255
      | (None, Some s) \<Rightarrow> 1 \<le> s \<and> s \<le> 64
      | _ \<Rightarrow> False)"

definition max_counter :: int where "max_counter = 2 ^ 63 - 1"

definition jint_range :: "json \<Rightarrow> int \<Rightarrow> int \<Rightarrow> bool" where
  "jint_range v lo hi = (case v of JInt i \<Rightarrow> lo \<le> i \<and> i \<le> hi | _ \<Rightarrow> False)"

definition int_of_json :: "json \<Rightarrow> int option" where
  "int_of_json v = (case v of JInt i \<Rightarrow> Some i | _ \<Rightarrow> None)"

section \<open>Dictionaries after canonical sorting\<close>

lemma same_keys_iff: "same_keys d fs \<longleftrightarrow> set (dkeys d) = ul ` set fs"
  by (auto simp: same_keys_def list_all_iff)

lemma jget_canon:
  assumes "distinct (dkeys d)"
  shows "jget (sort_key fst (map (map_prod id canon) d)) k = canon (jget d k)"
proof -
  have "map_of (sort_key fst (map (map_prod id canon) d)) = map_of (map (map_prod id canon) d)"
    by (rule map_of_sort_key) (use assms in simp)
  moreover have "map_of (map (map_prod id canon) d) j = map_option canon (map_of d j)" for j
    by (induction d) auto
  ultimately show ?thesis by (simp add: jget_def split: option.splits)
qed

lemma same_keys_canon [simp]: "same_keys (sort_key fst (map (map_prod id canon) d)) fs = same_keys d fs"
proof -
  have "fst ` set (map (map_prod id canon) d) = fst ` set d" by force
  then show ?thesis by (simp add: same_keys_iff image_image)
qed

lemma canon_jint [simp]: "canon (jint v) = jint v"
  by (simp add: jint_def split: option.splits)

lemma canon_jstr [simp]: "canon (jstr v) = jstr v"
  by (simp add: jstr_def split: option.splits)

lemma ul_less [simp]: "ul s < ul t \<longleftrightarrow> map (of_char :: char \<Rightarrow> int) s < map of_char t"
  by (simp add: ul_def)

lemma canon_terminal_json [simp]: "canon (terminal_json t) = terminal_json t"
  by (simp add: terminal_json_def ul_def)

lemma wf_ul [simp]: "wf_str (ul s)"
  using ul_bounded by (auto simp: wf_str_def)

lemma wf_jint [simp]: "wf_json (jint v)"
  by (simp add: jint_def split: option.splits)

lemma wf_terminal_json [simp]: "wf_json (terminal_json t)"
  by (simp add: terminal_json_def)

lemma is_ascii_wf: "is_ascii s \<Longrightarrow> wf_str s"
  by (auto simp: is_ascii_def wf_str_def)

lemma jint_eq [simp]:
  "jint v = JNull \<longleftrightarrow> v = None" "JNull = jint v \<longleftrightarrow> v = None"
  "jint v = JInt i \<longleftrightarrow> v = Some i" "jint v \<noteq> JStr s" "jint v \<noteq> JObj d" "jint v \<noteq> JArr xs"
  by (auto simp: jint_def split: option.splits)

lemma jstr_eq [simp]:
  "jstr v = JNull \<longleftrightarrow> v = None" "JNull = jstr v \<longleftrightarrow> v = None" "jstr v = JStr s \<longleftrightarrow> v = Some s"
  by (auto simp: jstr_def split: option.splits)

lemma jint_Some: "jint (Some i) = JInt i" and jint_None: "jint None = JNull"
  by (simp_all add: jint_def)

lemma jstr_Some: "jstr (Some i) = JStr i" and jstr_None: "jstr None = JNull"
  by (simp_all add: jstr_def)

lemmas wire_exec [exec] = jget_def same_keys_def jint_def jstr_def is_15_def is_text_def text_in_def terminal_json_def
  valid_terminal_def max_counter_def jint_range_def int_of_json_def

end
