(* ===== verification/Py_Text.thy ===== *)
theory Py_Text imports Main Wire_Values begin

text \<open>
  More of Python's \<open>str\<close> and \<open>posixpath\<close>: \<open>isdecimal\<close> and \<open>int\<close> over the decimal digits of
  Unicode (14.0, the table of Python 3.11), as much of \<open>upper\<close> as decides what an upper-cased
  text equals in ASCII, \<open>split\<close>, \<open>partition\<close> and \<open>count\<close> on one character, and \<open>normpath\<close>.
\<close>

section \<open>Decimal digits\<close>

text \<open>The code points of the zeros; the nine other digits of a script follow its zero.\<close>

definition decimal_zeros :: "int list" where
  "decimal_zeros = [48, 1632, 1776, 1984, 2406, 2534, 2662, 2790, 2918, 3046, 3174, 3302, 3430, 3558, 3664, 3792, 3872,
     4160, 4240, 6112, 6160, 6470, 6608, 6784, 6800, 6992, 7088, 7232, 7248, 42528, 43216, 43264, 43472, 43504, 43600,
     44016, 65296, 66720, 68912, 69734, 69872, 69942, 70096, 70384, 70736, 70864, 71248, 71360, 71472, 71904, 72016,
     72784, 73040, 73120, 92768, 92864, 93008, 120782, 120792, 120802, 120812, 120822, 123200, 123632, 125264, 130032]"

definition digit_of :: "int \<Rightarrow> int option" where
  "digit_of c = map_option (\<lambda>z. c - z) (find (\<lambda>z. z \<le> c \<and> c \<le> z + 9) decimal_zeros)"

definition is_decimal :: "ustr \<Rightarrow> bool" where
  "is_decimal s \<longleftrightarrow> s \<noteq> [] \<and> list_all (\<lambda>c. digit_of c \<noteq> None) s"

text \<open>\<open>int(s)\<close> of a decimal text; more than 4300 digits are a \<open>ValueError\<close>.\<close>

definition py_int :: "ustr \<Rightarrow> exn + int" where
  "py_int s = (if length s > max_digits then Inl ValueErr else Inr (foldl (\<lambda>a c. a * 10 + the (digit_of c)) 0 s))"

lemma digit_of_ascii: "is_digit c \<Longrightarrow> digit_of c = Some (c - 48)"
  by (simp add: digit_of_def decimal_zeros_def is_digit_def)

lemma digit_of_small: "c < 128 \<Longrightarrow> digit_of c = (if is_digit c then Some (c - 48) else None)"
  by (auto simp: digit_of_def decimal_zeros_def is_digit_def)

lemma digit_of_range: "digit_of c = Some d \<Longrightarrow> 0 \<le> d \<and> d \<le> 9"
  by (auto simp: digit_of_def find_Some_iff)

lemma py_int_digits: "list_all is_digit s \<Longrightarrow> length s \<le> max_digits \<Longrightarrow> py_int s = Inr (digits_value s)"
proof -
  assume s: "list_all is_digit s" "length s \<le> max_digits"
  have "foldl (\<lambda>a c. a * 10 + the (digit_of c)) x s = foldl (\<lambda>a d. a * 10 + (d - 48)) x s" for x
    using s(1) by (induction s arbitrary: x) (simp_all add: digit_of_ascii)
  with s(2) show ?thesis by (simp add: py_int_def digits_value_def)
qed

lemma py_int_nonneg: "is_decimal s \<Longrightarrow> py_int s = Inr n \<Longrightarrow> 0 \<le> n"
proof -
  assume s: "is_decimal s" "py_int s = Inr n"
  then have "list_all (\<lambda>c. digit_of c \<noteq> None) s" by (simp add: is_decimal_def)
  then have "0 \<le> foldl (\<lambda>a c. a * 10 + the (digit_of c)) x s" if "0 \<le> x" for x
    using that
  proof (induction s arbitrary: x)
    case (Cons c s)
    then obtain d where "digit_of c = Some d" by auto
    with digit_of_range [OF this] Cons show ?case by simp
  qed simp
  with s(2) show ?thesis by (auto simp: py_int_def split: if_splits)
qed

lemma dec_int_decimal: "0 \<le> n \<Longrightarrow> is_decimal (dec_int n)"
  using dec_nat_digits [of n] digit_of_ascii by (fastforce simp: is_decimal_def dec_int_def list_all_iff)

lemma dec_nat_len: "0 \<le> n \<Longrightarrow> n < 10 ^ k \<Longrightarrow> 0 < k \<Longrightarrow> length (dec_nat n) \<le> k"
proof (induction k arbitrary: n)
  case (Suc k)
  show ?case
  proof (cases "n < 10")
    case True
    then show ?thesis by (simp add: dec_nat_small)
  next
    case False
    then have "0 < k" using Suc.prems by (cases k) auto
    moreover have "n div 10 < 10 ^ k" using Suc.prems by simp
    ultimately show ?thesis using Suc.IH [of "n div 10"] Suc.prems False by (simp add: dec_nat_large pos_imp_zdiv_nonneg_iff)
  qed
qed simp

lemma py_int_dec: "0 \<le> n \<Longrightarrow> n \<le> 2 ^ 32 - 2 \<Longrightarrow> py_int (dec_int n) = Inr n"
proof -
  assume n: "0 \<le> n" "n \<le> 2 ^ 32 - 2"
  then have "length (dec_nat n) \<le> 10" by (intro dec_nat_len) auto
  moreover have "list_all is_digit (dec_nat n)" using dec_nat_digits n by (auto simp: list_all_iff)
  ultimately show ?thesis using py_int_digits [of "dec_nat n"] digits_value_dec_nat n
    by (simp add: dec_int_def max_digits_def)
qed

section \<open>Upper case\<close>

text \<open>
  Outside ASCII only these characters have an upper case in ASCII. The upper case of any
  other one has a character outside ASCII, and so has the character itself, which the model keeps.
\<close>

definition special_upper :: "(int \<times> string) list" where
  "special_upper = [(223, ''SS''), (305, ''I''), (383, ''S''), (64256, ''FF''), (64257, ''FI''), (64258, ''FL''),
     (64259, ''FFI''), (64260, ''FFL''), (64261, ''ST''), (64262, ''ST'')]"

definition upper_char :: "int \<Rightarrow> ustr" where
  "upper_char c = (if 97 \<le> c \<and> c \<le> 122 then [c - 32] else case map_of special_upper c of Some s \<Rightarrow> ul s | None \<Rightarrow> [c])"

definition py_upper :: "ustr \<Rightarrow> ustr" where
  "py_upper s = concat (map upper_char s)"

section \<open>Splitting\<close>

fun split_on :: "'a \<Rightarrow> 'a list \<Rightarrow> 'a list list" where
  "split_on x [] = [[]]"
| "split_on x (c # cs) =
     (if c = x then [] # split_on x cs
      else case split_on x cs of [] \<Rightarrow> [[c]] | f # fs \<Rightarrow> (c # f) # fs)"

text \<open>\<open>s.partition(x)\<close>: the part before the first \<open>x\<close>, and what follows it if there is one.\<close>

definition partition_on :: "'a \<Rightarrow> 'a list \<Rightarrow> 'a list \<times> 'a list option" where
  "partition_on x s =
     (takeWhile (\<lambda>c. c \<noteq> x) s, case dropWhile (\<lambda>c. c \<noteq> x) s of [] \<Rightarrow> None | _ # r \<Rightarrow> Some r)"

fun join_with :: "'a \<Rightarrow> 'a list list \<Rightarrow> 'a list" where
  "join_with x [] = []"
| "join_with x [f] = f"
| "join_with x (f # g # fs) = f @ x # join_with x (g # fs)"

lemma split_on_ne [simp]: "split_on x s \<noteq> []"
  by (induction s) (auto split: list.splits)

lemma join_split: "join_with x (split_on x s) = s"
proof (induction s)
  case (Cons c s)
  then show ?case by (cases "split_on x s"; cases "tl (split_on x s)") auto
qed simp

lemma split_on_part: "f \<in> set (split_on x s) \<Longrightarrow> set f \<subseteq> set s - {x}"
proof (induction s arbitrary: f)
  case (Cons c s)
  then show ?case by (cases "split_on x s") (fastforce split: if_splits)+
qed simp

lemma split_on_no: "x \<notin> set s \<Longrightarrow> split_on x s = [s]"
  by (induction s) auto

lemma split_on_app: "x \<notin> set s \<Longrightarrow> split_on x (s @ x # t) = s # split_on x t"
  by (induction s) auto

lemma split_join: "fs \<noteq> [] \<Longrightarrow> list_all (\<lambda>f. x \<notin> set f) fs \<Longrightarrow> split_on x (join_with x fs) = fs"
  by (induction fs rule: join_with.induct) (simp_all add: split_on_no split_on_app)

lemma split_on_append: "split_on x (s @ x # t) = split_on x s @ split_on x t"
proof (induction s)
  case (Cons c s)
  then show ?case by (cases "split_on x s") auto
qed simp

lemma split_on_last: "x \<notin> set t \<Longrightarrow> split_on x (s @ t) = butlast (split_on x s) @ [last (split_on x s) @ t]"
proof (induction s)
  case (Cons c s)
  then show ?case by (cases "split_on x s") auto
qed (simp add: split_on_no)

lemma set_split_on: "set s \<subseteq> insert x (\<Union> (set ` set (split_on x s)))"
proof (induction s)
  case (Cons c s)
  then show ?case by (cases "split_on x s") auto
qed simp

section \<open>\<open>posixpath.normpath\<close>\<close>

definition dotdot :: ustr where "dotdot = [46, 46]"

text \<open>The loop over the components; \<open>new\<close> is the list built so far, last component first.\<close>

definition norm_step :: "bool \<Rightarrow> ustr list \<Rightarrow> ustr \<Rightarrow> ustr list" where
  "norm_step rooted new part =
     (if part = [] \<or> part = [46] then new
      else if part \<noteq> dotdot \<or> (\<not> rooted \<and> new = []) \<or> (new \<noteq> [] \<and> hd new = dotdot) then part # new
      else if new \<noteq> [] then tl new else new)"

definition initial_slashes :: "ustr \<Rightarrow> nat" where
  "initial_slashes p =
     (if \<not> starts_with p [slash] then 0
      else if starts_with p [slash, slash] \<and> \<not> starts_with p [slash, slash, slash] then 2 else 1)"

definition normpath :: "ustr \<Rightarrow> ustr" where
  "normpath p =
     (if p = [] then [46]
      else let k = initial_slashes p;
               q = replicate k slash @ join_with slash (rev (foldl (norm_step (k > 0)) [] (split_on slash p)))
           in if q = [] then [46] else q)"

lemmas py_text_exec [exec] = decimal_zeros_def digit_of_def is_decimal_def py_int_def special_upper_def upper_char_def
  py_upper_def partition_on_def dotdot_def norm_step_def initial_slashes_def normpath_def

end
