(* ===== verification/Py_Ip.thy ===== *)
theory Py_Ip imports Main Py_Text Py_Json begin

text \<open>
  White space, ASCII case and the standard library's \<open>ipaddress\<close> (Python 3.11 and 3.12) as far as
  \<open>oci_provenance.py\<close> uses them: \<open>str.strip\<close>, \<open>str.isspace\<close>, \<open>str.lower\<close> on ASCII text,
  \<open>IPv4Address(s)\<close> and \<open>IPv6Address(s)\<close> with the texts they print. An address is the list of its
  four octets or eight 16-bit groups.
\<close>

section \<open>Characters\<close>

definition is_space :: "int \<Rightarrow> bool" where
  "is_space c \<longleftrightarrow> 9 \<le> c \<and> c \<le> 13 \<or> 28 \<le> c \<and> c \<le> 32 \<or>
     c \<in> {133, 160, 5760, 8232, 8233, 8239, 8287, 12288} \<or> 8192 \<le> c \<and> c \<le> 8202"

definition strip :: "ustr \<Rightarrow> ustr" where
  "strip s = rev (dropWhile is_space (rev (dropWhile is_space s)))"

definition lower_char :: "int \<Rightarrow> int" where
  "lower_char c = (if 65 \<le> c \<and> c \<le> 90 then c + 32 else c)"

definition ascii_lower :: "ustr \<Rightarrow> ustr" where
  "ascii_lower s = map lower_char s"

definition is_lower :: "int \<Rightarrow> bool" where
  "is_lower c \<longleftrightarrow> 97 \<le> c \<and> c \<le> 122 \<or> is_digit c"

definition is_alnum :: "int \<Rightarrow> bool" where
  "is_alnum c \<longleftrightarrow> is_lower c \<or> 65 \<le> c \<and> c \<le> 90"

text \<open>\<open>s.isascii() and s.isdigit()\<close>.\<close>

definition ascii_digits :: "ustr \<Rightarrow> bool" where
  "ascii_digits s \<longleftrightarrow> s \<noteq> [] \<and> list_all is_digit s"

section \<open>IPv4\<close>

definition ip4_octet :: "ustr \<Rightarrow> int option" where
  "ip4_octet s =
     (if ascii_digits s \<and> length s \<le> 3 \<and> (s = [48] \<or> hd s \<noteq> 48) \<and> digits_value s \<le> 255
      then Some (digits_value s) else None)"

definition ip4_parse :: "ustr \<Rightarrow> int list option" where
  "ip4_parse s =
     (let parts = split_on 46 s in if length parts = 4 then those (map ip4_octet parts) else None)"

definition ip4_text :: "int list \<Rightarrow> ustr" where
  "ip4_text octets = join_with 46 (map dec_int octets)"

section \<open>IPv6\<close>

text \<open>\<open>'%x' % n\<close> of a 16-bit number.\<close>

definition hex_text :: "int \<Rightarrow> ustr" where
  "hex_text n =
     (let ds = dropWhile (\<lambda>d. d = 0) [n div 4096 mod 16, n div 256 mod 16, n div 16 mod 16, n mod 16]
      in if ds = [] then [48] else map hex_digit ds)"

definition hextet :: "ustr \<Rightarrow> int option" where
  "hextet s =
     (if s \<noteq> [] \<and> list_all is_hex_any s \<and> length s \<le> 4
      then Some (foldl (\<lambda>a c. a * 16 + hex_value c) 0 s) else None)"

text \<open>The parts between colons; a dotted IPv4 suffix becomes two hexadecimal parts.\<close>

definition ip6_parts :: "ustr \<Rightarrow> ustr list option" where
  "ip6_parts s =
     (let parts = split_on 58 s
      in if length parts < 3 then None
         else if 46 \<notin> set (last parts) then Some parts
         else case ip4_parse (last parts) of
                Some [a, b, c, d] \<Rightarrow> Some (butlast parts @ [hex_text (a * 256 + b), hex_text (c * 256 + d)])
              | _ \<Rightarrow> None)"

text \<open>
  \<open>_ip_int_from_string\<close>: an empty part between the ends stands for the zero groups that were left
  out, at most one of them, and an end may be empty only beside it.
\<close>

definition ip6_groups :: "ustr list \<Rightarrow> int list option" where
  "ip6_groups parts =
     (if length parts > 9 then None
      else case filter (\<lambda>i. parts ! i = []) [1..<length parts - 1] of
        [] \<Rightarrow> if length parts = 8 \<and> hd parts \<noteq> [] \<and> last parts \<noteq> [] then those (map hextet parts) else None
      | [k] \<Rightarrow>
          let hi = (if hd parts = [] then k - 1 else k);
              lo = (if last parts = [] then length parts - k - 2 else length parts - k - 1)
          in if hd parts = [] \<and> hi \<noteq> 0 \<or> last parts = [] \<and> lo \<noteq> 0 \<or> 8 < hi + lo + 1 then None
             else (case (those (map hextet (take hi parts)), those (map hextet (drop (length parts - lo) parts))) of
                     (Some a, Some b) \<Rightarrow> Some (a @ replicate (8 - (hi + lo)) 0 @ b)
                   | _ \<Rightarrow> None)
      | _ \<Rightarrow> None)"

definition ip6_parse :: "ustr \<Rightarrow> int list option" where
  "ip6_parse s = Option.bind (ip6_parts s) ip6_groups"

text \<open>
  \<open>_compress_hextets\<close>: the first of the longest runs of zero groups, as its start and length; the
  fold keeps the best run so far and the run that reaches the current position.
\<close>

definition run_step :: "nat \<times> int \<Rightarrow> nat \<times> nat \<times> nat \<times> nat \<Rightarrow> nat \<times> nat \<times> nat \<times> nat" where
  "run_step ih st =
     (case (ih, st) of ((i, h), (bs, len, s, n)) \<Rightarrow>
        if h = 0 then
          (let s' = (if n = 0 then i else s) in if len < n + 1 then (s', n + 1, s', n + 1) else (bs, len, s', n + 1))
        else (bs, len, 0, 0))"

definition zero_run :: "int list \<Rightarrow> nat \<times> nat" where
  "zero_run gs = (case fold run_step (zip [0..<length gs] gs) (0, 0, 0, 0) of (bs, len, _, _) \<Rightarrow> (bs, len))"

definition ip6_text :: "int list \<Rightarrow> ustr" where
  "ip6_text gs =
     (let hs = map hex_text gs; (bs, len) = zero_run gs
      in join_with 58
           (if len > 1 then (if bs = 0 then [[]] else []) @ take bs hs @ [[]] @ drop (bs + len) hs @
                           (if bs + len = length hs then [[]] else [])
            else hs))"

lemmas py_ip_exec [exec] = is_space_def strip_def lower_char_def ascii_lower_def is_lower_def is_alnum_def
  ascii_digits_def ip4_octet_def ip4_parse_def ip4_text_def hex_text_def hextet_def ip6_parts_def ip6_groups_def
  ip6_parse_def run_step_def zero_run_def ip6_text_def

section \<open>Octets and hexadecimal groups\<close>

lemma those_iff: "those xs = Some ys \<longleftrightarrow> xs = map Some ys"
proof (induction xs arbitrary: ys)
  case (Cons x xs)
  then show ?case by (cases x; cases ys) auto
qed auto

lemma those_map_cong: "(\<And>x. x \<in> set xs \<Longrightarrow> f x = Some (g x)) \<Longrightarrow> those (map f xs) = Some (map g xs)"
  by (auto simp: those_iff)

lemma nibbles_sum:
  fixes p q r :: int
  shows "p = a \<Longrightarrow> q = p * 16 + b \<Longrightarrow> r = q * 16 + c \<Longrightarrow> n = r * 16 + d \<Longrightarrow> n = ((a * 16 + b) * 16 + c) * 16 + d"
  by simp

lemma hextet_hex_text: "0 \<le> n \<Longrightarrow> n < 65536 \<Longrightarrow> hextet (hex_text n) = Some n"
proof -
  assume n: "0 \<le> n" "n < 65536"
  define a b c d where abcd: "a = n div 4096 mod 16" "b = n div 256 mod 16" "c = n div 16 mod 16" "d = n mod 16"
  have r: "0 \<le> a" "a < 16" "0 \<le> b" "b < 16" "0 \<le> c" "c < 16" "0 \<le> d" "d < 16" by (simp_all add: abcd)
  have d16: "n div 16 div 16 = n div 256" "n div 256 div 16 = n div 4096" by simp_all
  have "n div 4096 < 16" "0 \<le> n div 4096" using n by (simp_all add: pos_imp_zdiv_nonneg_iff)
  then have "n div 4096 = a" by (simp add: abcd)
  moreover have "n div 256 = n div 4096 * 16 + b" 
    unfolding abcd by (metis (no_types) d16 div_mult_mod_eq)
  moreover have "n div 16 = n div 256 * 16 + c" 
    unfolding abcd by (metis (no_types) d16 div_mult_mod_eq)
  moreover have "n = n div 16 * 16 + d" by (simp add: abcd)
  ultimately have "n = ((a * 16 + b) * 16 + c) * 16 + d" by (rule nibbles_sum)
  moreover have "is_hex_any (hex_digit x)" if "0 \<le> x" "x < 16" for x
    using is_hex_lower_digit [OF that] by (simp add: is_hex_any_def)
  moreover have "hex_value 48 = 0" "is_hex_any 48" by (simp_all add: hex_value_def is_hex_any_def is_hex_lower_def)
  ultimately show ?thesis
    unfolding hex_text_def hextet_def abcd [symmetric] using r by (simp add: hex_value_digit)
qed

lemma hex_text_chars: "c \<in> set (hex_text n) \<Longrightarrow> is_hex_lower c"
proof -
  assume c: "c \<in> set (hex_text n)"
  define ds where "ds = dropWhile (\<lambda>d. d = 0) [n div 4096 mod 16, n div 256 mod 16, n div 16 mod 16, n mod 16]"
  have "x \<in> {n div 4096 mod 16, n div 256 mod 16, n div 16 mod 16, n mod 16}" if "x \<in> set ds" for x
    using set_dropWhileD [OF that [unfolded ds_def]] by simp
  then have "0 \<le> x \<and> x < 16" if "x \<in> set ds" for x using that by fastforce
  moreover have "hex_text n = (if ds = [] then [48] else map hex_digit ds)" by (simp add: hex_text_def ds_def Let_def)
  ultimately show ?thesis using c is_hex_lower_digit by (auto simp: is_hex_lower_def split: if_splits)
qed

lemma hex_text_ne [simp]: "hex_text n \<noteq> []"
  by (auto simp: hex_text_def Let_def)

lemma hextet_bounds: "hextet s = Some n \<Longrightarrow> 0 \<le> n \<and> n < 65536"
proof -
  assume h: "hextet s = Some n"
  have d: "0 \<le> hex_value c \<and> hex_value c < 16" if "is_hex_any c" for c
    using that by (auto simp: hex_value_def is_hex_any_def is_hex_lower_def)
  have "0 \<le> foldl (\<lambda>a c. a * 16 + hex_value c) x t \<and> foldl (\<lambda>a c. a * 16 + hex_value c) x t < (x + 1) * 16 ^ length t"
    if "list_all is_hex_any t" "0 \<le> x" for t x
    using that
  proof (induction t arbitrary: x)
    case (Cons c t)
    let ?y = "x * 16 + hex_value c"
    have y: "0 \<le> ?y" "?y + 1 \<le> (x + 1) * 16" using d [of c] Cons.prems by auto
    then have "(?y + 1) * 16 ^ length t \<le> (x + 1) * 16 * 16 ^ length t" by (intro mult_right_mono) auto
    then have "(?y + 1) * 16 ^ length t \<le> (x + 1) * 16 ^ length (c # t)" by (simp add: mult.assoc)
    moreover have "0 \<le> foldl (\<lambda>a c. a * 16 + hex_value c) ?y t \<and> foldl (\<lambda>a c. a * 16 + hex_value c) ?y t < (?y + 1) * 16 ^ length t"
      using Cons.IH [of ?y] y Cons.prems by simp
    ultimately show ?case by (auto intro: less_le_trans)
  qed simp
  from this [of s 0] h have "0 \<le> n" "n < 16 ^ length s" "length s \<le> 4" by (auto simp: hextet_def split: if_splits)
  moreover have "(16 :: int) ^ length s \<le> 16 ^ 4" using \<open>length s \<le> 4\<close> by (intro power_increasing) auto
  ultimately show ?thesis by auto
qed

lemma dec_nat_no_zero: "ascii_digits s \<Longrightarrow> s = [48] \<or> hd s \<noteq> 48 \<Longrightarrow> dec_int (digits_value s) = s"
proof (induction s rule: rev_induct)
  case (snoc d s)
  have d: "is_digit d" using snoc.prems by (simp add: ascii_digits_def)
  show ?case
  proof (cases "s = []")
    case True
    then show ?thesis using d by (simp add: digits_value_def dec_int_def is_digit_def dec_nat_small)
  next
    case False
    with snoc have s: "ascii_digits s" "hd s \<noteq> 48" by (auto simp: ascii_digits_def)
    with snoc.IH have i: "dec_int (digits_value s) = s" by simp
    have nn: "0 \<le> digits_value s"
    proof (rule ccontr)
      assume "\<not> 0 \<le> digits_value s"
      with i have "hd s = 45" by (metis dec_int_def list.sel(1) not_le)
      with s False show False by (cases s) (auto simp: ascii_digits_def is_digit_def)
    qed
    have "digits_value s \<noteq> 0" using i s False by (auto simp: dec_int_def)
    with nn d i show ?thesis by (simp add: digits_value_snoc dec_int_def is_digit_def dec_nat_large)
  qed
qed (simp add: ascii_digits_def)

lemma ip4_text_parse: "ip4_parse s = Some os \<Longrightarrow> ip4_text os = s \<and> length os = 4"
proof -
  assume p: "ip4_parse s = Some os"
  then have l: "length (split_on 46 s) = 4" and o: "map ip4_octet (split_on 46 s) = map Some os"
    by (auto simp: ip4_parse_def Let_def those_iff split: if_splits)
  have "dec_int n = t" if "ip4_octet t = Some n" for t n
    using that dec_nat_no_zero by (auto simp: ip4_octet_def split: if_splits)
  moreover have "list_all2 (\<lambda>t n. ip4_octet t = Some n) (split_on 46 s) os"
    using o by (auto simp: list_all2_conv_all_nth list_eq_iff_nth_eq)
  ultimately have "list_all2 (\<lambda>t n. dec_int n = t) (split_on 46 s) os" by (auto elim: list_all2_mono)
  then have "map dec_int os = split_on 46 s" by (auto simp: list_all2_conv_all_nth intro: nth_equalityI)
  moreover have "length os = 4" using o l by (metis length_map)
  ultimately show ?thesis by (simp add: ip4_text_def join_split)
qed

section \<open>An IPv6 address reads back\<close>

definition zeros_at :: "int list \<Rightarrow> nat \<Rightarrow> nat \<Rightarrow> bool" where
  "zeros_at gs b l \<longleftrightarrow> b + l \<le> length gs \<and> (\<forall>i. b \<le> i \<and> i < b + l \<longrightarrow> gs ! i = 0)"

lemma zeros_at_snoc: "zeros_at gs b l \<Longrightarrow> zeros_at (gs @ [g]) b l"
  by (auto simp: zeros_at_def nth_append)

lemma zeros_at_grow: "zeros_at gs s n \<Longrightarrow> s + n = length gs \<Longrightarrow> zeros_at (gs @ [0]) s (Suc n)"
  by (auto simp: zeros_at_def nth_append)

lemma run_fold:
  "fold run_step (zip [0..<length gs] gs) (0, 0, 0, 0) = (bs, len, s, n) \<Longrightarrow>
   zeros_at gs bs len \<and> (n = 0 \<or> s + n = length gs \<and> zeros_at gs s n)"
proof (induction gs arbitrary: bs len s n rule: rev_induct)
  case Nil
  then show ?case by (simp add: zeros_at_def)
next
  case (snoc g gs)
  obtain bs' len' s' n' where f: "fold run_step (zip [0..<length gs] gs) (0, 0, 0, 0) = (bs', len', s', n')"
    by (metis surj_pair)
  note IH = snoc.IH [OF f]
  have z: "zip [0..<length (gs @ [g])] (gs @ [g]) = zip [0..<length gs] gs @ [(length gs, g)]" by simp
  have step: "run_step (length gs, g) (bs', len', s', n') = (bs, len, s, n)" using snoc.prems f unfolding z by simp
  have one: "zeros_at (gs @ [0]) (length gs) (Suc 0)" by (auto simp: zeros_at_def nth_append)
  have "zeros_at (gs @ [0]) s' (Suc n')" if "n' \<noteq> 0" using IH that zeros_at_grow by blast
  with step IH one zeros_at_snoc [of gs] show ?case
    by (cases "g = 0") (auto simp: run_step_def Let_def split: if_splits)
qed

lemma zero_run_zeros: "zero_run gs = (bs, len) \<Longrightarrow> zeros_at gs bs len"
  using run_fold [of gs] by (fastforce simp: zero_run_def split: prod.splits)

lemma filter_single: "a \<le> k \<Longrightarrow> k < b \<Longrightarrow> (\<And>i. a \<le> i \<Longrightarrow> i < b \<Longrightarrow> P i \<longleftrightarrow> i = k) \<Longrightarrow> filter P [a..<b] = [k]"
proof -
  assume k: "a \<le> k" "k < b" and P: "\<And>i. a \<le> i \<Longrightarrow> i < b \<Longrightarrow> P i \<longleftrightarrow> i = k"
  have "[a..<b] = [a..<k] @ k # [Suc k..<b]" using k by (metis le_add_diff_inverse less_imp_le upt_add_eq_append upt_conv_Cons)
  moreover have "filter P [a..<k] = []" "filter P [Suc k..<b] = []" using P k by (auto simp: filter_empty_conv)
  ultimately show ?thesis using P k by simp
qed

lemma those_hex_text: "(\<And>g. g \<in> set gs \<Longrightarrow> 0 \<le> g \<and> g < 65536) \<Longrightarrow> those (map (hextet \<circ> hex_text) gs) = Some gs"
  using those_map_cong [of gs "hextet \<circ> hex_text" id] hextet_hex_text by simp

lemma ip6_groups_one:
  assumes "length ps \<le> 9" and "filter (\<lambda>i. ps ! i = []) [1..<length ps - 1] = [k]"
    and "hi = (if hd ps = [] then k - 1 else k)" and "lo = (if last ps = [] then length ps - k - 2 else length ps - k - 1)"
    and "hd ps = [] \<longrightarrow> hi = 0" and "last ps = [] \<longrightarrow> lo = 0" and "hi + lo \<le> 7"
    and "those (map hextet (take hi ps)) = Some a" and "those (map hextet (drop (length ps - lo) ps)) = Some b"
  shows "ip6_groups ps = Some (a @ replicate (8 - (hi + lo)) 0 @ b)"
  unfolding ip6_groups_def assms(2) using assms(1,5-) by (simp add: Let_def assms(3,4) [symmetric])

lemma ip6_groups_run:
  assumes g: "\<And>g. g \<in> set A \<union> set B \<Longrightarrow> 0 \<le> g \<and> g < 65536" and l: "length A + length B \<le> 6"
  shows "ip6_groups ((if A = [] then [[]] else []) @ map hex_text A @ [[]] @ map hex_text B @ (if B = [] then [[]] else [])) =
         Some (A @ replicate (8 - (length A + length B)) 0 @ B)"
    (is "ip6_groups ?L = _")
proof -
  define k where "k = (if A = [] then 1 else length A)"
  have len: "length ?L = length A + length B + 1 + (if A = [] then 1 else 0) + (if B = [] then 1 else 0)" by simp
  have nth: "?L ! i = [] \<longleftrightarrow> i = k" if "1 \<le> i" "i < length ?L - 1" for i
    using that by (auto simp: k_def nth_append nth_Cons' split: if_splits)
  have f: "filter (\<lambda>i. ?L ! i = []) [1..<length ?L - 1] = [k]"
    by (rule filter_single) (use nth in \<open>auto simp: k_def Suc_le_eq\<close>)
  have h: "hd ?L = [] \<longleftrightarrow> A = []" by (cases A) auto
  have t: "last ?L = [] \<longleftrightarrow> B = []" by (cases B rule: rev_cases) auto
  define hi lo where "hi = (if hd ?L = [] then k - 1 else k)"
    and "lo = (if last ?L = [] then length ?L - k - 2 else length ?L - k - 1)"
  have hl: "hi = length A" "lo = length B" unfolding hi_def lo_def h t len by (auto simp: k_def)
  have take: "take hi ?L = map hex_text A" unfolding hl by auto
  have drop: "drop (length ?L - lo) ?L = map hex_text B" unfolding hl len by auto
  have A: "those (map hextet (map hex_text A)) = Some A" "those (map hextet (map hex_text B)) = Some B"
    using those_hex_text [of A] those_hex_text [of B] g by simp_all
  have "ip6_groups ?L = Some (A @ replicate (8 - (hi + lo)) 0 @ B)"
  proof (rule ip6_groups_one [OF _ f hi_def lo_def])
    show "length ?L \<le> 9" using l unfolding len by simp
    show "those (map hextet (take hi ?L)) = Some A" unfolding take by (rule A)
    show "those (map hextet (drop (length ?L - lo) ?L)) = Some B" unfolding drop by (rule A)
  qed (use h t l hl in auto)
  then show ?thesis unfolding hl .
qed

lemma ip6_groups_plain:
  assumes g: "\<And>g. g \<in> set gs \<Longrightarrow> 0 \<le> g \<and> g < 65536" and l: "length gs = 8"
  shows "ip6_groups (map hex_text gs) = Some gs"
proof -
  have "filter (\<lambda>i. map hex_text gs ! i = []) [1..<length (map hex_text gs) - 1] = []"
    using l by (auto simp: filter_empty_conv)
  moreover have "hd (map hex_text gs) \<noteq> []" "last (map hex_text gs) \<noteq> []" using l by (cases gs; simp add: last_map)+
  ultimately show ?thesis using those_hex_text [OF g] l by (simp add: ip6_groups_def)
qed

lemma ip6_text_parse:
  assumes g: "\<And>g. g \<in> set gs \<Longrightarrow> 0 \<le> g \<and> g < 65536" and l: "length gs = 8"
  shows "ip6_parse (ip6_text gs) = Some gs"
proof -
  obtain bs len where z: "zero_run gs = (bs, len)" by fastforce
  note zs = zero_run_zeros [OF z]
  define A B where "A = take bs gs" and "B = drop (bs + len) gs"
  define L where "L = (if len > 1 then (if A = [] then [[]] else []) @ map hex_text A @ [[]] @ map hex_text B @ (if B = [] then [[]] else [])
                       else map hex_text gs)"
  have ends: "bs = 0 \<longleftrightarrow> A = []" "bs + len = length gs \<longleftrightarrow> B = []"
    using zs l by (auto simp: A_def B_def zeros_at_def)
  have printed: "ip6_text gs = join_with 58 L"
    using ends by (simp add: ip6_text_def L_def z Let_def A_def B_def take_map drop_map)
  have chars: "c \<noteq> 58 \<and> c \<noteq> 46" if "t \<in> set L" "c \<in> set t" for t c
    using that hex_text_chars by (fastforce simp: L_def is_hex_lower_def split: if_splits)
  have lenL: "3 \<le> length L" "L \<noteq> []" using l by (cases A; cases B; auto simp: L_def)+
  have split: "split_on 58 (join_with 58 L) = L" using chars lenL by (intro split_join) (auto simp: list_all_iff)
  have "46 \<notin> set (last L)" using chars last_in_set [OF lenL(2)] by blast
  then have parts: "ip6_parts (ip6_text gs) = Some L" using lenL by (simp add: ip6_parts_def printed split Let_def)
  have "ip6_groups L = Some gs"
  proof (cases "len > 1")
    case True
    have le: "bs + len \<le> 8" using zs l by (simp add: zeros_at_def)
    have lens: "length A = bs" "length B = 8 - (bs + len)" using le l by (auto simp: A_def B_def)
    have "take len (drop bs gs) = replicate len 0"
      using zs l by (intro nth_equalityI) (auto simp: zeros_at_def)
    moreover have "gs = A @ take len (drop bs gs) @ B"
      unfolding A_def B_def by (metis append_take_drop_id drop_drop add.commute)
    ultimately have "gs = A @ replicate len 0 @ B" by simp
    moreover have "8 - (length A + length B) = len" using lens le by simp
    moreover have "ip6_groups L = Some (A @ replicate (8 - (length A + length B)) 0 @ B)"
      unfolding L_def if_P [OF True]
      by (rule ip6_groups_run) (use g lens le True in \<open>auto simp: A_def B_def dest: in_set_takeD in_set_dropD\<close>)
    ultimately show ?thesis by simp
  next
    case False
    then show ?thesis unfolding L_def using ip6_groups_plain [OF g l] by simp
  qed
  with parts show ?thesis by (simp add: ip6_parse_def)
qed

lemma ip6_parse_groups: "ip6_parse s = Some gs \<Longrightarrow> length gs = 8 \<and> (\<forall>g \<in> set gs. 0 \<le> g \<and> g < 65536)"
proof -
  assume "ip6_parse s = Some gs"
  then obtain ps where p: "ip6_groups ps = Some gs" by (auto simp: ip6_parse_def Option.bind_eq_Some_conv)
  have ok: "\<forall>g \<in> set b. 0 \<le> g \<and> g < 65536" if "map hextet xs = map Some b" for xs b
  proof
    fix g assume "g \<in> set b"
    then have "Some g \<in> set (map hextet xs)" using that by auto
    then show "0 \<le> g \<and> g < 65536" using hextet_bounds by auto
  qed
  consider "filter (\<lambda>i. ps ! i = []) [1..<length ps - 1] = []" | k where "filter (\<lambda>i. ps ! i = []) [1..<length ps - 1] = [k]"
    | i j r where "filter (\<lambda>i. ps ! i = []) [1..<length ps - 1] = i # j # r" by (metis list.exhaust)
  then show ?thesis
  proof cases
    case 1
    then have "length ps = 8" "map hextet ps = map Some gs"
      using p by (auto simp: ip6_groups_def those_iff split: if_splits)
    then show ?thesis using ok by (metis length_map)
  next
    case 2
    define hi lo where "hi = (if hd ps = [] then k - 1 else k)"
      and "lo = (if last ps = [] then length ps - k - 2 else length ps - k - 1)"
    obtain a b where ab: "map hextet (take hi ps) = map Some a" "map hextet (drop (length ps - lo) ps) = map Some b"
        "gs = a @ replicate (8 - (hi + lo)) 0 @ b" "hi + lo \<le> 7"
      using p unfolding ip6_groups_def 2 by (auto simp: Let_def those_iff hi_def [symmetric] lo_def [symmetric] split: if_splits option.splits)
    have "k \<in> set [1..<length ps - 1]" using 2 by (metis filter_is_subset in_mono list.set_intros(1))
    then have k: "1 \<le> k" "k < length ps - 1" by simp_all
    then have "hi \<le> length ps" "lo \<le> length ps" by (auto simp: hi_def lo_def)
    moreover have "length a = length (take hi ps)" "length b = length (drop (length ps - lo) ps)"
      using ab(1,2) by (metis length_map)+
    ultimately have "length gs = 8" using ab(3,4) by simp
    with ok [OF ab(1)] ok [OF ab(2)] ab(3) show ?thesis by auto
  next
    case 3
    then show ?thesis using p by (simp add: ip6_groups_def split: if_splits)
  qed
qed

lemma ip6_text_stable: "ip6_parse s = Some gs \<Longrightarrow> ip6_parse (ip6_text gs) = Some gs"
  using ip6_parse_groups ip6_text_parse by blast

lemma ip6_text_chars: "c \<in> set (ip6_text gs) \<Longrightarrow> is_hex_lower c \<or> c = 58"
proof -
  have join: "c \<in> set (join_with 58 L) \<Longrightarrow> c = 58 \<or> (\<exists>t \<in> set L. c \<in> set t)" for L
    by (induction L rule: join_with.induct [of _ "58 :: int"]) auto
  assume "c \<in> set (ip6_text gs)"
  then show ?thesis
    using join hex_text_chars by (fastforce simp: ip6_text_def Let_def split: prod.splits if_splits dest: in_set_takeD in_set_dropD)
qed

end
