(* ===== verification/Py_Json_Total.thy ===== *)
theory Py_Json_Total imports Main Wire_Values begin

text \<open>
  When \<open>canonical_json_bytes\<close> succeeds: no float but 15.0, integers within the digit limit,
  and strings without lone surrogates.
\<close>

definition utf8_ok :: "ustr \<Rightarrow> bool" where
  "utf8_ok s \<longleftrightarrow> (\<forall>c \<in> set s. 0 \<le> c \<and> c < 1114112 \<and> \<not> (55296 \<le> c \<and> c < 57344))"

lemma utf8_ok_simps [simp]:
  "utf8_ok []" "utf8_ok (c # s) \<longleftrightarrow> (0 \<le> c \<and> c < 1114112 \<and> \<not> (55296 \<le> c \<and> c < 57344)) \<and> utf8_ok s"
  "utf8_ok (s @ t) \<longleftrightarrow> utf8_ok s \<and> utf8_ok t"
  by (auto simp: utf8_ok_def)

lemma utf8_encode_ok: "utf8_encode s \<noteq> None \<longleftrightarrow> utf8_ok s"
proof (induction s)
  case (Cons c s)
  have "utf8_char c \<noteq> None \<longleftrightarrow> 0 \<le> c \<and> c < 1114112 \<and> \<not> (55296 \<le> c \<and> c < 57344)"
    by (auto simp: utf8_char_def)
  with Cons show ?case by (auto split: option.splits)
qed simp

lemma ascii_utf8_ok: "is_ascii s \<Longrightarrow> utf8_ok s"
  by (auto simp: is_ascii_def utf8_ok_def)

lemma ul_utf8_ok [simp]: "utf8_ok (ul s)"
  using ul_bounded by (fastforce simp: utf8_ok_def)

primrec json_ok :: "json \<Rightarrow> bool" where
  "json_ok JNull = True"
| "json_ok (JBool b) = True"
| "json_ok (JInt i) = (\<bar>i\<bar> \<le> 10 ^ 20)"
| "json_ok JFifteen = True"
| "json_ok (JFloat x) = False"
| "json_ok (JStr s) = utf8_ok s"
| "json_ok (JArr vs) = list_all (\<lambda>b. b) (map json_ok vs)"
| "json_ok (JObj ps) = list_all (\<lambda>(k, b). utf8_ok k \<and> b) (map (map_prod id json_ok) ps)"

lemma json_ok_JArr [simp]: "json_ok (JArr vs) \<longleftrightarrow> (\<forall>v \<in> set vs. json_ok v)"
  by (simp add: list_all_iff)

lemma json_ok_JObj [simp]: "json_ok (JObj ps) \<longleftrightarrow> (\<forall>(k, v) \<in> set ps. utf8_ok k \<and> json_ok v)"
  by (auto simp: list_all_iff)

declare json_ok.simps(7,8) [simp del]

lemma json_ok_jint [simp]: "json_ok (jint v) \<longleftrightarrow> (\<forall>i. v = Some i \<longrightarrow> \<bar>i\<bar> \<le> 10 ^ 20)"
  by (simp add: jint_def split: option.splits)

lemma json_ok_canon: "json_ok v \<Longrightarrow> json_ok (canon v)"
proof (induction v)
  case (JObj ps)
  have "json_ok (canon (snd p)) \<and> utf8_ok (fst p)" if "p \<in> set ps" for p
    using JObj that by (fastforce simp: snds.simps)
  then show ?case by fastforce
qed auto

section \<open>The encoder succeeds\<close>

lemma length_dec_nat: "0 \<le> n \<Longrightarrow> n < 10 ^ Suc k \<Longrightarrow> length (dec_nat n) \<le> Suc k"
proof (induction k arbitrary: n)
  case 0
  then show ?case by (simp add: dec_nat_small)
next
  case (Suc k)
  show ?case
  proof (cases "n < 10")
    case True
    then show ?thesis by (simp add: dec_nat_small)
  next
    case False
    have "n div 10 < 10 ^ Suc k" using Suc.prems by (simp add: div_less_iff_less_mult)
    with Suc.IH [of "n div 10"] Suc.prems have "length (dec_nat (n div 10)) \<le> Suc k" by simp
    with False show ?thesis by (simp add: dec_nat_large)
  qed
qed

lemma dec_int_ok: "utf8_ok (dec_int i)"
proof -
  have "utf8_ok (dec_nat n)" if "0 \<le> n" for n
    using dec_nat_digits [OF that] by (fastforce simp: utf8_ok_def is_digit_def)
  then show ?thesis by (simp add: dec_int_def)
qed

lemma esc_char_ok: "0 \<le> c \<Longrightarrow> c < 1114112 \<Longrightarrow> \<not> (55296 \<le> c \<and> c < 57344) \<Longrightarrow> utf8_ok (esc_char c)"
proof -
  assume c: "0 \<le> c" "c < 1114112" "\<not> (55296 \<le> c \<and> c < 57344)"
  have h: "0 \<le> hex_digit d \<and> hex_digit d < 128" if "0 \<le> d" "d < 16" for d
    using that by (auto simp: hex_digit_def)
  show ?thesis
  proof (cases "c < 32")
    case True
    with c have "utf8_ok [hex_digit (c div 16), hex_digit (c mod 16)]"
    proof -
      have "0 \<le> c div 16" "c div 16 < 16" using c True by auto
      then show ?thesis using h [of "c div 16"] h [of "c mod 16"] by simp
    qed
    with True c show ?thesis by (auto simp: esc_char_def)
  next
    case False
    with c show ?thesis by (simp add: esc_char_def)
  qed
qed

lemma dump_str_ok: "utf8_ok s \<Longrightarrow> utf8_ok (dump_str s)"
proof (induction s)
  case (Cons c s)
  then show ?case using esc_char_ok [of c] by (auto simp: dump_str_def)
qed (simp add: dump_str_def)

lemma dump_total:
  "json_ok v \<Longrightarrow> \<exists>t. dump v = Some t \<and> utf8_ok t"
  "(\<And>v. v \<in> set vs \<Longrightarrow> json_ok v) \<Longrightarrow> \<exists>t. dump_items vs = Some t \<and> utf8_ok t"
  "(\<And>k v. (k, v) \<in> set ps \<Longrightarrow> utf8_ok k \<and> json_ok v) \<Longrightarrow> \<exists>t. dump_pairs ps = Some t \<and> utf8_ok t"
proof (induction v and vs and ps rule: dump_dump_items_dump_pairs.induct)
  case (3 i)
  have "\<bar>i\<bar> < 10 ^ Suc 20" using 3 by simp
  then have "length (dec_nat \<bar>i\<bar>) \<le> Suc 20" by (rule length_dec_nat [rotated]) simp
  then show ?case by (simp add: max_digits_def dec_int_ok)
next
  case (8 ps)
  then have "\<exists>t. dump_pairs ps = Some t \<and> utf8_ok t" by fastforce
  then show ?case by auto
next
  case (10 v vs)
  then show ?case by (cases "vs = []") fastforce+
next
  case (12 p ps)
  obtain k v where p: "p = (k, v)" by fastforce
  have "utf8_ok k" "json_ok v" using 12(3) p by auto
  moreover obtain a where "dump v = Some a" "utf8_ok a" using 12(1) \<open>json_ok v\<close> p by auto
  moreover have "utf8_ok (dump_str k)" using dump_str_ok \<open>utf8_ok k\<close> by simp
  moreover have "\<exists>t. dump_pairs ps = Some t \<and> utf8_ok t" if "ps \<noteq> []"
    using 12(2) [OF _ that] 12(3) \<open>dump v = Some a\<close> p by fastforce
  ultimately show ?case using p by auto
qed (auto simp: dump_str_ok)

lemma canonical_json_bytes_total:
  assumes "json_ok v"
  shows "\<exists>b. canonical_json_bytes v = Some b"
proof -
  obtain t where "dump (canon v) = Some t" "utf8_ok t" using dump_total(1) [OF json_ok_canon [OF assms]] by blast
  then show ?thesis using utf8_encode_ok [of t] by (auto simp: canonical_json_bytes_def)
qed

text \<open>Every code point takes at most four bytes.\<close>

lemma length_utf8_encode: "utf8_encode s = Some b \<Longrightarrow> length b \<le> 4 * length s"
proof (induction s arbitrary: b)
  case (Cons c s)
  have "length a \<le> 4" if "utf8_char c = Some a" for a using that by (auto simp: utf8_char_def split: if_splits)
  then show ?case using Cons by (fastforce split: option.splits)
qed simp

lemma canonical_json_bytes_bound:
  assumes "json_ok v" "dump (canon v) = Some t"
  shows "\<exists>b. canonical_json_bytes v = Some b \<and> (t \<noteq> [] \<longrightarrow> b \<noteq> []) \<and> length b \<le> 4 * length t"
proof -
  obtain b where b: "canonical_json_bytes v = Some b" using canonical_json_bytes_total [OF assms(1)] by blast
  then have "utf8_encode t = Some b" using assms(2) by (simp add: canonical_json_bytes_def)
  then show ?thesis using b length_utf8_encode by auto
qed

end
