(* ===== verification/Py_Base64.thy ===== *)
theory Py_Base64 imports Main Py_Bytes begin

text \<open>
  \<open>base64.b64encode(data).decode("ascii")\<close> and \<open>base64.b64decode(text, validate=True)\<close>
  (RFC 4648, standard alphabet). The decoder refuses what the documentation of strict
  mode lists: a character outside the alphabet, a text that is not whole groups of four,
  and padding anywhere but at the end of the last group. Unused bits of a padded group
  are not looked at.
\<close>

definition b64_char :: "int \<Rightarrow> int" where
  "b64_char v =
     (if v < 26 then 65 + v else if v < 52 then 71 + v else if v < 62 then v - 4 else if v = 62 then 43 else 47)"

definition b64_value :: "int \<Rightarrow> int option" where
  "b64_value c =
     (if 65 \<le> c \<and> c \<le> 90 then Some (c - 65)
      else if 97 \<le> c \<and> c \<le> 122 then Some (c - 71)
      else if 48 \<le> c \<and> c \<le> 57 then Some (c + 4)
      else if c = 43 then Some 62 else if c = 47 then Some 63 else None)"

fun b64encode :: "bytes \<Rightarrow> ustr" where
  "b64encode [] = []"
| "b64encode [a] = [b64_char (uint a div 4), b64_char (uint a mod 4 * 16), 61, 61]"
| "b64encode [a, b] =
     [b64_char (uint a div 4), b64_char (uint a mod 4 * 16 + uint b div 16), b64_char (uint b mod 16 * 4), 61]"
| "b64encode (a # b # c # r) =
     b64_char (uint a div 4) # b64_char (uint a mod 4 * 16 + uint b div 16) #
     b64_char (uint b mod 16 * 4 + uint c div 64) # b64_char (uint c mod 64) # b64encode r"

definition b64_group1 :: "int \<Rightarrow> int \<Rightarrow> byte" where
  "b64_group1 v0 v1 = byte_of (v0 * 4 + v1 div 16)"

definition b64_group2 :: "int \<Rightarrow> int \<Rightarrow> byte" where
  "b64_group2 v1 v2 = byte_of (v1 mod 16 * 16 + v2 div 4)"

definition b64_group3 :: "int \<Rightarrow> int \<Rightarrow> byte" where
  "b64_group3 v2 v3 = byte_of (v2 mod 4 * 64 + v3)"

fun b64decode :: "ustr \<Rightarrow> bytes option" where
  "b64decode [] = Some []"
| "b64decode (c0 # c1 # c2 # c3 # r) =
     (case (b64_value c0, b64_value c1) of
        (Some v0, Some v1) \<Rightarrow>
          if c3 = 61 \<and> r = [] then
            (if c2 = 61 then Some [b64_group1 v0 v1]
             else map_option (\<lambda>v2. [b64_group1 v0 v1, b64_group2 v1 v2]) (b64_value c2))
          else
            (case (b64_value c2, b64_value c3) of
               (Some v2, Some v3) \<Rightarrow>
                 map_option (\<lambda>bs. b64_group1 v0 v1 # b64_group2 v1 v2 # b64_group3 v2 v3 # bs) (b64decode r)
             | _ \<Rightarrow> None)
      | _ \<Rightarrow> None)"
| "b64decode _ = None"

lemma b64_value_char [simp]: "0 \<le> v \<Longrightarrow> v < 64 \<Longrightarrow> b64_value (b64_char v) = Some v"
  by (auto simp: b64_value_def b64_char_def)

lemma b64_char_ne_pad [simp]: "0 \<le> v \<Longrightarrow> b64_char v \<noteq> 61"
  by (auto simp: b64_char_def)

lemma b64_char_ascii: "0 \<le> v \<Longrightarrow> v < 64 \<Longrightarrow> 32 \<le> b64_char v \<and> b64_char v < 127 \<and> b64_char v \<noteq> 34 \<and> b64_char v \<noteq> 92"
  by (auto simp: b64_char_def)

text \<open>The six-bit values a group of three bytes is cut into.\<close>

lemma b64_sextets:
  fixes a b c :: byte
  shows "0 \<le> uint a div 4" "uint a div 4 < 64" "0 \<le> uint a mod 4 * 16" "uint a mod 4 * 16 < 64"
    "0 \<le> uint a mod 4 * 16 + uint b div 16" "uint a mod 4 * 16 + uint b div 16 < 64"
    "0 \<le> uint b mod 16 * 4" "uint b mod 16 * 4 < 64"
    "0 \<le> uint b mod 16 * 4 + uint c div 64" "uint b mod 16 * 4 + uint c div 64 < 64"
    "0 \<le> uint c mod 64" "uint c mod 64 < 64"
proof -
  have d: "0 \<le> uint b div 16" "uint b div 16 < 16" "0 \<le> uint c div 64" "uint c div 64 < 4" "uint a div 4 < 64"
    using uint_byte_bounds [of a] uint_byte_bounds [of b] uint_byte_bounds [of c] by (simp_all add: pos_imp_zdiv_nonneg_iff)
  have m: "0 \<le> uint a mod 4" "uint a mod 4 < 4" "0 \<le> uint b mod 16" "uint b mod 16 < 16" by simp_all
  from d m show "0 \<le> uint a mod 4 * 16 + uint b div 16" "uint a mod 4 * 16 + uint b div 16 < 64"
    "0 \<le> uint b mod 16 * 4 + uint c div 64" "uint b mod 16 * 4 + uint c div 64 < 64"
    "uint a div 4 < 64" "uint a mod 4 * 16 < 64" "uint b mod 16 * 4 < 64" by linarith+
qed (simp_all add: uint_byte_bounds pos_imp_zdiv_nonneg_iff)

lemma b64_groups:
  fixes a b c :: byte
  shows "b64_group1 (uint a div 4) (uint a mod 4 * 16) = a"
    "b64_group1 (uint a div 4) (uint a mod 4 * 16 + uint b div 16) = a"
    "b64_group2 (uint a mod 4 * 16 + uint b div 16) (uint b mod 16 * 4) = b"
    "b64_group2 (uint a mod 4 * 16 + uint b div 16) (uint b mod 16 * 4 + uint c div 64) = b"
    "b64_group3 (uint b mod 16 * 4 + uint c div 64) (uint c mod 64) = c"
proof -
  have lo: "(x * n + y) div n = x \<and> (x * n + y) mod n = y" if "0 \<le> y" "y < n" for x y n :: int
    using that by simp
  have ba: "0 \<le> uint b div 16" "uint b div 16 < 16" and bc: "0 \<le> uint c div 64" "uint c div 64 < 4"
    using uint_byte_bounds [of b] uint_byte_bounds [of c] by (simp_all add: pos_imp_zdiv_nonneg_iff)
  show "b64_group1 (uint a div 4) (uint a mod 4 * 16) = a"
    unfolding b64_group1_def by simp
  show "b64_group1 (uint a div 4) (uint a mod 4 * 16 + uint b div 16) = a"
    unfolding b64_group1_def lo [OF ba, THEN conjunct1] by simp
  show "b64_group2 (uint a mod 4 * 16 + uint b div 16) (uint b mod 16 * 4) = b"
    unfolding b64_group2_def lo [OF ba, THEN conjunct2] by simp
  show "b64_group2 (uint a mod 4 * 16 + uint b div 16) (uint b mod 16 * 4 + uint c div 64) = b"
    unfolding b64_group2_def lo [OF ba, THEN conjunct2] lo [OF bc, THEN conjunct1] by simp
  show "b64_group3 (uint b mod 16 * 4 + uint c div 64) (uint c mod 64) = c"
    unfolding b64_group3_def lo [OF bc, THEN conjunct2] by simp
qed

text \<open>Decoding undoes encoding.\<close>

lemma b64decode_encode [simp]: "b64decode (b64encode bs) = Some bs"
  by (induction bs rule: b64encode.induct) (simp_all add: b64_sextets b64_groups)

lemma b64encode_ascii: "is_ascii (b64encode bs)"
  by (induction bs rule: b64encode.induct) (simp_all add: is_ascii_def b64_char_ascii b64_sextets)

lemma length_b64encode: "length (b64encode bs) = 4 * ((length bs + 2) div 3)"
proof (induction bs rule: b64encode.induct)
  case (4 a b c r)
  have "(length (a # b # c # r) + 2) div 3 = Suc ((length r + 2) div 3)"
    using div_add_self2 [of 3 "length r + 2"] by (simp add: add.commute)
  with 4 show ?case by simp
qed simp_all

lemma b64encode_eq_Nil [simp]: "b64encode bs = [] \<longleftrightarrow> bs = []"
  by (cases bs rule: b64encode.cases) auto

lemmas b64_exec [exec] = b64_char_def b64_value_def b64_group1_def b64_group2_def b64_group3_def

end
