(* ===== verification/Py_Hash.thy ===== *)
theory Py_Hash imports Main Prelude Py_Bytes begin

text \<open>
  \<open>hashlib.sha256\<close> and \<open>hmac.new(key, msg, sha256)\<close> as FIPS 180-4 and RFC 2104
  define them, on lists of bytes, and \<open>hmac.compare_digest\<close>, which is equality.
\<close>

unbundle bit_operations_syntax

type_synonym w32 = "32 word"

definition rotr32 :: "nat \<Rightarrow> w32 \<Rightarrow> w32" where
  "rotr32 n x = drop_bit n x OR push_bit (32 - n) x"

definition sha_k :: "w32 list" where
  "sha_k =
     [1116352408, 1899447441, 3049323471, 3921009573, 961987163, 1508970993, 2453635748, 2870763221,
      3624381080, 310598401, 607225278, 1426881987, 1925078388, 2162078206, 2614888103, 3248222580,
      3835390401, 4022224774, 264347078, 604807628, 770255983, 1249150122, 1555081692, 1996064986,
      2554220882, 2821834349, 2952996808, 3210313671, 3336571891, 3584528711, 113926993, 338241895,
      666307205, 773529912, 1294757372, 1396182291, 1695183700, 1986661051, 2177026350, 2456956037,
      2730485921, 2820302411, 3259730800, 3345764771, 3516065817, 3600352804, 4094571909, 275423344,
      430227734, 506948616, 659060556, 883997877, 958139571, 1322822218, 1537002063, 1747873779,
      1955562222, 2024104815, 2227730452, 2361852424, 2428436474, 2756734187, 3204031479, 3329325298]"

definition sha_init :: "w32 list" where
  "sha_init = [1779033703, 3144134277, 1013904242, 2773480762, 1359893119, 2600822924, 528734635, 1541459225]"

definition word_of_bytes :: "bytes \<Rightarrow> w32" where
  "word_of_bytes bs = foldl (\<lambda>a b. push_bit 8 a OR ucast b) 0 bs"

definition bytes_of_word :: "w32 \<Rightarrow> bytes" where
  "bytes_of_word w = [ucast (drop_bit 24 w), ucast (drop_bit 16 w), ucast (drop_bit 8 w), ucast w]"

definition sha_pad :: "bytes \<Rightarrow> bytes" where
  "sha_pad msg =
     (let bits = 8 * int (length msg);
          zeros = (119 - length msg mod 64) mod 64
      in msg @ [0x80] @ replicate zeros 0 @
         map (\<lambda>k. byte_of (bits div 256 ^ k mod 256)) [7, 6, 5, 4, 3, 2, 1, 0])"

fun chunks :: "nat \<Rightarrow> 'a list \<Rightarrow> 'a list list" where
  "chunks 0 xs = []"
| "chunks n [] = []"
| "chunks n (x # xs) = take n (x # xs) # chunks n (drop n (x # xs))"

definition sha_schedule :: "bytes \<Rightarrow> w32 list" where
  "sha_schedule block =
     fold (\<lambda>t ws.
         let a = ws ! (t - 15); b = ws ! (t - 2);
             s0 = rotr32 7 a XOR rotr32 18 a XOR drop_bit 3 a;
             s1 = rotr32 17 b XOR rotr32 19 b XOR drop_bit 10 b
         in ws @ [ws ! (t - 16) + s0 + ws ! (t - 7) + s1])
       [16..<64] (map word_of_bytes (chunks 4 block))"

definition sha_round :: "w32 \<times> w32 \<Rightarrow> w32 list \<Rightarrow> w32 list" where
  "sha_round kw hs =
     (case hs of
        [a, b, c, d, e, f, g, h] \<Rightarrow>
          (let s1 = rotr32 6 e XOR rotr32 11 e XOR rotr32 25 e;
               ch = (e AND f) XOR (NOT e AND g);
               t1 = h + s1 + ch + fst kw + snd kw;
               s0 = rotr32 2 a XOR rotr32 13 a XOR rotr32 22 a;
               maj = (a AND b) XOR (a AND c) XOR (b AND c)
           in [t1 + s0 + maj, a, b, c, d + t1, e, f, g])
      | _ \<Rightarrow> hs)"

definition sha_block :: "bytes \<Rightarrow> w32 list \<Rightarrow> w32 list" where
  "sha_block block hs = map2 (+) hs (fold sha_round (zip sha_k (sha_schedule block)) hs)"

definition sha256 :: "bytes \<Rightarrow> bytes" where
  "sha256 msg = concat (map bytes_of_word (fold sha_block (chunks 64 (sha_pad msg)) sha_init))"

definition hmac_sha256 :: "bytes \<Rightarrow> bytes \<Rightarrow> bytes" where
  "hmac_sha256 key msg =
     (let k0 = (if length key > 64 then sha256 key else key);
          k = k0 @ replicate (64 - length k0) 0
      in sha256 (map (\<lambda>b. b XOR 0x5c) k @ sha256 (map (\<lambda>b. b XOR 0x36) k @ msg)))"

lemma length_sha_round: "length (sha_round kw hs) = length hs"
  by (simp add: sha_round_def Let_def split: list.splits)

lemma length_sha_block: "length (sha_block b hs) = length hs"
proof -
  have "length (fold sha_round kws hs) = length hs" for kws
    by (induction kws arbitrary: hs) (simp_all add: length_sha_round)
  then show ?thesis by (simp add: sha_block_def)
qed

lemma length_sha256 [simp]: "length (sha256 msg) = 32"
proof -
  have "length (fold sha_block bs hs) = length hs" for bs hs
    by (induction bs arbitrary: hs) (simp_all add: length_sha_block)
  then have "length (fold sha_block (chunks 64 (sha_pad msg)) sha_init) = 8"
    by (simp add: sha_init_def)
  moreover have "length (concat (map bytes_of_word ws)) = 4 * length ws" for ws
    by (induction ws) (simp_all add: bytes_of_word_def)
  ultimately show ?thesis by (simp add: sha256_def)
qed

lemma length_hmac [simp]: "length (hmac_sha256 key msg) = 32"
  by (simp add: hmac_sha256_def Let_def)

text \<open>\<open>"sha256:" + sha256(b).hexdigest()\<close>.\<close>

definition sha256_text :: "bytes \<Rightarrow> ustr" where
  "sha256_text b = digest_prefix @ hex_of_bytes (sha256 b)"

lemma is_digest_sha256_text [simp]: "is_digest (sha256_text b)"
  by (simp add: sha256_text_def is_digest_hex)

lemma is_hex32_hmac [simp]: "is_hex32 (hex_of_bytes (hmac_sha256 k m))"
  by (simp add: is_hex32_hex_of_bytes)

end
