(* ===== verification/State_Exn.thy ===== *)
theory State_Exn imports Main Prelude begin

text \<open>
  Stateful code that can raise: a computation takes the state and returns a result, an
  exception or a value, with the state it leaves behind. What a method did before it raised
  stays done. \<open>sbind\<close> is the semicolon, \<open>scatch\<close> an \<open>except\<close> clause.
\<close>

type_synonym ('s, 'e, 'a) sx = "'s \<Rightarrow> ('e + 'a) \<times> 's"

definition sret :: "'a \<Rightarrow> ('s, 'e, 'a) sx" where
  "sret x s = (Inr x, s)"

definition sraise :: "'e \<Rightarrow> ('s, 'e, 'a) sx" where
  "sraise e s = (Inl e, s)"

definition sbind :: "('s, 'e, 'a) sx \<Rightarrow> ('a \<Rightarrow> ('s, 'e, 'b) sx) \<Rightarrow> ('s, 'e, 'b) sx" where
  "sbind m f s = (case m s of (Inl e, t) \<Rightarrow> (Inl e, t) | (Inr x, t) \<Rightarrow> f x t)"

definition sthen :: "('s, 'e, unit) sx \<Rightarrow> ('s, 'e, 'b) sx \<Rightarrow> ('s, 'e, 'b) sx" where
  "sthen m k = sbind m (\<lambda>_. k)"

definition scatch :: "('s, 'e, 'a) sx \<Rightarrow> ('e \<Rightarrow> ('s, 'e, 'a) sx) \<Rightarrow> ('s, 'e, 'a) sx" where
  "scatch m h s = (case m s of (Inl e, t) \<Rightarrow> h e t | (Inr x, t) \<Rightarrow> (Inr x, t))"

definition sget :: "('s \<Rightarrow> 'a) \<Rightarrow> ('s, 'e, 'a) sx" where
  "sget f s = (Inr (f s), s)"

definition sput :: "('s \<Rightarrow> 's) \<Rightarrow> ('s, 'e, unit) sx" where
  "sput f s = (Inr (), f s)"

definition sguard :: "bool \<Rightarrow> 'e \<Rightarrow> ('s, 'e, unit) sx" where
  "sguard ok e = (if ok then sret () else sraise e)"

text \<open>A pure result as a computation.\<close>

definition slift :: "'e + 'a \<Rightarrow> ('s, 'e, 'a) sx" where
  "slift r s = (r, s)"

lemma sx_simps [simp]:
  "sret x s = (Inr x, s)"
  "sraise e s = (Inl e, s)"
  "sget f s = (Inr (f s), s)"
  "sput g s = (Inr (), g s)"
  "slift r s = (r, s)"
  "sguard ok e s = (if ok then Inr () else Inl e, s)"
  by (simp_all add: sret_def sraise_def sget_def sput_def slift_def sguard_def)

lemma sbind_step:
  "m s = (Inr x, t) \<Longrightarrow> sbind m f s = f x t"
  "m s = (Inl e, t) \<Longrightarrow> sbind m f s = (Inl e, t)"
  by (simp_all add: sbind_def)

lemma sthen_step:
  "m s = (Inr (), t) \<Longrightarrow> sthen m k s = k t"
  "m s = (Inl e, t) \<Longrightarrow> sthen m k s = (Inl e, t)"
  by (simp_all add: sthen_def sbind_step)

lemma scatch_step:
  "m s = (Inr x, t) \<Longrightarrow> scatch m h s = (Inr x, t)"
  "m s = (Inl e, t) \<Longrightarrow> scatch m h s = h e t"
  by (simp_all add: scatch_def)

lemma sbind_Inr:
  "sbind m f s = (Inr y, u) \<longleftrightarrow> (\<exists>x t. m s = (Inr x, t) \<and> f x t = (Inr y, u))"
  by (auto simp: sbind_def split: prod.splits sum.splits)

lemma sbind_Inl:
  "sbind m f s = (Inl e, u) \<longleftrightarrow> m s = (Inl e, u) \<or> (\<exists>x t. m s = (Inr x, t) \<and> f x t = (Inl e, u))"
  by (auto simp: sbind_def split: prod.splits sum.splits)

lemma sthen_Inr:
  "sthen m k s = (Inr y, u) \<longleftrightarrow> (\<exists>t. m s = (Inr (), t) \<and> k t = (Inr y, u))"
  by (auto simp: sthen_def sbind_Inr)

lemma sthen_Inl:
  "sthen m k s = (Inl e, u) \<longleftrightarrow> m s = (Inl e, u) \<or> (\<exists>t. m s = (Inr (), t) \<and> k t = (Inl e, u))"
  by (auto simp: sthen_def sbind_Inl)

lemma scatch_Inr:
  "scatch m h s = (Inr y, u) \<longleftrightarrow> m s = (Inr y, u) \<or> (\<exists>e t. m s = (Inl e, t) \<and> h e t = (Inr y, u))"
  by (auto simp: scatch_def split: prod.splits sum.splits)

lemma scatch_Inl:
  "scatch m h s = (Inl e, u) \<longleftrightarrow> (\<exists>e' t. m s = (Inl e', t) \<and> h e' t = (Inl e, u))"
  by (auto simp: scatch_def split: prod.splits sum.splits)

lemmas sx_results = sbind_Inr sbind_Inl sthen_Inr sthen_Inl scatch_Inr scatch_Inl

lemma sbind_cong [fundef_cong]:
  "s = s' \<Longrightarrow> m s' = m' s' \<Longrightarrow> (\<And>x t. m' s' = (Inr x, t) \<Longrightarrow> f x t = g x t) \<Longrightarrow> sbind m f s = sbind m' g s'"
  by (auto simp: sbind_def split: prod.splits sum.splits)

lemma sthen_cong [fundef_cong]:
  "s = s' \<Longrightarrow> m s' = m' s' \<Longrightarrow> (\<And>t. m' s' = (Inr (), t) \<Longrightarrow> k t = l t) \<Longrightarrow> sthen m k s = sthen m' l s'"
  by (auto simp: sthen_def intro: sbind_cong)

text \<open>
  A relation between the state before and after that holds of the steps holds of the whole,
  if it is transitive.
\<close>

definition srel :: "('s \<Rightarrow> 's \<Rightarrow> bool) \<Rightarrow> ('s, 'e, 'a) sx \<Rightarrow> bool" where
  "srel R m \<longleftrightarrow> (\<forall>s. R s (snd (m s)))"

lemma srelI: "(\<And>s. R s (snd (m s))) \<Longrightarrow> srel R m"
  by (simp add: srel_def)

lemma srelD: "srel R m \<Longrightarrow> m s = (r, t) \<Longrightarrow> R s t"
  unfolding srel_def by (metis snd_conv)

lemma srel_sbind:
  assumes "transp R" "srel R m" "\<And>x. srel R (f x)"
  shows "srel R (sbind m f)"
proof (rule srelI)
  fix s
  show "R s (snd (sbind m f s))"
  proof (cases "m s")
    case (Pair r t)
    then have m: "R s t" using assms(2) by (rule srelD [rotated])
    show ?thesis
    proof (cases r)
      case (Inl e)
      with Pair m show ?thesis by (simp add: sbind_def)
    next
      case (Inr x)
      have "R t (snd (f x t))" using assms(3) by (simp add: srel_def)
      with m Pair Inr assms(1) show ?thesis by (auto simp: sbind_def dest: transpD)
    qed
  qed
qed

lemma srel_sthen: "transp R \<Longrightarrow> srel R m \<Longrightarrow> srel R k \<Longrightarrow> srel R (sthen m k)"
  unfolding sthen_def by (rule srel_sbind)

lemma srel_scatch:
  assumes "transp R" "srel R m" "\<And>e. srel R (h e)"
  shows "srel R (scatch m h)"
proof (rule srelI)
  fix s
  show "R s (snd (scatch m h s))"
  proof (cases "m s")
    case (Pair r t)
    then have m: "R s t" using assms(2) by (rule srelD [rotated])
    show ?thesis
    proof (cases r)
      case (Inr x)
      with Pair m show ?thesis by (simp add: scatch_def)
    next
      case (Inl e)
      have "R t (snd (h e t))" using assms(3) by (simp add: srel_def)
      with m Pair Inl assms(1) show ?thesis by (auto simp: scatch_def dest: transpD)
    qed
  qed
qed

lemma srel_pure:
  assumes "reflp R"
  shows "srel R (sret x)" "srel R (sraise e)" "srel R (sget f)" "srel R (slift r)" "srel R (sguard b e)"
  using assms by (auto simp: srel_def reflp_def)

end
