(* ===== verification/Frame_Codec.thy ===== *)
theory Frame_Codec imports Main Prelude Py_Bytes begin

text \<open>
  The length-prefixed framing that both lifecycle protocols share
  (\<open>src/palimpsest_local/oci_control_protocol.py\<close> and \<open>_v2.py\<close>): a 4-byte
  big-endian length, then that many bytes of payload. The incremental decoders buffer an
  incomplete header or payload between calls of \<open>feed\<close>; the two modules differ only
  in what a payload that fails to decode leaves behind (v1 has already cleared its
  buffer, v2 has not), which is the flag \<open>sticky\<close>.

  A byte-at-a-time decoder is the reference; \<open>feed\<close> is shown equal to it, so how the
  transport cuts the stream into chunks does not matter. The locale \<open>frame_format\<close> is the
  contract of a payload codec, and both protocols interpret it.
\<close>

section \<open>The incremental decoder\<close>

definition max_payload :: nat where "max_payload = 65532"

record frame_state =
  fs_header :: bytes
  fs_payload :: bytes
  fs_expected :: "nat option"

definition new_decoder :: frame_state where
  "new_decoder = \<lparr>fs_header = [], fs_payload = [], fs_expected = None\<rparr>"

definition buffered_bytes :: "frame_state \<Rightarrow> nat" where
  "buffered_bytes s = length (fs_header s) + length (fs_payload s)"

text \<open>The header part of one round of the loop: the bytes it moves, and the rest.\<close>

definition take_header :: "frame_state \<Rightarrow> bytes \<Rightarrow> frame_state \<times> bytes" where
  "take_header s data =
     (let n = min (4 - length (fs_header s)) (length data)
      in (s\<lparr>fs_header := fs_header s @ take n data\<rparr>, drop n data))"

definition take_payload :: "nat \<Rightarrow> frame_state \<Rightarrow> bytes \<Rightarrow> frame_state \<times> bytes" where
  "take_payload expected s data =
     (let n = min (expected - length (fs_payload s)) (length data)
      in (s\<lparr>fs_payload := fs_payload s @ take n data, fs_expected := Some expected\<rparr>, drop n data))"

definition cleared_frame :: "frame_state \<Rightarrow> frame_state" where
  "cleared_frame s = s\<lparr>fs_payload := [], fs_expected := None\<rparr>"

text \<open>The payload part: \<open>Inl\<close> ends the call, \<open>Inr\<close> goes round the loop.\<close>

definition payload_round ::
  "bool \<Rightarrow> (bytes \<Rightarrow> 'e + 'm) \<Rightarrow> nat \<Rightarrow> frame_state \<Rightarrow> bytes \<Rightarrow> 'm list
     \<Rightarrow> frame_state \<times> 'e + frame_state \<times> bytes \<times> 'm list" where
  "payload_round sticky dec expected s data acc =
     (let (s1, rest) = take_payload expected s data
      in if length (fs_payload s1) < expected then Inr (s1, rest, acc)
         else case dec (fs_payload s1) of
           Inl e \<Rightarrow> Inl (if sticky then s1 else cleared_frame s1, e)
         | Inr m \<Rightarrow> Inr (cleared_frame s1, rest, acc @ [m]))"

definition feed_round ::
  "bool \<Rightarrow> (bytes \<Rightarrow> 'e + 'm) \<Rightarrow> 'e \<Rightarrow> frame_state \<Rightarrow> bytes \<Rightarrow> 'm list
     \<Rightarrow> frame_state \<times> 'e + frame_state \<times> bytes \<times> 'm list" where
  "feed_round sticky dec bad s data acc =
     (case fs_expected s of
        Some expected \<Rightarrow> payload_round sticky dec expected s data acc
      | None \<Rightarrow>
          (let (s1, rest) = take_header s data
           in if length (fs_header s1) < 4 then Inr (s1, rest, acc)
              else let expected = unpack_u32 (fs_header s1); s2 = s1\<lparr>fs_header := []\<rparr>
                   in if expected = 0 \<or> max_payload < expected then Inl (s2, bad)
                      else payload_round sticky dec expected s2 rest acc))"

definition feed_measure :: "frame_state \<Rightarrow> bytes \<Rightarrow> nat" where
  "feed_measure s data =
     3 * length data +
     (case fs_expected s of None \<Rightarrow> (if 4 \<le> length (fs_header s) then 1 else 0) | Some _ \<Rightarrow> 2)"

lemma payload_round_measure:
  assumes "payload_round sticky dec n s data acc = Inr (s', data', acc')"
  shows "data' = [] \<and> fs_expected s' = Some n \<or>
         fs_expected s' = None \<and> fs_header s' = fs_header s \<and> length data' \<le> length data"
  using assms
  by (auto simp: payload_round_def take_payload_def cleared_frame_def Let_def split: if_splits sum.splits)

lemma feed_round_measure:
  assumes "feed_round sticky dec bad s data acc = Inr (s', data', acc')" and "data \<noteq> []"
  shows "feed_measure s' data' < feed_measure s data"
proof (cases "fs_expected s")
  case (Some n)
  with assms payload_round_measure [of sticky dec n s data acc s' data' acc'] show ?thesis
    by (cases data) (auto simp: feed_round_def feed_measure_def)
next
  case None
  define h where "h = take_header s data"
  show ?thesis
  proof (cases "length (fs_header (fst h)) < 4")
    case True
    with assms(1) None have "s' = fst h" "data' = snd h"
      by (simp_all add: feed_round_def h_def [symmetric] case_prod_beta)
    moreover have "length (fs_header s) < 4" "fs_expected (fst h) = None"
      using True None by (simp_all add: h_def take_header_def Let_def)
    moreover have "length (snd h) < length data"
      using calculation(3) assms(2) by (simp add: h_def take_header_def Let_def)
    ultimately show ?thesis using True None by (simp add: feed_measure_def)
  next
    case False
    let ?s2 = "(fst h)\<lparr>fs_header := []\<rparr>"
    from False assms(1) None
    have "payload_round sticky dec (unpack_u32 (fs_header (fst h))) ?s2 (snd h) acc = Inr (s', data', acc')"
      by (simp add: feed_round_def h_def [symmetric] case_prod_beta Let_def split: if_splits)
    from payload_round_measure [OF this] have *: "data' = [] \<or> fs_expected s' = None \<and> fs_header s' = [] \<and> length data' \<le> length (snd h)"
      "fs_expected s' = None \<longrightarrow> fs_header s' = []"
      by auto
    have "length (snd h) \<le> length data" "length (fs_header s) < 4 \<longrightarrow> length (snd h) < length data"
      using assms(2) by (auto simp: h_def take_header_def Let_def)
    with * assms(2) None show ?thesis
      by (cases data) (auto simp: feed_measure_def split: option.splits)
  qed
qed

function feed_loop ::
  "bool \<Rightarrow> (bytes \<Rightarrow> 'e + 'm) \<Rightarrow> 'e \<Rightarrow> frame_state \<Rightarrow> bytes \<Rightarrow> 'm list \<Rightarrow> frame_state \<times> ('e + 'm list)" where
  "feed_loop sticky dec bad s data acc =
     (if data = [] then (s, Inr acc)
      else case feed_round sticky dec bad s data acc of
             Inl (s1, e) \<Rightarrow> (s1, Inl e)
           | Inr (s1, rest, acc1) \<Rightarrow> feed_loop sticky dec bad s1 rest acc1)"
  by pat_completeness auto
termination
  by (relation "measure (\<lambda>(sticky, dec, bad, s, data, acc). feed_measure s data)")
    (auto dest: feed_round_measure)

declare feed_loop.simps [simp del]

lemma feed_loop_exec [exec]:
  "feed_loop sticky dec bad s [] acc = (s, Inr acc)"
  "feed_loop sticky dec bad s (b # bs) acc =
     (case feed_round sticky dec bad s (b # bs) acc of
        Inl (s1, e) \<Rightarrow> (s1, Inl e)
      | Inr (s1, rest, acc1) \<Rightarrow> feed_loop sticky dec bad s1 rest acc1)"
  by (simp_all add: feed_loop.simps)

text \<open>\<open>finish\<close> passes at a frame boundary only.\<close>

definition at_boundary :: "frame_state \<Rightarrow> bool" where
  "at_boundary s \<longleftrightarrow> fs_expected s = None \<and> fs_header s = [] \<and> fs_payload s = []"

section \<open>The reference: one byte at a time\<close>

definition push_byte :: "bool \<Rightarrow> (bytes \<Rightarrow> 'e + 'm) \<Rightarrow> 'e \<Rightarrow> frame_state \<Rightarrow> byte \<Rightarrow> frame_state \<times> ('e + 'm option)" where
  "push_byte sticky dec bad s b =
     (case fs_expected s of
        None \<Rightarrow>
          (let h = fs_header s @ [b]
           in if length h < 4 then (s\<lparr>fs_header := h\<rparr>, Inr None)
              else let n = unpack_u32 h
                   in if n = 0 \<or> max_payload < n then (s\<lparr>fs_header := []\<rparr>, Inl bad)
                      else (s\<lparr>fs_header := [], fs_expected := Some n\<rparr>, Inr None))
      | Some n \<Rightarrow>
          (let p = fs_payload s @ [b]; s1 = s\<lparr>fs_payload := p\<rparr>
           in if length p < n then (s1, Inr None)
              else case dec p of
                     Inl e \<Rightarrow> (if sticky then s1 else cleared_frame s1, Inl e)
                   | Inr m \<Rightarrow> (cleared_frame s1, Inr (Some m))))"

fun feed_bytes :: "bool \<Rightarrow> (bytes \<Rightarrow> 'e + 'm) \<Rightarrow> 'e \<Rightarrow> frame_state \<Rightarrow> bytes \<Rightarrow> 'm list \<Rightarrow> frame_state \<times> ('e + 'm list)" where
  "feed_bytes sticky dec bad s [] acc = (s, Inr acc)"
| "feed_bytes sticky dec bad s (b # bs) acc =
     (case push_byte sticky dec bad s b of
        (s1, Inl e) \<Rightarrow> (s1, Inl e)
      | (s1, Inr None) \<Rightarrow> feed_bytes sticky dec bad s1 bs acc
      | (s1, Inr (Some m)) \<Rightarrow> feed_bytes sticky dec bad s1 bs (acc @ [m]))"

text \<open>What the buffers hold between two calls.\<close>

definition frame_inv :: "frame_state \<Rightarrow> bool" where
  "frame_inv s \<longleftrightarrow>
     (case fs_expected s of
        None \<Rightarrow> length (fs_header s) < 4 \<and> fs_payload s = []
      | Some n \<Rightarrow> fs_header s = [] \<and> length (fs_payload s) < n \<and> n \<le> max_payload)"

lemma frame_inv_new [simp]: "frame_inv new_decoder"
  by (simp add: frame_inv_def new_decoder_def)

lemma feed_bytes_header:
  assumes "fs_expected s = None" and "length (fs_header s) + length xs < 4"
  shows "feed_bytes sticky dec bad s (xs @ ys) acc =
           feed_bytes sticky dec bad (s\<lparr>fs_header := fs_header s @ xs\<rparr>) ys acc"
  using assms
proof (induction xs arbitrary: s)
  case (Cons x xs)
  then have "push_byte sticky dec bad s x = (s\<lparr>fs_header := fs_header s @ [x]\<rparr>, Inr None)"
    by (simp add: push_byte_def)
  with Cons show ?case by simp
qed simp

lemma feed_bytes_payload:
  assumes "fs_expected s = Some n" and "length (fs_payload s) + length xs < n"
  shows "feed_bytes sticky dec bad s (xs @ ys) acc =
           feed_bytes sticky dec bad (s\<lparr>fs_payload := fs_payload s @ xs\<rparr>) ys acc"
  using assms
proof (induction xs arbitrary: s)
  case (Cons x xs)
  then have "push_byte sticky dec bad s x = (s\<lparr>fs_payload := fs_payload s @ [x]\<rparr>, Inr None)"
    by (simp add: push_byte_def)
  with Cons show ?case by simp
qed simp

definition after_round ::
  "bool \<Rightarrow> (bytes \<Rightarrow> 'e + 'm) \<Rightarrow> 'e \<Rightarrow> frame_state \<times> 'e + frame_state \<times> bytes \<times> 'm list \<Rightarrow> frame_state \<times> ('e + 'm list)" where
  "after_round sticky dec bad r =
     (case r of Inl (s1, e) \<Rightarrow> (s1, Inl e) | Inr (s1, rest, acc1) \<Rightarrow> feed_bytes sticky dec bad s1 rest acc1)"

lemma split_before:
  assumes "m < k" and "k \<le> m + length data"
  obtains xs b ys where "data = xs @ b # ys" and "Suc (m + length xs) = k"
proof -
  have k: "k - Suc m < length data" using assms by auto
  show ?thesis
    by (rule that [OF id_take_nth_drop [OF k]]) (use assms k in simp)
qed

lemma frame_update_commute:
  "s\<lparr>fs_payload := p, fs_expected := e\<rparr> = s\<lparr>fs_expected := e, fs_payload := p\<rparr>"
  by simp

lemma payload_round_short:
  assumes "length (fs_payload s) + length data < n"
  shows "payload_round sticky dec n s data acc =
     Inr (s\<lparr>fs_expected := Some n, fs_payload := fs_payload s @ data\<rparr>, [], acc)"
proof -
  have "min (n - length (fs_payload s)) (length data) = length data" using assms by simp
  then show ?thesis using assms
    by (simp add: payload_round_def take_payload_def Let_def frame_update_commute)
qed

lemma payload_round_full:
  assumes "Suc (length (fs_payload s) + length xs) = n"
  shows "payload_round sticky dec n s (xs @ b # ys) acc =
     (let s1 = s\<lparr>fs_expected := Some n, fs_payload := fs_payload s @ xs @ [b]\<rparr>
      in case dec (fs_payload s @ xs @ [b]) of
           Inl e \<Rightarrow> Inl (if sticky then s1 else cleared_frame s1, e)
         | Inr m \<Rightarrow> Inr (cleared_frame s1, ys, acc @ [m]))"
proof -
  have n: "n - length (fs_payload s) = Suc (length xs)" using assms by simp
  have "take_payload n s (xs @ b # ys) =
      (s\<lparr>fs_expected := Some n, fs_payload := fs_payload s @ xs @ [b]\<rparr>, ys)"
    unfolding take_payload_def n by (simp add: frame_update_commute)
  then show ?thesis using assms by (simp add: payload_round_def Let_def)
qed

lemma payload_round_bytes:
  assumes "length (fs_payload s) < n"
  shows "feed_bytes sticky dec bad (s\<lparr>fs_expected := Some n\<rparr>) data acc =
           after_round sticky dec bad (payload_round sticky dec n s data acc)"
proof (cases "length (fs_payload s) + length data < n")
  case True
  let ?s = "s\<lparr>fs_expected := Some n\<rparr>"
  have "feed_bytes sticky dec bad ?s (data @ []) acc =
      feed_bytes sticky dec bad (?s\<lparr>fs_payload := fs_payload ?s @ data\<rparr>) [] acc"
    by (rule feed_bytes_payload [where n = n]) (use True in simp_all)
  then show ?thesis by (simp add: after_round_def payload_round_short [OF True])
next
  case False
  obtain xs b ys where d: "data = xs @ b # ys" and n: "Suc (length (fs_payload s) + length xs) = n"
    using split_before [OF assms, of data] False by auto
  let ?t = "s\<lparr>fs_expected := Some n, fs_payload := fs_payload s @ xs\<rparr>"
  have fb: "feed_bytes sticky dec bad (s\<lparr>fs_expected := Some n\<rparr>) data acc = feed_bytes sticky dec bad ?t (b # ys) acc"
    unfolding d by (subst feed_bytes_payload [where n = n]) (use n in simp_all)
  show ?thesis
    unfolding fb unfolding d payload_round_full [OF n]
    using n by (simp add: push_byte_def after_round_def Let_def split: sum.splits)
qed

lemma feed_round_bytes:
  assumes inv: "frame_inv s"
  shows "feed_bytes sticky dec bad s data acc =
           after_round sticky dec bad (feed_round sticky dec bad s data acc)"
proof (cases "fs_expected s")
  case (Some n)
  then have "s\<lparr>fs_expected := Some n\<rparr> = s" by simp
  with Some inv payload_round_bytes [of s n sticky dec bad data acc] show ?thesis
    by (simp add: feed_round_def frame_inv_def)
next
  case None
  have hl: "length (fs_header s) < 4" and pay: "fs_payload s = []"
    using inv None by (auto simp: frame_inv_def)
  show ?thesis
  proof (cases "length (fs_header s) + length data < 4")
    case True
    then have "min (4 - length (fs_header s)) (length data) = length data" by simp
    with True have "feed_round sticky dec bad s data acc = Inr (s\<lparr>fs_header := fs_header s @ data\<rparr>, [], acc)"
      using None by (simp add: feed_round_def take_header_def Let_def)
    moreover have "feed_bytes sticky dec bad s (data @ []) acc =
        feed_bytes sticky dec bad (s\<lparr>fs_header := fs_header s @ data\<rparr>) [] acc"
      by (rule feed_bytes_header [OF None True])
    ultimately show ?thesis by (simp add: after_round_def)
  next
    case False
    obtain xs b ys where d: "data = xs @ b # ys" and n: "Suc (length (fs_header s) + length xs) = 4"
      using split_before [OF hl, of data] False by auto
    let ?h = "fs_header s @ xs @ [b]" and ?s2 = "s\<lparr>fs_header := []\<rparr>" and ?t = "s\<lparr>fs_header := fs_header s @ xs\<rparr>"
    let ?n = "unpack_u32 ?h"
    have k: "4 - length (fs_header s) = Suc (length xs)" using n by simp
    have "take_header s data = (s\<lparr>fs_header := ?h\<rparr>, ys)"
      unfolding take_header_def k d by simp
    then have fr: "feed_round sticky dec bad s data acc =
        (if ?n = 0 \<or> max_payload < ?n then Inl (?s2, bad) else payload_round sticky dec ?n ?s2 ys acc)"
      using None n by (simp add: feed_round_def)
    have fb: "feed_bytes sticky dec bad s data acc = feed_bytes sticky dec bad ?t (b # ys) acc"
      unfolding d by (subst feed_bytes_header) (use None n in simp_all)
    have pb: "push_byte sticky dec bad ?t b =
        (if ?n = 0 \<or> max_payload < ?n then (?s2, Inl bad) else (?s2\<lparr>fs_expected := Some ?n\<rparr>, Inr None))"
      using None n by (simp add: push_byte_def Let_def)
    show ?thesis
    proof (cases "?n = 0 \<or> max_payload < ?n")
      case True
      then show ?thesis by (simp add: fr fb pb after_round_def)
    next
      case False
      with payload_round_bytes [of ?s2 ?n sticky dec bad ys acc] pay show ?thesis
        unfolding fr fb feed_bytes.simps pb by simp
    qed
  qed
qed

lemma payload_round_inv:
  assumes "payload_round sticky dec n s data acc = Inr (s', data', acc')"
    and "length (fs_payload s) < n" "n \<le> max_payload" "fs_header s = []"
  shows "frame_inv s'"
  using assms
  by (auto simp: payload_round_def take_payload_def cleared_frame_def frame_inv_def Let_def
      split: if_splits sum.splits)

lemma feed_round_inv:
  assumes "feed_round sticky dec bad s data acc = Inr (s', data', acc')" and "frame_inv s"
  shows "frame_inv s'"
proof (cases "fs_expected s")
  case (Some n)
  with assms payload_round_inv [of sticky dec n s data acc s' data' acc'] show ?thesis
    by (simp add: feed_round_def frame_inv_def)
next
  case None
  define h where "h = take_header s data"
  have hp: "fs_payload (fst h) = []" "fs_expected (fst h) = None"
    using assms(2) None by (auto simp: h_def take_header_def frame_inv_def Let_def)
  show ?thesis
  proof (cases "length (fs_header (fst h)) < 4")
    case True
    with assms(1) None have "s' = fst h" by (simp add: feed_round_def h_def [symmetric] case_prod_beta)
    with True hp show ?thesis by (simp add: frame_inv_def)
  next
    case False
    let ?n = "unpack_u32 (fs_header (fst h))"
    from False assms(1) None have "payload_round sticky dec ?n ((fst h)\<lparr>fs_header := []\<rparr>) (snd h) acc = Inr (s', data', acc')"
      and "0 < ?n" "?n \<le> max_payload"
      by (simp_all add: feed_round_def h_def [symmetric] case_prod_beta Let_def split: if_splits)
    from payload_round_inv [OF this(1)] this(2,3) hp show ?thesis by simp
  qed
qed

lemma feed_loop_bytes:
  "frame_inv s \<Longrightarrow> feed_loop sticky dec bad s data acc = feed_bytes sticky dec bad s data acc"
proof (induction sticky dec bad s data acc rule: feed_loop.induct)
  case (1 sticky dec bad s data acc)
  show ?case
  proof (cases "data = []")
    case True
    then show ?thesis by (simp add: feed_loop.simps)
  next
    case False
    show ?thesis
    proof (cases "feed_round sticky dec bad s data acc")
      case (Inl p)
      with False feed_round_bytes [OF "1.prems", of sticky dec bad data acc] show ?thesis
        by (cases p) (simp add: feed_loop.simps [of sticky] after_round_def)
    next
      case (Inr p)
      obtain s1 rest acc1 where p: "p = (s1, rest, acc1)" by (cases p) auto
      have "frame_inv s1" by (rule feed_round_inv [OF Inr [unfolded p] "1.prems"])
      with "1.IH" [OF False Inr p [symmetric] refl] have
        "feed_loop sticky dec bad s1 rest acc1 = feed_bytes sticky dec bad s1 rest acc1" by blast
      with False Inr p feed_round_bytes [OF "1.prems", of sticky dec bad data acc] show ?thesis
        by (simp add: feed_loop.simps [of sticky dec bad s] after_round_def)
    qed
  qed
qed

section \<open>Chunks\<close>

lemma push_byte_inv:
  "push_byte sticky dec bad s b = (s', Inr r) \<Longrightarrow> frame_inv s \<Longrightarrow> frame_inv s'"
  by (auto simp: push_byte_def frame_inv_def cleared_frame_def Let_def
      split: option.splits if_splits sum.splits)

lemma feed_bytes_inv:
  "feed_bytes sticky dec bad s data acc = (s', Inr ms) \<Longrightarrow> frame_inv s \<Longrightarrow> frame_inv s'"
proof (induction data arbitrary: s acc)
  case (Cons b data)
  obtain s1 r where p: "push_byte sticky dec bad s b = (s1, r)" by fastforce
  show ?case
  proof (cases r)
    case (Inr o1)
    with p Cons.prems have "frame_inv s1" by (auto intro: push_byte_inv)
    with Cons p Inr show ?thesis by (auto split: option.splits)
  qed (use Cons p in auto)
qed simp

lemma feed_bytes_append:
  "feed_bytes sticky dec bad s (xs @ ys) acc =
     (case feed_bytes sticky dec bad s xs acc of
        (s1, Inl e) \<Rightarrow> (s1, Inl e)
      | (s1, Inr ms) \<Rightarrow> feed_bytes sticky dec bad s1 ys ms)"
  by (induction xs arbitrary: s acc) (auto split: prod.splits sum.splits option.splits)

lemma feed_bytes_acc:
  "feed_bytes sticky dec bad s data acc =
     (case feed_bytes sticky dec bad s data [] of
        (s1, Inl e) \<Rightarrow> (s1, Inl e)
      | (s1, Inr ms) \<Rightarrow> (s1, Inr (acc @ ms)))"
proof (induction data arbitrary: s acc)
  case (Cons b data)
  obtain s1 r where p: "push_byte sticky dec bad s b = (s1, r)" by fastforce
  show ?case
  proof (cases r)
    case (Inr q)
    show ?thesis
    proof (cases q)
      case None
      with p Inr show ?thesis using Cons.IH [of s1 acc] by simp
    next
      case (Some m)
      with p Inr show ?thesis using Cons.IH [of s1 "acc @ [m]"] Cons.IH [of s1 "[m]"]
        by (auto split: prod.splits sum.splits)
    qed
  qed (use p in simp)
qed simp

lemma feed_loop_append:
  assumes "frame_inv s"
  shows "feed_loop sticky dec bad s (xs @ ys) acc =
     (case feed_loop sticky dec bad s xs acc of
        (s1, Inl e) \<Rightarrow> (s1, Inl e)
      | (s1, Inr ms) \<Rightarrow> feed_loop sticky dec bad s1 ys ms)"
  using assms feed_bytes_inv [of sticky dec bad s xs acc]
  by (auto simp: feed_loop_bytes feed_bytes_append split: prod.splits sum.splits)

text \<open>A stream of chunks, each given to one call of \<open>feed\<close>, the messages collected.\<close>

fun feed_chunks :: "bool \<Rightarrow> (bytes \<Rightarrow> 'e + 'm) \<Rightarrow> 'e \<Rightarrow> frame_state \<Rightarrow> bytes list \<Rightarrow> 'm list \<Rightarrow> frame_state \<times> ('e + 'm list)" where
  "feed_chunks sticky dec bad s [] acc = (s, Inr acc)"
| "feed_chunks sticky dec bad s (c # cs) acc =
     (case feed_loop sticky dec bad s c [] of
        (s1, Inl e) \<Rightarrow> (s1, Inl e)
      | (s1, Inr ms) \<Rightarrow> feed_chunks sticky dec bad s1 cs (acc @ ms))"

lemma feed_chunks_concat:
  "frame_inv s \<Longrightarrow> feed_chunks sticky dec bad s cs acc = feed_loop sticky dec bad s (concat cs) acc"
proof (induction cs arbitrary: s acc)
  case Nil
  then show ?case by (simp add: exec)
next
  case (Cons c cs)
  obtain s1 r where p: "feed_bytes sticky dec bad s c [] = (s1, r)" by fastforce
  show ?case
  proof (cases r)
    case (Inl e)
    with p Cons.prems feed_bytes_acc [of sticky dec bad s c acc] show ?thesis
      by (simp add: feed_loop_bytes feed_bytes_append)
  next
    case (Inr ms)
    with p Cons.prems have "frame_inv s1" by (auto intro: feed_bytes_inv)
    with Inr p Cons feed_bytes_acc [of sticky dec bad s c acc] show ?thesis
      by (simp add: feed_loop_bytes feed_bytes_append)
  qed
qed

text \<open>The buffers are bounded by one frame.\<close>

lemma buffered_bounded: "frame_inv s \<Longrightarrow> buffered_bytes s \<le> max_payload"
  by (auto simp: frame_inv_def buffered_bytes_def max_payload_def split: option.splits)

section \<open>The contract of a payload codec\<close>

definition frame_bytes :: "bytes \<Rightarrow> bytes" where
  "frame_bytes p = pack_u32 (length p) @ p"

locale frame_format =
  fixes enc :: "'m \<Rightarrow> bytes option"
    and dec :: "bytes \<Rightarrow> 'e + 'm"
    and bad :: 'e
    and sticky :: bool
  assumes enc_length: "enc m = Some p \<Longrightarrow> 0 < length p \<and> length p \<le> max_payload"
    and dec_enc: "enc m = Some p \<Longrightarrow> dec p = Inr m"
begin

lemma feed_one_frame:
  assumes "enc m = Some p"
  shows "feed_bytes sticky dec bad new_decoder (frame_bytes p @ rest) acc =
           feed_bytes sticky dec bad new_decoder rest (acc @ [m])"
proof -
  let ?n = "length p"
  have len: "0 < ?n" "?n \<le> max_payload" using enc_length [OF assms] by auto
  then have u: "unpack_u32 (pack_u32 ?n) = ?n" by (intro unpack_pack_u32) (simp add: max_payload_def)
  obtain a b c d where h: "pack_u32 ?n = [a, b, c, d]" by (simp add: pack_u32_def)
  let ?s = "new_decoder\<lparr>fs_expected := Some ?n\<rparr>"
  have head: "feed_bytes sticky dec bad new_decoder (frame_bytes p @ rest) acc = feed_bytes sticky dec bad ?s (p @ rest) acc"
    using u len by (simp add: frame_bytes_def h push_byte_def new_decoder_def)
  obtain xs y where p: "p = xs @ [y]" using len(1) by (cases p rule: rev_cases) auto
  have "feed_bytes sticky dec bad ?s (xs @ y # rest) acc =
      feed_bytes sticky dec bad (?s\<lparr>fs_payload := fs_payload ?s @ xs\<rparr>) (y # rest) acc"
    by (rule feed_bytes_payload [where n = ?n]) (use p in \<open>simp_all add: new_decoder_def\<close>)
  also have "\<dots> = feed_bytes sticky dec bad new_decoder rest (acc @ [m])"
    using dec_enc [OF assms] p by (simp add: push_byte_def new_decoder_def cleared_frame_def)
  finally show ?thesis using head p by simp
qed

text \<open>The decoder gives back the messages of a stream of frames, however it is cut.\<close>

lemma feed_stream:
  assumes "list_all2 (\<lambda>m p. enc m = Some p) ms ps" and "concat cs = concat (map frame_bytes ps)"
  shows "feed_chunks sticky dec bad new_decoder cs [] = (new_decoder, Inr ms)"
proof -
  have "feed_bytes sticky dec bad new_decoder (concat (map frame_bytes ps)) acc = (new_decoder, Inr (acc @ ms))" for acc
    using assms(1)
  proof (induction ms ps arbitrary: acc rule: list_all2_induct)
    case (Cons m ms p ps)
    then show ?case by (simp add: feed_one_frame)
  qed simp
  then show ?thesis
    using assms(2) by (simp add: feed_chunks_concat feed_loop_bytes)
qed

text \<open>A strict prefix of a frame yields no message and is not a frame boundary.\<close>

lemma feed_partial:
  assumes "enc m = Some p" and "frame_bytes p = xs @ ys" and "ys \<noteq> []" and "xs \<noteq> []"
  shows "\<exists>s. feed_loop sticky dec bad new_decoder xs [] = (s, Inr []) \<and> \<not> at_boundary s"
proof -
  obtain s r where f: "feed_bytes sticky dec bad new_decoder xs [] = (s, r)" by fastforce
  have whole: "feed_bytes sticky dec bad new_decoder (xs @ ys) [] = (new_decoder, Inr [m])"
    using feed_one_frame [OF assms(1), of "[]" "[]"] assms(2) by simp
  then obtain ms where r: "r = Inr ms" using f by (cases r) (auto simp: feed_bytes_append)
  have w: "feed_bytes sticky dec bad s ys ms = (new_decoder, Inr [m])"
    using whole f r by (simp add: feed_bytes_append)
  show ?thesis
  proof (cases "length xs < 4")
    case True
    then have "feed_bytes sticky dec bad new_decoder (xs @ []) [] = (new_decoder\<lparr>fs_header := xs\<rparr>, Inr [])"
      by (subst feed_bytes_header) (simp_all add: new_decoder_def)
    with assms(4) show ?thesis by (auto simp: feed_loop_bytes at_boundary_def)
  next
    case False
    let ?n = "length p"
    have len: "0 < ?n" "?n \<le> max_payload" using enc_length [OF assms(1)] by auto
    then have u: "unpack_u32 (pack_u32 ?n) = ?n" by (intro unpack_pack_u32) (simp add: max_payload_def)
    obtain a b c d where h: "pack_u32 ?n = [a, b, c, d]" by (simp add: pack_u32_def)
    from False assms(2) h obtain zs where xs: "xs = [a, b, c, d] @ zs"
      by (cases xs; cases "tl xs"; cases "tl (tl xs)"; cases "tl (tl (tl xs))") (auto simp: frame_bytes_def)
    with assms(2) h have p: "p = zs @ ys" by (simp add: frame_bytes_def)
    let ?s = "new_decoder\<lparr>fs_expected := Some ?n\<rparr>"
    have "feed_bytes sticky dec bad new_decoder xs [] = feed_bytes sticky dec bad ?s (zs @ []) []"
      using u len h by (simp add: xs push_byte_def new_decoder_def)
    also have "\<dots> = (?s\<lparr>fs_payload := zs\<rparr>, Inr [])"
      by (subst feed_bytes_payload [where n = ?n]) (use p assms(3) in \<open>simp_all add: new_decoder_def\<close>)
    finally show ?thesis by (simp add: feed_loop_bytes at_boundary_def)
  qed
qed

end

lemmas frame_exec [exec] = max_payload_def new_decoder_def take_header_def take_payload_def cleared_frame_def
  payload_round_def feed_round_def at_boundary_def frame_bytes_def

end
