(* ===== verification/Counter_Run.thy ===== *)
theory Counter_Run imports Main Prelude begin

text \<open>
  Runs of a labelled step relation, and the contract of a counter that a protocol puts on its
  messages: a step never lowers the counter, and a message that a step emits carries a value
  above the counter before and not above the counter after. Every protocol session of the
  development is shown to keep such counters, which gives strictly increasing numbers over any
  run and so the absence of replay.
\<close>

inductive run_of :: "('s \<Rightarrow> 'e \<Rightarrow> 's \<Rightarrow> bool) \<Rightarrow> 's \<Rightarrow> 'e list \<Rightarrow> 's \<Rightarrow> bool" for step s where
  run_nil: "run_of step s [] s"
| run_snoc: "run_of step s tr t \<Longrightarrow> step t e u \<Longrightarrow> run_of step s (tr @ [e]) u"

inductive_cases run_snocE: "run_of step s (tr @ [e]) u"
inductive_cases run_nilE: "run_of step s [] u"

lemma run_of_append: "run_of step t tr2 u \<Longrightarrow> run_of step s tr1 t \<Longrightarrow> run_of step s (tr1 @ tr2) u"
proof (induction rule: run_of.induct)
  case (run_snoc tr v e u)
  then show ?case using run_of.run_snoc [of step s "tr1 @ tr" v e u] by simp
qed simp

lemma run_of_step: "step s e t \<Longrightarrow> run_of step s [e] t"
  using run_snoc [OF run_nil, of step s e t] by simp

lemma run_of_split: "run_of step s (tr1 @ tr2) u \<Longrightarrow> \<exists>t. run_of step s tr1 t \<and> run_of step t tr2 u"
proof (induction tr2 arbitrary: u rule: rev_induct)
  case Nil
  then show ?case using run_nil by fastforce
next
  case (snoc e tr2)
  then have "run_of step s ((tr1 @ tr2) @ [e]) u" by simp
  then obtain v where "run_of step s (tr1 @ tr2) v" "step v e u" by (rule run_snocE) blast
  moreover obtain t where "run_of step s tr1 t" "run_of step t tr2 v" using snoc.IH [OF calculation(1)] by blast
  ultimately show ?case using run_snoc [of step t tr2 v e u] by auto
qed

lemma run_of_invariant:
  assumes "run_of step s tr t" and "P s" and "\<And>a e b. P a \<Longrightarrow> step a e b \<Longrightarrow> P b"
  shows "P t"
  using assms(1) by (induction rule: run_of.induct) (use assms(2,3) in blast)+

definition emitted :: "('e \<Rightarrow> int option) \<Rightarrow> 'e list \<Rightarrow> int list" where
  "emitted out tr = List.map_filter out tr"

lemma emitted_Nil [simp]: "emitted out [] = []"
  by (simp add: emitted_def)

lemma emitted_append [simp]: "emitted out (xs @ ys) = emitted out xs @ emitted out ys"
  by (simp add: emitted_def List.map_filter_def)

lemma emitted_single [simp]: "emitted out [e] = (case out e of None \<Rightarrow> [] | Some w \<Rightarrow> [w])"
  by (simp add: emitted_def List.map_filter_def split: option.splits)

locale counter_run =
  fixes step :: "'s \<Rightarrow> 'e \<Rightarrow> 's \<Rightarrow> bool"
    and cnt :: "'s \<Rightarrow> int"
    and out :: "'e \<Rightarrow> int option"
  assumes cnt_mono: "step s e t \<Longrightarrow> cnt s \<le> cnt t"
    and cnt_out: "step s e t \<Longrightarrow> out e = Some w \<Longrightarrow> cnt s < w \<and> w \<le> cnt t"
begin

lemma run_mono: "run_of step s tr t \<Longrightarrow> cnt s \<le> cnt t"
  by (induction rule: run_of.induct) (use cnt_mono in force)+

lemma run_bounds: "run_of step s tr t \<Longrightarrow> w \<in> set (emitted out tr) \<Longrightarrow> cnt s < w \<and> w \<le> cnt t"
proof (induction rule: run_of.induct)
  case (run_snoc tr t e u)
  have "cnt s \<le> cnt t" using run_mono [OF run_snoc.hyps(1)] .
  moreover have "cnt t \<le> cnt u" using cnt_mono [OF run_snoc.hyps(2)] .
  ultimately show ?case
    using run_snoc.IH run_snoc.prems cnt_out [OF run_snoc.hyps(2)] by (cases "out e") force+
qed simp

text \<open>The numbers of a run are strictly increasing.\<close>

lemma run_increasing: "run_of step s tr t \<Longrightarrow> sorted_wrt (<) (emitted out tr)"
proof (induction rule: run_of.induct)
  case (run_snoc tr t e u)
  have "\<forall>w \<in> set (emitted out tr). w < v" if "out e = Some v" for v
    using run_bounds [OF run_snoc.hyps(1)] cnt_out [OF run_snoc.hyps(2) that] by fastforce
  with run_snoc.IH show ?case by (auto simp: sorted_wrt_append split: option.splits)
qed simp

lemma run_distinct:
  assumes "run_of step s tr t" shows "distinct (emitted out tr)"
  using run_increasing [OF assms] by (simp add: strict_sorted_iff)

end

end
