(* ===== verification/Changeset.thy ===== *)
theory Changeset imports Main Prelude Py_Path begin

text \<open>
  \<open>src/palimpsest_local/oci_changeset.py\<close>: the reduction of the physical tar members
  of one OCI layer, in archive order, to the final filesystem state of the layer.
  The mutable dictionaries of \<open>normalize_changeset\<close> are the fields of \<open>nstate\<close>
  and its nested functions are the operations on it. An exception is its code
  (\<open>ChangesetError\<close>); \<open>Diverges\<close> stands for the loop over parents that
  never reaches the root.
\<close>

section \<open>Members, entries and nodes\<close>

datatype entry_kind = FILE | DIRECTORY | HARDLINK | SYMLINK | CHAR | BLOCK | FIFO | WHITEOUT

datatype cs_error = ChangesetError string | Diverges

record 'p changeset_member =
  m_ordinal :: int
  m_path :: ustr
  m_kind :: entry_kind
  m_size :: int
  m_mode :: int
  m_uid :: int
  m_gid :: int
  m_mtime :: int
  m_link_target :: ustr
  m_device_major :: int
  m_device_minor :: int
  m_xattrs :: "(ustr \<times> ustr) list"
  m_payload :: "'p option"

text \<open>\<open>__post_init__\<close>; the type checks hold of every value of the record type.\<close>

definition member_post_init :: "'p changeset_member \<Rightarrow> cs_error + 'p changeset_member" where
  "member_post_init m =
     (if m_ordinal m < 0 then Inl (ChangesetError ''oci-changeset-member'')
      else if m_path m = [] then Inl (ChangesetError ''oci-changeset-member'')
      else if \<exists>v \<in> set [m_size m, m_mode m, m_uid m, m_gid m, m_mtime m, m_device_major m, m_device_minor m]. v < 0
        then Inl (ChangesetError ''oci-changeset-member'')
      else if m_kind m = FILE \<and> m_payload m = None then Inl (ChangesetError ''oci-changeset-payload'')
      else if m_kind m \<noteq> FILE \<and> m_payload m \<noteq> None then Inl (ChangesetError ''oci-changeset-payload'')
      else Inr m)"

record 'p normalized_entry =
  e_path :: ustr
  e_kind :: entry_kind
  e_size :: int
  e_mode :: int
  e_uid :: int
  e_gid :: int
  e_mtime :: int
  e_link_target :: ustr
  e_device_major :: int
  e_device_minor :: int
  e_xattrs :: "(ustr \<times> ustr) list"
  e_payload :: "'p option"
  e_opaque :: bool
  e_synthetic :: bool
  e_source_ordinal :: "int option"

record 'p node =
  node_member :: "'p changeset_member"
  node_kind :: entry_kind
  node_group_id :: "int option"
  node_pending_target :: "ustr option"
  node_opaque :: bool
  node_opaque_placeholder :: bool
  node_synthetic :: bool

definition make_node :: "'p changeset_member \<Rightarrow> entry_kind \<Rightarrow> 'p node" where
  "make_node m k =
     \<lparr>node_member = m, node_kind = k, node_group_id = None, node_pending_target = None,
      node_opaque = False, node_opaque_placeholder = False, node_synthetic = False\<rparr>"

definition dot :: ustr where "dot = ul ''.''"

definition dirname_or_dot :: "ustr \<Rightarrow> ustr" where
  "dirname_or_dot p = (let d = os_dirname p in if d = [] then dot else d)"

definition parent_of :: "ustr \<Rightarrow> ustr option" where
  "parent_of p = (if p = dot then None else Some (dirname_or_dot p))"

text \<open>\<open>_synthetic_directory\<close>; 493 is \<open>0o755\<close>.\<close>

definition synthetic_directory :: "ustr \<Rightarrow> int \<Rightarrow> int \<Rightarrow> 'p changeset_member" where
  "synthetic_directory path mtime ordinal =
     \<lparr>m_ordinal = ordinal, m_path = path, m_kind = DIRECTORY, m_size = 0, m_mode = 493,
      m_uid = 0, m_gid = 0, m_mtime = mtime, m_link_target = [], m_device_major = 0,
      m_device_minor = 0, m_xattrs = [], m_payload = None\<rparr>"

section \<open>The tables and the operations on them\<close>

record 'p nstate =
  table :: "(ustr \<times> 'p node) list"
  children :: "(ustr \<times> ustr list) list"
  pending_by_target :: "(ustr \<times> ustr list) list"
  groups :: "(int \<times> 'p changeset_member) list"

definition empty_nstate :: "'p nstate" where
  "empty_nstate = \<lparr>table = [], children = [], pending_by_target = [], groups = []\<rparr>"

definition register :: "ustr \<Rightarrow> 'p nstate \<Rightarrow> 'p nstate" where
  "register path s =
     (case parent_of path of
        None \<Rightarrow> s
      | Some d \<Rightarrow> s\<lparr>children := set_add d path (children s)\<rparr>)"

definition cancel_pending :: "ustr \<Rightarrow> 'p node \<Rightarrow> 'p nstate \<Rightarrow> 'p nstate" where
  "cancel_pending path node s =
     (case node_pending_target node of
        None \<Rightarrow> s
      | Some t \<Rightarrow>
          (case map_of (pending_by_target s) t of
             None \<Rightarrow> s
           | Some waiting \<Rightarrow>
               (let waiting' = removeAll path waiting
                in if waiting' = [] then s\<lparr>pending_by_target := AList.delete t (pending_by_target s)\<rparr>
                   else s\<lparr>pending_by_target := AList.update t waiting' (pending_by_target s)\<rparr>)))"

definition remove_exact :: "ustr \<Rightarrow> bool \<Rightarrow> 'p nstate \<Rightarrow> 'p nstate" where
  "remove_exact path keep_children s =
     (let prior = map_of (table s) path;
          s1 = s\<lparr>table := AList.delete path (table s)\<rparr>;
          s2 = (case prior of None \<Rightarrow> s1 | Some node \<Rightarrow> cancel_pending path node s1)
      in if keep_children then s2
         else (let s3 = s2\<lparr>children := AList.delete path (children s2)\<rparr>
               in (case parent_of path of
                     None \<Rightarrow> s3
                   | Some d \<Rightarrow> s3\<lparr>children := set_discard d path (children s3)\<rparr>)))"

text \<open>
  The work list of \<open>purge_subtree\<close>. \<open>list.pop()\<close> takes the last element; the order
  only decides in which order descendants are removed. Each round drops the children
  entry of the path it takes, so the entries and the work list together shrink.
\<close>

definition children_total :: "(ustr \<times> ustr list) list \<Rightarrow> nat" where
  "children_total c = sum_list (map (length \<circ> snd) c)"

lemma children_total_delete:
  "children_total (AList.delete k c) + length (get_set c k) \<le> children_total c"
proof (induction c)
  case Nil
  then show ?case by (simp add: children_total_def)
next
  case (Cons kv c)
  have "children_total (AList.delete k c) \<le> children_total c"
    using Cons by simp
  with Cons show ?case
    by (cases kv) (auto simp: children_total_def get_set_def)
qed

lemma children_total_update:
  assumes "map_of c d = Some xs" and "length ys \<le> length xs"
  shows "children_total (AList.update d ys c) \<le> children_total c"
  using assms by (induction c) (auto simp: children_total_def split: if_splits)

lemma children_total_discard: "children_total (set_discard d p c) \<le> children_total c"
  by (auto simp: set_discard_def length_removeAll_less_eq intro!: children_total_update split: option.splits)

lemma children_cancel_pending [simp]: "children (cancel_pending p n s) = children s"
  by (simp add: cancel_pending_def Let_def split: option.splits)

lemma children_remove_exact_total:
  "children_total (children (remove_exact p False s)) + length (get_set (children s) p)
     \<le> children_total (children s)"
  using children_total_delete [of p "children s"]
    children_total_discard [of _ p "AList.delete p (children s)"]
  by (auto simp: remove_exact_def Let_def intro: le_trans [OF add_le_mono1] split: option.splits)

function purge_loop :: "ustr list \<Rightarrow> 'p nstate \<Rightarrow> 'p nstate" where
  "purge_loop pending s =
     (if pending = [] then s
      else (let descendant = last pending;
                pending' = butlast pending @ get_set (children s) descendant
            in purge_loop pending' (remove_exact descendant False s)))"
  by pat_completeness auto
termination
proof (relation "measure (\<lambda>(pending, s). length pending + children_total (children s))")
  fix pending :: "ustr list" and s :: "'p nstate" and x xa
  assume *: "pending \<noteq> []" "x = last pending" "xa = butlast pending @ get_set (children s) x"
  have "length xa + children_total (children (remove_exact x False s))
          \<le> (length pending - 1) + children_total (children s)"
    using children_remove_exact_total [of x s] * by simp
  with * show "((xa, remove_exact x False s), (pending, s))
      \<in> measure (\<lambda>(pending, s). length pending + children_total (children s))"
    by (cases pending) auto
qed simp

declare purge_loop.simps [simp del]

definition purge_subtree :: "ustr \<Rightarrow> bool \<Rightarrow> 'p nstate \<Rightarrow> 'p nstate" where
  "purge_subtree path include_root s =
     (let s1 = purge_loop (get_set (children s) path) s;
          s2 = s1\<lparr>children := AList.delete path (children s1)\<rparr>
      in if include_root then remove_exact path False s2 else s2)"

definition set_node :: "ustr \<Rightarrow> 'p node \<Rightarrow> bool \<Rightarrow> 'p nstate \<Rightarrow> 'p nstate" where
  "set_node path node preserve_children s =
     (let s1 = remove_exact path preserve_children s
      in register path (s1\<lparr>table := AList.update path node (table s1)\<rparr>))"

text \<open>
  \<open>ensure_parents\<close>. The chain of parents is collected by a loop that stops at the
  root only: on an absolute path it never stops, which is the value \<open>None\<close>.
\<close>

partial_function (option) parent_chain :: "ustr option \<Rightarrow> ustr list \<Rightarrow> ustr list option" where
  "parent_chain parent chain =
     (case parent of
        None \<Rightarrow> Some chain
      | Some d \<Rightarrow> (if d = dot then Some chain else parent_chain (parent_of d) (d # chain)))"

declare parent_chain.simps [code]

definition is_directory :: "'p nstate \<Rightarrow> ustr \<Rightarrow> bool" where
  "is_directory s p =
     (case map_of (table s) p of None \<Rightarrow> False | Some n \<Rightarrow> node_kind n = DIRECTORY)"

definition ensure_directory :: "'p changeset_member \<Rightarrow> bool \<Rightarrow> ustr \<Rightarrow> 'p nstate \<Rightarrow> 'p nstate" where
  "ensure_directory member refresh directory s =
     (let synthetic = synthetic_directory directory (m_mtime member) (m_ordinal member)
      in case map_of (table s) directory of
           Some current \<Rightarrow>
             if node_kind current = DIRECTORY then
               (if node_opaque_placeholder current \<and> refresh
                then s\<lparr>table := AList.update directory
                        (current\<lparr>node_member := synthetic, node_opaque_placeholder := False\<rparr>) (table s)\<rparr>
                else s)
             else set_node directory ((make_node synthetic DIRECTORY)\<lparr>node_synthetic := True\<rparr>) True
                    (purge_subtree directory True s)
         | None \<Rightarrow> set_node directory ((make_node synthetic DIRECTORY)\<lparr>node_synthetic := True\<rparr>) True
                    (purge_subtree directory True s))"

definition ensure_parents :: "ustr \<Rightarrow> 'p changeset_member \<Rightarrow> bool \<Rightarrow> 'p nstate \<Rightarrow> cs_error + 'p nstate" where
  "ensure_parents path member refresh s =
     (case parent_chain (parent_of path) [] of
        None \<Rightarrow> Inl Diverges
      | Some chain \<Rightarrow> Inr (fold (ensure_directory member refresh) chain s))"

definition resolve_link :: "ustr \<Rightarrow> int \<Rightarrow> ustr \<Rightarrow> 'p nstate \<Rightarrow> 'p nstate" where
  "resolve_link target_path group_id link_path s =
     (case map_of (table s) link_path of
        None \<Rightarrow> s
      | Some node \<Rightarrow>
          if node_pending_target node \<noteq> Some target_path then s
          else s\<lparr>table := AList.update link_path
                  (node\<lparr>node_pending_target := None, node_group_id := Some group_id\<rparr>) (table s)\<rparr>)"

definition resolve_forward :: "ustr \<Rightarrow> int \<Rightarrow> 'p nstate \<Rightarrow> 'p nstate" where
  "resolve_forward target_path group_id s =
     (let waiting = sort (get_set (pending_by_target s) target_path);
          s1 = s\<lparr>pending_by_target := AList.delete target_path (pending_by_target s)\<rparr>
      in fold (resolve_link target_path group_id) waiting s1)"

section \<open>One member in archive order\<close>

definition opaque_name :: ustr where "opaque_name = ul ''.wh..wh..opq''"
definition whiteout_prefix :: ustr where "whiteout_prefix = ul ''.wh.''"

definition invalid_marker :: "'p changeset_member \<Rightarrow> bool" where
  "invalid_marker m \<longleftrightarrow> m_kind m \<noteq> FILE \<or> m_size m \<noteq> 0 \<or> m_xattrs m \<noteq> []"

definition step_opaque :: "'p changeset_member \<Rightarrow> 'p nstate \<Rightarrow> cs_error + 'p nstate" where
  "step_opaque m s =
     (if invalid_marker m then Inl (ChangesetError ''oci-whiteout-marker'')
      else
        let opaque_path = dirname_or_dot (m_path m)
        in rbind (if opaque_path \<noteq> dot then ensure_parents opaque_path m False s else Inr s) (\<lambda>s1.
             let fresh = (make_node (synthetic_directory opaque_path 0 (m_ordinal m)) DIRECTORY)
                           \<lparr>node_opaque_placeholder := (opaque_path \<noteq> dot), node_synthetic := True\<rparr>;
                 s2 = (if is_directory s1 opaque_path then s1
                       else set_node opaque_path fresh True (purge_subtree opaque_path True s1))
             in case map_of (table s2) opaque_path of
                  None \<Rightarrow> Inr s2
                | Some current \<Rightarrow>
                    Inr (s2\<lparr>table := AList.update opaque_path (current\<lparr>node_opaque := True\<rparr>) (table s2)\<rparr>)))"

definition step_whiteout :: "'p changeset_member \<Rightarrow> 'p nstate \<Rightarrow> cs_error + 'p nstate" where
  "step_whiteout m s =
     (let target_name = remove_prefix (os_basename (m_path m)) whiteout_prefix;
          parent = dirname_or_dot (m_path m)
      in if target_name = [] \<or> target_name = dot \<or> target_name = ul ''..''
            \<or> starts_with target_name whiteout_prefix
         then Inl (ChangesetError ''oci-whiteout-target'')
         else if invalid_marker m then Inl (ChangesetError ''oci-whiteout-marker'')
         else
           let target_path = (if parent \<noteq> dot then os_join parent target_name else target_name)
           in rbind (ensure_parents target_path m False s) (\<lambda>s1.
              rbind (member_post_init
                       (m\<lparr>m_path := target_path, m_kind := WHITEOUT, m_mode := 384, m_uid := 0, m_gid := 0,
                          m_link_target := [], m_device_major := 0, m_device_minor := 0,
                          m_xattrs := [], m_payload := None\<rparr>)) (\<lambda>whiteout_member.
              Inr (set_node target_path (make_node whiteout_member WHITEOUT) False
                     (purge_subtree target_path True s1)))))"

definition step_file :: "'p changeset_member \<Rightarrow> 'p nstate \<Rightarrow> 'p nstate" where
  "step_file m s =
     (let path = m_path m;
          group_id = m_ordinal m;
          s1 = s\<lparr>groups := AList.update group_id m (groups s)\<rparr>;
          s2 = set_node path ((make_node m FILE)\<lparr>node_group_id := Some group_id\<rparr>) False s1
      in resolve_forward path group_id s2)"

definition step_hardlink :: "'p changeset_member \<Rightarrow> 'p nstate \<Rightarrow> cs_error + 'p nstate" where
  "step_hardlink m s =
     (let path = m_path m;
          pending_node = (make_node m HARDLINK)\<lparr>node_pending_target := Some (m_link_target m)\<rparr>;
          link_later = (let s1 = s\<lparr>pending_by_target := set_add (m_link_target m) path (pending_by_target s)\<rparr>
                        in Inr (set_node path pending_node False s1))
      in if m_link_target m = path then Inl (ChangesetError ''oci-hardlink-self'')
         else case map_of (table s) (m_link_target m) of
                Some target \<Rightarrow>
                  if node_kind target = FILE then
                    Inr (set_node path ((make_node m HARDLINK)\<lparr>node_group_id := node_group_id target\<rparr>) False s)
                  else if node_kind target = HARDLINK then Inl (ChangesetError ''oci-hardlink-chain'')
                  else link_later
              | None \<Rightarrow> link_later)"

definition step_other :: "'p changeset_member \<Rightarrow> bool \<Rightarrow> 'p nstate \<Rightarrow> 'p nstate" where
  "step_other m preserve_opaque s =
     set_node (m_path m) ((make_node m (m_kind m))\<lparr>node_opaque := preserve_opaque\<rparr>)
       (m_kind m = DIRECTORY) s"

definition step_member :: "'p changeset_member \<Rightarrow> 'p nstate \<Rightarrow> cs_error + 'p nstate" where
  "step_member m s =
     (let path = m_path m
      in rbind (if path \<noteq> dot then ensure_parents path m True s else Inr s) (\<lambda>s1.
         let s2 = (if m_kind m \<noteq> DIRECTORY then purge_subtree path False s1 else s1);
             preserve_opaque =
               (m_kind m = DIRECTORY \<and>
                (case map_of (table s2) path of
                   None \<Rightarrow> False
                 | Some prior \<Rightarrow> node_kind prior = DIRECTORY \<and> node_opaque prior))
         in case m_kind m of
              FILE \<Rightarrow> Inr (step_file m s2)
            | HARDLINK \<Rightarrow> step_hardlink m s2
            | _ \<Rightarrow> Inr (step_other m preserve_opaque s2)))"

definition step :: "'p nstate \<Rightarrow> 'p changeset_member \<Rightarrow> cs_error + 'p nstate" where
  "step s m =
     (let basename = os_basename (m_path m)
      in if basename = opaque_name then step_opaque m s
         else if starts_with basename whiteout_prefix then step_whiteout m s
         else step_member m s)"

section \<open>The final table and its emission order\<close>

definition add_root :: "int \<Rightarrow> (ustr \<times> 'p node) list \<Rightarrow> (ustr \<times> 'p node) list" where
  "add_root n t =
     (if map_of t dot = None
      then AList.update dot ((make_node (synthetic_directory dot 0 n) DIRECTORY)\<lparr>node_synthetic := True\<rparr>) t
      else t)"

definition group_paths :: "(ustr \<times> 'p node) list \<Rightarrow> int \<Rightarrow> ustr list" where
  "group_paths t g = map fst (filter (\<lambda>(p, n). node_group_id n = Some g) t)"

definition carrier :: "(ustr \<times> 'p node) list \<Rightarrow> int \<Rightarrow> ustr" where
  "carrier t g =
     (let regular_paths = sort (map fst (filter (\<lambda>(p, n). node_group_id n = Some g \<and> node_kind n = FILE) t))
      in if regular_paths \<noteq> [] then hd regular_paths else hd (sort (group_paths t g)))"

definition dict_of_pairs :: "('k \<times> 'v) list \<Rightarrow> ('k \<times> 'v) list" where
  "dict_of_pairs xs = foldl (\<lambda>d (k, v). AList.update k v d) [] xs"

definition normalize_node ::
  "int \<Rightarrow> (int \<times> 'p changeset_member) list \<Rightarrow> (ustr \<times> 'p node) list \<Rightarrow> ustr \<times> 'p node
     \<Rightarrow> cs_error + ustr \<times> 'p normalized_entry" where
  "normalize_node n_members grps t pn =
     (let path = fst pn; node = snd pn; member = node_member node;
          xattrs = dict_of_pairs (m_xattrs member);
          xattrs' = (if node_opaque node then AList.update (ul ''trusted.overlay.opaque'') (ul ''y'') xattrs else xattrs)
      in if node_opaque node \<and> node_kind node \<noteq> DIRECTORY then Inl (ChangesetError ''oci-opaque-state'')
         else case node_group_id node of
           Some g \<Rightarrow>
             (case map_of grps g of
                None \<Rightarrow> Inl (ChangesetError ''oci-hardlink-group'')
              | Some source \<Rightarrow>
                  if path = carrier t g then
                    Inr (path, \<lparr>e_path = path, e_kind = FILE, e_size = m_size source, e_mode = m_mode source,
                      e_uid = m_uid source, e_gid = m_gid source, e_mtime = m_mtime source, e_link_target = [],
                      e_device_major = 0, e_device_minor = 0, e_xattrs = m_xattrs source,
                      e_payload = m_payload source, e_opaque = False, e_synthetic = (path \<noteq> m_path source),
                      e_source_ordinal = Some (m_ordinal source)\<rparr>)
                  else
                    Inr (path, \<lparr>e_path = path, e_kind = HARDLINK, e_size = 0, e_mode = m_mode member,
                      e_uid = m_uid member, e_gid = m_gid member, e_mtime = m_mtime member,
                      e_link_target = carrier t g, e_device_major = 0, e_device_minor = 0,
                      e_xattrs = m_xattrs member, e_payload = None, e_opaque = False, e_synthetic = False,
                      e_source_ordinal = Some (m_ordinal member)\<rparr>))
         | None \<Rightarrow>
             Inr (path, \<lparr>e_path = path, e_kind = node_kind node, e_size = m_size member, e_mode = m_mode member,
               e_uid = m_uid member, e_gid = m_gid member, e_mtime = m_mtime member,
               e_link_target = m_link_target member, e_device_major = m_device_major member,
               e_device_minor = m_device_minor member, e_xattrs = sort_key fst xattrs',
               e_payload = None, e_opaque = node_opaque node, e_synthetic = node_synthetic node,
               e_source_ordinal = (if m_ordinal member < n_members then Some (m_ordinal member) else None)\<rparr>))"

text \<open>One pass over the remaining paths: what is emitted, and what is deferred.\<close>

fun emit_pass :: "(ustr \<times> 'p normalized_entry) list \<Rightarrow> ustr list \<Rightarrow> ustr list \<Rightarrow> ustr list \<Rightarrow> ustr list \<times> ustr list" where
  "emit_pass normalized [] ordered deferred = (ordered, deferred)"
| "emit_pass normalized (path # rest) ordered deferred =
     (case map_of normalized path of
        None \<Rightarrow> emit_pass normalized rest ordered deferred
      | Some entry \<Rightarrow>
          if e_kind entry = HARDLINK \<and> e_link_target entry \<notin> set ordered
          then emit_pass normalized rest ordered (deferred @ [path])
          else emit_pass normalized rest (ordered @ [path]) deferred)"

lemma emit_pass_deferred_length:
  "length (snd (emit_pass nz rest ordered deferred)) \<le> length deferred + length rest"
  by (induction nz rest ordered deferred rule: emit_pass.induct) (auto split: option.splits)

function emit_order :: "(ustr \<times> 'p normalized_entry) list \<Rightarrow> ustr list \<Rightarrow> ustr list \<Rightarrow> cs_error + ustr list" where
  "emit_order normalized remaining ordered =
     (if remaining = [] then Inr ordered
      else let (ordered', deferred) = emit_pass normalized remaining ordered []
           in if length deferred = length remaining then Inl (ChangesetError ''oci-hardlink-order'')
              else emit_order normalized deferred ordered')"
  by pat_completeness auto
termination
proof (relation "measure (\<lambda>(nz, remaining, ordered). length remaining)")
  fix nz :: "(ustr \<times> 'p normalized_entry) list" and remaining ordered x and xa y :: "ustr list"
  assume "x = emit_pass nz remaining ordered []" "(xa, y) = x" "length y \<noteq> length remaining"
  then show "((nz, y, xa), (nz, remaining, ordered)) \<in> measure (\<lambda>(nz, remaining, ordered). length remaining)"
    using emit_pass_deferred_length [of nz remaining ordered "[]"] by (auto simp: prod_eq_iff)
qed simp

declare emit_order.simps [simp del]

definition finish :: "int \<Rightarrow> 'p nstate \<Rightarrow> cs_error + 'p normalized_entry list" where
  "finish n_members s =
     (let t = add_root n_members (table s)
      in if \<exists>(p, n) \<in> set t. node_pending_target n \<noteq> None then Inl (ChangesetError ''oci-hardlink-target'')
         else rbind (rmap (normalize_node n_members (groups s) t) t) (\<lambda>normalized.
              rbind (emit_order normalized (sort (dkeys normalized)) []) (\<lambda>ordered.
              Inr (List.map_filter (map_of normalized) ordered))))"

definition normalize_changeset :: "'p changeset_member list \<Rightarrow> cs_error + 'p normalized_entry list" where
  "normalize_changeset members =
     (if map m_ordinal members \<noteq> map int [0..<length members] then Inl (ChangesetError ''oci-changeset-input'')
      else rbind (rfold step empty_nstate members) (finish (int (length members))))"

section \<open>Evaluation\<close>

lemma purge_loop_exec [exec]:
  "purge_loop [] s = s"
  "purge_loop (x # xs) s =
     purge_loop (butlast (x # xs) @ get_set (children s) (last (x # xs))) (remove_exact (last (x # xs)) False s)"
  by (simp_all add: purge_loop.simps Let_def)

lemma parent_chain_exec [exec]:
  "parent_chain None c = Some c"
  "parent_chain (Some d) c = (if d = dot then Some c else parent_chain (parent_of d) (d # c))"
  by (simp_all add: parent_chain.simps)

lemma emit_order_exec [exec]:
  "emit_order nz [] os = Inr os"
  "emit_order nz (x # xs) os =
     (let (ordered', deferred) = emit_pass nz (x # xs) os []
      in if length deferred = length (x # xs) then Inl (ChangesetError ''oci-hardlink-order'')
         else emit_order nz deferred ordered')"
  by (simp_all add: emit_order.simps)

lemmas changeset_exec [exec] = member_post_init_def make_node_def dot_def dirname_or_dot_def parent_of_def
  synthetic_directory_def empty_nstate_def register_def cancel_pending_def remove_exact_def
  purge_subtree_def set_node_def is_directory_def ensure_directory_def ensure_parents_def
  resolve_link_def resolve_forward_def opaque_name_def whiteout_prefix_def invalid_marker_def
  step_opaque_def step_whiteout_def step_file_def step_hardlink_def step_other_def step_member_def step_def
  add_root_def group_paths_def carrier_def dict_of_pairs_def normalize_node_def finish_def
  normalize_changeset_def

end
