(* ===== verification/Changeset_Tree.thy ===== *)
theory Changeset_Tree imports Main Changeset begin

text \<open>
  The tables of \<open>normalize_changeset\<close> as mathematical objects: the node table as a
  map, the children index as a relation. \<open>tree_inv\<close> says that the index lists exactly
  the entries below a path and that every entry below the root's own entries has a
  directory above it; every operation keeps it, and under it the work list of
  \<open>purge_subtree\<close> removes exactly the strict descendants of a path.
\<close>

section \<open>The maps behind the tables\<close>

abbreviation nodes :: "'p nstate \<Rightarrow> ustr \<rightharpoonup> 'p node" where
  "nodes s \<equiv> map_of (table s)"

definition kids :: "'p nstate \<Rightarrow> ustr \<Rightarrow> ustr set" where
  "kids s d = set (get_set (children s) d)"

named_theorems tables \<open>effect of each operation on the node map and the children relation\<close>

lemma table_cancel_pending [simp]: "table (cancel_pending p n s) = table s"
  by (simp add: cancel_pending_def Let_def split: option.splits)

lemma groups_cancel_pending [simp]: "groups (cancel_pending p n s) = groups s"
  by (simp add: cancel_pending_def Let_def split: option.splits)

lemma table_remove_exact: "table (remove_exact p k s) = AList.delete p (table s)"
  by (simp add: remove_exact_def Let_def split: option.splits)

lemma groups_remove_exact [simp]: "groups (remove_exact p k s) = groups s"
  by (simp add: remove_exact_def Let_def split: option.splits)

lemma nodes_remove_exact [tables]: "nodes (remove_exact p k s) = (nodes s)(p := None)"
  by (simp add: table_remove_exact dict_simps)

lemma kids_remove_exact [tables]:
  "kids (remove_exact p k s) d =
     (if k then kids s d
      else (if d = p then {} else kids s d) - (if parent_of p = Some d then {p} else {}))"
  by (simp add: remove_exact_def kids_def Let_def dict_simps del: set_empty set_empty2 split: option.splits)

lemma table_register [simp]: "table (register p s) = table s"
  by (simp add: register_def split: option.splits)

lemma groups_register [simp]: "groups (register p s) = groups s"
  by (simp add: register_def split: option.splits)

lemma kids_register: "kids (register p s) d = (if parent_of p = Some d then insert p (kids s d) else kids s d)"
  by (auto simp: register_def kids_def dict_simps split: option.splits)

lemma kids_table_update [simp]: "kids (s\<lparr>table := t\<rparr>) = kids s"
  by (simp add: kids_def fun_eq_iff)

lemma kids_groups_update [simp]: "kids (s\<lparr>groups := t\<rparr>) = kids s"
  by (simp add: kids_def fun_eq_iff)

lemma kids_pending_update [simp]: "kids (s\<lparr>pending_by_target := t\<rparr>) = kids s"
  by (simp add: kids_def fun_eq_iff)

lemma kids_children_delete [tables]:
  "kids (s\<lparr>children := AList.delete k (children s)\<rparr>) d = (if d = k then {} else kids s d)"
  by (simp add: kids_def dict_simps)

lemma groups_set_node [simp]: "groups (set_node p n k s) = groups s"
  by (simp add: set_node_def Let_def)

lemma nodes_set_node [tables]: "nodes (set_node p n k s) = (nodes s)(p \<mapsto> n)"
  by (simp add: set_node_def Let_def dict_simps tables)

lemma kids_set_node [tables]:
  "kids (set_node p n k s) d =
     (if parent_of p = Some d then insert p (if d = p \<and> \<not> k then {} else kids s d)
      else if d = p \<and> \<not> k then {} else kids s d)"
  by (auto simp: set_node_def Let_def kids_register tables)

section \<open>The work list of purge_subtree\<close>

definition kid_rel :: "'p nstate \<Rightarrow> (ustr \<times> ustr) set" where
  "kid_rel s = {(d, c). c \<in> kids s d}"

definition below :: "'p nstate \<Rightarrow> ustr set \<Rightarrow> ustr set" where
  "below s ps = (kid_rel s)\<^sup>* `` ps"

lemma below_refl: "p \<in> ps \<Longrightarrow> p \<in> below s ps"
  by (auto simp: below_def)

lemma below_step: "d \<in> below s ps \<Longrightarrow> c \<in> kids s d \<Longrightarrow> c \<in> below s ps"
  by (auto simp: below_def kid_rel_def intro: rtrancl_into_rtrancl)

lemma below_induct [consumes 1, case_names base step]:
  assumes "x \<in> below s ps" and "\<And>p. p \<in> ps \<Longrightarrow> P p"
    and "\<And>d c. d \<in> below s ps \<Longrightarrow> P d \<Longrightarrow> c \<in> kids s d \<Longrightarrow> P c"
  shows "P x"
proof -
  from assms(1) obtain p where "p \<in> ps" and "(p, x) \<in> (kid_rel s)\<^sup>*"
    by (auto simp: below_def)
  from this(2) show ?thesis
  proof (induction rule: rtrancl_induct)
    case base
    from assms(2) \<open>p \<in> ps\<close> show ?case .
  next
    case (step y z)
    from \<open>p \<in> ps\<close> step(1) have "y \<in> below s ps" by (auto simp: below_def)
    from this step(3) show ?case
      by (rule assms(3)) (use step(2) in \<open>simp add: kid_rel_def\<close>)
  qed
qed

text \<open>Taking one path off the work list keeps the set of paths that will be removed.\<close>

lemma below_pop:
  assumes "x \<in> ps" and "ps = insert x qs"
  shows "below s ps = insert x (below (remove_exact x False s) (qs \<union> kids s x))"
    (is "_ = insert x ?R")
proof
  show "below s ps \<subseteq> insert x ?R"
  proof
    fix y assume "y \<in> below s ps"
    then show "y \<in> insert x ?R"
    proof (induction rule: below_induct)
      case (base p)
      with assms show ?case by (auto intro: below_refl)
    next
      case (step d c)
      show ?case
      proof (cases "c = x \<or> d = x")
        case True
        with step have "c = x \<or> c \<in> kids s x" by auto
        then show ?thesis by (auto intro: below_refl)
      next
        case False
        with step have "d \<in> ?R" and "c \<in> kids (remove_exact x False s) d"
          by (auto simp: tables)
        then show ?thesis by (auto intro: below_step)
      qed
    qed
  qed
next
  have "y \<in> below s ps" if "y \<in> ?R" for y
    using that
  proof (induction rule: below_induct)
    case (base p)
    with assms show ?case by (auto intro: below_refl below_step)
  next
    case (step d c)
    then show ?case by (auto simp: tables intro: below_step split: if_splits)
  qed
  with assms show "insert x ?R \<subseteq> below s ps" by (auto intro: below_refl)
qed

lemma purge_loop_effect:
  "nodes (purge_loop pd s) = nodes s |` (- below s (set pd)) \<and>
   groups (purge_loop pd s) = groups s \<and>
   (\<forall>d. kids (purge_loop pd s) d \<subseteq> kids s d) \<and>
   (\<forall>d c. d \<notin> below s (set pd) \<longrightarrow> c \<in> kids s d \<longrightarrow> c \<notin> below s (set pd) \<longrightarrow> c \<in> kids (purge_loop pd s) d)"
proof (induction pd s rule: purge_loop.induct)
  case (1 pd s)
  show ?case
  proof (cases "pd = []")
    case True
    then show ?thesis
      by (simp add: purge_loop.simps below_def restrict_map_def)
  next
    case False
    let ?x = "last pd" and ?s = "remove_exact (last pd) False s"
    let ?pd = "butlast pd @ get_set (children s) (last pd)"
    have eq: "purge_loop pd s = purge_loop ?pd ?s"
      using False by (simp add: purge_loop.simps [of pd s] Let_def)
    have "set pd = insert ?x (set (butlast pd))"
      using False by (metis Un_insert_right append_butlast_last_id list.simps(15) set_append sup_bot.right_neutral list.set(1))
    then have below: "below s (set pd) = insert ?x (below ?s (set ?pd))"
      using below_pop [of ?x "set pd" "set (butlast pd)" s] False by (simp add: kids_def)
    let ?r = "purge_loop ?pd ?s" and ?B = "below ?s (set ?pd)"
    note IH = "1.IH" [OF False refl refl]
    have "nodes ?r = nodes s |` (- insert ?x ?B)"
      using IH by (simp add: tables restrict_map_def fun_eq_iff)
    moreover have "groups ?r = groups s"
      using IH by simp
    moreover have "kids ?r d \<subseteq> kids s d" for d
    proof -
      have "kids ?s d \<subseteq> kids s d" by (auto simp: tables)
      with IH show ?thesis by blast
    qed
    moreover have "c \<in> kids ?r d" if "d \<notin> insert ?x ?B" "c \<in> kids s d" "c \<notin> insert ?x ?B" for d c
    proof -
      from that have "c \<in> kids ?s d" by (simp add: tables)
      with IH that show ?thesis by blast
    qed
    ultimately show ?thesis
      unfolding eq below by blast
  qed
qed

lemmas nodes_purge_loop = purge_loop_effect [THEN conjunct1]
  and groups_purge_loop = purge_loop_effect [THEN conjunct2, THEN conjunct1]
  and kids_purge_loop_subset = purge_loop_effect [THEN conjunct2, THEN conjunct2, THEN conjunct1, rule_format]
  and kids_purge_loop_kept = purge_loop_effect [THEN conjunct2, THEN conjunct2, THEN conjunct2, rule_format]

lemma groups_purge_subtree [simp]: "groups (purge_subtree p r s) = groups s"
  by (simp add: purge_subtree_def Let_def groups_purge_loop)

lemma nodes_purge_subtree:
  "nodes (purge_subtree p r s) q =
     (if q \<in> below s (kids s p) \<or> r \<and> q = p then None else nodes s q)"
  by (simp add: purge_subtree_def Let_def tables nodes_purge_loop restrict_map_def kids_def)

lemma kids_purge_subtree_subset: "kids (purge_subtree p r s) d \<subseteq> kids s d"
proof -
  let ?s = "purge_loop (get_set (children s) p) s"
  have "kids (purge_subtree p r s) d \<subseteq> kids ?s d"
    by (auto simp: purge_subtree_def Let_def tables split: if_splits)
  with kids_purge_loop_subset [of "get_set (children s) p" s d] show ?thesis by blast
qed

lemma kids_purge_subtree_kept:
  assumes "c \<in> kids s d" and "c \<notin> below s (kids s p)" and "d \<notin> below s (kids s p)" and "\<not> r \<or> c \<noteq> p"
  shows "c \<in> kids (purge_subtree p r s) d"
proof -
  have "d \<noteq> p"
    using assms(1,2) by (auto intro: below_refl)
  moreover have "c \<in> kids (purge_loop (get_set (children s) p) s) d"
    using assms by (intro kids_purge_loop_kept) (auto simp: kids_def)
  ultimately show ?thesis
    using assms(4) by (auto simp: purge_subtree_def Let_def tables)
qed

section \<open>Ancestors and the tree invariant\<close>

inductive ancestor :: "ustr \<Rightarrow> ustr \<Rightarrow> bool" where
  parent: "parent_of p = Some a \<Longrightarrow> ancestor a p"
| above: "ancestor a d \<Longrightarrow> parent_of p = Some d \<Longrightarrow> ancestor a p"

inductive_cases ancestorE: "ancestor a p"

lemma relative_dot [simp]: "relative dot"
  by (simp add: relative_def dot_def ul_def slash_def)

lemma parent_of_dot [simp]: "parent_of dot = None"
  by (simp add: parent_of_def)

lemma ancestor_dot [simp]: "\<not> ancestor a dot"
  by (auto elim: ancestorE)

lemma parent_of_cases:
  assumes "parent_of p = Some d" and "relative p"
  shows "d = dot \<or> relative d \<and> length d < length p"
  using assms dirname_shorter [of p]
  by (auto simp: parent_of_def dirname_or_dot_def Let_def split: if_splits)

lemma parent_of_relative: "parent_of p = Some d \<Longrightarrow> relative p \<Longrightarrow> relative d"
  using parent_of_cases by fastforce

lemma ancestor_shorter:
  "ancestor a q \<Longrightarrow> relative q \<Longrightarrow> a = dot \<or> length a < length q"
proof (induction rule: ancestor.induct)
  case (parent p a)
  then show ?case using parent_of_cases by blast
next
  case (above a d p)
  then show ?case using parent_of_cases [of p d] by auto
qed

lemma parent_not_below: "parent_of p = Some d \<Longrightarrow> relative p \<Longrightarrow> \<not> ancestor p d"
proof
  assume p: "parent_of p = Some d" "relative p" "ancestor p d"
  then have "d \<noteq> dot" by auto
  with p parent_of_cases [of p d] have "relative d" "length d < length p" by auto
  with p ancestor_shorter [of p d] show False by auto
qed

lemma parent_neq: "parent_of p = Some d \<Longrightarrow> relative p \<Longrightarrow> d \<noteq> p"
  using parent_of_cases [of p d] by auto

definition tree_inv :: "'p nstate \<Rightarrow> bool" where
  "tree_inv s \<longleftrightarrow>
     (\<forall>p \<in> dom (nodes s). relative p \<and>
        (\<forall>d. parent_of p = Some d \<longrightarrow> p \<in> kids s d \<and> (d \<noteq> dot \<longrightarrow> is_directory s d))) \<and>
     (\<forall>d c. c \<in> kids s d \<longrightarrow> parent_of c = Some d)"

lemma tree_invI:
  assumes "\<And>p n. nodes s p = Some n \<Longrightarrow> relative p"
    and "\<And>p n d. nodes s p = Some n \<Longrightarrow> parent_of p = Some d \<Longrightarrow> p \<in> kids s d"
    and "\<And>p n d. nodes s p = Some n \<Longrightarrow> parent_of p = Some d \<Longrightarrow> d \<noteq> dot \<Longrightarrow> is_directory s d"
    and "\<And>d c. c \<in> kids s d \<Longrightarrow> parent_of c = Some d"
  shows "tree_inv s"
  unfolding tree_inv_def using assms by blast

lemma tree_invD:
  assumes "tree_inv s"
  shows "nodes s p = Some n \<Longrightarrow> relative p"
    and "nodes s p = Some n \<Longrightarrow> parent_of p = Some d \<Longrightarrow> p \<in> kids s d"
    and "nodes s p = Some n \<Longrightarrow> parent_of p = Some d \<Longrightarrow> d \<noteq> dot \<Longrightarrow> is_directory s d"
    and "c \<in> kids s d \<Longrightarrow> parent_of c = Some d"
proof -
  have *: "nodes s p = Some n \<Longrightarrow> p \<in> dom (nodes s)" by blast
  from assms have inv: "\<forall>p \<in> dom (nodes s). relative p \<and>
        (\<forall>d. parent_of p = Some d \<longrightarrow> p \<in> kids s d \<and> (d \<noteq> dot \<longrightarrow> is_directory s d))"
    and idx: "\<forall>d c. c \<in> kids s d \<longrightarrow> parent_of c = Some d"
    unfolding tree_inv_def by blast+
  from inv * show "nodes s p = Some n \<Longrightarrow> relative p"
    and "nodes s p = Some n \<Longrightarrow> parent_of p = Some d \<Longrightarrow> p \<in> kids s d"
    and "nodes s p = Some n \<Longrightarrow> parent_of p = Some d \<Longrightarrow> d \<noteq> dot \<Longrightarrow> is_directory s d"
    by blast+
  from idx show "c \<in> kids s d \<Longrightarrow> parent_of c = Some d" by blast
qed

lemma is_directory_iff: "is_directory s p \<longleftrightarrow> (\<exists>n. nodes s p = Some n \<and> node_kind n = DIRECTORY)"
  by (auto simp: is_directory_def split: option.splits)

lemma tree_inv_empty: "tree_inv empty_nstate"
  by (rule tree_invI) (auto simp: empty_nstate_def kids_def)

lemma below_ancestor:
  assumes "tree_inv s"
  shows "q \<in> below s (kids s p) \<Longrightarrow> ancestor p q"
proof (induction rule: below_induct)
  case (base q)
  with assms show ?case by (auto intro: ancestor.parent dest: tree_invD)
next
  case (step d c)
  with assms show ?case by (auto intro: ancestor.above dest: tree_invD)
qed

lemma ancestor_below:
  assumes "tree_inv s"
  shows "ancestor p q \<Longrightarrow> q \<in> dom (nodes s) \<Longrightarrow> q \<in> below s (kids s p)"
proof (induction rule: ancestor.induct)
  case (parent q p)
  with assms show ?case by (auto intro: below_refl dest: tree_invD(2))
next
  case (above p d q)
  then have "d \<noteq> dot" by auto
  with above assms have "is_directory s d" and q: "q \<in> kids s d"
    by (auto dest: tree_invD(2,3))
  then have "d \<in> dom (nodes s)" by (auto simp: is_directory_iff)
  with above.IH q show ?case by (blast intro: below_step)
qed

text \<open>Purging a subtree is removing the strict descendants, and the path itself when asked.\<close>

lemma purge_subtree_descendants:
  assumes "tree_inv s"
  shows "nodes (purge_subtree p r s) q =
           (if ancestor p q \<or> r \<and> q = p then None else nodes s q)"
proof (cases "nodes s q")
  case None
  then show ?thesis by (simp add: nodes_purge_subtree)
next
  case (Some n)
  then have "q \<in> below s (kids s p) \<longleftrightarrow> ancestor p q"
    using below_ancestor [OF assms, of q p] ancestor_below [OF assms, of p q] by blast
  then show ?thesis by (simp add: nodes_purge_subtree)
qed

definition cleared :: "'p nstate \<Rightarrow> ustr \<Rightarrow> bool" where
  "cleared s p \<longleftrightarrow> (\<forall>q \<in> dom (nodes s). parent_of q \<noteq> Some p)"

lemma purge_subtree_cleared:
  "tree_inv s \<Longrightarrow> cleared (purge_subtree p r s) p"
  by (auto simp: cleared_def purge_subtree_descendants intro: ancestor.parent split: if_splits)

lemma purge_subtree_keeps_directory:
  assumes "tree_inv s" and "is_directory s d" and "\<not> ancestor p d" and "r \<longrightarrow> d \<noteq> p"
  shows "is_directory (purge_subtree p r s) d"
  using assms by (auto simp: is_directory_iff purge_subtree_descendants)

lemma purge_subtree_tree_inv:
  assumes "tree_inv s"
  shows "tree_inv (purge_subtree p r s)"
proof (rule tree_invI)
  fix q n assume q: "nodes (purge_subtree p r s) q = Some n"
  then have old: "nodes s q = Some n" and out: "\<not> ancestor p q" "\<not> r \<or> q \<noteq> p"
    by (auto simp: purge_subtree_descendants [OF assms] split: if_splits)
  from old assms show "relative q" by (rule tree_invD(1) [rotated])
  fix d assume d: "parent_of q = Some d"
  have nd: "\<not> ancestor p d" "d \<noteq> p"
    using out d by (auto intro: ancestor.intros)
  show "q \<in> kids (purge_subtree p r s) d"
    using out nd below_ancestor [OF assms]
    by (intro kids_purge_subtree_kept tree_invD(2) [OF assms old d]) auto
  assume "d \<noteq> dot"
  with old d assms have "is_directory s d" by (blast dest: tree_invD(3))
  with assms nd show "is_directory (purge_subtree p r s) d"
    by (auto intro: purge_subtree_keeps_directory)
next
  fix d c assume "c \<in> kids (purge_subtree p r s) d"
  with assms kids_purge_subtree_subset [of p r s d] show "parent_of c = Some d"
    by (auto dest: tree_invD(4))
qed

end
