(* ===== verification/Changeset_Steps.thy ===== *)
theory Changeset_Steps imports Main Changeset_Tree begin

text \<open>
  Every step of \<open>normalize_changeset\<close> on a member with a relative path returns (it
  does not diverge) and keeps the tree invariant and the node invariant: which kinds
  of node carry a payload group, a pending hardlink target or the opaque flag.
\<close>

section \<open>Writing one node\<close>

lemma set_node_tree_inv:
  assumes inv: "tree_inv s" and p: "relative p"
    and up: "\<And>d. parent_of p = Some d \<Longrightarrow> d \<noteq> dot \<Longrightarrow> is_directory s d"
    and under: "k \<and> node_kind n = DIRECTORY \<or> cleared s p"
  shows "tree_inv (set_node p n k s)"
proof (rule tree_invI)
  fix q m assume q: "nodes (set_node p n k s) q = Some m"
  show rel: "relative q"
    using q inv p by (auto simp: tables split: if_splits dest: tree_invD(1))
  fix d assume d: "parent_of q = Some d"
  have dir: "is_directory (set_node p n k s) d" if "is_directory s d" "d \<noteq> p"
    using that by (auto simp: is_directory_iff tables)
  show "q \<in> kids (set_node p n k s) d"
  proof (cases "q = p")
    case True
    with d show ?thesis by (simp add: tables)
  next
    case False
    with q have old: "nodes s q = Some m" by (simp add: tables)
    with inv d have "q \<in> kids s d" by (blast dest: tree_invD(2))
    moreover have "d \<noteq> p \<or> k" using under old d by (auto simp: cleared_def)
    ultimately show ?thesis by (auto simp: tables)
  qed
  assume nd: "d \<noteq> dot"
  show "is_directory (set_node p n k s) d"
  proof (cases "q = p")
    case True
    with d nd up p show ?thesis by (auto intro!: dir dest: parent_neq)
  next
    case False
    with q have old: "nodes s q = Some m" by (simp add: tables)
    with inv d nd have "is_directory s d" by (blast dest: tree_invD(3))
    moreover have "d = p \<Longrightarrow> node_kind n = DIRECTORY" using under old d by (auto simp: cleared_def)
    ultimately show ?thesis by (cases "d = p") (auto simp: is_directory_iff tables)
  qed
next
  fix d c assume "c \<in> kids (set_node p n k s) d"
  with inv show "parent_of c = Some d"
    by (auto simp: tables split: if_splits dest: tree_invD(4))
qed

lemma update_same_kind_tree_inv:
  assumes inv: "tree_inv s" and old: "nodes s p = Some n" and kind: "node_kind n' = node_kind n"
  shows "tree_inv (s\<lparr>table := AList.update p n' (table s)\<rparr>)"
    and "is_directory (s\<lparr>table := AList.update p n' (table s)\<rparr>) d = is_directory s d"
proof -
  let ?s = "s\<lparr>table := AList.update p n' (table s)\<rparr>"
  have dir: "is_directory ?s d = is_directory s d" for d
    using old kind by (auto simp: is_directory_iff dict_simps)
  then show "is_directory ?s d = is_directory s d" .
  have dom: "nodes ?s q = Some m \<Longrightarrow> \<exists>m. nodes s q = Some m" for q m
    using old by (auto simp: dict_simps split: if_splits)
  show "tree_inv ?s"
    by (rule tree_invI) (use dom dir inv in \<open>auto dest: tree_invD\<close>)
qed

section \<open>Ensuring the parents\<close>

text \<open>\<open>linked ds p\<close>: the list of parents of \<open>p\<close>, innermost first, up to the root.\<close>

fun linked :: "ustr list \<Rightarrow> ustr \<Rightarrow> bool" where
  "linked [] p \<longleftrightarrow> parent_of p = None \<or> parent_of p = Some dot"
| "linked (d # ds) p \<longleftrightarrow> parent_of p = Some d \<and> d \<noteq> dot \<and> relative d \<and> linked ds d"

lemma parent_chain_relative:
  assumes "relative p"
  shows "\<exists>ds. parent_chain (parent_of p) acc = Some (rev ds @ acc) \<and> linked ds p"
  using assms
proof (induction "length p" arbitrary: p acc rule: less_induct)
  case less
  show ?case
  proof (cases "parent_of p")
    case None
    then show ?thesis
      by (intro exI [of _ "[]"]) (simp add: parent_chain.simps)
  next
    case (Some d)
    show ?thesis
    proof (cases "d = dot")
      case True
      with Some show ?thesis
        by (intro exI [of _ "[]"]) (simp add: parent_chain.simps)
    next
      case False
      with Some less.prems have d: "relative d" "length d < length p"
        using parent_of_cases by blast+
      with less.hyps obtain ds where
        "parent_chain (parent_of d) (d # acc) = Some (rev ds @ d # acc)" "linked ds d" by blast
      with Some False d show ?thesis
        by (intro exI [of _ "d # ds"]) (simp add: parent_chain.simps [of "Some d"])
    qed
  qed
qed

lemma ensure_directory_ok:
  assumes inv: "tree_inv s" and p: "relative p"
    and up: "\<And>d. parent_of p = Some d \<Longrightarrow> d \<noteq> dot \<Longrightarrow> is_directory s d"
  shows "tree_inv (ensure_directory m r p s) \<and> is_directory (ensure_directory m r p s) p"
proof (cases "is_directory s p")
  case True
  then obtain n where "nodes s p = Some n" "node_kind n = DIRECTORY"
    by (auto simp: is_directory_iff)
  with True inv show ?thesis
    by (auto simp: ensure_directory_def Let_def update_same_kind_tree_inv)
next
  case False
  let ?n = "(make_node (synthetic_directory p (m_mtime m) (m_ordinal m)) DIRECTORY)\<lparr>node_synthetic := True\<rparr>"
  have eq: "ensure_directory m r p s = set_node p ?n True (purge_subtree p True s)"
    using False by (auto simp: ensure_directory_def Let_def is_directory_iff split: option.splits)
  have "tree_inv (set_node p ?n True (purge_subtree p True s))"
  proof (rule set_node_tree_inv)
    fix d assume d: "parent_of p = Some d" "d \<noteq> dot"
    with inv p up show "is_directory (purge_subtree p True s) d"
      by (intro purge_subtree_keeps_directory) (auto dest: parent_not_below parent_neq)
  qed (use inv p in \<open>auto simp: purge_subtree_tree_inv make_node_def\<close>)
  then show ?thesis
    by (simp add: eq is_directory_iff tables make_node_def)
qed

lemma ensure_chain_ok:
  assumes "tree_inv s" and "linked ds p"
  shows "tree_inv (fold (ensure_directory m r) (rev ds) s) \<and>
    (\<forall>d. parent_of p = Some d \<longrightarrow> d \<noteq> dot \<longrightarrow> is_directory (fold (ensure_directory m r) (rev ds) s) d)"
  using assms(2)
proof (induction ds arbitrary: p)
  case Nil
  with assms(1) show ?case by auto
next
  case (Cons d ds)
  then have "tree_inv (fold (ensure_directory m r) (rev ds) s)"
    and "\<And>e. parent_of d = Some e \<Longrightarrow> e \<noteq> dot \<Longrightarrow> is_directory (fold (ensure_directory m r) (rev ds) s) e"
    by auto
  with Cons.prems ensure_directory_ok [of "fold (ensure_directory m r) (rev ds) s" d m r] show ?case
    by auto
qed

lemma ensure_parents_ok:
  assumes "tree_inv s" and "relative p"
  obtains s' where "ensure_parents p m r s = Inr s'" and "tree_inv s'"
    and "\<And>d. parent_of p = Some d \<Longrightarrow> d \<noteq> dot \<Longrightarrow> is_directory s' d"
proof -
  obtain ds where ds: "parent_chain (parent_of p) [] = Some (rev ds)" "linked ds p"
    using parent_chain_relative [OF assms(2), of "[]"] by auto
  from ds(1) have "ensure_parents p m r s = Inr (fold (ensure_directory m r) (rev ds) s)"
    by (simp add: ensure_parents_def)
  with ensure_chain_ok [OF assms(1) ds(2), of m r] that show ?thesis by blast
qed

section \<open>The steps keep the tree invariant\<close>

lemma tree_inv_groups_update [simp]: "tree_inv (s\<lparr>groups := g\<rparr>) = tree_inv s"
  by (simp add: tree_inv_def is_directory_def)

lemma tree_inv_pending_update [simp]: "tree_inv (s\<lparr>pending_by_target := g\<rparr>) = tree_inv s"
  by (simp add: tree_inv_def is_directory_def)

lemma cleared_updates [simp]:
  "cleared (s\<lparr>groups := g\<rparr>) p = cleared s p"
  "cleared (s\<lparr>pending_by_target := h\<rparr>) p = cleared s p"
  by (simp_all add: cleared_def)

lemma is_directory_updates [simp]:
  "is_directory (s\<lparr>groups := g\<rparr>) p = is_directory s p"
  "is_directory (s\<lparr>pending_by_target := h\<rparr>) p = is_directory s p"
  by (simp_all add: is_directory_def)

lemma resolve_forward_tree_inv: "tree_inv s \<Longrightarrow> tree_inv (resolve_forward p g s)"
proof -
  have "tree_inv (fold (resolve_link p g) ws s)" if "tree_inv s" for ws and s :: "'a nstate"
    using that
  proof (induction ws arbitrary: s)
    case (Cons w ws)
    have "tree_inv (resolve_link p g w s)"
      using Cons.prems by (auto simp: resolve_link_def update_same_kind_tree_inv split: option.splits)
    with Cons.IH show ?case by simp
  qed simp
  then show "tree_inv s \<Longrightarrow> tree_inv (resolve_forward p g s)"
    by (simp add: resolve_forward_def Let_def)
qed

text \<open>A path with its parents present and nothing below it.\<close>

definition placeable :: "'p nstate \<Rightarrow> ustr \<Rightarrow> bool" where
  "placeable s p \<longleftrightarrow> tree_inv s \<and> relative p \<and>
     (\<forall>d. parent_of p = Some d \<longrightarrow> d \<noteq> dot \<longrightarrow> is_directory s d)"

lemma placeable_set_node:
  "placeable s p \<Longrightarrow> k \<and> node_kind n = DIRECTORY \<or> cleared s p \<Longrightarrow> tree_inv (set_node p n k s)"
  by (auto simp: placeable_def intro: set_node_tree_inv)

lemma placeable_purge:
  "placeable s p \<Longrightarrow> placeable (purge_subtree p r s) p \<and> cleared (purge_subtree p r s) p"
  unfolding placeable_def
  by (auto intro!: purge_subtree_tree_inv purge_subtree_cleared purge_subtree_keeps_directory
      dest: parent_not_below parent_neq)

lemma placeable_updates [simp]:
  "placeable (s\<lparr>groups := g\<rparr>) p = placeable s p"
  "placeable (s\<lparr>pending_by_target := h\<rparr>) p = placeable s p"
  by (simp_all add: placeable_def)

lemma ensure_or_root:
  assumes "tree_inv s" and "relative p"
  obtains s' where "(if p \<noteq> dot then ensure_parents p m r s else Inr s) = Inr s'" and "placeable s' p"
proof (cases "p = dot")
  case True
  with assms that [of s] show ?thesis by (auto simp: placeable_def)
next
  case False
  obtain s' where "ensure_parents p m r s = Inr s'" and "placeable s' p"
    using ensure_parents_ok [OF assms, of m r] assms(2) unfolding placeable_def by metis
  with False that show ?thesis by auto
qed

text \<open>What a step returns when it does not raise.\<close>

definition good :: "cs_error + 'p nstate \<Rightarrow> bool" where
  "good r \<longleftrightarrow> r \<noteq> Inl Diverges \<and> (\<forall>s. r = Inr s \<longrightarrow> tree_inv s)"

lemma good_simps [simp]:
  "good (Inl e) \<longleftrightarrow> e \<noteq> Diverges"
  "good (Inr s) \<longleftrightarrow> tree_inv s"
  by (auto simp: good_def)

lemma dirname_or_dot_relative:
  assumes "relative p"
  shows "relative (dirname_or_dot p)"
  using dirname_shorter [OF assms] by (auto simp: dirname_or_dot_def Let_def)

lemma step_opaque_good:
  assumes "tree_inv s" and "relative (m_path m)"
  shows "good (step_opaque m s)"
proof (cases "invalid_marker m")
  case False
  let ?p = "dirname_or_dot (m_path m)"
  obtain s1 where s1: "(if ?p \<noteq> dot then ensure_parents ?p m False s else Inr s) = Inr s1" "placeable s1 ?p"
    using ensure_or_root [OF assms(1) dirname_or_dot_relative [OF assms(2)]] .
  let ?n = "(make_node (synthetic_directory ?p 0 (m_ordinal m)) DIRECTORY)
              \<lparr>node_opaque_placeholder := (?p \<noteq> dot), node_synthetic := True\<rparr>"
  let ?s2 = "if is_directory s1 ?p then s1 else set_node ?p ?n True (purge_subtree ?p True s1)"
  have inv2: "tree_inv ?s2"
    using s1(2) placeable_purge [OF s1(2)] by (auto simp: placeable_def intro: placeable_set_node)
  have "step_opaque m s = (case nodes ?s2 ?p of None \<Rightarrow> Inr ?s2
      | Some c \<Rightarrow> Inr (?s2\<lparr>table := AList.update ?p (c\<lparr>node_opaque := True\<rparr>) (table ?s2)\<rparr>))"
    using False s1(1) by (simp add: step_opaque_def Let_def)
  with inv2 show ?thesis
    by (auto split: option.splits intro: update_same_kind_tree_inv)
qed (simp add: step_opaque_def)

lemma os_join_relative: "relative p \<Longrightarrow> relative q \<Longrightarrow> relative (os_join p q)"
  by (auto simp: os_join_def relative_def)

lemma whiteout_target_relative:
  assumes "remove_prefix (os_basename p) pre \<noteq> []"
  shows "relative (remove_prefix (os_basename p) pre)"
proof -
  have "set (remove_prefix (os_basename p) pre) \<subseteq> set (os_basename p)"
    by (auto simp: remove_prefix_def dest: in_set_dropD)
  moreover have "slash \<notin> set (os_basename p)"
    by (auto simp: os_basename_def dest: set_takeWhileD)
  ultimately show ?thesis
    using assms by (metis hd_in_set relative_def subset_code(1))
qed

lemma step_whiteout_good:
  assumes "tree_inv s" and "relative (m_path m)"
  shows "good (step_whiteout m s)"
proof -
  let ?n = "remove_prefix (os_basename (m_path m)) whiteout_prefix" and ?d = "dirname_or_dot (m_path m)"
  let ?t = "if ?d \<noteq> dot then os_join ?d ?n else ?n"
  show ?thesis
  proof (cases "?n = [] \<or> ?n = dot \<or> ?n = ul ''..'' \<or> starts_with ?n whiteout_prefix \<or> invalid_marker m")
    case True
    then show ?thesis by (auto simp: step_whiteout_def Let_def)
  next
    case False
    then have "relative ?t"
      using assms(2) by (auto intro: os_join_relative whiteout_target_relative dirname_or_dot_relative)
    then obtain s1 where s1: "ensure_parents ?t m False s = Inr s1" "placeable s1 ?t"
      using ensure_parents_ok [OF assms(1), of ?t m False] unfolding placeable_def by metis
    from False s1(1) have "step_whiteout m s =
        rbind (member_post_init (m\<lparr>m_path := ?t, m_kind := WHITEOUT, m_mode := 384, m_uid := 0, m_gid := 0,
                          m_link_target := [], m_device_major := 0, m_device_minor := 0,
                          m_xattrs := [], m_payload := None\<rparr>))
          (\<lambda>w. Inr (set_node ?t (make_node w WHITEOUT) False (purge_subtree ?t True s1)))"
      by (simp only: step_whiteout_def Let_def rbind_simps if_False HOL.simp_thms) simp
    moreover have "tree_inv (set_node ?t nd False (purge_subtree ?t True s1))" for nd
      using placeable_purge [OF s1(2)] by (blast intro: placeable_set_node)
    moreover have "member_post_init w \<noteq> Inl Diverges" for w :: "'a changeset_member"
      by (simp add: member_post_init_def)
    ultimately show ?thesis
      by (auto simp: good_def res_simps)
  qed
qed

lemma step_hardlink_good:
  assumes "placeable s (m_path m)" and "cleared s (m_path m)"
  shows "good (step_hardlink m s)"
  using assms by (auto simp: step_hardlink_def Let_def intro!: placeable_set_node split: option.splits)

lemma step_member_good:
  assumes "tree_inv s" and "relative (m_path m)"
  shows "good (step_member m s)"
proof -
  obtain s1 where s1: "(if m_path m \<noteq> dot then ensure_parents (m_path m) m True s else Inr s) = Inr s1"
    and pl: "placeable s1 (m_path m)"
    using ensure_or_root [OF assms] .
  show ?thesis
  proof (cases "m_kind m = DIRECTORY")
    case True
    with s1 pl show ?thesis
      by (auto simp: step_member_def Let_def step_other_def make_node_def intro!: placeable_set_node)
  next
    case False
    let ?s2 = "purge_subtree (m_path m) False s1"
    have pl2: "placeable ?s2 (m_path m)" "cleared ?s2 (m_path m)"
      using placeable_purge [OF pl] by auto
    then have sn: "tree_inv (set_node (m_path m) n k ?s2)" for n k
      by (blast intro: placeable_set_node)
    have "good (Inr (step_file m ?s2))"
      using pl2 by (auto simp: step_file_def Let_def intro!: resolve_forward_tree_inv placeable_set_node)
    with False s1 pl2 sn show ?thesis
      by (cases "m_kind m") (auto simp: step_member_def Let_def step_other_def intro!: step_hardlink_good)
  qed
qed

lemma step_good:
  assumes "tree_inv s" and "relative (m_path m)"
  shows "good (step s m)"
  using assms by (simp add: step_def Let_def step_opaque_good step_whiteout_good step_member_good)

lemma steps_good:
  assumes "tree_inv s" and "\<forall>m \<in> set ms. relative (m_path m)"
  shows "good (rfold step s ms)"
  using assms
proof (induction ms arbitrary: s)
  case (Cons m ms)
  then have "good (step s m)" by (simp add: step_good)
  with Cons show ?case by (cases "step s m") auto
qed simp

end
