(* ===== verification/Changeset_Final.thy ===== *)
theory Changeset_Final imports Main Changeset_Steps "HOL-Library.Multiset" begin

text \<open>
  The second half of \<open>normalize_changeset\<close>: hardlink groups, carriers and the
  emission order. The node invariant says which nodes carry a payload group, a pending
  target or the opaque flag; under it no entry of the final table is rejected and two
  passes of the emission loop are enough.
\<close>

section \<open>The node invariant\<close>

definition valid_member :: "'p changeset_member \<Rightarrow> bool" where
  "valid_member m \<longleftrightarrow> member_post_init m = Inr m"

lemma valid_member_payload: "valid_member m \<Longrightarrow> m_kind m = FILE \<longleftrightarrow> m_payload m \<noteq> None"
  by (auto simp: valid_member_def member_post_init_def split: if_splits)

definition node_ok :: "(int \<rightharpoonup> 'p changeset_member) \<Rightarrow> 'p node \<Rightarrow> bool" where
  "node_ok G n \<longleftrightarrow>
     (case node_group_id n of
        None \<Rightarrow> node_kind n \<noteq> FILE \<and> (node_kind n = HARDLINK \<longrightarrow> node_pending_target n \<noteq> None)
      | Some g \<Rightarrow> node_kind n \<in> {FILE, HARDLINK} \<and> (\<exists>src. G g = Some src \<and> m_payload src \<noteq> None)) \<and>
     (node_opaque n \<longrightarrow> node_kind n = DIRECTORY) \<and>
     (node_pending_target n \<noteq> None \<longrightarrow> node_kind n = HARDLINK)"

definition nodes_ok :: "'p nstate \<Rightarrow> bool" where
  "nodes_ok s \<longleftrightarrow> distinct (dkeys (table s)) \<and> (\<forall>p n. nodes s p = Some n \<longrightarrow> node_ok (map_of (groups s)) n)"

lemma node_ok_mono:
  "node_ok G n \<Longrightarrow> m_payload m \<noteq> None \<Longrightarrow> node_ok (G(g \<mapsto> m)) n"
  by (auto simp: node_ok_def split: option.splits if_splits)

lemma distinct_table_purge_loop:
  "distinct (dkeys (table s)) \<Longrightarrow> distinct (dkeys (table (purge_loop pd s)))"
proof (induction pd s rule: purge_loop.induct)
  case (1 pd s)
  then show ?case
    by (subst purge_loop.simps) (simp add: Let_def table_remove_exact)
qed

lemma distinct_table_purge_subtree:
  "distinct (dkeys (table s)) \<Longrightarrow> distinct (dkeys (table (purge_subtree p r s)))"
  by (simp add: purge_subtree_def Let_def table_remove_exact distinct_table_purge_loop)

lemma nodes_ok_purge: "nodes_ok s \<Longrightarrow> nodes_ok (purge_subtree p r s)"
  by (auto simp: nodes_ok_def distinct_table_purge_subtree nodes_purge_subtree split: if_splits)

lemma nodes_ok_set_node:
  "nodes_ok s \<Longrightarrow> node_ok (map_of (groups s)) n \<Longrightarrow> nodes_ok (set_node p n k s)"
  by (auto simp: nodes_ok_def tables set_node_def Let_def table_remove_exact distinct_update dict_simps)

lemma nodes_ok_update:
  "nodes_ok s \<Longrightarrow> node_ok (map_of (groups s)) n \<Longrightarrow> nodes_ok (s\<lparr>table := AList.update p n (table s)\<rparr>)"
  by (auto simp: nodes_ok_def distinct_update dict_simps)

lemma nodes_ok_pending [simp]: "nodes_ok (s\<lparr>pending_by_target := h\<rparr>) = nodes_ok s"
  by (simp add: nodes_ok_def)

lemma nodes_ok_lookup: "nodes_ok s \<Longrightarrow> nodes s p = Some n \<Longrightarrow> node_ok (map_of (groups s)) n"
  by (auto simp: nodes_ok_def)

lemma nodes_ok_ensure_directory: "nodes_ok s \<Longrightarrow> nodes_ok (ensure_directory m r p s)"
  using nodes_ok_lookup [of s p]
  by (auto simp: ensure_directory_def Let_def make_node_def node_ok_def
      intro!: nodes_ok_set_node nodes_ok_purge nodes_ok_update split: option.splits)

lemma nodes_ok_ensure_parents: "ensure_parents p m r s = Inr s' \<Longrightarrow> nodes_ok s \<Longrightarrow> nodes_ok s'"
proof -
  have fold: "nodes_ok s \<Longrightarrow> nodes_ok (fold (ensure_directory m r) ds s)" for ds and s :: "'a nstate"
    by (induction ds arbitrary: s) (auto simp: nodes_ok_ensure_directory)
  show "ensure_parents p m r s = Inr s' \<Longrightarrow> nodes_ok s \<Longrightarrow> nodes_ok s'"
    by (auto simp: ensure_parents_def fold split: option.splits)
qed

lemma groups_ensure_parents: "ensure_parents p m r s = Inr s' \<Longrightarrow> groups s' = groups s"
proof -
  have dir: "groups (ensure_directory m r d s) = groups s" for d and s :: "'a nstate"
    by (simp add: ensure_directory_def Let_def split: option.splits)
  have "groups (fold (ensure_directory m r) ds s) = groups s" for ds and s :: "'a nstate"
    by (induction ds arbitrary: s) (auto simp: dir)
  then show "ensure_parents p m r s = Inr s' \<Longrightarrow> groups s' = groups s"
    by (auto simp: ensure_parents_def split: option.splits)
qed

lemma nodes_ok_resolve_forward:
  assumes "nodes_ok s" and "map_of (groups s) g = Some src" and "m_payload src \<noteq> None"
  shows "nodes_ok (resolve_forward p g s)"
proof -
  have link: "nodes_ok (resolve_link p g w s) \<and> groups (resolve_link p g w s) = groups s"
    if "nodes_ok s" "map_of (groups s) g = Some src" for w and s :: "'a nstate"
    using that assms(3) nodes_ok_lookup [OF that(1), of w]
    by (auto simp: resolve_link_def node_ok_def intro!: nodes_ok_update split: option.splits)
  have "nodes_ok (fold (resolve_link p g) ws s)"
    if "nodes_ok s" "map_of (groups s) g = Some src" for ws and s :: "'a nstate"
    using that by (induction ws arbitrary: s) (auto simp: link)
  with assms show ?thesis by (simp add: resolve_forward_def Let_def)
qed

lemma nodes_ok_step_file:
  assumes "nodes_ok s" and "m_payload m \<noteq> None"
  shows "nodes_ok (step_file m s)"
proof -
  let ?s1 = "s\<lparr>groups := AList.update (m_ordinal m) m (groups s)\<rparr>"
  have "nodes_ok ?s1"
    using assms by (auto simp: nodes_ok_def dict_simps intro: node_ok_mono)
  then show ?thesis
    using assms(2) unfolding step_file_def Let_def
    by (intro nodes_ok_resolve_forward [of _ _ m] nodes_ok_set_node)
      (auto simp: node_ok_def make_node_def dict_simps)
qed

lemma nodes_ok_step_hardlink: "step_hardlink m s = Inr s' \<Longrightarrow> nodes_ok s \<Longrightarrow> nodes_ok s'"
  by (auto simp: step_hardlink_def Let_def node_ok_def make_node_def
      intro!: nodes_ok_set_node dest: nodes_ok_lookup split: option.splits if_splits)

lemma nodes_ok_step_other:
  "nodes_ok s \<Longrightarrow> m_kind m \<noteq> FILE \<Longrightarrow> m_kind m \<noteq> HARDLINK \<Longrightarrow> (pre \<longrightarrow> m_kind m = DIRECTORY)
     \<Longrightarrow> nodes_ok (step_other m pre s)"
  by (auto simp: step_other_def node_ok_def make_node_def intro!: nodes_ok_set_node)

lemma nodes_ok_step:
  assumes "step s m = Inr s'" and "nodes_ok s" and "valid_member m"
  shows "nodes_ok s'"
proof -
  consider "step_opaque m s = Inr s'" | "step_whiteout m s = Inr s'" | "step_member m s = Inr s'"
    using assms(1) by (auto simp: step_def Let_def split: if_splits)
  then show ?thesis
  proof cases
    case 1
    let ?p = "dirname_or_dot (m_path m)"
    let ?n = "(make_node (synthetic_directory ?p 0 (m_ordinal m)) DIRECTORY)
                \<lparr>node_opaque_placeholder := (?p \<noteq> dot), node_synthetic := True\<rparr>"
    from 1 obtain s1 where s1: "(if ?p \<noteq> dot then ensure_parents ?p m False s else Inr s) = Inr s1"
      by (auto simp: step_opaque_def Let_def res_simps)
    with assms(2) have ok1: "nodes_ok s1" by (auto dest: nodes_ok_ensure_parents split: if_splits)
    let ?s2 = "if is_directory s1 ?p then s1 else set_node ?p ?n True (purge_subtree ?p True s1)"
    have ok2: "nodes_ok ?s2"
      using ok1 by (auto simp: node_ok_def make_node_def intro!: nodes_ok_set_node nodes_ok_purge)
    have dir: "is_directory ?s2 ?p"
      by (auto simp: is_directory_iff tables make_node_def)
    then obtain c where c: "nodes ?s2 ?p = Some c" "node_kind c = DIRECTORY"
      by (auto simp: is_directory_iff)
    with 1 s1 have "s' = ?s2\<lparr>table := AList.update ?p (c\<lparr>node_opaque := True\<rparr>) (table ?s2)\<rparr>"
      by (auto simp: step_opaque_def Let_def split: if_splits)
    moreover have "node_ok (map_of (groups ?s2)) (c\<lparr>node_opaque := True\<rparr>)"
      using nodes_ok_lookup [OF ok2 c(1)] c(2) by (auto simp: node_ok_def split: option.splits)
    ultimately show ?thesis
      using ok2 by (simp only: nodes_ok_update)
  next
    case 2
    then show ?thesis
      using assms(2) unfolding step_whiteout_def Let_def
      by (auto simp: res_simps node_ok_def make_node_def intro!: nodes_ok_set_node nodes_ok_purge
          dest!: nodes_ok_ensure_parents split: if_splits)
  next
    case 3
    then obtain s1 where s1: "(if m_path m \<noteq> dot then ensure_parents (m_path m) m True s else Inr s) = Inr s1"
      by (auto simp: step_member_def Let_def res_simps)
    with assms(2) have ok1: "nodes_ok s1" by (auto dest: nodes_ok_ensure_parents split: if_splits)
    note ok2 = nodes_ok_purge [OF ok1, of "m_path m" False]
    have pay: "m_kind m = FILE \<Longrightarrow> m_payload m \<noteq> None"
      using valid_member_payload [OF assms(3)] by simp
    from 3 s1 ok1 ok2 pay show ?thesis
      by (cases "m_kind m")
        (auto simp: step_member_def Let_def nodes_ok_step_file intro!: nodes_ok_step_other dest: nodes_ok_step_hardlink)
  qed
qed

lemma nodes_ok_empty: "nodes_ok empty_nstate"
  by (simp add: nodes_ok_def empty_nstate_def)

lemma nodes_ok_steps:
  "rfold step s ms = Inr s' \<Longrightarrow> nodes_ok s \<Longrightarrow> \<forall>m \<in> set ms. valid_member m \<Longrightarrow> nodes_ok s'"
  by (erule rfold_invariant [where P = nodes_ok]) (auto intro: nodes_ok_step)

section \<open>The emission order\<close>

text \<open>
  \<open>resolvable\<close>: every hardlink of the entry table points at an entry that is not a
  hardlink. \<open>ordered_ok\<close>: in an emitted list every hardlink stands after its target.
\<close>

definition is_link :: "(ustr \<times> 'p normalized_entry) list \<Rightarrow> ustr \<Rightarrow> bool" where
  "is_link nz p \<longleftrightarrow> (\<exists>e. map_of nz p = Some e \<and> e_kind e = HARDLINK)"

definition link_of :: "(ustr \<times> 'p normalized_entry) list \<Rightarrow> ustr \<Rightarrow> ustr" where
  "link_of nz p = (case map_of nz p of None \<Rightarrow> [] | Some e \<Rightarrow> e_link_target e)"

definition resolvable :: "(ustr \<times> 'p normalized_entry) list \<Rightarrow> bool" where
  "resolvable nz \<longleftrightarrow> (\<forall>p. is_link nz p \<longrightarrow> link_of nz p \<in> set (dkeys nz) \<and> \<not> is_link nz (link_of nz p))"

definition ordered_ok :: "(ustr \<times> 'p normalized_entry) list \<Rightarrow> ustr list \<Rightarrow> bool" where
  "ordered_ok nz os \<longleftrightarrow> (\<forall>i < length os. is_link nz (os ! i) \<longrightarrow> link_of nz (os ! i) \<in> set (take i os))"

lemma ordered_ok_snoc:
  "ordered_ok nz (os @ [p]) \<longleftrightarrow> ordered_ok nz os \<and> (is_link nz p \<longrightarrow> link_of nz p \<in> set os)"
  by (auto simp: ordered_ok_def nth_append less_Suc_eq)

lemma emit_pass_mset:
  "set rest \<subseteq> set (dkeys nz) \<Longrightarrow> emit_pass nz rest os ds = (os', ds') \<Longrightarrow>
   mset os' + mset ds' = mset os + mset ds + mset rest"
  by (induction nz rest os ds rule: emit_pass.induct)
    (auto split: option.splits if_splits simp: map_of_eq_None_iff)

lemma emit_pass_ordered:
  "emit_pass nz rest os ds = (os', ds') \<Longrightarrow> ordered_ok nz os \<Longrightarrow> ordered_ok nz os'"
  by (induction nz rest os ds rule: emit_pass.induct)
    (auto simp: ordered_ok_snoc is_link_def link_of_def split: option.splits if_splits)

lemma emit_pass_deferred_links:
  "emit_pass nz rest os ds = (os', ds') \<Longrightarrow> \<forall>p \<in> set ds. is_link nz p \<Longrightarrow> \<forall>p \<in> set ds'. is_link nz p"
  by (induction nz rest os ds rule: emit_pass.induct)
    (auto simp: is_link_def split: option.splits if_splits)

lemma emit_pass_no_deferral:
  "emit_pass nz rest os ds = (os', ds') \<Longrightarrow> \<forall>p \<in> set rest. is_link nz p \<longrightarrow> link_of nz p \<in> set os \<Longrightarrow> ds' = ds"
  by (induction nz rest os ds rule: emit_pass.induct)
    (auto simp: is_link_def link_of_def split: option.splits if_splits)

lemmas emit_pass_spec = emit_pass_mset emit_pass_ordered emit_pass_deferred_links emit_pass_no_deferral

lemma emit_order_second:
  assumes "set rest \<subseteq> set (dkeys nz)" and "ordered_ok nz os"
    and "\<forall>p \<in> set rest. is_link nz p \<longrightarrow> link_of nz p \<in> set os"
  obtains os' where "emit_order nz rest os = Inr os'" and "mset os' = mset os + mset rest" and "ordered_ok nz os'"
proof (cases "rest = []")
  case True
  with assms(2) that [of os] show ?thesis by (simp add: emit_order.simps)
next
  case False
  obtain os' ds' where p: "emit_pass nz rest os [] = (os', ds')" by fastforce
  have "ds' = []" using emit_pass_no_deferral [OF p assms(3)] .
  moreover have "mset os' + mset ds' = mset os + mset rest" using emit_pass_mset [OF assms(1) p] by simp
  moreover have "ordered_ok nz os'" using emit_pass_ordered [OF p assms(2)] .
  ultimately have "ds' = []" "mset os' = mset os + mset rest" "ordered_ok nz os'" by auto
  with False p that [of os'] show ?thesis
    by (simp add: emit_order.simps [of nz rest] emit_order.simps [of nz "[]"])
qed

lemma emit_order_resolvable:
  assumes res: "resolvable nz" and rest: "set rest = set (dkeys nz)"
  obtains os where "emit_order nz rest [] = Inr os" and "mset os = mset rest" and "ordered_ok nz os"
proof (cases "rest = []")
  case True
  with that [of "[]"] show ?thesis by (simp add: emit_order.simps ordered_ok_def)
next
  case False
  obtain os ds where p: "emit_pass nz rest [] [] = (os, ds)" by fastforce
  have perm: "mset os + mset ds = mset rest" using emit_pass_mset [OF _ p] rest by simp
  have ord: "ordered_ok nz os" using emit_pass_ordered [OF p] by (simp add: ordered_ok_def)
  have links: "\<forall>q \<in> set ds. is_link nz q" using emit_pass_deferred_links [OF p] by simp
  have "set os \<union> set ds = set rest"
    using arg_cong [OF perm, of set_mset] by simp
  then have targets: "\<forall>q \<in> set ds. is_link nz q \<longrightarrow> link_of nz q \<in> set os"
    and sub: "set ds \<subseteq> set (dkeys nz)"
    using res rest links unfolding resolvable_def by blast+
  have "length ds \<noteq> length rest"
  proof
    assume "length ds = length rest"
    with arg_cong [OF perm, of size] have "os = []" by simp
    with targets links have "ds = []" by (cases ds) auto
    with \<open>os = []\<close> perm False show False by simp
  qed
  then have eq: "emit_order nz rest [] = emit_order nz ds os"
    using False p by (simp add: emit_order.simps [of nz rest])
  obtain os' where "emit_order nz ds os = Inr os'" "mset os' = mset os + mset ds" "ordered_ok nz os'"
    using emit_order_second [OF sub ord targets] .
  with eq perm that show ?thesis by simp
qed

section \<open>The entry table\<close>

definition entry_of :: "int \<Rightarrow> (int \<times> 'p changeset_member) list \<Rightarrow> (ustr \<times> 'p node) list \<Rightarrow> ustr \<times> 'p node \<Rightarrow> 'p normalized_entry" where
  "entry_of n grps t pn = (case normalize_node n grps t pn of Inr (p, e) \<Rightarrow> e | Inl _ \<Rightarrow> undefined)"

lemma map_of_in_dkeys: "map_of d k = Some v \<Longrightarrow> k \<in> set (dkeys d)"
  unfolding dom_map_of_keys [symmetric] by (rule domI)

lemma map_of_map_pair: "map_of (map (\<lambda>(p, n). (p, f (p, n))) t) p = map_option (\<lambda>n. f (p, n)) (map_of t p)"
  by (induction t) auto

lemma dkeys_map_pair: "dkeys (map (\<lambda>(p, n). (p, f (p, n))) t) = dkeys t"
  by (induction t) auto

lemma carrier_in_group:
  assumes "(p, n) \<in> set t" and "node_group_id n = Some g"
  obtains n' where "(carrier t g, n') \<in> set t" and "node_group_id n' = Some g"
proof -
  let ?r = "sort (map fst (filter (\<lambda>(p, n). node_group_id n = Some g \<and> node_kind n = FILE) t))"
  have "hd ?r \<in> set ?r" if "?r \<noteq> []" using that by (rule hd_in_set)
  moreover have "p \<in> set (sort (group_paths t g))"
    using assms by (force simp: group_paths_def)
  then have "sort (group_paths t g) \<noteq> []" by (metis empty_iff list.set(1))
  then have "hd (sort (group_paths t g)) \<in> set (sort (group_paths t g))" by (rule hd_in_set)
  ultimately have "carrier t g \<in> set (group_paths t g)"
    unfolding carrier_def Let_def by (auto simp: group_paths_def)
  with that show ?thesis by (auto simp: group_paths_def)
qed

lemma normalize_node_ok:
  assumes "node_ok (map_of grps) n" and "node_pending_target n = None"
  obtains e where "normalize_node k grps t (p, n) = Inr (p, e)" and "e_path e = p"
    and "e_kind e = (case node_group_id n of None \<Rightarrow> node_kind n
                     | Some g \<Rightarrow> if p = carrier t g then FILE else HARDLINK)"
    and "\<forall>g. node_group_id n = Some g \<longrightarrow> p \<noteq> carrier t g \<longrightarrow> e_link_target e = carrier t g"
    and "\<forall>g. node_group_id n = Some g \<longrightarrow> p = carrier t g \<longrightarrow> e_payload e \<noteq> None"
proof -
  have op: "\<not> (node_opaque n \<and> node_kind n \<noteq> DIRECTORY)" using assms(1) by (auto simp: node_ok_def)
  show ?thesis
  proof (cases "node_group_id n")
    case None
    with op that show ?thesis unfolding normalize_node_def Let_def by simp
  next
    case (Some g)
    with assms(1) obtain src y where "map_of grps g = Some src" "m_payload src = Some y"
      by (auto simp: node_ok_def)
    with op Some that show ?thesis
      unfolding normalize_node_def Let_def by (cases "p = carrier t g") simp_all
  qed
qed

text \<open>Hardlink entries of the final table are exactly the group members other than the carrier.\<close>

lemma normalize_table:
  assumes dist: "distinct (dkeys t)"
    and ok: "\<forall>(p, n) \<in> set t. node_ok (map_of grps) n \<and> node_pending_target n = None"
  obtains nz where "rmap (normalize_node k grps t) t = Inr nz"
    and "dkeys nz = dkeys t"
    and "\<forall>(p, e) \<in> set nz. e_path e = p"
    and "resolvable nz"
    and "\<forall>p n e. map_of t p = Some n \<longrightarrow> map_of nz p = Some e \<longrightarrow> (e_kind e = DIRECTORY \<longleftrightarrow> node_kind n = DIRECTORY)"
    and "\<forall>p e. map_of nz p = Some e \<longrightarrow> e_kind e = HARDLINK \<longrightarrow>
           (\<exists>c. map_of nz (e_link_target e) = Some c \<and> e_kind c = FILE \<and> e_payload c \<noteq> None)"
proof -
  let ?E = "entry_of k grps t"
  have one: "normalize_node k grps t (p, n) = Inr (p, ?E (p, n)) \<and> e_path (?E (p, n)) = p \<and>
      e_kind (?E (p, n)) = (case node_group_id n of None \<Rightarrow> node_kind n
                     | Some g \<Rightarrow> if p = carrier t g then FILE else HARDLINK) \<and>
      (\<forall>g. node_group_id n = Some g \<longrightarrow> p \<noteq> carrier t g \<longrightarrow> e_link_target (?E (p, n)) = carrier t g) \<and>
      (\<forall>g. node_group_id n = Some g \<longrightarrow> p = carrier t g \<longrightarrow> e_payload (?E (p, n)) \<noteq> None)"
    if "(p, n) \<in> set t" for p n
  proof -
    from ok that have "node_ok (map_of grps) n" "node_pending_target n = None" by auto
    then obtain e where e: "normalize_node k grps t (p, n) = Inr (p, e)" "e_path e = p"
      "e_kind e = (case node_group_id n of None \<Rightarrow> node_kind n
                     | Some g \<Rightarrow> if p = carrier t g then FILE else HARDLINK)"
      "\<forall>g. node_group_id n = Some g \<longrightarrow> p \<noteq> carrier t g \<longrightarrow> e_link_target e = carrier t g"
      "\<forall>g. node_group_id n = Some g \<longrightarrow> p = carrier t g \<longrightarrow> e_payload e \<noteq> None"
      by (rule normalize_node_ok)
    from e(1) have E: "?E (p, n) = e" by (simp add: entry_of_def)
    show ?thesis unfolding E using e by blast
  qed
  let ?nz = "map (\<lambda>(p, n). (p, ?E (p, n))) t"
  have "rmap (normalize_node k grps t) xs = Inr (map (\<lambda>(p, n). (p, ?E (p, n))) xs)"
    if "set xs \<subseteq> set t" for xs
    using that one by (induction xs) auto
  then have rm: "rmap (normalize_node k grps t) t = Inr ?nz" by simp
  have keys: "dkeys ?nz = dkeys t" by (rule dkeys_map_pair)
  have look: "map_of ?nz p = map_option (\<lambda>n. ?E (p, n)) (map_of t p)" for p
    by (rule map_of_map_pair)
  have src: "\<exists>n. (p, n) \<in> set t \<and> map_of t p = Some n \<and> e = ?E (p, n)" if "map_of ?nz p = Some e" for p e
    using that look [of p] by (auto dest: map_of_SomeD)
  have link: "\<exists>c. map_of ?nz (e_link_target e) = Some c \<and> e_kind c = FILE \<and> e_payload c \<noteq> None"
    if e: "map_of ?nz p = Some e" and h: "e_kind e = HARDLINK" for p e
  proof -
    obtain n where n: "(p, n) \<in> set t" "e = ?E (p, n)" using src [OF e] by blast
    with ok have nok: "node_ok (map_of grps) n" "node_pending_target n = None" by auto
    have "node_group_id n \<noteq> None"
    proof
      assume none: "node_group_id n = None"
      with one [OF n(1)] n(2) h have "node_kind n = HARDLINK" by simp
      with nok none show False by (simp add: node_ok_def)
    qed
    then obtain g where g0: "node_group_id n = Some g" by blast
    with one [OF n(1)] n(2) h have "p \<noteq> carrier t g" by auto
    note g = g0 this
    obtain n' where n': "(carrier t g, n') \<in> set t" "node_group_id n' = Some g"
      using carrier_in_group [OF n(1) g(1)] .
    from n' dist have "map_of t (carrier t g) = Some n'" by simp
    with one [OF n'(1)] one [OF n(1)] n(2) n'(2) g look [of "carrier t g"] show ?thesis by auto
  qed
  have "resolvable ?nz"
    unfolding resolvable_def
  proof (intro allI impI)
    fix p assume "is_link ?nz p"
    then obtain e where e: "map_of ?nz p = Some e" "e_kind e = HARDLINK" by (auto simp: is_link_def)
    from link [OF e] obtain c where "map_of ?nz (link_of ?nz p) = Some c" "e_kind c = FILE"
      using e(1) by (auto simp: link_of_def)
    moreover from this(1) have "link_of ?nz p \<in> set (dkeys ?nz)"
      by (rule map_of_in_dkeys)
    ultimately show "link_of ?nz p \<in> set (dkeys ?nz) \<and> \<not> is_link ?nz (link_of ?nz p)"
      by (auto simp: is_link_def)
  qed
  moreover have "\<forall>p n e. map_of t p = Some n \<longrightarrow> map_of ?nz p = Some e \<longrightarrow> (e_kind e = DIRECTORY \<longleftrightarrow> node_kind n = DIRECTORY)"
  proof (intro allI impI)
    fix p n e assume n: "map_of t p = Some n" and e: "map_of ?nz p = Some e"
    from n have m: "(p, n) \<in> set t" by (rule map_of_SomeD)
    with ok have "node_ok (map_of grps) n" by auto
    moreover from look [of p] n e have "e = ?E (p, n)" by simp
    ultimately show "e_kind e = DIRECTORY \<longleftrightarrow> node_kind n = DIRECTORY"
      using one [OF m] by (cases "node_group_id n") (auto simp: node_ok_def)
  qed
  moreover have "\<forall>(p, e) \<in> set ?nz. e_path e = p"
    using one by auto
  moreover have "\<forall>p e. map_of ?nz p = Some e \<longrightarrow> e_kind e = HARDLINK \<longrightarrow>
           (\<exists>c. map_of ?nz (e_link_target e) = Some c \<and> e_kind c = FILE \<and> e_payload c \<noteq> None)"
    using link by blast
  ultimately show ?thesis
    using that [OF rm keys] by blast
qed

end
