(* ===== verification/Changeset_Props.thy ===== *)
theory Changeset_Props imports Main Changeset_Final begin

text \<open>
  What \<open>normalize_changeset\<close> promises of its result: a tree, resolved hardlinks in
  link order, no other exception than the documented ones; and an input on which it
  departs from its documentation.
\<close>

section \<open>From the final state to the entries\<close>

lemma nodes_add_root: "map_of (add_root n t) p =
    (if p = dot \<and> map_of t dot = None
     then Some ((make_node (synthetic_directory dot 0 n) DIRECTORY)\<lparr>node_synthetic := True\<rparr>) else map_of t p)"
  by (simp add: add_root_def dict_simps)

lemma distinct_add_root: "distinct (dkeys t) \<Longrightarrow> distinct (dkeys (add_root n t))"
  by (simp add: add_root_def distinct_update)

lemma node_ok_root: "node_ok G ((make_node (synthetic_directory p k n) DIRECTORY)\<lparr>node_synthetic := True\<rparr>)"
  by (simp add: node_ok_def make_node_def)

lemma map_filter_entries:
  assumes "\<forall>(p, e) \<in> set nz. e_path e = p" and "set os \<subseteq> set (dkeys nz)"
  shows "map e_path (List.map_filter (map_of nz) os) = os"
    and "List.map_filter (map_of nz) os = map (\<lambda>p. the (map_of nz p)) os"
proof -
  have *: "\<exists>e. map_of nz p = Some e \<and> e_path e = p" if "p \<in> set os" for p
  proof -
    from that assms(2) have "map_of nz p \<noteq> None" by (auto simp: map_of_eq_None_iff)
    then obtain e where "map_of nz p = Some e" by blast
    moreover from map_of_SomeD [OF this] assms(1) have "e_path e = p" by auto
    ultimately show ?thesis by blast
  qed
  from * show "map e_path (List.map_filter (map_of nz) os) = os"
    and "List.map_filter (map_of nz) os = map (\<lambda>p. the (map_of nz p)) os"
    by (induction os) (fastforce simp: List.map_filter_simps)+
qed

text \<open>\<open>finish\<close> on a state that satisfies both invariants.\<close>

definition unresolved :: "'p nstate \<Rightarrow> bool" where
  "unresolved s \<longleftrightarrow> (\<exists>p n. nodes s p = Some n \<and> node_pending_target n \<noteq> None)"

lemma finish_unresolved:
  assumes "nodes_ok s"
  shows "(\<exists>(p, n) \<in> set (add_root k (table s)). node_pending_target n \<noteq> None) \<longleftrightarrow> unresolved s"
proof -
  have d: "distinct (dkeys (add_root k (table s)))"
    using assms by (simp add: nodes_ok_def distinct_add_root)
  have "(p, n) \<in> set (add_root k (table s)) \<longleftrightarrow> map_of (add_root k (table s)) p = Some n" for p n
    using d by (simp add: map_of_eq_Some_iff)
  then have "(\<exists>(p, n) \<in> set (add_root k (table s)). node_pending_target n \<noteq> None) \<longleftrightarrow>
      (\<exists>p n. map_of (add_root k (table s)) p = Some n \<and> node_pending_target n \<noteq> None)"
    by blast
  also have "\<dots> \<longleftrightarrow> unresolved s"
  proof
    assume "\<exists>p n. map_of (add_root k (table s)) p = Some n \<and> node_pending_target n \<noteq> None"
    then obtain p n where "map_of (add_root k (table s)) p = Some n" "node_pending_target n \<noteq> None" by blast
    then have "nodes s p = Some n \<and> node_pending_target n \<noteq> None"
      by (auto simp: nodes_add_root make_node_def split: if_splits)
    then show "unresolved s" unfolding unresolved_def by blast
  next
    assume "unresolved s"
    then obtain p n where pn: "nodes s p = Some n" "node_pending_target n \<noteq> None" unfolding unresolved_def by blast
    then have "map_of (add_root k (table s)) p = Some n" by (auto simp: nodes_add_root)
    with pn(2) show "\<exists>p n. map_of (add_root k (table s)) p = Some n \<and> node_pending_target n \<noteq> None" by blast
  qed
  finally show ?thesis .
qed

lemma finish_resolved:
  assumes ok: "nodes_ok s" and tree: "tree_inv s" and res: "\<not> unresolved s"
  obtains es where "finish k s = Inr es"
    and "distinct (map e_path es)" and "set (map e_path es) = insert dot (dom (nodes s))"
    and "\<And>i. i < length es \<Longrightarrow> e_kind (es ! i) = HARDLINK \<Longrightarrow>
            \<exists>j < i. e_path (es ! j) = e_link_target (es ! i) \<and> e_kind (es ! j) = FILE \<and> e_payload (es ! j) \<noteq> None"
    and "\<And>e n. e \<in> set es \<Longrightarrow> nodes s (e_path e) = Some n \<Longrightarrow> e_kind e = DIRECTORY \<longleftrightarrow> node_kind n = DIRECTORY"
proof -
  let ?t = "add_root k (table s)"
  have dist: "distinct (dkeys ?t)"
    using ok by (simp add: nodes_ok_def distinct_add_root)
  have tok: "\<forall>(p, n) \<in> set ?t. node_ok (map_of (groups s)) n \<and> node_pending_target n = None"
  proof (clarify, intro conjI)
    fix p n assume "(p, n) \<in> set ?t"
    with dist have m: "map_of ?t p = Some n" by simp
    then show "node_ok (map_of (groups s)) n"
      using nodes_ok_lookup [OF ok, of p n] by (auto simp: nodes_add_root node_ok_root split: if_splits)
    from m res show "node_pending_target n = None"
      by (auto simp: nodes_add_root make_node_def unresolved_def split: if_splits)
  qed
  then have nopend: "\<not> (\<exists>(p, n) \<in> set ?t. node_pending_target n \<noteq> None)" by auto
  obtain nz where nz: "rmap (normalize_node k (groups s) ?t) ?t = Inr nz" "dkeys nz = dkeys ?t"
      "\<forall>(p, e) \<in> set nz. e_path e = p" "resolvable nz"
      "\<forall>p n e. map_of ?t p = Some n \<longrightarrow> map_of nz p = Some e \<longrightarrow> (e_kind e = DIRECTORY \<longleftrightarrow> node_kind n = DIRECTORY)"
      "\<forall>p e. map_of nz p = Some e \<longrightarrow> e_kind e = HARDLINK \<longrightarrow>
           (\<exists>c. map_of nz (e_link_target e) = Some c \<and> e_kind c = FILE \<and> e_payload c \<noteq> None)"
    using normalize_table [OF dist tok] .
  obtain os where os: "emit_order nz (sort (dkeys nz)) [] = Inr os" "mset os = mset (sort (dkeys nz))" "ordered_ok nz os"
    using emit_order_resolvable [OF nz(4), of "sort (dkeys nz)"] by auto
  have sub: "set os = set (dkeys nz)" and dos: "distinct os"
    using os(2) dist nz(2) by (metis mset_eq_setD set_sort, metis distinct_sort mset_eq_imp_distinct_iff)
  let ?es = "List.map_filter (map_of nz) os"
  have paths: "map e_path ?es = os" and es: "?es = map (\<lambda>p. the (map_of nz p)) os"
    using map_filter_entries [OF nz(3)] sub by auto
  have look: "map_of nz (os ! i) = Some (?es ! i)" if "i < length os" for i
  proof -
    from that sub have "map_of nz (os ! i) \<noteq> None" by (auto simp: map_of_eq_None_iff)
    with that es show ?thesis by auto
  qed
  have len: "length ?es = length os" using es by (metis length_map)
  show ?thesis
  proof (rule that)
    show "finish k s = Inr ?es"
      using nopend nz(1) os(1) unfolding finish_def Let_def by simp
    show "distinct (map e_path ?es)" using paths dos by simp
    show "set (map e_path ?es) = insert dot (dom (nodes s))"
      unfolding paths sub nz(2) dom_map_of_keys [symmetric] by (auto simp: nodes_add_root split: if_splits)
    fix i assume i: "i < length ?es" and h: "e_kind (?es ! i) = HARDLINK"
    let ?tg = "e_link_target (?es ! i)"
    from look [of i] i len have "map_of nz (os ! i) = Some (?es ! i)" by simp
    with nz(6) h obtain c
      where c: "map_of nz ?tg = Some c" "e_kind c = FILE" "e_payload c \<noteq> None" by blast
    from os(3) i len look [of i] h have "?tg \<in> set (take i os)"
      by (auto simp: ordered_ok_def is_link_def link_of_def)
    then obtain j where j: "j < i" "os ! j = ?tg" by (auto simp: in_set_conv_nth)
    with look [of j] c i len have "?es ! j = c" by auto
    moreover have "e_path (?es ! j) = ?tg"
      using j i len paths by (metis nth_map order_less_trans)
    ultimately show "\<exists>j < i. e_path (?es ! j) = ?tg \<and> e_kind (?es ! j) = FILE \<and> e_payload (?es ! j) \<noteq> None"
      using j c by blast
  next
    fix e n assume "e \<in> set ?es" and n: "nodes s (e_path e) = Some n"
    then obtain i where i: "i < length os" "e = ?es ! i" using len by (auto simp: in_set_conv_nth)
    then have "e_path e = os ! i" using paths len by (metis nth_map)
    with look [OF i(1)] i(2) have "map_of nz (e_path e) = Some e" by simp
    moreover have "map_of ?t (e_path e) = Some n" using n by (auto simp: nodes_add_root)
    ultimately show "e_kind e = DIRECTORY \<longleftrightarrow> node_kind n = DIRECTORY" using nz(5) by blast
  qed
qed

lemma normalize_changeset_cases:
  assumes "normalize_changeset ms = Inr es" and "\<forall>m \<in> set ms. relative (m_path m) \<and> valid_member m"
  obtains s where "rfold step empty_nstate ms = Inr s" and "tree_inv s" and "nodes_ok s" and "\<not> unresolved s"
    and "finish (int (length ms)) s = Inr es"
proof -
  from assms(1) obtain s where s: "rfold step empty_nstate ms = Inr s" "finish (int (length ms)) s = Inr es"
    by (auto simp: normalize_changeset_def res_simps split: if_splits)
  have "tree_inv s" using steps_good [OF tree_inv_empty, of ms] assms(2) s(1) by (auto simp: good_def)
  moreover have ok: "nodes_ok s" using nodes_ok_steps [OF s(1) nodes_ok_empty] assms(2) by blast
  moreover have "\<not> unresolved s"
    using s(2) finish_unresolved [OF ok] by (auto simp: finish_def Let_def split: if_splits)
  ultimately show ?thesis using that s by blast
qed


section \<open>What a step leaves alone\<close>

text \<open>
  A bound link or payload node, one whose pending target is settled, is only ever
  removed, turned into a directory or a whiteout, or replaced by a member of its own path.
\<close>

definition leaves :: "'p nstate \<Rightarrow> ustr \<Rightarrow> 'p nstate \<Rightarrow> bool" where
  "leaves s p s' \<longleftrightarrow>
     (\<forall>n'. nodes s' p = Some n' \<longrightarrow> node_kind n' \<in> {FILE, HARDLINK} \<longrightarrow>
        (\<exists>n. nodes s p = Some n \<and> node_kind n \<in> {FILE, HARDLINK} \<and>
             (n' = n \<or> node_pending_target n \<noteq> None)))"

lemma leavesI:
  "(\<And>n'. nodes s' p = Some n' \<Longrightarrow> node_kind n' \<in> {FILE, HARDLINK} \<Longrightarrow> nodes s p = Some n') \<Longrightarrow> leaves s p s'"
  by (auto simp: leaves_def)

lemma leaves_refl: "leaves s p s"
  by (rule leavesI)

lemma leaves_trans:
  assumes "leaves s p s1" and "leaves s1 p s2"
  shows "leaves s p s2"
  unfolding leaves_def
proof (intro allI impI)
  fix n' assume "nodes s2 p = Some n'" "node_kind n' \<in> {FILE, HARDLINK}"
  with assms(2) obtain n1 where n1: "nodes s1 p = Some n1" "node_kind n1 \<in> {FILE, HARDLINK}"
      "n' = n1 \<or> node_pending_target n1 \<noteq> None" unfolding leaves_def by blast
  with assms(1) obtain n where n: "nodes s p = Some n" "node_kind n \<in> {FILE, HARDLINK}"
      "n1 = n \<or> node_pending_target n \<noteq> None" unfolding leaves_def by blast
  with n1(3) show "\<exists>n. nodes s p = Some n \<and> node_kind n \<in> {FILE, HARDLINK} \<and>
      (n' = n \<or> node_pending_target n \<noteq> None)" by blast
qed

lemma leaves_table: "leaves s p (s'\<lparr>pending_by_target := h\<rparr>) = leaves s p s'"
    "leaves s p (s'\<lparr>groups := g\<rparr>) = leaves s p s'"
    "leaves (s\<lparr>pending_by_target := h\<rparr>) p s' = leaves s p s'"
    "leaves (s\<lparr>groups := g\<rparr>) p s' = leaves s p s'"
  by (simp_all add: leaves_def)

lemma leaves_purge: "leaves s p (purge_subtree q r s)"
  by (rule leavesI) (simp add: nodes_purge_subtree split: if_splits)

lemma leaves_set_node:
  "p \<noteq> q \<or> node_kind n \<notin> {FILE, HARDLINK} \<Longrightarrow> leaves s p (set_node q n k s)"
  by (rule leavesI) (auto simp: tables split: if_splits)

lemma leaves_update:
  "p \<noteq> q \<or> node_kind n \<notin> {FILE, HARDLINK} \<Longrightarrow> leaves s p (s\<lparr>table := AList.update q n (table s)\<rparr>)"
  by (rule leavesI) (auto simp: dict_simps split: if_splits)

lemma leaves_ensure_directory: "leaves s p (ensure_directory m r d s)"
  unfolding ensure_directory_def Let_def
  by (auto simp: make_node_def split: option.splits
      intro!: leaves_refl leaves_update leaves_trans [OF leaves_purge leaves_set_node])

lemma leaves_ensure_chain: "leaves s p (fold (ensure_directory m r) ds s)"
  by (induction ds arbitrary: s) (auto intro: leaves_refl leaves_trans [OF leaves_ensure_directory])

lemma leaves_ensure_parents: "ensure_parents q m r s = Inr s' \<Longrightarrow> leaves s p s'"
  by (auto simp: ensure_parents_def leaves_ensure_chain split: option.splits)

lemma leaves_ensure_or_root:
  "(if c then ensure_parents q m r s else Inr s) = Inr s' \<Longrightarrow> leaves s p s'"
  by (auto intro: leaves_ensure_parents leaves_refl split: if_splits)

lemma leaves_resolve_link: "leaves s p (resolve_link t g q s)"
proof (cases "nodes s q")
  case (Some n)
  then show ?thesis
    by (cases "node_pending_target n = Some t") (auto simp: resolve_link_def leaves_def dict_simps)
qed (simp add: resolve_link_def leaves_refl)

lemma leaves_resolve_forward: "leaves s p (resolve_forward t g s)"
proof -
  have "leaves s p (fold (resolve_link t g) qs s)" for qs and s :: "'a nstate"
    by (induction qs arbitrary: s) (auto intro: leaves_refl leaves_trans [OF leaves_resolve_link])
  then show ?thesis
    unfolding resolve_forward_def Let_def by (metis leaves_table(3) leaves_table(1))
qed

lemma leaves_step_opaque:
  assumes "step_opaque m s = Inr s'"
  shows "leaves s p s'"
proof -
  let ?q = "dirname_or_dot (m_path m)"
  from assms obtain s1 where s1: "(if ?q \<noteq> dot then ensure_parents ?q m False s else Inr s) = Inr s1"
    by (auto simp: step_opaque_def Let_def res_simps split: if_splits)
  let ?n = "(make_node (synthetic_directory ?q 0 (m_ordinal m)) DIRECTORY)
              \<lparr>node_opaque_placeholder := (?q \<noteq> dot), node_synthetic := True\<rparr>"
  let ?s2 = "if is_directory s1 ?q then s1 else set_node ?q ?n True (purge_subtree ?q True s1)"
  have dir: "\<exists>n. nodes ?s2 ?q = Some n \<and> node_kind n = DIRECTORY"
    by (auto simp: is_directory_iff tables make_node_def)
  have "leaves s1 p ?s2"
    by (auto simp: make_node_def intro: leaves_refl leaves_trans [OF leaves_purge leaves_set_node])
  moreover have "s' = ?s2\<lparr>table := AList.update ?q ((the (nodes ?s2 ?q))\<lparr>node_opaque := True\<rparr>) (table ?s2)\<rparr>"
    using assms s1 dir by (auto simp: step_opaque_def Let_def split: if_splits)
  then have "leaves ?s2 p s'"
    using dir by (auto intro!: leaves_update)
  ultimately show ?thesis
    using leaves_ensure_or_root [OF s1] by (blast intro: leaves_trans)
qed

lemma leaves_step_whiteout:
  assumes "step_whiteout m s = Inr s'"
  shows "leaves s p s'"
  using assms unfolding step_whiteout_def Let_def
  by (auto simp: res_simps make_node_def split: if_splits
      intro!: leaves_trans [OF leaves_ensure_parents leaves_trans [OF leaves_purge leaves_set_node]])

lemma leaves_step_member:
  assumes "step_member m s = Inr s'" and "m_path m \<noteq> p"
  shows "leaves s p s'"
proof -
  obtain s1 where s1: "(if m_path m \<noteq> dot then ensure_parents (m_path m) m True s else Inr s) = Inr s1"
    using assms(1) by (auto simp: step_member_def Let_def res_simps)
  let ?s2 = "if m_kind m \<noteq> DIRECTORY then purge_subtree (m_path m) False s1 else s1"
  have s2: "leaves s p ?s2"
    using leaves_ensure_or_root [OF s1] by (auto intro: leaves_trans leaves_purge)
  have sn: "leaves ?s2 p (set_node (m_path m) n k ?s2)" for n k
    using assms(2) by (intro leaves_set_node) auto
  have fl: "leaves ?s2 p (step_file m ?s2)"
    unfolding step_file_def Let_def
    using assms(2) by (intro leaves_trans [OF _ leaves_resolve_forward]) (auto simp: leaves_def tables)
  have hl: "step_hardlink m ?s2 = Inr s' \<Longrightarrow> leaves ?s2 p s'"
    using assms(2) by (auto simp: step_hardlink_def Let_def leaves_def tables split: if_splits option.splits)
  have "leaves ?s2 p s'"
    using assms(1) s1 sn fl hl by (cases "m_kind m") (auto simp: step_member_def step_other_def Let_def)
  with s2 show ?thesis by (rule leaves_trans)
qed

lemma leaves_step: "step s m = Inr s' \<Longrightarrow> m_path m \<noteq> p \<Longrightarrow> leaves s p s'"
  by (auto simp: step_def Let_def leaves_step_opaque leaves_step_whiteout leaves_step_member split: if_splits)


lemma leaves_steps:
  "rfold step s ms = Inr s' \<Longrightarrow> \<forall>m \<in> set ms. m_path m \<noteq> p \<Longrightarrow> leaves s p s'"
proof (induction ms arbitrary: s)
  case (Cons m ms)
  from Cons.prems(1) obtain s1 where "step s m = Inr s1" "rfold step s1 ms = Inr s'"
    by (auto simp: res_simps)
  with Cons show ?case by (auto intro: leaves_trans leaves_step)
qed (simp add: leaves_refl)

section \<open>Payload groups\<close>

lemma groups_set_pending [simp]: "groups (s\<lparr>pending_by_target := h\<rparr>) = groups s"
  by simp

lemma groups_ensure_directory [simp]: "groups (ensure_directory m r d s) = groups s"
  by (auto simp: ensure_directory_def Let_def split: option.splits)

lemma groups_resolve_forward [simp]: "groups (resolve_forward t g s) = groups s"
proof -
  have "groups (fold (resolve_link t g) qs s) = groups s" for qs and s :: "'a nstate"
    by (induction qs arbitrary: s) (auto simp: resolve_link_def split: option.splits)
  then show ?thesis by (simp add: resolve_forward_def Let_def)
qed

lemma groups_step:
  assumes "step s m = Inr s'" and "g \<noteq> m_ordinal m"
  shows "map_of (groups s') g = map_of (groups s) g"
proof -
  have op: "step_opaque m s = Inr s' \<Longrightarrow> groups s' = groups s"
    by (auto simp: step_opaque_def Let_def res_simps dest!: groups_ensure_parents
        split: if_splits option.splits)
  have wh: "step_whiteout m s = Inr s' \<Longrightarrow> groups s' = groups s"
    by (auto simp: step_whiteout_def Let_def res_simps dest!: groups_ensure_parents split: if_splits)
  have "map_of (groups s') g = map_of (groups s) g" if mem: "step_member m s = Inr s'"
  proof -
    obtain s1 where s1: "(if m_path m \<noteq> dot then ensure_parents (m_path m) m True s else Inr s) = Inr s1"
      using mem by (auto simp: step_member_def Let_def res_simps)
    then have g1: "groups s1 = groups s" by (auto dest: groups_ensure_parents split: if_splits)
    let ?s2 = "if m_kind m \<noteq> DIRECTORY then purge_subtree (m_path m) False s1 else s1"
    have "groups ?s2 = groups s" using g1 by simp
    moreover have "map_of (groups s') g = map_of (groups ?s2) g"
      using mem s1 assms(2)
      by (cases "m_kind m")
        (auto simp: step_member_def Let_def step_other_def step_file_def step_hardlink_def dict_simps
          split: if_splits option.splits)
    ultimately show ?thesis by simp
  qed
  with op wh assms(1) show ?thesis by (auto simp: step_def Let_def split: if_splits)
qed

section \<open>Which exceptions are raised\<close>

definition layer_errors :: "cs_error set" where
  "layer_errors = ChangesetError ` {''oci-whiteout-marker'', ''oci-whiteout-target'',
     ''oci-hardlink-self'', ''oci-hardlink-chain''}"

lemma step_opaque_errors:
  assumes "tree_inv s" and "relative (m_path m)" and err: "step_opaque m s = Inl e"
  shows "e \<in> layer_errors"
proof -
  let ?p = "dirname_or_dot (m_path m)"
  obtain s1 where s1: "(if ?p \<noteq> dot then ensure_parents ?p m False s else Inr s) = Inr s1"
    using ensure_or_root [OF assms(1) dirname_or_dot_relative [OF assms(2)], of m False] .
  show ?thesis
  proof (cases "invalid_marker m")
    case True
    with err show ?thesis by (simp add: step_opaque_def layer_errors_def)
  next
    case False
    with err show ?thesis unfolding step_opaque_def Let_def s1 by (simp split: option.splits)
  qed
qed

lemma valid_whiteout_member:
  assumes "valid_member m" and "p \<noteq> []"
  shows "\<exists>w. member_post_init (m\<lparr>m_path := p, m_kind := WHITEOUT, m_mode := 384, m_uid := 0, m_gid := 0,
           m_link_target := [], m_device_major := 0, m_device_minor := 0, m_xattrs := [], m_payload := None\<rparr>) = Inr w"
proof -
  from assms(1) have "\<not> m_ordinal m < 0" "\<not> m_size m < 0" "\<not> m_mtime m < 0"
    by (auto simp: valid_member_def member_post_init_def split: if_splits)
  with assms(2) show ?thesis by (auto simp: member_post_init_def)
qed

lemma step_whiteout_errors:
  assumes "tree_inv s" and "relative (m_path m)" and "valid_member m" and err: "step_whiteout m s = Inl e"
  shows "e \<in> layer_errors"
proof -
  let ?n = "remove_prefix (os_basename (m_path m)) whiteout_prefix"
  let ?d = "dirname_or_dot (m_path m)"
  let ?t = "if ?d \<noteq> dot then os_join ?d ?n else ?n"
  show ?thesis
  proof (cases "?n = [] \<or> ?n = dot \<or> ?n = ul ''..'' \<or> starts_with ?n whiteout_prefix \<or> invalid_marker m")
    case True
    with err show ?thesis by (auto simp: step_whiteout_def Let_def layer_errors_def split: if_splits)
  next
    case False
    then have rel: "relative ?t"
      using whiteout_target_relative [of "m_path m" whiteout_prefix] dirname_or_dot_relative [OF assms(2)]
      by (simp add: os_join_relative)
    have "?t \<noteq> []" using rel by (auto simp: relative_def)
    from valid_whiteout_member [OF assms(3) this] obtain w where w:
      "member_post_init (m\<lparr>m_path := ?t, m_kind := WHITEOUT, m_mode := 384, m_uid := 0, m_gid := 0,
           m_link_target := [], m_device_major := 0, m_device_minor := 0, m_xattrs := [], m_payload := None\<rparr>) = Inr w"
      by blast
    obtain s1 where s1: "ensure_parents ?t m False s = Inr s1"
      using ensure_parents_ok [OF assms(1) rel] by blast
    from False err s1 w show ?thesis
      unfolding step_whiteout_def Let_def by simp
  qed
qed


lemma step_member_errors:
  assumes "tree_inv s" and "relative (m_path m)" and err: "step_member m s = Inl e"
  shows "e \<in> layer_errors"
proof -
  obtain s1 where "(if m_path m \<noteq> dot then ensure_parents (m_path m) m True s else Inr s) = Inr s1"
    using ensure_or_root [OF assms(1,2), of m True] .
  with err have "\<exists>s2. step_hardlink m s2 = Inl e"
    unfolding step_member_def Let_def by (auto split: entry_kind.splits if_splits)
  then show ?thesis
    by (auto simp: step_hardlink_def layer_errors_def Let_def split: if_splits option.splits)
qed

lemma step_errors:
  assumes "tree_inv s" and "relative (m_path m)" and "valid_member m" and "step s m = Inl e"
  shows "e \<in> layer_errors"
  using assms(4) step_opaque_errors [OF assms(1,2)] step_whiteout_errors [OF assms(1-3)]
    step_member_errors [OF assms(1,2)]
  by (auto simp: step_def Let_def split: if_splits)

lemma steps_errors:
  assumes "tree_inv s" and "\<forall>m \<in> set ms. relative (m_path m) \<and> valid_member m" and "rfold step s ms = Inl e"
  shows "e \<in> layer_errors"
  using assms
proof (induction ms arbitrary: s)
  case (Cons m ms)
  show ?case
  proof (cases "step s m")
    case (Inl e')
    with Cons.prems step_errors [of s m e] show ?thesis by auto
  next
    case (Inr s')
    with Cons.prems step_good [of s m] have "tree_inv s'" by simp
    with Inr Cons show ?thesis by auto
  qed
qed simp

section \<open>Concrete layers\<close>

definition mem :: "int \<Rightarrow> string \<Rightarrow> entry_kind \<Rightarrow> string \<Rightarrow> nat changeset_member" where
  "mem i p k t =
     \<lparr>m_ordinal = i, m_path = ul p, m_kind = k, m_size = 0, m_mode = 420, m_uid = 0, m_gid = 0,
      m_mtime = 7, m_link_target = ul t, m_device_major = 0, m_device_minor = 0, m_xattrs = [],
      m_payload = (if k = FILE then Some (nat i) else None)\<rparr>"

text \<open>A file, two hardlinks to it, and a whiteout of the file itself.\<close>

definition sample_layer :: "nat changeset_member list" where
  "sample_layer =
     [mem 0 ''d/f'' FILE '''', mem 1 ''l'' HARDLINK ''d/f'', mem 2 ''m'' HARDLINK ''d/f'',
      mem 3 ''d/.wh.f'' FILE '''']"

lemma sample_layer_shape:
  "map (\<lambda>e. (e_path e, e_kind e, e_link_target e)) (case normalize_changeset sample_layer of Inl _ \<Rightarrow> [] | Inr es \<Rightarrow> es) =
     [(ul ''.'', DIRECTORY, []), (ul ''d'', DIRECTORY, []), (ul ''d/f'', WHITEOUT, []),
      (ul ''l'', FILE, []), (ul ''m'', HARDLINK, ul ''l'')]"
  by (simp add: exec sample_layer_def mem_def cong: eval_cong)

lemma sample_layer_valid: "\<forall>m \<in> set sample_layer. relative (m_path m) \<and> valid_member m"
  by (simp add: sample_layer_def mem_def valid_member_def member_post_init_def relative_def ul_def slash_def)

lemma sample_layer_result:
  obtains es where "normalize_changeset sample_layer = Inr es" and "length es = 5"
    and "e_kind (es ! 4) = HARDLINK"
proof (cases "normalize_changeset sample_layer")
  case (Inr es)
  then have shape: "map (\<lambda>e. (e_path e, e_kind e, e_link_target e)) es =
     [(ul ''.'', DIRECTORY, []), (ul ''d'', DIRECTORY, []), (ul ''d/f'', WHITEOUT, []),
      (ul ''l'', FILE, []), (ul ''m'', HARDLINK, ul ''l'')]" using sample_layer_shape by simp
  from arg_cong [OF this, of length] have len: "length es = 5" by simp
  from arg_cong [OF shape, of "\<lambda>xs. xs ! 4"] len have "e_kind (es ! 4) = HARDLINK" by simp
  with Inr len that show ?thesis by blast
qed (use sample_layer_shape in simp)

section \<open>Properties\<close>

text \<open>C1. The final entries of a layer form a tree: no path occurs twice, the root is
  there, and below the root's own entries every entry has its parent in the list, as a
  directory.\<close>
theorem normalize_changeset_tree:
  assumes "normalize_changeset ms = Inr es" and "\<forall>m \<in> set ms. relative (m_path m) \<and> valid_member m"
  shows "distinct (map e_path es) \<and> dot \<in> set (map e_path es) \<and>
    (\<forall>e \<in> set es. \<forall>d. parent_of (e_path e) = Some d \<and> d \<noteq> dot \<longrightarrow>
       (\<exists>de \<in> set es. e_path de = d \<and> e_kind de = DIRECTORY))"
proof -
  obtain s where s: "tree_inv s" "nodes_ok s" "\<not> unresolved s" "finish (int (length ms)) s = Inr es"
    using normalize_changeset_cases [OF assms] by metis
  obtain es' where f: "finish (int (length ms)) s = Inr es'" "distinct (map e_path es')"
      "set (map e_path es') = insert dot (dom (nodes s))"
      "\<And>e n. e \<in> set es' \<Longrightarrow> nodes s (e_path e) = Some n \<Longrightarrow> e_kind e = DIRECTORY \<longleftrightarrow> node_kind n = DIRECTORY"
    using finish_resolved [OF s(2,1,3)] by metis
  with s(4) have eq: "es' = es" by simp
  have "\<exists>de \<in> set es. e_path de = d \<and> e_kind de = DIRECTORY"
    if e: "e \<in> set es" and d: "parent_of (e_path e) = Some d" "d \<noteq> dot" for e d
  proof -
    from d have "e_path e \<noteq> dot" by auto
    with e f(3) eq obtain n where "nodes s (e_path e) = Some n" by auto
    with s(1) d have "is_directory s d" by (blast dest: tree_invD(3))
    then obtain k where k: "nodes s d = Some k" "node_kind k = DIRECTORY" by (auto simp: is_directory_iff)
    then have "d \<in> set (map e_path es)" using f(3) eq by blast
    then obtain de where "de \<in> set es" "e_path de = d" by auto
    with f(4) k eq show ?thesis by blast
  qed
  with f(2,3) eq show ?thesis by auto
qed

theorem normalize_changeset_tree_witness:
  "\<exists>es. normalize_changeset sample_layer = Inr es \<and> distinct (map e_path es) \<and> dot \<in> set (map e_path es)"
  using normalize_changeset_tree [OF _ sample_layer_valid] sample_layer_result by metis

text \<open>C2. Every hardlink entry stands after the entry of its target, and the target is a
  regular file that carries a payload: no dangling link, no link to a link.\<close>
theorem normalize_changeset_links:
  assumes "normalize_changeset ms = Inr es" and "\<forall>m \<in> set ms. relative (m_path m) \<and> valid_member m"
    and "i < length es" and "e_kind (es ! i) = HARDLINK"
  shows "\<exists>j < i. e_path (es ! j) = e_link_target (es ! i) \<and> e_kind (es ! j) = FILE \<and> e_payload (es ! j) \<noteq> None"
proof -
  obtain s where s: "tree_inv s" "nodes_ok s" "\<not> unresolved s" "finish (int (length ms)) s = Inr es"
    using normalize_changeset_cases [OF assms(1,2)] by metis
  from finish_resolved [OF s(2,1,3), of "int (length ms)"] s(4) assms(3,4) show ?thesis
    by (metis sum.inject(2))
qed

theorem normalize_changeset_links_witness:
  "\<exists>es. normalize_changeset sample_layer = Inr es \<and> (\<exists>j < 4. e_path (es ! j) = e_link_target (es ! 4) \<and> e_kind (es ! j) = FILE)"
proof -
  obtain es where es: "normalize_changeset sample_layer = Inr es" "length es = 5" "e_kind (es ! 4) = HARDLINK"
    using sample_layer_result .
  with normalize_changeset_links [OF es(1) sample_layer_valid, of 4] show ?thesis by auto
qed

text \<open>C3. On valid members with relative paths the reduction always returns: the parent loop
  ends, and the only exceptions are the member order, a bad marker or whiteout, a link to
  itself or to a link, and an unresolved link target; the internal codes
  \<open>oci-opaque-state\<close>, \<open>oci-hardlink-group\<close> and \<open>oci-hardlink-order\<close> never occur.\<close>
theorem normalize_changeset_errors:
  assumes "\<forall>m \<in> set ms. relative (m_path m) \<and> valid_member m" and "normalize_changeset ms = Inl e"
  shows "e \<in> {ChangesetError ''oci-changeset-input'', ChangesetError ''oci-hardlink-target''} \<union> layer_errors"
proof (cases "map m_ordinal ms \<noteq> map int [0..<length ms]")
  case True
  with assms(2) show ?thesis by (simp add: normalize_changeset_def)
next
  case False
  show ?thesis
  proof (cases "rfold step empty_nstate ms")
    case (Inl e')
    with steps_errors [OF tree_inv_empty assms(1) Inl] False assms(2) show ?thesis
      by (simp add: normalize_changeset_def)
  next
    case (Inr s)
    then have fin: "finish (int (length ms)) s = Inl e"
      using False assms(2) by (simp add: normalize_changeset_def)
    have inv: "tree_inv s" using steps_good [OF tree_inv_empty, of ms] assms(1) Inr by (auto simp: good_def)
    have ok: "nodes_ok s" using nodes_ok_steps [OF Inr nodes_ok_empty] assms(1) by blast
    have "unresolved s"
    proof (rule ccontr)
      assume "\<not> unresolved s"
      then obtain es where "finish (int (length ms)) s = Inr es"
        using finish_resolved [OF ok inv, of "int (length ms)"] by metis
      with fin show False by simp
    qed
    with fin finish_unresolved [OF ok] show ?thesis by (simp add: finish_def Let_def)
  qed
qed

text \<open>C4. \<open>purge_subtree\<close> on any state the steps reach removes exactly the entries strictly
  below the path, and the path itself when asked; the work list over the children index
  is equivalent to dropping all descendants from the table.\<close>
theorem purge_subtree_reachable:
  assumes "rfold step empty_nstate ms = Inr s" and "\<forall>m \<in> set ms. relative (m_path m)"
  shows "nodes (purge_subtree p r s) q = (if ancestor p q \<or> r \<and> q = p then None else nodes s q)"
proof -
  have "tree_inv s" using steps_good [OF tree_inv_empty assms(2)] assms(1) by (simp add: good_def)
  then show ?thesis by (rule purge_subtree_descendants)
qed

text \<open>Later churn never retargets a bound link: a file or hardlink whose payload group
  is settled is found unchanged after any further members of other paths, unless it was
  removed, whited out or replaced by a directory.\<close>
theorem bound_link_stable:
  assumes "rfold step s ms = Inr s'" and "\<forall>m \<in> set ms. m_path m \<noteq> p"
    and "nodes s p = Some n" and "node_pending_target n = None"
    and "nodes s' p = Some n'" and "node_kind n' \<in> {FILE, HARDLINK}"
  shows "n' = n"
  using leaves_steps [OF assms(1,2)] assms(3-6) by (auto simp: leaves_def)

theorem normalize_changeset_errors_witness:
  "ChangesetError ''oci-hardlink-self'' \<in>
     {ChangesetError ''oci-changeset-input'', ChangesetError ''oci-hardlink-target''} \<union> layer_errors"
proof (rule normalize_changeset_errors)
  show "\<forall>m \<in> set [mem 0 ''l'' HARDLINK ''l'']. relative (m_path m) \<and> valid_member m"
    by (simp add: mem_def valid_member_def member_post_init_def relative_def ul_def slash_def)
  show "normalize_changeset [mem 0 ''l'' HARDLINK ''l''] = Inl (ChangesetError ''oci-hardlink-self'')"
    by (simp add: exec mem_def cong: eval_cong)
qed

definition sample_state :: "nat nstate" where
  "sample_state = (case rfold step empty_nstate sample_layer of Inl _ \<Rightarrow> empty_nstate | Inr s \<Rightarrow> s)"

lemma sample_state_run: "rfold step empty_nstate sample_layer = Inr sample_state"
proof -
  have "\<exists>s. rfold step empty_nstate sample_layer = Inr s"
    by (simp add: exec sample_layer_def mem_def cong: eval_cong)
  then show ?thesis by (auto simp: sample_state_def)
qed

theorem purge_subtree_reachable_witness:
  "nodes (purge_subtree (ul ''d'') True sample_state) (ul ''d/f'') = None"
proof -
  have "parent_of (ul ''d/f'') = Some (ul ''d'')"
    by (simp add: exec)
  then have "ancestor (ul ''d'') (ul ''d/f'')" by (rule ancestor.parent)
  moreover have "\<forall>m \<in> set sample_layer. relative (m_path m)" using sample_layer_valid by blast
  ultimately show ?thesis
    using purge_subtree_reachable [OF sample_state_run, of "ul ''d''" True "ul ''d/f''"] by simp
qed

theorem bound_link_stable_witness:
  "\<exists>n n' s'. nodes sample_state (ul ''l'') = Some n \<and>
     rfold step sample_state [mem 4 ''d/f'' FILE ''''] = Inr s' \<and> nodes s' (ul ''l'') = Some n' \<and> n' = n"
proof -
  have *: "\<exists>n n' s'. nodes sample_state (ul ''l'') = Some n \<and> node_pending_target n = None \<and>
     rfold step sample_state [mem 4 ''d/f'' FILE ''''] = Inr s' \<and> nodes s' (ul ''l'') = Some n' \<and>
     node_kind n' \<in> {FILE, HARDLINK}"
    by (simp add: exec sample_state_def sample_layer_def mem_def cong: eval_cong)
  then obtain n n' s' where n: "nodes sample_state (ul ''l'') = Some n" "node_pending_target n = None"
     and s': "rfold step sample_state [mem 4 ''d/f'' FILE ''''] = Inr s'"
     and n': "nodes s' (ul ''l'') = Some n'" "node_kind n' \<in> {FILE, HARDLINK}" by blast
  have "\<forall>m \<in> set [mem 4 ''d/f'' FILE '''']. m_path m \<noteq> ul ''l''" by (simp add: mem_def)
  with bound_link_stable [OF s' _ n n'] n s' n' show ?thesis by blast
qed

section \<open>A departure from the documentation\<close>

text \<open>An opaque marker of the layer root that follows entries of the same layer removes
  those entries when the layer has no explicit root member, and keeps them when it has one.\<close>
theorem root_opaque_depends_on_root_member:
  "(\<exists>es. normalize_changeset [mem 0 ''f'' FILE '''', mem 1 ''.wh..wh..opq'' FILE ''''] = Inr es \<and>
      map e_path es = [ul ''.'']) \<and>
   (\<exists>es. normalize_changeset [mem 0 ''.'' DIRECTORY '''', mem 1 ''f'' FILE '''', mem 2 ''.wh..wh..opq'' FILE ''''] = Inr es \<and>
      map e_path es = [ul ''.'', ul ''f''])"
  by (simp add: exec mem_def cong: eval_cong)

end
