(* ===== verification/Changeset_Links.thy ===== *)
theory Changeset_Links imports Main Changeset_Props begin

text \<open>
  Forward hardlinks, which wait for a later regular file at their target: what the steps do to the
  node and the registration of a path they do not name, how the target binds a waiting link, and the
  link that is given twice and bound never.
\<close>

section \<open>Who waits for a target\<close>

definition waiting :: "'p nstate \<Rightarrow> ustr \<Rightarrow> ustr set" where
  "waiting s t = set (get_set (pending_by_target s) t)"

lemma waiting_updates [simp]:
  "waiting (s\<lparr>table := x\<rparr>) t = waiting s t" "waiting (s\<lparr>children := y\<rparr>) t = waiting s t"
  "waiting (s\<lparr>groups := z\<rparr>) t = waiting s t"
  by (simp_all add: waiting_def)

lemma waiting_register [simp]: "waiting (register q s) t = waiting s t"
  by (simp add: register_def split: option.splits)

lemma waiting_cancel:
  "waiting (cancel_pending q n s) t = (if node_pending_target n = Some t then waiting s t - {q} else waiting s t)"
proof -
  have "removeAll q xs = [] \<Longrightarrow> set xs \<subseteq> {q}" for xs
    by (metis Diff_eq_empty_iff list.set(1) set_removeAll)
  then show ?thesis
    by (auto simp: cancel_pending_def Let_def waiting_def get_set_def dict_simps split: option.splits)
qed

lemma waiting_remove_exact:
  "waiting (remove_exact q k s) t =
     (case nodes s q of
        None \<Rightarrow> waiting s t
      | Some n \<Rightarrow> if node_pending_target n = Some t then waiting s t - {q} else waiting s t)"
  by (auto simp: remove_exact_def Let_def waiting_cancel split: option.splits)

lemma waiting_set_node:
  "waiting (set_node q n k s) t =
     (case nodes s q of
        None \<Rightarrow> waiting s t
      | Some n \<Rightarrow> if node_pending_target n = Some t then waiting s t - {q} else waiting s t)"
  by (simp add: set_node_def Let_def waiting_remove_exact)

section \<open>What a step leaves untouched\<close>

definition untouched :: "ustr \<Rightarrow> 'p nstate \<Rightarrow> 'p nstate \<Rightarrow> bool" where
  "untouched p s s' \<longleftrightarrow> nodes s' p = nodes s p \<and> (\<forall>t. p \<in> waiting s' t \<longleftrightarrow> p \<in> waiting s t)"

lemma untouched_refl [simp]: "untouched p s s"
  by (simp add: untouched_def)

lemma untouched_trans: "untouched p s s1 \<Longrightarrow> untouched p s1 s2 \<Longrightarrow> untouched p s s2"
  by (simp add: untouched_def)

lemma untouched_updates [simp]:
  "untouched p s (s'\<lparr>children := y\<rparr>) = untouched p s s'" "untouched p s (s'\<lparr>groups := z\<rparr>) = untouched p s s'"
  "untouched p (s\<lparr>groups := z\<rparr>) s' = untouched p s s'"
  by (simp_all add: untouched_def)

lemma untouched_remove_exact: "p \<noteq> q \<or> nodes s p = None \<Longrightarrow> untouched p s (remove_exact q k s)"
  by (auto simp: untouched_def tables waiting_remove_exact split: option.splits)

lemma untouched_set_node: "p \<noteq> q \<Longrightarrow> untouched p s (set_node q n k s)"
  by (auto simp: untouched_def tables waiting_set_node split: option.splits)

lemma untouched_purge_loop: "nodes (purge_loop ps s) p = nodes s p \<Longrightarrow> untouched p s (purge_loop ps s)"
proof (induction ps s rule: purge_loop.induct)
  case (1 ps s)
  show ?case
  proof (cases "ps = []")
    case False
    let ?x = "last ps"
    let ?s1 = "remove_exact ?x False s"
    let ?ps = "butlast ps @ get_set (children s) ?x"
    have eq: "purge_loop ps s = purge_loop ?ps ?s1" using False by (simp add: purge_loop.simps [of ps s] Let_def)
    have "p \<noteq> ?x \<or> nodes s p = None" and same: "nodes (purge_loop ?ps ?s1) p = nodes ?s1 p"
      using 1(2) unfolding eq by (cases "p = ?x"; simp add: nodes_purge_loop tables restrict_map_def split: if_splits)+
    then have "untouched p s ?s1" by (intro untouched_remove_exact) auto
    with 1(1) [OF False refl refl same] show ?thesis unfolding eq by (blast intro: untouched_trans)
  qed (simp add: purge_loop.simps)
qed

lemma untouched_purge:
  assumes "nodes (purge_subtree q r s) p = nodes s p"
  shows "untouched p s (purge_subtree q r s)"
proof -
  let ?s1 = "purge_loop (get_set (children s) q) s"
  have "nodes ?s1 p = nodes s p" and "\<not> r \<or> p \<noteq> q \<or> nodes s p = None"
    using assms by (auto simp: purge_subtree_def Let_def tables nodes_purge_loop restrict_map_def split: if_splits)
  then have "untouched p s ?s1" and "\<not> r \<or> p \<noteq> q \<or> nodes ?s1 p = None"
    using untouched_purge_loop by auto
  then show ?thesis
    using untouched_remove_exact [of p q "?s1\<lparr>children := AList.delete q (children ?s1)\<rparr>" False]
    by (auto simp: purge_subtree_def Let_def untouched_def)
qed

lemma ancestor_directory:
  "ancestor d p \<Longrightarrow> tree_inv s \<Longrightarrow> nodes s p = Some n \<Longrightarrow> d \<noteq> dot \<Longrightarrow> is_directory s d"
proof (induction arbitrary: n rule: ancestor.induct)
  case (above a d p)
  then have "d \<noteq> dot" by auto
  with above have "is_directory s d" by (blast dest: tree_invD(3))
  with above show ?case by (auto simp: is_directory_iff)
qed (blast dest: tree_invD(3))

lemma ancestor_irrefl: "relative p \<Longrightarrow> \<not> ancestor p p"
  using ancestor_shorter [of p p] by auto

lemma linked_ancestor: "linked ds q \<Longrightarrow> d \<in> set ds \<Longrightarrow> ancestor d q \<and> d \<noteq> dot"
proof (induction ds arbitrary: q)
  case (Cons e ds)
  show ?case
  proof (cases "d = e")
    case True
    with Cons.prems show ?thesis by (auto intro: ancestor.parent)
  next
    case False
    with Cons have "ancestor d e \<and> d \<noteq> dot" by auto
    with Cons.prems show ?thesis by (auto intro: ancestor.above)
  qed
qed simp

lemma untouched_ensure_directory:
  assumes "tree_inv s" "d \<noteq> p" "d \<noteq> dot"
  shows "untouched p s (ensure_directory m r d s)"
proof (cases "is_directory s d")
  case True
  then obtain n where "nodes s d = Some n" "node_kind n = DIRECTORY" by (auto simp: is_directory_iff)
  with assms(2) show ?thesis by (auto simp: ensure_directory_def Let_def untouched_def dict_simps)
next
  case False
  let ?n = "(make_node (synthetic_directory d (m_mtime m) (m_ordinal m)) DIRECTORY)\<lparr>node_synthetic := True\<rparr>"
  have eq: "ensure_directory m r d s = set_node d ?n True (purge_subtree d True s)"
    using False by (auto simp: ensure_directory_def Let_def is_directory_iff split: option.splits)
  have "\<not> ancestor d p" if "nodes s p = Some n" for n
    using ancestor_directory [of d p s] assms(1,3) that False by blast
  then have "nodes (purge_subtree d True s) p = nodes s p"
    using assms(2) by (cases "nodes s p") (auto simp: purge_subtree_descendants [OF assms(1)])
  then have "untouched p s (purge_subtree d True s)" by (rule untouched_purge)
  then show ?thesis unfolding eq by (rule untouched_trans) (use assms(2) in \<open>simp add: untouched_set_node\<close>)
qed

lemma untouched_ensure_parents:
  assumes "ensure_parents q m r s = Inr s'" "tree_inv s" "relative q" "\<not> ancestor p q"
  shows "untouched p s s'"
proof -
  obtain ds where ds: "parent_chain (parent_of q) [] = Some (rev ds)" "linked ds q"
    using parent_chain_relative [OF assms(3), of "[]"] by auto
  have "untouched p s (fold (ensure_directory m r) (rev es) s)" if "linked es q'" "\<forall>d \<in> set es. d \<noteq> p" for es q'
    using that
  proof (induction es arbitrary: q')
    case (Cons d es)
    then have "linked es d" "d \<noteq> dot" "d \<noteq> p" "untouched p s (fold (ensure_directory m r) (rev es) s)" by auto
    moreover have "tree_inv (fold (ensure_directory m r) (rev es) s)"
      using ensure_chain_ok [OF assms(2) \<open>linked es d\<close>] by blast
    ultimately show ?case by (auto intro: untouched_trans untouched_ensure_directory)
  qed simp
  moreover have "\<forall>d \<in> set ds. d \<noteq> p" using linked_ancestor [OF ds(2)] assms(4) by blast
  ultimately have "untouched p s (fold (ensure_directory m r) (rev ds) s)" using ds(2) by blast
  with assms(1) ds(1) show ?thesis by (simp add: ensure_parents_def)
qed

text \<open>
  The first half of a member that is no directory: the parents and the purge below its path. A path
  that is neither above nor below the member's is left alone, and so is the member's own.
\<close>

lemma member_prepared:
  assumes "tree_inv s" "relative (m_path m)" "m_kind m \<noteq> DIRECTORY"
  obtains s2 where "placeable s2 (m_path m)" "cleared s2 (m_path m)"
    "\<And>p. \<not> ancestor p (m_path m) \<Longrightarrow> \<not> ancestor (m_path m) p \<Longrightarrow> untouched p s s2"
    "step_member m s =
       (case m_kind m of FILE \<Rightarrow> Inr (step_file m s2) | HARDLINK \<Rightarrow> step_hardlink m s2 | _ \<Rightarrow> Inr (step_other m False s2))"
proof -
  let ?q = "m_path m"
  obtain s1 where s1: "(if ?q \<noteq> dot then ensure_parents ?q m True s else Inr s) = Inr s1" "placeable s1 ?q"
    using ensure_or_root [OF assms(1,2)] .
  have inv1: "tree_inv s1" using s1(2) by (simp add: placeable_def)
  show ?thesis
  proof (rule that)
    show "placeable (purge_subtree ?q False s1) ?q" "cleared (purge_subtree ?q False s1) ?q"
      using placeable_purge [OF s1(2)] by auto
    show "step_member m s = (case m_kind m of FILE \<Rightarrow> Inr (step_file m (purge_subtree ?q False s1))
        | HARDLINK \<Rightarrow> step_hardlink m (purge_subtree ?q False s1)
        | _ \<Rightarrow> Inr (step_other m False (purge_subtree ?q False s1)))"
      using s1(1) assms(3) by (simp add: step_member_def Let_def split: entry_kind.splits)
    fix p assume p: "\<not> ancestor p ?q" "\<not> ancestor ?q p"
    have "untouched p s s1"
      using s1(1) untouched_ensure_parents [OF _ assms(1,2) p(1)] by (auto split: if_splits)
    moreover have "untouched p s1 (purge_subtree ?q False s1)"
      using p(2) by (intro untouched_purge) (simp add: purge_subtree_descendants [OF inv1])
    ultimately show "untouched p s (purge_subtree ?q False s1)" by (rule untouched_trans)
  qed
qed

section \<open>A link before its target\<close>

text \<open>Neither an opaque marker nor a whiteout.\<close>

definition plain_name :: "ustr \<Rightarrow> bool" where
  "plain_name p \<longleftrightarrow> \<not> starts_with (os_basename p) whiteout_prefix"

lemma step_plain: "plain_name (m_path m) \<Longrightarrow> step s m = step_member m s"
proof -
  have "starts_with opaque_name whiteout_prefix"
    by (simp add: starts_with_def opaque_name_def whiteout_prefix_def ul_def)
  then show "plain_name (m_path m) \<Longrightarrow> step s m = step_member m s" by (auto simp: step_def Let_def plain_name_def)
qed

abbreviation pending_link :: "'p changeset_member \<Rightarrow> 'p node" where
  "pending_link m \<equiv> (make_node m HARDLINK)\<lparr>node_pending_target := Some (m_link_target m)\<rparr>"

lemma forward_link_step:
  assumes "tree_inv s" "relative p" "plain_name p" and m: "m_path m = p" "m_kind m = HARDLINK" "m_link_target m = t"
    and apart: "p \<noteq> t" "\<not> ancestor p t" "\<not> ancestor t p" and "nodes s t = None"
  obtains s' where "step s m = Inr s'" "tree_inv s'" "nodes s' p = Some (pending_link m)" "nodes s' t = None"
    "p \<in> waiting s' t \<longleftrightarrow> (\<forall>n. nodes s p = Some n \<longrightarrow> node_pending_target n \<noteq> Some t)"
proof -
  obtain s2 where s2: "placeable s2 p" "cleared s2 p" "\<And>q. \<not> ancestor q p \<Longrightarrow> \<not> ancestor p q \<Longrightarrow> untouched q s s2"
      "step_member m s = step_hardlink m s2"
    using member_prepared [OF assms(1), of m] assms(2) m by auto
  have p: "nodes s2 p = nodes s p" and t: "nodes s2 t = None"
    using s2(3) [of p] s2(3) [of t] ancestor_irrefl [OF assms(2)] apart \<open>nodes s t = None\<close> by (auto simp: untouched_def)
  let ?s3 = "s2\<lparr>pending_by_target := set_add t p (pending_by_target s2)\<rparr>"
  let ?s' = "set_node p (pending_link m) False ?s3"
  have "step s m = Inr ?s'"
    using step_plain [of m s] assms(3) m s2(4) t apart(1) by (simp add: step_hardlink_def Let_def)
  moreover have "tree_inv ?s'" using s2(1,2) by (intro placeable_set_node) auto
  moreover have "nodes ?s' p = Some (pending_link m)" "nodes ?s' t = None" using t apart(1) by (simp_all add: tables)
  moreover have "p \<in> waiting ?s3 t" by (simp add: waiting_def dict_simps)
  then have "p \<in> waiting ?s' t \<longleftrightarrow> (\<forall>n. nodes s p = Some n \<longrightarrow> node_pending_target n \<noteq> Some t)"
    using p by (auto simp: waiting_set_node split: option.splits)
  ultimately show ?thesis by (rule that)
qed

section \<open>The target\<close>

definition bind_link :: "ustr \<Rightarrow> int \<Rightarrow> 'p node \<Rightarrow> 'p node" where
  "bind_link t g n =
     (if node_pending_target n = Some t then n\<lparr>node_pending_target := None, node_group_id := Some g\<rparr> else n)"

lemma bind_link_idem [simp]: "bind_link t g (bind_link t g n) = bind_link t g n"
  by (simp add: bind_link_def)

lemma resolve_links:
  "nodes (fold (resolve_link t g) ws s) p = (if p \<in> set ws then map_option (bind_link t g) (nodes s p) else nodes s p)"
proof (induction ws arbitrary: s)
  case (Cons w ws)
  have "nodes (resolve_link t g w s) p = (if p = w then map_option (bind_link t g) (nodes s p) else nodes s p)"
    by (auto simp: resolve_link_def bind_link_def dict_simps split: option.splits)
  with Cons show ?case by (auto simp: option.map_comp o_def)
qed simp

lemma nodes_resolve_forward:
  "nodes (resolve_forward t g s) p = (if p \<in> waiting s t then map_option (bind_link t g) (nodes s p) else nodes s p)"
  by (simp add: resolve_forward_def Let_def resolve_links waiting_def)

lemma target_step:
  assumes "tree_inv s" "relative t" "plain_name t" and m: "m_path m = t" "m_kind m = FILE"
    and apart: "p \<noteq> t" "\<not> ancestor p t" "\<not> ancestor t p"
  obtains s' where "step s m = Inr s'"
    "nodes s' p = (if p \<in> waiting s t then map_option (bind_link t (m_ordinal m)) (nodes s p) else nodes s p)"
    "\<exists>n. nodes s' t = Some n \<and> node_pending_target n = None"
proof -
  obtain s2 where s2: "\<And>q. \<not> ancestor q t \<Longrightarrow> \<not> ancestor t q \<Longrightarrow> untouched q s s2"
      "step_member m s = Inr (step_file m s2)"
    using member_prepared [OF assms(1), of m] assms(2) m by auto
  let ?n = "(make_node m FILE)\<lparr>node_group_id := Some (m_ordinal m)\<rparr>"
  let ?s3 = "set_node t ?n False (s2\<lparr>groups := AList.update (m_ordinal m) m (groups s2)\<rparr>)"
  have "step s m = Inr (resolve_forward t (m_ordinal m) ?s3)"
    using step_plain [of m s] assms(3) m s2(2) by (simp add: step_file_def Let_def)
  moreover have "untouched p s ?s3"
    using untouched_trans [OF s2(1) [OF apart(2,3)]] untouched_set_node [OF apart(1), of "s2\<lparr>groups := _\<rparr>"] by simp
  moreover have "nodes ?s3 t = Some ?n" "node_pending_target ?n = None" by (simp_all add: tables make_node_def)
  ultimately show ?thesis
    by (intro that [of "resolve_forward t (m_ordinal m) ?s3"])
      (auto simp: nodes_resolve_forward untouched_def bind_link_def)
qed

section \<open>Once and twice\<close>

text \<open>A layer with members appended, after the steps of its own members.\<close>

lemma normalize_appended:
  assumes "normalize_changeset ms = Inr es" "\<forall>m \<in> set ms. relative (m_path m) \<and> valid_member m"
    and "rfold step empty_nstate ms = Inr s"
    and "map m_ordinal added = map int [length ms..<length ms + length added]"
    and "rfold step s added = Inr s'"
  shows "normalize_changeset (ms @ added) = finish (int (length ms + length added)) s'"
proof -
  have "map m_ordinal ms = map int [0..<length ms]"
    using assms(1) by (auto simp: normalize_changeset_def split: if_splits)
  then have "map m_ordinal (ms @ added) = map int [0..<length (ms @ added)]"
    using assms(4) by (simp add: upt_add_eq_append [of 0])
  then show ?thesis using assms(3,5) by (simp add: normalize_changeset_def rfold_append)
qed

text \<open>Placing a link and then its target leaves nothing unresolved.\<close>

lemma link_then_target_resolved:
  assumes "\<not> unresolved s" "step s a = Inr s1" "m_path a = p" "step s1 f = Inr s2" "m_path f = t" "nodes_ok s2"
    and "\<And>n. nodes s2 p = Some n \<Longrightarrow> node_pending_target n = None"
    and "\<exists>n. nodes s2 t = Some n \<and> node_pending_target n = None"
  shows "\<not> unresolved s2"
proof
  assume "unresolved s2"
  then obtain q n where q: "nodes s2 q = Some n" "node_pending_target n \<noteq> None" by (auto simp: unresolved_def)
  then have kind: "node_kind n = HARDLINK" using nodes_ok_lookup [OF assms(6)] by (auto simp: node_ok_def)
  have ne: "q \<noteq> p" "q \<noteq> t" using q assms(7,8) by auto
  have "leaves s1 q s2" "leaves s q s1" using leaves_step [OF assms(4)] leaves_step [OF assms(2)] assms(3,5) ne by simp_all
  then have "leaves s q s2" by (auto intro: leaves_trans)
  with q kind obtain n0 where "nodes s q = Some n0" "n = n0 \<or> node_pending_target n0 \<noteq> None" by (auto simp: leaves_def)
  with q(2) assms(1) show False by (auto simp: unresolved_def)
qed

text \<open>C5. Take any layer that is accepted, a path without an entry in its result, and a hardlink to that
  path from another one, neither above nor below it, both with ordinary names. The layer with the link and
  then a regular file at the target appended is accepted, as the documentation says of forward links; with
  the same link given a second time before the file it is refused as having no regular file at the target,
  because the second occurrence drops the registration it has just made when it replaces the first node.\<close>

theorem repeated_forward_link_refused:
  assumes layer: "normalize_changeset ms = Inr es" "\<forall>m \<in> set ms. relative (m_path m) \<and> valid_member m"
    and links: "\<forall>m \<in> {a, b}. valid_member m \<and> m_kind m = HARDLINK \<and> m_path m = p \<and> m_link_target m = t"
    and target: "valid_member f" "m_kind f = FILE" "m_path f = t" "t \<notin> set (map e_path es)"
    and names: "relative p" "relative t" "plain_name p" "plain_name t" "p \<noteq> t" "\<not> ancestor p t" "\<not> ancestor t p"
    and ordinals: "m_ordinal a = int (length ms)" "m_ordinal b = int (length ms) + 1" "m_ordinal f = int (length ms) + 1"
  shows "(\<exists>es'. normalize_changeset (ms @ [a, f]) = Inr es') \<and>
    normalize_changeset (ms @ [a, b, f\<lparr>m_ordinal := int (length ms) + 2\<rparr>]) = Inl (ChangesetError ''oci-hardlink-target'')"
proof -
  let ?f = "f\<lparr>m_ordinal := int (length ms) + 2\<rparr>"
  obtain s where s: "rfold step empty_nstate ms = Inr s" "tree_inv s" "nodes_ok s" "\<not> unresolved s"
      "finish (int (length ms)) s = Inr es"
    using normalize_changeset_cases [OF layer] .
  have "nodes s t = None"
    using finish_resolved [OF s(3,2,4), of "int (length ms)"] s(5) target(4) by (metis domIff insertCI sum.inject(2))
  note a = forward_link_step [OF s(2) names(1,3) _ _ _ names(5-7) this, of a]
  obtain s1 where s1: "step s a = Inr s1" "tree_inv s1" "nodes s1 p = Some (pending_link a)" "nodes s1 t = None"
      "p \<in> waiting s1 t"
    using a links s(4) by (auto simp: unresolved_def)
  obtain s2 where s2: "step s1 b = Inr s2" "tree_inv s2" "nodes s2 p = Some (pending_link b)" "p \<notin> waiting s2 t"
    using forward_link_step [OF s1(2) names(1,3) _ _ _ names(5-7) s1(4), of b] links s1(3) by auto
  obtain s3 where s3: "step s1 f = Inr s3" "nodes s3 p = Some (bind_link t (m_ordinal f) (pending_link a))"
      "\<exists>n. nodes s3 t = Some n \<and> node_pending_target n = None"
    using target_step [OF s1(2) names(2,4) target(3,2) names(5-7)] s1(3,5) by auto
  obtain s4 where s4: "step s2 ?f = Inr s4" "nodes s4 p = Some (pending_link b)"
    using target_step [OF s2(2) names(2,4) _ _ names(5-7), of ?f] target(2,3) s2(3,4) by auto
  have valid_f: "valid_member ?f" using target(1) by (auto simp: valid_member_def member_post_init_def split: if_splits)
  have ok1: "nodes_ok s1" and ok3: "nodes_ok s3" and ok4: "nodes_ok s4" and inv3: "tree_inv s3"
    using nodes_ok_step [OF s1(1) s(3)] nodes_ok_step [OF s3(1)] nodes_ok_step [OF s2(1)] nodes_ok_step [OF s4(1)]
      links target(1) valid_f step_good [OF s1(2), of f] s3(1) names(2) target(3) by auto
  have "\<not> unresolved s3"
    using link_then_target_resolved [OF s(4) s1(1) _ s3(1) target(3) ok3 _ s3(3)] links s3(2)
    by (auto simp: bind_link_def)
  then obtain es' where "finish (int (length ms + 2)) s3 = Inr es'"
    using finish_resolved [OF ok3 inv3, of "int (length ms + 2)"] by metis
  moreover have "node_pending_target (pending_link b) \<noteq> None" by simp
  then have "unresolved s4" using s4(2) unfolding unresolved_def by blast
  then have "finish k s4 = Inl (ChangesetError ''oci-hardlink-target'')" for k
    using finish_unresolved [OF ok4] by (simp add: finish_def Let_def)
  ultimately show ?thesis
    using normalize_appended [OF layer s(1), of "[a, f]" s3] normalize_appended [OF layer s(1), of "[a, b, ?f]" s4]
      ordinals s1(1) s2(1) s3(1) s4(1)
    by (simp add: upt_rec)
qed

lemma ancestor_unfold: "ancestor a q \<longleftrightarrow> (case parent_of q of None \<Rightarrow> False | Some d \<Rightarrow> a = d \<or> ancestor a d)"
  by (auto elim: ancestorE intro: ancestor.intros split: option.splits)

theorem repeated_forward_link_refused_witness:
  "normalize_changeset [mem 0 ''d/f'' FILE '''', mem 1 ''d/l'' HARDLINK ''t'', mem 2 ''d/l'' HARDLINK ''t'', mem 3 ''t'' FILE '''']
     = Inl (ChangesetError ''oci-hardlink-target'')"
proof -
  let ?ms = "[mem 0 ''d/f'' FILE '''']" and ?a = "mem 1 ''d/l'' HARDLINK ''t''" and ?b = "mem 2 ''d/l'' HARDLINK ''t''"
  let ?f = "(mem 2 ''t'' FILE '''')\<lparr>m_payload := Some 3\<rparr>"
  have "\<exists>es. normalize_changeset ?ms = Inr es \<and> ul ''t'' \<notin> set (map e_path es)"
    by (simp add: exec mem_def cong: eval_cong)
  then obtain es where es: "normalize_changeset ?ms = Inr es" "ul ''t'' \<notin> set (map e_path es)" by blast
  have apart: "\<not> ancestor (ul ''d/l'') (ul ''t'')" "\<not> ancestor (ul ''t'') (ul ''d/l'')"
  proof -
    have "parent_of (ul ''t'') = Some dot" "parent_of (ul ''d'') = Some dot" "parent_of (ul ''d/l'') = Some (ul ''d'')"
      by (simp_all add: exec)
    moreover have "ul ''d/l'' \<noteq> dot" "ul ''t'' \<noteq> dot" by (simp_all add: dot_def)
    ultimately show "\<not> ancestor (ul ''d/l'') (ul ''t'')" "\<not> ancestor (ul ''t'') (ul ''d/l'')"
      by (simp_all add: ancestor_unfold [of _ "ul ''t''"] ancestor_unfold [of _ "ul ''d/l''"] ancestor_unfold [of _ "ul ''d''"])
  qed
  have "normalize_changeset (?ms @ [?a, ?b, ?f\<lparr>m_ordinal := int (length ?ms) + 2\<rparr>]) = Inl (ChangesetError ''oci-hardlink-target'')"
    by (rule repeated_forward_link_refused [where p = "ul ''d/l''" and t = "ul ''t''", THEN conjunct2, OF es(1) _ _ _ _ _ es(2)])
      (use apart in \<open>simp_all add: mem_def valid_member_def member_post_init_def relative_def plain_name_def exec cong: eval_cong\<close>)
  then show ?thesis by (simp add: mem_def)
qed

end
