(* ===== verification/Control_V1.thy ===== *)
theory Control_V1 imports Main Wire_Values Frame_Codec begin

text \<open>
  \<open>src/palimpsest_local/oci_control_protocol.py\<close>: the lifecycle messages of protocol
  v1, their canonical JSON frames, and the incremental decoder. A constructor argument of
  type \<open>Any\<close> is a JSON value; a constructed message carries the validated fields
  with their types. A value that is not one of Python's JSON types cannot be an argument
  of the model.
\<close>

section \<open>Field validators\<close>

definition exact_object :: "json \<Rightarrow> string list \<Rightarrow> string \<Rightarrow> exn + (ustr \<times> json) list" where
  "exact_object value fs label =
     (case value of
        JObj d \<Rightarrow> if same_keys d fs then Inr d else Inl (Refused (label @ '' fields are invalid''))
      | _ \<Rightarrow> Inl (Refused (label @ '' fields are invalid'')))"

text \<open>One message stands for \<open>is invalid\<close> and \<open>is not canonical\<close>.\<close>

definition canonical_uuid :: "json \<Rightarrow> string \<Rightarrow> exn + ustr" where
  "canonical_uuid value label =
     (case value of
        JStr s \<Rightarrow> if is_uuid s then Inr s else Inl (Refused (label @ '' is not canonical''))
      | _ \<Rightarrow> Inl (Refused (label @ '' is not canonical'')))"

definition counter :: "json \<Rightarrow> string \<Rightarrow> exn + int" where
  "counter value label =
     (case value of
        JInt i \<Rightarrow> if 1 \<le> i \<and> i \<le> max_counter then Inr i else Inl (Refused (label @ '' is invalid''))
      | _ \<Rightarrow> Inl (Refused (label @ '' is invalid'')))"

definition digest_field :: "json \<Rightarrow> string \<Rightarrow> exn + ustr" where
  "digest_field value label =
     (case value of
        JStr s \<Rightarrow> if is_digest s then Inr s else Inl (Refused (label @ '' is invalid''))
      | _ \<Rightarrow> Inl (Refused (label @ '' is invalid'')))"

definition nonce_field :: "json \<Rightarrow> exn + ustr" where
  "nonce_field value =
     (case value of
        JStr s \<Rightarrow> if is_hex32 s then Inr s else Inl (Refused ''host nonce is invalid'')
      | _ \<Rightarrow> Inl (Refused ''host nonce is invalid''))"

definition terminal_field :: "json \<Rightarrow> exn + terminal" where
  "terminal_field value =
     rbind (exact_object value [''exit_code'', ''signal''] ''terminal'') (\<lambda>d.
       let exit_code = jget d ''exit_code''; signal = jget d ''signal''
       in if (exit_code = JNull) = (signal = JNull)
          then Inl (Refused ''terminal status must contain exactly one result'')
          else if exit_code \<noteq> JNull \<and> \<not> jint_range exit_code 0 255
          then Inl (Refused ''terminal exit code is invalid'')
          else if signal \<noteq> JNull \<and> \<not> jint_range signal 1 64
          then Inl (Refused ''terminal signal is invalid'')
          else Inr \<lparr>t_exit = int_of_json exit_code, t_signal = int_of_json signal\<rparr>)"

section \<open>Bindings and messages\<close>

record binding =
  b_run_id :: ustr
  b_core_digest :: ustr
  b_stage1_digest :: ustr

definition make_binding :: "json \<Rightarrow> json \<Rightarrow> json \<Rightarrow> exn + binding" where
  "make_binding run_id core stage1 =
     rbind (canonical_uuid run_id ''run ID'') (\<lambda>r.
     rbind (digest_field core ''domain-core digest'') (\<lambda>c.
     rbind (digest_field stage1 ''stage-1 artifact digest'') (\<lambda>s.
     Inr \<lparr>b_run_id = r, b_core_digest = c, b_stage1_digest = s\<rparr>)))"

definition valid_binding :: "binding \<Rightarrow> bool" where
  "valid_binding b \<longleftrightarrow> is_uuid (b_run_id b) \<and> is_digest (b_core_digest b) \<and> is_digest (b_stage1_digest b)"

datatype v1_kind = V1_HELLO | V1_READY | V1_SNAPSHOT | V1_STOP | V1_TERMINAL

definition v1_kind_name :: "v1_kind \<Rightarrow> string" where
  "v1_kind_name k =
     (case k of V1_HELLO \<Rightarrow> ''HELLO'' | V1_READY \<Rightarrow> ''READY'' | V1_SNAPSHOT \<Rightarrow> ''SNAPSHOT''
      | V1_STOP \<Rightarrow> ''STOP'' | V1_TERMINAL \<Rightarrow> ''TERMINAL'')"

definition v1_kinds :: "v1_kind list" where
  "v1_kinds = [V1_HELLO, V1_READY, V1_SNAPSHOT, V1_STOP, V1_TERMINAL]"

datatype snap_state = Snap_ready | Snap_stopping | Snap_terminal

definition snap_name :: "snap_state \<Rightarrow> string" where
  "snap_name s = (case s of Snap_ready \<Rightarrow> ''ready'' | Snap_stopping \<Rightarrow> ''stopping'' | Snap_terminal \<Rightarrow> ''terminal'')"

datatype v1_payload =
    P1_empty
  | P1_stop json
  | P1_snapshot snap_state "int option" "terminal option"
  | P1_terminal terminal

record v1_message =
  m1_kind :: v1_kind
  m1_binding :: binding
  m1_nonce :: ustr
  m1_payload :: v1_payload
  m1_request_id :: "int option"
  m1_sequence :: "int option"
  m1_boot :: "ustr option"
  m1_reply_to :: "int option"

definition snapshot_payload :: "(ustr \<times> json) list \<Rightarrow> exn + v1_payload" where
  "snapshot_payload payload =
     (let state = jget payload ''state''
      in rbind (exact_object (JObj payload) [''state'', ''stop_request_id'', ''terminal''] ''SNAPSHOT payload'') (\<lambda>_.
         let stop_request_id = jget payload ''stop_request_id''; terminal = jget payload ''terminal''
         in if is_text state ''ready'' \<and> terminal = JNull \<and> stop_request_id = JNull
            then Inr (P1_snapshot Snap_ready None None)
            else if is_text state ''terminal'' then
              rbind (terminal_field terminal) (\<lambda>t.
                if stop_request_id \<noteq> JNull
                then rbind (counter stop_request_id ''snapshot STOP request ID'') (\<lambda>i.
                     Inr (P1_snapshot Snap_terminal (Some i) (Some t)))
                else Inr (P1_snapshot Snap_terminal None (Some t)))
            else if is_text state ''stopping'' \<and> terminal = JNull then
              rbind (counter stop_request_id ''snapshot STOP request ID'') (\<lambda>i.
              Inr (P1_snapshot Snap_stopping (Some i) None))
            else Inl (Refused ''SNAPSHOT state is invalid'')))"

text \<open>\<open>__post_init__\<close>; the kind is already known to be one of the five.\<close>

definition v1_hello_init where
  "v1_hello_init b nonce payload request_id sequence boot_generation reply_to =
     rbind (exact_object (JObj payload) [] ''HELLO payload'') (\<lambda>_.
     rbind (counter request_id ''request ID'') (\<lambda>r.
     if sequence \<noteq> JNull \<or> boot_generation \<noteq> JNull \<or> reply_to \<noteq> JNull
     then Inl (Refused ''HELLO fields are invalid'')
     else Inr \<lparr>m1_kind = V1_HELLO, m1_binding = b, m1_nonce = nonce, m1_payload = P1_empty,
                m1_request_id = Some r, m1_sequence = None, m1_boot = None, m1_reply_to = None\<rparr>))"

definition v1_stop_init where
  "v1_stop_init b nonce payload request_id sequence boot_generation reply_to =
     rbind (exact_object (JObj payload) [''signal''] ''STOP payload'') (\<lambda>_.
     if \<not> is_15 (jget payload ''signal'') then Inl (Refused ''STOP signal must be SIGTERM'')
     else
     rbind (counter request_id ''request ID'') (\<lambda>r.
     rbind (canonical_uuid boot_generation ''boot generation'') (\<lambda>g.
     if sequence \<noteq> JNull \<or> reply_to \<noteq> JNull then Inl (Refused ''STOP fields are invalid'')
     else Inr \<lparr>m1_kind = V1_STOP, m1_binding = b, m1_nonce = nonce, m1_payload = P1_stop (jget payload ''signal''),
                m1_request_id = Some r, m1_sequence = None, m1_boot = Some g, m1_reply_to = None\<rparr>)))"

definition v1_guest_init where
  "v1_guest_init kind b nonce payload request_id sequence boot_generation reply_to =
     rbind (counter sequence ''sequence'') (\<lambda>s.
     rbind (canonical_uuid boot_generation ''boot generation'') (\<lambda>g.
     if request_id \<noteq> JNull then Inl (Refused (v1_kind_name kind @ '' fields are invalid''))
     else
     rbind (if kind = V1_READY \<or> kind = V1_SNAPSHOT \<or> reply_to \<noteq> JNull
            then rbind (counter reply_to ''reply-to request ID'') (\<lambda>i. Inr (Some i)) else Inr None) (\<lambda>reply.
     rbind (if kind = V1_READY then
              rbind (exact_object (JObj payload) [] ''READY payload'') (\<lambda>_. Inr P1_empty)
            else if kind = V1_TERMINAL then
              rbind (exact_object (JObj payload) [''terminal''] ''TERMINAL payload'') (\<lambda>_.
              rbind (terminal_field (jget payload ''terminal'')) (\<lambda>t. Inr (P1_terminal t)))
            else snapshot_payload payload) (\<lambda>p.
     Inr \<lparr>m1_kind = kind, m1_binding = b, m1_nonce = nonce, m1_payload = p, m1_request_id = None,
           m1_sequence = Some s, m1_boot = Some g, m1_reply_to = reply\<rparr>))))"

definition v1_message_init ::
  "v1_kind \<Rightarrow> binding \<Rightarrow> json \<Rightarrow> json \<Rightarrow> json \<Rightarrow> json \<Rightarrow> json \<Rightarrow> json \<Rightarrow> exn + v1_message" where
  "v1_message_init kind b host_nonce payload request_id sequence boot_generation reply_to =
     rbind (nonce_field host_nonce) (\<lambda>nonce.
       case payload of
         JObj d \<Rightarrow>
           (case kind of
              V1_HELLO \<Rightarrow> v1_hello_init b nonce d request_id sequence boot_generation reply_to
            | V1_STOP \<Rightarrow> v1_stop_init b nonce d request_id sequence boot_generation reply_to
            | _ \<Rightarrow> v1_guest_init kind b nonce d request_id sequence boot_generation reply_to)
       | _ \<Rightarrow> Inl (Refused ''lifecycle message payload is invalid''))"

section \<open>The dictionary form\<close>

definition v1_payload_items :: "v1_payload \<Rightarrow> (ustr \<times> json) list" where
  "v1_payload_items p =
     (case p of
        P1_empty \<Rightarrow> []
      | P1_stop v \<Rightarrow> [(ul ''signal'', v)]
      | P1_snapshot st stop t \<Rightarrow>
          [(ul ''state'', JStr (ul (snap_name st))), (ul ''stop_request_id'', jint stop),
           (ul ''terminal'', case t of None \<Rightarrow> JNull | Some t \<Rightarrow> terminal_json t)]
      | P1_terminal t \<Rightarrow> [(ul ''terminal'', terminal_json t)])"

definition v1_payload_json :: "v1_payload \<Rightarrow> json" where
  "v1_payload_json p = JObj (v1_payload_items p)"

definition v1_schema :: string where "v1_schema = ''palimpsest.oci-lifecycle-control.v1''"

definition v1_common :: "v1_message \<Rightarrow> (ustr \<times> json) list" where
  "v1_common m =
     [(ul ''domain_core_digest'', JStr (b_core_digest (m1_binding m))),
      (ul ''host_nonce'', JStr (m1_nonce m)),
      (ul ''kind'', JStr (ul (v1_kind_name (m1_kind m)))),
      (ul ''payload'', v1_payload_json (m1_payload m)),
      (ul ''run_id'', JStr (b_run_id (m1_binding m))),
      (ul ''schema'', JStr (ul v1_schema)),
      (ul ''stage1_artifact_digest'', JStr (b_stage1_digest (m1_binding m)))]"

definition v1_items :: "v1_message \<Rightarrow> (ustr \<times> json) list" where
  "v1_items m =
     v1_common m @
       (if m1_kind m = V1_HELLO \<or> m1_kind m = V1_STOP then [(ul ''request_id'', jint (m1_request_id m))]
        else [(ul ''boot_generation'', jstr (m1_boot m)), (ul ''reply_to'', jint (m1_reply_to m)),
              (ul ''sequence'', jint (m1_sequence m))]) @
       (if m1_kind m = V1_STOP then [(ul ''boot_generation'', jstr (m1_boot m))] else [])"

definition v1_to_dict :: "v1_message \<Rightarrow> json" where
  "v1_to_dict m = JObj (v1_items m)"

definition v1_fields :: "v1_kind \<Rightarrow> string list" where
  "v1_fields k =
     [''domain_core_digest'', ''host_nonce'', ''kind'', ''run_id'', ''schema'', ''stage1_artifact_digest'', ''payload''] @
     (case k of
        V1_HELLO \<Rightarrow> [''request_id'']
      | V1_STOP \<Rightarrow> [''boot_generation'', ''request_id'']
      | _ \<Rightarrow> [''boot_generation'', ''reply_to'', ''sequence''])"

definition v1_kind_of :: "json \<Rightarrow> v1_kind option" where
  "v1_kind_of v = find (\<lambda>k. is_text v (v1_kind_name k)) v1_kinds"

definition v1_from_dict :: "json \<Rightarrow> exn + v1_message" where
  "v1_from_dict value =
     (case value of
        JObj d \<Rightarrow>
          rbind (text_in (jget d ''kind'') (map v1_kind_name v1_kinds)) (\<lambda>known.
          case v1_kind_of (jget d ''kind'') of
            None \<Rightarrow> Inl (Refused ''lifecycle message kind is invalid'')
          | Some kind \<Rightarrow>
              rbind (exact_object value (v1_fields kind) ''lifecycle message'') (\<lambda>data.
              if \<not> is_text (jget data ''schema'') v1_schema
              then Inl (Refused ''lifecycle protocol schema is unsupported'')
              else
                rbind (make_binding (jget data ''run_id'') (jget data ''domain_core_digest'')
                         (jget data ''stage1_artifact_digest'')) (\<lambda>b.
                v1_message_init kind b (jget data ''host_nonce'') (jget data ''payload'') (jget data ''request_id'')
                  (jget data ''sequence'') (jget data ''boot_generation'') (jget data ''reply_to''))))
      | _ \<Rightarrow> Inl (Refused ''lifecycle message fields are invalid''))"

section \<open>Payloads and frames\<close>

definition v1_decode_payload :: "bytes \<Rightarrow> exn + v1_message" where
  "v1_decode_payload payload =
     (if payload = [] \<or> max_payload < length payload then Inl (Refused ''lifecycle payload size is invalid'')
      else case utf8_decode payload of
        None \<Rightarrow> Inl (Refused ''lifecycle payload JSON is invalid'')
      | Some text \<Rightarrow>
          (case loads text of
             Inl JDup \<Rightarrow> Inl (Refused ''lifecycle message contains a duplicate key'')
           | Inl _ \<Rightarrow> Inl (Refused ''lifecycle payload JSON is invalid'')
           | Inr value \<Rightarrow>
               rbind (v1_from_dict value) (\<lambda>message.
                 case canonical_json_bytes (v1_to_dict message) of
                   None \<Rightarrow> Inl (Refused ''lifecycle payload is not canonical JSON'')
                 | Some encoded \<Rightarrow>
                     if encoded \<noteq> payload then Inl (Refused ''lifecycle payload must be canonical UTF-8 JSON'')
                     else Inr message)))"

definition v1_encode_frame :: "v1_message \<Rightarrow> exn + bytes" where
  "v1_encode_frame message =
     (case canonical_json_bytes (v1_to_dict message) of
        None \<Rightarrow> Inl (Refused ''lifecycle message is not canonical JSON'')
      | Some payload \<Rightarrow>
          if payload = [] \<or> max_payload < length payload then Inl (Refused ''lifecycle frame exceeds 64 KiB'')
          else Inr (pack_u32 (length payload) @ payload))"

definition v1_decode_frame :: "bytes \<Rightarrow> exn + v1_message" where
  "v1_decode_frame frame =
     (if length frame < 4 then Inl (Refused ''lifecycle frame is truncated'')
      else let n = unpack_u32 (take 4 frame)
           in if n = 0 \<or> max_payload < n then Inl (Refused ''lifecycle frame length is invalid'')
              else if length frame \<noteq> 4 + n
              then Inl (Refused ''lifecycle frame is truncated or contains trailing bytes'')
              else v1_decode_payload (drop 4 frame))"

definition v1_feed :: "frame_state \<Rightarrow> bytes \<Rightarrow> frame_state \<times> (exn + v1_message list)" where
  "v1_feed s data = feed_loop False v1_decode_payload (Refused ''lifecycle frame length is invalid'') s data []"

definition v1_finish :: "frame_state \<Rightarrow> exn + unit" where
  "v1_finish s = (if at_boundary s then Inr () else Inl (Refused ''lifecycle frame stream is truncated''))"

lemmas v1_exec [exec] = exact_object_def canonical_uuid_def counter_def digest_field_def nonce_field_def
  terminal_field_def make_binding_def v1_kind_name_def v1_kinds_def snap_name_def snapshot_payload_def
  v1_hello_init_def v1_stop_init_def v1_guest_init_def v1_message_init_def v1_payload_items_def v1_payload_json_def v1_schema_def
  v1_common_def v1_items_def v1_to_dict_def v1_fields_def v1_kind_of_def v1_from_dict_def v1_decode_payload_def
  v1_encode_frame_def v1_decode_frame_def v1_feed_def v1_finish_def

end
