(* ===== verification/Control_V1_Codec.thy ===== *)
theory Control_V1_Codec imports Main Control_V1 begin

text \<open>
  Protocol v1 on the wire: constructed messages satisfy their field constraints, the
  canonical frame of a message decodes to that message, and the incremental decoder is an
  instance of the framing contract.
\<close>

section \<open>Constructed messages\<close>

definition counter_ok :: "int option \<Rightarrow> bool" where
  "counter_ok v \<longleftrightarrow> (\<exists>i. v = Some i \<and> 1 \<le> i \<and> i \<le> max_counter)"

definition v1_payload_ok :: "v1_kind \<Rightarrow> v1_payload \<Rightarrow> bool" where
  "v1_payload_ok k p =
     (case k of
        V1_HELLO \<Rightarrow> p = P1_empty
      | V1_READY \<Rightarrow> p = P1_empty
      | V1_STOP \<Rightarrow> (\<exists>v. p = P1_stop v \<and> is_15 v)
      | V1_TERMINAL \<Rightarrow> (\<exists>t. p = P1_terminal t \<and> valid_terminal t)
      | V1_SNAPSHOT \<Rightarrow>
          p = P1_snapshot Snap_ready None None \<or>
          (\<exists>i. p = P1_snapshot Snap_stopping (Some i) None \<and> counter_ok (Some i)) \<or>
          (\<exists>v t. p = P1_snapshot Snap_terminal v (Some t) \<and> (v = None \<or> counter_ok v) \<and> valid_terminal t))"

definition v1_valid :: "v1_message \<Rightarrow> bool" where
  "v1_valid m \<longleftrightarrow>
     valid_binding (m1_binding m) \<and> is_hex32 (m1_nonce m) \<and> v1_payload_ok (m1_kind m) (m1_payload m) \<and>
     (if m1_kind m = V1_HELLO then counter_ok (m1_request_id m) \<and> m1_sequence m = None \<and> m1_boot m = None \<and> m1_reply_to m = None
      else if m1_kind m = V1_STOP then
        counter_ok (m1_request_id m) \<and> m1_sequence m = None \<and> (\<exists>g. m1_boot m = Some g \<and> is_uuid g) \<and> m1_reply_to m = None
      else m1_request_id m = None \<and> counter_ok (m1_sequence m) \<and> (\<exists>g. m1_boot m = Some g \<and> is_uuid g) \<and>
           (counter_ok (m1_reply_to m) \<or> m1_kind m = V1_TERMINAL \<and> m1_reply_to m = None))"

lemma counter_Inr: "counter v l = Inr i \<longleftrightarrow> v = JInt i \<and> 1 \<le> i \<and> i \<le> max_counter"
  by (auto simp: counter_def split: json.splits if_splits)

lemma canonical_uuid_Inr: "canonical_uuid v l = Inr s \<longleftrightarrow> v = JStr s \<and> is_uuid s"
  by (auto simp: canonical_uuid_def split: json.splits)

lemma digest_field_Inr: "digest_field v l = Inr s \<longleftrightarrow> v = JStr s \<and> is_digest s"
  by (auto simp: digest_field_def split: json.splits)

lemma nonce_field_Inr: "nonce_field v = Inr s \<longleftrightarrow> v = JStr s \<and> is_hex32 s"
  by (auto simp: nonce_field_def split: json.splits)

lemma exact_object_Inr: "exact_object v fs l = Inr d \<longleftrightarrow> v = JObj d \<and> same_keys d fs"
  by (auto simp: exact_object_def split: json.splits)

lemma terminal_field_valid: "terminal_field v = Inr t \<Longrightarrow> valid_terminal t"
  by (auto simp: terminal_field_def rbind_Inr_iff exact_object_Inr Let_def valid_terminal_def jint_range_def
      int_of_json_def split: if_splits json.splits)

lemma terminal_field_json: "valid_terminal t \<Longrightarrow> terminal_field (terminal_json t) = Inr t"
  by (cases t)
    (auto simp: terminal_field_def terminal_json_def exact_object_def same_keys_def Let_def jget_def valid_terminal_def
      jint_def jint_range_def int_of_json_def split: option.splits)

lemmas field_Inr = counter_Inr canonical_uuid_Inr digest_field_Inr nonce_field_Inr exact_object_Inr

lemma make_binding_valid: "make_binding r c s = Inr b \<Longrightarrow> valid_binding b"
  by (auto simp: make_binding_def rbind_Inr_iff field_Inr valid_binding_def)

lemma make_binding_json:
  "valid_binding b \<Longrightarrow> make_binding (JStr (b_run_id b)) (JStr (b_core_digest b)) (JStr (b_stage1_digest b)) = Inr b"
  by (simp add: make_binding_def valid_binding_def canonical_uuid_def digest_field_def)

lemma snapshot_payload_ok: "snapshot_payload d = Inr p \<Longrightarrow> v1_payload_ok V1_SNAPSHOT p"
  by (auto simp: snapshot_payload_def Let_def rbind_Inr_iff field_Inr v1_payload_ok_def counter_ok_def
      dest: terminal_field_valid split: if_splits)

lemma v1_message_init_valid:
  assumes "v1_message_init k b n p r s g rep = Inr m" and "valid_binding b"
  shows "v1_valid m \<and> m1_kind m = k \<and> m1_binding m = b"
proof -
  from assms(1) obtain nonce d where n: "n = JStr nonce" "is_hex32 nonce" and p: "p = JObj d"
    by (cases p) (auto simp: v1_message_init_def rbind_Inr_iff field_Inr)
  show ?thesis
  proof (cases k)
    case V1_HELLO
    with assms n p show ?thesis
      by (auto simp: v1_message_init_def v1_hello_init_def rbind_Inr_iff field_Inr v1_valid_def v1_payload_ok_def
          counter_ok_def split: if_splits)
  next
    case V1_STOP
    with assms n p show ?thesis
      by (auto simp: v1_message_init_def v1_stop_init_def rbind_Inr_iff field_Inr v1_valid_def v1_payload_ok_def
          counter_ok_def split: if_splits)
  next
    case V1_READY
    with assms n p show ?thesis
      by (auto simp: v1_message_init_def v1_guest_init_def rbind_Inr_iff field_Inr v1_valid_def v1_payload_ok_def
          counter_ok_def split: if_splits)
  next
    case V1_SNAPSHOT
    with assms n p show ?thesis
      by (auto simp: v1_message_init_def v1_guest_init_def rbind_Inr_iff field_Inr v1_valid_def counter_ok_def
          dest: snapshot_payload_ok split: if_splits)
  next
    case V1_TERMINAL
    with assms n p show ?thesis
      by (auto simp: v1_message_init_def v1_guest_init_def rbind_Inr_iff field_Inr v1_valid_def v1_payload_ok_def
          counter_ok_def dest: terminal_field_valid split: if_splits)
  qed
qed

lemma v1_from_dict_valid: "v1_from_dict v = Inr m \<Longrightarrow> v1_valid m"
  by (auto simp: v1_from_dict_def rbind_Inr_iff split: json.splits option.splits if_splits
      dest!: make_binding_valid dest: v1_message_init_valid)

section \<open>The dictionary form reads back\<close>

lemma v1_payload_canon [simp]: "v1_payload_ok k p \<Longrightarrow> canon (v1_payload_json p) = v1_payload_json p"
  by (cases k) (auto simp: v1_payload_ok_def v1_payload_json_def v1_payload_items_def is_15_def ul_def split: option.splits)

lemma snapshot_payload_json:
  assumes "v1_payload_ok V1_SNAPSHOT p"
  shows "snapshot_payload (v1_payload_items p) = Inr p"
proof -
  note defs = snapshot_payload_def v1_payload_items_def exact_object_def same_keys_def jget_def is_text_def
    snap_name_def counter_def Let_def jint_Some jint_None
  consider "p = P1_snapshot Snap_ready None None"
    | i where "p = P1_snapshot Snap_stopping (Some i) None" "1 \<le> i" "i \<le> max_counter"
    | v t where "p = P1_snapshot Snap_terminal v (Some t)" "v = None \<or> counter_ok v" "valid_terminal t"
    using assms by (auto simp: v1_payload_ok_def counter_ok_def)
  then show ?thesis
  proof cases
    case 3
    have "terminal_json t \<noteq> JNull" by (simp add: terminal_json_def)
    with 3 show ?thesis by (cases v) (simp_all add: defs counter_ok_def terminal_field_json)
  qed (simp_all add: defs)
qed

lemma v1_message_init_json:
  assumes "v1_valid m"
  shows "v1_message_init (m1_kind m) (m1_binding m) (JStr (m1_nonce m)) (v1_payload_json (m1_payload m))
      (jint (m1_request_id m)) (jint (m1_sequence m)) (jstr (m1_boot m)) (jint (m1_reply_to m)) = Inr m"
proof (cases "m1_kind m")
  case V1_SNAPSHOT
  with assms snapshot_payload_json [of "m1_payload m"] show ?thesis
    by (cases m)
      (auto simp: v1_valid_def v1_message_init_def v1_guest_init_def nonce_field_def counter_ok_def counter_def
        canonical_uuid_def v1_payload_json_def jint_Some jint_None jstr_Some jstr_None)
qed (use assms in \<open>cases m; auto simp: v1_valid_def v1_payload_ok_def v1_message_init_def v1_guest_init_def
  v1_hello_init_def v1_stop_init_def nonce_field_def counter_ok_def counter_def canonical_uuid_def exact_object_def
  same_keys_def v1_payload_json_def v1_payload_items_def jget_def terminal_field_json jint_Some jint_None jstr_Some jstr_None\<close>)+

lemma v1_items_distinct: "distinct (dkeys (v1_items m))"
  by (simp add: v1_items_def v1_common_def)

lemma v1_items_get:
  "jget (v1_items m) ''kind'' = JStr (ul (v1_kind_name (m1_kind m)))"
  "jget (v1_items m) ''schema'' = JStr (ul v1_schema)"
  "jget (v1_items m) ''run_id'' = JStr (b_run_id (m1_binding m))"
  "jget (v1_items m) ''domain_core_digest'' = JStr (b_core_digest (m1_binding m))"
  "jget (v1_items m) ''stage1_artifact_digest'' = JStr (b_stage1_digest (m1_binding m))"
  "jget (v1_items m) ''host_nonce'' = JStr (m1_nonce m)"
  "jget (v1_items m) ''payload'' = v1_payload_json (m1_payload m)"
  by (simp_all add: jget_def v1_items_def v1_common_def)

lemma v1_items_optional:
  assumes "v1_valid m"
  shows "jget (v1_items m) ''request_id'' = jint (m1_request_id m)"
    and "jget (v1_items m) ''sequence'' = jint (m1_sequence m)"
    and "jget (v1_items m) ''boot_generation'' = jstr (m1_boot m)"
    and "jget (v1_items m) ''reply_to'' = jint (m1_reply_to m)"
  using assms by (cases "m1_kind m"; auto simp: v1_valid_def jget_def v1_items_def v1_common_def jint_def jstr_def)+

lemma v1_items_keys: "same_keys (v1_items m) (v1_fields (m1_kind m))"
  by (cases "m1_kind m") (auto simp: same_keys_iff v1_items_def v1_common_def v1_fields_def)

lemma v1_kind_of_name [simp]: "v1_kind_of (JStr (ul (v1_kind_name k))) = Some k"
  by (cases k) (simp_all add: v1_kind_of_def v1_kinds_def v1_kind_name_def is_text_def)

lemma v1_from_to_dict:
  assumes "v1_valid m"
  shows "v1_from_dict (canon (v1_to_dict m)) = Inr m"
proof -
  note jg = jget_canon [OF v1_items_distinct [of m]]
  have pay: "canon (v1_payload_json (m1_payload m)) = v1_payload_json (m1_payload m)"
    using assms by (auto simp: v1_valid_def)
  have "valid_binding (m1_binding m)" using assms by (simp add: v1_valid_def)
  then show ?thesis
    by (simp add: v1_to_dict_def v1_from_dict_def jg v1_items_get v1_items_optional [OF assms] pay text_in_def
        exact_object_def v1_items_keys is_text_def make_binding_json v1_message_init_json [OF assms])
qed

lemma v1_payload_wf: "v1_payload_ok k p \<Longrightarrow> wf_json (v1_payload_json p)"
  by (cases k) (auto simp: v1_payload_ok_def v1_payload_json_def v1_payload_items_def is_15_def split: option.splits)

lemma wf_jstr: "(\<And>s. v = Some s \<Longrightarrow> wf_str s) \<Longrightarrow> wf_json (jstr v)"
  by (auto simp: jstr_def split: option.splits)

lemma v1_to_dict_wf:
  assumes "v1_valid m"
  shows "wf_json (v1_to_dict m)"
proof -
  have s: "wf_str (b_core_digest (m1_binding m))" "wf_str (m1_nonce m)" "wf_str (b_run_id (m1_binding m))"
    "wf_str (b_stage1_digest (m1_binding m))" "\<And>g. m1_boot m = Some g \<Longrightarrow> wf_str g"
    using assms is_digest_ascii is_hex32_ascii is_uuid_ascii is_ascii_wf
    by (auto simp: v1_valid_def valid_binding_def split: if_splits)
  moreover have "wf_json (v1_payload_json (m1_payload m))" using assms v1_payload_wf by (auto simp: v1_valid_def)
  moreover have "wf_json (jstr (m1_boot m))" using s(5) by (rule wf_jstr)
  ultimately show ?thesis
    using v1_items_distinct [of m]
    by (auto simp: v1_to_dict_def v1_items_def v1_common_def split: if_splits)
qed

section \<open>Frames\<close>

definition v1_payload_bytes :: "v1_message \<Rightarrow> bytes option" where
  "v1_payload_bytes m =
     (if v1_valid m then
        (case canonical_json_bytes (v1_to_dict m) of
           None \<Rightarrow> None
         | Some p \<Rightarrow> if p = [] \<or> max_payload < length p then None else Some p)
      else None)"

lemma v1_decode_canonical:
  assumes "v1_payload_bytes m = Some p"
  shows "v1_decode_payload p = Inr m"
proof -
  have m: "v1_valid m" and p: "canonical_json_bytes (v1_to_dict m) = Some p" "p \<noteq> []" "length p \<le> max_payload"
    using assms by (auto simp: v1_payload_bytes_def split: if_splits option.splits)
  obtain t where t: "utf8_decode p = Some t" "loads t = Inr (canon (v1_to_dict m))"
    using loads_canonical [OF p(1) v1_to_dict_wf [OF m]] .
  with p v1_from_to_dict [OF m] show ?thesis by (simp add: v1_decode_payload_def)
qed

text \<open>The decoder of protocol v1 is an instance of the framing contract.\<close>

interpretation v1f: frame_format v1_payload_bytes v1_decode_payload "Refused ''lifecycle frame length is invalid''" False
proof unfold_locales
  fix m p assume m: "v1_payload_bytes m = Some p"
  then show "0 < length p \<and> length p \<le> max_payload"
    by (auto simp: v1_payload_bytes_def split: if_splits option.splits)
  show "v1_decode_payload p = Inr m" using v1_decode_canonical [OF m] .
qed

lemma v1_encode_frame_bytes:
  "v1_valid m \<Longrightarrow> v1_encode_frame m = Inr f \<Longrightarrow> \<exists>p. v1_payload_bytes m = Some p \<and> f = frame_bytes p"
  by (auto simp: v1_encode_frame_def v1_payload_bytes_def frame_bytes_def split: option.splits if_splits)

lemma v1_decode_payload_valid: "v1_decode_payload p = Inr m \<Longrightarrow> v1_valid m"
  by (auto simp: v1_decode_payload_def rbind_Inr_iff dest: v1_from_dict_valid
      split: if_splits option.splits sum.splits jerr.splits)

end
