(* ===== verification/Control_V1_Props.thy ===== *)
theory Control_V1_Props imports Main Control_V1_Codec begin

text \<open>
  Properties of the v1 wire format, with a concrete message for their witnesses.
\<close>

section \<open>A concrete message\<close>

definition sample_uuid :: ustr where
  "sample_uuid = ul ''01234567-89ab-4cde-8f01-23456789abcd''"

definition sample_digest :: ustr where
  "sample_digest = ul ''sha256:aaaaaaaaaaaaaaaaaaaaaaaaaaaaaaaaaaaaaaaaaaaaaaaaaaaaaaaaaaaaaaaa''"

definition sample_nonce :: ustr where
  "sample_nonce = ul ''0000000000000000000000000000000000000000000000000000000000000000''"

definition sample_binding :: binding where
  "sample_binding = \<lparr>b_run_id = sample_uuid, b_core_digest = sample_digest, b_stage1_digest = sample_digest\<rparr>"

definition sample_hello :: v1_message where
  "sample_hello = \<lparr>m1_kind = V1_HELLO, m1_binding = sample_binding, m1_nonce = sample_nonce, m1_payload = P1_empty,
     m1_request_id = Some 1, m1_sequence = None, m1_boot = None, m1_reply_to = None\<rparr>"

lemma sample_uuid_ok: "is_uuid sample_uuid"
  by (simp add: sample_uuid_def is_uuid_def uuid_shape_def ul_def is_hex_lower_def numeral_eq_Suc)

lemma sample_digest_ok: "is_digest sample_digest"
  by (simp add: sample_digest_def is_digest_def digest_prefix_def is_hex32_def is_hex_lower_def ul_def)

lemma sample_nonce_ok: "is_hex32 sample_nonce"
  by (simp add: sample_nonce_def is_hex32_def is_hex_lower_def ul_def)

lemma sample_binding_ok: "valid_binding sample_binding"
  by (simp add: sample_binding_def valid_binding_def sample_uuid_ok sample_digest_ok)

lemma sample_hello_valid: "v1_valid sample_hello"
  by (simp add: sample_hello_def v1_valid_def sample_binding_ok v1_payload_ok_def counter_ok_def max_counter_def
      sample_nonce_ok)

lemma sample_hello_frame: "\<exists>f. v1_encode_frame sample_hello = Inr f"
  by (simp add: exec sample_hello_def sample_binding_def sample_uuid_def sample_digest_def sample_nonce_def cong: eval_cong)

section \<open>Properties of the wire format\<close>

text \<open>Encoding then decoding: the frame of any constructed v1 message decodes to exactly
  that message, whatever its kind.\<close>
theorem v1_frame_roundtrip:
  assumes "v1_valid m" and "v1_encode_frame m = Inr f"
  shows "v1_decode_frame f = Inr m"
proof -
  obtain p where p: "v1_payload_bytes m = Some p" "f = frame_bytes p"
    using v1_encode_frame_bytes [OF assms] by blast
  then have len: "0 < length p" "length p \<le> max_payload"
    by (auto simp: v1_payload_bytes_def split: if_splits option.splits)
  have "unpack_u32 (pack_u32 (length p)) = length p"
    using len by (intro unpack_pack_u32) (simp add: max_payload_def)
  with p len v1_decode_canonical [OF p(1)] show ?thesis
    by (simp add: v1_decode_frame_def frame_bytes_def Let_def)
qed

theorem v1_frame_roundtrip_witness:
  "\<exists>f. v1_encode_frame sample_hello = Inr f \<and> v1_decode_frame f = Inr sample_hello"
  using v1_frame_roundtrip [OF sample_hello_valid] sample_hello_frame by blast

text \<open>The decoder accepts nothing but canonical encodings of valid messages: an accepted
  payload is the payload the encoder writes for the decoded message, so one message has one
  wire form and decoding is injective.\<close>
theorem v1_decode_only_canonical:
  assumes "v1_decode_payload p = Inr m"
  shows "v1_valid m \<and> v1_encode_frame m = Inr (frame_bytes p)"
proof -
  have "v1_valid m" using v1_decode_payload_valid [OF assms] .
  moreover have "canonical_json_bytes (v1_to_dict m) = Some p" "p \<noteq> []" "length p \<le> max_payload"
    using assms
    by (auto simp: v1_decode_payload_def rbind_Inr_iff split: if_splits option.splits sum.splits jerr.splits)
  ultimately show ?thesis by (simp add: v1_encode_frame_def frame_bytes_def)
qed

theorem v1_decode_only_canonical_witness:
  "\<exists>p. v1_decode_payload p = Inr sample_hello \<and> v1_encode_frame sample_hello = Inr (frame_bytes p)"
proof -
  obtain p where "v1_payload_bytes sample_hello = Some p"
    using sample_hello_frame v1_encode_frame_bytes [OF sample_hello_valid] by blast
  then have "v1_decode_payload p = Inr sample_hello" by (rule v1_decode_canonical)
  with v1_decode_only_canonical [OF this] show ?thesis by blast
qed

text \<open>C6. The incremental decoder gives back a stream of messages in order however the
  transport cuts the bytes into chunks, and ends at a frame boundary, so \<open>finish\<close> passes.\<close>
theorem v1_stream_any_chunking:
  assumes "list_all2 (\<lambda>m f. v1_valid m \<and> v1_encode_frame m = Inr f) ms fs" and "concat cs = concat fs"
  shows "\<exists>s. feed_chunks False v1_decode_payload (Refused ''lifecycle frame length is invalid'') new_decoder cs []
             = (s, Inr ms) \<and> v1_finish s = Inr ()"
proof -
  from assms(1) obtain ps where ps: "list_all2 (\<lambda>m p. v1_payload_bytes m = Some p) ms ps" "fs = map frame_bytes ps"
  proof (induction ms fs arbitrary: thesis rule: list_all2_induct)
    case (Cons m ms f fs)
    obtain p where "v1_payload_bytes m = Some p" "f = frame_bytes p" using v1_encode_frame_bytes Cons.hyps by blast
    moreover obtain ps where "list_all2 (\<lambda>m p. v1_payload_bytes m = Some p) ms ps" "fs = map frame_bytes ps"
      using Cons.IH by blast
    ultimately show ?case using Cons.prems [of "p # ps"] by simp
  qed simp
  have "v1_finish new_decoder = Inr ()" by (simp add: v1_finish_def at_boundary_def new_decoder_def)
  with v1f.feed_stream [OF ps(1)] assms(2) ps(2) show ?thesis by auto
qed

theorem v1_stream_any_chunking_witness:
  "\<exists>f s. v1_encode_frame sample_hello = Inr f \<and>
     feed_chunks False v1_decode_payload (Refused ''lifecycle frame length is invalid'') new_decoder
       [take 3 f, drop 3 f @ take 7 f, drop 7 f] [] = (s, Inr [sample_hello, sample_hello])"
proof -
  obtain f where f: "v1_encode_frame sample_hello = Inr f" using sample_hello_frame by blast
  have "list_all2 (\<lambda>m f. v1_valid m \<and> v1_encode_frame m = Inr f) [sample_hello, sample_hello] [f, f]"
    using f sample_hello_valid by simp
  from v1_stream_any_chunking [OF this, of "[take 3 f, drop 3 f @ take 7 f, drop 7 f]"] f show ?thesis
    by auto
qed

text \<open>A payload whose \<open>kind\<close> is a JSON list or object is not refused with the module's
  error: the membership test hashes the value and a \<open>TypeError\<close> leaves the decoder.\<close>
theorem v1_unhashable_kind_escapes:
  "v1_decode_payload (bl ''{\"kind\":[]}'') = Inl TypeErr \<and> v1_decode_payload (bl ''{\"kind\":{}}'') = Inl TypeErr \<and>
   v1_decode_payload (bl ''{\"kind\":7}'') = Inl (Refused ''lifecycle message kind is invalid'')"
  by (simp add: exec cong: eval_cong)

end
