(* ===== verification/Control_V1_Session.thy ===== *)
theory Control_V1_Session imports Main Control_V1_Codec begin

text \<open>
  \<open>HostOCIControlSession\<close> of \<open>src/palimpsest_local/oci_control_protocol.py\<close>:
  the host side of the lifecycle, as a record and one function per method. A method returns
  the session it leaves behind together with its result or exception, because a method
  that raises may already have written fields. The value the nonce factory returns is an
  argument of \<open>v1_hello\<close>.
\<close>

section \<open>State\<close>

datatype host_state = New | HelloSent | Ready | StopSent | Terminal

record v1_session =
  s1_binding :: binding
  s1_used_nonces :: "ustr list"
  s1_nonce :: "ustr option"
  s1_sent_request_id :: int
  s1_received_sequence :: int
  s1_boot :: "ustr option"
  s1_pending :: "int option"
  s1_stop_request_id :: "int option"
  s1_terminal :: "terminal option"
  s1_terminal_stop :: "int option"
  s1_reconnecting :: bool
  s1_reconnect_from :: "host_state option"
  s1_hello_retry :: bool
  s1_state :: host_state

definition v1_new :: "binding \<Rightarrow> v1_session" where
  "v1_new b =
     \<lparr>s1_binding = b, s1_used_nonces = [], s1_nonce = None, s1_sent_request_id = 0, s1_received_sequence = 0,
      s1_boot = None, s1_pending = None, s1_stop_request_id = None, s1_terminal = None, s1_terminal_stop = None,
      s1_reconnecting = False, s1_reconnect_from = None, s1_hello_retry = False, s1_state = New\<rparr>"

section \<open>Requests of the host\<close>

definition v1_next_request :: "v1_kind \<Rightarrow> json \<Rightarrow> v1_session \<Rightarrow> v1_session \<times> (exn + v1_message)" where
  "v1_next_request kind payload s =
     (case s1_nonce s of
        None \<Rightarrow> (s, Inl (Refused ''session has no active nonce''))
      | Some nonce \<Rightarrow>
          (let n = s1_sent_request_id s + 1; s1 = s\<lparr>s1_sent_request_id := n, s1_pending := Some n\<rparr>
           in (s1, v1_message_init kind (s1_binding s) (JStr nonce) payload (JInt n) JNull
                     (if kind = V1_STOP then jstr (s1_boot s) else JNull) JNull)))"

definition v1_hello_mode :: "bool \<Rightarrow> v1_session \<Rightarrow> exn + v1_session" where
  "v1_hello_mode reconnect s =
     (if reconnect then
        (if s1_state s = HelloSent then
           Inr (if \<not> s1_reconnecting s then s\<lparr>s1_hello_retry := True\<rparr> else s)
         else if s1_state s \<in> {Ready, StopSent, Terminal} then
           Inr (s\<lparr>s1_reconnecting := True, s1_reconnect_from := Some (s1_state s)\<rparr>)
         else Inl (Refused ''session is not reconnectable''))
      else if s1_state s \<noteq> New then Inl (Refused ''session HELLO was already sent'')
      else Inr s)"

definition v1_hello :: "bool \<Rightarrow> json \<Rightarrow> v1_session \<Rightarrow> v1_session \<times> (exn + v1_message)" where
  "v1_hello reconnect produced s =
     (case v1_hello_mode reconnect s of
        Inl e \<Rightarrow> (s, Inl e)
      | Inr s1 \<Rightarrow>
          (case produced of
             JStr nonce \<Rightarrow>
               if is_hex32 nonce \<and> nonce \<notin> set (s1_used_nonces s1) then
                 (let s2 = s1\<lparr>s1_used_nonces := nonce # s1_used_nonces s1, s1_nonce := Some nonce\<rparr>;
                      s3 = (if reconnect then s2
                            else s2\<lparr>s1_reconnecting := False, s1_reconnect_from := None, s1_hello_retry := False\<rparr>)
                  in v1_next_request V1_HELLO (JObj []) (s3\<lparr>s1_state := HelloSent\<rparr>))
               else (s1, Inl (Refused ''nonce factory did not produce a fresh canonical nonce''))
           | _ \<Rightarrow> (s1, Inl (Refused ''nonce factory did not produce a fresh canonical nonce''))))"

definition sigterm_payload :: json where
  "sigterm_payload = JObj [(ul ''signal'', JInt 15)]"

definition v1_stop :: "v1_session \<Rightarrow> v1_session \<times> (exn + v1_message)" where
  "v1_stop s =
     (if s1_state s \<noteq> Ready \<or> s1_reconnecting s
      then (s, Inl (Refused ''STOP requires a current ready snapshot''))
      else
        let s1 = s\<lparr>s1_state := StopSent\<rparr>
        in case s1_stop_request_id s1 of
             None \<Rightarrow>
               (case v1_next_request V1_STOP sigterm_payload s1 of
                  (s2, Inl e) \<Rightarrow> (s2, Inl e)
                | (s2, Inr message) \<Rightarrow> (s2\<lparr>s1_stop_request_id := m1_request_id message\<rparr>, Inr message))
           | Some stop_id \<Rightarrow>
               (case (s1_nonce s1, s1_boot s1) of
                  (Some nonce, Some boot) \<Rightarrow>
                    (s1, v1_message_init V1_STOP (s1_binding s1) (JStr nonce) sigterm_payload (JInt stop_id) JNull
                           (JStr boot) JNull)
                | _ \<Rightarrow> (s1, Inl (Refused ''STOP retransmission state is invalid''))))"

section \<open>Messages of the guest\<close>

text \<open>The three payload fields of a SNAPSHOT, and the terminal status of a TERMINAL.\<close>

definition snap_fields :: "v1_message \<Rightarrow> (snap_state \<times> int option \<times> terminal option) option" where
  "snap_fields m = (case m1_payload m of P1_snapshot st stop t \<Rightarrow> Some (st, stop, t) | _ \<Rightarrow> None)"

definition terminal_of :: "v1_message \<Rightarrow> terminal option" where
  "terminal_of m = (case m1_payload m of P1_terminal t \<Rightarrow> Some t | _ \<Rightarrow> None)"

definition v1_accept_snapshot ::
  "snap_state \<Rightarrow> int option \<Rightarrow> terminal option \<Rightarrow> v1_session \<Rightarrow> exn + v1_session" where
  "v1_accept_snapshot st stop t s =
     (if st = Snap_ready \<and> s1_reconnect_from s \<notin> {Some Ready, Some StopSent}
      then Inl (Refused ''reconnect SNAPSHOT regressed lifecycle state'')
      else
      rbind
        (if st = Snap_stopping then
           (if s1_reconnect_from s \<noteq> Some StopSent \<or> stop \<noteq> s1_stop_request_id s
            then Inl (Refused ''reconnect SNAPSHOT STOP request is invalid'')
            else Inr (s\<lparr>s1_state := StopSent\<rparr>))
         else if st = Snap_terminal then
           (if s1_reconnect_from s = Some StopSent \<and> stop \<notin> {None, s1_stop_request_id s}
            then Inl (Refused ''reconnect terminal SNAPSHOT STOP request is invalid'')
            else if s1_reconnect_from s = Some Ready \<and> stop \<noteq> None
            then Inl (Refused ''reconnect natural terminal SNAPSHOT has a STOP request'')
            else if s1_reconnect_from s = Some Terminal \<and> (t \<noteq> s1_terminal s \<or> stop \<noteq> s1_terminal_stop s)
            then Inl (Refused ''reconnect terminal SNAPSHOT changed'')
            else Inr (s\<lparr>s1_terminal := t, s1_terminal_stop := stop, s1_state := Terminal\<rparr>))
         else Inr (s\<lparr>s1_state := Ready\<rparr>))
        (\<lambda>s1. Inr (s1\<lparr>s1_reconnecting := False, s1_reconnect_from := None\<rparr>)))"

definition v1_transition :: "v1_message \<Rightarrow> v1_session \<Rightarrow> exn + v1_session" where
  "v1_transition m s =
     (if s1_reconnecting s then
        (case snap_fields m of
           Some (st, stop, t) \<Rightarrow>
             if m1_kind m \<noteq> V1_SNAPSHOT \<or> m1_reply_to m \<noteq> s1_pending s
             then Inl (Refused ''reconnect requires a current SNAPSHOT'')
             else v1_accept_snapshot st stop t s
         | None \<Rightarrow> Inl (Refused ''reconnect requires a current SNAPSHOT''))
      else if s1_state s = HelloSent \<and> m1_kind m = V1_READY \<and> m1_reply_to m = s1_pending s
      then Inr (s\<lparr>s1_state := Ready, s1_hello_retry := False\<rparr>)
      else if s1_state s = HelloSent \<and> s1_hello_retry s \<and> m1_kind m = V1_SNAPSHOT \<and> m1_reply_to m = s1_pending s
              \<and> map_option fst (snap_fields m) = Some Snap_ready
      then Inr (s\<lparr>s1_state := Ready, s1_hello_retry := False\<rparr>)
      else if s1_state s = Ready \<and> m1_kind m = V1_TERMINAL \<and> m1_reply_to m = None
      then Inr (s\<lparr>s1_terminal := terminal_of m, s1_terminal_stop := None, s1_state := Terminal\<rparr>)
      else if s1_state s = StopSent \<and> m1_kind m = V1_TERMINAL \<and> m1_reply_to m \<in> {None, s1_stop_request_id s}
      then Inr (s\<lparr>s1_terminal := terminal_of m, s1_terminal_stop := m1_reply_to m, s1_state := Terminal\<rparr>)
      else Inl (Refused ''guest lifecycle transition is invalid''))"

definition v1_accept :: "v1_message \<Rightarrow> v1_session \<Rightarrow> v1_session \<times> (exn + unit)" where
  "v1_accept m s =
     (if m1_binding m \<noteq> s1_binding s then (s, Inl (Refused ''guest lifecycle binding is invalid''))
      else if s1_nonce s \<noteq> Some (m1_nonce m) then (s, Inl (Refused ''guest lifecycle nonce is stale''))
      else case m1_sequence m of
        None \<Rightarrow> (s, Inl (Refused ''guest lifecycle ordering is stale''))
      | Some sequence \<Rightarrow>
          if sequence \<le> s1_received_sequence s then (s, Inl (Refused ''guest lifecycle ordering is stale''))
          else if s1_boot s \<noteq> None \<and> m1_boot m \<noteq> s1_boot s
          then (s, Inl (Refused ''guest boot generation is stale''))
          else case v1_transition m s of
            Inl e \<Rightarrow> (s, Inl e)
          | Inr s1 \<Rightarrow>
              (s1\<lparr>s1_boot := (if s1_boot s1 = None then m1_boot m else s1_boot s1),
                  s1_received_sequence := sequence, s1_pending := None\<rparr>, Inr ()))"

section \<open>Runs of a session\<close>

text \<open>One call of a method by the driver of the session, whatever its outcome.\<close>

inductive v1_call :: "v1_session \<Rightarrow> v1_session \<Rightarrow> bool" where
  hello: "v1_hello reconnect nonce s = (s', r) \<Longrightarrow> v1_call s s'"
| stop: "v1_stop s = (s', r) \<Longrightarrow> v1_call s s'"
| accept: "v1_valid m \<Longrightarrow> v1_accept m s = (s', r) \<Longrightarrow> v1_call s s'"

inductive_cases v1_callE: "v1_call s s'"

inductive v1_reach :: "v1_session \<Rightarrow> v1_session \<Rightarrow> bool" for s where
  refl: "v1_reach s s"
| step: "v1_reach s t \<Longrightarrow> v1_call t u \<Longrightarrow> v1_reach s u"

lemmas v1_session_defs = v1_hello_def v1_hello_mode_def v1_stop_def v1_next_request_def v1_accept_def
  v1_transition_def v1_accept_snapshot_def Let_def

lemmas v1_session_exec [exec] = v1_new_def v1_next_request_def v1_hello_mode_def v1_hello_def sigterm_payload_def
  v1_stop_def snap_fields_def terminal_of_def v1_accept_snapshot_def v1_transition_def v1_accept_def

end
