(* ===== verification/Control_V1_Safety.thy ===== *)
theory Control_V1_Safety imports Main Control_V1_Session Control_V1_Props begin

text \<open>
  Safety of the v1 host session over arbitrary sequences of calls, failing calls included:
  a rejected guest message changes nothing, sequence numbers only grow, identities never
  change once set, and a recorded terminal outcome is final.
\<close>

section \<open>One call\<close>

lemma v1_accept_ok:
  assumes "v1_accept m s = (s', Inr ())"
  obtains sequence s1 where "m1_sequence m = Some sequence" and "s1_received_sequence s < sequence"
    and "m1_binding m = s1_binding s" and "s1_nonce s = Some (m1_nonce m)"
    and "s1_boot s = None \<or> m1_boot m = s1_boot s" and "v1_transition m s = Inr s1"
    and "s' = s1\<lparr>s1_boot := (if s1_boot s1 = None then m1_boot m else s1_boot s1),
                  s1_received_sequence := sequence, s1_pending := None\<rparr>"
  using assms by (auto simp: v1_accept_def split: if_splits option.splits sum.splits)

lemma v1_accept_error: "v1_accept m s = (s', Inl e) \<Longrightarrow> s' = s"
  by (auto simp: v1_accept_def split: if_splits option.splits sum.splits)

lemma v1_transition_keeps:
  "v1_transition m s = Inr s' \<Longrightarrow>
   s1_binding s' = s1_binding s \<and> s1_boot s' = s1_boot s \<and> s1_stop_request_id s' = s1_stop_request_id s \<and>
   s1_used_nonces s' = s1_used_nonces s \<and> s1_nonce s' = s1_nonce s \<and>
   s1_received_sequence s' = s1_received_sequence s"
  by (auto simp: v1_transition_def v1_accept_snapshot_def rbind_Inr_iff split: if_splits option.splits prod.splits)

lemma v1_hello_keeps:
  "v1_hello rc n s = (s', r) \<Longrightarrow>
   s1_binding s' = s1_binding s \<and> s1_boot s' = s1_boot s \<and> s1_stop_request_id s' = s1_stop_request_id s \<and>
   s1_received_sequence s' = s1_received_sequence s \<and> s1_terminal s' = s1_terminal s \<and>
   s1_terminal_stop s' = s1_terminal_stop s \<and> set (s1_used_nonces s) \<subseteq> set (s1_used_nonces s')"
  by (auto simp: v1_hello_def v1_hello_mode_def v1_next_request_def Let_def
      split: if_splits option.splits sum.splits json.splits)

lemma v1_stop_keeps:
  "v1_stop s = (s', r) \<Longrightarrow>
   s1_binding s' = s1_binding s \<and> s1_boot s' = s1_boot s \<and>
   s1_received_sequence s' = s1_received_sequence s \<and> s1_terminal s' = s1_terminal s \<and>
   s1_terminal_stop s' = s1_terminal_stop s \<and> s1_used_nonces s' = s1_used_nonces s \<and>
   (s1_stop_request_id s \<noteq> None \<longrightarrow> s1_stop_request_id s' = s1_stop_request_id s)"
  by (auto simp: v1_stop_def v1_next_request_def Let_def split: if_splits option.splits sum.splits prod.splits)

lemma v1_accept_keeps:
  assumes "v1_accept m s = (s', r)"
  shows "s1_binding s' = s1_binding s \<and> s1_stop_request_id s' = s1_stop_request_id s \<and>
    s1_received_sequence s \<le> s1_received_sequence s' \<and> (s1_boot s \<noteq> None \<longrightarrow> s1_boot s' = s1_boot s)"
proof (cases r)
  case (Inl e)
  with assms v1_accept_error show ?thesis by blast
next
  case (Inr u)
  with assms have "v1_accept m s = (s', Inr ())" by simp
  then show ?thesis by (rule v1_accept_ok) (auto dest: v1_transition_keeps)
qed

lemma v1_call_keeps:
  assumes "v1_call s s'"
  shows "s1_binding s' = s1_binding s \<and> s1_received_sequence s \<le> s1_received_sequence s' \<and>
    (s1_boot s \<noteq> None \<longrightarrow> s1_boot s' = s1_boot s) \<and>
    (s1_stop_request_id s \<noteq> None \<longrightarrow> s1_stop_request_id s' = s1_stop_request_id s)"
  using assms by cases (auto dest!: v1_hello_keeps v1_stop_keeps v1_accept_keeps)

lemma v1_reach_keeps:
  assumes "v1_reach s s'"
  shows "s1_binding s' = s1_binding s \<and> s1_received_sequence s \<le> s1_received_sequence s' \<and>
    (s1_boot s \<noteq> None \<longrightarrow> s1_boot s' = s1_boot s) \<and>
    (s1_stop_request_id s \<noteq> None \<longrightarrow> s1_stop_request_id s' = s1_stop_request_id s)"
  using assms
proof induction
  case (step t u)
  with v1_call_keeps [OF step.hyps(2)] show ?case by auto
qed simp

section \<open>The terminal outcome\<close>

definition v1_core_ok ::
  "host_state \<Rightarrow> bool \<Rightarrow> host_state option \<Rightarrow> terminal option \<Rightarrow> int option \<Rightarrow> int option \<Rightarrow> bool" where
  "v1_core_ok st rc from t ts stop \<longleftrightarrow>
     (rc \<longrightarrow> from \<in> {Some Ready, Some StopSent, Some Terminal} \<and> st \<noteq> New) \<and>
     (t \<noteq> None \<longrightarrow> st = Terminal \<and> (rc \<longrightarrow> from = Some Terminal) \<or> st = HelloSent \<and> rc \<and> from = Some Terminal) \<and>
     (t = None \<longrightarrow> ts = None \<and> st \<noteq> Terminal \<and> (rc \<longrightarrow> from \<noteq> Some Terminal)) \<and>
     (ts \<noteq> None \<longrightarrow> ts = stop)"

definition v1_inv :: "v1_session \<Rightarrow> bool" where
  "v1_inv s \<longleftrightarrow> v1_core_ok (s1_state s) (s1_reconnecting s) (s1_reconnect_from s) (s1_terminal s)
     (s1_terminal_stop s) (s1_stop_request_id s)"

lemma v1_inv_new: "v1_inv (v1_new b)"
  by (simp add: v1_inv_def v1_core_ok_def v1_new_def)

lemma v1_hello_mode_inv:
  assumes "v1_hello_mode rc s = Inr s1" and "v1_inv s"
  shows "v1_inv s1 \<and> v1_inv (s1\<lparr>s1_state := HelloSent\<rparr>) \<and>
    (\<not> rc \<longrightarrow> v1_inv (s1\<lparr>s1_reconnecting := False, s1_reconnect_from := None, s1_hello_retry := False, s1_state := HelloSent\<rparr>))"
proof (cases rc)
  case True
  with assms(1) consider "s1_state s = HelloSent" "s1 = s\<lparr>s1_hello_retry := True\<rparr> \<or> s1 = s"
    | "s1_state s \<in> {Ready, StopSent, Terminal}"
      "s1 = s\<lparr>s1_reconnecting := True, s1_reconnect_from := Some (s1_state s)\<rparr>"
    by (auto simp: v1_hello_mode_def split: if_splits)
  then show ?thesis
  proof cases
    case 1
    with True assms(2) show ?thesis by (elim disjE) (simp_all add: v1_inv_def)
  next
    case 2
    with True assms(2) show ?thesis
      by (cases "s1_state s"; cases "s1_terminal s") (simp_all add: v1_inv_def v1_core_ok_def)
  qed
next
  case False
  with assms(1) have "s1 = s" "s1_state s = New" by (auto simp: v1_hello_mode_def split: if_splits)
  with False assms(2) show ?thesis by (cases "s1_terminal s") (simp_all add: v1_inv_def v1_core_ok_def)
qed

lemma v1_inv_cong:
  assumes "v1_inv s" and "s1_state s' = s1_state s" "s1_reconnecting s' = s1_reconnecting s"
    "s1_reconnect_from s' = s1_reconnect_from s" "s1_terminal s' = s1_terminal s"
    "s1_terminal_stop s' = s1_terminal_stop s" "s1_stop_request_id s' = s1_stop_request_id s"
  shows "v1_inv s'"
  using assms by (simp add: v1_inv_def)

lemma v1_hello_inv:
  assumes "v1_hello rc n s = (s', r)" and "v1_inv s"
  shows "v1_inv s'"
proof (cases "v1_hello_mode rc s")
  case (Inl e)
  with assms show ?thesis by (simp add: v1_hello_def)
next
  case (Inr s1)
  note inv = v1_hello_mode_inv [OF Inr assms(2)]
  from assms(1) Inr consider "s' = s1"
    | nonce k where "s' = (if rc then s1\<lparr>s1_used_nonces := nonce # s1_used_nonces s1, s1_nonce := Some nonce\<rparr>
          else s1\<lparr>s1_used_nonces := nonce # s1_used_nonces s1, s1_nonce := Some nonce,
                  s1_reconnecting := False, s1_reconnect_from := None, s1_hello_retry := False\<rparr>)
        \<lparr>s1_state := HelloSent, s1_sent_request_id := k, s1_pending := Some k\<rparr>"
    by (auto simp: v1_hello_def v1_next_request_def Let_def split: json.splits if_splits)
  then show ?thesis
  proof cases
    case 1
    with inv show ?thesis by simp
  next
    case 2
    show ?thesis
    proof (cases rc)
      case True
      show ?thesis
        by (rule v1_inv_cong [OF conjunct1 [OF conjunct2 [OF inv]]]) (use 2 True in simp_all)
    next
      case False
      then have "v1_inv (s1\<lparr>s1_reconnecting := False, s1_reconnect_from := None, s1_hello_retry := False, s1_state := HelloSent\<rparr>)"
        using inv by blast
      then show ?thesis by (rule v1_inv_cong) (use 2 False in simp_all)
    qed
  qed
qed

lemma v1_stop_core:
  assumes "v1_stop s = (s', r)"
  shows "s' = s \<or>
    (s1_state s = Ready \<and> \<not> s1_reconnecting s \<and> s1_state s' = StopSent \<and> \<not> s1_reconnecting s' \<and>
     s1_reconnect_from s' = s1_reconnect_from s \<and> s1_terminal s' = s1_terminal s \<and>
     s1_terminal_stop s' = s1_terminal_stop s)"
  using assms
  by (auto simp: v1_stop_def v1_next_request_def Let_def split: if_splits option.splits sum.splits prod.splits)

lemma v1_stop_inv:
  assumes "v1_stop s = (s', r)" and "v1_inv s"
  shows "v1_inv s'"
  using v1_stop_core [OF assms(1)] assms(2) by (auto simp: v1_inv_def v1_core_ok_def)

lemma v1_valid_snapshot:
  "v1_valid m \<Longrightarrow> m1_kind m = V1_SNAPSHOT \<Longrightarrow> snap_fields m = Some (st, stop, t) \<Longrightarrow>
   (st = Snap_terminal \<longleftrightarrow> t \<noteq> None)"
  by (auto simp: v1_valid_def v1_payload_ok_def snap_fields_def)

lemma v1_valid_terminal_of: "v1_valid m \<Longrightarrow> m1_kind m = V1_TERMINAL \<Longrightarrow> terminal_of m \<noteq> None"
  by (auto simp: v1_valid_def v1_payload_ok_def terminal_of_def)

lemma v1_accept_snapshot_inv:
  assumes "v1_accept_snapshot st stop t s = Inr s'" and "v1_inv s" and "s1_reconnecting s" and "st = Snap_terminal \<longleftrightarrow> t \<noteq> None"
  shows "v1_inv s' \<and> (s1_terminal s \<noteq> None \<longrightarrow> s1_terminal s' = s1_terminal s \<and> s1_terminal_stop s' = s1_terminal_stop s)"
proof -
  have rf: "s1_reconnect_from s \<in> {Some Ready, Some StopSent, Some Terminal}"
    and tn: "s1_terminal s \<noteq> None \<longleftrightarrow> s1_reconnect_from s = Some Terminal"
    and ts: "s1_terminal s = None \<longrightarrow> s1_terminal_stop s = None" "s1_terminal_stop s \<noteq> None \<longrightarrow> s1_terminal_stop s = s1_stop_request_id s"
    using assms(2,3) by (auto simp: v1_inv_def v1_core_ok_def)
  show ?thesis
  proof (cases st)
    case Snap_ready
    with assms(1,4) tn ts show ?thesis
      by (auto simp: v1_accept_snapshot_def v1_inv_def v1_core_ok_def split: if_splits)
  next
    case Snap_stopping
    with assms(1,4) tn ts show ?thesis
      by (auto simp: v1_accept_snapshot_def v1_inv_def v1_core_ok_def split: if_splits)
  next
    case Snap_terminal
    with assms(1) have s': "s' = s\<lparr>s1_terminal := t, s1_terminal_stop := stop, s1_state := Terminal,
          s1_reconnecting := False, s1_reconnect_from := None\<rparr>"
      and g: "s1_reconnect_from s = Some StopSent \<longrightarrow> stop \<in> {None, s1_stop_request_id s}"
        "s1_reconnect_from s = Some Ready \<longrightarrow> stop = None"
        "s1_reconnect_from s = Some Terminal \<longrightarrow> t = s1_terminal s \<and> stop = s1_terminal_stop s"
      by (auto simp: v1_accept_snapshot_def split: if_splits)
    have "stop \<noteq> None \<longrightarrow> stop = s1_stop_request_id s" using rf g ts by auto
    with s' g tn Snap_terminal assms(4) show ?thesis by (auto simp: v1_inv_def v1_core_ok_def)
  qed
qed

lemma v1_transition_inv:
  assumes "v1_transition m s = Inr s'" and "v1_inv s" and "v1_valid m"
  shows "v1_inv s' \<and> (s1_terminal s \<noteq> None \<longrightarrow> s1_terminal s' = s1_terminal s \<and> s1_terminal_stop s' = s1_terminal_stop s)"
proof (cases "s1_reconnecting s")
  case True
  with assms(1) obtain st stop t where f: "snap_fields m = Some (st, stop, t)" "m1_kind m = V1_SNAPSHOT"
    and a: "v1_accept_snapshot st stop t s = Inr s'"
    by (auto simp: v1_transition_def split: option.splits if_splits)
  show ?thesis
    using v1_accept_snapshot_inv [OF a assms(2) True] v1_valid_snapshot [OF assms(3) f(2,1)] by blast
next
  case False
  then have nt: "s1_terminal s \<noteq> None \<longrightarrow> s1_state s = Terminal"
    using assms(2) by (auto simp: v1_inv_def v1_core_ok_def)
  from False assms(1) consider "s1_state s = HelloSent" "s' = s\<lparr>s1_state := Ready, s1_hello_retry := False\<rparr>"
    | "s1_state s \<in> {Ready, StopSent}" "m1_kind m = V1_TERMINAL" "m1_reply_to m \<in> {None, s1_stop_request_id s}"
      "s' = s\<lparr>s1_terminal := terminal_of m, s1_terminal_stop := m1_reply_to m, s1_state := Terminal\<rparr>"
    by (auto simp: v1_transition_def split: if_splits)
  then show ?thesis
  proof cases
    case 1
    with False nt assms(2) show ?thesis by (auto simp: v1_inv_def v1_core_ok_def)
  next
    case 2
    with False nt v1_valid_terminal_of [OF assms(3)] show ?thesis by (auto simp: v1_inv_def v1_core_ok_def)
  qed
qed

lemma v1_accept_inv:
  assumes "v1_accept m s = (s', r)" and "v1_inv s" and "v1_valid m"
  shows "v1_inv s' \<and> (s1_terminal s \<noteq> None \<longrightarrow> s1_terminal s' = s1_terminal s \<and> s1_terminal_stop s' = s1_terminal_stop s)"
proof (cases r)
  case (Inl e)
  with assms v1_accept_error show ?thesis by blast
next
  case (Inr u)
  with assms(1) have "v1_accept m s = (s', Inr ())" by simp
  then obtain sequence s1 where "v1_transition m s = Inr s1"
    and s': "s' = s1\<lparr>s1_boot := (if s1_boot s1 = None then m1_boot m else s1_boot s1),
                  s1_received_sequence := sequence, s1_pending := None\<rparr>"
    by (rule v1_accept_ok)
  with v1_transition_inv [OF this(1) assms(2,3)] show ?thesis by (simp add: v1_inv_def)
qed

lemma v1_call_inv:
  assumes "v1_call s s'" and "v1_inv s"
  shows "v1_inv s' \<and> (s1_terminal s \<noteq> None \<longrightarrow> s1_terminal s' = s1_terminal s \<and> s1_terminal_stop s' = s1_terminal_stop s)"
  using assms(1)
proof cases
  case (hello rc n r)
  with v1_hello_inv v1_hello_keeps assms(2) show ?thesis by metis
next
  case (stop r)
  with v1_stop_inv v1_stop_keeps assms(2) show ?thesis by metis
next
  case (accept m r)
  with v1_accept_inv assms(2) show ?thesis by blast
qed

lemma v1_reach_inv:
  assumes "v1_reach s s'" and "v1_inv s"
  shows "v1_inv s' \<and> (s1_terminal s \<noteq> None \<longrightarrow> s1_terminal s' = s1_terminal s \<and> s1_terminal_stop s' = s1_terminal_stop s)"
  using assms
proof induction
  case (step t u)
  with v1_call_inv [OF step.hyps(2)] show ?case by auto
qed simp

lemma v1_reach_trans: "v1_reach s t \<Longrightarrow> v1_reach t u \<Longrightarrow> v1_reach s u"
  by (rotate_tac 1, induction rule: v1_reach.induct) (auto intro: v1_reach.step)

section \<open>A concrete run\<close>

definition sample_guest :: "v1_kind \<Rightarrow> v1_payload \<Rightarrow> int \<Rightarrow> int option \<Rightarrow> v1_message" where
  "sample_guest k p n reply = \<lparr>m1_kind = k, m1_binding = sample_binding, m1_nonce = sample_nonce, m1_payload = p,
     m1_request_id = None, m1_sequence = Some n, m1_boot = Some sample_uuid, m1_reply_to = reply\<rparr>"

definition sample_exit :: terminal where
  "sample_exit = \<lparr>t_exit = Some 0, t_signal = None\<rparr>"

definition sample_ready :: v1_session where
  "sample_ready = fst (v1_accept (sample_guest V1_READY P1_empty 1 (Some 1))
     (fst (v1_hello False (JStr sample_nonce) (v1_new sample_binding))))"

definition sample_done :: v1_session where
  "sample_done = fst (v1_accept (sample_guest V1_TERMINAL (P1_terminal sample_exit) 2 (Some 2)) (fst (v1_stop sample_ready)))"

lemma sample_guest_valid:
  "v1_valid (sample_guest V1_READY P1_empty 1 (Some 1))"
  "v1_valid (sample_guest V1_TERMINAL (P1_terminal sample_exit) 2 r) \<longleftrightarrow> r = None \<or> counter_ok r"
  by (auto simp: sample_guest_def v1_valid_def sample_binding_ok sample_nonce_ok sample_uuid_ok v1_payload_ok_def
      counter_ok_def max_counter_def sample_exit_def valid_terminal_def)

lemma sample_hello_session:
  "v1_hello False (JStr sample_nonce) (v1_new sample_binding) =
     ((v1_new sample_binding)\<lparr>s1_used_nonces := [sample_nonce], s1_nonce := Some sample_nonce, s1_state := HelloSent,
        s1_sent_request_id := 1, s1_pending := Some 1\<rparr>, Inr (sample_hello))"
  by (simp add: v1_hello_def v1_hello_mode_def v1_new_def v1_next_request_def sample_nonce_ok v1_message_init_def
      nonce_field_def v1_hello_init_def exact_object_def same_keys_def counter_def max_counter_def sample_hello_def)

lemma sample_ready_session:
  "sample_ready = (v1_new sample_binding)\<lparr>s1_used_nonces := [sample_nonce], s1_nonce := Some sample_nonce,
     s1_state := Ready, s1_sent_request_id := 1, s1_boot := Some sample_uuid, s1_received_sequence := 1\<rparr>"
  unfolding sample_ready_def sample_hello_session
  by (simp add: v1_accept_def v1_transition_def sample_guest_def v1_new_def)

lemma sample_ready_reach: "v1_reach (v1_new sample_binding) sample_ready"
proof -
  have "v1_reach (v1_new sample_binding) (fst (v1_hello False (JStr sample_nonce) (v1_new sample_binding)))"
    by (rule v1_reach.step [OF v1_reach.refl v1_call.hello]) (rule prod.collapse [symmetric])
  moreover have "v1_call (fst (v1_hello False (JStr sample_nonce) (v1_new sample_binding))) sample_ready"
    unfolding sample_ready_def by (rule v1_call.accept [OF sample_guest_valid(1)]) (rule prod.collapse [symmetric])
  ultimately show ?thesis by (rule v1_reach.step)
qed

lemma sample_done_reach: "v1_reach sample_ready sample_done"
proof -
  have "v1_reach sample_ready (fst (v1_stop sample_ready))"
    by (rule v1_reach.step [OF v1_reach.refl v1_call.stop]) (rule prod.collapse [symmetric])
  moreover have "v1_valid (sample_guest V1_TERMINAL (P1_terminal sample_exit) 2 (Some 2))"
    by (simp add: sample_guest_valid(2) counter_ok_def max_counter_def)
  then have "v1_call (fst (v1_stop sample_ready)) sample_done"
    unfolding sample_done_def by (rule v1_call.accept) (rule prod.collapse [symmetric])
  ultimately show ?thesis by (rule v1_reach.step)
qed

lemma sample_stop_session:
  "v1_stop sample_ready =
     (sample_ready\<lparr>s1_state := StopSent, s1_sent_request_id := 2, s1_pending := Some 2, s1_stop_request_id := Some 2\<rparr>,
      Inr \<lparr>m1_kind = V1_STOP, m1_binding = sample_binding, m1_nonce = sample_nonce, m1_payload = P1_stop (JInt 15),
           m1_request_id = Some 2, m1_sequence = None, m1_boot = Some sample_uuid, m1_reply_to = None\<rparr>)"
  by (simp add: sample_ready_session v1_stop_def v1_new_def v1_next_request_def sample_nonce_ok v1_message_init_def
      nonce_field_def v1_stop_init_def exact_object_def same_keys_def counter_def max_counter_def sigterm_payload_def
      canonical_uuid_def sample_uuid_ok is_15_def jget_def jstr_Some)

lemma sample_done_session:
  "s1_state sample_done = Terminal" "s1_terminal sample_done = Some sample_exit" "s1_terminal_stop sample_done = Some 2"
  "s1_stop_request_id sample_done = Some 2" "s1_received_sequence sample_done = 2"
  unfolding sample_done_def sample_stop_session unfolding sample_ready_session
  by (simp_all add: v1_accept_def v1_transition_def sample_guest_def v1_new_def terminal_of_def)

section \<open>Properties of the session\<close>

text \<open>C7. Once the host session of protocol v1 has recorded how the run ended, no sequence of
  calls (reconnects, lost HELLOs, replayed or contradictory guest messages, failing calls)
  changes the recorded status or its STOP attribution; and a STOP is blamed for the end only
  when this session sent it.\<close>
theorem v1_terminal_final:
  assumes "v1_reach (v1_new b) s" and "s1_terminal s = Some t" and "v1_reach s s'"
  shows "s1_terminal s' = Some t \<and> s1_terminal_stop s' = s1_terminal_stop s \<and>
    (s1_terminal_stop s = None \<or> s1_terminal_stop s = s1_stop_request_id s)"
proof -
  have inv: "v1_inv s" using v1_reach_inv [OF assms(1) v1_inv_new] by blast
  then have "s1_terminal_stop s = None \<or> s1_terminal_stop s = s1_stop_request_id s"
    by (auto simp: v1_inv_def v1_core_ok_def)
  with v1_reach_inv [OF assms(3) inv] assms(2) show ?thesis by auto
qed

theorem v1_terminal_final_witness:
  "s1_terminal (fst (v1_hello True (JStr sample_uuid) sample_done)) = Some sample_exit"
proof -
  have "v1_reach sample_done (fst (v1_hello True (JStr sample_uuid) sample_done))"
    by (rule v1_reach.step [OF v1_reach.refl v1_call.hello]) (rule prod.collapse [symmetric])
  with v1_terminal_final [OF v1_reach_trans [OF sample_ready_reach sample_done_reach]] sample_done_session
  show ?thesis by blast
qed

text \<open>Replay: a guest message that the session accepted is refused ever after, without any
  effect, however the session went on; the boot generation and the STOP request id, once
  set, are kept.\<close>
theorem v1_no_replay:
  assumes "v1_valid m" and "v1_accept m s = (s1, Inr ())" and "v1_reach s1 s'"
  shows "(\<exists>e. v1_accept m s' = (s', Inl e)) \<and> s1_boot s' = s1_boot s1 \<and>
    (s1_stop_request_id s = None \<or> s1_stop_request_id s' = s1_stop_request_id s)"
proof -
  obtain sequence s0 where ok: "m1_sequence m = Some sequence" "v1_transition m s = Inr s0"
    "s1 = s0\<lparr>s1_boot := (if s1_boot s0 = None then m1_boot m else s1_boot s0),
             s1_received_sequence := sequence, s1_pending := None\<rparr>"
    using v1_accept_ok [OF assms(2)] by metis
  note keep = v1_reach_keeps [OF assms(3)] and keep0 = v1_transition_keeps [OF ok(2)]
  have "sequence \<le> s1_received_sequence s'" using keep ok(3) by simp
  then have "\<exists>e. v1_accept m s' = (s', Inl e)" using ok(1) by (auto simp: v1_accept_def)
  moreover have "m1_boot m \<noteq> None" using assms(1) ok(1) by (auto simp: v1_valid_def split: if_splits)
  then have "s1_boot s1 \<noteq> None" using ok(3) by simp
  ultimately show ?thesis using keep keep0 ok(3) by auto
qed

theorem v1_no_replay_witness:
  "\<exists>e. v1_accept (sample_guest V1_READY P1_empty 1 (Some 1)) sample_done = (sample_done, Inl e)"
proof -
  let ?s = "fst (v1_hello False (JStr sample_nonce) (v1_new sample_binding))"
  have "v1_accept (sample_guest V1_READY P1_empty 1 (Some 1)) ?s = (sample_ready, Inr ())"
    unfolding sample_ready_def sample_hello_session
    by (simp add: v1_accept_def v1_transition_def sample_guest_def v1_new_def)
  from v1_no_replay [OF sample_guest_valid(1) this sample_done_reach] show ?thesis by blast
qed

text \<open>Every STOP frame of a session carries one request id: a retransmission after a
  reconnect repeats the id of the first STOP, so the guest sees a single logical request.\<close>
theorem v1_stop_one_request:
  assumes "v1_stop s = (s1, Inr m)" and "v1_reach s1 s2" and "v1_stop s2 = (s3, Inr m')"
  shows "m1_request_id m' = m1_request_id m \<and> m1_request_id m \<noteq> None"
proof -
  have init: "v1_message_init V1_STOP b n p (JInt k) q g r = Inr x \<Longrightarrow> m1_request_id x = Some k" for b n p k q g r x
    by (cases p) (auto simp: v1_message_init_def v1_stop_init_def rbind_Inr_iff field_Inr split: if_splits)
  have first: "s1_stop_request_id s1 = m1_request_id m \<and> m1_request_id m \<noteq> None"
    using assms(1) init
    by (auto simp: v1_stop_def v1_next_request_def Let_def split: if_splits option.splits sum.splits prod.splits)
  then have "s1_stop_request_id s2 = m1_request_id m"
    using v1_reach_keeps [OF assms(2)] by auto
  with first assms(3) init show ?thesis
    by (auto simp: v1_stop_def Let_def split: if_splits option.splits)
qed

text \<open>C8. A reconnect whose nonce factory fails is refused but leaves the session in reconnect
  mode: the TERMINAL message that the session would have accepted before is refused after.\<close>
theorem v1_failed_reconnect_blocks_terminal:
  assumes "s1_state s = Ready" and "\<not> s1_reconnecting s" and "s1_nonce s = Some nonce" and "nonce \<in> set (s1_used_nonces s)"
    and "m1_kind m = V1_TERMINAL" and "v1_accept m s = (s1, Inr ())"
  shows "\<exists>e e' s2. v1_hello True (JStr nonce) s = (s2, Inl e) \<and> v1_accept m s2 = (s2, Inl e')"
proof -
  let ?s2 = "s\<lparr>s1_reconnecting := True, s1_reconnect_from := Some Ready\<rparr>"
  have "\<exists>e. v1_hello True (JStr nonce) s = (?s2, Inl e)"
    using assms(1,4) by (simp add: v1_hello_def v1_hello_mode_def)
  moreover have "\<exists>e. v1_transition m ?s2 = Inl e"
    using assms(5) by (auto simp: v1_transition_def split: option.splits)
  then have "\<exists>e. v1_accept m ?s2 = (?s2, Inl e)"
    by (auto simp: v1_accept_def split: option.splits)
  ultimately show ?thesis by blast
qed

theorem v1_failed_reconnect_blocks_terminal_witness:
  "\<exists>e e' s2. v1_hello True (JStr sample_nonce) sample_ready = (s2, Inl e) \<and>
     v1_accept (sample_guest V1_TERMINAL (P1_terminal sample_exit) 2 None) s2 = (s2, Inl e')"
proof (rule v1_failed_reconnect_blocks_terminal)
  show "v1_accept (sample_guest V1_TERMINAL (P1_terminal sample_exit) 2 None) sample_ready =
     (fst (v1_accept (sample_guest V1_TERMINAL (P1_terminal sample_exit) 2 None) sample_ready), Inr ())"
    by (simp add: sample_ready_session v1_accept_def v1_transition_def sample_guest_def v1_new_def)
qed (simp_all add: sample_ready_session v1_new_def sample_guest_def)

theorem v1_stop_one_request_witness:
  "\<exists>s1 s2 s3 m m'. v1_stop sample_ready = (s1, Inr m) \<and> v1_stop s2 = (s3, Inr m') \<and>
     m1_request_id m' = m1_request_id m \<and> m1_request_id m \<noteq> None"
proof -
  obtain s1 m where a: "v1_stop sample_ready = (s1, Inr m)" and st: "s1_state s1 = StopSent"
      "s1_boot s1 = Some sample_uuid" "s1_used_nonces s1 = [sample_nonce]" "s1_stop_request_id s1 = Some 2"
      "s1_binding s1 = sample_binding" "s1_received_sequence s1 = 1"
    unfolding sample_stop_session unfolding sample_ready_session by (simp add: v1_new_def)
  let ?n = "ul ''1111111111111111111111111111111111111111111111111111111111111111''"
  have fresh: "is_hex32 ?n" "?n \<noteq> sample_nonce"
    by (simp_all add: is_hex32_def is_hex_lower_def ul_def sample_nonce_def)
  let ?snap = "(sample_guest V1_SNAPSHOT (P1_snapshot Snap_ready None None) 2 (Some 3))\<lparr>m1_nonce := ?n\<rparr>"
  have val: "v1_valid ?snap"
    by (simp add: sample_guest_def v1_valid_def sample_binding_ok fresh sample_uuid_ok v1_payload_ok_def counter_ok_def max_counter_def)
  define s2 where "s2 = fst (v1_accept ?snap (fst (v1_hello True (JStr ?n) s1)))"
  have r1: "v1_reach s1 (fst (v1_hello True (JStr ?n) s1))"
    by (rule v1_reach.step [OF v1_reach.refl v1_call.hello]) (rule prod.collapse [symmetric])
  have reach: "v1_reach s1 s2"
    unfolding s2_def by (rule v1_reach.step [OF r1 v1_call.accept [OF val]]) (rule prod.collapse [symmetric])
  have s1: "s1 = sample_ready\<lparr>s1_state := StopSent, s1_sent_request_id := 2, s1_pending := Some 2, s1_stop_request_id := Some 2\<rparr>"
    using a unfolding sample_stop_session by simp
  have "\<exists>s3 m'. v1_stop s2 = (s3, Inr m')"
    unfolding s2_def s1 sample_ready_session using fresh
    by (auto simp: v1_new_def v1_hello_def v1_hello_mode_def
        v1_next_request_def v1_accept_def v1_transition_def v1_accept_snapshot_def snap_fields_def sample_guest_def
        v1_stop_def v1_message_init_def nonce_field_def v1_stop_init_def exact_object_def same_keys_def counter_def
        max_counter_def sigterm_payload_def canonical_uuid_def sample_uuid_ok is_15_def jget_def)
  then obtain s3 m' where b: "v1_stop s2 = (s3, Inr m')" by blast
  from v1_stop_one_request [OF a reach b] a b show ?thesis by blast
qed

end
