(* ===== verification/Control_V2.thy ===== *)
theory Control_V2 imports Main Control_V1_Codec Py_Hash begin

text \<open>
  \<open>src/palimpsest_local/oci_control_protocol_v2.py\<close>: the messages of the authenticated
  lifecycle protocol v2 and their dictionary form. The conventions are those of
  \<open>Control_V1\<close>: an argument of type \<open>Any\<close> is a JSON value, a constructed
  message has one typed payload per kind. The module's private copies of the v1 field
  validators are the v1 definitions under the names of this module.
\<close>

section \<open>Limits and field validators\<close>

definition max_exec_args :: nat where "max_exec_args = 64"
definition max_exec_argv_bytes :: nat where "max_exec_argv_bytes = 8192"
definition max_exec_output :: int where "max_exec_output = 65536"
definition max_exec_timeout :: int where "max_exec_timeout = 600000"
definition max_u64 :: int where "max_u64 = 2 ^ 64 - 1"

definition v2_exact :: "json \<Rightarrow> string list \<Rightarrow> string \<Rightarrow> exn + (ustr \<times> json) list" where
  "v2_exact value fs label = exact_object value fs label"

definition v2_uuid :: "json \<Rightarrow> string \<Rightarrow> exn + ustr" where
  "v2_uuid value label = canonical_uuid value label"

definition v2_counter :: "json \<Rightarrow> string \<Rightarrow> exn + int" where
  "v2_counter value label = counter value label"

definition v2_hex32 :: "json \<Rightarrow> string \<Rightarrow> exn + ustr" where
  "v2_hex32 value label =
     (case value of
        JStr s \<Rightarrow> if is_hex32 s then Inr s else Inl (Refused (label @ '' is invalid''))
      | _ \<Rightarrow> Inl (Refused (label @ '' is invalid'')))"

definition v2_digest :: "json \<Rightarrow> string \<Rightarrow> exn + ustr" where
  "v2_digest value label = digest_field value label"

definition v2_terminal :: "json \<Rightarrow> exn + terminal" where
  "v2_terminal value = terminal_field value"

definition text_items :: "json list \<Rightarrow> ustr list option" where
  "text_items vs =
     (if list_all (\<lambda>v. case v of JStr s \<Rightarrow> 0 \<notin> set s | _ \<Rightarrow> False) vs
      then Some (map (\<lambda>v. case v of JStr s \<Rightarrow> s | _ \<Rightarrow> []) vs) else None)"

definition validate_exec_argv :: "json \<Rightarrow> exn + ustr list" where
  "validate_exec_argv argv =
     (case argv of
        JArr items \<Rightarrow>
          if items = [] \<or> max_exec_args < length items then Inl (Refused ''exec argv is invalid'')
          else (case text_items items of
            None \<Rightarrow> Inl (Refused ''exec argv is invalid'')
          | Some args \<Rightarrow>
              if hd args = [] then Inl (Refused ''exec argv is invalid'')
              else if \<exists>a \<in> set args. utf8_encode a = None then Inl (Refused ''exec argv encoding is invalid'')
              else (case canonical_json_bytes (JArr items) of
                None \<Rightarrow> Inl NotCanonical
              | Some encoded \<Rightarrow>
                  if max_exec_argv_bytes < length encoded then Inl (Refused ''exec argv exceeds its byte limit'')
                  else Inr args))
      | _ \<Rightarrow> Inl (Refused ''exec argv is invalid''))"

definition validate_exec_timeout :: "json \<Rightarrow> exn + int" where
  "validate_exec_timeout v =
     (case v of
        JInt t \<Rightarrow> if 1 \<le> t \<and> t \<le> max_exec_timeout then Inr t else Inl (Refused ''exec timeout is invalid'')
      | _ \<Rightarrow> Inl (Refused ''exec timeout is invalid''))"

text \<open>Schema, PID and filesystem are fixed; the device and the inode are what varies.\<close>

record root_identity =
  ri_device :: int
  ri_inode :: int

definition validate_root_identity :: "json \<Rightarrow> exn + root_identity" where
  "validate_root_identity value =
     rbind (v2_exact value [''schema'', ''pid'', ''filesystem'', ''device'', ''inode''] ''root identity'') (\<lambda>d.
     if \<not> is_text (jget d ''schema'') ''palimpsest.oci-root-identity.v1'' then Inl (Refused ''root identity schema is invalid'')
     else if jget d ''pid'' \<noteq> JInt 1 then Inl (Refused ''root identity PID is invalid'')
     else if \<not> is_text (jget d ''filesystem'') ''overlayfs'' then Inl (Refused ''root identity filesystem is invalid'')
     else case (jget d ''device'', jget d ''inode'') of
       (JInt dev, JInt ino) \<Rightarrow>
         if \<not> (0 \<le> dev \<and> dev \<le> max_u64) then Inl (Refused ''root identity device is invalid'')
         else if \<not> (1 \<le> ino \<and> ino \<le> max_u64) then Inl (Refused ''root identity inode is invalid'')
         else Inr \<lparr>ri_device = dev, ri_inode = ino\<rparr>
     | (JInt dev, _) \<Rightarrow>
         Inl (Refused (if 0 \<le> dev \<and> dev \<le> max_u64 then ''root identity inode is invalid'' else ''root identity device is invalid''))
     | _ \<Rightarrow> Inl (Refused ''root identity device is invalid''))"

definition root_identity_json :: "root_identity \<Rightarrow> json" where
  "root_identity_json r =
     JObj [(ul ''device'', JInt (ri_device r)), (ul ''filesystem'', JStr (ul ''overlayfs'')), (ul ''inode'', JInt (ri_inode r)),
           (ul ''pid'', JInt 1), (ul ''schema'', JStr (ul ''palimpsest.oci-root-identity.v1''))]"

section \<open>The public lifecycle state\<close>

text \<open>
  \<open>dict(value)\<close>: a dictionary, or a sequence of pairs, of which the last one for a key
  counts. A pair is a sequence of two elements: a list, a string of two characters, a
  dictionary of two keys. A key that is hashable but not a string is kept as the empty
  string, which no caller accepts either.
\<close>

definition pair_of :: "json \<Rightarrow> exn + ustr \<times> json" where
  "pair_of v =
     (case v of
        JArr [k, x] \<Rightarrow>
          (case k of JStr s \<Rightarrow> Inr (s, x) | JArr _ \<Rightarrow> Inl TypeErr | JObj _ \<Rightarrow> Inl TypeErr | _ \<Rightarrow> Inr ([], x))
      | JArr _ \<Rightarrow> Inl ValueErr
      | JStr [a, b] \<Rightarrow> Inr ([a], JStr [b])
      | JStr _ \<Rightarrow> Inl ValueErr
      | JObj [(k, _), (l, _)] \<Rightarrow> Inr (k, JStr l)
      | JObj _ \<Rightarrow> Inl ValueErr
      | _ \<Rightarrow> Inl TypeErr)"

definition dict_of :: "json \<Rightarrow> exn + (ustr \<times> json) list" where
  "dict_of v =
     (case v of
        JObj d \<Rightarrow> Inr d
      | JArr xs \<Rightarrow> rbind (rmap pair_of xs) (\<lambda>ps. Inr (foldl (\<lambda>d (k, x). AList.update k x d) [] ps))
      | JStr [] \<Rightarrow> Inr []
      | JStr _ \<Rightarrow> Inl ValueErr
      | _ \<Rightarrow> Inl TypeErr)"

text \<open>The checks of \<open>lifecycle_state_digest\<close>: the state, the STOP id, the terminal status.\<close>

definition check_lifecycle :: "json \<Rightarrow> json \<Rightarrow> json \<Rightarrow> exn + snap_state \<times> int option \<times> terminal option" where
  "check_lifecycle state stop terminal =
     (if is_text state ''ready'' \<and> stop = JNull \<and> terminal = JNull then Inr (Snap_ready, None, None)
      else if is_text state ''stopping'' \<and> terminal = JNull then
        rbind (v2_counter stop ''state STOP request ID'') (\<lambda>i. Inr (Snap_stopping, Some i, None))
      else if is_text state ''terminal'' then
        rbind (if stop \<noteq> JNull then rbind (v2_counter stop ''state STOP request ID'') (\<lambda>i. Inr (Some i))
               else Inr None) (\<lambda>stop_id.
        if terminal = JNull then Inl (Refused ''terminal lifecycle state is invalid'')
        else rbind (dict_of terminal) (\<lambda>d.
             rbind (v2_terminal (JObj d)) (\<lambda>t. Inr (Snap_terminal, stop_id, Some t))))
      else Inl (Refused ''lifecycle state is invalid''))"

definition public_state_json :: "snap_state \<times> int option \<times> terminal option \<Rightarrow> json" where
  "public_state_json p =
     (case p of (st, stop, t) \<Rightarrow>
        JObj [(ul ''schema'', JStr (ul ''palimpsest.oci-lifecycle-public-state.v1'')),
              (ul ''state'', JStr (ul (snap_name st))), (ul ''stop_request_id'', jint stop),
              (ul ''terminal'', case t of None \<Rightarrow> JNull | Some t \<Rightarrow> terminal_json t)])"

definition sha256_json :: "json \<Rightarrow> exn + ustr" where
  "sha256_json v = (case canonical_json_bytes v of None \<Rightarrow> Inl NotCanonical | Some b \<Rightarrow> Inr (sha256_text b))"

definition lifecycle_state_digest :: "json \<Rightarrow> json \<Rightarrow> json \<Rightarrow> exn + ustr" where
  "lifecycle_state_digest state stop terminal =
     rbind (check_lifecycle state stop terminal) (\<lambda>p. sha256_json (public_state_json p))"

text \<open>The state a SNAPSHOT or BOUNDARY_ACK carries; the terminal status as it was sent.\<close>

record lifecycle =
  lc_state :: snap_state
  lc_stop :: "int option"
  lc_terminal :: json

definition lifecycle_json :: "lifecycle \<Rightarrow> json" where
  "lifecycle_json l =
     JObj [(ul ''state'', JStr (ul (snap_name (lc_state l)))), (ul ''stop_request_id'', jint (lc_stop l)),
           (ul ''terminal'', lc_terminal l)]"

section \<open>Messages\<close>

datatype v2_kind = V2_HELLO | V2_BOOTSTRAP | V2_KEY_ACK | V2_RECONNECT | V2_BOUNDARY_ACK | V2_READY | V2_SNAPSHOT
  | V2_STOP | V2_TERMINAL | V2_EXEC | V2_EXEC_OUTPUT | V2_EXEC_EXIT

definition v2_kind_name :: "v2_kind \<Rightarrow> string" where
  "v2_kind_name k =
     (case k of V2_HELLO \<Rightarrow> ''HELLO'' | V2_BOOTSTRAP \<Rightarrow> ''BOOTSTRAP'' | V2_KEY_ACK \<Rightarrow> ''KEY_ACK''
      | V2_RECONNECT \<Rightarrow> ''RECONNECT'' | V2_BOUNDARY_ACK \<Rightarrow> ''BOUNDARY_ACK'' | V2_READY \<Rightarrow> ''READY''
      | V2_SNAPSHOT \<Rightarrow> ''SNAPSHOT'' | V2_STOP \<Rightarrow> ''STOP'' | V2_TERMINAL \<Rightarrow> ''TERMINAL'' | V2_EXEC \<Rightarrow> ''EXEC''
      | V2_EXEC_OUTPUT \<Rightarrow> ''EXEC_OUTPUT'' | V2_EXEC_EXIT \<Rightarrow> ''EXEC_EXIT'')"

definition v2_kinds :: "v2_kind list" where
  "v2_kinds = [V2_HELLO, V2_BOOTSTRAP, V2_KEY_ACK, V2_RECONNECT, V2_BOUNDARY_ACK, V2_READY, V2_SNAPSHOT,
     V2_STOP, V2_TERMINAL, V2_EXEC, V2_EXEC_OUTPUT, V2_EXEC_EXIT]"

definition host_kinds :: "v2_kind list" where
  "host_kinds = [V2_HELLO, V2_KEY_ACK, V2_RECONNECT, V2_STOP, V2_EXEC]"

datatype exec_stream = Stdout | Stderr

definition stream_name :: "exec_stream \<Rightarrow> string" where
  "stream_name s = (case s of Stdout \<Rightarrow> ''stdout'' | Stderr \<Rightarrow> ''stderr'')"

datatype exit_reason = Completed | Timeout | Output_limit | Cancelled

definition reason_name :: "exit_reason \<Rightarrow> string" where
  "reason_name r = (case r of Completed \<Rightarrow> ''completed'' | Timeout \<Rightarrow> ''timeout'' | Output_limit \<Rightarrow> ''output-limit''
     | Cancelled \<Rightarrow> ''cancelled'')"

record boundary =
  bd_id :: ustr
  bd_header_bytes :: int
  bd_payload_bytes :: int
  bd_payload_expected :: int
  bd_last_h2g :: int
  bd_last_g2h :: int
  bd_lifecycle :: lifecycle
  bd_previous_epoch :: int
  bd_state_digest :: ustr

datatype v2_payload =
    P2_empty
  | P2_bootstrap ustr
  | P2_reconnect ustr ustr
  | P2_boundary boundary
  | P2_ready root_identity
  | P2_snapshot lifecycle
  | P2_stop json
  | P2_terminal terminal
  | P2_exec "ustr list" int
  | P2_output exec_stream int ustr
  | P2_exit "terminal option" int int exit_reason

record v2_message =
  m2_kind :: v2_kind
  m2_binding :: binding
  m2_attempt :: ustr
  m2_nonce :: ustr
  m2_epoch :: int
  m2_wire :: int
  m2_payload :: v2_payload
  m2_request_id :: "int option"
  m2_boot :: "ustr option"
  m2_reply_to :: "int option"

definition direction :: "v2_message \<Rightarrow> string" where
  "direction m = (if m2_kind m \<in> set host_kinds then ''host-to-guest'' else ''guest-to-host'')"

section \<open>Construction\<close>

text \<open>
  The branches of \<open>__post_init__\<close>, in the order of the code: each reads the payload
  and the reply of one kind and gives the typed payload and reply.
\<close>

type_synonym v2_body = "v2_payload \<times> int option"

definition v2_reply :: "json \<Rightarrow> string \<Rightarrow> exn + int option" where
  "v2_reply reply label = rbind (v2_counter reply label) (\<lambda>i. Inr (Some i))"

definition v2_init_bootstrap :: "int \<Rightarrow> (ustr \<times> json) list \<Rightarrow> json \<Rightarrow> exn + v2_body" where
  "v2_init_bootstrap epoch payload reply =
     rbind (v2_exact (JObj payload) [''boot_key''] ''BOOTSTRAP payload'') (\<lambda>_.
     rbind (v2_hex32 (jget payload ''boot_key'') ''boot key'') (\<lambda>k.
     rbind (v2_reply reply ''reply-to request ID'') (\<lambda>r.
     if epoch \<noteq> 1 then Inl (Refused ''BOOTSTRAP epoch is invalid'') else Inr (P2_bootstrap k, r))))"

definition v2_init_key_ack :: "int \<Rightarrow> (ustr \<times> json) list \<Rightarrow> json \<Rightarrow> exn + v2_body" where
  "v2_init_key_ack epoch payload reply =
     rbind (v2_exact (JObj payload) [] ''KEY_ACK payload'') (\<lambda>_.
     rbind (v2_reply reply ''reply-to guest wire sequence'') (\<lambda>r.
     if epoch \<noteq> 1 then Inl (Refused ''KEY_ACK epoch is invalid'') else Inr (P2_empty, r)))"

definition v2_init_reconnect :: "int \<Rightarrow> (ustr \<times> json) list \<Rightarrow> exn + v2_body" where
  "v2_init_reconnect epoch payload =
     rbind (v2_exact (JObj payload) [''boundary_ack_digest'', ''boundary_id''] ''RECONNECT payload'') (\<lambda>_.
     rbind (v2_digest (jget payload ''boundary_ack_digest'') ''boundary acknowledgement digest'') (\<lambda>d.
     rbind (v2_uuid (jget payload ''boundary_id'') ''boundary ID'') (\<lambda>i.
     if epoch \<le> 1 then Inl (Refused ''RECONNECT epoch is invalid'') else Inr (P2_reconnect d i, None))))"

definition boundary_fields :: "string list" where
  "boundary_fields =
     [''boundary_id'', ''discarded_header_bytes'', ''discarded_payload_bytes'', ''discarded_payload_expected'',
      ''last_accepted_h2g_wire_sequence'', ''last_attempted_g2h_wire_sequence'', ''lifecycle_state'',
      ''previous_epoch'', ''state_digest'']"

definition int_between :: "json \<Rightarrow> int \<Rightarrow> int \<Rightarrow> string \<Rightarrow> exn + int" where
  "int_between v lo hi message =
     (case v of JInt i \<Rightarrow> if lo \<le> i \<and> i \<le> hi then Inr i else Inl (Refused message) | _ \<Rightarrow> Inl (Refused message))"

definition parser_state_ok :: "int \<Rightarrow> int \<Rightarrow> int \<Rightarrow> bool" where
  "parser_state_ok header payload expected \<longleftrightarrow>
     header = 0 \<and> payload = 0 \<and> expected = 0 \<or>
     1 \<le> header \<and> header \<le> 3 \<and> payload = 0 \<and> expected = 0 \<or>
     header = 0 \<and> 1 \<le> expected \<and> expected \<le> int max_payload \<and> 0 \<le> payload \<and> payload < expected"

definition v2_init_boundary :: "int \<Rightarrow> (ustr \<times> json) list \<Rightarrow> json \<Rightarrow> exn + v2_body" where
  "v2_init_boundary epoch payload reply =
     rbind (v2_exact (JObj payload) boundary_fields ''BOUNDARY_ACK payload'') (\<lambda>d.
     let num = (\<lambda>k. int_between (jget d k) 0 max_counter ''BOUNDARY_ACK counter is invalid'');
         part = (\<lambda>k. int_between (jget d k) 0 (int max_payload) ''BOUNDARY_ACK parser state is invalid'')
     in
     rbind (num ''discarded_header_bytes'') (\<lambda>header.
     rbind (num ''last_accepted_h2g_wire_sequence'') (\<lambda>h2g.
     rbind (num ''last_attempted_g2h_wire_sequence'') (\<lambda>g2h.
     rbind (num ''previous_epoch'') (\<lambda>previous.
     rbind (part ''discarded_payload_bytes'') (\<lambda>pay.
     rbind (part ''discarded_payload_expected'') (\<lambda>expected.
     if 3 < header then Inl (Refused ''BOUNDARY_ACK header state is invalid'')
     else if \<not> parser_state_ok header pay expected then Inl (Refused ''BOUNDARY_ACK payload state is invalid'')
     else
     rbind (v2_uuid (jget d ''boundary_id'') ''boundary ID'') (\<lambda>bid.
     rbind (v2_exact (jget d ''lifecycle_state'') [''state'', ''stop_request_id'', ''terminal''] ''BOUNDARY_ACK lifecycle state'') (\<lambda>l.
     rbind (check_lifecycle (jget l ''state'') (jget l ''stop_request_id'') (jget l ''terminal'')) (\<lambda>p.
     rbind (sha256_json (public_state_json p)) (\<lambda>expected_digest.
     rbind (v2_digest (jget d ''state_digest'') ''lifecycle state digest'') (\<lambda>sd.
     if sd \<noteq> expected_digest then Inl (Refused ''BOUNDARY_ACK lifecycle state digest is invalid'')
     else
     rbind (v2_reply reply ''reply-to connection opener request ID'') (\<lambda>r.
     if epoch \<le> 1 then Inl (Refused ''BOUNDARY_ACK fields are invalid'')
     else Inr (P2_boundary
       \<lparr>bd_id = bid, bd_header_bytes = header, bd_payload_bytes = pay, bd_payload_expected = expected,
        bd_last_h2g = h2g, bd_last_g2h = g2h,
        bd_lifecycle = \<lparr>lc_state = fst p, lc_stop = fst (snd p), lc_terminal = jget l ''terminal''\<rparr>,
        bd_previous_epoch = previous, bd_state_digest = sd\<rparr>, r))))))))))))))"

definition v2_init_ready :: "(ustr \<times> json) list \<Rightarrow> json \<Rightarrow> exn + v2_body" where
  "v2_init_ready payload reply =
     rbind (if payload = [] then Inr P2_empty
            else rbind (v2_exact (JObj payload) [''root_identity''] ''READY payload'') (\<lambda>_.
                 rbind (validate_root_identity (jget payload ''root_identity'')) (\<lambda>ri. Inr (P2_ready ri)))) (\<lambda>p.
     rbind (v2_reply reply ''reply-to host wire sequence'') (\<lambda>r. Inr (p, r)))"

definition v2_init_snapshot :: "(ustr \<times> json) list \<Rightarrow> json \<Rightarrow> exn + v2_body" where
  "v2_init_snapshot payload reply =
     rbind (v2_reply reply ''reply-to request ID'') (\<lambda>r.
     rbind (v2_exact (JObj payload) [''state'', ''stop_request_id'', ''terminal''] ''SNAPSHOT payload'') (\<lambda>d.
     let state = jget d ''state''; stop = jget d ''stop_request_id''; terminal = jget d ''terminal''
     in if is_text state ''ready'' \<and> stop = JNull \<and> terminal = JNull
        then Inr (P2_snapshot \<lparr>lc_state = Snap_ready, lc_stop = None, lc_terminal = JNull\<rparr>, r)
        else if is_text state ''stopping'' \<and> terminal = JNull then
          rbind (v2_counter stop ''snapshot STOP request ID'') (\<lambda>i.
          Inr (P2_snapshot \<lparr>lc_state = Snap_stopping, lc_stop = Some i, lc_terminal = JNull\<rparr>, r))
        else if is_text state ''terminal'' then
          rbind (v2_terminal terminal) (\<lambda>t.
          rbind (if stop \<noteq> JNull then rbind (v2_counter stop ''snapshot STOP request ID'') (\<lambda>i. Inr (Some i))
                 else Inr None) (\<lambda>stop_id.
          Inr (P2_snapshot \<lparr>lc_state = Snap_terminal, lc_stop = stop_id, lc_terminal = terminal_json t\<rparr>, r)))
        else Inl (Refused ''SNAPSHOT state is invalid'')))"

definition v2_init_exec :: "(ustr \<times> json) list \<Rightarrow> exn + v2_body" where
  "v2_init_exec payload =
     rbind (v2_exact (JObj payload) [''argv'', ''timeout_ms''] ''EXEC payload'') (\<lambda>_.
     rbind (validate_exec_argv (jget payload ''argv'')) (\<lambda>argv.
     rbind (validate_exec_timeout (jget payload ''timeout_ms'')) (\<lambda>t. Inr (P2_exec argv t, None))))"

definition v2_init_output :: "(ustr \<times> json) list \<Rightarrow> json \<Rightarrow> exn + v2_body" where
  "v2_init_output payload reply =
     rbind (v2_reply reply ''exec reply request ID'') (\<lambda>r.
     rbind (v2_exact (JObj payload) [''stream'', ''offset'', ''data_hex''] ''EXEC_OUTPUT payload'') (\<lambda>_.
     case find (\<lambda>s. is_text (jget payload ''stream'') (stream_name s)) [Stdout, Stderr] of
       None \<Rightarrow> Inl (Refused ''exec output stream is invalid'')
     | Some stream \<Rightarrow>
         rbind (int_between (jget payload ''offset'') 0 (max_exec_output - 1) ''exec output offset is invalid'') (\<lambda>off.
         case jget payload ''data_hex'' of
           JStr data \<Rightarrow>
             if \<not> (list_all is_hex_lower data \<and> even (length data) \<and> 2 \<le> length data \<and> length data \<le> 2048)
             then Inl (Refused ''exec output encoding is invalid'')
             else if max_exec_output < off + int (length data div 2)
             then Inl (Refused ''exec output exceeds its byte limit'')
             else Inr (P2_output stream off data, r)
         | _ \<Rightarrow> Inl (Refused ''exec output encoding is invalid''))))"

definition v2_init_exit :: "(ustr \<times> json) list \<Rightarrow> json \<Rightarrow> exn + v2_body" where
  "v2_init_exit payload reply =
     rbind (v2_reply reply ''exec reply request ID'') (\<lambda>r.
     rbind (v2_exact (JObj payload) [''terminal'', ''stdout_bytes'', ''stderr_bytes'', ''reason''] ''EXEC_EXIT payload'') (\<lambda>_.
     rbind (if jget payload ''terminal'' \<noteq> JNull
            then rbind (v2_terminal (jget payload ''terminal'')) (\<lambda>t. Inr (Some t)) else Inr None) (\<lambda>t.
     case find (\<lambda>r. is_text (jget payload ''reason'') (reason_name r)) [Completed, Timeout, Output_limit, Cancelled] of
       None \<Rightarrow> Inl (Refused ''exec completion reason is invalid'')
     | Some reason \<Rightarrow>
         rbind (int_between (jget payload ''stdout_bytes'') 0 max_exec_output ''exec output count is invalid'') (\<lambda>out.
         rbind (int_between (jget payload ''stderr_bytes'') 0 max_exec_output ''exec output count is invalid'') (\<lambda>err.
         if max_exec_output < out + err then Inl (Refused ''exec combined output exceeds its byte limit'')
         else if t = None \<and> (reason \<noteq> Cancelled \<or> out \<noteq> 0 \<or> err \<noteq> 0)
         then Inl (Refused ''unstarted exec cancellation must have no output or invented exit'')
         else Inr (P2_exit t out err reason, r))))))"

definition v2_init_terminal :: "(ustr \<times> json) list \<Rightarrow> json \<Rightarrow> exn + v2_body" where
  "v2_init_terminal payload reply =
     rbind (v2_exact (JObj payload) [''terminal''] ''TERMINAL payload'') (\<lambda>_.
     rbind (v2_terminal (jget payload ''terminal'')) (\<lambda>t.
     rbind (if reply \<noteq> JNull then v2_reply reply ''reply-to request ID'' else Inr None) (\<lambda>r.
     Inr (P2_terminal t, r))))"

definition v2_init_stop :: "(ustr \<times> json) list \<Rightarrow> exn + v2_body" where
  "v2_init_stop payload =
     rbind (v2_exact (JObj payload) [''signal''] ''STOP payload'') (\<lambda>_.
     if \<not> is_15 (jget payload ''signal'') then Inl (Refused ''STOP signal must be SIGTERM'')
     else Inr (P2_stop (jget payload ''signal''), None))"

definition v2_body_init :: "v2_kind \<Rightarrow> int \<Rightarrow> (ustr \<times> json) list \<Rightarrow> json \<Rightarrow> exn + v2_body" where
  "v2_body_init kind epoch payload reply =
     (case kind of
        V2_HELLO \<Rightarrow> Inl (Refused ''HELLO fields are invalid'')
      | V2_BOOTSTRAP \<Rightarrow> v2_init_bootstrap epoch payload reply
      | V2_KEY_ACK \<Rightarrow> v2_init_key_ack epoch payload reply
      | V2_RECONNECT \<Rightarrow> v2_init_reconnect epoch payload
      | V2_BOUNDARY_ACK \<Rightarrow> v2_init_boundary epoch payload reply
      | V2_READY \<Rightarrow> v2_init_ready payload reply
      | V2_SNAPSHOT \<Rightarrow> v2_init_snapshot payload reply
      | V2_EXEC \<Rightarrow> v2_init_exec payload
      | V2_EXEC_OUTPUT \<Rightarrow> v2_init_output payload reply
      | V2_EXEC_EXIT \<Rightarrow> v2_init_exit payload reply
      | V2_TERMINAL \<Rightarrow> v2_init_terminal payload reply
      | V2_STOP \<Rightarrow> v2_init_stop payload)"

definition request_kinds :: "v2_kind list" where
  "request_kinds = [V2_RECONNECT, V2_STOP, V2_EXEC]"

definition v2_message_init ::
  "v2_kind \<Rightarrow> binding \<Rightarrow> json \<Rightarrow> json \<Rightarrow> json \<Rightarrow> json \<Rightarrow> json \<Rightarrow> json \<Rightarrow> json \<Rightarrow> json \<Rightarrow> exn + v2_message" where
  "v2_message_init kind b boot_attempt_id host_nonce epoch wire_sequence payload request_id boot_generation reply_to =
     rbind (v2_uuid boot_attempt_id ''boot attempt ID'') (\<lambda>attempt.
     rbind (v2_hex32 host_nonce ''host nonce'') (\<lambda>nonce.
     rbind (v2_counter epoch ''epoch'') (\<lambda>e.
     rbind (v2_counter wire_sequence ''wire sequence'') (\<lambda>w.
     case payload of
       JObj d \<Rightarrow>
         if kind = V2_HELLO then
           rbind (v2_exact (JObj d) [] ''HELLO payload'') (\<lambda>_.
           rbind (v2_counter request_id ''request ID'') (\<lambda>r.
           if e \<noteq> 1 \<or> boot_generation \<noteq> JNull \<or> reply_to \<noteq> JNull then Inl (Refused ''HELLO fields are invalid'')
           else Inr \<lparr>m2_kind = kind, m2_binding = b, m2_attempt = attempt, m2_nonce = nonce, m2_epoch = e, m2_wire = w,
                      m2_payload = P2_empty, m2_request_id = Some r, m2_boot = None, m2_reply_to = None\<rparr>))
         else
           rbind (v2_uuid boot_generation ''boot generation'') (\<lambda>g.
           rbind (if kind \<in> set request_kinds then
                    rbind (v2_counter request_id ''request ID'') (\<lambda>r.
                    if reply_to \<noteq> JNull then Inl (Refused (v2_kind_name kind @ '' fields are invalid'')) else Inr (Some r))
                  else if request_id \<noteq> JNull then Inl (Refused (v2_kind_name kind @ '' fields are invalid''))
                  else Inr None) (\<lambda>request.
           rbind (v2_body_init kind e d reply_to) (\<lambda>(p, reply).
           Inr \<lparr>m2_kind = kind, m2_binding = b, m2_attempt = attempt, m2_nonce = nonce, m2_epoch = e, m2_wire = w,
                 m2_payload = p, m2_request_id = request, m2_boot = Some g, m2_reply_to = reply\<rparr>)))
     | _ \<Rightarrow> Inl (Refused ''lifecycle payload is invalid'')))))"

section \<open>The dictionary form\<close>

definition v2_payload_items :: "v2_payload \<Rightarrow> (ustr \<times> json) list" where
  "v2_payload_items p =
     (case p of
        P2_empty \<Rightarrow> []
      | P2_bootstrap k \<Rightarrow> [(ul ''boot_key'', JStr k)]
      | P2_reconnect d i \<Rightarrow> [(ul ''boundary_ack_digest'', JStr d), (ul ''boundary_id'', JStr i)]
      | P2_boundary b \<Rightarrow>
          [(ul ''boundary_id'', JStr (bd_id b)),
           (ul ''discarded_header_bytes'', JInt (bd_header_bytes b)),
           (ul ''discarded_payload_bytes'', JInt (bd_payload_bytes b)),
           (ul ''discarded_payload_expected'', JInt (bd_payload_expected b)),
           (ul ''last_accepted_h2g_wire_sequence'', JInt (bd_last_h2g b)),
           (ul ''last_attempted_g2h_wire_sequence'', JInt (bd_last_g2h b)),
           (ul ''lifecycle_state'', lifecycle_json (bd_lifecycle b)),
           (ul ''previous_epoch'', JInt (bd_previous_epoch b)),
           (ul ''state_digest'', JStr (bd_state_digest b))]
      | P2_ready ri \<Rightarrow> [(ul ''root_identity'', root_identity_json ri)]
      | P2_snapshot l \<Rightarrow>
          [(ul ''state'', JStr (ul (snap_name (lc_state l)))), (ul ''stop_request_id'', jint (lc_stop l)),
           (ul ''terminal'', lc_terminal l)]
      | P2_stop v \<Rightarrow> [(ul ''signal'', v)]
      | P2_terminal t \<Rightarrow> [(ul ''terminal'', terminal_json t)]
      | P2_exec argv t \<Rightarrow> [(ul ''argv'', JArr (map JStr argv)), (ul ''timeout_ms'', JInt t)]
      | P2_output s off data \<Rightarrow>
          [(ul ''data_hex'', JStr data), (ul ''offset'', JInt off), (ul ''stream'', JStr (ul (stream_name s)))]
      | P2_exit t out err reason \<Rightarrow>
          [(ul ''reason'', JStr (ul (reason_name reason))), (ul ''stderr_bytes'', JInt err), (ul ''stdout_bytes'', JInt out),
           (ul ''terminal'', case t of None \<Rightarrow> JNull | Some t \<Rightarrow> terminal_json t)])"

definition v2_schema :: string where "v2_schema = ''palimpsest.oci-lifecycle-control.v2''"

definition v2_items :: "v2_message \<Rightarrow> (ustr \<times> json) list" where
  "v2_items m =
     [(ul ''boot_attempt_id'', JStr (m2_attempt m)),
      (ul ''domain_core_digest'', JStr (b_core_digest (m2_binding m))),
      (ul ''epoch'', JInt (m2_epoch m)),
      (ul ''host_nonce'', JStr (m2_nonce m)),
      (ul ''kind'', JStr (ul (v2_kind_name (m2_kind m)))),
      (ul ''payload'', JObj (v2_payload_items (m2_payload m))),
      (ul ''run_id'', JStr (b_run_id (m2_binding m))),
      (ul ''schema'', JStr (ul v2_schema)),
      (ul ''stage1_artifact_digest'', JStr (b_stage1_digest (m2_binding m))),
      (ul ''wire_sequence'', JInt (m2_wire m))] @
     (if m2_kind m \<in> set (V2_HELLO # request_kinds) then [(ul ''request_id'', jint (m2_request_id m))] else []) @
     (if m2_kind m \<noteq> V2_HELLO
      then [(ul ''boot_generation'', jstr (m2_boot m)), (ul ''reply_to'', jint (m2_reply_to m))] else [])"

definition v2_to_dict :: "v2_message \<Rightarrow> json" where
  "v2_to_dict m = JObj (v2_items m)"

definition v2_body_fields :: "string list" where
  "v2_body_fields =
     [''boot_attempt_id'', ''domain_core_digest'', ''epoch'', ''host_nonce'', ''kind'', ''payload'', ''run_id'', ''schema'',
      ''stage1_artifact_digest'', ''wire_sequence'']"

definition v2_fields :: "v2_kind \<Rightarrow> string list" where
  "v2_fields k =
     v2_body_fields @ (if k \<in> set (V2_HELLO # request_kinds) then [''request_id''] else []) @
     (if k \<noteq> V2_HELLO then [''boot_generation'', ''reply_to''] else [])"

definition v2_kind_of :: "json \<Rightarrow> v2_kind option" where
  "v2_kind_of v = find (\<lambda>k. is_text v (v2_kind_name k)) v2_kinds"

definition v2_from_dict :: "json \<Rightarrow> exn + v2_message" where
  "v2_from_dict value =
     (case value of
        JObj d \<Rightarrow>
          rbind (text_in (jget d ''kind'') (map v2_kind_name v2_kinds)) (\<lambda>known.
          case v2_kind_of (jget d ''kind'') of
            None \<Rightarrow> Inl (Refused ''lifecycle message kind is invalid'')
          | Some kind \<Rightarrow>
              rbind (v2_exact value (v2_fields kind) ''lifecycle message body'') (\<lambda>data.
              if \<not> is_text (jget data ''schema'') v2_schema
              then Inl (Refused ''lifecycle protocol schema is unsupported'')
              else
                rbind (make_binding (jget data ''run_id'') (jget data ''domain_core_digest'')
                         (jget data ''stage1_artifact_digest'')) (\<lambda>b.
                v2_message_init kind b (jget data ''boot_attempt_id'') (jget data ''host_nonce'') (jget data ''epoch'')
                  (jget data ''wire_sequence'') (jget data ''payload'') (jget data ''request_id'')
                  (jget data ''boot_generation'') (jget data ''reply_to''))))
      | _ \<Rightarrow> Inl (Refused ''lifecycle message kind is invalid''))"

lemmas v2_message_exec [exec] = max_exec_args_def max_exec_argv_bytes_def max_exec_output_def max_exec_timeout_def
  max_u64_def v2_exact_def v2_uuid_def v2_counter_def v2_hex32_def v2_digest_def v2_terminal_def text_items_def
  validate_exec_argv_def validate_exec_timeout_def validate_root_identity_def root_identity_json_def pair_of_def
  dict_of_def check_lifecycle_def public_state_json_def sha256_json_def lifecycle_state_digest_def lifecycle_json_def
  v2_kind_name_def v2_kinds_def host_kinds_def stream_name_def reason_name_def direction_def v2_reply_def
  v2_init_bootstrap_def v2_init_key_ack_def v2_init_reconnect_def boundary_fields_def int_between_def
  parser_state_ok_def v2_init_boundary_def v2_init_ready_def v2_init_snapshot_def v2_init_exec_def v2_init_output_def
  v2_init_exit_def v2_init_terminal_def v2_init_stop_def v2_body_init_def request_kinds_def v2_message_init_def
  v2_payload_items_def v2_schema_def v2_items_def v2_to_dict_def v2_body_fields_def v2_fields_def v2_kind_of_def v2_from_dict_def

end
