(* ===== verification/Control_V2_Wire.thy ===== *)
theory Control_V2_Wire imports Main Control_V2 begin

text \<open>
  \<open>src/palimpsest_local/oci_control_protocol_v2.py\<close>, second part: envelopes, the key
  schedule and authentication tags, frames, the console boundary line, the incremental
  decoder and the transcript projection. SHA-256 and HMAC are those of \<open>Py_Hash\<close>; a
  carrier is the string the code passes.
\<close>

section \<open>Envelopes\<close>

record v2_envelope =
  ev_body :: v2_message
  ev_key_id :: "ustr option"
  ev_tag :: "ustr option"

definition v2_envelope_init :: "v2_message \<Rightarrow> json \<Rightarrow> json \<Rightarrow> exn + v2_envelope" where
  "v2_envelope_init body key_id tag =
     (if m2_kind body = V2_HELLO then
        (if key_id \<noteq> JNull \<or> tag \<noteq> JNull then Inl (Refused ''initial HELLO envelope must be unsigned'')
         else Inr \<lparr>ev_body = body, ev_key_id = None, ev_tag = None\<rparr>)
      else
        rbind (v2_digest key_id ''key ID'') (\<lambda>k.
        rbind (v2_hex32 tag ''authentication tag'') (\<lambda>t.
        Inr \<lparr>ev_body = body, ev_key_id = Some k, ev_tag = Some t\<rparr>)))"

definition v2_envelope_json :: "v2_envelope \<Rightarrow> json" where
  "v2_envelope_json e =
     JObj [(ul ''body'', v2_to_dict (ev_body e)),
           (ul ''mac'', if m2_kind (ev_body e) = V2_HELLO then JNull
                        else JObj [(ul ''key_id'', jstr (ev_key_id e)), (ul ''tag'', jstr (ev_tag e))])]"

section \<open>Keys and tags\<close>

definition key_identifier :: "bytes \<Rightarrow> exn + ustr" where
  "key_identifier key =
     (if length key \<noteq> 32 then Inl (Refused ''lifecycle key is invalid'')
      else Inr (sha256_text (bl v2_schema @ [0] @ bl ''key-id'' @ [0] @ key)))"

definition channel_carrier :: string where "channel_carrier = ''channel-frame''"
definition console_carrier :: string where "console_carrier = ''console-line''"

definition validate_carrier_kind :: "v2_message \<Rightarrow> string \<Rightarrow> exn + unit" where
  "validate_carrier_kind m carrier =
     (if carrier = console_carrier then
        (if m2_kind m \<noteq> V2_BOUNDARY_ACK then Inl (Refused ''console carrier requires BOUNDARY_ACK'') else Inr ())
      else if carrier = channel_carrier then
        (if m2_kind m = V2_BOUNDARY_ACK then Inl (Refused ''BOUNDARY_ACK requires console carrier'') else Inr ())
      else Inl (Refused ''lifecycle carrier is invalid''))"

definition json_bytes :: "json \<Rightarrow> exn + bytes" where
  "json_bytes v = (case canonical_json_bytes v of None \<Rightarrow> Inl NotCanonical | Some b \<Rightarrow> Inr b)"

definition hkdf_binding :: "v2_message \<Rightarrow> json" where
  "hkdf_binding m =
     JObj [(ul ''boot_attempt_id'', JStr (m2_attempt m)),
           (ul ''boot_generation'', jstr (m2_boot m)),
           (ul ''domain_core_digest'', JStr (b_core_digest (m2_binding m))),
           (ul ''run_id'', JStr (b_run_id (m2_binding m))),
           (ul ''stage1_artifact_digest'', JStr (b_stage1_digest (m2_binding m)))]"

definition hkdf_subkey :: "bytes \<Rightarrow> v2_message \<Rightarrow> string \<Rightarrow> exn + bytes" where
  "hkdf_subkey key m carrier =
     rbind (validate_carrier_kind m carrier) (\<lambda>_.
     let salt = sha256 (bl v2_schema @ [0] @ bl ''hkdf-salt'' @ [0]);
         prk = hmac_sha256 salt key
     in rbind (json_bytes (hkdf_binding m)) (\<lambda>bind.
        Inr (hmac_sha256 prk
          (bl v2_schema @ [0] @ bl ''subkey'' @ [0] @ bl (direction m) @ [0] @ bl carrier @ [0] @ bind @ [1]))))"

definition mac_input :: "v2_message \<Rightarrow> string \<Rightarrow> exn + bytes" where
  "mac_input m carrier =
     rbind (json_bytes (v2_to_dict m)) (\<lambda>body.
     Inr (bl v2_schema @ [0] @ bl ''frame'' @ [0] @ bl (direction m) @ [0] @ bl carrier @ [0] @
          pack_u32 (length body) @ body))"

definition message_tag :: "v2_message \<Rightarrow> bytes \<Rightarrow> string \<Rightarrow> exn + ustr" where
  "message_tag m key carrier =
     rbind (hkdf_subkey key m carrier) (\<lambda>subkey.
     rbind (mac_input m carrier) (\<lambda>text. Inr (hex_of_bytes (hmac_sha256 subkey text))))"

definition sign_message :: "v2_message \<Rightarrow> bytes \<Rightarrow> string \<Rightarrow> exn + v2_envelope" where
  "sign_message m key carrier =
     (if m2_kind m = V2_HELLO then Inl (Refused ''initial HELLO cannot be signed'')
      else
        rbind (validate_carrier_kind m carrier) (\<lambda>_.
        rbind (message_tag m key carrier) (\<lambda>tag.
        rbind (key_identifier key) (\<lambda>key_id.
        v2_envelope_init m (JStr key_id) (JStr tag)))))"

text \<open>\<open>x or ""\<close>.\<close>

definition or_empty :: "ustr option \<Rightarrow> ustr" where
  "or_empty v = (case v of None \<Rightarrow> [] | Some s \<Rightarrow> s)"

definition verify_message_authentication :: "v2_envelope \<Rightarrow> bytes \<Rightarrow> string \<Rightarrow> exn + unit" where
  "verify_message_authentication e key carrier =
     (if m2_kind (ev_body e) = V2_HELLO then Inl (Refused ''initial HELLO has no authentication tag'')
      else
        rbind (validate_carrier_kind (ev_body e) carrier) (\<lambda>_.
        rbind (key_identifier key) (\<lambda>key_id.
        if or_empty (ev_key_id e) \<noteq> key_id then Inl (Refused ''lifecycle key ID is invalid'')
        else
          rbind (message_tag (ev_body e) key carrier) (\<lambda>expected.
          if or_empty (ev_tag e) \<noteq> expected then Inl (Refused ''lifecycle authentication tag is invalid'')
          else Inr ()))))"

section \<open>Frames\<close>

definition v2_encode_frame :: "v2_envelope \<Rightarrow> exn + bytes" where
  "v2_encode_frame e =
     rbind (json_bytes (v2_envelope_json e)) (\<lambda>payload.
     if payload = [] \<or> max_payload < length payload then Inl (Refused ''lifecycle frame exceeds 64 KiB'')
     else Inr (pack_u32 (length payload) @ payload))"

definition v2_decode_value :: "json \<Rightarrow> exn + v2_envelope" where
  "v2_decode_value value =
     rbind (v2_exact value [''body'', ''mac''] ''lifecycle envelope'') (\<lambda>outer.
     rbind (v2_from_dict (jget outer ''body'')) (\<lambda>body.
     if m2_kind body = V2_HELLO then
       (if jget outer ''mac'' \<noteq> JNull then Inl (Refused ''initial HELLO envelope must be unsigned'')
        else v2_envelope_init body JNull JNull)
     else
       rbind (v2_exact (jget outer ''mac'') [''key_id'', ''tag''] ''lifecycle MAC'') (\<lambda>mac.
       v2_envelope_init body (jget mac ''key_id'') (jget mac ''tag''))))"

definition v2_decode_payload :: "bytes \<Rightarrow> exn + v2_envelope" where
  "v2_decode_payload payload =
     (if payload = [] \<or> max_payload < length payload then Inl (Refused ''lifecycle payload size is invalid'')
      else case utf8_decode payload of
        None \<Rightarrow> Inl (Refused ''lifecycle payload JSON is invalid'')
      | Some text \<Rightarrow>
          (case loads text of
             Inl JDup \<Rightarrow> Inl (Refused ''lifecycle message contains a duplicate key'')
           | Inl _ \<Rightarrow> Inl (Refused ''lifecycle payload JSON is invalid'')
           | Inr value \<Rightarrow>
               rbind (v2_decode_value value) (\<lambda>envelope.
               rbind (json_bytes (v2_envelope_json envelope)) (\<lambda>encoded.
               if encoded \<noteq> payload then Inl (Refused ''lifecycle payload must be canonical UTF-8 JSON'')
               else Inr envelope))))"

definition v2_decode_frame :: "bytes \<Rightarrow> exn + v2_envelope" where
  "v2_decode_frame frame =
     (if length frame < 4 then Inl (Refused ''lifecycle frame is truncated'')
      else let n = unpack_u32 (take 4 frame)
           in if n = 0 \<or> max_payload < n then Inl (Refused ''lifecycle frame length is invalid'')
              else if length frame \<noteq> n + 4
              then Inl (Refused ''lifecycle frame is truncated or contains trailing bytes'')
              else v2_decode_payload (drop 4 frame))"

definition boundary_prefix :: bytes where
  "boundary_prefix = bl ''palimpsest guest stage1: lifecycle boundary ack ''"

definition encode_boundary_line :: "v2_envelope \<Rightarrow> exn + bytes" where
  "encode_boundary_line e =
     rbind (validate_carrier_kind (ev_body e) console_carrier) (\<lambda>_.
     rbind (json_bytes (v2_envelope_json e)) (\<lambda>payload. Inr (boundary_prefix @ payload @ [10])))"

definition decode_boundary_line :: "bytes \<Rightarrow> exn + v2_envelope" where
  "decode_boundary_line line =
     (if take (length boundary_prefix) line \<noteq> boundary_prefix \<or> line = [] \<or> last line \<noteq> 10
      then Inl (Refused ''lifecycle boundary line is invalid'')
      else rbind (v2_decode_payload (butlast (drop (length boundary_prefix) line))) (\<lambda>e.
           if m2_kind (ev_body e) \<noteq> V2_BOUNDARY_ACK then Inl (Refused ''console message is not BOUNDARY_ACK'')
           else Inr e))"

definition v2_feed :: "frame_state \<Rightarrow> bytes \<Rightarrow> frame_state \<times> (exn + v2_envelope list)" where
  "v2_feed s data = feed_loop True v2_decode_payload (Refused ''lifecycle frame length is invalid'') s data []"

definition v2_finish :: "frame_state \<Rightarrow> exn + unit" where
  "v2_finish s =
     (if buffered_bytes s \<noteq> 0 \<or> fs_expected s \<noteq> None then Inl (Refused ''lifecycle frame stream is truncated'')
      else Inr ())"

section \<open>The transcript\<close>

definition projection_items :: "v2_envelope \<Rightarrow> bytes \<Rightarrow> string \<Rightarrow> bool \<Rightarrow> bytes \<Rightarrow> (ustr \<times> json) list" where
  "projection_items e encoded carrier verified body_bytes =
     (let m = ev_body e in
      [(ul ''authentication_verified'', JBool verified),
       (ul ''body_digest'', JStr (sha256_text body_bytes)),
       (ul ''boot_attempt_id'', JStr (m2_attempt m)),
       (ul ''boot_generation'', jstr (m2_boot m)),
       (ul ''carrier'', JStr (ul carrier)),
       (ul ''direction'', JStr (ul (direction m))),
       (ul ''envelope_digest'', JStr (sha256_text encoded)),
       (ul ''epoch'', JInt (m2_epoch m)),
       (ul ''host_nonce'', JStr (m2_nonce m)),
       (ul ''key_id'', jstr (ev_key_id e)),
       (ul ''kind'', JStr (ul (v2_kind_name (m2_kind m)))),
       (ul ''reply_to'', jint (m2_reply_to m)),
       (ul ''request_id'', jint (m2_request_id m)),
       (ul ''size_bytes'', JInt (int (length encoded))),
       (ul ''wire_sequence'', JInt (m2_wire m))])"

definition identity_items :: "v2_message \<Rightarrow> exn + (ustr \<times> json) list" where
  "identity_items m =
     (case (m2_kind m, m2_payload m) of
        (V2_READY, P2_ready ri) \<Rightarrow>
          rbind (validate_root_identity (root_identity_json ri)) (\<lambda>ri.
          Inr [(ul ''root_identity'', root_identity_json ri),
               (ul ''run_id'', JStr (b_run_id (m2_binding m))),
               (ul ''domain_core_digest'', JStr (b_core_digest (m2_binding m))),
               (ul ''stage1_artifact_digest'', JStr (b_stage1_digest (m2_binding m)))])
      | _ \<Rightarrow> Inr [])"

definition transcript_projection :: "v2_envelope \<Rightarrow> bytes \<Rightarrow> string \<Rightarrow> bytes option \<Rightarrow> exn + (ustr \<times> json) list" where
  "transcript_projection e encoded carrier key =
     rbind (validate_carrier_kind (ev_body e) carrier) (\<lambda>_.
     if encoded = [] then Inl (Refused ''lifecycle transcript input is invalid'')
     else
     rbind (if m2_kind (ev_body e) = V2_HELLO then
              (if key \<noteq> None then Inl (Refused ''unsigned HELLO projection requires no key'') else Inr False)
            else case key of
              None \<Rightarrow> Inl (Refused ''signed lifecycle projection requires a key'')
            | Some k \<Rightarrow> rbind (verify_message_authentication e k carrier) (\<lambda>_. Inr True)) (\<lambda>verified.
     rbind (if carrier = channel_carrier then v2_encode_frame e else encode_boundary_line e) (\<lambda>canonical.
     if encoded \<noteq> canonical then Inl (Refused ''lifecycle transcript encoding is not canonical'')
     else
     rbind (json_bytes (v2_to_dict (ev_body e))) (\<lambda>body_bytes.
     rbind (identity_items (ev_body e)) (\<lambda>identity.
     let projection = projection_items e encoded carrier verified body_bytes @ identity
     in rbind (json_bytes (JObj projection)) (\<lambda>b.
        Inr (projection @ [(ul ''projection_digest'', JStr (sha256_text b))])))))))"

lemmas v2_wire_exec [exec] = v2_envelope_init_def v2_envelope_json_def key_identifier_def channel_carrier_def
  console_carrier_def validate_carrier_kind_def json_bytes_def hkdf_binding_def hkdf_subkey_def mac_input_def
  message_tag_def sign_message_def or_empty_def verify_message_authentication_def v2_encode_frame_def
  v2_decode_value_def v2_decode_payload_def v2_decode_frame_def boundary_prefix_def encode_boundary_line_def
  decode_boundary_line_def v2_feed_def v2_finish_def projection_items_def identity_items_def transcript_projection_def

end
