(* ===== verification/Control_V2_Session.thy ===== *)
theory Control_V2_Session imports Main Control_V2_Wire begin

text \<open>
  \<open>HostOCIControlV2Session\<close> of \<open>src/palimpsest_local/oci_control_protocol_v2.py\<close>:
  the host side of protocol v2 as a record and one function per method. Every method returns
  the session it leaves behind together with its result or exception, since some fields are
  written before a late check. Python sets are lists read through membership; the values
  that the nonce and boot-attempt factories return are arguments.
\<close>

section \<open>State\<close>

datatype v2_state = S_new | S_hello_sent | S_bootstrap | S_key_ack_sent | S_ready | S_stop_sent | S_terminal
  | S_reconnect_sent

record v2_session =
  s2_binding :: binding
  s2_attempt :: ustr
  s2_used_nonces :: "ustr list"
  s2_used_boundaries :: "ustr list"
  s2_nonce :: "ustr option"
  s2_key :: "bytes option"
  s2_key_id :: "ustr option"
  s2_boot :: "ustr option"
  s2_host_wire :: int
  s2_accepted_wire :: int
  s2_accepted_cands :: "int list option"
  s2_guest_wire :: int
  s2_request :: int
  s2_pending :: "int option"
  s2_stop :: "int option"
  s2_terminal :: json
  s2_terminal_stop :: "int option"
  s2_epoch :: int
  s2_boundary :: "(ustr \<times> ustr) option"
  s2_boundary_state :: "lifecycle option"
  s2_expected :: "lifecycle option"
  s2_opener :: "int option"
  s2_accepted_opener :: "int option"
  s2_accepted_nonce :: "ustr option"
  s2_pending_wire :: "int option"
  s2_stop_wire :: "int option"
  s2_stop_cands :: "int list"
  s2_retry :: "int option"
  s2_reconnect_from :: "v2_state option"
  s2_exec :: "int option"
  s2_exec_wire :: "int option"
  s2_stdout :: int
  s2_stderr :: int
  s2_state :: v2_state

definition v2_new :: "binding \<Rightarrow> json \<Rightarrow> exn + v2_session" where
  "v2_new b produced =
     rbind (v2_uuid produced ''boot attempt ID'') (\<lambda>attempt.
     Inr \<lparr>s2_binding = b, s2_attempt = attempt, s2_used_nonces = [], s2_used_boundaries = [], s2_nonce = None,
       s2_key = None, s2_key_id = None, s2_boot = None, s2_host_wire = 0, s2_accepted_wire = 0,
       s2_accepted_cands = None, s2_guest_wire = 0, s2_request = 0, s2_pending = None, s2_stop = None,
       s2_terminal = JNull, s2_terminal_stop = None, s2_epoch = 1, s2_boundary = None, s2_boundary_state = None,
       s2_expected = None, s2_opener = None, s2_accepted_opener = None, s2_accepted_nonce = None,
       s2_pending_wire = None, s2_stop_wire = None, s2_stop_cands = [], s2_retry = None, s2_reconnect_from = None,
       s2_exec = None, s2_exec_wire = None, s2_stdout = 0, s2_stderr = 0, s2_state = S_new\<rparr>)"

section \<open>Evidence\<close>

definition v2_transcript :: "v2_envelope \<Rightarrow> bytes \<Rightarrow> string \<Rightarrow> v2_session \<Rightarrow> exn + (ustr \<times> json) list" where
  "v2_transcript e encoded carrier s =
     transcript_projection e encoded carrier (if m2_kind (ev_body e) = V2_HELLO then None else s2_key s)"

fun contains_bytes :: "bytes \<Rightarrow> bytes \<Rightarrow> bool" where
  "contains_bytes p [] \<longleftrightarrow> p = []"
| "contains_bytes p (b # bs) \<longleftrightarrow> take (length p) (b # bs) = p \<or> contains_bytes p bs"

definition ascii_bytes :: "ustr \<Rightarrow> bytes" where
  "ascii_bytes s = map byte_of s"

definition assert_receipt_safe :: "bytes \<Rightarrow> json list \<Rightarrow> v2_session \<Rightarrow> exn + unit" where
  "assert_receipt_safe serialized tags s =
     (if \<exists>k. s2_key s = Some k \<and> contains_bytes (ascii_bytes (hex_of_bytes k)) serialized
      then Inl (Refused ''serialized lifecycle evidence exposes the boot key'')
      else rfold (\<lambda>_ tag.
        case tag of
          JStr t \<Rightarrow>
            if \<not> is_hex32 t then Inl (Refused ''observed lifecycle tag is invalid'')
            else if contains_bytes (ascii_bytes t) serialized
            then Inl (Refused ''serialized lifecycle evidence exposes a MAC tag'') else Inr ()
        | _ \<Rightarrow> Inl (Refused ''observed lifecycle tag is invalid'')) () tags)"

section \<open>Requests of the host\<close>

definition max_connections :: nat where "max_connections = 16"

definition fresh_nonce :: "json \<Rightarrow> v2_session \<Rightarrow> exn + ustr \<times> v2_session" where
  "fresh_nonce produced s =
     (if max_connections \<le> length (s2_used_nonces s) then Inl (Refused ''lifecycle connection limit was exhausted'')
      else case produced of
        JStr nonce \<Rightarrow>
          if is_hex32 nonce \<and> nonce \<notin> set (s2_used_nonces s)
          then Inr (nonce, s\<lparr>s2_used_nonces := nonce # s2_used_nonces s\<rparr>)
          else Inl (Refused ''nonce factory did not produce a fresh canonical nonce'')
      | _ \<Rightarrow> Inl (Refused ''nonce factory did not produce a fresh canonical nonce''))"

definition v2_hello :: "json \<Rightarrow> v2_session \<Rightarrow> v2_session \<times> (exn + v2_envelope)" where
  "v2_hello produced s =
     (if s2_state s \<noteq> S_new then (s, Inl (Refused ''session HELLO was already sent''))
      else case fresh_nonce produced s of
        Inl e \<Rightarrow> (s, Inl e)
      | Inr (nonce, s1) \<Rightarrow>
          (let r = s2_request s1 + 1; w = s2_host_wire s1 + 1;
               s2 = s1\<lparr>s2_nonce := Some nonce, s2_request := r, s2_host_wire := w, s2_pending := Some r,
                      s2_pending_wire := Some w, s2_state := S_hello_sent, s2_opener := Some r\<rparr>
           in (s2, rbind (v2_message_init V2_HELLO (s2_binding s2) (JStr (s2_attempt s2)) (JStr nonce) (JInt 1) (JInt w)
                     (JObj []) (JInt r) JNull JNull) (\<lambda>m. v2_envelope_init m JNull JNull))))"

text \<open>A message of this session, signed with its key.\<close>

definition sign_request :: "v2_kind \<Rightarrow> json \<Rightarrow> json \<Rightarrow> json \<Rightarrow> int \<Rightarrow> int \<Rightarrow> bytes \<Rightarrow> v2_session \<Rightarrow> exn + v2_envelope" where
  "sign_request kind payload request reply epoch wire key s =
     rbind (v2_message_init kind (s2_binding s) (JStr (s2_attempt s)) (JStr (or_empty (s2_nonce s))) (JInt epoch)
              (JInt wire) payload request (jstr (s2_boot s)) reply) (\<lambda>m.
     sign_message m key channel_carrier)"

definition v2_key_ack :: "v2_session \<Rightarrow> v2_session \<times> (exn + v2_envelope)" where
  "v2_key_ack s =
     (case (s2_key s, s2_boot s) of
        (Some key, Some boot) \<Rightarrow>
          if s2_state s \<noteq> S_bootstrap then (s, Inl (Refused ''KEY_ACK requires authenticated BOOTSTRAP''))
          else
            (let w = s2_host_wire s + 1; s1 = s\<lparr>s2_host_wire := w, s2_pending_wire := Some w\<rparr>
             in case sign_request V2_KEY_ACK (JObj []) JNull (JInt (s2_guest_wire s1)) 1 w key s1 of
                  Inl e \<Rightarrow> (s1, Inl e)
                | Inr env \<Rightarrow> (s1\<lparr>s2_state := S_key_ack_sent\<rparr>, Inr env))
      | _ \<Rightarrow> (s, Inl (Refused ''KEY_ACK requires authenticated BOOTSTRAP'')))"

definition v2_reconnect :: "json \<Rightarrow> v2_session \<Rightarrow> v2_session \<times> (exn + v2_envelope)" where
  "v2_reconnect produced s =
     (if s2_exec s \<noteq> None then (s, Inl (Refused ''exec reconnect is unsupported''))
      else case (s2_key s, s2_boot s, s2_boundary s) of
        (Some key, Some boot, Some (boundary_id, digest)) \<Rightarrow>
          if s2_state s \<notin> {S_ready, S_stop_sent, S_terminal} then (s, Inl (Refused ''session is not reconnectable''))
          else
            (let s0 = s\<lparr>s2_reconnect_from := Some (s2_state s)\<rparr>
             in case fresh_nonce produced s0 of
                  Inl e \<Rightarrow> (s0, Inl e)
                | Inr (nonce, s1) \<Rightarrow>
                    (let (r, s2) = (case s2_retry s1 of
                           None \<Rightarrow> (s2_request s1 + 1, s1\<lparr>s2_request := s2_request s1 + 1\<rparr>)
                         | Some r \<Rightarrow> (r, s1\<lparr>s2_retry := None\<rparr>));
                         w = s2_host_wire s2 + 1;
                         s3 = s2\<lparr>s2_nonce := Some nonce, s2_host_wire := w, s2_pending := Some r,
                                s2_pending_wire := Some w, s2_boundary := None, s2_expected := s2_boundary_state s2,
                                s2_boundary_state := None, s2_state := S_reconnect_sent, s2_opener := Some r\<rparr>
                     in (s3, sign_request V2_RECONNECT
                               (JObj [(ul ''boundary_ack_digest'', JStr digest), (ul ''boundary_id'', JStr boundary_id)])
                               (JInt r) JNull (s2_epoch s3) w key s3)))
      | _ \<Rightarrow> (s, Inl (Refused ''RECONNECT requires authenticated BOUNDARY_ACK'')))"

definition v2_exec :: "json \<Rightarrow> json \<Rightarrow> v2_session \<Rightarrow> v2_session \<times> (exn + v2_envelope)" where
  "v2_exec argv timeout_ms s =
     (case rbind (validate_exec_argv argv) (\<lambda>args. rbind (validate_exec_timeout timeout_ms) (\<lambda>t. Inr (args, t))) of
        Inl e \<Rightarrow> (s, Inl e)
      | Inr (args, t) \<Rightarrow>
          (case (s2_key s, s2_boot s, s2_exec s) of
             (Some key, Some boot, None) \<Rightarrow>
               if s2_state s \<noteq> S_ready then (s, Inl (Refused ''exec requires ready state and no outstanding command''))
               else if max_counter \<le> s2_request s \<or> max_counter \<le> s2_host_wire s
               then (s, Inl (Refused ''exec sequence is exhausted''))
               else
                 (let r = s2_request s + 1; w = s2_host_wire s + 1
                  in case sign_request V2_EXEC (JObj [(ul ''argv'', JArr (map JStr args)), (ul ''timeout_ms'', JInt t)])
                            (JInt r) JNull (s2_epoch s) w key s of
                       Inl e \<Rightarrow> (s, Inl e)
                     | Inr env \<Rightarrow>
                         (s\<lparr>s2_request := r, s2_host_wire := w, s2_exec := Some r, s2_exec_wire := Some w,
                            s2_stdout := 0, s2_stderr := 0\<rparr>, Inr env))
           | _ \<Rightarrow> (s, Inl (Refused ''exec requires ready state and no outstanding command''))))"

text \<open>\<open>set.add\<close>, and a STOP of the session on a fresh wire.\<close>

definition add_cand :: "int \<Rightarrow> int list \<Rightarrow> int list" where
  "add_cand w ws = (if w \<in> set ws then ws else w # ws)"

definition stop_wire_out :: "v2_session \<Rightarrow> v2_session" where
  "stop_wire_out s =
     (let w = s2_host_wire s + 1
      in s\<lparr>s2_host_wire := w, s2_stop_wire := Some w, s2_stop_cands := add_cand w (s2_stop_cands s)\<rparr>)"

definition v2_stop :: "v2_session \<Rightarrow> v2_session \<times> (exn + v2_envelope)" where
  "v2_stop s =
     (case (s2_key s, s2_boot s) of
        (Some key, Some boot) \<Rightarrow>
          if s2_state s \<noteq> S_ready then (s, Inl (Refused ''STOP requires a current ready snapshot''))
          else
            (let s1 = stop_wire_out s;
                 s2 = (if s2_stop s1 = None
                       then s1\<lparr>s2_request := s2_request s1 + 1, s2_stop := Some (s2_request s1 + 1)\<rparr> else s1)
             in case sign_request V2_STOP (JObj [(ul ''signal'', JInt 15)]) (jint (s2_stop s2)) JNull (s2_epoch s2)
                       (s2_host_wire s2) key s2 of
                  Inl e \<Rightarrow> (s2, Inl e)
                | Inr env \<Rightarrow> (s2\<lparr>s2_state := S_stop_sent\<rparr>, Inr env))
      | _ \<Rightarrow> (s, Inl (Refused ''STOP requires a current ready snapshot'')))"

definition v2_retry_stop :: "v2_session \<Rightarrow> v2_session \<times> (exn + v2_envelope)" where
  "v2_retry_stop s =
     (case (s2_key s, s2_boot s, s2_stop s) of
        (Some key, Some boot, Some stop) \<Rightarrow>
          if s2_state s \<noteq> S_stop_sent then (s, Inl (Refused ''STOP retry requires an outstanding logical STOP''))
          else
            (let s1 = stop_wire_out s
             in (s1, sign_request V2_STOP (JObj [(ul ''signal'', JInt 15)]) (JInt stop) JNull (s2_epoch s1)
                       (s2_host_wire s1) key s1))
      | _ \<Rightarrow> (s, Inl (Refused ''STOP retry requires an outstanding logical STOP'')))"

section \<open>The boundary acknowledgement\<close>

text \<open>
  Equality of two decoded values as Python sees it: the order of the items of a dictionary
  does not count.
\<close>

definition json_same :: "json \<Rightarrow> json \<Rightarrow> bool" where
  "json_same v w \<longleftrightarrow> canon v = canon w"

definition lifecycle_same :: "lifecycle \<Rightarrow> lifecycle \<Rightarrow> bool" where
  "lifecycle_same l k \<longleftrightarrow>
     lc_state l = lc_state k \<and> lc_stop l = lc_stop k \<and> json_same (lc_terminal l) (lc_terminal k)"

definition or_zero :: "int option \<Rightarrow> int" where
  "or_zero v = (case v of None \<Rightarrow> 0 | Some i \<Rightarrow> i)"

definition above_all :: "int \<Rightarrow> int list \<Rightarrow> bool" where
  "above_all w ws \<longleftrightarrow> ws \<noteq> [] \<and> list_all (\<lambda>v. v < w) ws"

definition boundary_of :: "v2_message \<Rightarrow> boundary option" where
  "boundary_of m = (case m2_payload m of P2_boundary b \<Rightarrow> Some b | _ \<Rightarrow> None)"

text \<open>The guards in front of the state-dependent part; a BOUNDARY_ACK carries a boundary.\<close>

definition boundary_guards :: "v2_envelope \<Rightarrow> v2_session \<Rightarrow> exn + v2_message \<times> boundary" where
  "boundary_guards env s =
     (if s2_exec s \<noteq> None then Inl (Refused ''exec reconnect is unsupported; command outcome is uncertain'')
      else case (s2_key s, s2_boot s) of
        (Some key, Some boot) \<Rightarrow>
          rbind (verify_message_authentication env key console_carrier) (\<lambda>_.
          let m = ev_body env
          in if m2_kind m \<noteq> V2_BOUNDARY_ACK \<or> m2_binding m \<noteq> s2_binding s
             then Inl (Refused ''BOUNDARY_ACK binding is invalid'')
             else if m2_attempt m \<noteq> s2_attempt s \<or> m2_boot m \<noteq> Some boot
             then Inl (Refused ''BOUNDARY_ACK boot identity is stale'')
             else if m2_epoch m \<noteq> s2_epoch s + 1 then Inl (Refused ''BOUNDARY_ACK epoch is stale'')
             else if m2_wire m \<le> s2_guest_wire s then Inl (Refused ''BOUNDARY_ACK ordering is stale'')
             else case boundary_of m of
               None \<Rightarrow> Inl (Refused ''BOUNDARY_ACK binding is invalid'')
             | Some b \<Rightarrow>
                 if bd_last_g2h b \<noteq> m2_wire m then Inl (Refused ''BOUNDARY_ACK guest sequence is stale'')
                 else if bd_previous_epoch b \<noteq> s2_epoch s then Inl (Refused ''BOUNDARY_ACK previous epoch is stale'')
                 else if s2_state s \<notin> {S_key_ack_sent, S_ready, S_stop_sent, S_terminal, S_reconnect_sent}
                 then Inl (Refused ''BOUNDARY_ACK transition is invalid'')
                 else Inr (m, b))
      | _ \<Rightarrow> Inl (Refused ''BOUNDARY_ACK arrived before BOOTSTRAP''))"

text \<open>
  What the state of the session expects: whether the lifecycle state is allowed, the host
  wires the guest may have committed, and whether an outstanding RECONNECT was accepted.
\<close>

definition natural_terminal :: "lifecycle \<Rightarrow> bool" where
  "natural_terminal l \<longleftrightarrow> lc_state l = Snap_terminal \<and> lc_stop l = None"

definition expect_reconnect :: "v2_message \<Rightarrow> boundary \<Rightarrow> v2_session \<Rightarrow> exn + bool \<times> int list \<times> bool option" where
  "expect_reconnect m b s =
     (let l = bd_lifecycle b;
          allowed = (case s2_expected s of
              None \<Rightarrow> False
            | Some p \<Rightarrow>
                (case lc_state p of
                   Snap_ready \<Rightarrow> lc_state l = Snap_ready \<or> natural_terminal l
                 | Snap_stopping \<Rightarrow>
                     lc_state l = Snap_stopping \<and> lc_stop l = lc_stop p \<or>
                     lc_state l = Snap_terminal \<and> lc_stop l \<in> {None, lc_stop p}
                 | Snap_terminal \<Rightarrow> lifecycle_same l p));
          unaccepted = (Some (m2_nonce m) = s2_accepted_nonce s \<and> m2_reply_to m = s2_accepted_opener s \<and>
                        bd_last_h2g b = s2_accepted_wire s);
          accepted = (Some (m2_nonce m) = s2_nonce s \<and> m2_reply_to m = s2_opener s \<and>
                      Some (bd_last_h2g b) = s2_pending_wire s)
      in if unaccepted = accepted then Inl (Refused ''BOUNDARY_ACK reconnect commitment is stale'')
         else Inr (allowed, [or_zero (if accepted then s2_pending_wire s else Some (s2_accepted_wire s))], Some accepted))"

definition expect_stop_sent :: "lifecycle \<Rightarrow> v2_session \<Rightarrow> bool \<times> int list" where
  "expect_stop_sent l s =
     (lc_state l = Snap_ready \<and> lc_stop l = None \<or>
      lc_state l = Snap_stopping \<and> lc_stop l = s2_stop s \<or>
      lc_state l = Snap_terminal \<and> lc_stop l \<in> {None, s2_stop s},
      if lc_stop l \<noteq> None \<and> lc_stop l = s2_stop s \<and> lc_state l \<in> {Snap_stopping, Snap_terminal}
      then (if above_all (s2_accepted_wire s) (s2_stop_cands s)
            then s2_accepted_wire s # s2_stop_cands s else s2_stop_cands s)
      else if natural_terminal l then s2_accepted_wire s # or_zero (s2_stop_wire s) # s2_stop_cands s
      else s2_accepted_wire s # s2_stop_cands s)"

definition expect_terminal :: "lifecycle \<Rightarrow> v2_session \<Rightarrow> bool \<times> int list" where
  "expect_terminal l s =
     (lc_state l = Snap_terminal \<and> lc_stop l = s2_terminal_stop s \<and> json_same (lc_terminal l) (s2_terminal s),
      case s2_accepted_cands s of Some (w # ws) \<Rightarrow> w # ws | _ \<Rightarrow> [s2_accepted_wire s])"

definition boundary_expect :: "v2_message \<Rightarrow> boundary \<Rightarrow> v2_session \<Rightarrow> exn + bool \<times> int list \<times> bool option" where
  "boundary_expect m b s =
     (let l = bd_lifecycle b
      in case s2_state s of
           S_reconnect_sent \<Rightarrow> expect_reconnect m b s
         | S_key_ack_sent \<Rightarrow>
             Inr (lc_state l = Snap_ready \<and> lc_stop l = None \<or> natural_terminal l, [or_zero (s2_pending_wire s)], None)
         | S_ready \<Rightarrow> Inr (lc_state l = Snap_ready \<or> natural_terminal l, [s2_accepted_wire s], None)
         | S_stop_sent \<Rightarrow> (case expect_stop_sent l s of (allowed, ws) \<Rightarrow> Inr (allowed, ws, None))
         | _ \<Rightarrow> (case expect_terminal l s of (allowed, ws) \<Rightarrow> Inr (allowed, ws, None)))"

text \<open>The remaining checks; the result is the digest of the line and the RECONNECT verdict.\<close>

definition boundary_checks :: "v2_envelope \<Rightarrow> bytes \<Rightarrow> v2_message \<Rightarrow> boundary \<Rightarrow> v2_session \<Rightarrow> exn + ustr \<times> bool option" where
  "boundary_checks env line m b s =
     rbind (boundary_expect m b s) (\<lambda>(allowed, wires, accepted).
     if s2_state s \<noteq> S_reconnect_sent \<and>
        (Some (m2_nonce m) \<noteq> s2_accepted_nonce s \<or> m2_reply_to m \<noteq> s2_accepted_opener s)
     then Inl (Refused ''BOUNDARY_ACK connection opener is stale'')
     else if \<not> allowed then Inl (Refused ''BOUNDARY_ACK lifecycle state is stale'')
     else if bd_last_h2g b \<notin> set wires then Inl (Refused ''BOUNDARY_ACK host sequence is stale'')
     else
       rbind (encode_boundary_line env) (\<lambda>canonical_line.
       if line \<noteq> canonical_line then Inl (Refused ''BOUNDARY_ACK console encoding is invalid'')
       else if bd_id b \<in> set (s2_used_boundaries s) then Inl (Refused ''BOUNDARY_ACK boundary ID was reused'')
       else rbind (json_bytes (v2_envelope_json env)) (\<lambda>envelope. Inr (sha256_text envelope, accepted))))"

definition host_state_of :: "snap_state \<Rightarrow> v2_state" where
  "host_state_of st = (case st of Snap_ready \<Rightarrow> S_ready | Snap_stopping \<Rightarrow> S_stop_sent | Snap_terminal \<Rightarrow> S_terminal)"

text \<open>The writes before the last check, that check, and the writes after it.\<close>

definition boundary_write :: "v2_message \<Rightarrow> boundary \<Rightarrow> v2_session \<Rightarrow> v2_session" where
  "boundary_write m b s =
     s\<lparr>s2_used_boundaries := bd_id b # s2_used_boundaries s, s2_epoch := m2_epoch m, s2_guest_wire := m2_wire m,
       s2_accepted_wire := bd_last_h2g b, s2_accepted_cands := None\<rparr>"

definition boundary_stop_cands :: "boundary \<Rightarrow> v2_session \<Rightarrow> exn + int list" where
  "boundary_stop_cands b s =
     (let l = bd_lifecycle b; w = bd_last_h2g b
      in if lc_state l \<in> {Snap_stopping, Snap_terminal} \<and> lc_stop l \<noteq> None \<and> lc_stop l = s2_stop s then
           (if w \<in> set (s2_stop_cands s) then Inr [w]
            else if \<not> above_all w (s2_stop_cands s)
            then Inl (Refused ''BOUNDARY_ACK STOP wire commitment is stale'')
            else Inr (s2_stop_cands s))
         else Inr [])"

definition boundary_commit :: "v2_message \<Rightarrow> boundary \<Rightarrow> ustr \<Rightarrow> bool option \<Rightarrow> v2_session \<Rightarrow> v2_session" where
  "boundary_commit m b digest accepted s =
     (let l = bd_lifecycle b;
          s1 = (if accepted = Some True
                then s\<lparr>s2_accepted_nonce := s2_nonce s, s2_accepted_opener := s2_opener s\<rparr> else s);
          s2 = s1\<lparr>s2_boundary := Some (bd_id b, digest), s2_boundary_state := Some l\<rparr>
      in if s2_state s = S_key_ack_sent then
           (let s3 = s2\<lparr>s2_state := (if lc_state l = Snap_ready then S_ready else S_terminal)\<rparr>;
                s4 = (if lc_state l = Snap_terminal
                      then s3\<lparr>s2_terminal := lc_terminal l, s2_terminal_stop := None\<rparr> else s3)
            in s4\<lparr>s2_pending := None, s2_pending_wire := None\<rparr>)
         else if s2_state s = S_reconnect_sent then
           (let s3 = s2\<lparr>s2_state := host_state_of (lc_state l)\<rparr>;
                s4 = (if lc_state l = Snap_terminal
                      then s3\<lparr>s2_terminal := lc_terminal l, s2_terminal_stop := lc_stop l\<rparr> else s3)
            in s4\<lparr>s2_retry := (if accepted = Some True then None else s2_pending s4), s2_pending := None,
                  s2_pending_wire := None, s2_reconnect_from := None, s2_expected := None\<rparr>)
         else s2)"

definition v2_admit_boundary :: "v2_envelope \<Rightarrow> bytes \<Rightarrow> v2_session \<Rightarrow> v2_session \<times> (exn + unit)" where
  "v2_admit_boundary env line s =
     (case rbind (boundary_guards env s) (\<lambda>(m, b). rbind (boundary_checks env line m b s) (\<lambda>(digest, accepted).
             Inr (m, b, digest, accepted))) of
        Inl e \<Rightarrow> (s, Inl e)
      | Inr (m, b, digest, accepted) \<Rightarrow>
          (let s1 = boundary_write m b s
           in case boundary_stop_cands b s1 of
                Inl e \<Rightarrow> (s1, Inl e)
              | Inr cands \<Rightarrow> (boundary_commit m b digest accepted (s1\<lparr>s2_stop_cands := cands\<rparr>), Inr ())))"

section \<open>Messages of the guest\<close>

definition accept_bootstrap :: "v2_envelope \<Rightarrow> v2_session \<Rightarrow> exn + v2_session" where
  "accept_bootstrap env s =
     (let m = ev_body env
      in if s2_state s \<noteq> S_hello_sent \<or> m2_reply_to m \<noteq> s2_pending s
         then Inl (Refused ''BOOTSTRAP transition is invalid'')
         else if m2_attempt m \<noteq> s2_attempt s \<or> Some (m2_nonce m) \<noteq> s2_nonce s
         then Inl (Refused ''BOOTSTRAP identity is stale'')
         else
           (let key = bytes_of_hex (case m2_payload m of P2_bootstrap k \<Rightarrow> k | _ \<Rightarrow> [])
            in rbind (verify_message_authentication env key channel_carrier) (\<lambda>_.
               if m2_epoch m \<noteq> 1 \<or> m2_wire m \<noteq> 1 then Inl (Refused ''BOOTSTRAP ordering is stale'')
               else Inr (s\<lparr>s2_key := Some key, s2_key_id := ev_key_id env, s2_boot := m2_boot m,
                 s2_guest_wire := m2_wire m, s2_accepted_wire := or_zero (s2_pending_wire s),
                 s2_accepted_nonce := s2_nonce s, s2_accepted_opener := s2_opener s,
                 s2_pending_wire := None, s2_state := S_bootstrap\<rparr>))))"

definition accept_guards :: "v2_envelope \<Rightarrow> v2_session \<Rightarrow> exn + v2_message" where
  "accept_guards env s =
     (case (s2_key s, s2_boot s) of
        (Some key, Some boot) \<Rightarrow>
          rbind (verify_message_authentication env key channel_carrier) (\<lambda>_.
          let m = ev_body env
          in if m2_attempt m \<noteq> s2_attempt s \<or> m2_boot m \<noteq> Some boot
             then Inl (Refused ''guest lifecycle boot identity is stale'')
             else if Some (m2_nonce m) \<noteq> s2_nonce s \<or> m2_epoch m \<noteq> s2_epoch s
             then Inl (Refused ''guest lifecycle nonce or epoch is stale'')
             else if m2_wire m \<le> s2_guest_wire s then Inl (Refused ''guest lifecycle wire ordering is stale'')
             else Inr m)
      | _ \<Rightarrow> Inl (Refused ''guest message arrived before BOOTSTRAP''))"

definition exec_identity :: "v2_message \<Rightarrow> v2_session \<Rightarrow> bool" where
  "exec_identity m s \<longleftrightarrow>
     s2_state s \<in> {S_ready, S_stop_sent} \<and> s2_exec s \<noteq> None \<and> m2_reply_to m = s2_exec s"

definition exec_accepted :: "v2_message \<Rightarrow> v2_session \<Rightarrow> v2_session" where
  "exec_accepted m s =
     s\<lparr>s2_guest_wire := m2_wire m, s2_accepted_wire := max (s2_accepted_wire s) (or_zero (s2_exec_wire s))\<rparr>"

definition accept_output :: "v2_message \<Rightarrow> exec_stream \<Rightarrow> int \<Rightarrow> ustr \<Rightarrow> v2_session \<Rightarrow> exn + v2_session" where
  "accept_output m stream off data s =
     (let count = int (length data div 2);
          have_bytes = (case stream of Stdout \<Rightarrow> s2_stdout s | Stderr \<Rightarrow> s2_stderr s)
      in if off \<noteq> have_bytes then Inl (Refused ''guest exec output offset is not contiguous'')
         else if max_exec_output < s2_stdout s + s2_stderr s + count
         then Inl (Refused ''guest exec combined output exceeds limit'')
         else Inr (exec_accepted m
           (case stream of Stdout \<Rightarrow> s\<lparr>s2_stdout := have_bytes + count\<rparr> | Stderr \<Rightarrow> s\<lparr>s2_stderr := have_bytes + count\<rparr>)))"

definition accept_exec :: "v2_message \<Rightarrow> v2_session \<Rightarrow> exn + v2_session" where
  "accept_exec m s =
     (if \<not> exec_identity m s then Inl (Refused ''guest exec request identity is stale'')
      else case m2_payload m of
        P2_output stream off data \<Rightarrow> accept_output m stream off data s
      | P2_exit t out err reason \<Rightarrow>
          if out \<noteq> s2_stdout s \<or> err \<noteq> s2_stderr s
          then Inl (Refused ''guest exec completion output counts differ'')
          else Inr (exec_accepted m (s\<lparr>s2_exec := None\<rparr>))
      | _ \<Rightarrow> Inl (Refused ''guest exec request identity is stale''))"

text \<open>
  The lifecycle branches give the next state, the accepted host wire with its candidates,
  and the session with a terminal outcome recorded.
\<close>

type_synonym v2_next = "v2_state \<times> int \<times> int list option \<times> v2_session"

definition record_terminal :: "json \<Rightarrow> int option \<Rightarrow> v2_session \<Rightarrow> v2_session" where
  "record_terminal t stop s = s\<lparr>s2_terminal := t, s2_terminal_stop := stop\<rparr>"

definition accept_snapshot :: "lifecycle \<Rightarrow> v2_session \<Rightarrow> exn + v2_next" where
  "accept_snapshot l s =
     (if \<not> (case s2_expected s of None \<Rightarrow> False | Some p \<Rightarrow> lifecycle_same l p)
      then Inl (Refused ''reconnect SNAPSHOT differs from BOUNDARY_ACK state'')
      else if lc_state l = Snap_ready \<and> s2_reconnect_from s \<notin> {Some S_ready, Some S_stop_sent}
      then Inl (Refused ''reconnect lifecycle state regressed'')
      else if lc_state l = Snap_stopping \<and> (s2_reconnect_from s \<noteq> Some S_stop_sent \<or> lc_stop l \<noteq> s2_stop s)
      then Inl (Refused ''reconnect STOP identity is invalid'')
      else if lc_state l = Snap_terminal \<and> s2_reconnect_from s = Some S_ready \<and> lc_stop l \<noteq> None
      then Inl (Refused ''natural terminal snapshot has STOP identity'')
      else if lc_state l = Snap_terminal \<and> s2_reconnect_from s = Some S_stop_sent \<and> lc_stop l \<notin> {None, s2_stop s}
      then Inl (Refused ''terminal snapshot STOP identity is invalid'')
      else if lc_state l = Snap_terminal \<and> s2_reconnect_from s = Some S_terminal \<and>
              (\<not> json_same (lc_terminal l) (s2_terminal s) \<or> lc_stop l \<noteq> s2_terminal_stop s)
      then Inl (Refused ''terminal snapshot changed'')
      else Inr (host_state_of (lc_state l), or_zero (s2_pending_wire s), None,
                if lc_state l = Snap_terminal then record_terminal (lc_terminal l) (lc_stop l) s else s))"

definition accept_lifecycle :: "v2_message \<Rightarrow> v2_session \<Rightarrow> exn + v2_next" where
  "accept_lifecycle m s =
     (if m2_kind m = V2_TERMINAL \<and> s2_exec s \<noteq> None
      then Inl (Refused ''VM terminal preceded exec completion; command outcome uncertain'')
      else if s2_state s = S_key_ack_sent \<and> m2_kind m = V2_READY \<and> m2_reply_to m = Some (s2_host_wire s)
      then Inr (S_ready, s2_host_wire s, None, s)
      else case (s2_state s, m2_payload m) of
        (S_reconnect_sent, P2_snapshot l) \<Rightarrow>
          if m2_reply_to m = s2_pending s then accept_snapshot l s
          else Inl (Refused ''guest lifecycle transition is invalid'')
      | (S_ready, P2_terminal t) \<Rightarrow>
          if m2_reply_to m = None
          then Inr (S_terminal, s2_accepted_wire s, None, record_terminal (terminal_json t) None s)
          else Inl (Refused ''guest lifecycle transition is invalid'')
      | (S_stop_sent, P2_terminal t) \<Rightarrow>
          if m2_reply_to m = None
          then Inr (S_terminal, s2_accepted_wire s, Some [s2_accepted_wire s, or_zero (s2_stop_wire s)],
                    record_terminal (terminal_json t) None s)
          else if m2_reply_to m \<noteq> s2_stop s then Inl (Refused ''guest lifecycle transition is invalid'')
          else if above_all (s2_accepted_wire s) (s2_stop_cands s)
          then Inr (S_terminal, s2_accepted_wire s, Some [s2_accepted_wire s], record_terminal (terminal_json t) (m2_reply_to m) s)
          else Inr (S_terminal, or_zero (s2_stop_wire s), Some (s2_stop_cands s),
                    record_terminal (terminal_json t) (m2_reply_to m) s)
      | _ \<Rightarrow> Inl (Refused ''guest lifecycle transition is invalid''))"

text \<open>\<open>message.payload.get("state", "ready") == "ready"\<close> for a READY or a SNAPSHOT.\<close>

definition reports_ready :: "v2_message \<Rightarrow> bool" where
  "reports_ready m =
     (m2_kind m = V2_READY \<or> (case m2_payload m of P2_snapshot l \<Rightarrow> lc_state l = Snap_ready | _ \<Rightarrow> False))"

definition accept_commit :: "v2_message \<Rightarrow> v2_next \<Rightarrow> v2_session" where
  "accept_commit m nxt =
     (case nxt of (state, wire, cands, s) \<Rightarrow>
        (let s1 = s\<lparr>s2_guest_wire := m2_wire m, s2_accepted_wire := wire, s2_accepted_cands := cands\<rparr>;
             s2 = (if m2_kind m \<in> {V2_READY, V2_SNAPSHOT}
                   then s1\<lparr>s2_accepted_nonce := s2_nonce s1, s2_accepted_opener := s2_opener s1\<rparr> else s1);
             s3 = (if reports_ready m then s2\<lparr>s2_stop_cands := []\<rparr> else s2)
         in s3\<lparr>s2_pending := None, s2_pending_wire := None, s2_reconnect_from := None, s2_expected := None,
               s2_state := state\<rparr>))"

definition v2_accept_step :: "v2_envelope \<Rightarrow> v2_session \<Rightarrow> exn + v2_session" where
  "v2_accept_step env s =
     (if m2_binding (ev_body env) \<noteq> s2_binding s then Inl (Refused ''guest lifecycle binding is invalid'')
      else if m2_kind (ev_body env) = V2_BOOTSTRAP then accept_bootstrap env s
      else
        rbind (accept_guards env s) (\<lambda>m.
        if m2_kind m = V2_EXEC_OUTPUT \<or> m2_kind m = V2_EXEC_EXIT then accept_exec m s
        else rbind (accept_lifecycle m s) (\<lambda>nxt. Inr (accept_commit m nxt))))"

text \<open>No branch of \<open>accept\<close> writes before its last check.\<close>

definition v2_accept :: "v2_envelope \<Rightarrow> v2_session \<Rightarrow> v2_session \<times> (exn + unit)" where
  "v2_accept env s = (case v2_accept_step env s of Inl e \<Rightarrow> (s, Inl e) | Inr s1 \<Rightarrow> (s1, Inr ()))"

lemmas v2_session_exec [exec] = v2_new_def v2_transcript_def ascii_bytes_def assert_receipt_safe_def
  max_connections_def fresh_nonce_def v2_hello_def sign_request_def v2_key_ack_def v2_reconnect_def v2_exec_def
  add_cand_def stop_wire_out_def v2_stop_def v2_retry_stop_def json_same_def lifecycle_same_def or_zero_def
  above_all_def boundary_of_def boundary_guards_def natural_terminal_def expect_reconnect_def expect_stop_sent_def
  expect_terminal_def boundary_expect_def boundary_checks_def host_state_of_def boundary_write_def
  boundary_stop_cands_def boundary_commit_def v2_admit_boundary_def accept_bootstrap_def accept_guards_def
  exec_identity_def exec_accepted_def accept_output_def accept_exec_def record_terminal_def accept_snapshot_def
  accept_lifecycle_def reports_ready_def accept_commit_def v2_accept_step_def v2_accept_def

end
