(* ===== verification/Control_V2_Codec.thy ===== *)
theory Control_V2_Codec imports Main Control_V2_Wire begin

text \<open>
  Protocol v2 on the wire: the constraints on a message, the dictionary form reads back,
  the frame codec and the incremental decoder as an instance of the framing contract.
\<close>

section \<open>Valid messages\<close>

definition lifecycle_ok :: "lifecycle \<Rightarrow> bool" where
  "lifecycle_ok l \<longleftrightarrow>
     l = \<lparr>lc_state = Snap_ready, lc_stop = None, lc_terminal = JNull\<rparr> \<or>
     (\<exists>i. l = \<lparr>lc_state = Snap_stopping, lc_stop = Some i, lc_terminal = JNull\<rparr> \<and> counter_ok (Some i)) \<or>
     (\<exists>v t. l = \<lparr>lc_state = Snap_terminal, lc_stop = v, lc_terminal = terminal_json t\<rparr> \<and>
        (v = None \<or> counter_ok v) \<and> valid_terminal t)"

definition boundary_ok :: "boundary \<Rightarrow> bool" where
  "boundary_ok b \<longleftrightarrow>
     is_uuid (bd_id b) \<and> parser_state_ok (bd_header_bytes b) (bd_payload_bytes b) (bd_payload_expected b) \<and>
     0 \<le> bd_last_h2g b \<and> bd_last_h2g b \<le> max_counter \<and> 0 \<le> bd_last_g2h b \<and> bd_last_g2h b \<le> max_counter \<and>
     0 \<le> bd_previous_epoch b \<and> bd_previous_epoch b \<le> max_counter \<and> lifecycle_ok (bd_lifecycle b) \<and>
     lifecycle_state_digest (JStr (ul (snap_name (lc_state (bd_lifecycle b))))) (jint (lc_stop (bd_lifecycle b)))
       (lc_terminal (bd_lifecycle b)) = Inr (bd_state_digest b)"

definition identity_ok :: "root_identity \<Rightarrow> bool" where
  "identity_ok r \<longleftrightarrow> 0 \<le> ri_device r \<and> ri_device r \<le> max_u64 \<and> 1 \<le> ri_inode r \<and> ri_inode r \<le> max_u64"

definition output_ok :: "int \<Rightarrow> ustr \<Rightarrow> bool" where
  "output_ok off data \<longleftrightarrow>
     0 \<le> off \<and> list_all is_hex_lower data \<and> even (length data) \<and> 2 \<le> length data \<and> length data \<le> 2048 \<and>
     off + int (length data div 2) \<le> max_exec_output"

definition exit_ok :: "terminal option \<Rightarrow> int \<Rightarrow> int \<Rightarrow> exit_reason \<Rightarrow> bool" where
  "exit_ok t out err reason \<longleftrightarrow>
     0 \<le> out \<and> 0 \<le> err \<and> out + err \<le> max_exec_output \<and>
     (case t of None \<Rightarrow> reason = Cancelled \<and> out = 0 \<and> err = 0 | Some t \<Rightarrow> valid_terminal t)"

definition v2_payload_ok :: "v2_kind \<Rightarrow> v2_payload \<Rightarrow> bool" where
  "v2_payload_ok k p =
     (case k of
        V2_HELLO \<Rightarrow> p = P2_empty
      | V2_KEY_ACK \<Rightarrow> p = P2_empty
      | V2_BOOTSTRAP \<Rightarrow> (\<exists>h. p = P2_bootstrap h \<and> is_hex32 h)
      | V2_RECONNECT \<Rightarrow> (\<exists>d i. p = P2_reconnect d i \<and> is_digest d \<and> is_uuid i)
      | V2_BOUNDARY_ACK \<Rightarrow> (\<exists>b. p = P2_boundary b \<and> boundary_ok b)
      | V2_READY \<Rightarrow> p = P2_empty \<or> (\<exists>r. p = P2_ready r \<and> identity_ok r)
      | V2_SNAPSHOT \<Rightarrow> (\<exists>l. p = P2_snapshot l \<and> lifecycle_ok l)
      | V2_STOP \<Rightarrow> (\<exists>v. p = P2_stop v \<and> is_15 v)
      | V2_TERMINAL \<Rightarrow> (\<exists>t. p = P2_terminal t \<and> valid_terminal t)
      | V2_EXEC \<Rightarrow> (\<exists>argv t. p = P2_exec argv t \<and> validate_exec_argv (JArr (map JStr argv)) = Inr argv \<and>
                      1 \<le> t \<and> t \<le> max_exec_timeout)
      | V2_EXEC_OUTPUT \<Rightarrow> (\<exists>s off data. p = P2_output s off data \<and> output_ok off data)
      | V2_EXEC_EXIT \<Rightarrow> (\<exists>t out err r. p = P2_exit t out err r \<and> exit_ok t out err r))"

definition v2_valid :: "v2_message \<Rightarrow> bool" where
  "v2_valid m \<longleftrightarrow>
     valid_binding (m2_binding m) \<and> is_uuid (m2_attempt m) \<and> is_hex32 (m2_nonce m) \<and>
     1 \<le> m2_epoch m \<and> m2_epoch m \<le> max_counter \<and> 1 \<le> m2_wire m \<and> m2_wire m \<le> max_counter \<and>
     v2_payload_ok (m2_kind m) (m2_payload m) \<and>
     (if m2_kind m = V2_HELLO
      then counter_ok (m2_request_id m) \<and> m2_epoch m = 1 \<and> m2_boot m = None \<and> m2_reply_to m = None
      else (\<exists>g. m2_boot m = Some g \<and> is_uuid g) \<and>
           (if m2_kind m \<in> set request_kinds then counter_ok (m2_request_id m) \<and> m2_reply_to m = None
            else m2_request_id m = None \<and>
                 (counter_ok (m2_reply_to m) \<or> m2_kind m = V2_TERMINAL \<and> m2_reply_to m = None)) \<and>
           (m2_kind m \<in> {V2_BOOTSTRAP, V2_KEY_ACK} \<longrightarrow> m2_epoch m = 1) \<and>
           (m2_kind m \<in> {V2_RECONNECT, V2_BOUNDARY_ACK} \<longrightarrow> 1 < m2_epoch m))"

section \<open>Field validators on valid values\<close>

lemma int_between_Inr: "int_between v lo hi e = Inr i \<longleftrightarrow> v = JInt i \<and> lo \<le> i \<and> i \<le> hi"
  by (auto simp: int_between_def split: json.splits)

lemma v2_hex32_Inr: "v2_hex32 v l = Inr s \<longleftrightarrow> v = JStr s \<and> is_hex32 s"
  by (auto simp: v2_hex32_def split: json.splits)

lemma v2_reply_Inr: "v2_reply v l = Inr r \<longleftrightarrow> (\<exists>i. v = JInt i \<and> r = Some i \<and> 1 \<le> i \<and> i \<le> max_counter)"
  by (auto simp: v2_reply_def v2_counter_def rbind_Inr_iff counter_Inr)

lemmas v2_field_defs = v2_exact_def v2_uuid_def v2_counter_def v2_digest_def v2_terminal_def

lemmas v2_field_Inr = field_Inr int_between_Inr v2_hex32_Inr v2_reply_Inr

lemma v2_reply_jint: "counter_ok v \<Longrightarrow> v2_reply (jint v) l = Inr v"
  by (auto simp: counter_ok_def v2_reply_Inr jint_Some)

lemma terminal_json_not_null [simp]: "terminal_json t \<noteq> JNull" "JNull \<noteq> terminal_json t"
  by (simp_all add: terminal_json_def)

lemma lifecycle_cases:
  assumes "lifecycle_ok l"
  obtains "l = \<lparr>lc_state = Snap_ready, lc_stop = None, lc_terminal = JNull\<rparr>"
  | i where "l = \<lparr>lc_state = Snap_stopping, lc_stop = Some i, lc_terminal = JNull\<rparr>" "1 \<le> i" "i \<le> max_counter"
  | v t where "l = \<lparr>lc_state = Snap_terminal, lc_stop = v, lc_terminal = terminal_json t\<rparr>"
      "v = None \<or> counter_ok v" "valid_terminal t"
  using assms by (auto simp: lifecycle_ok_def counter_ok_def)

lemma check_lifecycle_ok:
  assumes "lifecycle_ok l"
  shows "\<exists>t. check_lifecycle (JStr (ul (snap_name (lc_state l)))) (jint (lc_stop l)) (lc_terminal l)
           = Inr (lc_state l, lc_stop l, t)"
  using assms
proof (cases rule: lifecycle_cases)
  case (3 v t)
  then have "v2_terminal (terminal_json t) = Inr t" by (simp add: v2_terminal_def terminal_field_json)
  with 3 show ?thesis
    by (cases v) (auto simp: check_lifecycle_def is_text_def snap_name_def jint_None jint_Some v2_counter_def counter_def
        counter_ok_def terminal_json_def dict_of_def)
qed (auto simp: check_lifecycle_def is_text_def snap_name_def jint_None jint_Some v2_counter_def counter_def)

lemma lifecycle_exact:
  "v2_exact (lifecycle_json l) [''state'', ''stop_request_id'', ''terminal''] lab =
     Inr [(ul ''state'', JStr (ul (snap_name (lc_state l)))), (ul ''stop_request_id'', jint (lc_stop l)),
          (ul ''terminal'', lc_terminal l)]"
  by (simp add: v2_exact_def exact_object_def lifecycle_json_def same_keys_def)

lemma sha256_json_digest: "sha256_json v = Inr d \<Longrightarrow> is_digest d"
  by (cases "canonical_json_bytes v") (auto simp: sha256_json_def)

section \<open>Each payload reads back\<close>

lemma read_boundary:
  assumes "boundary_ok b" "counter_ok reply" "1 < epoch"
  shows "v2_init_boundary epoch (v2_payload_items (P2_boundary b)) (jint reply) = Inr (P2_boundary b, reply)"
proof -
  let ?l = "bd_lifecycle b"
  from assms(1) have ok: "lifecycle_ok ?l"
    and sd: "lifecycle_state_digest (JStr (ul (snap_name (lc_state ?l)))) (jint (lc_stop ?l)) (lc_terminal ?l)
           = Inr (bd_state_digest b)"
    by (auto simp: boundary_ok_def)
  obtain t where c: "check_lifecycle (JStr (ul (snap_name (lc_state ?l)))) (jint (lc_stop ?l)) (lc_terminal ?l)
      = Inr (lc_state ?l, lc_stop ?l, t)" using check_lifecycle_ok [OF ok] by blast
  with sd have d: "sha256_json (public_state_json (lc_state ?l, lc_stop ?l, t)) = Inr (bd_state_digest b)"
    by (simp add: lifecycle_state_digest_def)
  then have dg: "is_digest (bd_state_digest b)" by (rule sha256_json_digest)
  have ps: "parser_state_ok (bd_header_bytes b) (bd_payload_bytes b) (bd_payload_expected b)"
    using assms(1) by (simp add: boundary_ok_def)
  then have r: "0 \<le> bd_header_bytes b" "bd_header_bytes b \<le> 3" "bd_header_bytes b \<le> max_counter" "0 \<le> bd_payload_bytes b"
    "bd_payload_bytes b \<le> int max_payload" "0 \<le> bd_payload_expected b" "bd_payload_expected b \<le> int max_payload"
    by (auto simp: parser_state_ok_def max_counter_def max_payload_def)
  have keys: "v2_exact (JObj (v2_payload_items (P2_boundary b))) boundary_fields lab = Inr (v2_payload_items (P2_boundary b))" for lab
    by (simp add: v2_exact_def exact_object_def boundary_fields_def v2_payload_items_def same_keys_def)
  have l: "bd_lifecycle b = \<lparr>lc_state = lc_state ?l, lc_stop = lc_stop ?l, lc_terminal = lc_terminal ?l\<rparr>" by simp
  have g: "jget (v2_payload_items (P2_boundary b)) ''boundary_id'' = JStr (bd_id b)"
    "jget (v2_payload_items (P2_boundary b)) ''discarded_header_bytes'' = JInt (bd_header_bytes b)"
    "jget (v2_payload_items (P2_boundary b)) ''discarded_payload_bytes'' = JInt (bd_payload_bytes b)"
    "jget (v2_payload_items (P2_boundary b)) ''discarded_payload_expected'' = JInt (bd_payload_expected b)"
    "jget (v2_payload_items (P2_boundary b)) ''last_accepted_h2g_wire_sequence'' = JInt (bd_last_h2g b)"
    "jget (v2_payload_items (P2_boundary b)) ''last_attempted_g2h_wire_sequence'' = JInt (bd_last_g2h b)"
    "jget (v2_payload_items (P2_boundary b)) ''lifecycle_state'' = lifecycle_json ?l"
    "jget (v2_payload_items (P2_boundary b)) ''previous_epoch'' = JInt (bd_previous_epoch b)"
    "jget (v2_payload_items (P2_boundary b)) ''state_digest'' = JStr (bd_state_digest b)"
    by (simp_all add: v2_payload_items_def jget_def)
  have lg: "jget [(ul ''state'', x), (ul ''stop_request_id'', y), (ul ''terminal'', z)] ''state'' = x"
    "jget [(ul ''state'', x), (ul ''stop_request_id'', y), (ul ''terminal'', z)] ''stop_request_id'' = y"
    "jget [(ul ''state'', x), (ul ''stop_request_id'', y), (ul ''terminal'', z)] ''terminal'' = z" for x y z
    by (simp_all add: jget_def)
  have rb: "0 \<le> bd_last_h2g b" "bd_last_h2g b \<le> max_counter" "0 \<le> bd_last_g2h b" "bd_last_g2h b \<le> max_counter"
    "0 \<le> bd_previous_epoch b" "bd_previous_epoch b \<le> max_counter" "is_uuid (bd_id b)"
    using assms(1) by (auto simp: boundary_ok_def)
  have num: "int_between (JInt i) lo hi e = Inr i" if "lo \<le> i" "i \<le> hi" for i lo hi e
    using that by (simp add: int_between_def)
  have "v2_uuid (JStr (bd_id b)) lab = Inr (bd_id b)" for lab
    using rb by (simp add: v2_uuid_def canonical_uuid_def)
  moreover have "v2_digest (JStr (bd_state_digest b)) lab = Inr (bd_state_digest b)" for lab
    using dg by (simp add: v2_digest_def digest_field_def)
  ultimately show ?thesis
    using r rb assms(3)
    by (simp add: v2_init_boundary_def keys Let_def g num ps lifecycle_exact lg c d v2_reply_jint [OF assms(2)])
qed

lemma read_snapshot:
  assumes "lifecycle_ok l" "counter_ok reply"
  shows "v2_init_snapshot (v2_payload_items (P2_snapshot l)) (jint reply) = Inr (P2_snapshot l, reply)"
  using assms(1)
proof (cases rule: lifecycle_cases)
  case (3 v t)
  then show ?thesis
    by (cases v) (auto simp: v2_init_snapshot_def v2_reply_jint [OF assms(2)] v2_payload_items_def v2_exact_def exact_object_def
        same_keys_def jget_def Let_def is_text_def snap_name_def v2_terminal_def terminal_field_json jint_None jint_Some
        v2_counter_def counter_def counter_ok_def)
qed (simp_all add: v2_init_snapshot_def v2_reply_jint [OF assms(2)] v2_payload_items_def v2_exact_def exact_object_def
      same_keys_def jget_def Let_def is_text_def snap_name_def jint_None jint_Some v2_counter_def counter_def)

lemma map_JStr_items:
  assumes "validate_exec_argv (JArr (map JStr argv)) = Inr argv"
  shows "v2_init_exec (v2_payload_items (P2_exec argv t)) = (if 1 \<le> t \<and> t \<le> max_exec_timeout then Inr (P2_exec argv t, None)
           else Inl (Refused ''exec timeout is invalid''))"
  using assms by (simp add: v2_init_exec_def v2_payload_items_def v2_exact_def exact_object_def same_keys_def jget_def
      validate_exec_timeout_def)

lemma read_identity: "identity_ok r \<Longrightarrow> validate_root_identity (root_identity_json r) = Inr r"
  by (cases r) (simp add: identity_ok_def validate_root_identity_def root_identity_json_def v2_exact_def exact_object_def
      same_keys_def jget_def is_text_def)

lemma stream_find [simp]: "find (\<lambda>x. is_text (JStr (ul (stream_name s))) (stream_name x)) [Stdout, Stderr] = Some s"
  by (cases s) (simp_all add: stream_name_def is_text_def)

lemma reason_find [simp]:
  "find (\<lambda>x. is_text (JStr (ul (reason_name r))) (reason_name x)) [Completed, Timeout, Output_limit, Cancelled] = Some r"
  by (cases r) (simp_all add: reason_name_def is_text_def)

lemma read_output:
  assumes "output_ok off data" "counter_ok reply"
  shows "v2_init_output (v2_payload_items (P2_output s off data)) (jint reply) = Inr (P2_output s off data, reply)"
proof -
  have "2 \<le> length data" using assms(1) by (simp add: output_ok_def)
  then have "1 \<le> length data div 2" by linarith
  then have o: "off \<le> max_exec_output - 1" using assms(1) unfolding output_ok_def by linarith
  have "jget (v2_payload_items (P2_output s off data)) ''stream'' = JStr (ul (stream_name s))"
    "jget (v2_payload_items (P2_output s off data)) ''offset'' = JInt off"
    "jget (v2_payload_items (P2_output s off data)) ''data_hex'' = JStr data"
    by (simp_all add: v2_payload_items_def jget_def)
  moreover have "v2_exact (JObj (v2_payload_items (P2_output s off data))) [''stream'', ''offset'', ''data_hex''] lab
      = Inr (v2_payload_items (P2_output s off data))" for lab
    by (simp add: v2_exact_def exact_object_def same_keys_def v2_payload_items_def)
  moreover have "int_between (JInt off) 0 (max_exec_output - 1) e = Inr off" for e
    using o assms(1) by (simp add: int_between_def output_ok_def)
  ultimately show ?thesis
    using assms(1) by (simp add: v2_init_output_def v2_reply_jint [OF assms(2)] output_ok_def del: find.simps)
qed

lemma read_exit:
  assumes "exit_ok t out err r" "counter_ok reply"
  shows "v2_init_exit (v2_payload_items (P2_exit t out err r)) (jint reply) = Inr (P2_exit t out err r, reply)"
proof -
  let ?d = "v2_payload_items (P2_exit t out err r)"
  let ?t = "case t of None \<Rightarrow> JNull | Some t \<Rightarrow> terminal_json t"
  have "jget ?d ''reason'' = JStr (ul (reason_name r))" "jget ?d ''stdout_bytes'' = JInt out"
    "jget ?d ''stderr_bytes'' = JInt err" "jget ?d ''terminal'' = ?t"
    by (simp_all add: v2_payload_items_def jget_def)
  moreover have "v2_exact (JObj ?d) [''terminal'', ''stdout_bytes'', ''stderr_bytes'', ''reason''] lab = Inr ?d" for lab
    by (simp add: v2_exact_def exact_object_def same_keys_def v2_payload_items_def)
  moreover have "int_between (JInt i) 0 max_exec_output e = Inr i" if "0 \<le> i" "i \<le> max_exec_output" for i e
    using that by (simp add: int_between_def)
  moreover have "0 \<le> out" "0 \<le> err" "out + err \<le> max_exec_output" "out \<le> max_exec_output" "err \<le> max_exec_output"
    using assms(1) by (auto simp: exit_ok_def)
  moreover have "(if ?t \<noteq> JNull then rbind (v2_terminal ?t) (\<lambda>t. Inr (Some t)) else Inr None) = Inr t"
    using assms(1) by (cases t) (simp_all add: exit_ok_def v2_terminal_def terminal_field_json)
  ultimately show ?thesis
    using assms(1) by (cases t) (auto simp: v2_init_exit_def v2_reply_jint [OF assms(2)] exit_ok_def simp del: find.simps)
qed

lemma read_terminal:
  assumes "valid_terminal t" "reply = None \<or> counter_ok reply"
  shows "v2_init_terminal (v2_payload_items (P2_terminal t)) (jint reply) = Inr (P2_terminal t, reply)"
proof -
  have "v2_terminal (terminal_json t) = Inr t" using assms(1) by (simp add: v2_terminal_def terminal_field_json)
  then show ?thesis
    using assms(2) by (auto simp: v2_init_terminal_def v2_payload_items_def v2_exact_def exact_object_def same_keys_def
        jget_def v2_reply_jint)
qed

lemma v2_body_json:
  assumes "v2_valid m" and "m2_kind m \<noteq> V2_HELLO"
  shows "v2_body_init (m2_kind m) (m2_epoch m) (v2_payload_items (m2_payload m)) (jint (m2_reply_to m))
           = Inr (m2_payload m, m2_reply_to m)"
proof -
  note d = v2_body_init_def
  note e = v2_exact_def exact_object_def same_keys_def jget_def v2_payload_items_def
  have v: "v2_payload_ok (m2_kind m) (m2_payload m)" using assms(1) by (simp add: v2_valid_def)
  have rep: "counter_ok (m2_reply_to m)" if "m2_kind m \<notin> set request_kinds" "m2_kind m \<noteq> V2_TERMINAL"
    using assms that by (simp add: v2_valid_def)
  have req: "m2_reply_to m = None" if "m2_kind m \<in> set request_kinds" using assms that by (simp add: v2_valid_def)
  have ep1: "m2_epoch m = 1" if "m2_kind m \<in> {V2_BOOTSTRAP, V2_KEY_ACK}" using assms that unfolding v2_valid_def by auto
  have ep2: "1 < m2_epoch m" if "m2_kind m \<in> {V2_RECONNECT, V2_BOUNDARY_ACK}" using assms that unfolding v2_valid_def by auto
  show ?thesis
  proof (cases "m2_kind m")
    case V2_HELLO
    then show ?thesis using assms(2) by simp
  next
    case V2_BOOTSTRAP
    then show ?thesis using v rep ep1
      by (auto simp: d v2_init_bootstrap_def e v2_hex32_def v2_reply_jint v2_payload_ok_def request_kinds_def)
  next
    case V2_KEY_ACK
    then show ?thesis using v rep ep1
      by (auto simp: d v2_init_key_ack_def e v2_reply_jint v2_payload_ok_def request_kinds_def)
  next
    case V2_RECONNECT
    then show ?thesis using v req ep2
      by (auto simp: d v2_init_reconnect_def e v2_payload_ok_def request_kinds_def v2_digest_def digest_field_def
          v2_uuid_def canonical_uuid_def)
  next
    case V2_BOUNDARY_ACK
    then obtain b where "m2_payload m = P2_boundary b" "boundary_ok b" using v by (auto simp: v2_payload_ok_def)
    then show ?thesis using V2_BOUNDARY_ACK rep ep2 by (simp add: d read_boundary request_kinds_def)
  next
    case V2_READY
    then show ?thesis using v rep
      by (auto simp: d v2_init_ready_def e v2_reply_jint v2_payload_ok_def request_kinds_def read_identity)
  next
    case V2_SNAPSHOT
    then obtain l where "m2_payload m = P2_snapshot l" "lifecycle_ok l" using v by (auto simp: v2_payload_ok_def)
    then show ?thesis using V2_SNAPSHOT rep by (simp add: d read_snapshot request_kinds_def)
  next
    case V2_STOP
    then show ?thesis using v req
      by (auto simp: d v2_init_stop_def e v2_payload_ok_def request_kinds_def)
  next
    case V2_TERMINAL
    then obtain t where "m2_payload m = P2_terminal t" "valid_terminal t" using v by (auto simp: v2_payload_ok_def)
    moreover have "m2_reply_to m = None \<or> counter_ok (m2_reply_to m)"
      using V2_TERMINAL assms by (auto simp: v2_valid_def request_kinds_def)
    ultimately show ?thesis using V2_TERMINAL by (simp add: d read_terminal)
  next
    case V2_EXEC
    then show ?thesis using v req by (auto simp: d map_JStr_items v2_payload_ok_def request_kinds_def)
  next
    case V2_EXEC_OUTPUT
    then show ?thesis using v rep by (auto simp: d read_output v2_payload_ok_def request_kinds_def)
  next
    case V2_EXEC_EXIT
    then show ?thesis using v rep by (auto simp: d read_exit v2_payload_ok_def request_kinds_def)
  qed
qed

section \<open>The dictionary form reads back\<close>

lemma canon_lifecycle: "lifecycle_ok l \<Longrightarrow> canon (lc_terminal l) = lc_terminal l"
  by (auto simp: lifecycle_ok_def)

lemma canon_identity [simp]: "canon (root_identity_json r) = root_identity_json r"
  by (simp add: root_identity_json_def ul_def)

lemma v2_payload_canon:
  assumes "v2_payload_ok k p"
  shows "canon (JObj (v2_payload_items p)) = JObj (v2_payload_items p)"
proof (cases p)
  case (P2_boundary b)
  then have "lifecycle_ok (bd_lifecycle b)" using assms by (cases k) (auto simp: v2_payload_ok_def boundary_ok_def)
  then have "canon (lifecycle_json (bd_lifecycle b)) = lifecycle_json (bd_lifecycle b)"
    by (simp add: lifecycle_json_def canon_lifecycle ul_def)
  with P2_boundary show ?thesis by (simp add: v2_payload_items_def ul_def)
next
  case (P2_snapshot l)
  then have "lifecycle_ok l" using assms by (cases k) (auto simp: v2_payload_ok_def)
  with P2_snapshot show ?thesis by (simp add: v2_payload_items_def canon_lifecycle ul_def)
next
  case (P2_stop v)
  then have "is_15 v" using assms by (cases k) (auto simp: v2_payload_ok_def)
  with P2_stop show ?thesis by (auto simp: v2_payload_items_def is_15_def ul_def)
qed (auto simp: v2_payload_items_def ul_def comp_def map_idI split: option.splits)

lemma v2_items_distinct: "distinct (dkeys (v2_items m))"
  by (cases "m2_kind m") (simp_all add: v2_items_def request_kinds_def)

lemma v2_items_get:
  "jget (v2_items m) ''boot_attempt_id'' = JStr (m2_attempt m)"
  "jget (v2_items m) ''domain_core_digest'' = JStr (b_core_digest (m2_binding m))"
  "jget (v2_items m) ''epoch'' = JInt (m2_epoch m)"
  "jget (v2_items m) ''host_nonce'' = JStr (m2_nonce m)"
  "jget (v2_items m) ''kind'' = JStr (ul (v2_kind_name (m2_kind m)))"
  "jget (v2_items m) ''payload'' = JObj (v2_payload_items (m2_payload m))"
  "jget (v2_items m) ''run_id'' = JStr (b_run_id (m2_binding m))"
  "jget (v2_items m) ''schema'' = JStr (ul v2_schema)"
  "jget (v2_items m) ''stage1_artifact_digest'' = JStr (b_stage1_digest (m2_binding m))"
  "jget (v2_items m) ''wire_sequence'' = JInt (m2_wire m)"
  by (simp_all add: jget_def v2_items_def)

lemma v2_items_optional:
  assumes "v2_valid m"
  shows "jget (v2_items m) ''request_id'' = jint (m2_request_id m)"
    and "jget (v2_items m) ''boot_generation'' = jstr (m2_boot m)"
    and "jget (v2_items m) ''reply_to'' = jint (m2_reply_to m)"
  using assms
  by (cases "m2_kind m"; auto simp: v2_valid_def jget_def v2_items_def jint_def jstr_def request_kinds_def)+

lemma v2_items_keys: "same_keys (v2_items m) (v2_fields (m2_kind m))"
  by (cases "m2_kind m") (auto simp: same_keys_iff v2_items_def v2_fields_def v2_body_fields_def request_kinds_def)

lemma v2_kind_of_name [simp]: "v2_kind_of (JStr (ul (v2_kind_name k))) = Some k"
  by (cases k) (simp_all add: v2_kind_of_def v2_kinds_def v2_kind_name_def is_text_def)

lemma v2_message_init_json:
  assumes "v2_valid m"
  shows "v2_message_init (m2_kind m) (m2_binding m) (JStr (m2_attempt m)) (JStr (m2_nonce m)) (JInt (m2_epoch m))
      (JInt (m2_wire m)) (JObj (v2_payload_items (m2_payload m))) (jint (m2_request_id m)) (jstr (m2_boot m))
      (jint (m2_reply_to m)) = Inr m"
proof (cases "m2_kind m = V2_HELLO")
  case True
  with assms show ?thesis
    by (cases m) (auto simp: v2_valid_def v2_message_init_def v2_field_defs v2_hex32_def canonical_uuid_def counter_def
        v2_payload_ok_def v2_payload_items_def exact_object_def same_keys_def counter_ok_def jint_Some jint_None jstr_None)
next
  case False
  note b = v2_body_json [OF assms False]
  have "v2_uuid (JStr (m2_attempt m)) l1 = Inr (m2_attempt m)" "v2_hex32 (JStr (m2_nonce m)) l2 = Inr (m2_nonce m)"
    "v2_counter (JInt (m2_epoch m)) l3 = Inr (m2_epoch m)" "v2_counter (JInt (m2_wire m)) l4 = Inr (m2_wire m)" for l1 l2 l3 l4
    using assms by (simp_all add: v2_valid_def v2_field_defs v2_hex32_def canonical_uuid_def counter_def)
  moreover obtain g where g: "m2_boot m = Some g" "is_uuid g" using assms False by (auto simp: v2_valid_def)
  moreover have "v2_uuid (jstr (m2_boot m)) l = Inr g" for l
    using g by (simp add: v2_field_defs canonical_uuid_def jstr_Some)
  ultimately have pre: "v2_uuid (JStr (m2_attempt m)) l1 = Inr (m2_attempt m)" "v2_hex32 (JStr (m2_nonce m)) l2 = Inr (m2_nonce m)"
    "v2_counter (JInt (m2_epoch m)) l3 = Inr (m2_epoch m)" "v2_counter (JInt (m2_wire m)) l4 = Inr (m2_wire m)"
    "m2_boot m = Some g" "v2_uuid (jstr (Some g)) l5 = Inr g" for l1 l2 l3 l4 l5 by auto
  show ?thesis
  proof (cases "m2_kind m \<in> set request_kinds")
    case True
    then obtain i where i: "m2_request_id m = Some i" "1 \<le> i" "i \<le> max_counter" "m2_reply_to m = None"
      using assms False by (auto simp: v2_valid_def counter_ok_def)
    then have "v2_counter (JInt i) l = Inr i" for l by (simp add: v2_counter_def counter_def)
    with pre b i True False show ?thesis by (cases m) (simp add: v2_message_init_def jint_Some jint_None)
  next
    case r: False
    then have "m2_request_id m = None" using assms False by (simp add: v2_valid_def)
    with pre b r False show ?thesis by (cases m) (simp add: v2_message_init_def jint_None)
  qed
qed

lemma v2_from_to_dict:
  assumes "v2_valid m"
  shows "v2_from_dict (canon (v2_to_dict m)) = Inr m"
proof -
  note jg = jget_canon [OF v2_items_distinct [of m]]
  have ok: "v2_payload_ok (m2_kind m) (m2_payload m)" and b: "valid_binding (m2_binding m)"
    using assms by (simp_all add: v2_valid_def)
  have "canon (v2_to_dict m) = JObj (sort_key fst (map (map_prod id canon) (v2_items m)))" by (simp add: v2_to_dict_def)
  then show ?thesis
    by (simp add: v2_from_dict_def jg v2_items_get v2_items_optional [OF assms] v2_payload_canon [OF ok]
        text_in_def v2_exact_def exact_object_def v2_items_keys is_text_def make_binding_json [OF b]
        v2_message_init_json [OF assms] del: canon.simps(8))
qed

section \<open>Well-formed text\<close>

lemma wf_hex: "is_hex32 s \<Longrightarrow> wf_str s" "is_uuid s \<Longrightarrow> wf_str s" "is_digest s \<Longrightarrow> wf_str s"
  using is_hex32_ascii is_uuid_ascii is_digest_ascii is_ascii_wf by blast+

lemma wf_hex_digits: "list_all is_hex_lower s \<Longrightarrow> wf_str s"
  by (rule is_ascii_wf) (auto simp: is_ascii_def list_all_iff dest: is_hex_lower_ascii)

lemma utf8_encode_wf: "utf8_encode s \<noteq> None \<Longrightarrow> wf_str s"
proof (induction s)
  case (Cons c s)
  from Cons.prems have "utf8_char c \<noteq> None" "utf8_encode s \<noteq> None" by (auto split: option.splits)
  then show ?case using Cons.IH by (auto simp: wf_str_def utf8_char_def split: if_splits)
qed (simp add: wf_str_def)

lemma exec_argv_ok:
  assumes "validate_exec_argv (JArr (map JStr argv)) = Inr a"
  shows "a = argv \<and> argv \<noteq> [] \<and> length argv \<le> max_exec_args \<and> (\<forall>s \<in> set argv. utf8_encode s \<noteq> None \<and> 0 \<notin> set s)"
proof -
  have "text_items (map JStr argv) = (if \<forall>s \<in> set argv. 0 \<notin> set s then Some argv else None)"
    by (auto simp: text_items_def list_all_iff comp_def)
  with assms show ?thesis
    by (auto simp: validate_exec_argv_def split: if_splits option.splits)
qed

lemma wf_lifecycle: "lifecycle_ok l \<Longrightarrow> wf_json (lc_terminal l)"
  by (auto simp: lifecycle_ok_def)

lemma v2_payload_wf:
  assumes "v2_payload_ok k p"
  shows "wf_json (JObj (v2_payload_items p))"
proof (cases p)
  case (P2_boundary b)
  then have b: "boundary_ok b" using assms by (cases k) (auto simp: v2_payload_ok_def)
  then have "wf_str (bd_id b)" "wf_json (lc_terminal (bd_lifecycle b))" "is_digest (bd_state_digest b)"
    by (auto simp: boundary_ok_def wf_hex wf_lifecycle lifecycle_state_digest_def rbind_Inr_iff dest: sha256_json_digest)
  with P2_boundary show ?thesis by (simp add: v2_payload_items_def lifecycle_json_def wf_hex)
next
  case (P2_exec argv t)
  then have "\<forall>s \<in> set argv. wf_str s" using assms exec_argv_ok utf8_encode_wf
    by (cases k) (fastforce simp: v2_payload_ok_def)+
  with P2_exec show ?thesis by (simp add: v2_payload_items_def)
qed (use assms in \<open>cases k; auto simp: v2_payload_ok_def v2_payload_items_def wf_hex root_identity_json_def
  wf_lifecycle is_15_def output_ok_def wf_hex_digits split: option.splits\<close>)+

lemma v2_to_dict_wf:
  assumes "v2_valid m"
  shows "wf_json (v2_to_dict m)"
proof -
  have "wf_str (b_core_digest (m2_binding m))" "wf_str (m2_nonce m)" "wf_str (b_run_id (m2_binding m))"
    "wf_str (b_stage1_digest (m2_binding m))" "wf_str (m2_attempt m)"
    using assms by (auto simp: v2_valid_def valid_binding_def wf_hex)
  moreover have "wf_json (jstr (m2_boot m))"
    by (rule wf_jstr) (use assms in \<open>auto simp: v2_valid_def wf_hex split: if_splits\<close>)
  moreover have "wf_json (JObj (v2_payload_items (m2_payload m)))"
    by (rule v2_payload_wf [where k = "m2_kind m"]) (use assms in \<open>simp add: v2_valid_def\<close>)
  ultimately show ?thesis
    using v2_items_distinct [of m]
    by (auto simp: v2_to_dict_def v2_items_def split: if_splits)
qed

section \<open>Envelopes\<close>

definition v2_env_valid :: "v2_envelope \<Rightarrow> bool" where
  "v2_env_valid e \<longleftrightarrow>
     v2_valid (ev_body e) \<and>
     (if m2_kind (ev_body e) = V2_HELLO then ev_key_id e = None \<and> ev_tag e = None
      else (\<exists>k t. ev_key_id e = Some k \<and> ev_tag e = Some t \<and> is_digest k \<and> is_hex32 t))"

lemma v2_decode_value_json:
  assumes "v2_env_valid e"
  shows "v2_decode_value (canon (v2_envelope_json e)) = Inr e"
proof -
  have m: "v2_valid (ev_body e)" using assms by (simp add: v2_env_valid_def)
  note b = v2_from_to_dict [OF m]
  show ?thesis
  proof (cases "m2_kind (ev_body e) = V2_HELLO")
    case True
    with assms have "e = \<lparr>ev_body = ev_body e, ev_key_id = None, ev_tag = None\<rparr>" by (simp add: v2_env_valid_def)
    with True b show ?thesis
      by (simp add: v2_decode_value_def v2_envelope_json_def v2_exact_def exact_object_def same_keys_def jget_def
          v2_envelope_init_def ul_def)
  next
    case False
    then obtain k t where et: "ev_key_id e = Some k" "ev_tag e = Some t" and kt: "is_digest k" "is_hex32 t"
      using assms by (auto simp: v2_env_valid_def)
    from False kt b et show ?thesis
      by (simp add: v2_decode_value_def v2_envelope_json_def v2_exact_def exact_object_def same_keys_def jget_def
          v2_envelope_init_def v2_digest_def digest_field_def v2_hex32_def jstr_Some ul_def)
  qed
qed

lemma v2_envelope_json_wf:
  assumes "v2_env_valid e"
  shows "wf_json (v2_envelope_json e)"
proof -
  have "wf_json (v2_to_dict (ev_body e))" using assms v2_to_dict_wf by (simp add: v2_env_valid_def)
  then show ?thesis using assms by (auto simp: v2_envelope_json_def v2_env_valid_def jstr_Some wf_hex)
qed

definition v2_payload_bytes :: "v2_envelope \<Rightarrow> bytes option" where
  "v2_payload_bytes e =
     (if v2_env_valid e then
        (case canonical_json_bytes (v2_envelope_json e) of
           None \<Rightarrow> None
         | Some p \<Rightarrow> if p = [] \<or> max_payload < length p then None else Some p)
      else None)"

lemma v2_decode_canonical:
  assumes "v2_payload_bytes e = Some p"
  shows "v2_decode_payload p = Inr e"
proof -
  have e: "v2_env_valid e" and p: "canonical_json_bytes (v2_envelope_json e) = Some p" "p \<noteq> []" "length p \<le> max_payload"
    using assms by (auto simp: v2_payload_bytes_def split: if_splits option.splits)
  obtain t where "utf8_decode p = Some t" "loads t = Inr (canon (v2_envelope_json e))"
    using loads_canonical [OF p(1) v2_envelope_json_wf [OF e]] .
  with p v2_decode_value_json [OF e] show ?thesis by (simp add: v2_decode_payload_def json_bytes_def)
qed

text \<open>The decoder of protocol v2 is the other instance of the framing contract.\<close>

interpretation v2f: frame_format v2_payload_bytes v2_decode_payload "Refused ''lifecycle frame length is invalid''" True
proof unfold_locales
  fix e p assume e: "v2_payload_bytes e = Some p"
  then show "0 < length p \<and> length p \<le> max_payload"
    by (auto simp: v2_payload_bytes_def split: if_splits option.splits)
  show "v2_decode_payload p = Inr e" using v2_decode_canonical [OF e] .
qed

lemma v2_encode_frame_bytes:
  "v2_env_valid e \<Longrightarrow> v2_encode_frame e = Inr f \<Longrightarrow> \<exists>p. v2_payload_bytes e = Some p \<and> f = frame_bytes p"
  by (auto simp: v2_encode_frame_def v2_payload_bytes_def frame_bytes_def json_bytes_def split: option.splits if_splits)

end
