(* ===== verification/Control_V2_Auth.thy ===== *)
theory Control_V2_Auth imports Main Control_V2_Codec Control_V1_Props Py_Json_Total begin

text \<open>
  Authentication of protocol v2: signing succeeds on every valid message, verification accepts
  exactly the envelopes the key holder signs, and the text under the MAC determines the message
  and its carrier. Properties of the v2 wire format, with a concrete message for their witnesses.
\<close>

section \<open>Signing\<close>

lemma jstr_json_ok [simp]: "json_ok (jstr v) \<longleftrightarrow> (\<forall>s. v = Some s \<longrightarrow> utf8_ok s)"
  by (simp add: jstr_def split: option.splits)

lemma ok_hex: "is_hex32 s \<Longrightarrow> utf8_ok s" "is_uuid s \<Longrightarrow> utf8_ok s" "is_digest s \<Longrightarrow> utf8_ok s"
  using is_hex32_ascii is_uuid_ascii is_digest_ascii ascii_utf8_ok by blast+

lemma ok_hex_digits: "list_all is_hex_lower s \<Longrightarrow> utf8_ok s"
  by (rule ascii_utf8_ok) (auto simp: is_ascii_def list_all_iff dest: is_hex_lower_ascii)

lemma terminal_json_ok: "valid_terminal t \<Longrightarrow> json_ok (terminal_json t)"
  by (cases t) (auto simp: valid_terminal_def terminal_json_def split: option.splits)

lemma counter_json_ok: "counter_ok v \<Longrightarrow> json_ok (jint v)"
  by (auto simp: counter_ok_def max_counter_def)

lemma lifecycle_json_ok: "lifecycle_ok l \<Longrightarrow> json_ok (lc_terminal l) \<and> json_ok (jint (lc_stop l))"
  by (auto simp: lifecycle_ok_def terminal_json_ok counter_ok_def max_counter_def)

lemma v2_payload_json_ok:
  assumes "v2_payload_ok k p"
  shows "json_ok (JObj (v2_payload_items p))"
proof (cases p)
  case (P2_boundary b)
  then have b: "boundary_ok b" using assms by (cases k) (auto simp: v2_payload_ok_def)
  then have l: "lifecycle_ok (bd_lifecycle b)" and d: "is_digest (bd_state_digest b)"
    by (auto simp: boundary_ok_def lifecycle_state_digest_def rbind_Inr_iff dest: sha256_json_digest)
  have "json_ok (lifecycle_json (bd_lifecycle b))"
    using lifecycle_json_ok [OF l] by (simp add: lifecycle_json_def)
  moreover have "\<bar>bd_header_bytes b\<bar> \<le> 10 ^ 20" "\<bar>bd_payload_bytes b\<bar> \<le> 10 ^ 20" "\<bar>bd_payload_expected b\<bar> \<le> 10 ^ 20"
    "\<bar>bd_last_h2g b\<bar> \<le> 10 ^ 20" "\<bar>bd_last_g2h b\<bar> \<le> 10 ^ 20" "\<bar>bd_previous_epoch b\<bar> \<le> 10 ^ 20"
    using b by (auto simp: boundary_ok_def parser_state_ok_def max_payload_def max_counter_def)
  ultimately show ?thesis using P2_boundary b d by (simp add: v2_payload_items_def ok_hex boundary_ok_def)
next
  case (P2_snapshot l)
  then have "lifecycle_ok l" using assms by (cases k) (auto simp: v2_payload_ok_def)
  with P2_snapshot lifecycle_json_ok show ?thesis by (simp add: v2_payload_items_def)
next
  case (P2_exec argv t)
  then have "\<forall>s \<in> set argv. utf8_ok s" "1 \<le> t" "t \<le> max_exec_timeout"
    using assms exec_argv_ok utf8_encode_ok by (cases k; fastforce simp: v2_payload_ok_def)+
  with P2_exec show ?thesis by (simp add: v2_payload_items_def max_exec_timeout_def)
next
  case (P2_exit t out err r)
  then have "exit_ok t out err r" using assms by (cases k) (auto simp: v2_payload_ok_def)
  then have "json_ok (case t of None \<Rightarrow> JNull | Some t \<Rightarrow> terminal_json t)" "\<bar>out\<bar> \<le> 10 ^ 20" "\<bar>err\<bar> \<le> 10 ^ 20"
    by (auto simp: exit_ok_def terminal_json_ok max_exec_output_def split: option.splits)
  with P2_exit show ?thesis by (simp add: v2_payload_items_def)
next
  case (P2_output s off data)
  then have "output_ok off data" using assms by (cases k) (auto simp: v2_payload_ok_def)
  then have "utf8_ok data" "\<bar>off\<bar> \<le> 10 ^ 20"
    by (auto simp: output_ok_def ok_hex_digits max_exec_output_def)
  with P2_output show ?thesis by (simp add: v2_payload_items_def)
next
  case (P2_ready r)
  then have "identity_ok r" using assms by (cases k) (auto simp: v2_payload_ok_def)
  with P2_ready show ?thesis
    by (simp add: v2_payload_items_def root_identity_json_def identity_ok_def max_u64_def)
qed (use assms in \<open>cases k; auto simp: v2_payload_ok_def v2_payload_items_def ok_hex is_15_def terminal_json_ok\<close>)+

lemma v2_to_dict_ok:
  assumes "v2_valid m"
  shows "json_ok (v2_to_dict m)"
proof -
  have "utf8_ok (b_core_digest (m2_binding m))" "utf8_ok (m2_nonce m)" "utf8_ok (b_run_id (m2_binding m))"
    "utf8_ok (b_stage1_digest (m2_binding m))" "utf8_ok (m2_attempt m)" "\<bar>m2_epoch m\<bar> \<le> 10 ^ 20" "\<bar>m2_wire m\<bar> \<le> 10 ^ 20"
    using assms by (auto simp: v2_valid_def valid_binding_def ok_hex max_counter_def)
  moreover have "json_ok (jstr (m2_boot m))"
    using assms by (auto simp: v2_valid_def ok_hex split: if_splits)
  moreover have "json_ok (jint (m2_request_id m))" "json_ok (jint (m2_reply_to m))"
    using assms by (auto simp: v2_valid_def counter_ok_def max_counter_def split: if_splits)
  moreover have "json_ok (JObj (v2_payload_items (m2_payload m)))"
    by (rule v2_payload_json_ok [where k = "m2_kind m"]) (use assms in \<open>simp add: v2_valid_def\<close>)
  ultimately show ?thesis by (auto simp: v2_to_dict_def v2_items_def)
qed

lemma json_bytes_total: "json_ok v \<Longrightarrow> \<exists>b. json_bytes v = Inr b"
  using canonical_json_bytes_total by (fastforce simp: json_bytes_def)

text \<open>The carrier a kind is sent on.\<close>

definition carrier_of :: "v2_message \<Rightarrow> string" where
  "carrier_of m = (if m2_kind m = V2_BOUNDARY_ACK then console_carrier else channel_carrier)"

lemma carrier_valid [simp]: "validate_carrier_kind m (carrier_of m) = Inr ()"
  by (simp add: validate_carrier_kind_def carrier_of_def console_carrier_def channel_carrier_def)

lemma validate_carrier_iff: "validate_carrier_kind m c = Inr u \<longleftrightarrow> c = carrier_of m"
  by (auto simp: validate_carrier_kind_def carrier_of_def console_carrier_def channel_carrier_def split: if_splits)

lemma message_tag_total:
  assumes "v2_valid m"
  shows "\<exists>t. message_tag m key (carrier_of m) = Inr t"
proof -
  have "json_ok (hkdf_binding m)"
    using assms by (auto simp: hkdf_binding_def v2_valid_def valid_binding_def ok_hex split: if_splits)
  then obtain b where "json_bytes (hkdf_binding m) = Inr b" using json_bytes_total by blast
  moreover obtain d where "json_bytes (v2_to_dict m) = Inr d" using json_bytes_total [OF v2_to_dict_ok [OF assms]] by blast
  ultimately show ?thesis by (simp add: message_tag_def hkdf_subkey_def mac_input_def Let_def)
qed

lemma message_tag_hex32: "message_tag m key c = Inr t \<Longrightarrow> is_hex32 t"
  by (auto simp: message_tag_def rbind_Inr_iff)

lemma sign_message_Inr:
  "sign_message m key c = Inr e \<longleftrightarrow>
     m2_kind m \<noteq> V2_HELLO \<and> c = carrier_of m \<and>
     (\<exists>t k. message_tag m key c = Inr t \<and> key_identifier key = Inr k \<and> e = \<lparr>ev_body = m, ev_key_id = Some k, ev_tag = Some t\<rparr>)"
  by (auto simp: sign_message_def rbind_Inr_iff validate_carrier_iff v2_envelope_init_def v2_field_Inr v2_field_defs
      key_identifier_def dest: message_tag_hex32 split: if_splits)

lemma sign_total:
  assumes "v2_valid m" "m2_kind m \<noteq> V2_HELLO" "length key = 32"
  shows "\<exists>e. sign_message m key (carrier_of m) = Inr e \<and> ev_body e = m \<and> v2_env_valid e"
proof -
  obtain t where t: "message_tag m key (carrier_of m) = Inr t" using message_tag_total [OF assms(1)] by blast
  moreover obtain k where k: "key_identifier key = Inr k" "is_digest k" using assms(3) by (simp add: key_identifier_def)
  ultimately show ?thesis
    using assms(1,2) message_tag_hex32 [OF t] by (auto simp: sign_message_Inr v2_env_valid_def)
qed

lemma verify_iff_sign:
  "verify_message_authentication e key c = Inr () \<longleftrightarrow> sign_message (ev_body e) key c = Inr e"
proof
  assume v: "verify_message_authentication e key c = Inr ()"
  then obtain k t where kt: "key_identifier key = Inr k" "or_empty (ev_key_id e) = k"
    "message_tag (ev_body e) key c = Inr t" "or_empty (ev_tag e) = t"
    and h: "m2_kind (ev_body e) \<noteq> V2_HELLO" "c = carrier_of (ev_body e)"
    by (auto simp: verify_message_authentication_def rbind_Inr_iff validate_carrier_iff split: if_splits)
  have "k \<noteq> []" using kt(1) by (auto simp: key_identifier_def sha256_text_def digest_prefix_def split: if_splits)
  moreover have "t \<noteq> []" using message_tag_hex32 [OF kt(3)] by (auto simp: is_hex32_def)
  ultimately have "ev_key_id e = Some k" "ev_tag e = Some t"
    using kt by (auto simp: or_empty_def split: option.splits)
  with kt h show "sign_message (ev_body e) key c = Inr e" by (simp add: sign_message_Inr)
next
  assume "sign_message (ev_body e) key c = Inr e"
  then obtain k t where "key_identifier key = Inr k" "message_tag (ev_body e) key c = Inr t"
    "m2_kind (ev_body e) \<noteq> V2_HELLO" "c = carrier_of (ev_body e)"
    "e = \<lparr>ev_body = ev_body e, ev_key_id = Some k, ev_tag = Some t\<rparr>"
    unfolding sign_message_Inr by blast
  moreover from this(5) have "ev_key_id e = Some k" "ev_tag e = Some t" by (metis v2_envelope.select_convs(2,3))+
  ultimately show "verify_message_authentication e key c = Inr ()"
    by (simp add: verify_message_authentication_def or_empty_def)
qed

section \<open>The authenticated text\<close>

lemma bl_carriers:
  "bl (direction m) @ [0] @ bl (carrier_of m) @ [0] @ x = bl (direction n) @ [0] @ bl (carrier_of n) @ [0] @ y \<longleftrightarrow>
     direction m = direction n \<and> carrier_of m = carrier_of n \<and> x = y"
  by (auto simp: direction_def carrier_of_def console_carrier_def channel_carrier_def bl_def)

lemma pack_append_inj:
  assumes "pack_u32 (length a) @ a = pack_u32 (length b) @ b"
  shows "a = b"
  using assms by (simp add: append_eq_append_conv)

lemma mac_input_inj:
  assumes "mac_input m (carrier_of m) = Inr x" "mac_input n (carrier_of n) = Inr x" "v2_valid m" "v2_valid n"
  shows "m = n"
proof -
  obtain a b where a: "json_bytes (v2_to_dict m) = Inr a" and b: "json_bytes (v2_to_dict n) = Inr b"
    and e: "bl v2_schema @ [0] @ bl ''frame'' @ [0] @ bl (direction m) @ [0] @ bl (carrier_of m) @ [0] @ pack_u32 (length a) @ a =
            bl v2_schema @ [0] @ bl ''frame'' @ [0] @ bl (direction n) @ [0] @ bl (carrier_of n) @ [0] @ pack_u32 (length b) @ b"
    using assms(1,2) by (auto simp: mac_input_def rbind_Inr_iff)
  then have "pack_u32 (length a) @ a = pack_u32 (length b) @ b" by (simp only: same_append_eq bl_carriers)
  then have "a = b" by (rule pack_append_inj)
  with a b have "canonical_json_bytes (v2_to_dict m) = Some a" "canonical_json_bytes (v2_to_dict n) = Some a"
    by (auto simp: json_bytes_def split: option.splits)
  then have "canon (v2_to_dict m) = canon (v2_to_dict n)"
    using canonical_json_bytes_inj v2_to_dict_wf assms(3,4) by blast
  then show ?thesis using v2_from_to_dict [OF assms(3)] v2_from_to_dict [OF assms(4)] by (metis Inr_inject)
qed

section \<open>A concrete message\<close>

definition sample_v2_hello :: v2_message where
  "sample_v2_hello = \<lparr>m2_kind = V2_HELLO, m2_binding = sample_binding, m2_attempt = sample_uuid, m2_nonce = sample_nonce,
     m2_epoch = 1, m2_wire = 1, m2_payload = P2_empty, m2_request_id = Some 1, m2_boot = None, m2_reply_to = None\<rparr>"

definition sample_v2_env :: v2_envelope where
  "sample_v2_env = \<lparr>ev_body = sample_v2_hello, ev_key_id = None, ev_tag = None\<rparr>"

definition sample_key :: bytes where "sample_key = replicate 32 7"

definition sample_v2_terminal :: v2_message where
  "sample_v2_terminal = \<lparr>m2_kind = V2_TERMINAL, m2_binding = sample_binding, m2_attempt = sample_uuid, m2_nonce = sample_nonce,
     m2_epoch = 1, m2_wire = 3, m2_payload = P2_terminal \<lparr>t_exit = Some 0, t_signal = None\<rparr>, m2_request_id = None,
     m2_boot = Some sample_uuid, m2_reply_to = None\<rparr>"

lemma sample_v2_valid: "v2_valid sample_v2_hello" "v2_valid sample_v2_terminal"
  by (simp_all add: sample_v2_hello_def sample_v2_terminal_def v2_valid_def sample_binding_ok v2_payload_ok_def counter_ok_def
      max_counter_def sample_nonce_ok sample_uuid_ok request_kinds_def valid_terminal_def)

lemma sample_v2_env_valid: "v2_env_valid sample_v2_env"
  by (simp add: sample_v2_env_def v2_env_valid_def sample_v2_valid) (simp add: sample_v2_hello_def)

lemma sample_v2_dump:
  "\<exists>t. dump (canon (v2_envelope_json sample_v2_env)) = Some t \<and> t \<noteq> [] \<and> length t \<le> 16000"
  by (simp add: exec sample_v2_env_def sample_v2_hello_def sample_binding_def sample_uuid_def sample_digest_def
      sample_nonce_def cong: eval_cong)

lemma sample_v2_frame: "\<exists>f. v2_encode_frame sample_v2_env = Inr f"
proof -
  have "json_ok (v2_envelope_json sample_v2_env)"
    using v2_to_dict_ok [OF sample_v2_valid(1)] by (simp add: v2_envelope_json_def sample_v2_env_def)
  moreover obtain t where t: "dump (canon (v2_envelope_json sample_v2_env)) = Some t" "t \<noteq> []" "length t \<le> 16000"
    using sample_v2_dump by blast
  ultimately obtain b where "canonical_json_bytes (v2_envelope_json sample_v2_env) = Some b" "b \<noteq> []" "length b \<le> 4 * length t"
    using canonical_json_bytes_bound [of "v2_envelope_json sample_v2_env" t] by blast
  with t(3) show ?thesis by (simp add: v2_encode_frame_def json_bytes_def max_payload_def)
qed

section \<open>Properties of the wire format\<close>

text \<open>C13. Frame round trip for protocol v2: for every kind of message, signed or not, the frame the
  encoder writes decodes to the same envelope.\<close>
theorem v2_frame_roundtrip:
  assumes "v2_env_valid e" and "v2_encode_frame e = Inr f"
  shows "v2_decode_frame f = Inr e"
proof -
  obtain p where p: "v2_payload_bytes e = Some p" "f = frame_bytes p"
    using v2_encode_frame_bytes [OF assms] by blast
  then have len: "0 < length p" "length p \<le> max_payload"
    by (auto simp: v2_payload_bytes_def split: if_splits option.splits)
  have "unpack_u32 (pack_u32 (length p)) = length p"
    using len by (intro unpack_pack_u32) (simp add: max_payload_def)
  with p len v2_decode_canonical [OF p(1)] show ?thesis
    by (simp add: v2_decode_frame_def frame_bytes_def Let_def)
qed

theorem v2_frame_roundtrip_witness:
  "\<exists>f. v2_encode_frame sample_v2_env = Inr f \<and> v2_decode_frame f = Inr sample_v2_env"
  using v2_frame_roundtrip [OF sample_v2_env_valid] sample_v2_frame by blast

text \<open>A v2 message is authenticated exactly when it is what the key holder signs: the verifier
  accepts an envelope on a carrier if and only if signing its body with the key gives that envelope,
  key identifier and tag included.\<close>
theorem v2_verify_exactly_signed:
  "verify_message_authentication e key c = Inr () \<longleftrightarrow> sign_message (ev_body e) key c = Inr e"
  by (rule verify_iff_sign)

text \<open>Signing is total: every valid message but HELLO, under a 32-byte key and on the carrier of
  its kind, is signed, and the result is a valid envelope that the verifier accepts.\<close>
theorem v2_sign_verifies:
  assumes "v2_valid m" "m2_kind m \<noteq> V2_HELLO" "length key = 32"
  shows "\<exists>e. sign_message m key (carrier_of m) = Inr e \<and> ev_body e = m \<and> v2_env_valid e \<and>
           verify_message_authentication e key (carrier_of m) = Inr ()"
proof -
  obtain e where e: "sign_message m key (carrier_of m) = Inr e" "ev_body e = m" "v2_env_valid e"
    using sign_total [OF assms] by blast
  then have "verify_message_authentication e key (carrier_of m) = Inr ()" by (simp add: verify_iff_sign)
  with e show ?thesis by blast
qed

theorem v2_sign_verifies_witness:
  "\<exists>e. sign_message sample_v2_terminal sample_key channel_carrier = Inr e \<and>
       verify_message_authentication e sample_key channel_carrier = Inr ()"
proof -
  have "m2_kind sample_v2_terminal \<noteq> V2_HELLO" "length sample_key = 32" "carrier_of sample_v2_terminal = channel_carrier"
    by (simp_all add: sample_v2_terminal_def sample_key_def carrier_of_def)
  with v2_sign_verifies [OF sample_v2_valid(2)] show ?thesis by metis
qed

text \<open>The text under the MAC is unambiguous: two valid messages with the same authenticated
  text on the carriers of their kinds are the same message, so a tag cannot be moved to another
  kind, direction, carrier or field value.\<close>
theorem v2_mac_text_unambiguous:
  assumes "v2_valid m" "v2_valid n" "mac_input m (carrier_of m) = Inr x" "mac_input n (carrier_of n) = Inr x"
  shows "m = n"
  using mac_input_inj [OF assms(3,4,1,2)] .

theorem v2_mac_text_unambiguous_witness:
  "\<exists>x y. mac_input sample_v2_hello channel_carrier = Inr x \<and> mac_input sample_v2_terminal channel_carrier = Inr y \<and> x \<noteq> y"
proof -
  have k: "m2_kind sample_v2_hello \<noteq> m2_kind sample_v2_terminal" and
    c: "carrier_of sample_v2_hello = channel_carrier" "carrier_of sample_v2_terminal = channel_carrier"
    by (simp_all add: sample_v2_hello_def sample_v2_terminal_def carrier_of_def)
  obtain b d where "json_bytes (v2_to_dict sample_v2_hello) = Inr b" "json_bytes (v2_to_dict sample_v2_terminal) = Inr d"
    using json_bytes_total [OF v2_to_dict_ok [OF sample_v2_valid(1)]] json_bytes_total [OF v2_to_dict_ok [OF sample_v2_valid(2)]]
    by blast
  then obtain x y where xy: "mac_input sample_v2_hello channel_carrier = Inr x" "mac_input sample_v2_terminal channel_carrier = Inr y"
    by (simp add: mac_input_def)
  have "x \<noteq> y"
    using v2_mac_text_unambiguous [OF sample_v2_valid, of x] xy k c by auto
  with xy show ?thesis by blast
qed

text \<open>The decoder of protocol v2 accepts only canonical encodings: an accepted payload is what the
  encoder writes for the decoded envelope.\<close>
theorem v2_decode_only_canonical:
  assumes "v2_decode_payload p = Inr e"
  shows "v2_encode_frame e = Inr (frame_bytes p)"
proof -
  have "json_bytes (v2_envelope_json e) = Inr p" "p \<noteq> []" "length p \<le> max_payload"
    using assms by (auto simp: v2_decode_payload_def rbind_Inr_iff split: if_splits option.splits sum.splits jerr.splits)
  then show ?thesis by (simp add: v2_encode_frame_def frame_bytes_def)
qed

theorem v2_decode_only_canonical_witness:
  "\<exists>p. v2_decode_payload p = Inr sample_v2_env \<and> v2_encode_frame sample_v2_env = Inr (frame_bytes p)"
proof -
  obtain p where "v2_payload_bytes sample_v2_env = Some p"
    using sample_v2_frame v2_encode_frame_bytes [OF sample_v2_env_valid] by blast
  then have "v2_decode_payload p = Inr sample_v2_env" by (rule v2_decode_canonical)
  with v2_decode_only_canonical [OF this] show ?thesis by blast
qed

text \<open>A lifecycle digest does not require a dictionary: a list of pairs, even with a repeated
  and invalid first entry, is committed to as if it were the terminal status.\<close>
theorem lifecycle_digest_accepts_pairs:
  "lifecycle_state_digest (JStr (ul ''terminal'')) JNull
     (JArr [JArr [JStr (ul ''exit_code''), JStr (ul ''junk'')], JArr [JStr (ul ''exit_code''), JInt 0],
            JArr [JStr (ul ''signal''), JNull]])
   = lifecycle_state_digest (JStr (ul ''terminal'')) JNull (JObj [(ul ''exit_code'', JInt 0), (ul ''signal'', JNull)])
   \<and> lifecycle_state_digest (JStr (ul ''terminal'')) JNull (JInt 7) = Inl TypeErr"
  by (simp add: lifecycle_state_digest_def check_lifecycle_def is_text_def dict_of_def pair_of_def v2_terminal_def terminal_field_def
      exact_object_def same_keys_def jget_def jint_range_def int_of_json_def)

end
