(* ===== verification/Control_V2_Safety.thy ===== *)
theory Control_V2_Safety imports Main Control_V2_Session Control_V2_Auth Counter_Run begin

text \<open>
  Runs of the v2 host session: one step is one call of a method, whatever its outcome, with
  the envelope it sent or took from the guest as the label. The host and the guest wire
  counters are two instances of the counter contract; authenticity, the STOP identity and the
  exec accounting are invariants of the runs.
\<close>

section \<open>Runs\<close>

datatype v2_event = Sent v2_envelope | Took v2_envelope | Idle

definition sent_event :: "exn + v2_envelope \<Rightarrow> v2_event" where
  "sent_event r = (case r of Inl _ \<Rightarrow> Idle | Inr e \<Rightarrow> Sent e)"

definition took_event :: "v2_envelope \<Rightarrow> exn + unit \<Rightarrow> v2_event" where
  "took_event e r = (case r of Inl _ \<Rightarrow> Idle | Inr _ \<Rightarrow> Took e)"

inductive v2_call :: "v2_session \<Rightarrow> v2_event \<Rightarrow> v2_session \<Rightarrow> bool" where
  hello: "v2_hello produced s = (s', r) \<Longrightarrow> v2_call s (sent_event r) s'"
| key_ack: "v2_key_ack s = (s', r) \<Longrightarrow> v2_call s (sent_event r) s'"
| reconnect: "v2_reconnect produced s = (s', r) \<Longrightarrow> v2_call s (sent_event r) s'"
| exec: "v2_exec argv timeout_ms s = (s', r) \<Longrightarrow> v2_call s (sent_event r) s'"
| stop: "v2_stop s = (s', r) \<Longrightarrow> v2_call s (sent_event r) s'"
| retry_stop: "v2_retry_stop s = (s', r) \<Longrightarrow> v2_call s (sent_event r) s'"
| boundary: "v2_env_valid env \<Longrightarrow> v2_admit_boundary env line s = (s', r) \<Longrightarrow> v2_call s (took_event env r) s'"
| accept: "v2_env_valid env \<Longrightarrow> v2_accept env s = (s', r) \<Longrightarrow> v2_call s (took_event env r) s'"

inductive_cases v2_callE: "v2_call s e s'"

lemma event_simps [simp]:
  "sent_event (Inl e) = Idle" "sent_event (Inr x) = Sent x" "took_event x (Inl e) = Idle" "took_event x (Inr u) = Took x"
  by (simp_all add: sent_event_def took_event_def)

definition sent_wire :: "v2_event \<Rightarrow> int option" where
  "sent_wire ev = (case ev of Sent e \<Rightarrow> Some (m2_wire (ev_body e)) | _ \<Rightarrow> None)"

definition took_wire :: "v2_event \<Rightarrow> int option" where
  "took_wire ev = (case ev of Took e \<Rightarrow> Some (m2_wire (ev_body e)) | _ \<Rightarrow> None)"

lemma wire_simps [simp]:
  "sent_wire (Sent e) = Some (m2_wire (ev_body e))" "sent_wire (Took e) = None" "sent_wire Idle = None"
  "took_wire (Sent e) = None" "took_wire (Took e) = Some (m2_wire (ev_body e))" "took_wire Idle = None"
  by (simp_all add: sent_wire_def took_wire_def)

section \<open>What a method sends\<close>

lemma v2_message_init_fields:
  assumes "v2_message_init k b att n e w p r g rep = Inr m"
  shows "m2_kind m = k \<and> m2_binding m = b \<and> w = JInt (m2_wire m) \<and> e = JInt (m2_epoch m) \<and> n = JStr (m2_nonce m) \<and>
    att = JStr (m2_attempt m) \<and> (k \<in> set request_kinds \<longrightarrow> r = jint (m2_request_id m))"
  using assms
  by (cases p; auto simp: v2_message_init_def rbind_Inr_iff v2_field_defs v2_field_Inr jint_Some jint_None split: if_splits)

lemma sign_request_Inr:
  assumes "sign_request k p r rep ep w key s = Inr e"
  shows "m2_kind (ev_body e) = k \<and> m2_wire (ev_body e) = w \<and> sign_message (ev_body e) key channel_carrier = Inr e \<and>
    (k \<in> set request_kinds \<longrightarrow> r = jint (m2_request_id (ev_body e)))"
proof -
  obtain m where m: "v2_message_init k (s2_binding s) (JStr (s2_attempt s)) (JStr (or_empty (s2_nonce s))) (JInt ep) (JInt w)
      p r (jstr (s2_boot s)) rep = Inr m" and e: "sign_message m key channel_carrier = Inr e"
    using assms by (auto simp: sign_request_def rbind_Inr_iff)
  from e have "ev_body e = m" by (auto simp: sign_message_Inr)
  then show ?thesis using v2_message_init_fields [OF m] e by auto
qed

lemma jint_inj [simp]: "jint x = jint y \<longleftrightarrow> x = y"
  by (cases x; cases y) (simp_all add: jint_def)

lemma fresh_nonce_frame:
  "fresh_nonce p s = Inr (n, s1) \<Longrightarrow> s1 = s\<lparr>s2_used_nonces := n # s2_used_nonces s\<rparr> \<and> n \<notin> set (s2_used_nonces s)
     \<and> length (s2_used_nonces s) < max_connections"
  by (auto simp: fresh_nonce_def split: if_splits json.splits)

text \<open>The fields that the requests of the host leave alone, and the host wire they use.\<close>

definition host_frame :: "v2_session \<Rightarrow> v2_session \<Rightarrow> bool" where
  "host_frame s t \<longleftrightarrow>
     s2_binding t = s2_binding s \<and> s2_attempt t = s2_attempt s \<and> s2_key t = s2_key s \<and> s2_boot t = s2_boot s \<and>
     s2_guest_wire t = s2_guest_wire s \<and> s2_terminal t = s2_terminal s \<and> s2_terminal_stop t = s2_terminal_stop s \<and>
     s2_epoch t = s2_epoch s \<and> s2_accepted_wire t = s2_accepted_wire s \<and> s2_used_boundaries t = s2_used_boundaries s \<and>
     s2_host_wire s \<le> s2_host_wire t"

lemma host_frame_refl [simp]: "host_frame s s"
  by (simp add: host_frame_def)

definition sends :: "v2_session \<Rightarrow> v2_session \<Rightarrow> exn + v2_envelope \<Rightarrow> bool" where
  "sends s t r \<longleftrightarrow>
     (\<forall>e. r = Inr e \<longrightarrow> s2_host_wire s < m2_wire (ev_body e) \<and> m2_wire (ev_body e) \<le> s2_host_wire t \<and>
        (m2_kind (ev_body e) = V2_STOP \<longrightarrow> m2_request_id (ev_body e) = s2_stop t))"

lemma sends_Inl [simp]: "sends s t (Inl e)"
  by (simp add: sends_def)

lemma sends_request:
  assumes "s2_host_wire s < w" "w \<le> s2_host_wire t" "k = V2_STOP \<Longrightarrow> r = jint (s2_stop t)"
  shows "sends s t (sign_request k p r rep ep w key u)"
  using assms by (auto simp: sends_def request_kinds_def dest: sign_request_Inr)

lemma v2_hello_frame: "v2_hello p s = (s', r) \<Longrightarrow> host_frame s s' \<and> sends s s' r"
proof (cases "fresh_nonce p s")
  case (Inr ns)
  obtain n s1 where ns: "ns = (n, s1)" by fastforce
  assume "v2_hello p s = (s', r)"
  with Inr ns show ?thesis
    using fresh_nonce_frame [of p s n s1]
    by (auto simp: v2_hello_def Let_def host_frame_def sends_def rbind_Inr_iff v2_envelope_init_def
        dest!: v2_message_init_fields split: if_splits)
qed (auto simp: v2_hello_def split: if_splits)

lemma v2_key_ack_frame: "v2_key_ack s = (s', r) \<Longrightarrow> host_frame s s' \<and> sends s s' r"
  by (auto simp: v2_key_ack_def Let_def host_frame_def sends_def request_kinds_def dest: sign_request_Inr
      split: option.splits if_splits sum.splits)

lemma v2_reconnect_frame: "v2_reconnect p s = (s', r) \<Longrightarrow> host_frame s s' \<and> sends s s' r"
  by (auto simp: v2_reconnect_def Let_def host_frame_def dest!: fresh_nonce_frame intro!: sends_request
      split: option.splits if_splits sum.splits)

lemma v2_exec_frame: "v2_exec a t s = (s', r) \<Longrightarrow> host_frame s s' \<and> sends s s' r"
  by (auto simp: v2_exec_def Let_def host_frame_def sends_def dest!: sign_request_Inr
      split: option.splits if_splits sum.splits)

lemma v2_stop_frame: "v2_stop s = (s', r) \<Longrightarrow> host_frame s s' \<and> sends s s' r"
  by (auto simp: v2_stop_def stop_wire_out_def Let_def host_frame_def sends_def request_kinds_def dest!: sign_request_Inr
      split: option.splits if_splits sum.splits)

lemma v2_retry_stop_frame: "v2_retry_stop s = (s', r) \<Longrightarrow> host_frame s s' \<and> sends s s' r"
  by (auto simp: v2_retry_stop_def stop_wire_out_def Let_def host_frame_def jint_Some intro!: sends_request
      split: option.splits if_splits)

section \<open>What a method takes\<close>

definition takes :: "v2_session \<Rightarrow> v2_session \<Rightarrow> v2_envelope \<Rightarrow> exn + unit \<Rightarrow> bool" where
  "takes s t env r \<longleftrightarrow>
     (r = Inr () \<longrightarrow> s2_guest_wire s < m2_wire (ev_body env) \<and> m2_wire (ev_body env) \<le> s2_guest_wire t \<and>
        (\<exists>key. s2_key t = Some key \<and> sign_message (ev_body env) key (carrier_of (ev_body env)) = Inr env))"

definition guest_frame :: "v2_session \<Rightarrow> v2_session \<Rightarrow> bool" where
  "guest_frame s t \<longleftrightarrow>
     s2_binding t = s2_binding s \<and> s2_attempt t = s2_attempt s \<and> s2_host_wire t = s2_host_wire s \<and>
     s2_stop t = s2_stop s \<and> s2_request t = s2_request s \<and> s2_used_nonces t = s2_used_nonces s \<and>
     s2_guest_wire s \<le> s2_guest_wire t"

lemma guest_frame_refl [simp]: "guest_frame s s"
  by (simp add: guest_frame_def)

lemma verify_signed:
  "verify_message_authentication env key c = Inr u \<Longrightarrow> sign_message (ev_body env) key (carrier_of (ev_body env)) = Inr env"
  using verify_iff_sign [of env key c] by (auto simp: sign_message_Inr)

lemma boundary_guards_Inr:
  assumes "boundary_guards env s = Inr (m, b)"
  shows "s2_exec s = None \<and> m = ev_body env \<and> m2_kind m = V2_BOUNDARY_ACK \<and> m2_binding m = s2_binding s \<and>
    m2_attempt m = s2_attempt s \<and> m2_boot m = s2_boot s \<and> m2_epoch m = s2_epoch s + 1 \<and> s2_guest_wire s < m2_wire m \<and>
    m2_payload m = P2_boundary b \<and> bd_previous_epoch b = s2_epoch s \<and>
    s2_state s \<in> {S_key_ack_sent, S_ready, S_stop_sent, S_terminal, S_reconnect_sent} \<and>
    (\<exists>key. s2_key s = Some key \<and> sign_message m key (carrier_of m) = Inr env)"
proof -
  from assms obtain key boot where kb: "s2_key s = Some key" "s2_boot s = Some boot" "s2_exec s = None"
    by (auto simp: boundary_guards_def split: if_splits option.splits)
  with assms obtain u where v: "verify_message_authentication env key console_carrier = Inr u"
    by (auto simp: boundary_guards_def rbind_Inr_iff)
  have p: "m2_payload m = P2_boundary b" if "boundary_of m = Some b" for m
    using that by (auto simp: boundary_of_def split: v2_payload.splits)
  from assms kb v verify_signed [OF v] show ?thesis
    by (auto simp: boundary_guards_def Let_def dest!: p split: if_splits option.splits)
qed

lemma boundary_commit_frame:
  "s2_guest_wire (boundary_commit m b d a s) = s2_guest_wire s" "s2_key (boundary_commit m b d a s) = s2_key s"
  "s2_boot (boundary_commit m b d a s) = s2_boot s" "s2_binding (boundary_commit m b d a s) = s2_binding s"
  "s2_attempt (boundary_commit m b d a s) = s2_attempt s" "s2_host_wire (boundary_commit m b d a s) = s2_host_wire s"
  "s2_stop (boundary_commit m b d a s) = s2_stop s" "s2_request (boundary_commit m b d a s) = s2_request s"
  "s2_used_nonces (boundary_commit m b d a s) = s2_used_nonces s" "s2_epoch (boundary_commit m b d a s) = s2_epoch s"
  "s2_exec (boundary_commit m b d a s) = s2_exec s" "s2_stdout (boundary_commit m b d a s) = s2_stdout s"
  "s2_stderr (boundary_commit m b d a s) = s2_stderr s"
  by (auto simp: boundary_commit_def Let_def)

lemma boundary_write_frame:
  "s2_guest_wire (boundary_write m b s) = m2_wire m" "s2_key (boundary_write m b s) = s2_key s"
  "s2_boot (boundary_write m b s) = s2_boot s" "s2_binding (boundary_write m b s) = s2_binding s"
  "s2_attempt (boundary_write m b s) = s2_attempt s" "s2_host_wire (boundary_write m b s) = s2_host_wire s"
  "s2_stop (boundary_write m b s) = s2_stop s" "s2_request (boundary_write m b s) = s2_request s"
  "s2_used_nonces (boundary_write m b s) = s2_used_nonces s" "s2_state (boundary_write m b s) = s2_state s"
  "s2_exec (boundary_write m b s) = s2_exec s" "s2_stdout (boundary_write m b s) = s2_stdout s"
  "s2_stderr (boundary_write m b s) = s2_stderr s" "s2_stop_cands (boundary_write m b s) = s2_stop_cands s"
  by (simp_all add: boundary_write_def)

lemmas boundary_frame = boundary_commit_frame boundary_write_frame

text \<open>The three ways a call of \<open>admit_boundary\<close> ends.\<close>

lemma admit_boundary_cases:
  assumes "v2_admit_boundary env line s = (s', r)"
  obtains e where "s' = s" "r = Inl e"
  | b e where "boundary_guards env s = Inr (ev_body env, b)" "s' = boundary_write (ev_body env) b s" "r = Inl e"
      "boundary_stop_cands b s' = Inl e"
  | b d a cands where "boundary_guards env s = Inr (ev_body env, b)" "r = Inr ()"
      "boundary_checks env line (ev_body env) b s = Inr (d, a)"
      "boundary_stop_cands b (boundary_write (ev_body env) b s) = Inr cands"
      "s' = boundary_commit (ev_body env) b d a ((boundary_write (ev_body env) b s)\<lparr>s2_stop_cands := cands\<rparr>)"
proof (cases "boundary_guards env s")
  case (Inl e)
  then have "s' = s" "r = Inl e" using assms by (simp_all add: v2_admit_boundary_def)
  then show ?thesis by (rule that(1))
next
  case (Inr mb)
  then obtain b where g: "boundary_guards env s = Inr (ev_body env, b)"
    using boundary_guards_Inr [of env s "fst mb" "snd mb"] by (cases mb) auto
  show ?thesis
  proof (cases "boundary_checks env line (ev_body env) b s")
    case (Inl e)
    then have "s' = s" "r = Inl e" using assms g by (simp_all add: v2_admit_boundary_def)
    then show ?thesis by (rule that(1))
  next
    case c: (Inr da)
    obtain d a where da: "da = (d, a)" by fastforce
    show ?thesis
    proof (cases "boundary_stop_cands b (boundary_write (ev_body env) b s)")
      case (Inl e)
      with assms g c da that(2) [of b e] show ?thesis by (simp add: v2_admit_boundary_def)
    next
      case (Inr cands)
      with assms g c da that(3) [of b d a cands] show ?thesis by (simp add: v2_admit_boundary_def)
    qed
  qed
qed

lemma v2_boundary_frame:
  assumes "v2_admit_boundary env line s = (s', r)"
  shows "guest_frame s s' \<and> takes s s' env r \<and> s2_key s' = s2_key s \<and> s2_boot s' = s2_boot s"
  using assms
proof (cases rule: admit_boundary_cases)
  case (1 e)
  then show ?thesis by (simp add: takes_def)
next
  case (2 b e)
  with boundary_guards_Inr [OF 2(1)] show ?thesis by (simp add: guest_frame_def takes_def boundary_frame)
next
  case (3 b d a cands)
  with boundary_guards_Inr [OF 3(1)] show ?thesis by (simp add: guest_frame_def takes_def boundary_frame)
qed

lemma accept_guards_Inr:
  assumes "accept_guards env s = Inr m"
  shows "m = ev_body env \<and> m2_attempt m = s2_attempt s \<and> m2_boot m = s2_boot s \<and> Some (m2_nonce m) = s2_nonce s \<and>
    m2_epoch m = s2_epoch s \<and> s2_guest_wire s < m2_wire m \<and>
    (\<exists>key. s2_key s = Some key \<and> sign_message m key (carrier_of m) = Inr env)"
proof -
  from assms obtain key boot where kb: "s2_key s = Some key" "s2_boot s = Some boot"
    by (auto simp: accept_guards_def split: option.splits)
  with assms obtain u where v: "verify_message_authentication env key channel_carrier = Inr u"
    by (auto simp: accept_guards_def rbind_Inr_iff)
  from assms kb v verify_signed [OF v] show ?thesis
    by (auto simp: accept_guards_def Let_def split: if_splits)
qed

lemma accept_bootstrap_Inr:
  assumes "accept_bootstrap env s = Inr t"
  shows "s2_state s = S_hello_sent \<and> s2_state t = S_bootstrap \<and> m2_wire (ev_body env) = 1 \<and> s2_guest_wire t = 1 \<and>
    s2_boot t = m2_boot (ev_body env) \<and>
    (\<exists>key. s2_key t = Some key \<and> sign_message (ev_body env) key (carrier_of (ev_body env)) = Inr env)"
proof -
  let ?key = "bytes_of_hex (case m2_payload (ev_body env) of P2_bootstrap k \<Rightarrow> k | _ \<Rightarrow> [])"
  from assms obtain u where v: "verify_message_authentication env ?key channel_carrier = Inr u"
    by (auto simp: accept_bootstrap_def Let_def rbind_Inr_iff split: if_splits)
  from assms v verify_signed [OF v] show ?thesis
    by (auto simp: accept_bootstrap_def Let_def rbind_Inr_iff split: if_splits)
qed

definition exec_frame :: "v2_session \<Rightarrow> v2_session \<Rightarrow> bool" where
  "exec_frame s t \<longleftrightarrow>
     t = s\<lparr>s2_guest_wire := s2_guest_wire t, s2_accepted_wire := s2_accepted_wire t, s2_exec := s2_exec t,
           s2_stdout := s2_stdout t, s2_stderr := s2_stderr t\<rparr>"

lemma accept_exec_Inr:
  assumes "accept_exec m s = Inr t"
  shows "exec_frame s t \<and> s2_guest_wire t = m2_wire m \<and> s2_state s \<in> {S_ready, S_stop_sent} \<and> s2_exec s \<noteq> None \<and>
    m2_reply_to m = s2_exec s \<and>
    ((\<exists>off data. m2_payload m = P2_output Stdout off data \<and> off = s2_stdout s \<and>
        s2_stdout s + s2_stderr s + int (length data div 2) \<le> max_exec_output \<and>
        s2_stdout t = s2_stdout s + int (length data div 2) \<and> s2_stderr t = s2_stderr s \<and> s2_exec t = s2_exec s) \<or>
     (\<exists>off data. m2_payload m = P2_output Stderr off data \<and> off = s2_stderr s \<and>
        s2_stdout s + s2_stderr s + int (length data div 2) \<le> max_exec_output \<and>
        s2_stderr t = s2_stderr s + int (length data div 2) \<and> s2_stdout t = s2_stdout s \<and> s2_exec t = s2_exec s) \<or>
     (\<exists>x out err reason. m2_payload m = P2_exit x out err reason \<and> out = s2_stdout s \<and> err = s2_stderr s \<and>
        s2_stdout t = s2_stdout s \<and> s2_stderr t = s2_stderr s \<and> s2_exec t = None))"
proof (cases "m2_payload m")
  case (P2_output st off data)
  with assms show ?thesis
    by (cases st) (auto simp: accept_exec_def accept_output_def exec_identity_def exec_accepted_def exec_frame_def Let_def
        split: if_splits)
next
  case (P2_exit x out err reason)
  with assms show ?thesis
    by (auto simp: accept_exec_def exec_identity_def exec_accepted_def exec_frame_def split: if_splits)
qed (use assms in \<open>auto simp: accept_exec_def split: if_splits\<close>)

text \<open>The lifecycle transitions that a guest message can cause.\<close>

lemma accept_lifecycle_cases:
  assumes "accept_lifecycle m s = Inr (st, w, cs, t)"
  obtains (ready) "s2_state s = S_key_ack_sent" "m2_kind m = V2_READY" "st = S_ready" "t = s"
  | (snapshot) l p where "s2_state s = S_reconnect_sent" "m2_payload m = P2_snapshot l" "s2_expected s = Some p"
      "lifecycle_same l p" "st = host_state_of (lc_state l)" "lc_state l = Snap_ready \<Longrightarrow> s2_reconnect_from s \<in> {Some S_ready, Some S_stop_sent}"
      "lc_state l = Snap_stopping \<Longrightarrow> s2_reconnect_from s = Some S_stop_sent"
      "lc_state l = Snap_terminal \<Longrightarrow> s2_reconnect_from s = Some S_terminal \<Longrightarrow>
         json_same (lc_terminal l) (s2_terminal s) \<and> lc_stop l = s2_terminal_stop s"
      "t = (if lc_state l = Snap_terminal then record_terminal (lc_terminal l) (lc_stop l) s else s)"
      "s2_exec s = s2_exec t"
  | (terminal) x stop where "s2_state s \<in> {S_ready, S_stop_sent}" "m2_payload m = P2_terminal x" "st = S_terminal"
      "t = record_terminal (terminal_json x) stop s" "stop \<in> {None, s2_stop s}"
      "m2_kind m = V2_TERMINAL \<Longrightarrow> s2_exec s = None"
proof -
  note d = assms [unfolded accept_lifecycle_def]
  consider "s2_state s = S_key_ack_sent \<and> m2_kind m = V2_READY"
    | l where "s2_state s = S_reconnect_sent" "m2_payload m = P2_snapshot l"
    | x where "s2_state s \<in> {S_ready, S_stop_sent}" "m2_payload m = P2_terminal x"
    using d by (auto split: if_splits v2_state.splits v2_payload.splits)
  then show ?thesis
  proof cases
    case 1
    then show ?thesis using d ready by (auto split: if_splits v2_payload.splits)
  next
    case (2 l)
    then have "accept_snapshot l s = Inr (st, w, cs, t)" using d by (auto split: if_splits)
    then show ?thesis using 2 snapshot [of l]
      by (auto simp: accept_snapshot_def record_terminal_def split: if_splits option.splits)
  next
    case (3 x)
    then show ?thesis using d terminal [of x None] terminal [of x "s2_stop s"] by (auto split: if_splits)
  qed
qed

lemma accept_commit_frame:
  "s2_guest_wire (accept_commit m (st, w, cs, t)) = m2_wire m" "s2_key (accept_commit m (st, w, cs, t)) = s2_key t"
  "s2_boot (accept_commit m (st, w, cs, t)) = s2_boot t" "s2_binding (accept_commit m (st, w, cs, t)) = s2_binding t"
  "s2_attempt (accept_commit m (st, w, cs, t)) = s2_attempt t" "s2_host_wire (accept_commit m (st, w, cs, t)) = s2_host_wire t"
  "s2_stop (accept_commit m (st, w, cs, t)) = s2_stop t" "s2_request (accept_commit m (st, w, cs, t)) = s2_request t"
  "s2_used_nonces (accept_commit m (st, w, cs, t)) = s2_used_nonces t" "s2_state (accept_commit m (st, w, cs, t)) = st"
  "s2_exec (accept_commit m (st, w, cs, t)) = s2_exec t" "s2_stdout (accept_commit m (st, w, cs, t)) = s2_stdout t"
  "s2_stderr (accept_commit m (st, w, cs, t)) = s2_stderr t" "s2_terminal (accept_commit m (st, w, cs, t)) = s2_terminal t"
  "s2_terminal_stop (accept_commit m (st, w, cs, t)) = s2_terminal_stop t"
  "s2_boundary (accept_commit m (st, w, cs, t)) = s2_boundary t"
  "s2_boundary_state (accept_commit m (st, w, cs, t)) = s2_boundary_state t"
  "s2_expected (accept_commit m (st, w, cs, t)) = None" "s2_reconnect_from (accept_commit m (st, w, cs, t)) = None"
  by (simp_all add: accept_commit_def Let_def)

lemma record_terminal_frame:
  "s2_key (record_terminal x y t) = s2_key t" "s2_boot (record_terminal x y t) = s2_boot t"
  "s2_binding (record_terminal x y t) = s2_binding t" "s2_attempt (record_terminal x y t) = s2_attempt t"
  "s2_host_wire (record_terminal x y t) = s2_host_wire t" "s2_stop (record_terminal x y t) = s2_stop t"
  "s2_request (record_terminal x y t) = s2_request t" "s2_used_nonces (record_terminal x y t) = s2_used_nonces t"
  "s2_exec (record_terminal x y t) = s2_exec t" "s2_stdout (record_terminal x y t) = s2_stdout t"
  "s2_stderr (record_terminal x y t) = s2_stderr t" "s2_terminal (record_terminal x y t) = x"
  "s2_terminal_stop (record_terminal x y t) = y" "s2_boundary (record_terminal x y t) = s2_boundary t"
  "s2_boundary_state (record_terminal x y t) = s2_boundary_state t"
  by (simp_all add: record_terminal_def)

text \<open>The ways \<open>accept\<close> ends.\<close>

lemma accept_cases:
  assumes "v2_accept env s = (s', r)"
  obtains (refused) e where "s' = s" "r = Inl e"
  | (bootstrap) "r = Inr ()" "accept_bootstrap env s = Inr s'" "m2_binding (ev_body env) = s2_binding s"
      "m2_kind (ev_body env) = V2_BOOTSTRAP"
  | (exec) "r = Inr ()" "accept_guards env s = Inr (ev_body env)" "accept_exec (ev_body env) s = Inr s'"
      "m2_binding (ev_body env) = s2_binding s" "m2_kind (ev_body env) \<in> {V2_EXEC_OUTPUT, V2_EXEC_EXIT}"
  | (lifecycle) st w cs t where "r = Inr ()" "accept_guards env s = Inr (ev_body env)"
      "accept_lifecycle (ev_body env) s = Inr (st, w, cs, t)" "s' = accept_commit (ev_body env) (st, w, cs, t)"
      "m2_binding (ev_body env) = s2_binding s"
proof (cases "v2_accept_step env s")
  case (Inl e)
  then have "s' = s" "r = Inl e" using assms by (simp_all add: v2_accept_def)
  then show ?thesis by (rule refused)
next
  case (Inr t)
  then have r: "s' = t" "r = Inr ()" using assms by (simp_all add: v2_accept_def)
  have b: "m2_binding (ev_body env) = s2_binding s" using Inr by (auto simp: v2_accept_step_def split: if_splits)
  have g: "accept_guards env s = Inr m \<Longrightarrow> m = ev_body env" for m using accept_guards_Inr by blast
  show ?thesis
  proof (cases "m2_kind (ev_body env) = V2_BOOTSTRAP")
    case True
    then show ?thesis using Inr r b bootstrap by (simp add: v2_accept_step_def)
  next
    case False
    then obtain m where m: "accept_guards env s = Inr m" using Inr b by (auto simp: v2_accept_step_def rbind_Inr_iff)
    then have mb: "m = ev_body env" by (rule g)
    show ?thesis
    proof (cases "m2_kind m = V2_EXEC_OUTPUT \<or> m2_kind m = V2_EXEC_EXIT")
      case True
      then show ?thesis using Inr r b m mb False exec by (auto simp: v2_accept_step_def)
    next
      case x: False
      then obtain nxt where n: "accept_lifecycle m s = Inr nxt" "t = accept_commit m nxt"
        using Inr b m mb False by (auto simp: v2_accept_step_def rbind_Inr_iff)
      obtain st w cs u where "nxt = (st, w, cs, u)" by (metis prod_cases4)
      with n r b m mb lifecycle show ?thesis by auto
    qed
  qed
qed

end
