(* ===== verification/Control_V2_Runs.thy ===== *)
theory Control_V2_Runs imports Main Control_V2_Safety begin

text \<open>
  The v2 host session over whole runs: the wire counters as instances of the counter contract,
  one key and one STOP identity per session, the exec output accounting as a refinement of a
  byte-stream specification, and the finality of a terminal outcome.
\<close>

section \<open>The session invariant\<close>

definition v2_inv :: "v2_session \<Rightarrow> bool" where
  "v2_inv s \<longleftrightarrow>
     (s2_key s = None) = (s2_state s \<in> {S_new, S_hello_sent}) \<and> (s2_key s = None \<longrightarrow> s2_guest_wire s = 0) \<and>
     0 \<le> s2_stdout s \<and> 0 \<le> s2_stderr s \<and> s2_stdout s + s2_stderr s \<le> max_exec_output"

lemma v2_new_inv: "v2_new b p = Inr s \<Longrightarrow> v2_inv s"
  by (auto simp: v2_new_def rbind_Inr_iff v2_inv_def max_exec_output_def)

lemma host_inv:
  "v2_hello p s = (s', r) \<Longrightarrow> v2_inv s \<Longrightarrow> v2_inv s'"
  "v2_key_ack s = (s', r) \<Longrightarrow> v2_inv s \<Longrightarrow> v2_inv s'"
  "v2_reconnect p s = (s', r) \<Longrightarrow> v2_inv s \<Longrightarrow> v2_inv s'"
  "v2_exec a t s = (s', r) \<Longrightarrow> v2_inv s \<Longrightarrow> v2_inv s'"
  "v2_stop s = (s', r) \<Longrightarrow> v2_inv s \<Longrightarrow> v2_inv s'"
  "v2_retry_stop s = (s', r) \<Longrightarrow> v2_inv s \<Longrightarrow> v2_inv s'"
  subgoal by (auto simp: v2_hello_def Let_def v2_inv_def dest!: fresh_nonce_frame split: if_splits sum.splits)
  subgoal by (auto simp: v2_key_ack_def Let_def v2_inv_def split: if_splits sum.splits option.splits)
  subgoal by (auto simp: v2_reconnect_def Let_def v2_inv_def dest!: fresh_nonce_frame split: if_splits sum.splits option.splits)
  subgoal by (auto simp: v2_exec_def Let_def v2_inv_def max_exec_output_def split: if_splits sum.splits option.splits)
  subgoal by (auto simp: v2_stop_def stop_wire_out_def Let_def v2_inv_def split: if_splits sum.splits option.splits)
  subgoal by (auto simp: v2_retry_stop_def stop_wire_out_def Let_def v2_inv_def split: if_splits sum.splits option.splits)
  done

lemma boundary_commit_state:
  "s2_state (boundary_commit m b d a s) =
     (if s2_state s = S_key_ack_sent then (if lc_state (bd_lifecycle b) = Snap_ready then S_ready else S_terminal)
      else if s2_state s = S_reconnect_sent then host_state_of (lc_state (bd_lifecycle b)) else s2_state s)"
  by (simp add: boundary_commit_def Let_def)

lemma host_state_of_live: "host_state_of st \<notin> {S_new, S_hello_sent}"
  by (cases st) (simp_all add: host_state_of_def)

lemma boundary_inv:
  assumes "v2_admit_boundary env line s = (s', r)" "v2_inv s"
  shows "v2_inv s'"
  using assms(1)
proof (cases rule: admit_boundary_cases)
  case (1 e)
  then show ?thesis using assms(2) by simp
next
  case (2 b e)
  with boundary_guards_Inr [OF 2(1)] assms(2) show ?thesis by (auto simp: v2_inv_def boundary_frame)
next
  case (3 b d a cands)
  with boundary_guards_Inr [OF 3(1)] assms(2) host_state_of_live show ?thesis
    by (auto simp: v2_inv_def boundary_frame boundary_commit_state)
qed

lemma exec_frame_fields:
  assumes "exec_frame s t"
  shows "s2_key t = s2_key s" "s2_state t = s2_state s" "s2_binding t = s2_binding s" "s2_attempt t = s2_attempt s"
    "s2_host_wire t = s2_host_wire s" "s2_stop t = s2_stop s" "s2_request t = s2_request s"
    "s2_used_nonces t = s2_used_nonces s" "s2_boot t = s2_boot s" "s2_terminal t = s2_terminal s"
    "s2_terminal_stop t = s2_terminal_stop s" "s2_boundary t = s2_boundary s" "s2_boundary_state t = s2_boundary_state s"
    "s2_expected t = s2_expected s" "s2_reconnect_from t = s2_reconnect_from s"
proof -
  obtain a b c d e where "t = s\<lparr>s2_guest_wire := a, s2_accepted_wire := b, s2_exec := c, s2_stdout := d, s2_stderr := e\<rparr>"
    using assms unfolding exec_frame_def by blast
  then show "s2_key t = s2_key s" "s2_state t = s2_state s" "s2_binding t = s2_binding s" "s2_attempt t = s2_attempt s"
    "s2_host_wire t = s2_host_wire s" "s2_stop t = s2_stop s" "s2_request t = s2_request s"
    "s2_used_nonces t = s2_used_nonces s" "s2_boot t = s2_boot s" "s2_terminal t = s2_terminal s"
    "s2_terminal_stop t = s2_terminal_stop s" "s2_boundary t = s2_boundary s" "s2_boundary_state t = s2_boundary_state s"
    "s2_expected t = s2_expected s" "s2_reconnect_from t = s2_reconnect_from s"
    by simp_all
qed

lemma v2_accept_frame:
  assumes "v2_accept env s = (s', r)" "v2_inv s"
  shows "guest_frame s s' \<and> takes s s' env r \<and> v2_inv s'"
  using assms(1)
proof (cases rule: accept_cases)
  case (refused e)
  then show ?thesis using assms(2) by (simp add: takes_def)
next
  case bootstrap
  then have "s2_guest_wire s = 0" "0 \<le> s2_stdout s" using accept_bootstrap_Inr [OF bootstrap(2)] assms(2) by (auto simp: v2_inv_def)
  then show ?thesis
    using accept_bootstrap_Inr [OF bootstrap(2)] assms(2) bootstrap(2)
    by (auto simp: takes_def guest_frame_def v2_inv_def accept_bootstrap_def Let_def rbind_Inr_iff bootstrap(1) split: if_splits)
next
  case exec
  note x = accept_exec_Inr [OF exec(3)] and g = accept_guards_Inr [OF exec(2)]
  have f: "s2_key s' = s2_key s" "s2_state s' = s2_state s" "s2_binding s' = s2_binding s" "s2_attempt s' = s2_attempt s"
    "s2_host_wire s' = s2_host_wire s" "s2_stop s' = s2_stop s" "s2_request s' = s2_request s"
    "s2_used_nonces s' = s2_used_nonces s"
    using exec_frame_fields x by blast+
  have c: "0 \<le> s2_stdout s'" "0 \<le> s2_stderr s'" "s2_stdout s' + s2_stderr s' \<le> max_exec_output"
    using x assms(2) by (auto simp: v2_inv_def)
  show ?thesis
    using x g f c assms(2) exec(1) by (auto simp: takes_def guest_frame_def v2_inv_def)
next
  case (lifecycle st w cs t)
  note g = accept_guards_Inr [OF lifecycle(2)]
  have "s2_key t = s2_key s \<and> s2_binding t = s2_binding s \<and> s2_attempt t = s2_attempt s \<and> s2_host_wire t = s2_host_wire s \<and>
    s2_stop t = s2_stop s \<and> s2_request t = s2_request s \<and> s2_used_nonces t = s2_used_nonces s \<and> s2_stdout t = s2_stdout s \<and>
    s2_stderr t = s2_stderr s \<and> st \<notin> {S_new, S_hello_sent}"
    using lifecycle(3) host_state_of_live by (cases rule: accept_lifecycle_cases) (auto simp: record_terminal_frame)
  with g lifecycle(1,4) assms(2) show ?thesis
    by (auto simp: takes_def guest_frame_def v2_inv_def accept_commit_frame)
qed

text \<open>What one call does to the counters, whatever the method.\<close>

lemma v2_call_inv: "v2_call s e s' \<Longrightarrow> v2_inv s \<Longrightarrow> v2_inv s'"
  by (cases rule: v2_call.cases) (auto intro: host_inv boundary_inv dest: v2_accept_frame)

definition v2_step :: "v2_session \<Rightarrow> v2_event \<Rightarrow> v2_session \<Rightarrow> bool" where
  "v2_step s e t \<longleftrightarrow> v2_inv s \<and> v2_call s e t"

lemma sends_wire: "host_frame s s' \<Longrightarrow> sends s s' r \<Longrightarrow> s2_host_wire s \<le> s2_host_wire s' \<and> s2_guest_wire s' = s2_guest_wire s \<and>
   (\<forall>w. sent_wire (sent_event r) = Some w \<longrightarrow> s2_host_wire s < w \<and> w \<le> s2_host_wire s') \<and> took_wire (sent_event r) = None"
  by (cases r) (auto simp: sends_def host_frame_def)

lemma takes_wire: "guest_frame s s' \<Longrightarrow> takes s s' env r \<Longrightarrow> s2_host_wire s' = s2_host_wire s \<and> s2_guest_wire s \<le> s2_guest_wire s' \<and>
   (\<forall>w. took_wire (took_event env r) = Some w \<longrightarrow> s2_guest_wire s < w \<and> w \<le> s2_guest_wire s') \<and> sent_wire (took_event env r) = None"
  by (cases r) (auto simp: takes_def guest_frame_def)

lemma v2_step_wires:
  assumes "v2_step s e t"
  shows "s2_host_wire s \<le> s2_host_wire t \<and> s2_guest_wire s \<le> s2_guest_wire t \<and>
    (\<forall>w. sent_wire e = Some w \<longrightarrow> s2_host_wire s < w \<and> w \<le> s2_host_wire t) \<and>
    (\<forall>w. took_wire e = Some w \<longrightarrow> s2_guest_wire s < w \<and> w \<le> s2_guest_wire t)"
proof -
  have i: "v2_inv s" and c: "v2_call s e t" using assms by (auto simp: v2_step_def)
  from c show ?thesis
  proof (cases rule: v2_call.cases)
    case (hello p r)
    with sends_wire v2_hello_frame show ?thesis by fastforce
  next
    case (key_ack r)
    with sends_wire v2_key_ack_frame show ?thesis by fastforce
  next
    case (reconnect p r)
    with sends_wire v2_reconnect_frame show ?thesis by fastforce
  next
    case (exec a m r)
    with sends_wire v2_exec_frame show ?thesis by fastforce
  next
    case (stop r)
    with sends_wire v2_stop_frame show ?thesis by fastforce
  next
    case (retry_stop r)
    with sends_wire v2_retry_stop_frame show ?thesis by fastforce
  next
    case (boundary env line r)
    with takes_wire v2_boundary_frame show ?thesis by fastforce
  next
    case (accept env r)
    with takes_wire v2_accept_frame [OF _ i] show ?thesis by fastforce
  qed
qed

interpretation v2h: counter_run v2_step s2_host_wire sent_wire
  by unfold_locales (use v2_step_wires in blast)+

interpretation v2g: counter_run v2_step s2_guest_wire took_wire
  by unfold_locales (use v2_step_wires in blast)+

lemma v2_run_step:
  assumes "run_of v2_call s tr t" "v2_inv s"
  shows "run_of v2_step s tr t \<and> v2_inv t"
  using assms(1)
proof (induction rule: run_of.induct)
  case run_nil
  then show ?case using assms(2) by (simp add: run_of.run_nil)
next
  case (run_snoc tr t e u)
  then have "v2_step t e u" by (simp add: v2_step_def)
  with run_snoc show ?case using run_of.run_snoc [of v2_step s tr t e u] v2_call_inv by blast
qed

end
