(* ===== verification/Control_V2_Sample.thy ===== *)
theory Control_V2_Sample imports Main Control_V2_Runs begin

text \<open>
  Two concrete runs of the v2 host session, from its construction: one to a STOP whose boundary
  reports the guest still ready, one to a natural end of the guest. The tags of the guest's
  envelopes are those of \<open>sign_message\<close> and stay symbolic.
\<close>

section \<open>States\<close>

definition k0 :: bytes where "k0 = sample_key"

definition q0 :: v2_session where
  "q0 = \<lparr>s2_binding = sample_binding, s2_attempt = sample_uuid, s2_used_nonces = [], s2_used_boundaries = [], s2_nonce = None,
       s2_key = None, s2_key_id = None, s2_boot = None, s2_host_wire = 0, s2_accepted_wire = 0,
       s2_accepted_cands = None, s2_guest_wire = 0, s2_request = 0, s2_pending = None, s2_stop = None,
       s2_terminal = JNull, s2_terminal_stop = None, s2_epoch = 1, s2_boundary = None, s2_boundary_state = None,
       s2_expected = None, s2_opener = None, s2_accepted_opener = None, s2_accepted_nonce = None,
       s2_pending_wire = None, s2_stop_wire = None, s2_stop_cands = [], s2_retry = None, s2_reconnect_from = None,
       s2_exec = None, s2_exec_wire = None, s2_stdout = 0, s2_stderr = 0, s2_state = S_new\<rparr>"

definition q1 :: v2_session where
  "q1 = q0\<lparr>s2_used_nonces := [sample_nonce], s2_nonce := Some sample_nonce, s2_request := 1, s2_host_wire := 1, s2_pending := Some 1,
           s2_pending_wire := Some 1, s2_state := S_hello_sent, s2_opener := Some 1\<rparr>"

definition q2 :: "ustr \<Rightarrow> v2_session" where
  "q2 kid = q1\<lparr>s2_key := Some k0, s2_key_id := Some kid, s2_boot := Some sample_uuid, s2_guest_wire := 1, s2_accepted_wire := 1,
       s2_accepted_nonce := Some sample_nonce, s2_accepted_opener := Some 1, s2_pending_wire := None, s2_state := S_bootstrap\<rparr>"

definition q3 :: "ustr \<Rightarrow> v2_session" where
  "q3 kid = (q2 kid)\<lparr>s2_host_wire := 2, s2_pending_wire := Some 2, s2_state := S_key_ack_sent\<rparr>"

definition q4 :: "ustr \<Rightarrow> v2_session" where
  "q4 kid = (q3 kid)\<lparr>s2_guest_wire := 2, s2_accepted_wire := 2, s2_pending := None, s2_pending_wire := None, s2_state := S_ready\<rparr>"

definition g_msg :: "v2_kind \<Rightarrow> v2_payload \<Rightarrow> int \<Rightarrow> int \<Rightarrow> int option \<Rightarrow> v2_message" where
  "g_msg k p ep w reply = \<lparr>m2_kind = k, m2_binding = sample_binding, m2_attempt = sample_uuid, m2_nonce = sample_nonce,
     m2_epoch = ep, m2_wire = w, m2_payload = p, m2_request_id = None, m2_boot = Some sample_uuid, m2_reply_to = reply\<rparr>"

lemma g_msg_sel [simp]:
  "m2_kind (g_msg k p ep w r) = k" "m2_binding (g_msg k p ep w r) = sample_binding" "m2_attempt (g_msg k p ep w r) = sample_uuid"
  "m2_nonce (g_msg k p ep w r) = sample_nonce" "m2_epoch (g_msg k p ep w r) = ep" "m2_wire (g_msg k p ep w r) = w"
  "m2_payload (g_msg k p ep w r) = p" "m2_request_id (g_msg k p ep w r) = None" "m2_boot (g_msg k p ep w r) = Some sample_uuid"
  "m2_reply_to (g_msg k p ep w r) = r"
  by (simp_all add: g_msg_def)

lemma g_msg_valid:
  assumes "v2_payload_ok k p" "k \<notin> {V2_HELLO, V2_RECONNECT, V2_STOP, V2_EXEC}" "1 \<le> ep" "ep \<le> 9" "1 \<le> w" "w \<le> 9"
    "counter_ok r \<or> k = V2_TERMINAL \<and> r = None"
    "k \<in> {V2_BOOTSTRAP, V2_KEY_ACK} \<Longrightarrow> ep = 1" "k = V2_BOUNDARY_ACK \<Longrightarrow> 1 < ep"
  shows "v2_valid (g_msg k p ep w r)"
  using assms
  by (auto simp: v2_valid_def sample_binding_ok sample_uuid_ok sample_nonce_ok max_counter_def request_kinds_def)

lemma k0_len [simp]: "length k0 = 32"
  by (simp add: k0_def sample_key_def)

text \<open>Every valid guest message has an envelope that the key accepts.\<close>

lemma guest_env:
  assumes "v2_valid m" "m2_kind m \<noteq> V2_HELLO" "m2_kind m \<noteq> V2_BOUNDARY_ACK"
  obtains e where "ev_body e = m" "v2_env_valid e" "verify_message_authentication e k0 channel_carrier = Inr ()"
    "sign_message m k0 channel_carrier = Inr e"
proof -
  have "carrier_of m = channel_carrier" using assms(3) by (simp add: carrier_of_def)
  then show ?thesis using sign_total [OF assms(1,2) k0_len] that verify_iff_sign by metis
qed

definition boot_hex :: ustr where "boot_hex = hex_of_bytes k0"

lemma boot_hex_ok: "is_hex32 boot_hex" "bytes_of_hex boot_hex = k0"
  by (simp_all add: boot_hex_def is_hex32_hex_of_bytes)

lemma step_hello: "\<exists>e. v2_hello (JStr sample_nonce) q0 = (q1, Inr e)"
  by (simp add: v2_hello_def fresh_nonce_def q0_def q1_def max_connections_def sample_nonce_ok Let_def v2_message_init_def
      v2_field_defs v2_hex32_def canonical_uuid_def sample_uuid_ok counter_def max_counter_def exact_object_def same_keys_def
      v2_envelope_init_def)

lemma sample_new: "v2_new sample_binding (JStr sample_uuid) = Inr q0"
  by (simp add: v2_new_def v2_uuid_def canonical_uuid_def sample_uuid_ok q0_def)

lemma step_bootstrap:
  assumes "ev_body e = g_msg V2_BOOTSTRAP (P2_bootstrap boot_hex) 1 1 (Some 1)" "ev_key_id e = Some kid"
    "verify_message_authentication e k0 channel_carrier = Inr ()"
  shows "v2_accept e q1 = (q2 kid, Inr ())"
  using assms by (simp add: v2_accept_def v2_accept_step_def accept_bootstrap_def Let_def boot_hex_ok q0_def q1_def q2_def
      or_zero_def)

lemma sign_some:
  assumes "v2_message_init k sample_binding (JStr sample_uuid) (JStr sample_nonce) (JInt ep) (JInt w) p r (JStr sample_uuid) rep = Inr m"
    "v2_valid m" "k \<in> {V2_KEY_ACK, V2_STOP, V2_RECONNECT, V2_EXEC}"
    "s2_binding s = sample_binding" "s2_attempt s = sample_uuid" "s2_nonce s = Some sample_nonce" "s2_boot s = Some sample_uuid"
  shows "\<exists>e. sign_request k p r rep ep w k0 s = Inr e"
proof -
  have k: "m2_kind m = k" using v2_message_init_fields [OF assms(1)] by simp
  then have "m2_kind m \<noteq> V2_HELLO" "carrier_of m = channel_carrier" using assms(3) by (auto simp: carrier_of_def)
  then obtain e where "sign_message m k0 channel_carrier = Inr e" using sign_total [OF assms(2) _ k0_len] by metis
  with assms show ?thesis by (simp add: sign_request_def or_empty_def jstr_Some)
qed

lemma step_key_ack: "\<exists>e. v2_key_ack (q2 kid) = (q3 kid, Inr e)"
proof -
  let ?s = "(q2 kid)\<lparr>s2_host_wire := 2, s2_pending_wire := Some 2\<rparr>"
  have m: "v2_message_init V2_KEY_ACK sample_binding (JStr sample_uuid) (JStr sample_nonce) (JInt 1) (JInt 2) (JObj []) JNull
      (JStr sample_uuid) (JInt 1) = Inr (g_msg V2_KEY_ACK P2_empty 1 2 (Some 1))"
    by (simp add: v2_message_init_def v2_field_defs v2_hex32_def canonical_uuid_def sample_uuid_ok sample_nonce_ok counter_def
        max_counter_def exact_object_def same_keys_def request_kinds_def v2_body_init_def v2_init_key_ack_def v2_reply_def g_msg_def)
  have v: "v2_valid (g_msg V2_KEY_ACK P2_empty 1 2 (Some 1))"
    by (rule g_msg_valid) (simp_all add: v2_payload_ok_def counter_ok_def max_counter_def)
  obtain e where "sign_request V2_KEY_ACK (JObj []) JNull (JInt 1) 1 2 k0 ?s = Inr e"
    using sign_some [OF m v, of ?s] by (auto simp: q0_def q1_def q2_def)
  then show ?thesis by (simp add: v2_key_ack_def Let_def q0_def q1_def q2_def q3_def)
qed

lemma step_ready:
  assumes "ev_body e = g_msg V2_READY P2_empty 1 2 (Some 2)" "verify_message_authentication e k0 channel_carrier = Inr ()"
  shows "v2_accept e (q3 kid) = (q4 kid, Inr ())"
  using assms by (simp add: v2_accept_def v2_accept_step_def accept_guards_def accept_lifecycle_def accept_commit_def
      reports_ready_def Let_def q0_def q1_def q2_def q3_def q4_def)

lemma run_cons: "run_of step t tr u \<Longrightarrow> step s e t \<Longrightarrow> run_of step s (e # tr) u"
  using run_of_append [of step t tr u s "[e]"] run_of_step [of step s e t] by simp

text \<open>
  A guest that sends nothing but BOUNDARY_ACK until the host has answered it with RECONNECT.
\<close>

definition v2_quiet :: "v2_session \<Rightarrow> v2_event \<Rightarrow> v2_session \<Rightarrow> bool" where
  "v2_quiet s e t \<longleftrightarrow>
     v2_call s e t \<and> (\<forall>env. e = Took env \<longrightarrow> m2_kind (ev_body env) \<noteq> V2_BOUNDARY_ACK \<longrightarrow> s2_boundary s = None)"

lemma quiet_run: "run_of v2_quiet s tr t \<Longrightarrow> run_of v2_call s tr t"
  by (induction rule: run_of.induct) (auto intro: run_of.intros simp: v2_quiet_def)

text \<open>The run to the ready state.\<close>

lemma run_ready_quiet:
  "\<exists>tr kid env. run_of v2_quiet q0 tr (q4 kid) \<and> Took env \<in> set tr \<and> m2_kind (ev_body env) = V2_READY \<and> v2_env_valid env"
proof -
  have "v2_valid (g_msg V2_BOOTSTRAP (P2_bootstrap boot_hex) 1 1 (Some 1))" "v2_valid (g_msg V2_READY P2_empty 1 2 (Some 2))"
    by (rule g_msg_valid; simp add: v2_payload_ok_def counter_ok_def max_counter_def boot_hex_ok)+
  then obtain e1 e2 where e1: "ev_body e1 = g_msg V2_BOOTSTRAP (P2_bootstrap boot_hex) 1 1 (Some 1)" "v2_env_valid e1"
      "verify_message_authentication e1 k0 channel_carrier = Inr ()"
    and e2: "ev_body e2 = g_msg V2_READY P2_empty 1 2 (Some 2)" "v2_env_valid e2"
      "verify_message_authentication e2 k0 channel_carrier = Inr ()"
    using guest_env by (metis g_msg_sel(1) v2_kind.distinct)
  from e1 obtain kid where kid: "ev_key_id e1 = Some kid" by (auto simp: v2_env_valid_def)
  obtain h a where h: "v2_hello (JStr sample_nonce) q0 = (q1, Inr h)" and a: "v2_key_ack (q2 kid) = (q3 kid, Inr a)"
    using step_hello step_key_ack by blast
  have n: "s2_boundary q1 = None" "s2_boundary (q3 kid) = None" by (simp_all add: q0_def q1_def q2_def q3_def)
  have "v2_quiet q0 (Sent h) q1" using v2_call.hello [OF h] by (simp add: v2_quiet_def)
  moreover have "v2_quiet q1 (Took e1) (q2 kid)"
    using v2_call.accept [OF e1(2) step_bootstrap [OF e1(1) kid e1(3)]] n by (simp add: v2_quiet_def)
  moreover have "v2_quiet (q2 kid) (Sent a) (q3 kid)" using v2_call.key_ack [OF a] by (simp add: v2_quiet_def)
  moreover have "v2_quiet (q3 kid) (Took e2) (q4 kid)"
    using v2_call.accept [OF e2(2) step_ready [OF e2(1,3)]] n by (simp add: v2_quiet_def)
  ultimately have "run_of v2_quiet q0 [Sent h, Took e1, Sent a, Took e2] (q4 kid)"
    by (intro run_cons) (rule run_of.run_nil)
  then show ?thesis using e2 by fastforce
qed

lemma run_ready:
  "\<exists>tr kid env. run_of v2_call q0 tr (q4 kid) \<and> Took env \<in> set tr \<and> m2_kind (ev_body env) = V2_READY \<and> v2_env_valid env"
  using run_ready_quiet quiet_run by blast

section \<open>A STOP\<close>

definition q5 :: "ustr \<Rightarrow> v2_session" where
  "q5 kid = (q4 kid)\<lparr>s2_host_wire := 3, s2_stop_wire := Some 3, s2_stop_cands := [3], s2_request := 2, s2_stop := Some 2,
     s2_state := S_stop_sent\<rparr>"

lemma step_stop: "\<exists>e. v2_stop (q4 kid) = (q5 kid, Inr e)"
proof -
  let ?s = "(q4 kid)\<lparr>s2_host_wire := 3, s2_stop_wire := Some 3, s2_stop_cands := [3], s2_request := 2, s2_stop := Some 2\<rparr>"
  let ?m = "\<lparr>m2_kind = V2_STOP, m2_binding = sample_binding, m2_attempt = sample_uuid, m2_nonce = sample_nonce,
     m2_epoch = 1, m2_wire = 3, m2_payload = P2_stop (JInt 15), m2_request_id = Some 2, m2_boot = Some sample_uuid,
     m2_reply_to = None\<rparr>"
  have m: "v2_message_init V2_STOP sample_binding (JStr sample_uuid) (JStr sample_nonce) (JInt 1) (JInt 3)
      (JObj [(ul ''signal'', JInt 15)]) (JInt 2) (JStr sample_uuid) JNull = Inr ?m"
    by (simp add: v2_message_init_def v2_field_defs v2_hex32_def canonical_uuid_def sample_uuid_ok sample_nonce_ok counter_def
        max_counter_def exact_object_def same_keys_def request_kinds_def v2_body_init_def v2_init_stop_def is_15_def jget_def)
  have v: "v2_valid ?m"
    by (simp add: v2_valid_def sample_binding_ok sample_uuid_ok sample_nonce_ok max_counter_def request_kinds_def
        v2_payload_ok_def is_15_def counter_ok_def)
  obtain e where "sign_request V2_STOP (JObj [(ul ''signal'', JInt 15)]) (JInt 2) JNull 1 3 k0 ?s = Inr e"
    using sign_some [OF m v, of ?s] by (auto simp: q0_def q1_def q2_def q3_def q4_def)
  then show ?thesis
    by (simp add: v2_stop_def stop_wire_out_def add_cand_def Let_def q0_def q1_def q2_def q3_def q4_def q5_def jint_Some)
qed

lemma run_stopped:
  "\<exists>tr kid env. run_of v2_call q0 tr (q5 kid) \<and> Sent env \<in> set tr \<and> m2_kind (ev_body env) = V2_STOP"
proof -
  obtain tr kid where r: "run_of v2_call q0 tr (q4 kid)" using run_ready by blast
  obtain e where e: "v2_stop (q4 kid) = (q5 kid, Inr e)" using step_stop by blast
  then have "v2_call (q4 kid) (Sent e) (q5 kid)" using v2_call.stop by fastforce
  with r have "run_of v2_call q0 (tr @ [Sent e]) (q5 kid)" by (rule run_of.run_snoc)
  moreover have "m2_kind (ev_body e) = V2_STOP"
    using e by (auto simp: v2_stop_def stop_wire_out_def Let_def dest!: sign_request_Inr split: if_splits sum.splits option.splits)
  ultimately show ?thesis by fastforce
qed

end
