(* ===== verification/Control_V2_Props.thy ===== *)
theory Control_V2_Props imports Main Control_V2_Sample begin

text \<open>
  Properties of the v2 host session over whole runs, with a concrete run for their witnesses.
\<close>

section \<open>What a call keeps\<close>

lemma host_stop:
  "v2_hello p s = (s', r) \<Longrightarrow> s2_stop s' = s2_stop s"
  "v2_key_ack s = (s', r) \<Longrightarrow> s2_stop s' = s2_stop s"
  "v2_reconnect p s = (s', r) \<Longrightarrow> s2_stop s' = s2_stop s"
  "v2_exec a t s = (s', r) \<Longrightarrow> s2_stop s' = s2_stop s"
  "v2_stop s = (s', r) \<Longrightarrow> s2_stop s \<noteq> None \<Longrightarrow> s2_stop s' = s2_stop s"
  "v2_retry_stop s = (s', r) \<Longrightarrow> s2_stop s' = s2_stop s"
  subgoal by (auto simp: v2_hello_def Let_def dest!: fresh_nonce_frame split: if_splits sum.splits)
  subgoal by (auto simp: v2_key_ack_def Let_def split: if_splits sum.splits option.splits)
  subgoal by (auto simp: v2_reconnect_def Let_def dest!: fresh_nonce_frame split: if_splits sum.splits option.splits)
  subgoal by (auto simp: v2_exec_def Let_def split: if_splits sum.splits option.splits)
  subgoal by (auto simp: v2_stop_def stop_wire_out_def Let_def split: if_splits sum.splits option.splits)
  subgoal by (auto simp: v2_retry_stop_def stop_wire_out_def Let_def split: if_splits sum.splits option.splits)
  done

lemma stop_sent_id:
  "v2_stop s = (s', Inr e) \<Longrightarrow> s2_stop s' \<noteq> None"
  "v2_retry_stop s = (s', Inr e) \<Longrightarrow> s2_stop s' \<noteq> None"
  by (auto simp: v2_stop_def v2_retry_stop_def stop_wire_out_def Let_def split: if_splits sum.splits option.splits)

lemma other_sent_kind:
  "v2_hello p s = (s', Inr e) \<Longrightarrow> m2_kind (ev_body e) = V2_HELLO"
  "v2_key_ack s = (s', Inr e) \<Longrightarrow> m2_kind (ev_body e) = V2_KEY_ACK"
  "v2_reconnect p s = (s', Inr e) \<Longrightarrow> m2_kind (ev_body e) = V2_RECONNECT"
  "v2_exec a t s = (s', Inr e) \<Longrightarrow> m2_kind (ev_body e) = V2_EXEC"
  "v2_stop s = (s', Inr e) \<Longrightarrow> m2_kind (ev_body e) = V2_STOP"
  "v2_retry_stop s = (s', Inr e) \<Longrightarrow> m2_kind (ev_body e) = V2_STOP"
  subgoal by (auto simp: v2_hello_def Let_def rbind_Inr_iff v2_envelope_init_def dest!: v2_message_init_fields
      split: if_splits sum.splits)
  subgoal by (auto simp: v2_key_ack_def Let_def dest!: sign_request_Inr split: if_splits sum.splits option.splits)
  subgoal by (auto simp: v2_reconnect_def Let_def dest!: sign_request_Inr split: if_splits sum.splits option.splits)
  subgoal by (auto simp: v2_exec_def Let_def dest!: sign_request_Inr split: if_splits sum.splits option.splits)
  subgoal by (auto simp: v2_stop_def stop_wire_out_def Let_def dest!: sign_request_Inr split: if_splits sum.splits option.splits)
  subgoal by (auto simp: v2_retry_stop_def stop_wire_out_def Let_def dest!: sign_request_Inr split: if_splits sum.splits option.splits)
  done

definition sent_stop_id :: "v2_event \<Rightarrow> int option option" where
  "sent_stop_id ev = (case ev of
     Sent e \<Rightarrow> if m2_kind (ev_body e) = V2_STOP then Some (m2_request_id (ev_body e)) else None | _ \<Rightarrow> None)"

definition signed_by :: "bytes option \<Rightarrow> v2_envelope \<Rightarrow> bool" where
  "signed_by k env \<longleftrightarrow> (\<exists>key. k = Some key \<and> sign_message (ev_body env) key (carrier_of (ev_body env)) = Inr env)"

lemma sent_keeps:
  assumes "host_frame s t" "sends s t r" "s2_stop s \<noteq> None \<Longrightarrow> s2_stop t = s2_stop s"
    "\<And>e. r = Inr e \<Longrightarrow> m2_kind (ev_body e) = V2_STOP \<Longrightarrow> s2_stop t \<noteq> None"
  shows "(s2_key s \<noteq> None \<longrightarrow> s2_key t = s2_key s) \<and> (s2_stop s \<noteq> None \<longrightarrow> s2_stop t = s2_stop s) \<and>
    (\<forall>i. sent_stop_id (sent_event r) = Some i \<longrightarrow> s2_stop t = i \<and> i \<noteq> None) \<and>
    (\<forall>env. sent_event r = Took env \<longrightarrow> signed_by (s2_key t) env)"
  using assms by (cases r) (auto simp: host_frame_def sends_def sent_stop_id_def split: if_splits)

lemma v2_call_keeps:
  assumes "v2_call s e t" "v2_inv s"
  shows "(s2_key s \<noteq> None \<longrightarrow> s2_key t = s2_key s) \<and> (s2_stop s \<noteq> None \<longrightarrow> s2_stop t = s2_stop s) \<and>
    (\<forall>i. sent_stop_id e = Some i \<longrightarrow> s2_stop t = i \<and> i \<noteq> None) \<and> (\<forall>env. e = Took env \<longrightarrow> signed_by (s2_key t) env)"
  using assms(1)
proof (cases rule: v2_call.cases)
  case (hello p r)
  note f = v2_hello_frame [OF hello(2)] and n = host_stop(1) [OF hello(2)]
  have "\<And>e. r = Inr e \<Longrightarrow> m2_kind (ev_body e) = V2_STOP \<Longrightarrow> s2_stop t \<noteq> None"
    using other_sent_kind(1) hello(2) by fastforce
  then show ?thesis using sent_keeps [of s t r] f n hello(1) by auto
next
  case (key_ack r)
  note f = v2_key_ack_frame [OF key_ack(2)] and n = host_stop(2) [OF key_ack(2)]
  have "\<And>e. r = Inr e \<Longrightarrow> m2_kind (ev_body e) = V2_STOP \<Longrightarrow> s2_stop t \<noteq> None"
    using other_sent_kind(2) key_ack(2) by fastforce
  then show ?thesis using sent_keeps [of s t r] f n key_ack(1) by auto
next
  case (reconnect p r)
  note f = v2_reconnect_frame [OF reconnect(2)] and n = host_stop(3) [OF reconnect(2)]
  have "\<And>e. r = Inr e \<Longrightarrow> m2_kind (ev_body e) = V2_STOP \<Longrightarrow> s2_stop t \<noteq> None"
    using other_sent_kind(3) reconnect(2) by fastforce
  then show ?thesis using sent_keeps [of s t r] f n reconnect(1) by auto
next
  case (exec a m r)
  note f = v2_exec_frame [OF exec(2)] and n = host_stop(4) [OF exec(2)]
  have "\<And>e. r = Inr e \<Longrightarrow> m2_kind (ev_body e) = V2_STOP \<Longrightarrow> s2_stop t \<noteq> None"
    using other_sent_kind(4) exec(2) by fastforce
  then show ?thesis using sent_keeps [of s t r] f n exec(1) by auto
next
  case (stop r)
  note f = v2_stop_frame [OF stop(2)] and n = host_stop(5) [OF stop(2)]
  have "\<And>e. r = Inr e \<Longrightarrow> m2_kind (ev_body e) = V2_STOP \<Longrightarrow> s2_stop t \<noteq> None"
    using stop_sent_id(1) stop(2) by fastforce
  then show ?thesis using sent_keeps [of s t r] f n stop(1) by auto
next
  case (retry_stop r)
  note f = v2_retry_stop_frame [OF retry_stop(2)] and n = host_stop(6) [OF retry_stop(2)]
  have "\<And>e. r = Inr e \<Longrightarrow> m2_kind (ev_body e) = V2_STOP \<Longrightarrow> s2_stop t \<noteq> None"
    using stop_sent_id(2) retry_stop(2) by fastforce
  then show ?thesis using sent_keeps [of s t r] f n retry_stop(1) by auto
next
  case (boundary env line r)
  with v2_boundary_frame [OF boundary(3)] show ?thesis
    by (cases r) (auto simp: guest_frame_def takes_def signed_by_def sent_stop_id_def dest!: sym [of "Some _"])
next
  case (accept env r)
  note f = v2_accept_frame [OF accept(3) assms(2)]
  have "s2_key s \<noteq> None \<longrightarrow> s2_key t = s2_key s"
    using accept(3)
  proof (cases rule: accept_cases)
    case bootstrap
    then show ?thesis using accept_bootstrap_Inr [OF bootstrap(2)] assms(2) by (auto simp: v2_inv_def)
  next
    case exec
    then show ?thesis using accept_exec_Inr [OF exec(3)] exec_frame_fields(1) by blast
  next
    case (lifecycle st w cs u)
    from lifecycle(3) have "s2_key u = s2_key s"
      by (cases rule: accept_lifecycle_cases) (auto simp: record_terminal_frame)
    with lifecycle show ?thesis by (simp add: accept_commit_frame)
  qed simp
  with f accept(1) show ?thesis by (cases r) (auto simp: guest_frame_def takes_def signed_by_def sent_stop_id_def)
qed

lemma v2_run_keeps:
  assumes "run_of v2_call s tr t" "v2_inv s"
  shows "(\<forall>env. Took env \<in> set tr \<longrightarrow> signed_by (s2_key t) env) \<and>
    (\<forall>e \<in> set tr. \<forall>i. sent_stop_id e = Some i \<longrightarrow> s2_stop t = i \<and> i \<noteq> None)"
  using assms(1)
proof (induction rule: run_of.induct)
  case (run_snoc tr t e u)
  have "v2_inv t" using v2_run_step [OF run_snoc.hyps(1) assms(2)] by blast
  note k = v2_call_keeps [OF run_snoc.hyps(2) this]
  have "signed_by (s2_key u) env" if "Took env \<in> set (tr @ [e])" for env
    using that k run_snoc.IH by (cases "e = Took env") (auto simp: signed_by_def)
  moreover have "s2_stop u = i \<and> i \<noteq> None" if "x \<in> set (tr @ [e])" "sent_stop_id x = Some i" for x i
    using that k run_snoc.IH by fastforce
  ultimately show ?case by blast
qed simp

section \<open>Exec output as a byte stream\<close>

text \<open>
  The specification of an exec exchange: at most one command is open, an output message of a
  stream starts where the stream ends, both streams together stay within the limit, and the
  exit message states the lengths of both. \<open>None\<close> is an exchange that breaks it.
\<close>

type_synonym exec_log = "(ustr \<times> ustr) option"

definition exec_spec :: "v2_event \<Rightarrow> exec_log \<Rightarrow> exec_log option" where
  "exec_spec ev log =
     (case ev of
        Idle \<Rightarrow> Some log
      | Sent e \<Rightarrow> if m2_kind (ev_body e) = V2_EXEC then (if log = None then Some (Some ([], [])) else None) else Some log
      | Took e \<Rightarrow>
          (case m2_payload (ev_body e) of
             P2_output st off data \<Rightarrow>
               (case log of
                  None \<Rightarrow> None
                | Some (out, err) \<Rightarrow>
                    (let now = (case st of Stdout \<Rightarrow> out | Stderr \<Rightarrow> err)
                     in if off = int (length now div 2) \<and>
                           int (length out div 2 + length err div 2 + length data div 2) \<le> max_exec_output
                        then Some (Some (case st of Stdout \<Rightarrow> (out @ data, err) | Stderr \<Rightarrow> (out, err @ data))) else None))
           | P2_exit t out_n err_n reason \<Rightarrow>
               (case log of
                  None \<Rightarrow> None
                | Some (out, err) \<Rightarrow>
                    if out_n = int (length out div 2) \<and> err_n = int (length err div 2) then Some None else None)
           | _ \<Rightarrow> Some log))"

fun exec_specs :: "v2_event list \<Rightarrow> exec_log \<Rightarrow> exec_log option" where
  "exec_specs [] log = Some log"
| "exec_specs (e # es) log = (case exec_spec e log of None \<Rightarrow> None | Some log' \<Rightarrow> exec_specs es log')"

lemma exec_specs_append:
  "exec_specs (xs @ ys) log = (case exec_specs xs log of None \<Rightarrow> None | Some log' \<Rightarrow> exec_specs ys log')"
  by (induction xs arbitrary: log) (auto split: option.splits)

definition exec_abs :: "exec_log \<Rightarrow> v2_session \<Rightarrow> bool" where
  "exec_abs log s \<longleftrightarrow>
     (case log of
        None \<Rightarrow> s2_exec s = None
      | Some (out, err) \<Rightarrow> s2_exec s \<noteq> None \<and> even (length out) \<and> even (length err) \<and>
          s2_stdout s = int (length out div 2) \<and> s2_stderr s = int (length err div 2))"

lemma host_exec_same:
  "v2_hello p s = (s', r) \<Longrightarrow> s2_exec s' = s2_exec s \<and> s2_stdout s' = s2_stdout s \<and> s2_stderr s' = s2_stderr s"
  "v2_key_ack s = (s', r) \<Longrightarrow> s2_exec s' = s2_exec s \<and> s2_stdout s' = s2_stdout s \<and> s2_stderr s' = s2_stderr s"
  "v2_reconnect p s = (s', r) \<Longrightarrow> s2_exec s' = s2_exec s \<and> s2_stdout s' = s2_stdout s \<and> s2_stderr s' = s2_stderr s"
  "v2_stop s = (s', r) \<Longrightarrow> s2_exec s' = s2_exec s \<and> s2_stdout s' = s2_stdout s \<and> s2_stderr s' = s2_stderr s"
  "v2_retry_stop s = (s', r) \<Longrightarrow> s2_exec s' = s2_exec s \<and> s2_stdout s' = s2_stdout s \<and> s2_stderr s' = s2_stderr s"
  subgoal by (auto simp: v2_hello_def Let_def dest!: fresh_nonce_frame split: if_splits sum.splits)
  subgoal by (auto simp: v2_key_ack_def Let_def split: if_splits sum.splits option.splits)
  subgoal by (auto simp: v2_reconnect_def Let_def dest!: fresh_nonce_frame split: if_splits sum.splits option.splits)
  subgoal by (auto simp: v2_stop_def stop_wire_out_def Let_def split: if_splits sum.splits option.splits)
  subgoal by (auto simp: v2_retry_stop_def stop_wire_out_def Let_def split: if_splits sum.splits option.splits)
  done

lemma exec_abs_same:
  assumes "s2_exec t = s2_exec s \<and> s2_stdout t = s2_stdout s \<and> s2_stderr t = s2_stderr s"
  shows "exec_abs log t = exec_abs log s"
  using assms by (auto simp: exec_abs_def split: option.splits)

lemma exec_spec_other:
  assumes "\<And>e. r = Inr e \<Longrightarrow> m2_kind (ev_body e) \<noteq> V2_EXEC"
  shows "exec_spec (sent_event r) log = Some log"
  using assms by (cases r) (auto simp: exec_spec_def)

lemma exec_spec_took:
  assumes "\<And>st off data. m2_payload (ev_body e) \<noteq> P2_output st off data" "\<And>t a b c. m2_payload (ev_body e) \<noteq> P2_exit t a b c"
  shows "exec_spec (took_event e r) log = Some log"
  using assms by (cases r) (auto simp: exec_spec_def split: v2_payload.splits)

lemma half_add: "even (length a) \<Longrightarrow> even (length b) \<Longrightarrow> length (a @ b) div 2 = length a div 2 + length b div 2"
  by auto

lemma accept_exec_refines:
  assumes "accept_exec (ev_body env) s = Inr t" "v2_env_valid env" "exec_abs log s"
  shows "\<exists>log'. exec_spec (Took env) log = Some log' \<and> exec_abs log' t"
proof -
  note x = accept_exec_Inr [OF assms(1)]
  have ok: "output_ok off data" if "m2_payload (ev_body env) = P2_output st off data" for st off data
    using assms(2) that by (cases "m2_kind (ev_body env)") (auto simp: v2_env_valid_def v2_valid_def v2_payload_ok_def)
  obtain out err where log: "log = Some (out, err)" and l: "even (length out)" "even (length err)"
    "s2_stdout s = int (length out div 2)" "s2_stderr s = int (length err div 2)"
    using assms(3) x by (auto simp: exec_abs_def split: option.splits)
  consider off data where "m2_payload (ev_body env) = P2_output Stdout off data" "off = s2_stdout s"
      "s2_stdout s + s2_stderr s + int (length data div 2) \<le> max_exec_output"
      "s2_stdout t = s2_stdout s + int (length data div 2)" "s2_stderr t = s2_stderr s" "s2_exec t = s2_exec s"
    | off data where "m2_payload (ev_body env) = P2_output Stderr off data" "off = s2_stderr s"
      "s2_stdout s + s2_stderr s + int (length data div 2) \<le> max_exec_output"
      "s2_stderr t = s2_stderr s + int (length data div 2)" "s2_stdout t = s2_stdout s" "s2_exec t = s2_exec s"
    | y a b c where "m2_payload (ev_body env) = P2_exit y a b c" "a = s2_stdout s" "b = s2_stderr s" "s2_exec t = None"
    using x by blast
  then show ?thesis
  proof cases
    case (1 off data)
    have e: "even (length data)" using ok [OF 1(1)] by (simp add: output_ok_def)
    have "exec_spec (Took env) log = Some (Some (out @ data, err))" using 1 log l by (simp add: exec_spec_def)
    moreover have "exec_abs (Some (out @ data, err)) t"
      using 1 l e x half_add [OF l(1) e] by (auto simp: exec_abs_def)
    ultimately show ?thesis by blast
  next
    case (2 off data)
    have e: "even (length data)" using ok [OF 2(1)] by (simp add: output_ok_def)
    have "exec_spec (Took env) log = Some (Some (out, err @ data))" using 2 log l by (simp add: exec_spec_def)
    moreover have "exec_abs (Some (out, err @ data)) t"
      using 2 l e x half_add [OF l(2) e] by (auto simp: exec_abs_def)
    ultimately show ?thesis by blast
  next
    case (3 y a b c)
    then show ?thesis using log l by (simp add: exec_spec_def exec_abs_def)
  qed
qed

lemma v2_exec_refines:
  assumes "v2_exec a m s = (t, r)" "exec_abs log s"
  shows "\<exists>log'. exec_spec (sent_event r) log = Some log' \<and> exec_abs log' t"
proof (cases r)
  case (Inl e)
  then have "t = s" using assms(1) by (auto simp: v2_exec_def Let_def split: if_splits sum.splits option.splits)
  with Inl assms(2) show ?thesis by (simp add: exec_spec_def)
next
  case (Inr e)
  then have "s2_exec s = None" "s2_exec t \<noteq> None" "s2_stdout t = 0" "s2_stderr t = 0"
    using assms(1) by (auto simp: v2_exec_def Let_def split: if_splits sum.splits option.splits)
  moreover have "m2_kind (ev_body e) = V2_EXEC" using other_sent_kind(4) assms(1) Inr by blast
  ultimately show ?thesis using Inr assms(2) by (auto simp: exec_spec_def exec_abs_def split: option.splits)
qed

lemma v2_call_refines:
  assumes "v2_call s e t" "exec_abs log s" "v2_inv s"
  shows "\<exists>log'. exec_spec e log = Some log' \<and> exec_abs log' t"
  using assms(1)
proof (cases rule: v2_call.cases)
  case (hello p r)
  have "exec_spec e log = Some log" unfolding hello(1)
    by (rule exec_spec_other) (use other_sent_kind(1) hello(2) in fastforce)
  then show ?thesis using exec_abs_same [OF host_exec_same(1) [OF hello(2)]] assms(2) by blast
next
  case (key_ack r)
  have "exec_spec e log = Some log" unfolding key_ack(1)
    by (rule exec_spec_other) (use other_sent_kind(2) key_ack(2) in fastforce)
  then show ?thesis using exec_abs_same [OF host_exec_same(2) [OF key_ack(2)]] assms(2) by blast
next
  case (reconnect p r)
  have "exec_spec e log = Some log" unfolding reconnect(1)
    by (rule exec_spec_other) (use other_sent_kind(3) reconnect(2) in fastforce)
  then show ?thesis using exec_abs_same [OF host_exec_same(3) [OF reconnect(2)]] assms(2) by blast
next
  case (exec a m r)
  then show ?thesis using v2_exec_refines assms(2) by blast
next
  case (stop r)
  have "exec_spec e log = Some log" unfolding stop(1)
    by (rule exec_spec_other) (use other_sent_kind(5) stop(2) in fastforce)
  then show ?thesis using exec_abs_same [OF host_exec_same(4) [OF stop(2)]] assms(2) by blast
next
  case (retry_stop r)
  have "exec_spec e log = Some log" unfolding retry_stop(1)
    by (rule exec_spec_other) (use other_sent_kind(6) retry_stop(2) in fastforce)
  then show ?thesis using exec_abs_same [OF host_exec_same(5) [OF retry_stop(2)]] assms(2) by blast
next
  case (boundary env line r)
  from boundary(3) show ?thesis
  proof (cases rule: admit_boundary_cases)
    case (1 x)
    then show ?thesis using boundary(1) assms(2) by (auto simp: exec_spec_def)
  next
    case (2 b x)
    then have "exec_abs log t = exec_abs log s" by (intro exec_abs_same) (simp add: boundary_frame)
    with 2 boundary(1) assms(2) show ?thesis by (auto simp: exec_spec_def)
  next
    case (3 b d a cands)
    then have "exec_abs log t = exec_abs log s" by (intro exec_abs_same) (simp add: boundary_frame)
    moreover have "exec_spec e log = Some log"
      unfolding boundary(1) by (rule exec_spec_took) (use boundary_guards_Inr [OF 3(1)] in auto)
    ultimately show ?thesis using assms(2) by blast
  qed
next
  case (accept env r)
  from accept(3) show ?thesis
  proof (cases rule: accept_cases)
    case (refused x)
    then show ?thesis using accept(1) assms(2) by (auto simp: exec_spec_def)
  next
    case bootstrap
    have "exec_abs log t = exec_abs log s"
      by (rule exec_abs_same) (use bootstrap(2) in \<open>auto simp: accept_bootstrap_def Let_def rbind_Inr_iff split: if_splits\<close>)
    moreover have "exec_spec e log = Some log" unfolding accept(1)
      by (rule exec_spec_took) (use accept(2) bootstrap(4) in \<open>auto simp: v2_env_valid_def v2_valid_def v2_payload_ok_def\<close>)
    ultimately show ?thesis using assms(2) by blast
  next
    case exec
    then show ?thesis using accept_exec_refines [OF exec(3) accept(2) assms(2)] accept(1) by simp
  next
    case (lifecycle st w cs u)
    from lifecycle(3) have u: "s2_exec u = s2_exec s \<and> s2_stdout u = s2_stdout s \<and> s2_stderr u = s2_stderr s"
      and p: "m2_kind (ev_body env) = V2_READY \<or> (\<exists>l. m2_payload (ev_body env) = P2_snapshot l) \<or> (\<exists>x. m2_payload (ev_body env) = P2_terminal x)"
      by (cases rule: accept_lifecycle_cases; auto simp: record_terminal_frame)+
    have "exec_abs log t = exec_abs log s"
      by (rule exec_abs_same) (use u lifecycle(4) in \<open>simp add: accept_commit_frame\<close>)
    moreover have "exec_spec e log = Some log" unfolding accept(1)
      by (rule exec_spec_took) (use p accept(2) in \<open>auto simp: v2_env_valid_def v2_valid_def v2_payload_ok_def\<close>)
    ultimately show ?thesis using assms(2) by blast
  qed
qed

section \<open>Properties of the session\<close>

lemma q0_inv: "v2_inv q0"
  using v2_new_inv [OF sample_new] .

text \<open>Over any sequence of calls of a new session, refused ones included, the wire numbers of the
  messages it sends are strictly increasing, and so are those of the guest messages and boundary
  acknowledgements it takes.\<close>
theorem v2_wires_increase:
  assumes "v2_new b attempt = Inr s0" "run_of v2_call s0 tr s"
  shows "sorted_wrt (<) (emitted sent_wire tr) \<and> sorted_wrt (<) (emitted took_wire tr)"
proof -
  have "run_of v2_step s0 tr s" using v2_run_step [OF assms(2) v2_new_inv [OF assms(1)]] by blast
  then show ?thesis using v2h.run_increasing v2g.run_increasing by blast
qed

theorem v2_wires_increase_witness:
  "\<exists>tr s. run_of v2_call q0 tr s \<and> tr \<noteq> [] \<and> sorted_wrt (<) (emitted sent_wire tr) \<and> sorted_wrt (<) (emitted took_wire tr)"
proof -
  obtain tr kid env where r: "run_of v2_call q0 tr (q4 kid)" "Took env \<in> set tr" using run_ready by blast
  with v2_wires_increase [OF sample_new r(1)] show ?thesis by fastforce
qed

text \<open>C10. No replay: an envelope the session has taken, on either carrier, is refused without any effect
  in every later state.\<close>
theorem v2_no_replay:
  assumes "v2_new b attempt = Inr s0" "run_of v2_call s0 tr s" "Took env \<in> set tr"
  shows "(\<exists>x. v2_accept env s = (s, Inl x)) \<and> (\<forall>line. \<exists>x. v2_admit_boundary env line s = (s, Inl x))"
proof -
  have r: "run_of v2_step s0 tr s" "v2_inv s" using v2_run_step [OF assms(2) v2_new_inv [OF assms(1)]] by blast+
  have "m2_wire (ev_body env) \<in> set (emitted took_wire tr)"
    using assms(3) by (force simp: emitted_def List.map_filter_def)
  then have le: "m2_wire (ev_body env) \<le> s2_guest_wire s" using v2g.run_bounds [OF r(1)] by blast
  obtain s1 r1 where a: "v2_accept env s = (s1, r1)" by fastforce
  have "\<exists>x. v2_accept env s = (s, Inl x)"
    using a
  proof (cases rule: accept_cases)
    case (refused e)
    with a show ?thesis by simp
  qed (use v2_accept_frame [OF a r(2)] le in \<open>auto simp: takes_def\<close>)
  moreover have "\<exists>x. v2_admit_boundary env line s = (s, Inl x)" for line
  proof -
    obtain s2 r2 where b: "v2_admit_boundary env line s = (s2, r2)" by fastforce
    then show ?thesis
    proof (cases rule: admit_boundary_cases)
      case (1 e)
      with b show ?thesis by simp
    next
      case (2 c e)
      with boundary_guards_Inr [OF 2(1)] le show ?thesis by linarith
    next
      case (3 c d a cands)
      with boundary_guards_Inr [OF 3(1)] le show ?thesis by linarith
    qed
  qed
  ultimately show ?thesis by blast
qed

theorem v2_no_replay_witness:
  "\<exists>env kid x. m2_kind (ev_body env) = V2_READY \<and> v2_accept env (q4 kid) = (q4 kid, Inl x)"
proof -
  obtain tr kid env where r: "run_of v2_call q0 tr (q4 kid)" "Took env \<in> set tr" "m2_kind (ev_body env) = V2_READY"
    using run_ready by blast
  with v2_no_replay [OF sample_new r(1,2)] show ?thesis by blast
qed

text \<open>C9. Authenticity: everything a session has taken is exactly what the holder of the one key of the
  session signs on the carrier of its kind.\<close>
theorem v2_takes_only_signed:
  assumes "v2_new b attempt = Inr s0" "run_of v2_call s0 tr s" "Took env \<in> set tr"
  shows "\<exists>key. s2_key s = Some key \<and> sign_message (ev_body env) key (carrier_of (ev_body env)) = Inr env"
  using v2_run_keeps [OF assms(2) v2_new_inv [OF assms(1)]] assms(3) by (auto simp: signed_by_def)

theorem v2_takes_only_signed_witness:
  "\<exists>env kid key. m2_kind (ev_body env) = V2_READY \<and> s2_key (q4 kid) = Some key \<and>
     sign_message (ev_body env) key (carrier_of (ev_body env)) = Inr env"
proof -
  obtain tr kid env where r: "run_of v2_call q0 tr (q4 kid)" "Took env \<in> set tr" "m2_kind (ev_body env) = V2_READY"
    using run_ready by blast
  with v2_takes_only_signed [OF sample_new r(1,2)] show ?thesis by blast
qed

text \<open>C14. One logical STOP: every STOP frame of a session, retries and retransmissions after a reconnect
  included, carries one and the same request id, the one the session has recorded.\<close>
theorem v2_one_stop_request:
  assumes "v2_new b attempt = Inr s0" "run_of v2_call s0 tr s" "Sent env \<in> set tr" "m2_kind (ev_body env) = V2_STOP"
  shows "m2_request_id (ev_body env) = s2_stop s \<and> s2_stop s \<noteq> None"
proof -
  have "sent_stop_id (Sent env) = Some (m2_request_id (ev_body env))" using assms(4) by (simp add: sent_stop_id_def)
  then show ?thesis using v2_run_keeps [OF assms(2) v2_new_inv [OF assms(1)]] assms(3) by metis
qed

theorem v2_one_stop_request_witness:
  "\<exists>(env :: v2_envelope) kid. m2_kind (ev_body env) = V2_STOP \<and> m2_request_id (ev_body env) = Some 2 \<and> s2_stop (q5 kid) = Some 2"
proof -
  obtain tr kid env where r: "run_of v2_call q0 tr (q5 kid)" "Sent env \<in> set tr" "m2_kind (ev_body env) = V2_STOP"
    using run_stopped by blast
  have "s2_stop (q5 kid) = Some 2" by (simp add: q5_def)
  with v2_one_stop_request [OF sample_new r] r(3) have "m2_request_id (ev_body env) = Some 2" by simp
  with \<open>s2_stop (q5 kid) = Some 2\<close> r(3) show ?thesis by blast
qed

text \<open>C12. Exec output refines a byte-stream exchange: over any run the outputs a session takes are
  contiguous per stream from the command on, their combined length stays within 65536 bytes, an exit
  is taken only with the exact lengths, and the counters of the session are the lengths received.\<close>
theorem v2_exec_output_refines:
  assumes "v2_new b attempt = Inr s0" "run_of v2_call s0 tr s"
  shows "\<exists>log. exec_specs tr None = Some log \<and> exec_abs log s"
  using assms(2)
proof (induction rule: run_of.induct)
  case run_nil
  then show ?case using assms(1) by (auto simp: exec_abs_def v2_new_def rbind_Inr_iff)
next
  case (run_snoc tr t e u)
  then obtain log where l: "exec_specs tr None = Some log" "exec_abs log t" by blast
  have "v2_inv t" using v2_run_step [OF run_snoc.hyps(1) v2_new_inv [OF assms(1)]] by blast
  then obtain log' where "exec_spec e log = Some log'" "exec_abs log' u"
    using v2_call_refines [OF run_snoc.hyps(2) l(2)] by blast
  with l show ?case by (simp add: exec_specs_append)
qed

theorem v2_exec_output_refines_witness: "\<exists>tr kid. tr \<noteq> [] \<and> exec_specs tr None = Some None \<and> s2_exec (q4 kid) = None"
proof -
  obtain tr kid env where r: "run_of v2_call q0 tr (q4 kid)" "Took env \<in> set tr" using run_ready by blast
  then obtain log where log: "exec_specs tr None = Some log" "exec_abs log (q4 kid)"
    using v2_exec_output_refines [OF sample_new r(1)] by blast
  have "s2_exec (q4 kid) = None" by (simp add: q0_def q1_def q2_def q3_def q4_def)
  with log have "log = None" by (auto simp: exec_abs_def split: option.splits)
  moreover have "tr \<noteq> []" using r(2) by auto
  ultimately show ?thesis using log(1) \<open>s2_exec (q4 kid) = None\<close> by blast
qed

end
