(* ===== verification/Control_V2_Boundary.thy ===== *)
theory Control_V2_Boundary imports Main Control_V2_Props begin

text \<open>
  The boundary acknowledgement of protocol v2: where a refusal is atomic, and two runs in which
  a guest message between BOUNDARY_ACK and RECONNECT breaks what the session promises.
\<close>

section \<open>Refusals\<close>

text \<open>C15. A boundary acknowledgement that is refused while the session is key-ack-sent, ready or
  stop-sent leaves the session exactly as it was.\<close>
theorem v2_boundary_refusal_atomic:
  assumes "v2_env_valid env" "v2_admit_boundary env line s = (s', Inl x)" "s2_state s \<in> {S_key_ack_sent, S_ready, S_stop_sent}"
  shows "s' = s"
  using assms(2)
proof (cases rule: admit_boundary_cases)
  case (2 b e)
  note g = boundary_guards_Inr [OF 2(1)]
  then have ok: "lifecycle_ok (bd_lifecycle b)"
    using assms(1) by (auto simp: v2_env_valid_def v2_valid_def v2_payload_ok_def boundary_ok_def)
  let ?l = "bd_lifecycle b"
  from 2 have late: "lc_state ?l \<in> {Snap_stopping, Snap_terminal}" "lc_stop ?l \<noteq> None" "lc_stop ?l = s2_stop s"
    "bd_last_h2g b \<notin> set (s2_stop_cands s)" "\<not> above_all (bd_last_h2g b) (s2_stop_cands s)"
    by (cases "s2_stop s"; auto simp: boundary_stop_cands_def Let_def boundary_frame split: if_splits)+
  have "boundary_checks env line (ev_body env) b s \<noteq> Inl y" for y
  proof
    assume "boundary_checks env line (ev_body env) b s = Inl y"
    then have "s' = s" using assms(2) 2(1) by (simp add: v2_admit_boundary_def)
    moreover have "s2_epoch s' = s2_epoch s + 1" using 2(2) g by (simp add: boundary_write_def)
    ultimately show False by simp
  qed
  then obtain da where c: "boundary_checks env line (ev_body env) b s = Inr da"
    by (cases "boundary_checks env line (ev_body env) b s") auto
  then obtain allowed ws acc where e: "boundary_expect (ev_body env) b s = Inr (allowed, ws, acc)" and "allowed" "bd_last_h2g b \<in> set ws"
    by (auto simp: boundary_checks_def rbind_Inr_iff split: if_splits)
  moreover have "\<not> natural_terminal ?l" "lc_state ?l \<noteq> Snap_ready" using late by (auto simp: natural_terminal_def)
  ultimately have "s2_state s = S_stop_sent" "bd_last_h2g b \<in> set (snd (expect_stop_sent ?l s))"
    using assms(3) late by (auto simp: boundary_expect_def Let_def split: prod.splits)
  with late have False by (auto simp: expect_stop_sent_def split: if_splits)
  then show ?thesis ..
next
  case 1
  then show ?thesis by simp
next
  case 3
  then show ?thesis by simp
qed

theorem v2_boundary_refusal_atomic_witness:
  "\<exists>x. v2_admit_boundary sample_v2_env [] (q4 []) = (q4 [], Inl x) \<and> s2_state (q4 []) = S_ready"
proof -
  have st: "s2_state (q4 []) = S_ready" "s2_exec (q4 []) = None" "s2_key (q4 []) = Some k0" "s2_boot (q4 []) = Some sample_uuid"
    by (simp_all add: q0_def q1_def q2_def q3_def q4_def)
  have "m2_kind (ev_body sample_v2_env) = V2_HELLO" by (simp add: sample_v2_env_def sample_v2_hello_def)
  then obtain s' x where "v2_admit_boundary sample_v2_env [] (q4 []) = (s', Inl x)"
    by (simp add: v2_admit_boundary_def boundary_guards_def st verify_message_authentication_def)
  with v2_boundary_refusal_atomic [OF sample_v2_env_valid this] st show ?thesis by auto
qed

section \<open>Boundary envelopes of the sample session\<close>

definition bd0 :: "ustr \<Rightarrow> int \<Rightarrow> int \<Rightarrow> lifecycle \<Rightarrow> int \<Rightarrow> ustr \<Rightarrow> boundary" where
  "bd0 i h2g g2h l prev sd = \<lparr>bd_id = i, bd_header_bytes = 0, bd_payload_bytes = 0, bd_payload_expected = 0, bd_last_h2g = h2g,
     bd_last_g2h = g2h, bd_lifecycle = l, bd_previous_epoch = prev, bd_state_digest = sd\<rparr>"

lemma bd0_sel [simp]:
  "bd_id (bd0 i h g l p sd) = i" "bd_last_h2g (bd0 i h g l p sd) = h" "bd_last_g2h (bd0 i h g l p sd) = g"
  "bd_lifecycle (bd0 i h g l p sd) = l" "bd_previous_epoch (bd0 i h g l p sd) = p"
  by (simp_all add: bd0_def)

definition l_ready :: lifecycle where "l_ready = \<lparr>lc_state = Snap_ready, lc_stop = None, lc_terminal = JNull\<rparr>"

definition sample_end :: terminal where "sample_end = \<lparr>t_exit = Some 0, t_signal = None\<rparr>"

definition l_stopped :: lifecycle where
  "l_stopped = \<lparr>lc_state = Snap_terminal, lc_stop = Some 2, lc_terminal = terminal_json sample_end\<rparr>"

lemma sample_end_ok: "valid_terminal sample_end"
  by (simp add: sample_end_def valid_terminal_def)

lemma l_ok: "lifecycle_ok l_ready" "lifecycle_ok l_stopped"
  using sample_end_ok by (auto simp: lifecycle_ok_def l_ready_def l_stopped_def counter_ok_def max_counter_def)

lemma state_digest_total:
  assumes "lifecycle_ok l"
  shows "\<exists>d. lifecycle_state_digest (JStr (ul (snap_name (lc_state l)))) (jint (lc_stop l)) (lc_terminal l) = Inr d"
proof -
  obtain t where c: "check_lifecycle (JStr (ul (snap_name (lc_state l)))) (jint (lc_stop l)) (lc_terminal l)
      = Inr (lc_state l, lc_stop l, t)" using check_lifecycle_ok [OF assms] by blast
  have "valid_terminal x" if "t = Some x" for x
    using c that by (auto simp: check_lifecycle_def rbind_Inr_iff v2_terminal_def split: if_splits dest: terminal_field_valid)
  then have "json_ok (public_state_json (lc_state l, lc_stop l, t))"
    using lifecycle_json_ok [OF assms] by (auto simp: public_state_json_def terminal_json_ok split: option.splits)
  then obtain b where "canonical_json_bytes (public_state_json (lc_state l, lc_stop l, t)) = Some b"
    using canonical_json_bytes_total by blast
  with c show ?thesis by (simp add: lifecycle_state_digest_def sha256_json_def)
qed

lemma boundary_env:
  assumes "lifecycle_ok l" "is_uuid i" "0 \<le> h2g" "h2g \<le> 9" "1 \<le> w" "w \<le> 9" "1 \<le> prev" "prev \<le> 8"
  obtains sd e line dg where "ev_body e = g_msg V2_BOUNDARY_ACK (P2_boundary (bd0 i h2g w l prev sd)) (prev + 1) w (Some 1)"
    "v2_env_valid e" "verify_message_authentication e k0 console_carrier = Inr ()" "encode_boundary_line e = Inr line"
    "json_bytes (v2_envelope_json e) = Inr dg"
proof -
  obtain sd where sd: "lifecycle_state_digest (JStr (ul (snap_name (lc_state l)))) (jint (lc_stop l)) (lc_terminal l) = Inr sd"
    using state_digest_total [OF assms(1)] by blast
  let ?m = "g_msg V2_BOUNDARY_ACK (P2_boundary (bd0 i h2g w l prev sd)) (prev + 1) w (Some 1)"
  have v: "v2_valid ?m"
    by (rule g_msg_valid) (use assms sd in \<open>simp_all add: v2_payload_ok_def boundary_ok_def bd0_def parser_state_ok_def
      max_counter_def counter_ok_def\<close>)
  have c: "carrier_of ?m = console_carrier" by (simp add: carrier_of_def)
  obtain e where e: "sign_message ?m k0 console_carrier = Inr e" "ev_body e = ?m" "v2_env_valid e"
    using sign_total [OF v _ k0_len] c by auto
  then have ver: "verify_message_authentication e k0 console_carrier = Inr ()" by (simp add: verify_iff_sign)
  have "json_ok (v2_envelope_json e)"
    using v2_to_dict_ok [OF v] e(2,3) by (auto simp: v2_envelope_json_def v2_env_valid_def ok_hex)
  then obtain b where b: "json_bytes (v2_envelope_json e) = Inr b" using json_bytes_total by blast
  then have "encode_boundary_line e = Inr (boundary_prefix @ b @ [10])"
    using e(2) by (simp add: encode_boundary_line_def validate_carrier_kind_def)
  with that e ver b show ?thesis by blast
qed

section \<open>A late refusal\<close>

definition q6 :: "ustr \<Rightarrow> ustr \<Rightarrow> v2_session" where
  "q6 kid d = (q5 kid)\<lparr>s2_used_boundaries := [sample_uuid], s2_epoch := 2, s2_guest_wire := 3, s2_accepted_wire := 2,
     s2_stop_cands := [], s2_boundary := Some (sample_uuid, d), s2_boundary_state := Some l_ready\<rparr>"

definition q7 :: "ustr \<Rightarrow> ustr \<Rightarrow> v2_session" where
  "q7 kid d = (q6 kid d)\<lparr>s2_guest_wire := 4, s2_accepted_wire := 3, s2_accepted_cands := Some [], s2_pending := None,
     s2_terminal := terminal_json sample_end, s2_terminal_stop := Some 2, s2_state := S_terminal\<rparr>"

lemmas q_defs = q0_def q1_def q2_def q3_def q4_def q5_def

lemma step_boundary_ready:
  assumes "ev_body e = g_msg V2_BOUNDARY_ACK (P2_boundary (bd0 sample_uuid 2 3 l_ready 1 sd)) 2 3 (Some 1)"
    "verify_message_authentication e k0 console_carrier = Inr ()" "encode_boundary_line e = Inr line"
    "json_bytes (v2_envelope_json e) = Inr b"
  shows "v2_admit_boundary e line (q5 kid) = (q6 kid (sha256_text b), Inr ())"
  using assms
  by (simp add: v2_admit_boundary_def boundary_guards_def boundary_checks_def boundary_expect_def expect_stop_sent_def
      boundary_of_def boundary_stop_cands_def boundary_commit_def boundary_write_def natural_terminal_def
      Let_def q_defs q6_def l_ready_def)

lemma step_terminal:
  assumes "ev_body e = g_msg V2_TERMINAL (P2_terminal sample_end) 2 4 (Some 2)"
    "verify_message_authentication e k0 channel_carrier = Inr ()"
  shows "v2_accept e (q6 kid d) = (q7 kid d, Inr ())"
  using assms
  by (simp add: v2_accept_def v2_accept_step_def accept_guards_def accept_lifecycle_def accept_commit_def above_all_def
      record_terminal_def reports_ready_def or_zero_def Let_def q_defs q6_def q7_def)

definition sample_uuid2 :: ustr where
  "sample_uuid2 = ul ''11234567-89ab-4cde-8f01-23456789abcd''"

lemma sample_uuid2_ok: "is_uuid sample_uuid2" and sample_uuid2_new: "sample_uuid2 \<noteq> sample_uuid"
  by (simp_all add: sample_uuid2_def sample_uuid_def is_uuid_def uuid_shape_def ul_def is_hex_lower_def numeral_eq_Suc)

lemma step_boundary_stopped:
  assumes "ev_body e = g_msg V2_BOUNDARY_ACK (P2_boundary (bd0 sample_uuid2 3 5 l_stopped 2 sd)) 3 5 (Some 1)"
    "verify_message_authentication e k0 console_carrier = Inr ()" "encode_boundary_line e = Inr line"
    "json_bytes (v2_envelope_json e) = Inr b"
  shows "\<exists>s' x. v2_admit_boundary e line (q7 kid d) = (s', Inl x) \<and> s2_epoch s' = 3 \<and> s2_guest_wire s' = 5"
  using assms sample_uuid2_new
  by (simp add: v2_admit_boundary_def boundary_guards_def boundary_checks_def boundary_expect_def expect_terminal_def
      boundary_of_def boundary_stop_cands_def boundary_write_def natural_terminal_def above_all_def json_same_def
      Let_def q_defs q6_def q7_def l_stopped_def)

text \<open>C16. A refusal that is not atomic: a run of a new session reaches the terminal state, with epoch 2,
  after a guest ended between BOUNDARY_ACK and RECONNECT; the next authentic boundary acknowledgement is
  refused, and yet the epoch and the guest wire counter of the session have moved, so the same
  acknowledgement can never be admitted.\<close>
theorem v2_boundary_late_refusal:
  "\<exists>tr s env line s' x. run_of v2_call q0 tr s \<and> v2_env_valid env \<and> s2_state s = S_terminal \<and>
     v2_admit_boundary env line s = (s', Inl x) \<and> s2_epoch s' = s2_epoch s + 1 \<and> s2_guest_wire s < s2_guest_wire s'"
proof -
  obtain tr kid where r: "run_of v2_call q0 tr (q5 kid)" using run_stopped by blast
  obtain sd e1 line1 b where e1: "ev_body e1 = g_msg V2_BOUNDARY_ACK (P2_boundary (bd0 sample_uuid 2 3 l_ready 1 sd)) (1 + 1) 3 (Some 1)"
    "v2_env_valid e1" "verify_message_authentication e1 k0 console_carrier = Inr ()" "encode_boundary_line e1 = Inr line1"
    "json_bytes (v2_envelope_json e1) = Inr b"
    by (rule boundary_env [of l_ready sample_uuid 2 3 1]) (simp_all add: l_ok sample_uuid_ok)
  have "v2_call (q5 kid) (Took e1) (q6 kid (sha256_text b))"
    using v2_call.boundary [OF e1(2) step_boundary_ready [of e1 sd line1 b kid]] e1 by simp
  with r have r6: "run_of v2_call q0 (tr @ [Took e1]) (q6 kid (sha256_text b))" by (rule run_of.run_snoc)
  have "v2_valid (g_msg V2_TERMINAL (P2_terminal sample_end) 2 4 (Some 2))"
    by (rule g_msg_valid) (simp_all add: v2_payload_ok_def counter_ok_def max_counter_def sample_end_ok)
  then obtain e2 where e2: "ev_body e2 = g_msg V2_TERMINAL (P2_terminal sample_end) 2 4 (Some 2)" "v2_env_valid e2"
    "verify_message_authentication e2 k0 channel_carrier = Inr ()"
    using guest_env by (metis g_msg_sel(1) v2_kind.distinct)
  have "v2_call (q6 kid (sha256_text b)) (Took e2) (q7 kid (sha256_text b))"
    using v2_call.accept [OF e2(2) step_terminal [OF e2(1,3)]] by simp
  with r6 have r7: "run_of v2_call q0 ((tr @ [Took e1]) @ [Took e2]) (q7 kid (sha256_text b))" by (rule run_of.run_snoc)
  obtain sd3 e3 line3 b3 where e3: "ev_body e3 = g_msg V2_BOUNDARY_ACK (P2_boundary (bd0 sample_uuid2 3 5 l_stopped 2 sd3)) (2 + 1) 5 (Some 1)"
    "v2_env_valid e3" "verify_message_authentication e3 k0 console_carrier = Inr ()" "encode_boundary_line e3 = Inr line3"
    "json_bytes (v2_envelope_json e3) = Inr b3"
    by (rule boundary_env [of l_stopped sample_uuid2 3 5 2]) (simp_all add: l_ok sample_uuid2_ok)
  obtain s' x where "v2_admit_boundary e3 line3 (q7 kid (sha256_text b)) = (s', Inl x)" "s2_epoch s' = 3" "s2_guest_wire s' = 5"
    using step_boundary_stopped [of e3 sd3 line3 b3 kid "sha256_text b"] e3 by auto
  moreover have "s2_state (q7 kid (sha256_text b)) = S_terminal" "s2_epoch (q7 kid (sha256_text b)) = 2"
    "s2_guest_wire (q7 kid (sha256_text b)) = 4" by (simp_all add: q7_def q6_def)
  ultimately show ?thesis using r7 e3(2) by fastforce
qed

end
