(* ===== verification/Control_V2_Final.thy ===== *)
theory Control_V2_Final imports Main Control_V2_Boundary begin

text \<open>
  Finality of the terminal outcome in protocol v2. A guest that keeps silent between its
  BOUNDARY_ACK and the RECONNECT cannot make the session forget or change a recorded outcome;
  a guest that does not can bring an ended session back to the ready state.
\<close>

section \<open>The outcome\<close>

definition outcome_of :: "v2_session \<Rightarrow> lifecycle \<Rightarrow> bool" where
  "outcome_of s l \<longleftrightarrow> lc_state l = Snap_terminal \<and> lc_stop l = s2_terminal_stop s \<and> lc_terminal l = s2_terminal s"

definition v2_outcome_inv :: "v2_session \<Rightarrow> bool" where
  "v2_outcome_inv s \<longleftrightarrow>
     (s2_boundary s = None) = (s2_boundary_state s = None) \<and>
     (\<forall>l. s2_boundary_state s = Some l \<longrightarrow> lifecycle_ok l) \<and> (\<forall>l. s2_expected s = Some l \<longrightarrow> lifecycle_ok l) \<and>
     (s2_terminal s = JNull \<or> (\<exists>t. s2_terminal s = terminal_json t)) \<and>
     (s2_terminal s \<noteq> JNull \<longrightarrow> s2_state s \<in> {S_terminal, S_reconnect_sent}) \<and>
     (s2_state s = S_terminal \<longrightarrow> s2_terminal s \<noteq> JNull \<and> (\<forall>l. s2_boundary_state s = Some l \<longrightarrow> outcome_of s l)) \<and>
     (s2_state s = S_reconnect_sent \<and> s2_terminal s \<noteq> JNull \<longrightarrow> (\<exists>l. s2_expected s = Some l \<and> outcome_of s l))"

definition outcome_kept :: "v2_session \<Rightarrow> v2_session \<Rightarrow> bool" where
  "outcome_kept s t \<longleftrightarrow>
     (s2_terminal s \<noteq> JNull \<longrightarrow> s2_terminal t = s2_terminal s \<and> s2_terminal_stop t = s2_terminal_stop s)"

lemma lifecycle_terminal_json: "lifecycle_ok l \<Longrightarrow> lc_state l = Snap_terminal \<Longrightarrow> \<exists>t. lc_terminal l = terminal_json t"
  by (auto simp: lifecycle_ok_def)

lemma json_same_terminal: "json_same (terminal_json t) (terminal_json u) \<longleftrightarrow> terminal_json t = terminal_json u"
  by (simp add: json_same_def)

lemma lifecycle_same_eq: "lifecycle_ok l \<Longrightarrow> lifecycle_ok p \<Longrightarrow> lifecycle_same l p \<Longrightarrow> l = p"
  by (auto simp: lifecycle_ok_def lifecycle_same_def json_same_def)

text \<open>A request of the host that leaves the outcome and the boundary alone.\<close>

lemma outcome_host:
  assumes "v2_outcome_inv s" "s2_boundary t = s2_boundary s" "s2_boundary_state t = s2_boundary_state s"
    "s2_expected t = s2_expected s" "s2_terminal t = s2_terminal s" "s2_terminal_stop t = s2_terminal_stop s"
    "s2_state t = s2_state s \<or> s2_state s \<notin> {S_terminal, S_reconnect_sent} \<and> s2_state t \<notin> {S_terminal, S_reconnect_sent}"
  shows "v2_outcome_inv t"
  using assms unfolding v2_outcome_inv_def outcome_of_def by auto

lemma outcome_hello: "v2_hello p s = (t, r) \<Longrightarrow> v2_outcome_inv s \<Longrightarrow> v2_outcome_inv t \<and> outcome_kept s t"
proof (rule conjI)
  assume h: "v2_hello p s = (t, r)" and i: "v2_outcome_inv s"
  have "s2_boundary t = s2_boundary s \<and> s2_boundary_state t = s2_boundary_state s \<and> s2_expected t = s2_expected s \<and>
    s2_terminal t = s2_terminal s \<and> s2_terminal_stop t = s2_terminal_stop s \<and>
    (s2_state t = s2_state s \<or> s2_state s = S_new \<and> s2_state t = S_hello_sent)"
    using h by (auto simp: v2_hello_def Let_def dest!: fresh_nonce_frame split: if_splits sum.splits)
  then show "v2_outcome_inv t" "outcome_kept s t" using outcome_host [OF i, of t] by (auto simp: outcome_kept_def)
qed

lemma outcome_key_ack: "v2_key_ack s = (t, r) \<Longrightarrow> v2_outcome_inv s \<Longrightarrow> v2_outcome_inv t \<and> outcome_kept s t"
proof (rule conjI)
  assume h: "v2_key_ack s = (t, r)" and i: "v2_outcome_inv s"
  have "s2_boundary t = s2_boundary s \<and> s2_boundary_state t = s2_boundary_state s \<and> s2_expected t = s2_expected s \<and>
    s2_terminal t = s2_terminal s \<and> s2_terminal_stop t = s2_terminal_stop s \<and>
    (s2_state t = s2_state s \<or> s2_state s = S_bootstrap \<and> s2_state t = S_key_ack_sent)"
    using h by (auto simp: v2_key_ack_def Let_def split: if_splits sum.splits option.splits)
  then show "v2_outcome_inv t" "outcome_kept s t" using outcome_host [OF i, of t] by (auto simp: outcome_kept_def)
qed

lemma outcome_exec: "v2_exec a m s = (t, r) \<Longrightarrow> v2_outcome_inv s \<Longrightarrow> v2_outcome_inv t \<and> outcome_kept s t"
proof (rule conjI)
  assume h: "v2_exec a m s = (t, r)" and i: "v2_outcome_inv s"
  have "s2_boundary t = s2_boundary s \<and> s2_boundary_state t = s2_boundary_state s \<and> s2_expected t = s2_expected s \<and>
    s2_terminal t = s2_terminal s \<and> s2_terminal_stop t = s2_terminal_stop s \<and> s2_state t = s2_state s"
    using h by (auto simp: v2_exec_def Let_def split: if_splits sum.splits option.splits)
  then show "v2_outcome_inv t" "outcome_kept s t" using outcome_host [OF i, of t] by (auto simp: outcome_kept_def)
qed

lemma outcome_stop: "v2_stop s = (t, r) \<Longrightarrow> v2_outcome_inv s \<Longrightarrow> v2_outcome_inv t \<and> outcome_kept s t"
proof (rule conjI)
  assume h: "v2_stop s = (t, r)" and i: "v2_outcome_inv s"
  have "s2_boundary t = s2_boundary s \<and> s2_boundary_state t = s2_boundary_state s \<and> s2_expected t = s2_expected s \<and>
    s2_terminal t = s2_terminal s \<and> s2_terminal_stop t = s2_terminal_stop s \<and>
    (s2_state t = s2_state s \<or> s2_state s = S_ready \<and> s2_state t = S_stop_sent)"
    using h by (auto simp: v2_stop_def stop_wire_out_def Let_def split: if_splits sum.splits option.splits)
  then show "v2_outcome_inv t" "outcome_kept s t" using outcome_host [OF i, of t] by (auto simp: outcome_kept_def)
qed

lemma outcome_retry_stop: "v2_retry_stop s = (t, r) \<Longrightarrow> v2_outcome_inv s \<Longrightarrow> v2_outcome_inv t \<and> outcome_kept s t"
proof (rule conjI)
  assume h: "v2_retry_stop s = (t, r)" and i: "v2_outcome_inv s"
  have "s2_boundary t = s2_boundary s \<and> s2_boundary_state t = s2_boundary_state s \<and> s2_expected t = s2_expected s \<and>
    s2_terminal t = s2_terminal s \<and> s2_terminal_stop t = s2_terminal_stop s \<and> s2_state t = s2_state s"
    using h by (auto simp: v2_retry_stop_def stop_wire_out_def Let_def split: if_splits sum.splits option.splits)
  then show "v2_outcome_inv t" "outcome_kept s t" using outcome_host [OF i, of t] by (auto simp: outcome_kept_def)
qed

lemma outcome_reconnect:
  assumes "v2_reconnect p s = (t, r)" "v2_outcome_inv s"
  shows "v2_outcome_inv t \<and> outcome_kept s t"
proof -
  consider "s2_boundary t = s2_boundary s \<and> s2_boundary_state t = s2_boundary_state s \<and> s2_expected t = s2_expected s \<and>
      s2_terminal t = s2_terminal s \<and> s2_terminal_stop t = s2_terminal_stop s \<and> s2_state t = s2_state s"
    | "s2_boundary s \<noteq> None" "s2_boundary t = None" "s2_boundary_state t = None" "s2_expected t = s2_boundary_state s"
      "s2_terminal t = s2_terminal s" "s2_terminal_stop t = s2_terminal_stop s" "s2_state t = S_reconnect_sent"
      "s2_state s \<in> {S_ready, S_stop_sent, S_terminal}"
    using assms(1)
    by (auto simp: v2_reconnect_def Let_def dest!: fresh_nonce_frame split: if_splits sum.splits option.splits prod.splits)
  then show ?thesis
  proof cases
    case 1
    then show ?thesis using outcome_host [OF assms(2), of t] by (auto simp: outcome_kept_def)
  next
    case 2
    then show ?thesis
      using assms(2) unfolding v2_outcome_inv_def outcome_kept_def outcome_of_def by auto
  qed
qed

section \<open>Guest messages\<close>

lemma boundary_commit_outcome:
  "s2_boundary (boundary_commit m b d a s) = Some (bd_id b, d)"
  "s2_boundary_state (boundary_commit m b d a s) = Some (bd_lifecycle b)"
  "s2_expected (boundary_commit m b d a s) = (if s2_state s = S_reconnect_sent then None else s2_expected s)"
  "s2_terminal (boundary_commit m b d a s) =
     (if s2_state s \<in> {S_key_ack_sent, S_reconnect_sent} \<and> lc_state (bd_lifecycle b) = Snap_terminal
      then lc_terminal (bd_lifecycle b) else s2_terminal s)"
  "s2_terminal_stop (boundary_commit m b d a s) =
     (if lc_state (bd_lifecycle b) = Snap_terminal
      then (if s2_state s = S_key_ack_sent then None else if s2_state s = S_reconnect_sent then lc_stop (bd_lifecycle b)
            else s2_terminal_stop s) else s2_terminal_stop s)"
  by (auto simp: boundary_commit_def Let_def)

lemma boundary_write_outcome:
  "s2_boundary (boundary_write m b s) = s2_boundary s" "s2_boundary_state (boundary_write m b s) = s2_boundary_state s"
  "s2_expected (boundary_write m b s) = s2_expected s" "s2_terminal (boundary_write m b s) = s2_terminal s"
  "s2_terminal_stop (boundary_write m b s) = s2_terminal_stop s" "s2_state (boundary_write m b s) = s2_state s"
  by (simp_all add: boundary_write_def)

lemma boundary_checks_allowed:
  assumes "boundary_checks env line m b s = Inr da"
  shows "\<exists>ws acc. boundary_expect m b s = Inr (True, ws, acc)"
  using assms by (auto simp: boundary_checks_def rbind_Inr_iff split: if_splits)

lemma allowed_terminal:
  "boundary_expect m b s = Inr (True, ws, acc) \<Longrightarrow> s2_state s = S_terminal \<Longrightarrow>
     lc_state (bd_lifecycle b) = Snap_terminal \<and> lc_stop (bd_lifecycle b) = s2_terminal_stop s \<and>
     json_same (lc_terminal (bd_lifecycle b)) (s2_terminal s)"
  by (simp add: boundary_expect_def expect_terminal_def Let_def)

lemma allowed_key_ack:
  "boundary_expect m b s = Inr (True, ws, acc) \<Longrightarrow> s2_state s = S_key_ack_sent \<Longrightarrow>
     lc_state (bd_lifecycle b) = Snap_ready \<and> lc_stop (bd_lifecycle b) = None \<or> natural_terminal (bd_lifecycle b)"
  by (simp add: boundary_expect_def Let_def)

lemma allowed_reconnect:
  "boundary_expect m b s = Inr (True, ws, acc) \<Longrightarrow> s2_state s = S_reconnect_sent \<Longrightarrow> s2_expected s = Some p \<Longrightarrow>
     lc_state p = Snap_terminal \<Longrightarrow> lifecycle_same (bd_lifecycle b) p"
  by (simp add: boundary_expect_def expect_reconnect_def Let_def split: if_splits)

lemma outcome_boundary:
  assumes "v2_admit_boundary env line s = (t, r)" "v2_env_valid env" "v2_outcome_inv s"
  shows "v2_outcome_inv t \<and> outcome_kept s t"
  using assms(1)
proof (cases rule: admit_boundary_cases)
  case (1 e)
  then show ?thesis using assms(3) by (simp add: outcome_kept_def)
next
  case (2 b e)
  then show ?thesis
    using outcome_host [OF assms(3), of t] by (auto simp: outcome_kept_def boundary_write_outcome)
next
  case (3 b d a cands)
  note g = boundary_guards_Inr [OF 3(1)]
  let ?l = "bd_lifecycle b" and ?s1 = "(boundary_write (ev_body env) b s)\<lparr>s2_stop_cands := cands\<rparr>"
  have ok: "lifecycle_ok ?l"
    using g assms(2) by (auto simp: v2_env_valid_def v2_valid_def v2_payload_ok_def boundary_ok_def)
  obtain ws acc where x: "boundary_expect (ev_body env) b s = Inr (True, ws, acc)" using boundary_checks_allowed [OF 3(3)] by blast
  have st: "s2_state ?s1 = s2_state s" "s2_terminal ?s1 = s2_terminal s" "s2_terminal_stop ?s1 = s2_terminal_stop s"
    "s2_expected ?s1 = s2_expected s" by (simp_all add: boundary_write_outcome)
  note f = boundary_commit_outcome [of "ev_body env" b d a ?s1] boundary_commit_state [of "ev_body env" b d a ?s1]
  show ?thesis
  proof (cases "s2_state s = S_terminal")
    case True
    then obtain u where u: "s2_terminal s = terminal_json u" using assms(3) by (auto simp: v2_outcome_inv_def)
    have l: "lc_state ?l = Snap_terminal" "lc_stop ?l = s2_terminal_stop s" "json_same (lc_terminal ?l) (s2_terminal s)"
      using allowed_terminal [OF x True] by auto
    then have "lc_terminal ?l = s2_terminal s" using lifecycle_terminal_json [OF ok] u json_same_terminal by auto
    then show ?thesis
      using True l ok assms(3) u 3(5) f st by (auto simp: v2_outcome_inv_def outcome_kept_def outcome_of_def)
  next
    case F: False
    show ?thesis
    proof (cases "s2_state s = S_reconnect_sent \<and> s2_terminal s \<noteq> JNull")
      case True
      then obtain p where p: "s2_expected s = Some p" "outcome_of s p" "lifecycle_ok p"
        using assms(3) by (auto simp: v2_outcome_inv_def)
      then have "?l = p" using allowed_reconnect [OF x] True lifecycle_same_eq [OF ok] by (auto simp: outcome_of_def)
      then show ?thesis
        using True p ok assms(3) 3(5) f st
        by (auto simp: v2_outcome_inv_def outcome_kept_def outcome_of_def host_state_of_def)
    next
      case False
      then have n: "s2_terminal s = JNull" using F assms(3) by (auto simp: v2_outcome_inv_def)
      have t: "\<exists>u. lc_terminal ?l = terminal_json u" if "lc_state ?l = Snap_terminal" using lifecycle_terminal_json [OF ok that] .
      have na: "lc_stop ?l = None" if "s2_state s = S_key_ack_sent" "lc_state ?l = Snap_terminal"
        using allowed_key_ack [OF x that(1)] that(2) by (auto simp: natural_terminal_def)
      have ns: "lc_state ?l \<noteq> Snap_stopping" if "s2_state s = S_key_ack_sent"
        using allowed_key_ack [OF x that] by (auto simp: natural_terminal_def)
      show ?thesis
      proof (cases "s2_state s \<in> {S_key_ack_sent, S_reconnect_sent}")
        case True
        then show ?thesis
          using n t na ns ok assms(3) 3(5) f st F
          by (cases "lc_state ?l")
            (auto simp: v2_outcome_inv_def outcome_kept_def outcome_of_def host_state_of_def)
      next
        case False
        then show ?thesis
          using n ok assms(3) 3(5) f st F by (auto simp: v2_outcome_inv_def outcome_kept_def outcome_of_def)
      qed
    qed
  qed
qed

lemma outcome_accept:
  assumes "v2_accept env s = (t, r)" "v2_env_valid env" "v2_outcome_inv s" "r = Inr () \<Longrightarrow> s2_boundary s = None"
  shows "v2_outcome_inv t \<and> outcome_kept s t"
  using assms(1)
proof (cases rule: accept_cases)
  case (refused e)
  then show ?thesis using assms(3) by (simp add: outcome_kept_def)
next
  case bootstrap
  have "s2_boundary t = s2_boundary s \<and> s2_boundary_state t = s2_boundary_state s \<and> s2_expected t = s2_expected s \<and>
    s2_terminal t = s2_terminal s \<and> s2_terminal_stop t = s2_terminal_stop s \<and> s2_state s = S_hello_sent \<and> s2_state t = S_bootstrap"
    using bootstrap(2) by (auto simp: accept_bootstrap_def Let_def rbind_Inr_iff split: if_splits)
  then show ?thesis using outcome_host [OF assms(3), of t] by (auto simp: outcome_kept_def)
next
  case exec
  note f = exec_frame_fields [of s t]
  have "exec_frame s t" using accept_exec_Inr [OF exec(3)] by blast
  then show ?thesis using outcome_host [OF assms(3), of t] f by (auto simp: outcome_kept_def)
next
  case (lifecycle st w cs u)
  have nb: "s2_boundary s = None" "s2_boundary_state s = None"
    using assms(3) assms(4) [OF lifecycle(1)] by (auto simp: v2_outcome_inv_def)
  have f: "s2_boundary t = s2_boundary u" "s2_boundary_state t = s2_boundary_state u" "s2_expected t = None"
    "s2_terminal t = s2_terminal u" "s2_terminal_stop t = s2_terminal_stop u" "s2_state t = st"
    using lifecycle(4) by (simp_all add: accept_commit_frame)
  from lifecycle(3) show ?thesis
  proof (cases rule: accept_lifecycle_cases)
    case ready
    then show ?thesis using f nb assms(3) by (auto simp: v2_outcome_inv_def outcome_kept_def)
  next
    case (snapshot l p)
    have ok: "lifecycle_ok l"
      using snapshot(2) assms(2) by (cases "m2_kind (ev_body env)") (auto simp: v2_env_valid_def v2_valid_def v2_payload_ok_def)
    have "lifecycle_ok p" using snapshot(3) assms(3) by (auto simp: v2_outcome_inv_def)
    then have lp: "l = p" using lifecycle_same_eq [OF ok] snapshot(4) by blast
    have out: "outcome_of s l" if "s2_terminal s \<noteq> JNull" using that snapshot(1,3) lp assms(3) by (auto simp: v2_outcome_inv_def)
    show ?thesis
    proof (cases "lc_state l = Snap_terminal")
      case True
      then obtain x where "lc_terminal l = terminal_json x" using lifecycle_terminal_json [OF ok] by blast
      with True snapshot f nb out show ?thesis
        by (auto simp: v2_outcome_inv_def outcome_kept_def outcome_of_def record_terminal_frame host_state_of_def)
    next
      case False
      then have "s2_terminal s = JNull" using out by (auto simp: outcome_of_def)
      with False snapshot f nb show ?thesis
        by (cases "lc_state l") (auto simp: v2_outcome_inv_def outcome_kept_def host_state_of_def)
    qed
  next
    case (terminal x stop)
    then have "s2_terminal s = JNull" using assms(3) by (auto simp: v2_outcome_inv_def)
    with terminal f nb show ?thesis
      by (auto simp: v2_outcome_inv_def outcome_kept_def record_terminal_frame)
  qed
qed

lemma quiet_step:
  assumes "v2_quiet s e t" "v2_outcome_inv s"
  shows "v2_outcome_inv t \<and> outcome_kept s t"
proof -
  have c: "v2_call s e t" using assms(1) by (simp add: v2_quiet_def)
  from c show ?thesis
  proof (cases rule: v2_call.cases)
    case (accept env r)
    show ?thesis
    proof (cases "m2_kind (ev_body env) = V2_BOUNDARY_ACK")
      case True
      from accept(3) show ?thesis
      proof (cases rule: accept_cases)
        case (lifecycle st w cs u)
        from lifecycle(3) True accept(2) have False
          by (cases rule: accept_lifecycle_cases) (auto simp: v2_env_valid_def v2_valid_def v2_payload_ok_def)
        then show ?thesis ..
      qed (use True assms(2) in \<open>simp_all add: outcome_kept_def\<close>)
    next
      case False
      have "r = Inr () \<Longrightarrow> s2_boundary s = None" using assms(1) accept(1) False by (auto simp: v2_quiet_def)
      then show ?thesis using outcome_accept [OF accept(3,2) assms(2)] by blast
    qed
  next
    case (hello p r)
    then show ?thesis using outcome_hello assms(2) by blast
  next
    case (key_ack r)
    then show ?thesis using outcome_key_ack assms(2) by blast
  next
    case (reconnect p r)
    then show ?thesis using outcome_reconnect assms(2) by blast
  next
    case (exec a m r)
    then show ?thesis using outcome_exec assms(2) by blast
  next
    case (stop r)
    then show ?thesis using outcome_stop assms(2) by blast
  next
    case (retry_stop r)
    then show ?thesis using outcome_retry_stop assms(2) by blast
  next
    case (boundary env line r)
    then show ?thesis using outcome_boundary assms(2) by blast
  qed
qed

section \<open>Finality\<close>

lemma quiet_run_outcome:
  assumes "run_of v2_quiet s tr t" "v2_outcome_inv s"
  shows "v2_outcome_inv t \<and> outcome_kept s t"
  using assms(1)
proof (induction rule: run_of.induct)
  case run_nil
  then show ?case using assms(2) by (simp add: outcome_kept_def)
next
  case (run_snoc tr t e u)
  then show ?case using quiet_step by (metis outcome_kept_def)
qed

lemma outcome_new: "v2_new b p = Inr s \<Longrightarrow> v2_outcome_inv s"
  by (auto simp: v2_new_def rbind_Inr_iff v2_outcome_inv_def)

text \<open>C11. The outcome is final: once a session with a quiet guest has recorded the terminal status, no
  further call, reconnects and boundary acknowledgements included, changes the status or its STOP
  attribution, and the session never leaves the terminal state but to reconnect.\<close>
theorem v2_outcome_final:
  assumes "v2_new b attempt = Inr s0" "run_of v2_quiet s0 tr s" "s2_terminal s \<noteq> JNull" "run_of v2_quiet s tr' t"
  shows "s2_terminal t = s2_terminal s \<and> s2_terminal_stop t = s2_terminal_stop s \<and>
    s2_state t \<in> {S_terminal, S_reconnect_sent}"
proof -
  have s: "v2_outcome_inv s" using quiet_run_outcome [OF assms(2) outcome_new [OF assms(1)]] by blast
  have t: "v2_outcome_inv t" "outcome_kept s t" using quiet_run_outcome [OF assms(4) s] by blast+
  with assms(3) have "s2_terminal t = s2_terminal s" "s2_terminal_stop t = s2_terminal_stop s"
    by (auto simp: outcome_kept_def)
  moreover from this assms(3) t(1) have "s2_state t \<in> {S_terminal, S_reconnect_sent}" by (simp add: v2_outcome_inv_def)
  ultimately show ?thesis by blast
qed

definition q4t :: "ustr \<Rightarrow> v2_session" where
  "q4t kid = (q4 kid)\<lparr>s2_guest_wire := 3, s2_terminal := terminal_json sample_end, s2_state := S_terminal\<rparr>"

lemma step_natural_end:
  assumes "ev_body e = g_msg V2_TERMINAL (P2_terminal sample_end) 1 3 None"
    "verify_message_authentication e k0 channel_carrier = Inr ()"
  shows "v2_accept e (q4 kid) = (q4t kid, Inr ())"
  using assms
  by (simp add: v2_accept_def v2_accept_step_def accept_guards_def accept_lifecycle_def accept_commit_def
      record_terminal_def reports_ready_def Let_def q_defs q4t_def)

theorem v2_outcome_final_witness:
  "\<exists>tr s t kid. run_of v2_quiet q0 tr s \<and> s2_terminal s = terminal_json sample_end \<and> v2_quiet s Idle t \<and>
     s2_terminal t = terminal_json sample_end \<and> s2_state (q4t kid) = S_terminal"
proof -
  obtain tr kid where r: "run_of v2_quiet q0 tr (q4 kid)" using run_ready_quiet by blast
  have "v2_valid (g_msg V2_TERMINAL (P2_terminal sample_end) 1 3 None)"
    by (rule g_msg_valid) (simp_all add: v2_payload_ok_def counter_ok_def max_counter_def sample_end_ok)
  then obtain e where e: "ev_body e = g_msg V2_TERMINAL (P2_terminal sample_end) 1 3 None" "v2_env_valid e"
    "verify_message_authentication e k0 channel_carrier = Inr ()"
    using guest_env by (metis g_msg_sel(1) v2_kind.distinct)
  have "s2_boundary (q4 kid) = None" by (simp add: q_defs)
  then have "v2_quiet (q4 kid) (Took e) (q4t kid)"
    using v2_call.accept [OF e(2) step_natural_end [OF e(1,3)]] by (simp add: v2_quiet_def)
  with r have r2: "run_of v2_quiet q0 (tr @ [Took e]) (q4t kid)" by (rule run_of.run_snoc)
  have t: "s2_terminal (q4t kid) = terminal_json sample_end" "s2_state (q4t kid) = S_terminal" by (simp_all add: q4t_def)
  have "v2_hello JNull (q4t kid) = (q4t kid, Inl (Refused ''session HELLO was already sent''))"
    by (simp add: v2_hello_def t)
  then have q: "v2_quiet (q4t kid) Idle (q4t kid)" using v2_call.hello by (fastforce simp: v2_quiet_def)
  then have "s2_terminal (q4t kid) = terminal_json sample_end"
    using v2_outcome_final [OF sample_new r2 _ run_of_step [of v2_quiet, OF q]] t(1) by simp
  with r2 t q show ?thesis by blast
qed

section \<open>A guest that is not quiet\<close>

definition r5 :: "ustr \<Rightarrow> ustr \<Rightarrow> v2_session" where
  "r5 kid d = (q4 kid)\<lparr>s2_used_boundaries := [sample_uuid], s2_epoch := 2, s2_guest_wire := 3, s2_accepted_wire := 2,
     s2_stop_cands := [], s2_boundary := Some (sample_uuid, d), s2_boundary_state := Some l_ready\<rparr>"

definition r6 :: "ustr \<Rightarrow> ustr \<Rightarrow> v2_session" where
  "r6 kid d = (r5 kid d)\<lparr>s2_guest_wire := 4, s2_terminal := terminal_json sample_end, s2_state := S_terminal\<rparr>"

definition sample_nonce2 :: ustr where
  "sample_nonce2 = ul ''1000000000000000000000000000000000000000000000000000000000000000''"

lemma sample_nonce2_ok: "is_hex32 sample_nonce2" and sample_nonce2_new: "sample_nonce2 \<noteq> sample_nonce"
  by (simp_all add: sample_nonce2_def sample_nonce_def is_hex32_def is_hex_lower_def ul_def)

definition r7 :: "ustr \<Rightarrow> ustr \<Rightarrow> v2_session" where
  "r7 kid d = (r6 kid d)\<lparr>s2_reconnect_from := Some S_terminal, s2_used_nonces := [sample_nonce2, sample_nonce],
     s2_request := 2, s2_nonce := Some sample_nonce2, s2_host_wire := 3, s2_pending := Some 2, s2_pending_wire := Some 3,
     s2_boundary := None, s2_expected := Some l_ready, s2_boundary_state := None, s2_state := S_reconnect_sent, s2_opener := Some 2\<rparr>"

lemma step_boundary_live:
  assumes "ev_body e = g_msg V2_BOUNDARY_ACK (P2_boundary (bd0 sample_uuid 2 3 l_ready 1 sd)) 2 3 (Some 1)"
    "verify_message_authentication e k0 console_carrier = Inr ()" "encode_boundary_line e = Inr line"
    "json_bytes (v2_envelope_json e) = Inr b"
  shows "v2_admit_boundary e line (q4 kid) = (r5 kid (sha256_text b), Inr ())"
  using assms
  by (simp add: v2_admit_boundary_def boundary_guards_def boundary_checks_def boundary_expect_def
      boundary_of_def boundary_stop_cands_def boundary_commit_def boundary_write_def natural_terminal_def
      Let_def q_defs r5_def l_ready_def)

lemma step_end_early:
  assumes "ev_body e = g_msg V2_TERMINAL (P2_terminal sample_end) 2 4 None"
    "verify_message_authentication e k0 channel_carrier = Inr ()"
  shows "v2_accept e (r5 kid d) = (r6 kid d, Inr ())"
  using assms
  by (simp add: v2_accept_def v2_accept_step_def accept_guards_def accept_lifecycle_def accept_commit_def
      record_terminal_def reports_ready_def Let_def q_defs r5_def r6_def)

lemma step_reconnect: "\<exists>r. v2_reconnect (JStr sample_nonce2) (r6 kid d) = (r7 kid d, r)"
  using sample_nonce2_new
  by (simp add: v2_reconnect_def fresh_nonce_def sample_nonce2_ok max_connections_def Let_def q_defs r5_def r6_def r7_def)

lemma step_boundary_again:
  assumes "ev_body e = g_msg V2_BOUNDARY_ACK (P2_boundary (bd0 sample_uuid2 2 5 l_ready 2 sd)) 3 5 (Some 1)"
    "verify_message_authentication e k0 console_carrier = Inr ()" "encode_boundary_line e = Inr line"
    "json_bytes (v2_envelope_json e) = Inr b"
  shows "\<exists>s'. v2_admit_boundary e line (r7 kid d) = (s', Inr ()) \<and> s2_state s' = S_ready \<and>
    s2_terminal s' = terminal_json sample_end"
  using assms sample_uuid2_new sample_nonce2_new
  by (simp add: v2_admit_boundary_def boundary_guards_def boundary_checks_def boundary_expect_def expect_reconnect_def
      boundary_of_def boundary_stop_cands_def boundary_commit_def boundary_write_def natural_terminal_def host_state_of_def
      or_zero_def Let_def q_defs r5_def r6_def r7_def l_ready_def)

text \<open>Without that discipline the outcome is not final: in a run of a new session whose guest sends
  TERMINAL between its BOUNDARY_ACK and the RECONNECT, the session goes from the terminal state back
  to the ready state, where it accepts new commands, with the terminal status still recorded.\<close>
theorem v2_terminal_regresses:
  "\<exists>tr s tr' t. run_of v2_call q0 tr s \<and> s2_state s = S_terminal \<and> run_of v2_call s tr' t \<and> s2_state t = S_ready \<and>
     s2_terminal s = terminal_json sample_end \<and> s2_terminal t = terminal_json sample_end"
proof -
  obtain tr kid env where r: "run_of v2_call q0 tr (q4 kid)" using run_ready by blast
  obtain sd e1 line1 b where e1: "ev_body e1 = g_msg V2_BOUNDARY_ACK (P2_boundary (bd0 sample_uuid 2 3 l_ready 1 sd)) (1 + 1) 3 (Some 1)"
    "v2_env_valid e1" "verify_message_authentication e1 k0 console_carrier = Inr ()" "encode_boundary_line e1 = Inr line1"
    "json_bytes (v2_envelope_json e1) = Inr b"
    by (rule boundary_env [of l_ready sample_uuid 2 3 1]) (simp_all add: l_ok sample_uuid_ok)
  let ?d = "sha256_text b"
  have "v2_call (q4 kid) (Took e1) (r5 kid ?d)"
    using v2_call.boundary [OF e1(2) step_boundary_live [of e1 sd line1 b kid]] e1 by simp
  with r have x5: "run_of v2_call q0 (tr @ [Took e1]) (r5 kid ?d)" by (rule run_of.run_snoc)
  have "v2_valid (g_msg V2_TERMINAL (P2_terminal sample_end) 2 4 None)"
    by (rule g_msg_valid) (simp_all add: v2_payload_ok_def counter_ok_def max_counter_def sample_end_ok)
  then obtain e2 where e2: "ev_body e2 = g_msg V2_TERMINAL (P2_terminal sample_end) 2 4 None" "v2_env_valid e2"
    "verify_message_authentication e2 k0 channel_carrier = Inr ()"
    using guest_env by (metis g_msg_sel(1) v2_kind.distinct)
  have "v2_call (r5 kid ?d) (Took e2) (r6 kid ?d)"
    using v2_call.accept [OF e2(2) step_end_early [OF e2(1,3)]] by simp
  with x5 have x6: "run_of v2_call q0 ((tr @ [Took e1]) @ [Took e2]) (r6 kid ?d)" by (rule run_of.run_snoc)
  obtain rr where "v2_reconnect (JStr sample_nonce2) (r6 kid ?d) = (r7 kid ?d, rr)" using step_reconnect by blast
  then have c7: "v2_call (r6 kid ?d) (sent_event rr) (r7 kid ?d)" by (rule v2_call.reconnect)
  obtain sd3 e3 line3 b3 where e3: "ev_body e3 = g_msg V2_BOUNDARY_ACK (P2_boundary (bd0 sample_uuid2 2 5 l_ready 2 sd3)) (2 + 1) 5 (Some 1)"
    "v2_env_valid e3" "verify_message_authentication e3 k0 console_carrier = Inr ()" "encode_boundary_line e3 = Inr line3"
    "json_bytes (v2_envelope_json e3) = Inr b3"
    by (rule boundary_env [of l_ready sample_uuid2 2 5 2]) (simp_all add: l_ok sample_uuid2_ok)
  obtain s' where s': "v2_admit_boundary e3 line3 (r7 kid ?d) = (s', Inr ())" "s2_state s' = S_ready"
    "s2_terminal s' = terminal_json sample_end"
    using step_boundary_again [of e3 sd3 line3 b3 kid ?d] e3 by auto
  have "v2_call (r7 kid ?d) (Took e3) s'" using v2_call.boundary [OF e3(2) s'(1)] by simp
  then have "run_of v2_call (r6 kid ?d) [sent_event rr, Took e3] s'"
    using c7 by (intro run_cons) (rule run_of.run_nil)
  moreover have "s2_state (r6 kid ?d) = S_terminal" "s2_terminal (r6 kid ?d) = terminal_json sample_end" by (simp_all add: r6_def)
  ultimately show ?thesis using x6 s' by blast
qed

end
