(* ===== verification/Runtime_Types.thy ===== *)
theory Runtime_Types imports Main Wire_Values begin

text \<open>
  The contracts of \<open>src/palimpsest_local/runtime_types.py\<close> that the process supervision
  modules share: runtime kinds and dispatch keys, the validated record of an existing run,
  process streams, signals and exits, and the result of a create operation. A dataclass
  constructor takes its arguments as values of any type (\<open>json\<close> here) where the code
  checks the type of a field, and as the Python type itself where only that type occurs.
\<close>

section \<open>Enumerations\<close>

datatype runtime_kind = CloudImage | OciRoot

datatype runtime_backend = Kvm | LibvirtHvf | LimaVz

datatype process_stream = Stdout | Stderr | Pty

fun stream_value :: "process_stream \<Rightarrow> string" where
  "stream_value Stdout = ''stdout''"
| "stream_value Stderr = ''stderr''"
| "stream_value Pty = ''pty''"

datatype process_signal = Interrupt | Terminate | Hangup

datatype exit_category = Exited | Signaled | Cancelled | TransportError

fun category_value :: "exit_category \<Rightarrow> string" where
  "category_value Exited = ''exited''"
| "category_value Signaled = ''signaled''"
| "category_value Cancelled = ''cancelled''"
| "category_value TransportError = ''transport-error''"

text \<open>
  \<open>Enum(value)\<close> of a \<open>StrEnum\<close>: the member with that text; any other value, hashable or
  not, raises \<open>ValueError\<close>.
\<close>

definition enum_of :: "('a \<Rightarrow> string) \<Rightarrow> 'a list \<Rightarrow> json \<Rightarrow> exn + 'a" where
  "enum_of val members v =
     (case v of
        JStr s \<Rightarrow> (case List.find (\<lambda>m. ul (val m) = s) members of None \<Rightarrow> Inl ValueErr | Some m \<Rightarrow> Inr m)
      | _ \<Rightarrow> Inl ValueErr)"

lemma enum_of_Inr:
  "enum_of val members v = Inr m \<Longrightarrow> v = JStr (ul (val m)) \<and> m \<in> set members"
  by (auto simp: enum_of_def find_Some_iff split: json.splits option.splits)

lemma enum_of_value:
  assumes "inj_on val (set members)" "m \<in> set members"
  shows "enum_of val members (JStr (ul (val m))) = Inr m"
proof -
  have "List.find (\<lambda>x. ul (val x) = ul (val m)) members = Some y \<Longrightarrow> y = m" for y
    using assms by (auto simp: find_Some_iff dest: inj_onD)
  moreover have "List.find (\<lambda>x. ul (val x) = ul (val m)) members \<noteq> None"
    using assms(2) by (auto simp: find_None_iff)
  ultimately show ?thesis by (auto simp: enum_of_def split: option.splits)
qed

definition stream_of :: "json \<Rightarrow> exn + process_stream" where
  "stream_of = enum_of stream_value [Stdout, Stderr, Pty]"

definition category_of :: "json \<Rightarrow> exn + exit_category" where
  "category_of = enum_of category_value [Exited, Signaled, Cancelled, TransportError]"

section \<open>Comparison with an integer\<close>

text \<open>\<open>value == i\<close> for an integer: booleans are 0 and 1, and a float may equal an integer.\<close>

definition num_eq :: "json \<Rightarrow> int \<Rightarrow> bool" where
  "num_eq v i =
     (case v of
        JInt j \<Rightarrow> j = i
      | JBool b \<Rightarrow> (if b then 1 else 0) = i
      | JFifteen \<Rightarrow> 15 = i
      | JFloat x \<Rightarrow> x = Some i
      | _ \<Rightarrow> False)"

section \<open>Process exits\<close>

record process_exit =
  pe_returncode :: int
  pe_exit_code :: json
  pe_signal :: json
  pe_category :: exit_category

definition process_exit_check :: "process_exit \<Rightarrow> exn option" where
  "process_exit_check p =
     (if 0 \<le> pe_returncode p then
        (if \<not> num_eq (pe_exit_code p) (pe_returncode p) \<or> pe_signal p \<noteq> JNull then Some ValueErr
         else if pe_category p \<notin> {Exited, Cancelled, TransportError} then Some ValueErr else None)
      else
        (if pe_exit_code p \<noteq> JNull \<or> \<not> num_eq (pe_signal p) (- pe_returncode p) then Some ValueErr
         else if pe_category p \<notin> {Signaled, Cancelled} then Some ValueErr else None))"

definition process_exit_init :: "json \<Rightarrow> json \<Rightarrow> json \<Rightarrow> exit_category \<Rightarrow> exn + process_exit" where
  "process_exit_init returncode exit_code signal_number category =
     (case returncode of
        JInt r \<Rightarrow>
          (let p = \<lparr>pe_returncode = r, pe_exit_code = exit_code, pe_signal = signal_number, pe_category = category\<rparr>
           in case process_exit_check p of None \<Rightarrow> Inr p | Some e \<Rightarrow> Inl e)
      | _ \<Rightarrow> Inl TypeErr)"

section \<open>Events of a process session\<close>

datatype process_event = OutputEvent process_stream bytes | StatusEvent process_exit

definition output_event_init :: "process_stream \<Rightarrow> bytes \<Rightarrow> exn + process_event" where
  "output_event_init stream data = (if data = [] then Inl ValueErr else Inr (OutputEvent stream data))"

section \<open>Existing runs\<close>

record dispatch_key =
  dk_kind :: runtime_kind
  dk_backend :: runtime_backend

definition allowed_combinations :: "(runtime_kind \<times> runtime_backend) list" where
  "allowed_combinations = [(CloudImage, Kvm), (CloudImage, LibvirtHvf), (CloudImage, LimaVz), (OciRoot, Kvm)]"

definition dispatch_key_init :: "runtime_kind \<Rightarrow> runtime_backend \<Rightarrow> exn + dispatch_key" where
  "dispatch_key_init k b =
     (if (k, b) \<in> set allowed_combinations then Inr \<lparr>dk_kind = k, dk_backend = b\<rparr> else Inl ValueErr)"

definition is_lower_alnum :: "int \<Rightarrow> bool" where
  "is_lower_alnum c \<longleftrightarrow> 97 \<le> c \<and> c \<le> 122 \<or> 48 \<le> c \<and> c \<le> 57"

definition is_run_name :: "ustr \<Rightarrow> bool" where
  "is_run_name s \<longleftrightarrow>
     s \<noteq> [] \<and> length s \<le> 63 \<and> is_lower_alnum (hd s) \<and> list_all (\<lambda>c. is_lower_alnum c \<or> c = 45) (tl s)"

record existing_run =
  er_name :: ustr
  er_run_id :: ustr
  er_schema :: int
  er_key :: dispatch_key

definition existing_run_init :: "json \<Rightarrow> json \<Rightarrow> json \<Rightarrow> dispatch_key \<Rightarrow> exn + existing_run" where
  "existing_run_init name run_id schema key =
     (case name of
        JStr n \<Rightarrow>
          if \<not> is_run_name n then Inl ValueErr
          else (case run_id of
                  JStr r \<Rightarrow>
                    if \<not> is_uuid r then Inl ValueErr
                    else if schema \<in> {JInt 1, JInt 2}
                    then Inr \<lparr>er_name = n, er_run_id = r, er_schema = (if schema = JInt 1 then 1 else 2), er_key = key\<rparr>
                    else Inl ValueErr
                | _ \<Rightarrow> Inl TypeErr)
      | _ \<Rightarrow> Inl ValueErr)"

section \<open>Process capabilities\<close>

record process_capabilities =
  pc_stdin :: bool
  pc_tty :: bool
  pc_resize :: bool
  pc_signal :: bool

definition capabilities_init :: "json \<Rightarrow> json \<Rightarrow> json \<Rightarrow> json \<Rightarrow> exn + process_capabilities" where
  "capabilities_init stdin tty resize signal =
     (case (stdin, tty, resize, signal) of
        (JBool a, JBool b, JBool c, JBool d) \<Rightarrow>
          if c \<and> \<not> b then Inl ValueErr else Inr \<lparr>pc_stdin = a, pc_tty = b, pc_resize = c, pc_signal = d\<rparr>
      | _ \<Rightarrow> Inl TypeErr)"

lemmas runtime_exec [exec] = enum_of_def stream_of_def category_of_def num_eq_def process_exit_check_def
  process_exit_init_def output_event_init_def allowed_combinations_def dispatch_key_init_def is_lower_alnum_def
  is_run_name_def existing_run_init_def capabilities_init_def

section \<open>What the constructors accept\<close>

text \<open>
  A process either exited with its code, or died of a signal: the return code says which,
  and it determines the other two fields up to Python's equality of numbers.
\<close>

definition process_exit_ok :: "process_exit \<Rightarrow> bool" where
  "process_exit_ok p \<longleftrightarrow> process_exit_check p = None"

lemma process_exit_init_ok:
  "process_exit_init r c s k = Inr p \<longleftrightarrow>
     (\<exists>i. r = JInt i) \<and> process_exit_ok p \<and> r = JInt (pe_returncode p) \<and> c = pe_exit_code p \<and> s = pe_signal p \<and> k = pe_category p"
  by (cases p) (auto simp: process_exit_init_def process_exit_ok_def Let_def split: json.splits option.splits)

lemma stream_of_value [simp]: "stream_of (JStr (ul (stream_value s))) = Inr s"
  unfolding stream_of_def by (rule enum_of_value) (cases s; auto simp: inj_on_def)+

lemma category_of_value [simp]: "category_of (JStr (ul (category_value c))) = Inr c"
  unfolding category_of_def by (rule enum_of_value) (cases c; auto simp: inj_on_def)+

lemma enum_texts [simp]:
  "stream_of (JStr (ul ''stdout'')) = Inr Stdout" "stream_of (JStr (ul ''stderr'')) = Inr Stderr"
  "stream_of JNull = Inl ValueErr" "category_of JNull = Inl ValueErr"
  "category_of (JStr (ul ''exited'')) = Inr Exited" "category_of (JStr (ul ''signaled'')) = Inr Signaled"
  by (simp_all add: stream_of_def category_of_def enum_of_def)

end
