(* ===== verification/Supervisor_Types.thy ===== *)
theory Supervisor_Types imports Main Runtime_Types Py_Json_Total Py_Base64 Py_Hash State_Exn begin

text \<open>
  The data of \<open>src/palimpsest_local/oci_supervisor.py\<close>: error categories, phases, record
  kinds, the identity of a supervised run, process incarnations, and journal records with
  their payloads (a JSON object per record, decoded strictly).
\<close>

section \<open>Enumerations and errors\<close>

datatype sup_category =
  InvalidIdentity | InvalidJournal | JournalCorrupt | JournalIo | InvalidTransition | NotReady
  | ReadinessFailed | ControlLost | AlreadyConsumed | SessionCapacity | ClosedError | UnauthorizedPeer
  | ProcessMismatch | JournalBusy | AdoptionForbidden

fun sup_category_value :: "sup_category \<Rightarrow> string" where
  "sup_category_value InvalidIdentity = ''invalid-identity''"
| "sup_category_value InvalidJournal = ''invalid-journal''"
| "sup_category_value JournalCorrupt = ''journal-corrupt''"
| "sup_category_value JournalIo = ''journal-io''"
| "sup_category_value InvalidTransition = ''invalid-transition''"
| "sup_category_value NotReady = ''not-ready''"
| "sup_category_value ReadinessFailed = ''readiness-failed''"
| "sup_category_value ControlLost = ''control-lost''"
| "sup_category_value AlreadyConsumed = ''already-consumed''"
| "sup_category_value SessionCapacity = ''session-capacity''"
| "sup_category_value ClosedError = ''closed''"
| "sup_category_value UnauthorizedPeer = ''unauthorized-peer''"
| "sup_category_value ProcessMismatch = ''process-mismatch''"
| "sup_category_value JournalBusy = ''journal-busy''"
| "sup_category_value AdoptionForbidden = ''adoption-forbidden''"

lemma sup_category_value_inj [simp]: "sup_category_value a = sup_category_value b \<longleftrightarrow> a = b"
  by (cases a; cases b; simp)

text \<open>
  What a method may raise: a \<open>SupervisorError\<close>, an \<open>OSError\<close> (\<open>FileNotFoundError\<close> apart),
  or a built-in exception of another class.
\<close>

datatype sup_exn = Sup sup_category | OsErr | OsMissing | PyErr exn

datatype sup_phase = PStarting | PReady | PExited | PReadinessFailed | PDegraded | PClosed

datatype record_kind = KReady | KOutput | KExit | KDegraded | KReadinessFailed

fun kind_value :: "record_kind \<Rightarrow> string" where
  "kind_value KReady = ''ready''"
| "kind_value KOutput = ''output''"
| "kind_value KExit = ''exit''"
| "kind_value KDegraded = ''degraded''"
| "kind_value KReadinessFailed = ''readiness-failed''"

definition kind_of :: "json \<Rightarrow> exn + record_kind" where
  "kind_of = enum_of kind_value [KReady, KOutput, KExit, KDegraded, KReadinessFailed]"

lemma kind_of_value [simp]: "kind_of (JStr (ul (kind_value k))) = Inr k"
  unfolding kind_of_def by (rule enum_of_value) (cases k; auto simp: inj_on_def)+

section \<open>Identity\<close>

record sup_identity =
  si_record :: existing_run
  si_generation :: ustr
  si_owner :: int

text \<open>\<open>SupervisorIdentity.__post_init__\<close>; \<open>euid\<close> is \<open>os.geteuid()\<close>.\<close>

definition sup_identity_init :: "int \<Rightarrow> existing_run \<Rightarrow> json \<Rightarrow> json \<Rightarrow> sup_exn + sup_identity" where
  "sup_identity_init euid r generation owner_uid =
     (if er_schema r \<noteq> 2 \<or> dk_kind (er_key r) \<noteq> OciRoot \<or> dk_backend (er_key r) \<noteq> Kvm \<or> owner_uid \<noteq> JInt euid
      then Inl (Sup InvalidIdentity)
      else case generation of
             JStr g \<Rightarrow> if is_uuid g then Inr \<lparr>si_record = r, si_generation = g, si_owner = euid\<rparr>
                       else Inl (Sup InvalidIdentity)
           | _ \<Rightarrow> Inl (Sup InvalidIdentity))"

text \<open>\<open>authorize_supervisor_peer\<close> of an identity; the claims may be any values.\<close>

definition authorize_supervisor_peer :: "sup_identity \<Rightarrow> json \<Rightarrow> json \<Rightarrow> json \<Rightarrow> bool" where
  "authorize_supervisor_peer i owner_uid run_id generation \<longleftrightarrow>
     owner_uid = JInt (si_owner i) \<and> run_id = JStr (er_run_id (si_record i)) \<and> generation = JStr (si_generation i)"

record process_incarnation =
  pi_pid :: int
  pi_boot_id :: ustr
  pi_start_ticks :: int

definition process_incarnation_init :: "json \<Rightarrow> json \<Rightarrow> json \<Rightarrow> exn + process_incarnation" where
  "process_incarnation_init pid boot_id start_ticks =
     (case pid of
        JInt p \<Rightarrow>
          if p \<le> 0 then Inl ValueErr
          else (case boot_id of
                  JStr b \<Rightarrow>
                    if b = [] \<or> 0 \<in> set b then Inl ValueErr
                    else (case start_ticks of
                            JInt t \<Rightarrow> if t < 0 then Inl ValueErr
                                      else Inr \<lparr>pi_pid = p, pi_boot_id = b, pi_start_ticks = t\<rparr>
                          | _ \<Rightarrow> Inl ValueErr)
                | _ \<Rightarrow> Inl ValueErr)
      | _ \<Rightarrow> Inl ValueErr)"

text \<open>An argument that is not a \<open>ProcessIncarnation\<close> is \<open>None\<close> here.\<close>

definition same_process_incarnation :: "process_incarnation option \<Rightarrow> process_incarnation option \<Rightarrow> bool" where
  "same_process_incarnation l r =
     (case (l, r) of
        (Some a, Some b) \<Rightarrow> pi_pid a = pi_pid b \<and> pi_boot_id a = pi_boot_id b \<and> pi_start_ticks a = pi_start_ticks b
      | _ \<Rightarrow> False)"

section \<open>Journal records\<close>

record journal_record =
  jr_cursor :: int
  jr_kind :: record_kind
  jr_stream :: "process_stream option"
  jr_data :: "bytes option"
  jr_exit :: "process_exit option"
  jr_error :: "sup_category option"

definition max_output_bytes :: nat where "max_output_bytes = 65536"
definition max_frame_bytes :: nat where "max_frame_bytes = 131072"

text \<open>\<open>_payload_for\<close>: the items in the order of the code, and their canonical text.\<close>

definition payload_items ::
  "sup_identity \<Rightarrow> int \<Rightarrow> record_kind \<Rightarrow> process_stream option \<Rightarrow> bytes option \<Rightarrow> process_exit option \<Rightarrow>
   sup_category option \<Rightarrow> (ustr \<times> json) list" where
  "payload_items i cursor kind stream data ex err =
     [(ul ''version'', JInt 1),
      (ul ''run_id'', JStr (er_run_id (si_record i))),
      (ul ''generation'', JStr (si_generation i)),
      (ul ''cursor'', JInt cursor),
      (ul ''kind'', JStr (ul (kind_value kind))),
      (ul ''stream'', (case stream of None \<Rightarrow> JNull | Some s \<Rightarrow> JStr (ul (stream_value s)))),
      (ul ''data'', (case data of None \<Rightarrow> JNull | Some b \<Rightarrow> JStr (b64encode b))),
      (ul ''returncode'', (case ex of None \<Rightarrow> JNull | Some p \<Rightarrow> JInt (pe_returncode p))),
      (ul ''exit_code'', (case ex of None \<Rightarrow> JNull | Some p \<Rightarrow> pe_exit_code p)),
      (ul ''signal_number'', (case ex of None \<Rightarrow> JNull | Some p \<Rightarrow> pe_signal p)),
      (ul ''exit_category'', (case ex of None \<Rightarrow> JNull | Some p \<Rightarrow> JStr (ul (category_value (pe_category p))))),
      (ul ''error_category'', (case err of None \<Rightarrow> JNull | Some c \<Rightarrow> JStr (ul (sup_category_value c))))]"

definition payload_for ::
  "sup_identity \<Rightarrow> int \<Rightarrow> record_kind \<Rightarrow> process_stream option \<Rightarrow> bytes option \<Rightarrow> process_exit option \<Rightarrow>
   sup_category option \<Rightarrow> sup_exn + bytes" where
  "payload_for i cursor kind stream data ex err =
     (case json_dumps (JObj (payload_items i cursor kind stream data ex err)) of
        None \<Rightarrow> Inl (PyErr ValueErr)
      | Some t \<Rightarrow> (case utf8_encode t of None \<Rightarrow> Inl (PyErr ValueErr) | Some b \<Rightarrow> Inr b))"

text \<open>
  \<open>_decode_payload\<close>. Every refusal of its own is \<open>JOURNAL_CORRUPT\<close>; \<open>RecursionError\<close> is no
  \<open>ValueError\<close>, so that of \<open>json.loads\<close> leaves as it is. The first argument is the number of
  levels the interpreter's stack has left; the journal's methods are modelled with enough of them.
\<close>

definition or_corrupt :: "exn + 'a \<Rightarrow> sup_exn + 'a" where
  "or_corrupt r = (case r of Inl _ \<Rightarrow> Inl (Sup JournalCorrupt) | Inr x \<Rightarrow> Inr x)"

definition corrupt_unless :: "bool \<Rightarrow> sup_exn + unit" where
  "corrupt_unless b = (if b then Inr () else Inl (Sup JournalCorrupt))"

definition decode_raw_at :: "nat option \<Rightarrow> bytes \<Rightarrow> sup_exn + json" where
  "decode_raw_at lv payload =
     (case utf8_decode payload of
        None \<Rightarrow> Inl (Sup JournalCorrupt)
      | Some t \<Rightarrow>
          (case loads_plain_at lv t of
             Inl JDeep \<Rightarrow> Inl (PyErr RecursionErr)
           | Inl _ \<Rightarrow> Inl (Sup JournalCorrupt)
           | Inr v \<Rightarrow> Inr v))"

abbreviation decode_raw :: "bytes \<Rightarrow> sup_exn + json" where
  "decode_raw \<equiv> decode_raw_at None"

definition payload_keys :: "string list" where
  "payload_keys = [''version'', ''run_id'', ''generation'', ''cursor'', ''kind'', ''stream'', ''data'', ''returncode'',
     ''exit_code'', ''signal_number'', ''exit_category'', ''error_category'']"

definition payload_header_ok :: "sup_identity \<Rightarrow> (ustr \<times> json) list \<Rightarrow> int \<Rightarrow> bool" where
  "payload_header_ok i raw expected_cursor \<longleftrightarrow>
     jget raw ''version'' = JInt 1 \<and>
     jget raw ''run_id'' = JStr (er_run_id (si_record i)) \<and>
     jget raw ''generation'' = JStr (si_generation i) \<and>
     jget raw ''cursor'' = JInt expected_cursor"

text \<open>\<open>base64.b64decode(value, validate=True)\<close>: a value that is no string raises \<open>TypeError\<close>.\<close>

definition b64_value_of :: "json \<Rightarrow> exn + bytes" where
  "b64_value_of v =
     (case v of
        JStr s \<Rightarrow> (case b64decode s of None \<Rightarrow> Inl ValueErr | Some b \<Rightarrow> Inr b)
      | _ \<Rightarrow> Inl TypeErr)"

definition decode_output :: "(ustr \<times> json) list \<Rightarrow> sup_exn + process_stream \<times> bytes" where
  "decode_output raw =
     rbind (or_corrupt (rbind (stream_of (jget raw ''stream'')) (\<lambda>s.
                        rbind (b64_value_of (jget raw ''data'')) (\<lambda>b. Inr (s, b))))) (\<lambda>(s, b).
     rbind (corrupt_unless (s \<in> {Stdout, Stderr} \<and> b \<noteq> [] \<and> length b \<le> max_output_bytes)) (\<lambda>_.
     Inr (s, b)))"

definition decode_exit :: "(ustr \<times> json) list \<Rightarrow> sup_exn + process_exit" where
  "decode_exit raw =
     rbind (or_corrupt (rbind (category_of (jget raw ''exit_category'')) (\<lambda>c.
              process_exit_init (jget raw ''returncode'') (jget raw ''exit_code'') (jget raw ''signal_number'') c))) (\<lambda>p.
     rbind (corrupt_unless (pe_category p \<in> {Exited, Signaled})) (\<lambda>_. Inr p))"

definition error_of_kind :: "record_kind \<Rightarrow> sup_category" where
  "error_of_kind k = (if k = KDegraded then ControlLost else ReadinessFailed)"

definition decode_error :: "(ustr \<times> json) list \<Rightarrow> record_kind \<Rightarrow> sup_exn + sup_category" where
  "decode_error raw k =
     rbind (corrupt_unless (is_text (jget raw ''error_category'') (sup_category_value (error_of_kind k)))) (\<lambda>_.
     Inr (error_of_kind k))"

definition empty_fields_valid :: "(ustr \<times> json) list \<Rightarrow> record_kind \<Rightarrow> bool" where
  "empty_fields_valid raw k \<longleftrightarrow>
     (k = KOutput \<or> jget raw ''stream'' = JNull) \<and>
     (k = KOutput \<or> jget raw ''data'' = JNull) \<and>
     (k = KExit \<or> jget raw ''returncode'' = JNull) \<and>
     (k = KExit \<or> jget raw ''exit_code'' = JNull) \<and>
     (k = KExit \<or> jget raw ''signal_number'' = JNull) \<and>
     (k = KExit \<or> jget raw ''exit_category'' = JNull) \<and>
     (k \<in> {KDegraded, KReadinessFailed} \<or> jget raw ''error_category'' = JNull)"

definition decode_fields :: "(ustr \<times> json) list \<Rightarrow> int \<Rightarrow> record_kind \<Rightarrow> sup_exn + journal_record" where
  "decode_fields raw cursor k =
     (case k of
        KOutput \<Rightarrow> rbind (decode_output raw) (\<lambda>(s, b).
          Inr \<lparr>jr_cursor = cursor, jr_kind = k, jr_stream = Some s, jr_data = Some b, jr_exit = None, jr_error = None\<rparr>)
      | KExit \<Rightarrow> rbind (decode_exit raw) (\<lambda>p.
          Inr \<lparr>jr_cursor = cursor, jr_kind = k, jr_stream = None, jr_data = None, jr_exit = Some p, jr_error = None\<rparr>)
      | KReady \<Rightarrow>
          Inr \<lparr>jr_cursor = cursor, jr_kind = k, jr_stream = None, jr_data = None, jr_exit = None, jr_error = None\<rparr>
      | _ \<Rightarrow> rbind (decode_error raw k) (\<lambda>c.
          Inr \<lparr>jr_cursor = cursor, jr_kind = k, jr_stream = None, jr_data = None, jr_exit = None, jr_error = Some c\<rparr>))"

definition decode_payload_at :: "nat option \<Rightarrow> sup_identity \<Rightarrow> bytes \<Rightarrow> int \<Rightarrow> sup_exn + journal_record" where
  "decode_payload_at lv i payload expected_cursor =
     rbind (decode_raw_at lv payload) (\<lambda>v.
       case v of
         JObj raw \<Rightarrow>
           rbind (corrupt_unless (same_keys raw payload_keys)) (\<lambda>_.
           rbind (corrupt_unless (payload_header_ok i raw expected_cursor)) (\<lambda>_.
           rbind (or_corrupt (kind_of (jget raw ''kind''))) (\<lambda>k.
           rbind (decode_fields raw expected_cursor k) (\<lambda>r.
           rbind (corrupt_unless (empty_fields_valid raw k)) (\<lambda>_.
           Inr r)))))
       | _ \<Rightarrow> Inl (Sup JournalCorrupt))"

abbreviation decode_payload :: "sup_identity \<Rightarrow> bytes \<Rightarrow> int \<Rightarrow> sup_exn + journal_record" where
  "decode_payload \<equiv> decode_payload_at None"

lemmas sup_types_exec [exec] = kind_of_def sup_identity_init_def authorize_supervisor_peer_def process_incarnation_init_def
  same_process_incarnation_def max_output_bytes_def max_frame_bytes_def payload_items_def payload_for_def or_corrupt_def
  corrupt_unless_def decode_raw_at_def payload_keys_def payload_header_ok_def b64_value_of_def decode_output_def
  decode_exit_def error_of_kind_def decode_error_def empty_fields_valid_def decode_fields_def decode_payload_at_def

end
