(* ===== verification/Supervisor_Payload.thy ===== *)
theory Supervisor_Payload imports Main Supervisor_Types "HOL-Library.Multiset" begin

text \<open>
  The journal payload codec: what \<open>decode_payload\<close> accepts is a well-formed record, every
  well-formed record decodes to itself from the payload written for it, and output records
  always fit a frame.
\<close>

section \<open>ASCII escaping leaves ASCII text alone\<close>

definition below_del :: "ustr \<Rightarrow> bool" where
  "below_del s \<longleftrightarrow> (\<forall>c \<in> set s. 0 \<le> c \<and> c < 127)"

lemma below_del_simps [simp]:
  "below_del []" "below_del (c # s) \<longleftrightarrow> 0 \<le> c \<and> c < 127 \<and> below_del s"
  "below_del (s @ t) \<longleftrightarrow> below_del s \<and> below_del t"
  by (auto simp: below_del_def)

lemma is_ascii_below_del: "is_ascii s \<Longrightarrow> below_del s"
  by (auto simp: is_ascii_def below_del_def)

lemma dec_int_below_del [simp]: "below_del (dec_int i)"
proof -
  have "below_del (dec_nat n)" if "0 \<le> n" for n
    using dec_nat_digits [OF that] by (fastforce simp: below_del_def is_digit_def)
  then show ?thesis by (simp add: dec_int_def)
qed

lemma dump_str_below_del: "below_del s \<Longrightarrow> below_del (dump_str s)"
proof (induction s)
  case (Cons c s)
  have h: "0 \<le> hex_digit d \<and> hex_digit d < 127" if "0 \<le> d" "d < 16" for d
    using that by (auto simp: hex_digit_def)
  have "below_del (esc_char c)"
  proof (cases "c < 32")
    case True
    with Cons.prems have "0 \<le> c div 16" "c div 16 < 16" by (auto simp: pos_imp_zdiv_nonneg_iff)
    with h [of "c div 16"] h [of "c mod 16"] Cons.prems show ?thesis by (simp add: esc_char_def)
  qed (use Cons.prems in \<open>simp add: esc_char_def\<close>)
  with Cons show ?case by (simp add: dump_str_def)
qed (simp add: dump_str_def)

primrec ascii_json :: "json \<Rightarrow> bool" where
  "ascii_json JNull = True"
| "ascii_json (JBool b) = True"
| "ascii_json (JInt i) = True"
| "ascii_json JFifteen = True"
| "ascii_json (JFloat x) = True"
| "ascii_json (JStr s) = below_del s"
| "ascii_json (JArr vs) = list_all (\<lambda>b. b) (map ascii_json vs)"
| "ascii_json (JObj ps) = list_all (\<lambda>(k, b). below_del k \<and> b) (map (map_prod id ascii_json) ps)"

lemma ascii_json_JArr [simp]: "ascii_json (JArr vs) \<longleftrightarrow> (\<forall>v \<in> set vs. ascii_json v)"
  by (simp add: list_all_iff)

lemma ascii_json_JObj [simp]: "ascii_json (JObj ps) \<longleftrightarrow> (\<forall>(k, v) \<in> set ps. below_del k \<and> ascii_json v)"
  by (auto simp: list_all_iff)

declare ascii_json.simps(7,8) [simp del]

lemma ascii_json_canon: "ascii_json v \<Longrightarrow> ascii_json (canon v)"
proof (induction v)
  case (JObj ps)
  have "ascii_json (canon (snd p)) \<and> below_del (fst p)" if "p \<in> set ps" for p
    using JObj that by (fastforce simp: snds.simps)
  then show ?case by fastforce
qed auto

lemma below_del_words [simp]: "below_del (ul ''null'')" "below_del (ul ''true'')" "below_del (ul ''false'')" "below_del (ul ''15.0'')"
  by (simp_all add: ul_def)

lemma dump_below_del:
  "ascii_json v \<Longrightarrow> dump v = Some t \<Longrightarrow> below_del t"
  "(\<And>v. v \<in> set vs \<Longrightarrow> ascii_json v) \<Longrightarrow> dump_items vs = Some u \<Longrightarrow> below_del u"
  "(\<And>k v. (k, v) \<in> set ps \<Longrightarrow> below_del k \<and> ascii_json v) \<Longrightarrow> dump_pairs ps = Some w \<Longrightarrow> below_del w"
proof (induction v and vs and ps arbitrary: t and u and w rule: dump_dump_items_dump_pairs.induct)
  case (8 ps)
  then obtain w where w: "dump_pairs ps = Some w" "t = 123 # w" by auto
  have "below_del w" using 8 w(1) by fastforce
  with w show ?case by simp
next
  case (10 v vs)
  then obtain a where a: "dump v = Some a" by (auto split: option.splits)
  then have "below_del a" using 10 by auto
  moreover have "below_del b" if "vs \<noteq> []" "dump_items vs = Some b" for b using 10 a that by auto
  ultimately show ?case using 10(4) a by (auto split: if_splits)
next
  case (12 p ps)
  obtain k v where p: "p = (k, v)" by fastforce
  then obtain a where a: "dump v = Some a" using 12(4) by (auto split: option.splits)
  have kv: "below_del k" "ascii_json v" using 12(3) p by auto
  have "below_del a" using 12(1) a kv p by auto
  moreover have "below_del (dump_str k)" using kv dump_str_below_del by simp
  moreover have "below_del b" if "ps \<noteq> []" "dump_pairs ps = Some b" for b
    using 12(2) [OF _ that(1)] 12(3) a p that(2) by auto
  ultimately show ?case using 12(4) a p by (auto split: if_splits)
qed (auto simp: dump_str_below_del split: if_splits)

lemma ascii_chars_id: "below_del t \<Longrightarrow> concat (map ascii_char t) = t"
  by (induction t) (auto simp: ascii_char_def)

lemma json_dumps_ascii: "ascii_json v \<Longrightarrow> json_dumps v = dump (canon v)"
  using dump_below_del(1) [OF ascii_json_canon] by (cases "dump (canon v)") (auto simp: json_dumps_def ascii_chars_id)

text \<open>The text of an ASCII value is its own UTF-8, and scans back.\<close>

lemma json_dumps_loads:
  assumes "ascii_json v" "wf_json v" "json_dumps v = Some t"
  shows "\<exists>b. utf8_encode t = Some b \<and> length b = length t \<and> utf8_decode b = Some t \<and> loads_plain t = Inr (canon v)"
proof -
  have d: "dump (canon v) = Some t" using assms json_dumps_ascii by simp
  then have "below_del t" using dump_below_del(1) ascii_json_canon assms(1) by blast
  then have "utf8_encode t = Some (map byte_of t)" by (intro utf8_encode_ascii) (auto simp: below_del_def)
  with utf8_decode_encode loads_dump(2) [OF d wf_json_canon [OF assms(2)]] show ?thesis by force
qed

section \<open>Well-formed records\<close>

definition record_ok :: "journal_record \<Rightarrow> bool" where
  "record_ok r \<longleftrightarrow>
     (case jr_kind r of
        KOutput \<Rightarrow>
          (\<exists>s b. jr_stream r = Some s \<and> jr_data r = Some b \<and> s \<in> {Stdout, Stderr} \<and> b \<noteq> [] \<and> length b \<le> max_output_bytes) \<and>
          jr_exit r = None \<and> jr_error r = None
      | KExit \<Rightarrow>
          (\<exists>p. jr_exit r = Some p \<and> process_exit_ok p \<and> pe_category p \<in> {Exited, Signaled}) \<and>
          jr_stream r = None \<and> jr_data r = None \<and> jr_error r = None
      | KReady \<Rightarrow> jr_stream r = None \<and> jr_data r = None \<and> jr_exit r = None \<and> jr_error r = None
      | k \<Rightarrow> jr_error r = Some (error_of_kind k) \<and> jr_stream r = None \<and> jr_data r = None \<and> jr_exit r = None)"

definition identity_ok :: "sup_identity \<Rightarrow> bool" where
  "identity_ok i \<longleftrightarrow> is_uuid (er_run_id (si_record i)) \<and> is_uuid (si_generation i)"

lemma corrupt_unless_Inr [simp]: "corrupt_unless b = Inr u \<longleftrightarrow> b"
  by (simp add: corrupt_unless_def)

lemma corrupt_unless_True [simp]: "corrupt_unless True = Inr ()"
  by (simp add: corrupt_unless_def)

lemma or_corrupt_Inr [simp]: "or_corrupt r = Inr x \<longleftrightarrow> r = Inr x"
  by (simp add: or_corrupt_def split: sum.splits)

lemma or_corrupt_return [simp]: "or_corrupt (Inr x) = Inr x"
  by (simp add: or_corrupt_def)

lemma decode_fields_ok: "decode_fields raw c k = Inr r \<Longrightarrow> record_ok r \<and> jr_cursor r = c \<and> jr_kind r = k"
  by (cases k)
    (auto simp: decode_fields_def decode_output_def decode_exit_def decode_error_def record_ok_def res_simps
        process_exit_init_ok split: prod.splits)

lemma decode_payload_fields:
  "decode_payload i b c = Inr r \<longleftrightarrow>
     (\<exists>raw. decode_raw b = Inr (JObj raw) \<and> same_keys raw payload_keys \<and> payload_header_ok i raw c \<and>
        (\<exists>k. kind_of (jget raw ''kind'') = Inr k \<and> decode_fields raw c k = Inr r \<and> empty_fields_valid raw k))"
proof (cases "decode_raw b")
  case (Inr v)
  then show ?thesis by (cases v) (auto simp: decode_payload_at_def res_simps)
qed (simp add: decode_payload_at_def)

lemma decode_payload_ok: "decode_payload i b c = Inr r \<Longrightarrow> record_ok r \<and> jr_cursor r = c"
  by (auto simp: decode_payload_fields dest: decode_fields_ok)

text \<open>The levels make no difference until they run out.\<close>

lemma decode_raw_deep:
  "decode_raw_at lv b = decode_raw b \<or>
   decode_raw_at lv b = Inl (PyErr RecursionErr) \<and> (\<exists>k. lv = Some k \<and> k < length b)"
proof (cases "utf8_decode b")
  case (Some t)
  then show ?thesis
    using loads_plain_deep [of lv t] length_utf8_decode [OF Some] by (auto simp: decode_raw_at_def)
qed (simp add: decode_raw_at_def)

lemma decode_payload_deep:
  "decode_payload_at lv i b c = decode_payload i b c \<or>
   decode_payload_at lv i b c = Inl (PyErr RecursionErr) \<and> (\<exists>k. lv = Some k \<and> k < length b)"
  using decode_raw_deep [of lv b] by (auto simp: decode_payload_at_def)

lemma decode_payload_brackets:
  "decode_payload_at (Some k) i (replicate (Suc k) 91) c = Inl (PyErr RecursionErr)"
  using utf8_decode_replicate [of 91 "Suc k"] loads_at_brackets(1) [of k]
  by (simp add: decode_payload_at_def decode_raw_at_def del: replicate_Suc)

lemma decode_raw_errors: "decode_raw b = Inl e \<Longrightarrow> e = Sup JournalCorrupt"
  using loads_not_deep(1) by (auto simp: decode_raw_at_def split: option.splits sum.splits jerr.splits)

lemma decode_fields_errors: "decode_fields raw c k = Inl e \<Longrightarrow> e = Sup JournalCorrupt"
  by (auto simp: decode_fields_def decode_output_def decode_exit_def decode_error_def corrupt_unless_def or_corrupt_def
      res_simps split: sum.splits if_splits record_kind.splits prod.splits)

lemma decode_payload_errors: "decode_payload i b c = Inl e \<Longrightarrow> e = Sup JournalCorrupt"
proof (cases "decode_raw b")
  case (Inr v)
  assume "decode_payload i b c = Inl e"
  with Inr show ?thesis
    by (cases v) (auto simp: decode_payload_at_def corrupt_unless_def or_corrupt_def res_simps
        dest: decode_fields_errors split: sum.splits if_splits)
qed (auto simp: decode_payload_at_def dest: decode_raw_errors)

section \<open>Writing and reading back\<close>

abbreviation record_items :: "sup_identity \<Rightarrow> journal_record \<Rightarrow> (ustr \<times> json) list" where
  "record_items i r \<equiv> payload_items i (jr_cursor r) (jr_kind r) (jr_stream r) (jr_data r) (jr_exit r) (jr_error r)"

abbreviation record_payload :: "sup_identity \<Rightarrow> journal_record \<Rightarrow> sup_exn + bytes" where
  "record_payload i r \<equiv> payload_for i (jr_cursor r) (jr_kind r) (jr_stream r) (jr_data r) (jr_exit r) (jr_error r)"

lemma payload_keys_distinct: "distinct (dkeys (payload_items i c k s d x e))"
  by (simp add: payload_items_def)

lemma payload_same_keys: "same_keys (payload_items i c k s d x e) payload_keys"
  by (simp add: same_keys_iff payload_items_def payload_keys_def insert_commute)

lemma payload_jget:
  "jget (payload_items i c k s d x e) ''version'' = JInt 1"
  "jget (payload_items i c k s d x e) ''run_id'' = JStr (er_run_id (si_record i))"
  "jget (payload_items i c k s d x e) ''generation'' = JStr (si_generation i)"
  "jget (payload_items i c k s d x e) ''cursor'' = JInt c"
  "jget (payload_items i c k s d x e) ''kind'' = JStr (ul (kind_value k))"
  "jget (payload_items i c k s d x e) ''stream'' = (case s of None \<Rightarrow> JNull | Some s \<Rightarrow> JStr (ul (stream_value s)))"
  "jget (payload_items i c k s d x e) ''data'' = (case d of None \<Rightarrow> JNull | Some b \<Rightarrow> JStr (b64encode b))"
  "jget (payload_items i c k s d x e) ''returncode'' = (case x of None \<Rightarrow> JNull | Some p \<Rightarrow> JInt (pe_returncode p))"
  "jget (payload_items i c k s d x e) ''exit_code'' = (case x of None \<Rightarrow> JNull | Some p \<Rightarrow> pe_exit_code p)"
  "jget (payload_items i c k s d x e) ''signal_number'' = (case x of None \<Rightarrow> JNull | Some p \<Rightarrow> pe_signal p)"
  "jget (payload_items i c k s d x e) ''exit_category'' =
     (case x of None \<Rightarrow> JNull | Some p \<Rightarrow> JStr (ul (category_value (pe_category p))))"
  "jget (payload_items i c k s d x e) ''error_category'' =
     (case e of None \<Rightarrow> JNull | Some c \<Rightarrow> JStr (ul (sup_category_value c)))"
  by (simp_all add: jget_def payload_items_def)

text \<open>The fields of an exit are scalars.\<close>

definition scalar :: "json \<Rightarrow> bool" where
  "scalar v \<longleftrightarrow> (case v of JStr _ \<Rightarrow> False | JArr _ \<Rightarrow> False | JObj _ \<Rightarrow> False | _ \<Rightarrow> True)"

lemma num_eq_scalar: "num_eq v i \<Longrightarrow> scalar v"
  by (auto simp: num_eq_def scalar_def split: json.splits)

lemma scalar_props: "scalar v \<Longrightarrow> wf_json v \<and> ascii_json v \<and> canon v = v"
  by (auto simp: scalar_def split: json.splits)

lemma process_exit_scalars:
  "process_exit_ok p \<Longrightarrow> scalar (pe_exit_code p) \<and> scalar (pe_signal p)"
  by (auto simp: process_exit_ok_def process_exit_check_def num_eq_scalar split: if_splits)
     (auto simp: scalar_def)

lemma values_ascii:
  "is_ascii (ul (kind_value k))" "is_ascii (ul (stream_value s))" "is_ascii (ul (category_value c))"
  "is_ascii (ul (sup_category_value e))"
  by ((cases k; simp add: ul_def is_ascii_def), (cases s; simp add: ul_def is_ascii_def),
      (cases c; simp add: ul_def is_ascii_def), (cases e; simp add: ul_def is_ascii_def))

lemma ul_keys_below_del: "(key, v) \<in> set (payload_items i c k s d x e) \<Longrightarrow> below_del key \<and> wf_str key"
  by (auto simp: payload_items_def ul_def below_del_def wf_str_def)

lemma payload_value_ok:
  assumes "identity_ok i" "\<And>p. x = Some p \<Longrightarrow> process_exit_ok p" "(key, v) \<in> set (payload_items i c k s d x e)"
  shows "ascii_json v \<and> wf_json v \<and> canon v = v"
proof -
  have str: "ascii_json (JStr t) \<and> wf_json (JStr t)" if "is_ascii t" for t
    using that is_ascii_below_del is_ascii_wf by simp
  have "is_ascii (er_run_id (si_record i))" "is_ascii (si_generation i)"
    using assms(1) is_uuid_ascii by (auto simp: identity_ok_def)
  moreover have "scalar (pe_exit_code p) \<and> scalar (pe_signal p)" if "x = Some p" for p
    using assms(2) that process_exit_scalars by blast
  ultimately show ?thesis
    using assms(3) str values_ascii b64encode_ascii scalar_props
    unfolding payload_items_def by (auto split: option.splits)
qed

lemma payload_json_ok:
  assumes "identity_ok i" "\<And>p. x = Some p \<Longrightarrow> process_exit_ok p"
  shows "ascii_json (JObj (payload_items i c k s d x e))" "wf_json (JObj (payload_items i c k s d x e))"
    "canon (jget (payload_items i c k s d x e) f) = jget (payload_items i c k s d x e) f"
proof -
  note val = payload_value_ok [OF assms]
  show "ascii_json (JObj (payload_items i c k s d x e))" "wf_json (JObj (payload_items i c k s d x e))"
    using val ul_keys_below_del payload_keys_distinct by fastforce+
  show "canon (jget (payload_items i c k s d x e) f) = jget (payload_items i c k s d x e) f"
    using val by (cases "map_of (payload_items i c k s d x e) (ul f)") (auto simp: jget_def dest: map_of_SomeD)
qed

lemma record_exit_ok: "record_ok r \<Longrightarrow> jr_exit r = Some p \<Longrightarrow> process_exit_ok p"
  by (auto simp: record_ok_def split: record_kind.splits)

lemma payload_for_Inr:
  assumes "identity_ok i" "\<And>p. x = Some p \<Longrightarrow> process_exit_ok p" "payload_for i c k s d x e = Inr b"
  shows "\<exists>t. dump (canon (JObj (payload_items i c k s d x e))) = Some t \<and> length b = length t \<and>
             decode_raw b = Inr (canon (JObj (payload_items i c k s d x e)))"
proof -
  let ?v = "JObj (payload_items i c k s d x e)"
  obtain t where t: "json_dumps ?v = Some t" "utf8_encode t = Some b"
    using assms(3) by (auto simp: payload_for_def split: option.splits)
  with json_dumps_loads [OF payload_json_ok(1,2) [OF assms(1,2)] t(1)] json_dumps_ascii [OF payload_json_ok(1) [OF assms(1,2)]]
  show ?thesis by (fastforce simp: decode_raw_at_def)
qed

text \<open>The items of a record give the record back.\<close>

lemma record_fields:
  assumes "record_ok r"
  shows "decode_fields (record_items i r) (jr_cursor r) (jr_kind r) = Inr r"
    "empty_fields_valid (record_items i r) (jr_kind r)"
proof -
  have x: "process_exit_init (JInt (pe_returncode p)) (pe_exit_code p) (pe_signal p) k = Inr p"
    if "process_exit_ok p" "pe_category p = k" for p k
    using that by (simp add: process_exit_init_ok)
  show "decode_fields (record_items i r) (jr_cursor r) (jr_kind r) = Inr r"
    using assms
    by (cases r)
      (auto simp: decode_fields_def decode_output_def decode_exit_def decode_error_def record_ok_def payload_jget x
        b64_value_of_def is_text_def split: record_kind.splits)
  show "empty_fields_valid (record_items i r) (jr_kind r)"
    using assms by (auto simp: empty_fields_valid_def record_ok_def payload_jget split: record_kind.splits)
qed

lemma decode_fields_canon:
  assumes "\<And>f. jget raw' f = jget raw f"
  shows "decode_fields raw' c k = decode_fields raw c k" "empty_fields_valid raw' k = empty_fields_valid raw k"
    "payload_header_ok i raw' c = payload_header_ok i raw c"
  by (cases k; simp add: decode_fields_def decode_output_def decode_exit_def decode_error_def assms)
     (simp_all add: empty_fields_valid_def payload_header_ok_def assms)

lemma record_payload_decodes:
  assumes "identity_ok i" "record_ok r" "record_payload i r = Inr b"
  shows "decode_payload i b (jr_cursor r) = Inr r"
proof -
  let ?raw = "record_items i r"
  let ?raw' = "sort_key fst (map (map_prod id canon) ?raw)"
  note x = record_exit_ok [OF assms(2)]
  have "decode_raw b = Inr (JObj ?raw')" using payload_for_Inr [OF assms(1) x assms(3)] by auto
  moreover have g: "jget ?raw' f = jget ?raw f" for f
    using jget_canon [OF payload_keys_distinct] payload_json_ok(3) [OF assms(1) x] by simp
  moreover have "payload_header_ok i ?raw (jr_cursor r)" by (simp add: payload_header_ok_def payload_jget)
  ultimately show ?thesis
    using record_fields [OF assms(2)] payload_same_keys payload_jget(5)
    by (auto simp: decode_payload_fields decode_fields_canon [OF g])
qed

text \<open>A record is determined by the payload written for it.\<close>

lemma append_args_ok:
  assumes "identity_ok i" "\<And>p. x = Some p \<Longrightarrow> process_exit_ok p" "payload_for i c k s d x e = Inr b" "decode_payload i b c = Inr r"
  shows "jr_cursor r = c \<and> jr_kind r = k \<and> jr_stream r = s \<and> jr_data r = d \<and> jr_exit r = x \<and> jr_error r = e"
proof -
  let ?raw = "payload_items i c k s d x e"
  let ?raw' = "sort_key fst (map (map_prod id canon) ?raw)"
  have "decode_raw b = Inr (JObj ?raw')" using payload_for_Inr [OF assms(1-3)] by auto
  moreover have g: "jget ?raw' f = jget ?raw f" for f
    using jget_canon [OF payload_keys_distinct] payload_json_ok(3) [OF assms(1,2)] by simp
  ultimately have "decode_fields ?raw c k = Inr r" "empty_fields_valid ?raw k"
    using assms(4) payload_jget(5) [of i c k s d x e] by (auto simp: decode_payload_fields decode_fields_canon [OF g])
  then show ?thesis
    by (cases k)
      (auto simp: decode_fields_def decode_output_def decode_exit_def decode_error_def empty_fields_valid_def payload_jget res_simps
        b64_value_of_def is_text_def process_exit_init_ok split: option.splits)
qed

section \<open>An output record fits its frame\<close>

lemma dump_str_ascii: "is_ascii s \<Longrightarrow> dump_str s = 34 # s @ [34]"
proof (induction s)
  case (Cons c s)
  then show ?case by (auto simp: dump_str_def is_ascii_def esc_char_def)
qed (simp add: dump_str_def)

lemma length_uuid: "is_uuid s \<Longrightarrow> length s = 36"
  unfolding is_uuid_def by (drule list_all2_lengthD) (simp add: uuid_shape_def)

text \<open>The length of an object's text does not depend on the order of its items.\<close>

definition pair_length :: "ustr \<times> json \<Rightarrow> nat" where
  "pair_length p = length (dump_str (fst p)) + 2 + (case dump (snd p) of None \<Rightarrow> 0 | Some t \<Rightarrow> length t)"

lemma dump_pairs_length:
  "(\<And>p. p \<in> set ps \<Longrightarrow> dump (snd p) \<noteq> None) \<Longrightarrow>
   \<exists>w. dump_pairs ps = Some w \<and> length w \<le> 1 + sum_list (map pair_length ps)"
proof (induction ps)
  case (Cons p ps)
  have "\<exists>w. dump_pairs ps = Some w \<and> length w \<le> 1 + sum_list (map pair_length ps)" by (rule Cons.IH) (rule Cons.prems, simp)
  then obtain w where "dump_pairs ps = Some w" "length w \<le> 1 + sum_list (map pair_length ps)" by blast
  moreover obtain t where "dump (snd p) = Some t" using Cons.prems [of p] by auto
  moreover from this have "pair_length p = length (dump_str (fst p)) + 2 + length t" by (simp add: pair_length_def)
  ultimately show ?case by auto
qed simp

lemma dump_object_length:
  assumes "\<And>k v. (k, v) \<in> set ps \<Longrightarrow> canon v = v \<and> dump v \<noteq> None"
  shows "\<exists>t. dump (canon (JObj ps)) = Some t \<and> length t \<le> 2 + sum_list (map pair_length ps)"
proof -
  have "map (map_prod id canon) ps = ps" using assms by (intro map_idI) auto
  then have c: "canon (JObj ps) = JObj (sort_key fst ps)" by simp
  have "mset (map pair_length (sort_key fst ps)) = mset (map pair_length ps)" by (simp only: mset_map mset_sort)
  then have "sum_list (map pair_length (sort_key fst ps)) = sum_list (map pair_length ps)"
    by (metis sum_mset_sum_list)
  moreover obtain w where "dump_pairs (sort_key fst ps) = Some w"
    "length w \<le> 1 + sum_list (map pair_length (sort_key fst ps))"
    using dump_pairs_length [of "sort_key fst ps"] assms by fastforce
  ultimately show ?thesis using c by simp
qed

lemma length_dec_int:
  assumes "\<bar>c\<bar> < 10 ^ Suc k"
  shows "length (dec_nat \<bar>c\<bar>) \<le> Suc k" "length (dec_int c) \<le> Suc (Suc k)"
proof -
  show d: "length (dec_nat \<bar>c\<bar>) \<le> Suc k" by (rule length_dec_nat [OF _ assms]) simp
  show "length (dec_int c) \<le> Suc (Suc k)"
  proof (cases "c < 0")
    case True
    then have "dec_int c = 45 # dec_nat \<bar>c\<bar>" by (simp add: dec_int_def)
    with d show ?thesis by simp
  next
    case False
    then have "dec_int c = dec_nat \<bar>c\<bar>" by (simp add: dec_int_def)
    with d show ?thesis by simp
  qed
qed

text \<open>Exit fields that have a short text: no float, and integers of at most twenty digits.\<close>

definition short_scalar :: "json \<Rightarrow> bool" where
  "short_scalar v \<longleftrightarrow>
     (case v of JNull \<Rightarrow> True | JBool _ \<Rightarrow> True | JInt i \<Rightarrow> \<bar>i\<bar> < 10 ^ 20 | JFifteen \<Rightarrow> True | _ \<Rightarrow> False)"

definition short_exit :: "process_exit \<Rightarrow> bool" where
  "short_exit p \<longleftrightarrow> process_exit_ok p \<and> short_scalar (JInt (pe_returncode p)) \<and> short_scalar (pe_exit_code p) \<and> short_scalar (pe_signal p)"

definition dump_length :: "json \<Rightarrow> nat" where
  "dump_length v = (case dump v of None \<Rightarrow> 0 | Some t \<Rightarrow> length t)"

lemma short_scalar_dump:
  assumes "short_scalar v"
  shows "dump v \<noteq> None" "dump_length v \<le> 21"
proof -
  have d: "length (dec_nat \<bar>i\<bar>) \<le> max_digits \<and> length (dec_int i) \<le> 21" if "\<bar>i\<bar> < 10 ^ 20" for i
  proof -
    have "\<bar>i\<bar> < 10 ^ Suc 19" using that by simp
    from length_dec_int [OF this] show ?thesis by (simp add: max_digits_def)
  qed
  show "dump v \<noteq> None" "dump_length v \<le> 21"
    using assms d by (auto simp: short_scalar_def dump_length_def split: json.splits)
qed

lemma text_dump:
  assumes "is_ascii t"
  shows "dump (JStr t) \<noteq> None" "dump_length (JStr t) = length t + 2"
  using assms by (simp_all add: dump_length_def dump_str_ascii)

lemma value_lengths:
  "length (kind_value k) \<le> 16" "length (stream_value s) \<le> 16" "length (category_value c) \<le> 16" "length (sup_category_value e) \<le> 18"
  by ((cases k; simp), (cases s; simp), (cases c; simp), (cases e; simp))

lemma payload_item_cases:
  assumes "(key, v) \<in> set (payload_items i c k s d x e)"
  shows "v = JNull \<or> v = JInt 1 \<or> v = JInt c \<or> v = JStr (er_run_id (si_record i)) \<or> v = JStr (si_generation i) \<or>
    v = JStr (ul (kind_value k)) \<or> (\<exists>s. v = JStr (ul (stream_value s))) \<or> (\<exists>c. v = JStr (ul (category_value c))) \<or>
    (\<exists>c. v = JStr (ul (sup_category_value c))) \<or> (\<exists>b. d = Some b \<and> key = ul ''data'' \<and> v = JStr (b64encode b)) \<or>
    (\<exists>p. x = Some p \<and> v \<in> {JInt (pe_returncode p), pe_exit_code p, pe_signal p})"
proof -
  have "(\<exists>b. d = Some b \<and> key = ul ''data'' \<and> v = JStr (b64encode b)) \<or> v = JNull" if "(key, v) = (ul ''data'', case d of None \<Rightarrow> JNull | Some b \<Rightarrow> JStr (b64encode b))"
    using that by (cases d) auto
  moreover have "(\<exists>s. v = JStr (ul (stream_value s))) \<or> v = JNull" if "(key, v) = (ul ''stream'', case s of None \<Rightarrow> JNull | Some s \<Rightarrow> JStr (ul (stream_value s)))"
    using that by (cases s) auto
  moreover have "(\<exists>c. v = JStr (ul (sup_category_value c))) \<or> v = JNull" if "(key, v) = (ul ''error_category'', case e of None \<Rightarrow> JNull | Some c \<Rightarrow> JStr (ul (sup_category_value c)))"
    using that by (cases e) auto
  moreover have "(\<exists>c. v = JStr (ul (category_value c))) \<or> v = JNull" if "(key, v) = (ul ''exit_category'', case x of None \<Rightarrow> JNull | Some p \<Rightarrow> JStr (ul (category_value (pe_category p))))"
    using that by (cases x) auto
  moreover have "(\<exists>p. x = Some p \<and> v = f p) \<or> v = JNull" if "(key, v) = (q, case x of None \<Rightarrow> JNull | Some p \<Rightarrow> f p)" for q f
    using that by (cases x) auto
  ultimately show ?thesis using assms unfolding payload_items_def set_simps insert_iff empty_iff by blast
qed

text \<open>Every value but the data has a text of at most 40 characters.\<close>

lemma payload_value_length:
  assumes i: "identity_ok i" and c: "\<bar>c\<bar> < 10 ^ 20" and x: "pred_option short_exit x"
    and b: "pred_option (\<lambda>b. length b \<le> max_output_bytes) d" and kv: "(key, v) \<in> set (payload_items i c k s d x e)"
  shows "dump v \<noteq> None" "dump_length v \<le> (if key = ul ''data'' then 87386 else 40)"
proof -
  have "is_ascii (er_run_id (si_record i))" "is_ascii (si_generation i)"
    "length (er_run_id (si_record i)) = 36" "length (si_generation i) = 36"
    using i is_uuid_ascii length_uuid by (auto simp: identity_ok_def)
  then have ids: "dump_length (JStr (er_run_id (si_record i))) \<le> 40" "dump_length (JStr (si_generation i)) \<le> 40"
    by (simp_all add: text_dump)
  have "dump_length (JStr (b64encode b)) \<le> 87386" if "d = Some b" for b
  proof -
    have "(length b + 2) div 3 \<le> (65536 + 2) div 3" using b that by (intro div_le_mono) (simp add: max_output_bytes_def)
    then show ?thesis by (simp add: text_dump b64encode_ascii length_b64encode)
  qed
  note data = this
  have k40: "dump_length (JStr (ul (kind_value k))) \<le> 40" for k
    using value_lengths(1) [of k] by (simp add: text_dump values_ascii)
  have s40: "dump_length (JStr (ul (stream_value s))) \<le> 40" for s
    using value_lengths(2) [of s] by (simp add: text_dump values_ascii)
  have c40: "dump_length (JStr (ul (category_value c))) \<le> 40" for c
    using value_lengths(3) [of c] by (simp add: text_dump values_ascii)
  have e40: "dump_length (JStr (ul (sup_category_value c))) \<le> 40" for c
    using value_lengths(4) [of c] by (simp add: text_dump values_ascii)
  have scalar: "dump v \<noteq> None \<and> (dump_length v \<le> 40 \<or> key = ul ''data'' \<and> dump_length v \<le> 87386)" if "short_scalar v" for v
    using short_scalar_dump [OF that] by auto
  have constants: "short_scalar JNull" "short_scalar (JInt 1)" "short_scalar (JInt c)" using c by (simp_all add: short_scalar_def)
  have ex: "short_scalar v" if "x = Some p" "v \<in> {JInt (pe_returncode p), pe_exit_code p, pe_signal p}" for p v
    using x that by (auto simp: short_exit_def)
  have str: "dump (JStr t) \<noteq> None" for t by simp
  have "dump v \<noteq> None \<and> (dump_length v \<le> 40 \<or> key = ul ''data'' \<and> dump_length v \<le> 87386)"
    using payload_item_cases [OF kv]
  proof (elim disjE exE conjE)
    fix p assume "x = Some p" "v \<in> {JInt (pe_returncode p), pe_exit_code p, pe_signal p}"
    then show ?thesis by (intro scalar ex)
  qed (simp_all only: scalar constants k40 s40 c40 e40 ids data str not_False_eq_True simp_thms)
  then show "dump_length v \<le> (if key = ul ''data'' then 87386 else 40)" "dump v \<noteq> None" by auto
qed

lemma payload_length:
  assumes i: "identity_ok i" and c: "\<bar>c\<bar> < 10 ^ 20" and x: "pred_option short_exit x"
    and b: "pred_option (\<lambda>b. length b \<le> max_output_bytes) d"
  shows "\<exists>t. payload_for i c k s d x e = Inr t \<and> length t \<le> max_frame_bytes"
proof -
  let ?ps = "payload_items i c k s d x e"
  have ok: "\<And>p. x = Some p \<Longrightarrow> process_exit_ok p" using x by (auto simp: short_exit_def)
  note v = payload_value_length [OF i c x b]
  have key: "dump_str (ul q) = 34 # ul q @ [34] \<and> length q \<le> 16" if "q \<in> set payload_keys" for q
    using that by (intro conjI dump_str_ascii) (auto simp: payload_keys_def ul_def is_ascii_def)
  have "pair_length p \<le> (if fst p = ul ''data'' then 90000 else 60)" if "p \<in> set ?ps" for p
  proof -
    have "fst ` set ?ps = ul ` set payload_keys" using payload_same_keys by (simp add: same_keys_iff)
    then have "fst p \<in> ul ` set payload_keys" using that by blast
    then obtain q w where p: "p = (ul q, w)" "q \<in> set payload_keys" by (cases p) auto
    have "(ul q, w) \<in> set ?ps" using that p by simp
    from v(2) [OF this] have "dump_length w \<le> (if q = ''data'' then 87386 else 40)" by simp
    then show ?thesis using key [OF p(2)] p(1) by (auto simp: pair_length_def dump_length_def split: if_splits)
  qed
  then have "sum_list (map pair_length ?ps) \<le> sum_list (map (\<lambda>p. if fst p = ul ''data'' then 90000 else 60) ?ps)"
    by (rule sum_list_mono)
  also have "\<dots> \<le> 91000" by (simp add: payload_items_def)
  finally have sum: "sum_list (map pair_length ?ps) \<le> 91000" .
  have "\<exists>t. dump (canon (JObj ?ps)) = Some t \<and> length t \<le> 2 + sum_list (map pair_length ?ps)"
    by (rule dump_object_length) (use v(1) payload_value_ok [OF i ok] in blast)
  then obtain t where t: "dump (canon (JObj ?ps)) = Some t" "length t \<le> 91002" using sum by auto
  note p = payload_json_ok(1,2) [OF i ok]
  from t(1) have "json_dumps (JObj ?ps) = Some t" using json_dumps_ascii [OF p(1)] by simp
  with json_dumps_loads [OF p this] t(2) show ?thesis by (auto simp: payload_for_def max_frame_bytes_def)
qed

end
