(* ===== verification/Journal_File.thy ===== *)
theory Journal_File imports Main Supervisor_Types begin

text \<open>
  The operating system as \<open>SupervisorJournal\<close> sees it: the pinned directory, the directory
  entry of the journal, the open file with its metadata and content, and what the next call
  of each kind will do. \<open>None\<close> for a metadata field means that the call raises \<open>OSError\<close>.

  Other processes may do anything between two calls: \<open>w_env\<close> lists what happens before each
  of the next calls, and nothing happens any more once it is used up. A \<open>Tamper\<close> event is an
  arbitrary function on the file system; a \<open>Fault\<close> event only sets how many bytes the next
  write takes, whether the next sync works, and the clock.
\<close>

datatype file_kind = FDir | FReg | FOther

record file_stat =
  st_kind :: file_kind
  st_perm :: int
  st_uid :: int
  st_nlink :: int
  st_dev :: int
  st_ino :: int
  st_size :: nat
  st_mtime :: int
  st_ctime :: int

text \<open>The journal's name leads to the open file, to some other object, or to nothing.\<close>

datatype dir_entry = ESame | EOther file_stat | EMissing

record fs =
  fs_euid :: int
  fs_dir :: "file_stat option"
  fs_meta :: "file_stat option"
  fs_entry :: dir_entry
  fs_content :: bytes
  fs_fresh :: "file_stat option"
  fs_room :: "nat option"
  fs_sync_ok :: bool
  fs_read_ok :: bool
  fs_chmod_ok :: bool
  fs_dup_ok :: bool
  fs_locked :: bool
  fs_clock :: int

datatype event = Fault "nat option" bool int | Tamper "fs \<Rightarrow> fs"

fun happen :: "event \<Rightarrow> fs \<Rightarrow> fs" where
  "happen (Fault room sync clock) f = f\<lparr>fs_room := room, fs_sync_ok := sync, fs_clock := clock\<rparr>"
| "happen (Tamper h) f = h f"

record world =
  w_fs :: fs
  w_env :: "event list"

type_synonym 'a os = "(world, sup_exn, 'a) sx"

definition os_call :: "(fs \<Rightarrow> (sup_exn + 'a) \<times> fs) \<Rightarrow> 'a os" where
  "os_call g w =
     (let f = (case w_env w of [] \<Rightarrow> w_fs w | ev # _ \<Rightarrow> happen ev (w_fs w)); (r, f') = g f
      in (r, \<lparr>w_fs = f', w_env = tl (w_env w)\<rparr>))"

section \<open>The calls\<close>

definition stat_result :: "file_stat option \<Rightarrow> sup_exn + file_stat" where
  "stat_result s = (case s of None \<Rightarrow> Inl OsErr | Some m \<Rightarrow> Inr m)"

text \<open>The metadata of the open file, its size that of the content.\<close>

definition file_meta :: "fs \<Rightarrow> file_stat option" where
  "file_meta f = map_option (st_size_update (\<lambda>_. length (fs_content f))) (fs_meta f)"

definition os_geteuid :: "int os" where
  "os_geteuid w = (Inr (fs_euid (w_fs w)), w)"

definition os_dup_dir :: "unit os" where
  "os_dup_dir = os_call (\<lambda>f. (if fs_dup_ok f then Inr () else Inl OsErr, f))"

definition os_fstat_dir :: "file_stat os" where
  "os_fstat_dir = os_call (\<lambda>f. (stat_result (fs_dir f), f))"

definition os_fstat_file :: "file_stat os" where
  "os_fstat_file = os_call (\<lambda>f. (stat_result (file_meta f), f))"

definition os_stat_entry :: "file_stat os" where
  "os_stat_entry = os_call (\<lambda>f. (case fs_entry f of ESame \<Rightarrow> stat_result (file_meta f)
     | EOther s \<Rightarrow> Inr s | EMissing \<Rightarrow> Inl OsMissing, f))"

text \<open>
  Opening by name. A journal that is there is the file the world describes; \<open>EOther\<close> is an
  object the open refuses (a symbolic link, a directory, no permission).
\<close>

definition os_open_existing :: "unit os" where
  "os_open_existing = os_call (\<lambda>f. (case fs_entry f of ESame \<Rightarrow> Inr () | EOther _ \<Rightarrow> Inl OsErr | EMissing \<Rightarrow> Inl OsMissing, f))"

definition os_open_create :: "unit os" where
  "os_open_create = os_call (\<lambda>f.
     (case (fs_entry f, fs_fresh f) of
        (EMissing, Some m) \<Rightarrow> (Inr (), f\<lparr>fs_entry := ESame, fs_meta := Some m, fs_content := [], fs_fresh := None\<rparr>)
      | _ \<Rightarrow> (Inl OsErr, f)))"

definition os_fchmod :: "int \<Rightarrow> unit os" where
  "os_fchmod mode = os_call (\<lambda>f.
     if fs_chmod_ok f then (Inr (), f\<lparr>fs_meta := map_option (st_perm_update (\<lambda>_. mode)) (fs_meta f)\<rparr>) else (Inl OsErr, f))"

definition os_flock :: "unit os" where
  "os_flock = os_call (\<lambda>f. if fs_locked f then (Inl OsErr, f) else (Inr (), f\<lparr>fs_locked := True\<rparr>))"

definition os_pread :: "nat \<Rightarrow> nat \<Rightarrow> bytes os" where
  "os_pread n offset = os_call (\<lambda>f. (if fs_read_ok f then Inr (take n (drop offset (fs_content f))) else Inl OsErr, f))"

text \<open>\<open>os.write\<close> on a descriptor opened with \<open>O_APPEND\<close> takes at most \<open>fs_room\<close> bytes.\<close>

definition append_content :: "bytes \<Rightarrow> fs \<Rightarrow> fs" where
  "append_content bs f = f\<lparr>fs_content := fs_content f @ bs,
     fs_meta := map_option (\<lambda>m. m\<lparr>st_mtime := fs_clock f, st_ctime := fs_clock f\<rparr>) (fs_meta f)\<rparr>"

definition os_write :: "bytes \<Rightarrow> nat os" where
  "os_write bs = os_call (\<lambda>f.
     case fs_room f of
       None \<Rightarrow> (Inl OsErr, f)
     | Some n \<Rightarrow> (Inr (min n (length bs)), append_content (take n bs) f))"

definition os_fsync :: "unit os" where
  "os_fsync = os_call (\<lambda>f. (if fs_sync_ok f then Inr () else Inl OsErr, f))"

text \<open>Closing the file gives its lock back.\<close>

definition os_close_file :: "bool \<Rightarrow> unit os" where
  "os_close_file locked = os_call (\<lambda>f. (Inr (), if locked then f\<lparr>fs_locked := False\<rparr> else f))"

section \<open>\<open>_write_all\<close>, \<open>_metadata_identity\<close>, \<open>_content_state\<close>\<close>

definition is_os_error :: "sup_exn \<Rightarrow> bool" where
  "is_os_error e \<longleftrightarrow> e = OsErr \<or> e = OsMissing"

text \<open>\<open>try: m except OSError: raise SupervisorError(c)\<close>.\<close>

definition os_error_as :: "sup_category \<Rightarrow> ('s, sup_exn, 'a) sx \<Rightarrow> ('s, sup_exn, 'a) sx" where
  "os_error_as c m = scatch m (\<lambda>e. sraise (if is_os_error e then Sup c else e))"

function write_all :: "bytes \<Rightarrow> unit os" where
  "write_all content w =
     (if content = [] then sret () w
      else sbind (os_error_as JournalIo (os_write content)) (\<lambda>written.
           if written = 0 then sraise (Sup JournalIo) else write_all (drop written content)) w)"
  by pat_completeness auto
termination by (relation "measure (\<lambda>(bs, w). length bs)") auto

declare write_all.simps [simp del]

definition metadata_identity :: "file_stat \<Rightarrow> int \<times> int" where
  "metadata_identity m = (st_dev m, st_ino m)"

definition content_state :: "file_stat \<Rightarrow> nat \<times> int \<times> int" where
  "content_state m = (st_size m, st_mtime m, st_ctime m)"

lemmas journal_file_exec [exec] = os_call_def stat_result_def file_meta_def os_geteuid_def os_dup_dir_def
  os_fstat_dir_def os_fstat_file_def os_stat_entry_def os_open_existing_def os_open_create_def os_fchmod_def
  os_flock_def os_pread_def append_content_def os_write_def os_fsync_def os_close_file_def is_os_error_def
  os_error_as_def metadata_identity_def content_state_def

end
