(* ===== verification/Supervisor_Journal.thy ===== *)
theory Supervisor_Journal imports Main Journal_File begin

text \<open>
  \<open>SupervisorJournal\<close> of \<open>src/palimpsest_local/oci_supervisor.py\<close>: an append-only file of
  checksummed frames, verified in one pass when it is opened and from then on by its tail
  position and the stamp of the file. A method is a computation on the journal object and
  the operating system; the lock makes each of them one step. The four fields that
  \<open>_apply_semantics\<close> writes are one record, as the code saves and restores them together.
\<close>

record jpos =
  p_cursor :: int
  p_end :: nat
  p_chain :: bytes

record jview =
  v_phase :: sup_phase
  v_ready :: "int option"
  v_exit :: "process_exit option"
  v_error :: "sup_category option"

record snapshot =
  sn_view :: jview
  sn_cursor :: int

text \<open>A descriptor: \<open>None\<close> when closed, else whether it holds the lock of the file.\<close>

record journal =
  j_identity :: sup_identity
  j_closed :: bool
  j_failure :: "sup_category option"
  j_dir_open :: bool
  j_file :: "bool option"
  j_dir_id :: "(int \<times> int) option"
  j_file_id :: "(int \<times> int) option"
  j_tail :: jpos
  j_ready :: "jpos option"
  j_verified :: "(nat \<times> int \<times> int) option"
  j_view :: jview

type_synonym jstate = "journal \<times> world"
type_synonym 'a jm = "(jstate, sup_exn, 'a) sx"

definition journal_header :: bytes where
  "journal_header = bl ''PALIMPSEST-OCI-SUPERVISOR-HOST-JOURNAL-V1'' @ [10]"

definition journal_seed :: bytes where
  "journal_seed = sha256 journal_header"

definition start_view :: jview where
  "start_view = \<lparr>v_phase = PStarting, v_ready = None, v_exit = None, v_error = None\<rparr>"

definition checksum_bytes :: nat where "checksum_bytes = 32"
definition pull_limit :: int where "pull_limit = 1"

definition start_pos :: jpos where
  "start_pos = \<lparr>p_cursor = 0, p_end = length journal_header, p_chain = journal_seed\<rparr>"

definition journal_new :: "sup_identity \<Rightarrow> journal" where
  "journal_new i = \<lparr>j_identity = i, j_closed = False, j_failure = None, j_dir_open = False, j_file = None,
     j_dir_id = None, j_file_id = None, j_tail = start_pos, j_ready = None, j_verified = None, j_view = start_view\<rparr>"

section \<open>Plumbing\<close>

definition on_os :: "'a os \<Rightarrow> 'a jm" where
  "on_os m s = (case m (snd s) of (r, w) \<Rightarrow> (r, (fst s, w)))"

definition jput :: "(journal \<Rightarrow> journal) \<Rightarrow> unit jm" where
  "jput f = sput (map_prod f id)"

definition jget_field :: "(journal \<Rightarrow> 'a) \<Rightarrow> 'a jm" where
  "jget_field f = sget (\<lambda>s. f (fst s))"

section \<open>Guards\<close>

text \<open>The permissions 0700 and 0600 are 448 and 384.\<close>

definition require_open :: "unit jm" where
  "require_open s =
     (if j_closed (fst s) then sraise (Sup ClosedError)
      else case j_failure (fst s) of None \<Rightarrow> sret () | Some c \<Rightarrow> sraise (Sup c)) s"

definition latch_failure :: "sup_category \<Rightarrow> unit jm" where
  "latch_failure c = jput (\<lambda>j. if j_failure j = None then j\<lparr>j_failure := Some c\<rparr> else j)"

text \<open>\<open>_validate_binding\<close>: the identities are pinned the first time they are seen.\<close>

definition pin_dir :: "file_stat \<Rightarrow> unit jm" where
  "pin_dir m = jput (\<lambda>j. if j_dir_id j = None then j\<lparr>j_dir_id := Some (metadata_identity m)\<rparr> else j)"

definition pin_file :: "file_stat \<Rightarrow> unit jm" where
  "pin_file m = jput (\<lambda>j. if j_file_id j = None then j\<lparr>j_file_id := Some (metadata_identity m)\<rparr> else j)"

definition dir_ok :: "int \<Rightarrow> file_stat \<Rightarrow> bool" where
  "dir_ok euid d \<longleftrightarrow> st_kind d = FDir \<and> st_uid d = euid \<and> st_perm d = 448"

definition owned_file :: "int \<Rightarrow> file_stat \<Rightarrow> bool" where
  "owned_file euid m \<longleftrightarrow> st_kind m = FReg \<and> st_uid m = euid \<and> st_nlink m = 1 \<and> st_perm m = 384"

definition binding_ok :: "int \<Rightarrow> journal \<Rightarrow> file_stat \<Rightarrow> file_stat \<Rightarrow> file_stat \<Rightarrow> bool" where
  "binding_ok euid j d f e \<longleftrightarrow>
     dir_ok euid d \<and> Some (metadata_identity d) = j_dir_id j \<and> owned_file euid f \<and> owned_file euid e \<and>
     Some (metadata_identity f) = j_file_id j \<and> Some (metadata_identity e) = j_file_id j"

definition binding_stats :: "(file_stat \<times> file_stat \<times> file_stat) jm" where
  "binding_stats =
     os_error_as InvalidJournal
       (sbind (on_os os_fstat_dir) (\<lambda>d.
        sbind (on_os os_fstat_file) (\<lambda>f.
        sbind (on_os os_stat_entry) (\<lambda>e. sret (d, f, e)))))"

definition validate_binding :: "unit jm" where
  "validate_binding =
     sbind binding_stats (\<lambda>(d, f, e).
     sthen (pin_dir d)
    (sthen (pin_file f)
    (sbind (on_os os_geteuid) (\<lambda>euid.
     sbind (jget_field id) (\<lambda>j.
     sguard (binding_ok euid j d f e) (Sup InvalidJournal))))))"

section \<open>Reading\<close>

definition read_exact :: "nat \<Rightarrow> nat \<Rightarrow> bytes jm" where
  "read_exact offset n =
     sbind (os_error_as JournalIo (on_os (os_pread n offset))) (\<lambda>content.
     sthen (sguard (length content = n) (Sup JournalCorrupt)) (sret content))"

text \<open>\<open>_apply_semantics\<close>: what a record does to the phase, or \<open>JOURNAL_CORRUPT\<close>.\<close>

definition apply_semantics :: "journal_record \<Rightarrow> jview \<Rightarrow> sup_exn + jview" where
  "apply_semantics r v =
     (case (v_phase v, jr_kind r) of
        (PStarting, KReady) \<Rightarrow> Inr (v\<lparr>v_phase := PReady, v_ready := Some (jr_cursor r)\<rparr>)
      | (PStarting, KReadinessFailed) \<Rightarrow> Inr (v\<lparr>v_phase := PReadinessFailed, v_error := Some ReadinessFailed\<rparr>)
      | (PReady, KOutput) \<Rightarrow> Inr v
      | (PReady, KExit) \<Rightarrow> Inr (v\<lparr>v_phase := PExited, v_exit := jr_exit r\<rparr>)
      | (PReady, KDegraded) \<Rightarrow> Inr (v\<lparr>v_phase := PDegraded, v_error := Some ControlLost\<rparr>)
      | _ \<Rightarrow> Inl (Sup JournalCorrupt))"

definition jput_semantics :: "journal_record \<Rightarrow> unit jm" where
  "jput_semantics r =
     sbind (jget_field j_view) (\<lambda>v. sbind (slift (apply_semantics r v)) (\<lambda>v'. jput (\<lambda>j. j\<lparr>j_view := v'\<rparr>)))"

definition frame_of :: "bytes \<Rightarrow> bytes" where
  "frame_of payload = pack_u32 (length payload) @ payload @ sha256 payload"

definition read_record_at :: "nat \<Rightarrow> int \<Rightarrow> nat \<Rightarrow> (journal_record \<times> nat \<times> bytes) jm" where
  "read_record_at offset expected_cursor file_size =
     sthen (sguard (4 \<le> file_size - offset) (Sup JournalCorrupt))
    (sbind (read_exact offset 4) (\<lambda>len.
     let payload_length = unpack_u32 len; frame_length = 4 + payload_length + checksum_bytes in
     sthen (sguard (0 < payload_length \<and> payload_length \<le> max_frame_bytes) (Sup JournalCorrupt))
    (sthen (sguard (frame_length \<le> file_size - offset) (Sup JournalCorrupt))
    (sbind (read_exact (offset + 4) payload_length) (\<lambda>payload.
     sbind (read_exact (offset + 4 + payload_length) checksum_bytes) (\<lambda>checksum.
     sthen (sguard (checksum = sha256 payload) (Sup JournalCorrupt))
    (sbind (jget_field j_identity) (\<lambda>i.
     sbind (slift (decode_payload i payload expected_cursor)) (\<lambda>r.
     sret (r, frame_length, pack_u32 payload_length @ payload @ checksum))))))))))"

lemma read_record_at_length:
  "read_record_at offset c sz s = (Inr (r, n, fr), t) \<Longrightarrow> 0 < n \<and> n \<le> sz - offset"
  by (auto simp: read_record_at_def sx_results Let_def split: if_splits)

section \<open>\<open>_verify_full\<close>\<close>

text \<open>The loop over the frames; its state is the candidate cursor, readiness anchor and seal, and the offset.\<close>

function verify_loop :: "nat \<Rightarrow> nat \<Rightarrow> int \<Rightarrow> jpos option \<Rightarrow> bytes \<Rightarrow> (jpos \<times> jpos option) jm" where
  "verify_loop sz offset cursor ready seal s =
     (if offset < sz then
        sbind (read_record_at offset (cursor + 1) sz) (\<lambda>(r, n, fr).
          sthen (jput_semantics r)
            (let pos = \<lparr>p_cursor = cursor + 1, p_end = offset + n, p_chain = sha256 (seal @ fr)\<rparr>
             in verify_loop sz (p_end pos) (p_cursor pos) (if jr_kind r = KReady then Some pos else ready) (p_chain pos))) s
      else sret (\<lparr>p_cursor = cursor, p_end = offset, p_chain = seal\<rparr>, ready) s)"
  by pat_completeness auto
termination
  by (relation "measure (\<lambda>(sz, offset, _). sz - offset)") (auto dest!: read_record_at_length)

declare verify_loop.simps [simp del]

definition verify_full :: "unit jm" where
  "verify_full =
     sthen validate_binding
    (sbind (os_error_as JournalIo (on_os os_fstat_file)) (\<lambda>before.
     let sz = st_size before in
     sthen (sguard (length journal_header \<le> sz) (Sup JournalCorrupt))
    (sbind (read_exact 0 (length journal_header)) (\<lambda>head.
     sthen (sguard (head = journal_header) (Sup JournalCorrupt))
    (sthen (jput (\<lambda>j. j\<lparr>j_view := start_view\<rparr>))
    (sbind (verify_loop sz (length journal_header) 0 None journal_seed) (\<lambda>(tail, ready).
     sbind (os_error_as JournalIo (on_os os_fstat_file)) (\<lambda>after.
     sthen (sguard (content_state after = content_state before) (Sup JournalCorrupt))
    (jput (\<lambda>j. j\<lparr>j_tail := tail, j_ready := ready, j_verified := Some (content_state after)\<rparr>))))))))))"

section \<open>Opening\<close>

definition open_or_create :: "bool jm" where
  "open_or_create =
     scatch (sthen (on_os os_open_existing) (sret False)) (\<lambda>e.
       if e = OsMissing then os_error_as InvalidJournal (sthen (on_os os_open_create) (sret True))
       else os_error_as InvalidJournal (sraise e))"

definition write_header :: "unit jm" where
  "write_header =
     scatch (sthen (on_os (write_all journal_header)) (sthen (on_os os_fsync) (on_os os_fsync)))
       (\<lambda>_. sraise (Sup JournalIo))"

definition open_file :: "unit jm" where
  "open_file =
     sbind open_or_create (\<lambda>created.
     sthen (jput (\<lambda>j. j\<lparr>j_file := Some False\<rparr>))
    (sthen (if created then os_error_as JournalIo (on_os (os_fchmod 384)) else sret ())
    (sthen validate_binding
    (sthen (os_error_as JournalBusy (on_os os_flock))
    (sthen (jput (\<lambda>j. j\<lparr>j_file := Some True\<rparr>))
    (sthen validate_binding
    (if created then sthen write_header validate_binding else sret ())))))))"

definition journal_close :: "unit jm" where
  "journal_close =
     sbind (jget_field id) (\<lambda>j.
     if j_closed j then sret ()
     else sthen (jput (\<lambda>j. j\<lparr>j_closed := True\<rparr>))
         (sthen (case j_file j of None \<Rightarrow> sret () | Some locked \<Rightarrow> on_os (os_close_file locked))
                (jput (\<lambda>j. j\<lparr>j_file := None, j_dir_open := False\<rparr>))))"

text \<open>\<open>__init__\<close>: the object is \<open>journal_new\<close>; a failure closes it and is a \<open>SupervisorError\<close>.\<close>

definition open_steps :: "unit jm" where
  "open_steps =
     sthen (on_os os_dup_dir)
    (sthen (jput (\<lambda>j. j\<lparr>j_dir_open := True\<rparr>))
    (sbind (on_os os_fstat_dir) (\<lambda>d.
     sbind (on_os os_geteuid) (\<lambda>euid.
     sthen (sguard (dir_ok euid d) (Sup InvalidJournal))
    (sthen (jput (\<lambda>j. j\<lparr>j_dir_id := Some (metadata_identity d)\<rparr>))
    (sthen open_file verify_full))))))"

definition journal_open :: "unit jm" where
  "journal_open = scatch open_steps (\<lambda>e. sthen journal_close (sraise (if is_os_error e then Sup InvalidJournal else e)))"

section \<open>Steady state\<close>

definition stamp_steps :: "unit jm" where
  "stamp_steps =
     sthen validate_binding
    (sbind (on_os os_fstat_file) (\<lambda>m.
     sbind (jget_field j_verified) (\<lambda>v.
     sguard (v = Some (content_state m)) (Sup JournalCorrupt))))"

text \<open>\<open>except OSError: latch JOURNAL_IO; except SupervisorError: latch its category\<close>.\<close>

definition latching :: "'a jm \<Rightarrow> 'a jm" where
  "latching m = scatch m (\<lambda>e.
     case e of
       Sup c \<Rightarrow> sthen (latch_failure c) (sraise e)
     | _ \<Rightarrow> if is_os_error e then sthen (latch_failure JournalIo) (sraise (Sup JournalIo)) else sraise e)"

definition verify_stamp :: "unit jm" where
  "verify_stamp = latching stamp_steps"

definition ready_guard :: "unit jm" where
  "ready_guard = sthen require_open verify_stamp"

definition journal_cursor :: "int jm" where
  "journal_cursor = sthen ready_guard (jget_field (\<lambda>j. p_cursor (j_tail j)))"

definition journal_snapshot :: "snapshot jm" where
  "journal_snapshot = sthen ready_guard (jget_field (\<lambda>j. \<lparr>sn_view = j_view j, sn_cursor = p_cursor (j_tail j)\<rparr>))"

definition write_frame :: "bytes \<Rightarrow> nat \<Rightarrow> file_stat jm" where
  "write_frame frame offset =
     latching
       (sthen validate_binding
       (sthen (on_os (write_all frame))
       (sthen (on_os os_fsync)
       (sthen validate_binding
       (sbind (on_os os_fstat_file) (\<lambda>m.
        sthen (sguard (st_size m = offset + length frame) (Sup JournalCorrupt)) (sret m)))))))"

text \<open>The dry run of the record on the phase, which is restored in any case.\<close>

definition check_transition :: "journal_record \<Rightarrow> unit jm" where
  "check_transition r =
     sbind (jget_field j_view) (\<lambda>v.
     case apply_semantics r v of Inl _ \<Rightarrow> sraise (Sup InvalidTransition) | Inr _ \<Rightarrow> sret ())"

definition journal_append ::
  "record_kind \<Rightarrow> process_stream option \<Rightarrow> bytes option \<Rightarrow> process_exit option \<Rightarrow> sup_category option \<Rightarrow>
   journal_record jm" where
  "journal_append kind stream data ex err =
     sthen ready_guard
    (sbind (jget_field id) (\<lambda>j.
     let cursor = p_cursor (j_tail j) + 1 in
     sbind (slift (payload_for (j_identity j) cursor kind stream data ex err)) (\<lambda>payload.
     sthen (sguard (length payload \<le> max_frame_bytes) (Sup InvalidTransition))
    (sbind (slift (decode_payload (j_identity j) payload cursor)) (\<lambda>candidate.
     sthen (check_transition candidate)
    (let frame = frame_of payload; offset = p_end (j_tail j) in
     sbind (write_frame frame offset) (\<lambda>m.
     let pos = \<lparr>p_cursor = cursor, p_end = offset + length frame, p_chain = sha256 (p_chain (j_tail j) @ frame)\<rparr> in
     sthen (jput (\<lambda>j. j\<lparr>j_tail := pos, j_ready := (if jr_kind candidate = KReady then Some pos else j_ready j),
                        j_verified := Some (content_state m)\<rparr>))
    (sthen (jput_semantics candidate)
    (sret candidate)))))))))"

definition ready_position :: "jpos jm" where
  "ready_position =
     sthen ready_guard
    (sbind (jget_field id) (\<lambda>j.
     case (v_ready (j_view j), j_ready j) of
       (Some _, Some p) \<Rightarrow> sret p
     | _ \<Rightarrow> sraise (Sup NotReady)))"

definition position_ok :: "jpos \<Rightarrow> jpos \<Rightarrow> int \<Rightarrow> bool" where
  "position_ok tail p limit \<longleftrightarrow>
     0 \<le> p_cursor p \<and> p_cursor p \<le> p_cursor tail \<and> length journal_header \<le> p_end p \<and> p_end p \<le> p_end tail \<and>
     length (p_chain p) = checksum_bytes \<and> limit = pull_limit \<and> (p_cursor p = p_cursor tail \<longrightarrow> p = tail)"

text \<open>The loop of \<open>_pull_from_position\<close> runs at most \<open>limit\<close> times: it stops when that many records are there.\<close>

fun pull_loop :: "nat \<Rightarrow> jpos \<Rightarrow> jpos \<Rightarrow> (journal_record list \<times> jpos) jm" where
  "pull_loop 0 tail p s = (Inr ([], p), s)"
| "pull_loop (Suc n) tail p s =
     (if p_cursor p < p_cursor tail then
        sbind (read_record_at (p_end p) (p_cursor p + 1) (p_end tail)) (\<lambda>(r, len, fr).
        sbind (pull_loop n tail \<lparr>p_cursor = p_cursor p + 1, p_end = p_end p + len, p_chain = sha256 (p_chain p @ fr)\<rparr>)
          (\<lambda>(rs, q). sret (r # rs, q))) s
      else (Inr ([], p), s))"

definition pull_from_position :: "jpos \<Rightarrow> int \<Rightarrow> (journal_record list \<times> jpos) jm" where
  "pull_from_position position limit =
     sthen ready_guard
    (sbind (jget_field j_tail) (\<lambda>tail.
     sthen (sguard (position_ok tail position limit) (Sup JournalCorrupt))
    (latching
      (sbind (pull_loop (nat limit) tail position) (\<lambda>(rs, q).
       sthen (sguard (p_cursor q = p_cursor tail \<longrightarrow> q = tail) (Sup JournalCorrupt))
      (sthen verify_stamp (sret (rs, q))))))))"

lemmas supervisor_journal_exec [exec] = journal_header_def journal_seed_def start_view_def checksum_bytes_def
  pull_limit_def start_pos_def journal_new_def

end
