(* ===== verification/Journal_Logic.thy ===== *)
theory Journal_Logic imports Main Supervisor_Journal begin

text \<open>
  Reasoning about journal methods in a world where nobody tampers: \<open>gives m j c r j' c'\<close>
  says that \<open>m\<close>, started on the journal \<open>j\<close> in any world whose file system is \<open>c\<close> but for
  pending faults, returns \<open>r\<close> and leaves \<open>j'\<close> and \<open>c'\<close>. One rule per construct.
\<close>

definition fcore :: "fs \<Rightarrow> fs" where
  "fcore f = f\<lparr>fs_room := None, fs_sync_ok := True, fs_clock := 0\<rparr>"

lemma fcore_fields [simp]:
  "fs_euid (fcore f) = fs_euid f" "fs_dir (fcore f) = fs_dir f" "fs_meta (fcore f) = fs_meta f"
  "fs_entry (fcore f) = fs_entry f" "fs_content (fcore f) = fs_content f" "fs_fresh (fcore f) = fs_fresh f"
  "fs_read_ok (fcore f) = fs_read_ok f" "fs_chmod_ok (fcore f) = fs_chmod_ok f" "fs_dup_ok (fcore f) = fs_dup_ok f"
  "fs_locked (fcore f) = fs_locked f" "file_meta (fcore f) = file_meta f"
  by (simp_all add: fcore_def file_meta_def)

definition tame :: "world \<Rightarrow> bool" where
  "tame w \<longleftrightarrow> list_all (\<lambda>ev. case ev of Fault _ _ _ \<Rightarrow> True | Tamper _ \<Rightarrow> False) (w_env w)"

definition wcore :: "world \<Rightarrow> fs" where
  "wcore w = fcore (w_fs w)"

lemma os_call_tame:
  assumes "tame w" "wcore w = c"
  shows "\<exists>f. fcore f = c \<and> (\<forall>x. tame \<lparr>w_fs = x, w_env = tl (w_env w)\<rparr>) \<and>
    os_call g w = (fst (g f), \<lparr>w_fs = snd (g f), w_env = tl (w_env w)\<rparr>)"
proof (cases "w_env w")
  case Nil
  with assms show ?thesis
    by (intro exI [of _ "w_fs w"]) (auto simp: tame_def wcore_def os_call_def Let_def split_beta)
next
  case (Cons ev evs)
  with assms(1) obtain r s t where ev: "ev = Fault r s t" by (auto simp: tame_def split: event.splits)
  then have "fcore (happen ev (w_fs w)) = c" using assms(2) by (simp add: wcore_def fcore_def)
  with assms(1) Cons show ?thesis
    by (intro exI [of _ "happen ev (w_fs w)"]) (auto simp: tame_def os_call_def Let_def split_beta)
qed

definition gives :: "'a jm \<Rightarrow> journal \<Rightarrow> fs \<Rightarrow> sup_exn + 'a \<Rightarrow> journal \<Rightarrow> fs \<Rightarrow> bool" where
  "gives m j c r j' c' \<longleftrightarrow>
     (\<forall>w. tame w \<longrightarrow> wcore w = c \<longrightarrow> (\<exists>w'. m (j, w) = (r, (j', w')) \<and> tame w' \<and> wcore w' = c'))"

lemma givesD:
  assumes "gives m j c r j' c'" "tame w" "wcore w = c"
  obtains w' where "m (j, w) = (r, (j', w'))" "tame w'" "wcore w' = c'"
  using assms by (auto simp: gives_def)

named_theorems gives_rules

lemma gives_simple [gives_rules]:
  "gives (sret x) j c (Inr x) j c"
  "gives (sraise e) j c (Inl e) j c"
  "gives (jget_field h) j c (Inr (h j)) j c"
  "gives (jput p) j c (Inr ()) (p j) c"
  "gives (slift r) j c r j c"
  by (auto simp: gives_def jget_field_def jput_def)

lemma gives_guard [gives_rules]: "b \<Longrightarrow> gives (sguard b e) j c (Inr ()) j c"
  by (simp add: gives_def)

lemma gives_guard_fails: "\<not> b \<Longrightarrow> gives (sguard b e) j c (Inl e) j c"
  by (simp add: gives_def)

lemma gives_sbind:
  assumes "gives m j c (Inr x) j1 c1" "gives (f x) j1 c1 r j2 c2"
  shows "gives (sbind m f) j c r j2 c2"
  unfolding gives_def
proof (intro allI impI)
  fix w assume w: "tame w" "wcore w = c"
  obtain w1 where "m (j, w) = (Inr x, (j1, w1))" "tame w1" "wcore w1 = c1" using givesD [OF assms(1) w] .
  moreover from this obtain w2 where "f x (j1, w1) = (r, (j2, w2))" "tame w2" "wcore w2 = c2" using givesD [OF assms(2)] by blast
  ultimately show "\<exists>w'. sbind m f (j, w) = (r, (j2, w')) \<and> tame w' \<and> wcore w' = c2" by (auto simp: sbind_def)
qed

lemma gives_sbind_fails: "gives m j c (Inl e) j1 c1 \<Longrightarrow> gives (sbind m f) j c (Inl e) j1 c1"
  by (fastforce simp: gives_def sbind_def)

lemma gives_sthen: "gives m j c (Inr ()) j1 c1 \<Longrightarrow> gives k j1 c1 r j2 c2 \<Longrightarrow> gives (sthen m k) j c r j2 c2"
  unfolding sthen_def by (rule gives_sbind)

lemma gives_sthen_fails: "gives m j c (Inl e) j1 c1 \<Longrightarrow> gives (sthen m k) j c (Inl e) j1 c1"
  unfolding sthen_def by (rule gives_sbind_fails)

lemma gives_scatch: "gives m j c (Inr x) j1 c1 \<Longrightarrow> gives (scatch m h) j c (Inr x) j1 c1"
  by (fastforce simp: gives_def scatch_def)

lemma gives_scatch_fails:
  assumes "gives m j c (Inl e) j1 c1" "gives (h e) j1 c1 r j2 c2"
  shows "gives (scatch m h) j c r j2 c2"
  unfolding gives_def
proof (intro allI impI)
  fix w assume w: "tame w" "wcore w = c"
  obtain w1 where "m (j, w) = (Inl e, (j1, w1))" "tame w1" "wcore w1 = c1" using givesD [OF assms(1) w] .
  moreover from this obtain w2 where "h e (j1, w1) = (r, (j2, w2))" "tame w2" "wcore w2 = c2" using givesD [OF assms(2)] by blast
  ultimately show "\<exists>w'. scatch m h (j, w) = (r, (j2, w')) \<and> tame w' \<and> wcore w' = c2" by (auto simp: scatch_def)
qed

lemma gives_os_error_as: "gives m j c (Inr x) j1 c1 \<Longrightarrow> gives (os_error_as k m) j c (Inr x) j1 c1"
  unfolding os_error_as_def by (rule gives_scatch)

lemma gives_os_error_as_fails:
  "gives m j c (Inl e) j1 c1 \<Longrightarrow> gives (os_error_as k m) j c (Inl (if is_os_error e then Sup k else e)) j1 c1"
  unfolding os_error_as_def by (erule gives_scatch_fails) (rule gives_simple(2))

lemma gives_latching: "gives m j c (Inr x) j1 c1 \<Longrightarrow> gives (latching m) j c (Inr x) j1 c1"
  unfolding latching_def by (rule gives_scatch)

definition latch :: "sup_category \<Rightarrow> journal \<Rightarrow> journal" where
  "latch k j = (if j_failure j = None then j\<lparr>j_failure := Some k\<rparr> else j)"

lemma gives_latching_fails:
  "gives m j c (Inl (Sup k)) j1 c1 \<Longrightarrow> gives (latching m) j c (Inl (Sup k)) (latch k j1) c1"
  unfolding latching_def latch_failure_def latch_def
  by (rule gives_scatch_fails, assumption) (auto intro!: gives_sthen gives_simple)

text \<open>Calls that only look.\<close>

lemma gives_os_look:
  assumes "\<And>f. fcore f = c \<Longrightarrow> g f = (r, f)"
  shows "gives (on_os (os_call g)) j c r j c"
  unfolding gives_def
proof (intro allI impI)
  fix w assume w: "tame w" "wcore w = c"
  obtain f where "fcore f = c" "tame \<lparr>w_fs = f, w_env = tl (w_env w)\<rparr>"
    "os_call g w = (fst (g f), \<lparr>w_fs = snd (g f), w_env = tl (w_env w)\<rparr>)"
    using os_call_tame [OF w, of g] by blast
  with assms show "\<exists>w'. on_os (os_call g) (j, w) = (r, (j, w')) \<and> tame w' \<and> wcore w' = c"
    by (auto simp: on_os_def wcore_def)
qed

lemma gives_fstat_dir: "fs_dir c = Some d \<Longrightarrow> gives (on_os os_fstat_dir) j c (Inr d) j c"
  unfolding os_fstat_dir_def by (rule gives_os_look) (auto simp: stat_result_def)

lemma gives_fstat_file: "file_meta c = Some m \<Longrightarrow> gives (on_os os_fstat_file) j c (Inr m) j c"
  unfolding os_fstat_file_def by (rule gives_os_look) (auto simp: stat_result_def)

lemma gives_stat_entry: "fs_entry c = ESame \<Longrightarrow> file_meta c = Some m \<Longrightarrow> gives (on_os os_stat_entry) j c (Inr m) j c"
  unfolding os_stat_entry_def by (rule gives_os_look) (auto simp: stat_result_def)

lemma gives_pread:
  "fs_read_ok c \<Longrightarrow> gives (on_os (os_pread n off)) j c (Inr (take n (drop off (fs_content c)))) j c"
  unfolding os_pread_def by (rule gives_os_look) auto

lemma gives_geteuid: "gives (on_os os_geteuid) j c (Inr (fs_euid c)) j c"
  by (auto simp: gives_def on_os_def os_geteuid_def wcore_def)

section \<open>Symbolic execution\<close>

lemma step_simps:
  "sbind (jget_field h) k s = k (h (fst s)) s"
  "sbind (slift (Inr x)) k s = k x s"
  "sbind (slift (Inl e)) k s = (Inl e, s)"
  "sthen (jput p) l s = l (p (fst s), snd s)"
  "sthen (sguard b e) l s = (if b then l s else (Inl e, s))"
  "sthen (sret ()) l s = l s"
  "sthen (sraise e) l s = (Inl e, s)"
  by (auto simp: sbind_def sthen_def jget_field_def jput_def map_prod_def split_beta)

section \<open>A bound journal\<close>

text \<open>The directory and the file are where and what the journal was opened on.\<close>

definition fs_bound :: "journal \<Rightarrow> fs \<Rightarrow> bool" where
  "fs_bound j f \<longleftrightarrow>
     fs_entry f = ESame \<and>
     (case (fs_dir f, file_meta f) of
        (Some d, Some m) \<Rightarrow> binding_ok (fs_euid f) j d m m
      | _ \<Rightarrow> False)"

lemma fs_boundE:
  assumes "fs_bound j f"
  obtains d m where "fs_dir f = Some d" "file_meta f = Some m" "binding_ok (fs_euid f) j d m m" "fs_entry f = ESame"
    "st_size m = length (fs_content f)"
  using assms by (auto simp: fs_bound_def file_meta_def split: option.splits)

lemma fs_bound_cong: "j_dir_id j' = j_dir_id j \<Longrightarrow> j_file_id j' = j_file_id j \<Longrightarrow> fs_bound j' c = fs_bound j c"
  by (auto simp: fs_bound_def binding_ok_def split: option.splits)

lemma pin_bound: "binding_ok e j d m m \<Longrightarrow> j_dir_id j \<noteq> None \<and> j_file_id j \<noteq> None"
  by (metis binding_ok_def option.distinct(1))

lemma gives_validate:
  assumes "fs_bound j c"
  shows "gives validate_binding j c (Inr ()) j c"
proof -
  from assms obtain d m where m: "fs_dir c = Some d" "file_meta c = Some m" "binding_ok (fs_euid c) j d m m" "fs_entry c = ESame"
    by (rule fs_boundE)
  have "gives binding_stats j c (Inr (d, m, m)) j c"
    unfolding binding_stats_def
    by (intro gives_os_error_as gives_sbind [OF gives_fstat_dir [OF m(1)]] gives_sbind [OF gives_fstat_file [OF m(2)]]
        gives_sbind [OF gives_stat_entry [OF m(4,2)]] gives_simple(1))
  moreover have "gives (pin_dir d) j c (Inr ()) j c" "gives (pin_file m) j c (Inr ()) j c"
    using pin_bound [OF m(3)] unfolding pin_dir_def pin_file_def by (auto simp: gives_def jput_def)
  moreover have "gives (sguard (binding_ok (fs_euid c) j d m m) (Sup InvalidJournal)) j c (Inr ()) j c"
    using m(3) by (rule gives_guard)
  ultimately show ?thesis
    unfolding validate_binding_def
    by (auto intro!: gives_sbind [of binding_stats] gives_sthen [of "pin_dir d"] gives_sthen [of "pin_file m"]
        gives_sbind [OF gives_geteuid] gives_sbind [OF gives_simple(3)])
qed

end
