(* ===== verification/Journal_Log.thy ===== *)
theory Journal_Log imports Main Journal_Logic Supervisor_Payload begin

text \<open>
  The abstract journal is a list of records: its file image, the anchors (tail and
  readiness position) and the phase it leads to are functions of the list. The lemmas show
  that reading and verifying the image gives the list's anchors and phase back.
\<close>

section \<open>The abstract journal\<close>

definition frame_bytes :: "sup_identity \<Rightarrow> journal_record \<Rightarrow> bytes" where
  "frame_bytes i r = (case record_payload i r of Inl _ \<Rightarrow> [] | Inr b \<Rightarrow> frame_of b)"

definition pos_next :: "sup_identity \<Rightarrow> jpos \<Rightarrow> journal_record \<Rightarrow> jpos" where
  "pos_next i p r = \<lparr>p_cursor = p_cursor p + 1, p_end = p_end p + length (frame_bytes i r),
     p_chain = sha256 (p_chain p @ frame_bytes i r)\<rparr>"

definition anchor_step :: "sup_identity \<Rightarrow> jpos \<times> jpos option \<Rightarrow> journal_record \<Rightarrow> jpos \<times> jpos option" where
  "anchor_step i a r = (let q = pos_next i (fst a) r in (q, if jr_kind r = KReady then Some q else snd a))"

definition anchors :: "sup_identity \<Rightarrow> journal_record list \<Rightarrow> jpos \<times> jpos option" where
  "anchors i rs = foldl (anchor_step i) (start_pos, None) rs"

definition log_view :: "journal_record list \<Rightarrow> sup_exn + jview" where
  "log_view rs = rfold (\<lambda>v r. apply_semantics r v) start_view rs"

definition log_image :: "sup_identity \<Rightarrow> journal_record list \<Rightarrow> bytes" where
  "log_image i rs = journal_header @ concat (map (frame_bytes i) rs)"

definition entry_ok :: "sup_identity \<Rightarrow> nat \<Rightarrow> journal_record \<Rightarrow> bool" where
  "entry_ok i n r \<longleftrightarrow> jr_cursor r = int n \<and> record_ok r \<and> (\<exists>b. record_payload i r = Inr b \<and> length b \<le> max_frame_bytes)"

definition log_ok :: "sup_identity \<Rightarrow> journal_record list \<Rightarrow> bool" where
  "log_ok i rs \<longleftrightarrow> identity_ok i \<and> (\<forall>n < length rs. entry_ok i (Suc n) (rs ! n)) \<and> (\<exists>v. log_view rs = Inr v)"

lemma anchors_simps [simp]:
  "anchors i [] = (start_pos, None)"
  "anchors i (rs @ [r]) = anchor_step i (anchors i rs) r"
  by (simp_all add: anchors_def)

lemma log_image_simps [simp]:
  "log_image i [] = journal_header"
  "log_image i (rs @ ss) = log_image i rs @ concat (map (frame_bytes i) ss)"
  by (simp_all add: log_image_def)

lemma rbind_return [simp]: "rbind m Inr = m"
  by (cases m) simp_all

lemma log_view_simps [simp]:
  "log_view [] = Inr start_view"
  "log_view (rs @ [r]) = rbind (log_view rs) (apply_semantics r)"
  by (simp_all add: log_view_def rfold_append)

lemma fst_anchor_step [simp]: "fst (anchor_step i a r) = pos_next i (fst a) r"
  by (simp add: anchor_step_def Let_def)

lemma anchors_pos:
  "p_cursor (fst (anchors i rs)) = int (length rs)"
  "p_end (fst (anchors i rs)) = length (log_image i rs)"
  "length (p_chain (fst (anchors i rs))) = checksum_bytes"
  by (induction rs rule: rev_induct) (simp_all add: start_pos_def pos_next_def journal_seed_def checksum_bytes_def)

lemma log_ok_snoc:
  "log_ok i (rs @ [r]) \<longleftrightarrow> log_ok i rs \<and> entry_ok i (Suc (length rs)) r \<and> (\<exists>v'. log_view (rs @ [r]) = Inr v')"
  by (auto simp: log_ok_def rbind_Inr_iff All_less_Suc nth_append)

lemma log_ok_prefix: "log_ok i (rs @ ss) \<Longrightarrow> log_ok i rs"
  by (induction ss rule: rev_induct) (simp_all add: log_ok_snoc flip: append_assoc)

lemma entry_frame:
  assumes "identity_ok i" "entry_ok i n r"
  obtains b where "record_payload i r = Inr b" "frame_bytes i r = frame_of b" "0 < length b" "length b \<le> max_frame_bytes"
    "decode_payload i b (int n) = Inr r"
proof -
  from assms(2) obtain b where b: "record_payload i r = Inr b" "length b \<le> max_frame_bytes" "record_ok r" "jr_cursor r = int n"
    by (auto simp: entry_ok_def)
  from payload_for_Inr [OF assms(1) record_exit_ok [OF b(3)] b(1)] obtain t
    where "dump (canon (JObj (record_items i r))) = Some t" "length b = length t" by blast
  then have "0 < length b" using dump_starts by (fastforce simp: starts_value_def)
  with b record_payload_decodes [OF assms(1) b(3,1)] that show ?thesis by (simp add: frame_bytes_def)
qed

section \<open>Reading a frame\<close>

lemma length_frame_of [simp]: "length (frame_of b) = 4 + length b + checksum_bytes"
  by (simp add: frame_of_def checksum_bytes_def)

lemma gives_read_exact:
  assumes "fs_read_ok c" "fs_content c = pre @ bs @ post" "length pre = off" "length bs = n"
  shows "gives (read_exact off n) j c (Inr bs) j c"
proof -
  have "take n (drop off (fs_content c)) = bs" using assms by auto
  then have r: "gives (on_os (os_pread n off)) j c (Inr bs) j c" using gives_pread [OF assms(1), of n off j] by simp
  show ?thesis
    unfolding read_exact_def
    by (intro gives_sbind [OF gives_os_error_as [OF r]] gives_sthen [OF gives_guard [OF assms(4)]] gives_simple(1))
qed

lemma max_frame_u32: "n \<le> max_frame_bytes \<Longrightarrow> unpack_u32 (pack_u32 n) = n"
  by (rule unpack_pack_u32) (simp add: max_frame_bytes_def)

lemma gives_read_record:
  assumes c: "fs_read_ok c" "fs_content c = pre @ frame_of b @ post" "length pre = off"
    and b: "0 < length b" "length b \<le> max_frame_bytes" and sz: "off + length (frame_of b) \<le> sz"
    and d: "decode_payload (j_identity j) b cur = Inr r"
  shows "gives (read_record_at off cur sz) j c (Inr (r, length (frame_of b), frame_of b)) j c"
proof -
  have 1: "gives (read_exact off 4) j c (Inr (pack_u32 (length b))) j c"
    by (rule gives_read_exact [OF c(1), where pre = pre and post = "b @ sha256 b @ post"]) (use c in \<open>simp_all add: frame_of_def\<close>)
  have 2: "gives (read_exact (off + 4) (length b)) j c (Inr b) j c"
    by (rule gives_read_exact [OF c(1), where pre = "pre @ pack_u32 (length b)" and post = "sha256 b @ post"])
       (use c in \<open>simp_all add: frame_of_def\<close>)
  have 3: "gives (read_exact (off + 4 + length b) checksum_bytes) j c (Inr (sha256 b)) j c"
    by (rule gives_read_exact [OF c(1), where pre = "pre @ pack_u32 (length b) @ b" and post = post])
       (use c in \<open>simp_all add: frame_of_def checksum_bytes_def\<close>)
  have 4: "gives (slift (decode_payload (j_identity j) b cur)) j c (Inr r) j c"
    using gives_simple(5) [of "decode_payload (j_identity j) b cur" j c] d by simp
  have f: "frame_of b = pack_u32 (length b) @ b @ sha256 b" by (simp add: frame_of_def)
  show ?thesis
    unfolding read_record_at_def f
    by (rule gives_sthen [OF gives_guard], use sz in simp)
       (rule gives_sbind [OF 1], unfold Let_def max_frame_u32 [OF b(2)],
        rule gives_sthen [OF gives_guard], use b in simp,
        rule gives_sthen [OF gives_guard], use sz in \<open>simp add: checksum_bytes_def\<close>,
        rule gives_sbind [OF 2], rule gives_sbind [OF 3],
        rule gives_sthen [OF gives_guard], simp,
        rule gives_sbind [OF gives_simple(3)], rule gives_sbind [OF 4],
        use gives_simple(1) in \<open>simp add: checksum_bytes_def\<close>)
qed

text \<open>A frame cut short is refused.\<close>

lemma gives_read_torn:
  assumes c: "fs_read_ok c" "fs_content c = pre @ z" "length pre = off" "sz = length (fs_content c)"
    and z: "frame_of b = z @ rest" "rest \<noteq> []" and b: "0 < length b" "length b \<le> max_frame_bytes"
  shows "gives (read_record_at off cur sz) j c (Inl (Sup JournalCorrupt)) j c"
proof (cases "4 \<le> sz - off")
  case False
  then show ?thesis unfolding read_record_at_def by (intro gives_sthen_fails gives_guard_fails)
next
  case True
  have len: "sz - off = length z" using c by simp
  have lt: "length z < length (frame_of b)" using z by simp
  have "take 4 z = take 4 (frame_of b)" using True len z by (simp add: take_append)
  then have "z = pack_u32 (length b) @ drop 4 z" using append_take_drop_id [of 4 z] by (simp add: frame_of_def)
  then have 1: "gives (read_exact off 4) j c (Inr (pack_u32 (length b))) j c"
    by (intro gives_read_exact [OF c(1), where pre = pre and post = "drop 4 z"]) (use c in simp_all)
  show ?thesis
    unfolding read_record_at_def
    by (rule gives_sthen [OF gives_guard [OF True]])
       (rule gives_sbind [OF 1], unfold Let_def max_frame_u32 [OF b(2)],
        rule gives_sthen [OF gives_guard], use b in simp,
        rule gives_sthen_fails [OF gives_guard_fails], use lt len in simp)
qed

section \<open>Verification\<close>

lemma gives_jput_semantics:
  "apply_semantics r (j_view j) = Inr v \<Longrightarrow> gives (jput_semantics r) j c (Inr ()) (j\<lparr>j_view := v\<rparr>) c"
  unfolding jput_semantics_def
  by (rule gives_sbind [OF gives_simple(3)], rule gives_sbind [where x = v])
     (use gives_simple(5) [of "apply_semantics r (j_view j)" j c] in simp, rule gives_simple(4))

lemma verify_loop_unfold:
  "verify_loop sz offset cursor ready seal =
     (if offset < sz then
        sbind (read_record_at offset (cursor + 1) sz) (\<lambda>(r, n, fr).
          sthen (jput_semantics r)
            (let pos = \<lparr>p_cursor = cursor + 1, p_end = offset + n, p_chain = sha256 (seal @ fr)\<rparr>
             in verify_loop sz (p_end pos) (p_cursor pos) (if jr_kind r = KReady then Some pos else ready) (p_chain pos)))
      else sret (\<lparr>p_cursor = cursor, p_end = offset, p_chain = seal\<rparr>, ready))"
  by (rule ext) (subst verify_loop.simps, simp)

abbreviation loop_at :: "nat \<Rightarrow> jpos \<times> jpos option \<Rightarrow> (jpos \<times> jpos option) jm" where
  "loop_at sz a \<equiv> verify_loop sz (p_end (fst a)) (p_cursor (fst a)) (snd a) (p_chain (fst a))"

text \<open>The loop walks over the records one by one; what it does at the end is left open here.\<close>

lemma gives_loop_step:
  assumes "fs_read_ok c" "fs_content c = log_image i (xs @ [r]) @ z" "sz = length (fs_content c)" "log_ok i (xs @ [r])"
    and j: "j_identity j = i" "log_view xs = Inr (j_view j)" "log_view (xs @ [r]) = Inr v"
    and next_gives: "gives (loop_at sz (anchors i (xs @ [r]))) (j\<lparr>j_view := v\<rparr>) c res j' c"
  shows "gives (loop_at sz (anchors i xs)) j c res j' c"
proof -
  let ?p = "fst (anchors i xs)"
  have e: "entry_ok i (Suc (length xs)) r" "identity_ok i" using assms(4) by (auto simp: log_ok_snoc log_ok_def)
  obtain b where b: "frame_bytes i r = frame_of b" "0 < length b" "length b \<le> max_frame_bytes"
    "decode_payload i b (int (Suc (length xs))) = Inr r" using entry_frame [OF e(2,1)] .
  have content: "fs_content c = log_image i xs @ frame_of b @ z" using assms(2) b(1) by simp
  have "gives (read_record_at (p_end ?p) (p_cursor ?p + 1) sz) j c (Inr (r, length (frame_of b), frame_of b)) j c"
    by (rule gives_read_record [OF assms(1) content]) (use b j assms(3) content in \<open>simp_all add: anchors_pos add.commute\<close>)
  moreover have "apply_semantics r (j_view j) = Inr v" using j by simp
  then have "gives (jput_semantics r) j c (Inr ()) (j\<lparr>j_view := v\<rparr>) c" by (rule gives_jput_semantics)
  moreover have "p_end ?p < sz" using assms(3) content by (simp add: anchors_pos checksum_bytes_def)
  moreover have "loop_at sz (anchors i (xs @ [r])) =
      (let pos = \<lparr>p_cursor = p_cursor ?p + 1, p_end = p_end ?p + length (frame_of b), p_chain = sha256 (p_chain ?p @ frame_of b)\<rparr>
       in verify_loop sz (p_end pos) (p_cursor pos) (if jr_kind r = KReady then Some pos else snd (anchors i xs)) (p_chain pos))"
    by (simp add: anchor_step_def pos_next_def b(1) Let_def)
  ultimately show ?thesis
    using next_gives by (subst verify_loop_unfold) (auto intro!: gives_sbind [of "read_record_at _ _ _"] gives_sthen [of "jput_semantics r"])
qed

lemma gives_loop:
  assumes "fs_read_ok c" "fs_content c = log_image i (xs @ ys) @ z" "sz = length (fs_content c)" "log_ok i (xs @ ys)"
    and "j_identity j = i" "log_view xs = Inr (j_view j)" "log_view (xs @ ys) = Inr v"
    and "gives (loop_at sz (anchors i (xs @ ys))) (j\<lparr>j_view := v\<rparr>) c res j' c"
  shows "gives (loop_at sz (anchors i xs)) j c res j' c"
  using assms
proof (induction ys arbitrary: xs j)
  case Nil
  then have "j\<lparr>j_view := v\<rparr> = j" by simp
  with Nil show ?case by simp
next
  case (Cons y ys)
  have "xs @ y # ys = (xs @ [y]) @ ys" by simp
  note p = Cons.prems [unfolded this]
  have ok: "log_ok i (xs @ [y])" using p(4) log_ok_prefix by blast
  then obtain v1 where v1: "log_view (xs @ [y]) = Inr v1" unfolding log_ok_def by blast
  have "gives (loop_at sz (anchors i (xs @ [y]))) (j\<lparr>j_view := v1\<rparr>) c res j' c"
    by (rule Cons.IH) (use p v1 in \<open>simp_all del: log_view_simps(2) append_assoc\<close>)
  then show ?case
    by (rule gives_loop_step [OF p(1) _ p(3) ok p(5,6) v1, rotated]) (use p(2) in simp)
qed

lemma gives_loop_end:
  assumes "fs_content c = log_image i rs" "sz = length (fs_content c)"
  shows "gives (loop_at sz (anchors i rs)) j c (Inr (anchors i rs)) j c"
proof -
  have "\<not> p_end (fst (anchors i rs)) < sz" using assms by (simp add: anchors_pos)
  moreover have "(\<lparr>p_cursor = p_cursor (fst a), p_end = p_end (fst a), p_chain = p_chain (fst a)\<rparr>, snd a) = a" for a :: "jpos \<times> jpos option"
    by (cases a) simp
  ultimately show ?thesis using gives_simple(1) [of "anchors i rs" j c] by (subst verify_loop_unfold) simp
qed

lemma gives_loop_torn:
  assumes "fs_read_ok c" "fs_content c = log_image i rs @ z" "sz = length (fs_content c)"
    and z: "frame_of b = z @ rest" "rest \<noteq> []" "z \<noteq> []" and b: "0 < length b" "length b \<le> max_frame_bytes"
  shows "gives (loop_at sz (anchors i rs)) j c (Inl (Sup JournalCorrupt)) j c"
proof -
  have "gives (read_record_at (p_end (fst (anchors i rs))) (p_cursor (fst (anchors i rs)) + 1) sz) j c (Inl (Sup JournalCorrupt)) j c"
    by (rule gives_read_torn [OF assms(1,2) _ assms(3) z(1,2) b]) (simp add: anchors_pos)
  moreover have "p_end (fst (anchors i rs)) < sz" using assms(2,3) z(3) by (simp add: anchors_pos)
  ultimately show ?thesis by (subst verify_loop_unfold) (simp add: gives_sbind_fails)
qed

end
