(* ===== verification/Journal_Refine.thy ===== *)
theory Journal_Refine imports Main Journal_Log begin

text \<open>
  The open journal refines the abstract list of records: \<open>journal_at i rs j c\<close> relates a
  journal object and a file system to the list, and every method keeps the relation or
  latches a failure.
\<close>

section \<open>The relation\<close>

definition journal_at :: "sup_identity \<Rightarrow> journal_record list \<Rightarrow> journal \<Rightarrow> fs \<Rightarrow> bool" where
  "journal_at i rs j c \<longleftrightarrow>
     j_identity j = i \<and> \<not> j_closed j \<and> j_failure j = None \<and> fs_bound j c \<and> fs_read_ok c \<and> log_ok i rs \<and>
     fs_content c = log_image i rs \<and> (j_tail j, j_ready j) = anchors i rs \<and> log_view rs = Inr (j_view j) \<and>
     j_verified j = map_option content_state (file_meta c)"

lemma journal_at_parts:
  assumes "journal_at i rs j c"
  shows "j_identity j = i" "\<not> j_closed j" "j_failure j = None" "fs_bound j c" "fs_read_ok c" "log_ok i rs"
    "fs_content c = log_image i rs" "j_tail j = fst (anchors i rs)" "j_ready j = snd (anchors i rs)"
    "log_view rs = Inr (j_view j)" "j_verified j = map_option content_state (file_meta c)"
    "p_cursor (j_tail j) = int (length rs)" "p_end (j_tail j) = length (log_image i rs)"
proof -
  from assms have "(j_tail j, j_ready j) = anchors i rs" by (simp add: journal_at_def)
  then show t: "j_tail j = fst (anchors i rs)" and "j_ready j = snd (anchors i rs)" by (metis fst_conv, metis snd_conv)
  show "p_cursor (j_tail j) = int (length rs)" "p_end (j_tail j) = length (log_image i rs)"
    unfolding t by (rule anchors_pos)+
qed (use assms in \<open>simp_all add: journal_at_def\<close>)

lemma gives_guard_ready:
  assumes "journal_at i rs j c"
  shows "gives ready_guard j c (Inr ()) j c" "gives verify_stamp j c (Inr ()) j c"
proof -
  note p = journal_at_parts [OF assms]
  obtain d m where m: "file_meta c = Some m" using fs_boundE [OF p(4)] by metis
  have "gives require_open j c (Inr ()) j c" using p(2,3) by (simp add: gives_def require_open_def)
  moreover have "gives stamp_steps j c (Inr ()) j c"
    unfolding stamp_steps_def
    by (intro gives_sthen [OF gives_validate [OF p(4)]] gives_sbind [OF gives_fstat_file [OF m]]
        gives_sbind [OF gives_simple(3)] gives_guard) (simp add: p(11) m)
  then show "gives verify_stamp j c (Inr ()) j c" unfolding verify_stamp_def by (rule gives_latching)
  ultimately show "gives ready_guard j c (Inr ()) j c" unfolding ready_guard_def by (rule gives_sthen)
qed

lemma gives_snapshot:
  assumes "journal_at i rs j c"
  shows "gives journal_snapshot j c (Inr \<lparr>sn_view = j_view j, sn_cursor = int (length rs)\<rparr>) j c"
  unfolding journal_snapshot_def
  using gives_sthen [OF gives_guard_ready(1) [OF assms]
      gives_simple(3) [of "\<lambda>j. \<lparr>sn_view = j_view j, sn_cursor = p_cursor (j_tail j)\<rparr>"]]
  by (simp add: journal_at_parts(12) [OF assms])

section \<open>Full verification\<close>

lemma gives_verify_full:
  assumes b: "fs_bound j c" and r: "fs_read_ok c" and ok: "log_ok i rs" and i: "j_identity j = i"
    and content: "fs_content c = log_image i rs" and m: "file_meta c = Some m" and v: "log_view rs = Inr v"
  shows "gives verify_full j c (Inr ())
           (j\<lparr>j_view := v, j_tail := fst (anchors i rs), j_ready := snd (anchors i rs), j_verified := Some (content_state m)\<rparr>) c"
proof -
  let ?j = "j\<lparr>j_view := start_view\<rparr>"
  have sz: "st_size m = length (fs_content c)" using m by (auto simp: file_meta_def)
  have f: "gives (os_error_as JournalIo (on_os os_fstat_file)) k c (Inr m) k c" for k
    by (rule gives_os_error_as [OF gives_fstat_file [OF m]])
  have h: "gives (read_exact 0 (length journal_header)) j c (Inr journal_header) j c"
    by (rule gives_read_exact [OF r, where pre = "[]" and post = "concat (map (frame_bytes i) rs)"])
       (simp_all add: content log_image_def)
  have "gives (loop_at (st_size m) (anchors i [])) ?j c (Inr (anchors i rs)) (j\<lparr>j_view := v\<rparr>) c"
    by (rule gives_loop [where ys = rs and z = "[]" and v = v])
       (use r content sz ok i v gives_loop_end [OF content sz, of "j\<lparr>j_view := v\<rparr>"] in \<open>simp_all\<close>)
  then have loop: "gives (verify_loop (st_size m) (length journal_header) 0 None journal_seed) ?j c (Inr (anchors i rs)) (j\<lparr>j_view := v\<rparr>) c"
    by (simp add: start_pos_def)
  show ?thesis
    unfolding verify_full_def
    by (rule gives_sthen [OF gives_validate [OF b]], rule gives_sbind [OF f], unfold Let_def,
        rule gives_sthen [OF gives_guard], simp add: sz content log_image_def,
        rule gives_sbind [OF h], rule gives_sthen [OF gives_guard [OF refl]],
        rule gives_sthen [OF gives_simple(4)], rule gives_sbind [OF loop], unfold split_beta,
        rule gives_sbind [OF f], rule gives_sthen [OF gives_guard [OF refl]])
       (use gives_simple(4) in \<open>simp add: gives_def jput_def\<close>)
qed

lemma gives_verify_torn:
  assumes b: "fs_bound j c" and r: "fs_read_ok c" and ok: "log_ok i rs" and i: "j_identity j = i"
    and content: "fs_content c = log_image i rs @ z" and m: "file_meta c = Some m" and v: "log_view rs = Inr v"
    and z: "frame_of p = z @ rest" "rest \<noteq> []" "z \<noteq> []" and p: "0 < length p" "length p \<le> max_frame_bytes"
  shows "gives verify_full j c (Inl (Sup JournalCorrupt)) (j\<lparr>j_view := v\<rparr>) c"
proof -
  let ?j = "j\<lparr>j_view := start_view\<rparr>"
  have sz: "st_size m = length (fs_content c)" using m by (auto simp: file_meta_def)
  have f: "gives (os_error_as JournalIo (on_os os_fstat_file)) k c (Inr m) k c" for k
    by (rule gives_os_error_as [OF gives_fstat_file [OF m]])
  have h: "gives (read_exact 0 (length journal_header)) j c (Inr journal_header) j c"
    by (rule gives_read_exact [OF r, where pre = "[]" and post = "concat (map (frame_bytes i) rs) @ z"])
       (simp_all add: content log_image_def)
  have "gives (loop_at (st_size m) (anchors i [])) ?j c (Inl (Sup JournalCorrupt)) (j\<lparr>j_view := v\<rparr>) c"
    by (rule gives_loop [where ys = rs and z = z and v = v])
       (use r content sz ok i v gives_loop_torn [OF r content sz z p, of "j\<lparr>j_view := v\<rparr>"] in \<open>simp_all\<close>)
  then have loop: "gives (verify_loop (st_size m) (length journal_header) 0 None journal_seed) ?j c
                     (Inl (Sup JournalCorrupt)) (j\<lparr>j_view := v\<rparr>) c"
    by (simp add: start_pos_def)
  show ?thesis
    unfolding verify_full_def
    by (rule gives_sthen [OF gives_validate [OF b]], rule gives_sbind [OF f], unfold Let_def,
        rule gives_sthen [OF gives_guard], simp add: sz content log_image_def,
        rule gives_sbind [OF h], rule gives_sthen [OF gives_guard [OF refl]],
        rule gives_sthen [OF gives_simple(4)]) (rule gives_sbind_fails [OF loop])
qed

section \<open>Reading positions\<close>

lemma gives_ready_position:
  assumes "journal_at i rs j c"
  shows "gives ready_position j c
    (case (v_ready (j_view j), snd (anchors i rs)) of (Some _, Some p) \<Rightarrow> Inr p | _ \<Rightarrow> Inl (Sup NotReady)) j c"
  unfolding ready_position_def
  by (rule gives_sthen [OF gives_guard_ready(1) [OF assms]], rule gives_sbind [OF gives_simple(3)])
     (auto simp: journal_at_parts(9) [OF assms] gives_simple split: option.splits)

lemma anchors_take:
  assumes "n < length rs"
  shows "fst (anchors i (take (Suc n) rs)) = pos_next i (fst (anchors i (take n rs))) (rs ! n)"
  using assms by (simp add: take_Suc_conv_app_nth)

lemma log_image_take: "n < length rs \<Longrightarrow> log_image i rs = log_image i (take n rs) @ frame_bytes i (rs ! n) @ concat (map (frame_bytes i) (drop (Suc n) rs))"
  by (metis append_take_drop_id Cons_nth_drop_Suc concat.simps(2) list.simps(9) log_image_simps(2))

lemma log_image_take_le: "length (log_image i (take n rs)) \<le> length (log_image i rs)"
  by (metis append_take_drop_id le_add1 length_append log_image_simps(2))

lemma length_log_image_le: "length journal_header \<le> length (log_image i rs)"
  by (simp add: log_image_def)

lemma frame_bytes_pos:
  assumes "log_ok i rs" "n < length rs"
  shows "0 < length (frame_bytes i (rs ! n))"
proof -
  have "identity_ok i" "entry_ok i (Suc n) (rs ! n)" using assms by (auto simp: log_ok_def)
  then show ?thesis using entry_frame by (metis length_frame_of add_gr_0 zero_less_numeral)
qed

text \<open>From the position after \<open>n\<close> records the next one is read, if there is one.\<close>

lemma gives_pull:
  assumes at: "journal_at i rs j c" and n: "n \<le> length rs"
  shows "gives (pull_from_position (fst (anchors i (take n rs))) pull_limit) j c
    (Inr (if n < length rs then ([rs ! n], fst (anchors i (take (Suc n) rs))) else ([], fst (anchors i rs)))) j c"
proof -
  note p = journal_at_parts [OF at]
  let ?p = "fst (anchors i (take n rs))"
  have tail: "j_tail j = fst (anchors i rs)" by (rule p(8))
  have pos: "position_ok (j_tail j) ?p pull_limit"
    using n p(12,13) length_log_image_le log_image_take_le
    by (auto simp: position_ok_def anchors_pos tail)
  let ?res = "if n < length rs then ([rs ! n], fst (anchors i (take (Suc n) rs))) else ([], fst (anchors i rs))"
  have loop: "gives (pull_loop (nat pull_limit) (j_tail j) ?p) j c (Inr ?res) j c"
  proof (cases "n < length rs")
    case False
    with n have "n = length rs" by simp
    then show ?thesis by (simp add: gives_def pull_limit_def tail)
  next
    case True
    have e: "identity_ok i" "entry_ok i (Suc n) (rs ! n)" using p(6) True by (auto simp: log_ok_def)
    obtain b where b: "frame_bytes i (rs ! n) = frame_of b" "0 < length b" "length b \<le> max_frame_bytes"
      "decode_payload i b (int (Suc n)) = Inr (rs ! n)" using entry_frame [OF e] .
    have content: "fs_content c = log_image i (take n rs) @ frame_of b @ concat (map (frame_bytes i) (drop (Suc n) rs))"
      using log_image_take [OF True, of i] b(1) p(7) by simp
    have "gives (read_record_at (p_end ?p) (p_cursor ?p + 1) (p_end (j_tail j))) j c
        (Inr (rs ! n, length (frame_of b), frame_of b)) j c"
      by (rule gives_read_record [OF p(5) content])
         (use b n p(1,13) log_image_take [OF True, of i] in \<open>simp_all add: anchors_pos add.commute\<close>)
    moreover have "pull_loop 1 (j_tail j) ?p = sbind (read_record_at (p_end ?p) (p_cursor ?p + 1) (p_end (j_tail j)))
        (\<lambda>(r, len, fr). sbind (pull_loop 0 (j_tail j) \<lparr>p_cursor = p_cursor ?p + 1, p_end = p_end ?p + len, p_chain = sha256 (p_chain ?p @ fr)\<rparr>)
          (\<lambda>(rs, q). sret (r # rs, q)))"
      by (rule ext) (use True n p(12) in \<open>simp add: anchors_pos\<close>)
    moreover have "gives (sbind (pull_loop 0 (j_tail j) q) (\<lambda>(rs', q). sret (rs ! n # rs', q))) j c (Inr ([rs ! n], q)) j c" for q
      by (simp add: gives_def sbind_def)
    ultimately have "gives (pull_loop 1 (j_tail j) ?p) j c
        (Inr ([rs ! n], \<lparr>p_cursor = p_cursor ?p + 1, p_end = p_end ?p + length (frame_of b), p_chain = sha256 (p_chain ?p @ frame_of b)\<rparr>)) j c"
      by (auto intro: gives_sbind)
    then show ?thesis using True anchors_take [OF True, of i] b(1) by (simp add: pull_limit_def pos_next_def)
  qed
  have last: "p_cursor (snd ?res) = p_cursor (j_tail j) \<longrightarrow> snd ?res = j_tail j"
    using n p(12) by (auto simp: anchors_pos tail)
  show ?thesis
    unfolding pull_from_position_def
    by (rule gives_sthen [OF gives_guard_ready(1) [OF at]], rule gives_sbind [OF gives_simple(3)],
        rule gives_sthen [OF gives_guard [OF pos]], rule gives_latching, rule gives_sbind [OF loop], unfold split_beta,
        rule gives_sthen [OF gives_guard [OF last]], rule gives_sthen [OF gives_guard_ready(2) [OF at]])
       (use gives_simple(1) [of ?res j c] in \<open>simp split: if_splits\<close>)
qed

end
