(* ===== verification/Journal_Write.thy ===== *)
theory Journal_Write imports Main Journal_Refine begin

text \<open>
  Appending: with writes that stop short, syncs that fail and clocks that jump, an append
  either extends the abstract journal by its record, or is refused without effect, or
  latches \<open>JOURNAL_IO\<close> after writing some prefix of the frame.
\<close>

section \<open>A file that grew\<close>

definition strip_times :: "file_stat \<Rightarrow> file_stat" where
  "strip_times m = m\<lparr>st_mtime := 0, st_ctime := 0\<rparr>"

definition grown :: "fs \<Rightarrow> bytes \<Rightarrow> fs \<Rightarrow> bool" where
  "grown c bs c' \<longleftrightarrow>
     fs_content c' = fs_content c @ bs \<and> map_option strip_times (fs_meta c') = map_option strip_times (fs_meta c) \<and>
     c' = c\<lparr>fs_content := fs_content c', fs_meta := fs_meta c'\<rparr>"

lemma grown_refl: "grown c [] c"
  by (simp add: grown_def)

lemma grown_trans:
  assumes "grown c a c1" "grown c1 b c2"
  shows "grown c (a @ b) c2"
proof -
  from assms have "fs_content c2 = fs_content c @ a @ b" "map_option strip_times (fs_meta c2) = map_option strip_times (fs_meta c)"
    and 1: "c1 = c\<lparr>fs_content := fs_content c1, fs_meta := fs_meta c1\<rparr>"
    and 2: "c2 = c1\<lparr>fs_content := fs_content c2, fs_meta := fs_meta c2\<rparr>" by (auto simp: grown_def)
  moreover have "c2 = c\<lparr>fs_content := fs_content c2, fs_meta := fs_meta c2\<rparr>"
    by (subst 2, subst 1) simp
  ultimately show ?thesis by (simp add: grown_def)
qed

lemma grown_append: "fcore f = c \<Longrightarrow> grown c bs (fcore (append_content bs f))"
  by (cases "fs_meta f") (auto simp: grown_def append_content_def fcore_def strip_times_def)

lemma grown_fields:
  assumes "grown c bs c'"
  shows "fs_content c' = fs_content c @ bs" "fs_dir c' = fs_dir c" "fs_entry c' = fs_entry c" "fs_euid c' = fs_euid c"
    "fs_read_ok c' = fs_read_ok c" "map_option strip_times (fs_meta c') = map_option strip_times (fs_meta c)"
proof -
  from assms have c: "c' = c\<lparr>fs_content := fs_content c', fs_meta := fs_meta c'\<rparr>" unfolding grown_def by blast
  show "fs_dir c' = fs_dir c" "fs_entry c' = fs_entry c" "fs_euid c' = fs_euid c" "fs_read_ok c' = fs_read_ok c"
    by (subst c; simp)+
qed (use assms in \<open>unfold grown_def, blast+\<close>)

lemma binding_strip:
  assumes "strip_times m' = strip_times m" and "binding_ok u j d (st_size_update g m) (st_size_update g m)"
  shows "binding_ok u j d (st_size_update h m') (st_size_update h m')"
proof -
  have "st_kind m' = st_kind m" "st_perm m' = st_perm m" "st_uid m' = st_uid m" "st_nlink m' = st_nlink m"
    "st_dev m' = st_dev m" "st_ino m' = st_ino m"
    using arg_cong [OF assms(1), of st_kind] arg_cong [OF assms(1), of st_perm] arg_cong [OF assms(1), of st_uid]
      arg_cong [OF assms(1), of st_nlink] arg_cong [OF assms(1), of st_dev] arg_cong [OF assms(1), of st_ino]
    by (simp_all add: strip_times_def)
  with assms(2) show ?thesis by (simp add: binding_ok_def owned_file_def metadata_identity_def)
qed

lemma grown_bound:
  assumes "grown c bs c'" "fs_bound j c"
  shows "fs_bound j c'"
proof -
  note g = grown_fields [OF assms(1)]
  obtain d m where m: "fs_dir c = Some d" "file_meta c = Some m" "binding_ok (fs_euid c) j d m m" "fs_entry c = ESame"
    using fs_boundE [OF assms(2)] .
  then obtain m0 where m0: "fs_meta c = Some m0" "m = st_size_update (\<lambda>_. length (fs_content c)) m0" by (auto simp: file_meta_def)
  then obtain m1 where m1: "fs_meta c' = Some m1" "strip_times m1 = strip_times m0" using g(6) by auto
  have "binding_ok (fs_euid c) j d (st_size_update (\<lambda>_. length (fs_content c')) m1) (st_size_update (\<lambda>_. length (fs_content c')) m1)"
    by (rule binding_strip [OF m1(2)]) (use m(3) m0(2) in simp)
  with m g m1 show ?thesis by (simp add: fs_bound_def file_meta_def)
qed

section \<open>Writing\<close>

lemma os_write_tame:
  assumes "tame w" "wcore w = c"
  shows "(\<exists>w'. os_write bs w = (Inl OsErr, w') \<and> tame w' \<and> wcore w' = c) \<or>
         (\<exists>n w'. os_write bs w = (Inr (min n (length bs)), w') \<and> tame w' \<and> grown c (take n bs) (wcore w'))"
proof -
  let ?g = "\<lambda>f. case fs_room f of None \<Rightarrow> (Inl OsErr, f) | Some n \<Rightarrow> (Inr (min n (length bs)), append_content (take n bs) f)"
  obtain f where f: "fcore f = c" "\<And>x. tame \<lparr>w_fs = x, w_env = tl (w_env w)\<rparr>"
    "os_write bs w = (fst (?g f), \<lparr>w_fs = snd (?g f), w_env = tl (w_env w)\<rparr>)"
    using os_call_tame [OF assms, of ?g] unfolding os_write_def by blast
  show ?thesis
  proof (cases "fs_room f")
    case None
    with f show ?thesis by (auto simp: wcore_def)
  next
    case (Some n)
    with f grown_append [OF f(1), of "take n bs"] show ?thesis
      by (intro disjI2 exI [of _ n]) (auto simp: wcore_def)
  qed
qed

lemma write_all_tame:
  "tame w \<Longrightarrow> wcore w = c \<Longrightarrow>
   \<exists>k res w'. write_all bs w = (res, w') \<and> tame w' \<and> grown c (take k bs) (wcore w') \<and>
     (res = Inr () \<and> take k bs = bs \<or> res = Inl (Sup JournalIo))"
proof (induction bs arbitrary: w c rule: measure_induct_rule [where f = length])
  case (less bs)
  show ?case
  proof (cases "bs = []")
    case True
    with less.prems show ?thesis by (intro exI [of _ 0]) (simp add: write_all.simps grown_refl)
  next
    case False
    have unfold: "write_all bs w = sbind (os_error_as JournalIo (os_write bs)) (\<lambda>written.
        if written = 0 then sraise (Sup JournalIo) else write_all (drop written bs)) w"
      by (subst write_all.simps) (simp add: False)
    from os_write_tame [OF less.prems, of bs] show ?thesis
    proof (elim disjE exE conjE)
      fix w' assume w': "os_write bs w = (Inl OsErr, w')" "tame w'" "wcore w' = c"
      then have "write_all bs w = (Inl (Sup JournalIo), w')"
        unfolding unfold by (simp add: sbind_def os_error_as_def scatch_def is_os_error_def)
      with w' show ?thesis by (intro exI [of _ 0]) (simp add: grown_refl)
    next
      fix n w1 assume w1: "os_write bs w = (Inr (min n (length bs)), w1)" "tame w1" "grown c (take n bs) (wcore w1)"
      then have step: "write_all bs w = (if n = 0 then sraise (Sup JournalIo) else write_all (drop n bs)) w1"
        unfolding unfold using False by (simp add: sbind_def os_error_as_def scatch_def min_def)
      show ?thesis
      proof (cases "n = 0")
        case True
        with step w1 show ?thesis by (intro exI [of _ 0]) simp
      next
        case n: False
        then have "length (drop n bs) < length bs" using False by simp
        from less.IH [OF this w1(2) refl] obtain k res w2 where w2: "write_all (drop n bs) w1 = (res, w2)" "tame w2"
          "grown (wcore w1) (take k (drop n bs)) (wcore w2)" "res = Inr () \<and> take k (drop n bs) = drop n bs \<or> res = Inl (Sup JournalIo)"
          by blast
        have t: "take n bs @ take k (drop n bs) = take (n + k) bs" by (simp add: take_add)
        have "grown c (take (n + k) bs) (wcore w2)" using grown_trans [OF w1(3) w2(3)] t by simp
        moreover have "take (n + k) bs = bs" if "take k (drop n bs) = drop n bs" using that t append_take_drop_id by metis
        ultimately show ?thesis using step n w2 by (intro exI [of _ "n + k"]) auto
      qed
    qed
  qed
qed

lemma os_fsync_tame:
  assumes "tame w" "wcore w = c"
  obtains w' where "tame w'" "wcore w' = c" "os_fsync w = (Inr (), w') \<or> os_fsync w = (Inl OsErr, w')"
proof -
  let ?g = "\<lambda>f. (if fs_sync_ok f then Inr () else Inl OsErr, f) :: (sup_exn + unit) \<times> fs"
  obtain f where f: "fcore f = c" "\<And>x. tame \<lparr>w_fs = x, w_env = tl (w_env w)\<rparr>"
    "os_fsync w = (fst (?g f), \<lparr>w_fs = snd (?g f), w_env = tl (w_env w)\<rparr>)"
    using os_call_tame [OF assms, of ?g] unfolding os_fsync_def by blast
  then show thesis by (intro that [of "\<lparr>w_fs = f, w_env = tl (w_env w)\<rparr>"]) (auto simp: wcore_def)
qed

text \<open>The steps under the \<open>try\<close> of \<open>append\<close>.\<close>

lemma on_os_eq: "m w = (r, w') \<Longrightarrow> on_os m (j, w) = (r, (j, w'))"
  by (simp add: on_os_def)

lemma write_frame_tame:
  assumes b: "fs_bound j c" "j_failure j = None" and w: "tame w" "wcore w = c" and off: "offset = length (fs_content c)"
  shows "(\<exists>m w'. write_frame frame offset (j, w) = (Inr m, (j, w')) \<and> tame w' \<and> grown c frame (wcore w') \<and> file_meta (wcore w') = Some m) \<or>
         (\<exists>k w'. write_frame frame offset (j, w) = (Inl (Sup JournalIo), (latch JournalIo j, w')) \<and> tame w' \<and>
            grown c (take k frame) (wcore w'))"
proof -
  obtain w1 where w1: "validate_binding (j, w) = (Inr (), (j, w1))" "tame w1" "wcore w1 = c"
    using givesD [OF gives_validate [OF b(1)] w] .
  obtain k res w2 where w2: "write_all frame w1 = (res, w2)" "tame w2" "grown c (take k frame) (wcore w2)"
    "res = Inr () \<and> take k frame = frame \<or> res = Inl (Sup JournalIo)" using write_all_tame [OF w1(2,3)] by metis
  have latched: "latching m (j, w) = (Inl (Sup JournalIo), (latch JournalIo j, u))"
    if "m (j, w) = (Inl e, (j, u))" "e = OsErr \<or> e = Sup JournalIo" for m :: "file_stat jm" and e u
    using that by (auto simp: latching_def scatch_def is_os_error_def sthen_def sbind_def latch_failure_def jput_def latch_def)
  let ?rest = "sthen (on_os os_fsync) (sthen validate_binding (sbind (on_os os_fstat_file) (\<lambda>m.
        sthen (sguard (st_size m = offset + length frame) (Sup JournalCorrupt)) (sret m))))"
  let ?body = "sthen validate_binding (sthen (on_os (write_all frame)) ?rest)"
  have f: "write_frame frame offset = latching ?body" by (simp add: write_frame_def)
  have o: "on_os (write_all frame) (j, w1) = (res, (j, w2))" using w2(1) by (rule on_os_eq)
  show ?thesis
  proof (cases "res = Inr () \<and> take k frame = frame")
    case False
    with w2(4) have "res = Inl (Sup JournalIo)" by blast
    with o have "sthen (on_os (write_all frame)) ?rest (j, w1) = (Inl (Sup JournalIo), (j, w2))"
      by (intro sthen_step(2)) simp
    then have "?body (j, w) = (Inl (Sup JournalIo), (j, w2))"
      using sthen_step(1) [where m = validate_binding, OF w1(1)] by metis
    with latched w2 show ?thesis unfolding f by blast
  next
    case True
    then have g: "grown c frame (wcore w2)" using w2 by simp
    have "?body (j, w) = sthen (on_os (write_all frame)) ?rest (j, w1)"
      by (rule sthen_step(1) [where m = validate_binding, OF w1(1)])
    also have "\<dots> = ?rest (j, w2)" by (rule sthen_step(1)) (use o True in simp)
    finally have b2: "?body (j, w) = ?rest (j, w2)" .
    obtain w3 where w3: "tame w3" "wcore w3 = wcore w2" "os_fsync w2 = (Inr (), w3) \<or> os_fsync w2 = (Inl OsErr, w3)"
      using os_fsync_tame [OF w2(2) refl] by metis
    from w3(3) show ?thesis
    proof
      assume "os_fsync w2 = (Inl OsErr, w3)"
      then have "on_os os_fsync (j, w2) = (Inl OsErr, (j, w3))" by (rule on_os_eq)
      then have "?body (j, w) = (Inl OsErr, (j, w3))" unfolding b2 by (rule sthen_step(2) [where m = "on_os os_fsync"])
      moreover have "grown c (take (length frame) frame) (wcore w3)" using g w3 by simp
      ultimately show ?thesis using latched w3 unfolding f by blast
    next
      let ?last = "sthen validate_binding (sbind (on_os os_fstat_file) (\<lambda>m.
          sthen (sguard (st_size m = offset + length frame) (Sup JournalCorrupt)) (sret m)))"
      assume "os_fsync w2 = (Inr (), w3)"
      then have s: "on_os os_fsync (j, w2) = (Inr (), (j, w3))" by (rule on_os_eq)
      have bound: "fs_bound j (wcore w2)" using grown_bound [OF g b(1)] .
      obtain m where m: "file_meta (wcore w2) = Some m" "st_size m = length (fs_content (wcore w2))" using fs_boundE [OF bound] by metis
      have "gives ?last j (wcore w2) (Inr m) j (wcore w2)"
        by (rule gives_sthen [OF gives_validate [OF bound]], rule gives_sbind [OF gives_fstat_file [OF m(1)]],
            rule gives_sthen [OF gives_guard gives_simple(1)]) (simp add: m(2) grown_fields(1) [OF g] off)
      then obtain w4 where w4: "?last (j, w3) = (Inr m, (j, w4))" "tame w4" "wcore w4 = wcore w2"
        using w3(1,2) givesD by blast
      have "?body (j, w) = ?last (j, w3)" unfolding b2 by (rule sthen_step(1) [where m = "on_os os_fsync", OF s])
      then have "write_frame frame offset (j, w) = (Inr m, (j, w4))" unfolding f by (simp add: latching_def scatch_def w4(1))
      with w4 g m show ?thesis by auto
    qed
  qed
qed

section \<open>Append\<close>

lemma apply_semantics_errors: "apply_semantics r v = Inl e \<Longrightarrow> e = Sup JournalCorrupt"
  by (auto simp: apply_semantics_def split: sup_phase.splits record_kind.splits)

definition args_record ::
  "int \<Rightarrow> record_kind \<Rightarrow> process_stream option \<Rightarrow> bytes option \<Rightarrow> process_exit option \<Rightarrow> sup_category option \<Rightarrow> journal_record" where
  "args_record cursor kind stream data ex err =
     \<lparr>jr_cursor = cursor, jr_kind = kind, jr_stream = stream, jr_data = data, jr_exit = ex, jr_error = err\<rparr>"

text \<open>The record an append would add, or what it raises before it writes anything.\<close>

definition admit :: "sup_identity \<Rightarrow> journal_record list \<Rightarrow> journal_record \<Rightarrow> sup_exn + journal_record" where
  "admit i rs r =
     rbind (record_payload i r) (\<lambda>b.
     if length b > max_frame_bytes then Inl (Sup InvalidTransition)
     else if \<not> record_ok r then Inl (Sup JournalCorrupt)
     else case log_view (rs @ [r]) of Inl _ \<Rightarrow> Inl (Sup InvalidTransition) | Inr _ \<Rightarrow> Inr r)"

lemma payload_for_errors: "payload_for i c k s d x e = Inl ex \<Longrightarrow> ex = PyErr ValueErr"
  by (auto simp: payload_for_def split: option.splits)

lemma decode_own_payload:
  assumes "identity_ok i" "\<And>p. jr_exit r = Some p \<Longrightarrow> process_exit_ok p" "record_payload i r = Inr b"
  shows "decode_payload i b (jr_cursor r) = (if record_ok r then Inr r else Inl (Sup JournalCorrupt))"
proof (cases "record_ok r")
  case True
  with record_payload_decodes [OF assms(1) _ assms(3)] show ?thesis by simp
next
  case False
  have "decode_payload i b (jr_cursor r) \<noteq> Inr r'" for r'
  proof
    assume d: "decode_payload i b (jr_cursor r) = Inr r'"
    from append_args_ok [OF assms(1,2,3) this] have "r' = r" by (cases r; cases r') auto
    with decode_payload_ok [OF d] False show False by simp
  qed
  then show ?thesis using decode_payload_errors [of i b "jr_cursor r"] False
    by (cases "decode_payload i b (jr_cursor r)") auto
qed

lemma admit_ok:
  assumes "log_ok i rs" "\<And>p. jr_exit r = Some p \<Longrightarrow> process_exit_ok p" "jr_cursor r = int (length rs) + 1"
  shows "admit i rs r = Inr r' \<longleftrightarrow> r' = r \<and> log_ok i (rs @ [r])"
proof -
  have c: "jr_cursor r = int (Suc (length rs))" using assms(3) by simp
  obtain v where "log_view rs = Inr v" using assms(1) by (auto simp: log_ok_def)
  with assms(1) c show ?thesis
    by (auto simp: admit_def res_simps log_ok_snoc entry_ok_def split: if_splits sum.splits)
qed

lemma append_result:
  assumes at: "journal_at i rs j c" and w: "tame w" "wcore w = c"
    and x: "\<And>p. ex = Some p \<Longrightarrow> process_exit_ok p"
    and r: "r = args_record (int (length rs) + 1) k s d ex err"
  shows "(\<exists>e w'. admit i rs r = Inl e \<and> journal_append k s d ex err (j, w) = (Inl e, (j, w')) \<and> tame w' \<and> wcore w' = c) \<or>
         (\<exists>j' w'. log_ok i (rs @ [r]) \<and> journal_append k s d ex err (j, w) = (Inr r, (j', w')) \<and> tame w' \<and>
            journal_at i (rs @ [r]) j' (wcore w')) \<or>
         (\<exists>n w'. log_ok i (rs @ [r]) \<and> journal_append k s d ex err (j, w) = (Inl (Sup JournalIo), (latch JournalIo j, w')) \<and> tame w' \<and>
            grown c (take n (frame_bytes i r)) (wcore w'))"
proof -
  note p = journal_at_parts [OF at]
  have rf: "jr_cursor r = int (length rs) + 1" "jr_kind r = k" "jr_stream r = s" "jr_data r = d" "jr_exit r = ex" "jr_error r = err"
    by (simp_all add: r args_record_def)
  have ident: "identity_ok i" using p(6) by (simp add: log_ok_def)
  obtain w1 where w1: "ready_guard (j, w) = (Inr (), (j, w1))" "tame w1" "wcore w1 = c"
    using givesD [OF gives_guard_ready(1) [OF at] w] .
  let ?cont = "\<lambda>payload. sthen (sguard (length payload \<le> max_frame_bytes) (Sup InvalidTransition))
    (sbind (slift (decode_payload i payload (jr_cursor r))) (\<lambda>candidate.
     sthen (check_transition candidate)
    (let frame = frame_of payload; offset = p_end (j_tail j) in
     sbind (write_frame frame offset) (\<lambda>m.
     let pos = \<lparr>p_cursor = jr_cursor r, p_end = offset + length frame, p_chain = sha256 (p_chain (j_tail j) @ frame)\<rparr> in
     sthen (jput (\<lambda>j. j\<lparr>j_tail := pos, j_ready := (if jr_kind candidate = KReady then Some pos else j_ready j),
                        j_verified := Some (content_state m)\<rparr>))
    (sthen (jput_semantics candidate)
    (sret candidate))))))"
  have a: "journal_append k s d ex err (j, w) = sbind (slift (record_payload i r)) ?cont (j, w1)"
    by (simp add: journal_append_def sthen_step(1) [where m = ready_guard, OF w1(1)] step_simps p(1,12) rf Let_def cong: if_cong)
  show ?thesis
  proof (cases "record_payload i r")
    case (Inl e)
    then have "admit i rs r = Inl e" by (simp add: admit_def)
    moreover have "journal_append k s d ex err (j, w) = (Inl e, (j, w1))" unfolding a by (simp add: sbind_def Inl)
    ultimately show ?thesis using w1 by blast
  next
    case (Inr b)
    have a1: "journal_append k s d ex err (j, w) = ?cont b (j, w1)" unfolding a by (simp add: sbind_def Inr)
    have dec: "decode_payload i b (jr_cursor r) = (if record_ok r then Inr r else Inl (Sup JournalCorrupt))"
      by (rule decode_own_payload [OF ident _ Inr]) (use x rf in simp)
    show ?thesis
    proof (cases "admit i rs r")
      case (Inl e)
      have "journal_append k s d ex err (j, w) = (Inl e, (j, w1))"
        using Inl p(10) unfolding a1
        by (auto simp: admit_def Inr dec sthen_def sbind_def check_transition_def jget_field_def split: if_splits sum.splits)
      with Inl w1 show ?thesis by blast
    next
      case adm: (Inr r')
      then have ok: "log_ok i (rs @ [r])" using admit_ok [OF p(6) _ rf(1)] x rf(5) by auto
      then have e: "entry_ok i (Suc (length rs)) r" by (simp add: log_ok_snoc)
      then have fb: "frame_bytes i r = frame_of b" and rok: "record_ok r" and len: "length b \<le> max_frame_bytes"
        using Inr by (auto simp: frame_bytes_def entry_ok_def)
      obtain v where v: "apply_semantics r (j_view j) = Inr v" using ok p(10) by (auto simp: log_ok_def)
      let ?frame = "frame_of b" and ?offset = "p_end (j_tail j)"
      let ?pos = "\<lparr>p_cursor = jr_cursor r, p_end = ?offset + length ?frame, p_chain = sha256 (p_chain (j_tail j) @ ?frame)\<rparr>"
      have a2: "journal_append k s d ex err (j, w) =
          sbind (write_frame ?frame ?offset) (\<lambda>m.
            sthen (jput (\<lambda>j. j\<lparr>j_tail := ?pos, j_ready := (if jr_kind r = KReady then Some ?pos else j_ready j),
                          j_verified := Some (content_state m)\<rparr>))
            (sthen (jput_semantics r) (sret r))) (j, w1)"
        unfolding a1 by (simp add: sthen_def sbind_def dec rok len check_transition_def jget_field_def v Let_def)
      have off: "?offset = length (fs_content c)" using p(7,13) by simp
      from write_frame_tame [OF p(4,3) w1(2,3) off, of ?frame] show ?thesis
      proof (elim disjE exE conjE)
        fix m w' assume g: "write_frame ?frame ?offset (j, w1) = (Inr m, (j, w'))" "tame w'" "grown c ?frame (wcore w')" "file_meta (wcore w') = Some m"
        let ?j' = "j\<lparr>j_tail := ?pos, j_ready := (if jr_kind r = KReady then Some ?pos else j_ready j), j_verified := Some (content_state m), j_view := v\<rparr>"
        let ?j1 = "j\<lparr>j_tail := ?pos, j_ready := (if jr_kind r = KReady then Some ?pos else j_ready j), j_verified := Some (content_state m)\<rparr>"
        have "jput_semantics r (?j1, w') = (Inr (), (?j', w'))"
          using v by (simp add: jput_semantics_def step_simps jput_def)
        then have "sthen (jput_semantics r) (sret r) (?j1, w') = (Inr r, (?j', w'))"
          by (subst sthen_step(1) [where m = "jput_semantics r"], assumption) simp
        then have "journal_append k s d ex err (j, w) = (Inr r, (?j', w'))"
          unfolding a2 sbind_step(1) [where m = "write_frame ?frame ?offset", OF g(1)] step_simps by (simp only: fst_conv snd_conv)
        moreover have "journal_at i (rs @ [r]) ?j' (wcore w')"
        proof -
          have "fs_bound j (wcore w')" using grown_bound [OF g(3) p(4)] .
          then have "fs_bound ?j' (wcore w')" by (subst fs_bound_cong [of ?j' j]) simp_all
          moreover have "(j_tail ?j', j_ready ?j') = anchors i (rs @ [r])"
            using p(8,9,12) rf(1) fb by (simp add: anchor_step_def pos_next_def Let_def anchors_pos)
          ultimately show ?thesis
            using p ok g(4) v fb grown_fields [OF g(3)] by (simp add: journal_at_def)
        qed
        ultimately show ?thesis using ok g(2) by blast
      next
        fix n w' assume g: "write_frame ?frame ?offset (j, w1) = (Inl (Sup JournalIo), (latch JournalIo j, w'))" "tame w'"
          "grown c (take n ?frame) (wcore w')"
        have "journal_append k s d ex err (j, w) = (Inl (Sup JournalIo), (latch JournalIo j, w'))"
          unfolding a2 by (rule sbind_step(2) [where m = "write_frame _ _", OF g(1)])
        with g ok fb show ?thesis by auto
      qed
    qed
  qed
qed

end
