(* ===== verification/Journal_Open.thy ===== *)
theory Journal_Open imports Main Journal_Write begin

text \<open>
  Opening and closing: an existing journal opens to the list its file is the image of, a
  missing one is created empty (or refused with \<open>JOURNAL_IO\<close> when the header cannot be
  written), a torn one is refused, and closing gives the lock back.
\<close>

section \<open>Calls that change the file system\<close>

lemma gives_os_call:
  assumes "\<And>f. fcore f = c \<Longrightarrow> \<exists>f'. g f = (r, f') \<and> fcore f' = c'"
  shows "gives (on_os (os_call g)) j c r j c'"
  unfolding gives_def
proof (intro allI impI)
  fix w assume w: "tame w" "wcore w = c"
  obtain f where f: "fcore f = c" "\<And>x. tame \<lparr>w_fs = x, w_env = tl (w_env w)\<rparr>"
    "os_call g w = (fst (g f), \<lparr>w_fs = snd (g f), w_env = tl (w_env w)\<rparr>)"
    using os_call_tame [OF w, of g] by blast
  moreover obtain f' where "g f = (r, f')" "fcore f' = c'" using assms f(1) by blast
  ultimately show "\<exists>w'. on_os (os_call g) (j, w) = (r, (j, w')) \<and> tame w' \<and> wcore w' = c'"
    by (auto simp: on_os_def wcore_def)
qed

lemma gives_dup: "fs_dup_ok c \<Longrightarrow> gives (on_os os_dup_dir) j c (Inr ()) j c"
  unfolding os_dup_dir_def by (rule gives_os_look) auto

lemma gives_open_existing: "fs_entry c = ESame \<Longrightarrow> gives (on_os os_open_existing) j c (Inr ()) j c"
  unfolding os_open_existing_def by (rule gives_os_look) auto

lemma gives_open_missing: "fs_entry c = EMissing \<Longrightarrow> gives (on_os os_open_existing) j c (Inl OsMissing) j c"
  unfolding os_open_existing_def by (rule gives_os_look) auto

definition created :: "fs \<Rightarrow> file_stat \<Rightarrow> fs" where
  "created c m = c\<lparr>fs_entry := ESame, fs_meta := Some m, fs_content := [], fs_fresh := None\<rparr>"

lemma gives_open_create:
  "fs_entry c = EMissing \<Longrightarrow> fs_fresh c = Some m \<Longrightarrow> gives (on_os os_open_create) j c (Inr ()) j (created c m)"
  unfolding os_open_create_def by (rule gives_os_call) (auto simp: created_def fcore_def)

lemma gives_fchmod:
  "fs_chmod_ok c \<Longrightarrow> fs_meta c = Some m \<Longrightarrow>
   gives (on_os (os_fchmod k)) j c (Inr ()) j (c\<lparr>fs_meta := Some (m\<lparr>st_perm := k\<rparr>)\<rparr>)"
  unfolding os_fchmod_def by (rule gives_os_call) (auto simp: fcore_def)

lemma gives_flock: "\<not> fs_locked c \<Longrightarrow> gives (on_os os_flock) j c (Inr ()) j (c\<lparr>fs_locked := True\<rparr>)"
  unfolding os_flock_def by (rule gives_os_call) (auto simp: fcore_def)

lemma gives_flock_busy: "fs_locked c \<Longrightarrow> gives (on_os os_flock) j c (Inl OsErr) j c"
  unfolding os_flock_def by (rule gives_os_call) auto

lemma gives_close_file: "gives (on_os (os_close_file b)) j c (Inr ()) j (if b then c\<lparr>fs_locked := False\<rparr> else c)"
  unfolding os_close_file_def by (rule gives_os_call) (auto simp: fcore_def)

lemma gives_close:
  assumes "\<not> j_closed j"
  shows "gives journal_close j c (Inr ()) (j\<lparr>j_closed := True, j_file := None, j_dir_open := False\<rparr>)
           (if j_file j = Some True then c\<lparr>fs_locked := False\<rparr> else c)"
proof -
  let ?j = "j\<lparr>j_closed := True\<rparr>"
  have f: "gives (case j_file j of None \<Rightarrow> sret () | Some locked \<Rightarrow> on_os (os_close_file locked)) ?j c (Inr ()) ?j
      (if j_file j = Some True then c\<lparr>fs_locked := False\<rparr> else c)"
    using gives_close_file [of True ?j c] gives_close_file [of False ?j c] gives_simple(1) [of "()" ?j c]
    by (auto split: option.splits bool.splits)
  have "gives (sthen (jput (\<lambda>j. j\<lparr>j_closed := True\<rparr>))
         (sthen (case j_file j of None \<Rightarrow> sret () | Some locked \<Rightarrow> on_os (os_close_file locked))
                (jput (\<lambda>j. j\<lparr>j_file := None, j_dir_open := False\<rparr>)))) j c (Inr ())
         (?j\<lparr>j_file := None, j_dir_open := False\<rparr>) (if j_file j = Some True then c\<lparr>fs_locked := False\<rparr> else c)"
    by (rule gives_sthen [OF gives_simple(4)], rule gives_sthen [OF f], rule gives_simple(4))
  then show ?thesis
    unfolding journal_close_def by (intro gives_sbind [OF gives_simple(3)]) (use assms in simp)
qed

lemma fs_bound_locked [simp]: "fs_bound j (c\<lparr>fs_locked := b\<rparr>) = fs_bound j c"
  by (simp add: fs_bound_def file_meta_def cong: option.case_cong)

text \<open>The first binding check of a new journal pins the file.\<close>

lemma gives_validate_pin:
  assumes d: "fs_dir c = Some d" "file_meta c = Some m" "fs_entry c = ESame"
    and ok: "dir_ok (fs_euid c) d" "owned_file (fs_euid c) m"
    and j: "j_dir_id j = Some (metadata_identity d)" "j_file_id j = None"
  shows "gives validate_binding j c (Inr ()) (j\<lparr>j_file_id := Some (metadata_identity m)\<rparr>) c"
proof -
  let ?j = "j\<lparr>j_file_id := Some (metadata_identity m)\<rparr>"
  have s: "gives binding_stats j c (Inr (d, m, m)) j c"
    unfolding binding_stats_def
    by (intro gives_os_error_as gives_sbind [OF gives_fstat_dir [OF d(1)]] gives_sbind [OF gives_fstat_file [OF d(2)]]
        gives_sbind [OF gives_stat_entry [OF d(3,2)]] gives_simple(1))
  have p: "gives (pin_dir d) j c (Inr ()) j c" "gives (pin_file m) j c (Inr ()) ?j c"
    using j unfolding pin_dir_def pin_file_def by (auto simp: gives_def jput_def)
  have g: "gives (sguard (binding_ok (fs_euid c) ?j d m m) (Sup InvalidJournal)) ?j c (Inr ()) ?j c"
    by (rule gives_guard) (use ok j in \<open>simp add: binding_ok_def\<close>)
  have "gives (sbind (on_os os_geteuid) (\<lambda>euid. sbind (jget_field id) (\<lambda>j. sguard (binding_ok euid j d m m) (Sup InvalidJournal))))
      ?j c (Inr ()) ?j c"
    by (rule gives_sbind [OF gives_geteuid], rule gives_sbind [OF gives_simple(3)]) (use g in simp)
  then show ?thesis
    unfolding validate_binding_def
    by (intro gives_sbind [OF s]) (simp add: gives_sthen [OF p(1)] gives_sthen [OF p(2)])
qed

section \<open>An existing journal\<close>

definition openable :: "fs \<Rightarrow> bool" where
  "openable c \<longleftrightarrow>
     fs_dup_ok c \<and> fs_read_ok c \<and> \<not> fs_locked c \<and>
     (case fs_dir c of Some d \<Rightarrow> dir_ok (fs_euid c) d | None \<Rightarrow> False)"

definition own_file :: "fs \<Rightarrow> bool" where
  "own_file c \<longleftrightarrow> fs_entry c = ESame \<and> (case file_meta c of Some m \<Rightarrow> owned_file (fs_euid c) m | None \<Rightarrow> False)"

lemma openableE:
  assumes "openable c"
  obtains d where "fs_dup_ok c" "fs_read_ok c" "\<not> fs_locked c" "fs_dir c = Some d" "dir_ok (fs_euid c) d"
  using assms by (auto simp: openable_def split: option.splits)

lemma own_fileE:
  assumes "own_file c"
  obtains m where "fs_entry c = ESame" "file_meta c = Some m" "owned_file (fs_euid c) m"
  using assms by (auto simp: own_file_def split: option.splits)

text \<open>The object after the file of a journal has been opened, pinned and locked.\<close>

definition journal_bound :: "sup_identity \<Rightarrow> file_stat \<Rightarrow> file_stat \<Rightarrow> journal" where
  "journal_bound i d m = (journal_new i)\<lparr>j_dir_open := True, j_dir_id := Some (metadata_identity d),
     j_file := Some True, j_file_id := Some (metadata_identity m)\<rparr>"

lemma journal_bound_fields [simp]:
  "j_identity (journal_bound i d m) = i" "j_closed (journal_bound i d m) = False" "j_failure (journal_bound i d m) = None"
  "j_dir_id (journal_bound i d m) = Some (metadata_identity d)" "j_file_id (journal_bound i d m) = Some (metadata_identity m)"
  "j_file (journal_bound i d m) = Some True"
  by (simp_all add: journal_bound_def journal_new_def)

lemma bound_journal_bound:
  assumes "fs_dir c = Some d" "dir_ok (fs_euid c) d" "fs_entry c = ESame" "file_meta c = Some m'" "owned_file (fs_euid c) m'"
    "metadata_identity m' = metadata_identity m"
  shows "fs_bound (journal_bound i d m) c"
  using assms by (simp add: fs_bound_def binding_ok_def)

lemma gives_open_prefix:
  assumes "fs_dup_ok c" "fs_dir c = Some d" "dir_ok (fs_euid c) d"
    and rest: "gives (sthen open_file verify_full) ((journal_new i)\<lparr>j_dir_open := True, j_dir_id := Some (metadata_identity d)\<rparr>) c r j' c'"
  shows "gives open_steps (journal_new i) c r j' c'"
  unfolding open_steps_def
  by (rule gives_sthen [OF gives_dup [OF assms(1)]], rule gives_sthen [OF gives_simple(4)],
      rule gives_sbind [OF gives_fstat_dir [OF assms(2)]], rule gives_sbind [OF gives_geteuid],
      rule gives_sthen [OF gives_guard [OF assms(3)]], rule gives_sthen [OF gives_simple(4)])
     (use rest in simp)

lemma gives_open_file:
  assumes c: "fs_dir c = Some d" "dir_ok (fs_euid c) d" "\<not> fs_locked c" "fs_entry c = ESame" "file_meta c = Some m" "owned_file (fs_euid c) m"
  shows "gives open_file ((journal_new i)\<lparr>j_dir_open := True, j_dir_id := Some (metadata_identity d)\<rparr>) c (Inr ())
           (journal_bound i d m) (c\<lparr>fs_locked := True\<rparr>)"
proof -
  let ?j = "(journal_new i)\<lparr>j_dir_open := True, j_dir_id := Some (metadata_identity d)\<rparr>"
  have o: "gives open_or_create ?j c (Inr False) ?j c"
    unfolding open_or_create_def by (intro gives_scatch gives_sthen [OF gives_open_existing [OF c(4)]] gives_simple(1))
  have v: "gives validate_binding (?j\<lparr>j_file := Some False\<rparr>) c (Inr ())
      (?j\<lparr>j_file := Some False, j_file_id := Some (metadata_identity m)\<rparr>) c"
    using gives_validate_pin [OF c(1,5,4,2,6), of "?j\<lparr>j_file := Some False\<rparr>"] by (simp add: journal_new_def)
  have b: "gives validate_binding (journal_bound i d m) (c\<lparr>fs_locked := True\<rparr>) (Inr ()) (journal_bound i d m) (c\<lparr>fs_locked := True\<rparr>)"
    by (rule gives_validate) (use c bound_journal_bound [OF c(1,2,4,5,6) refl, of i] in simp)
  have q: "?j\<lparr>j_file := Some False, j_file_id := Some (metadata_identity m), j_file := Some True\<rparr> = journal_bound i d m"
    by (simp add: journal_bound_def journal_new_def)
  have p: "gives (jput (\<lambda>j. j\<lparr>j_file := Some True\<rparr>)) (?j\<lparr>j_file := Some False, j_file_id := Some (metadata_identity m)\<rparr>)
      (c\<lparr>fs_locked := True\<rparr>) (Inr ()) (journal_bound i d m) (c\<lparr>fs_locked := True\<rparr>)"
    using gives_simple(4) [of "\<lambda>j. j\<lparr>j_file := Some True\<rparr>" "?j\<lparr>j_file := Some False, j_file_id := Some (metadata_identity m)\<rparr>"] q
    by simp
  show ?thesis
    unfolding open_file_def
    by (rule gives_sbind [OF o], rule gives_sthen [OF gives_simple(4)], unfold if_False,
        rule gives_sthen [OF gives_simple(1)], rule gives_sthen [OF v],
        rule gives_sthen [OF gives_os_error_as [OF gives_flock [OF c(3)]]], rule gives_sthen [OF p], rule gives_sthen [OF b])
       (rule gives_simple(1))
qed

lemma gives_open:
  assumes "openable c" "own_file c" "log_ok i rs" "fs_content c = log_image i rs"
  shows "\<exists>j'. gives journal_open (journal_new i) c (Inr ()) j' (c\<lparr>fs_locked := True\<rparr>) \<and>
              journal_at i rs j' (c\<lparr>fs_locked := True\<rparr>) \<and> j_file j' = Some True"
proof -
  obtain d where d: "fs_dup_ok c" "fs_read_ok c" "\<not> fs_locked c" "fs_dir c = Some d" "dir_ok (fs_euid c) d"
    using openableE [OF assms(1)] .
  obtain m where m: "fs_entry c = ESame" "file_meta c = Some m" "owned_file (fs_euid c) m" using own_fileE [OF assms(2)] .
  obtain v where v: "log_view rs = Inr v" using assms(3) by (auto simp: log_ok_def)
  let ?c = "c\<lparr>fs_locked := True\<rparr>" and ?b = "journal_bound i d m"
  let ?j = "?b\<lparr>j_view := v, j_tail := fst (anchors i rs), j_ready := snd (anchors i rs), j_verified := Some (content_state m)\<rparr>"
  have mc: "file_meta ?c = Some m" using m(2) by (simp add: file_meta_def)
  have b: "fs_bound ?b ?c" using bound_journal_bound [OF d(4,5) m refl, of i] by simp
  have vf: "gives verify_full ?b ?c (Inr ()) ?j ?c"
    by (rule gives_verify_full [OF b _ assms(3) _ _ mc v]) (use d(2) assms(4) in simp_all)
  have "gives journal_open (journal_new i) c (Inr ()) ?j ?c"
    unfolding journal_open_def
    by (rule gives_scatch, rule gives_open_prefix [OF d(1,4,5)])
       (rule gives_sthen [OF gives_open_file [OF d(4,5,3) m] vf])
  moreover have "journal_at i rs ?j ?c"
  proof -
    have "fs_bound ?j ?c" using b by (subst fs_bound_cong [of ?j ?b]) simp_all
    then show ?thesis using assms d v mc by (simp add: journal_at_def)
  qed
  ultimately show ?thesis by (intro exI [of _ ?j]) simp
qed

lemma gives_open_torn:
  assumes "openable c" "own_file c" "log_ok i rs" "fs_content c = log_image i rs @ z"
    and z: "frame_of p = z @ rest" "rest \<noteq> []" "z \<noteq> []" and p: "0 < length p" "length p \<le> max_frame_bytes"
  shows "\<exists>j'. gives journal_open (journal_new i) c (Inl (Sup JournalCorrupt)) j' c \<and> j_closed j'"
proof -
  obtain d where d: "fs_dup_ok c" "fs_read_ok c" "\<not> fs_locked c" "fs_dir c = Some d" "dir_ok (fs_euid c) d"
    using openableE [OF assms(1)] .
  obtain m where m: "fs_entry c = ESame" "file_meta c = Some m" "owned_file (fs_euid c) m" using own_fileE [OF assms(2)] .
  obtain v where v: "log_view rs = Inr v" using assms(3) by (auto simp: log_ok_def)
  let ?c = "c\<lparr>fs_locked := True\<rparr>" and ?b = "journal_bound i d m"
  have mc: "file_meta ?c = Some m" using m(2) by (simp add: file_meta_def)
  have b: "fs_bound ?b ?c" using bound_journal_bound [OF d(4,5) m refl, of i] by simp
  have vf: "gives verify_full ?b ?c (Inl (Sup JournalCorrupt)) (?b\<lparr>j_view := v\<rparr>) ?c"
    by (rule gives_verify_torn [OF b _ assms(3) _ _ mc v z p]) (use d(2) assms(4) in simp_all)
  have o: "gives open_steps (journal_new i) c (Inl (Sup JournalCorrupt)) (?b\<lparr>j_view := v\<rparr>) ?c"
    by (rule gives_open_prefix [OF d(1,4,5)]) (rule gives_sthen [OF gives_open_file [OF d(4,5,3) m] vf])
  have unlock: "?c\<lparr>fs_locked := False\<rparr> = c" using d(3) by simp
  have "gives journal_close (?b\<lparr>j_view := v\<rparr>) ?c (Inr ())
      (?b\<lparr>j_view := v, j_closed := True, j_file := None, j_dir_open := False\<rparr>) c"
    using gives_close [of "?b\<lparr>j_view := v\<rparr>" ?c] unlock by simp
  then have "gives journal_open (journal_new i) c (Inl (Sup JournalCorrupt))
      (?b\<lparr>j_view := v, j_closed := True, j_file := None, j_dir_open := False\<rparr>) c"
    unfolding journal_open_def
    by (intro gives_scatch_fails [OF o] gives_sthen) (use gives_simple(2) in \<open>simp_all add: is_os_error_def\<close>)
  then show ?thesis by force
qed

end
