(* ===== verification/Journal_Create.thy ===== *)
theory Journal_Create imports Main Journal_Open begin

text \<open>
  A missing journal: opening creates the file, pins and locks it and writes the header. It
  then stands for the empty list, unless the header could not be written.
\<close>

lemma gives_create_file:
  assumes c: "fs_dir c = Some d" "dir_ok (fs_euid c) d" "\<not> fs_locked c" "fs_entry c = EMissing" "fs_fresh c = Some m"
    and m: "st_kind m = FReg" "st_uid m = fs_euid c" "st_nlink m = 1" "fs_chmod_ok c"
  defines "m' \<equiv> m\<lparr>st_perm := 384, st_size := 0\<rparr>"
    and "c' \<equiv> (created c m)\<lparr>fs_meta := Some (m\<lparr>st_perm := 384\<rparr>), fs_locked := True\<rparr>"
  shows "open_file ((journal_new i)\<lparr>j_dir_open := True, j_dir_id := Some (metadata_identity d)\<rparr>, w) = r \<Longrightarrow>
    tame w \<Longrightarrow> wcore w = c \<Longrightarrow>
    \<exists>w1. tame w1 \<and> wcore w1 = c' \<and> r = sthen write_header validate_binding (journal_bound i d m', w1) \<and>
         fs_bound (journal_bound i d m') c'"
proof -
  let ?j = "(journal_new i)\<lparr>j_dir_open := True, j_dir_id := Some (metadata_identity d)\<rparr>"
  let ?c1 = "created c m" and ?c2 = "(created c m)\<lparr>fs_meta := Some (m\<lparr>st_perm := 384\<rparr>)\<rparr>"
  assume open_w: "open_file (?j, w) = r" and w: "tame w" "wcore w = c"
  have o: "gives open_or_create ?j c (Inr True) ?j ?c1"
    unfolding open_or_create_def
    by (rule gives_scatch_fails [OF gives_sthen_fails [OF gives_open_missing [OF c(4)]]], unfold if_P [OF refl])
       (rule gives_os_error_as [OF gives_sthen [OF gives_open_create [OF c(4,5)] gives_simple(1)]])
  have ch: "gives (os_error_as JournalIo (on_os (os_fchmod 384))) k ?c1 (Inr ()) k ?c2" for k
    by (rule gives_os_error_as, rule gives_fchmod) (use m(4) in \<open>simp_all add: created_def\<close>)
  have f2: "fs_dir ?c2 = Some d" "file_meta ?c2 = Some m'" "fs_entry ?c2 = ESame" "fs_euid ?c2 = fs_euid c" "\<not> fs_locked ?c2"
    using c by (simp_all add: created_def file_meta_def m'_def)
  have own: "owned_file (fs_euid c) m'" using m by (simp add: owned_file_def m'_def)
  have v: "gives validate_binding (?j\<lparr>j_file := Some False\<rparr>) ?c2 (Inr ())
      (?j\<lparr>j_file := Some False, j_file_id := Some (metadata_identity m')\<rparr>) ?c2"
    using gives_validate_pin [OF f2(1,2,3), of "?j\<lparr>j_file := Some False\<rparr>"] own c(2) f2(4) by (simp add: journal_new_def)
  have bound: "fs_bound (journal_bound i d m') c'"
    using bound_journal_bound [OF f2(1) _ f2(3,2) _ refl, of i] own c(2) f2(4) by (simp add: c'_def)
  have q: "?j\<lparr>j_file := Some False, j_file_id := Some (metadata_identity m'), j_file := Some True\<rparr> = journal_bound i d m'"
    by (simp add: journal_bound_def journal_new_def)
  let ?pre = "\<lambda>k. sthen (jput (\<lambda>j. j\<lparr>j_file := Some False\<rparr>))
    (sthen (os_error_as JournalIo (on_os (os_fchmod 384)))
    (sthen validate_binding
    (sthen (os_error_as JournalBusy (on_os os_flock))
    (sthen (jput (\<lambda>j. j\<lparr>j_file := Some True\<rparr>)) (sthen validate_binding k)))))"
  have p: "gives (jput (\<lambda>j. j\<lparr>j_file := Some True\<rparr>)) (?j\<lparr>j_file := Some False, j_file_id := Some (metadata_identity m')\<rparr>) c' (Inr ())
      (journal_bound i d m') c'"
    using gives_simple(4) [of "\<lambda>j. j\<lparr>j_file := Some True\<rparr>" "?j\<lparr>j_file := Some False, j_file_id := Some (metadata_identity m')\<rparr>" c'] q
    by simp
  have fl: "gives (os_error_as JournalBusy (on_os os_flock)) k ?c2 (Inr ()) k c'" for k
    unfolding c'_def by (rule gives_os_error_as, rule gives_flock) (use f2 in simp)
  have pre: "gives (?pre (sret ())) ?j ?c1 (Inr ()) (journal_bound i d m') c'"
    by (rule gives_sthen [OF gives_simple(4)], rule gives_sthen [OF ch], rule gives_sthen [OF v], rule gives_sthen [OF fl],
        rule gives_sthen [OF p], rule gives_sthen [OF gives_validate [OF bound]], rule gives_simple(1))
  obtain w0 where w0: "open_or_create (?j, w) = (Inr True, (?j, w0))" "tame w0" "wcore w0 = ?c1" using givesD [OF o w] .
  obtain w1 where w1: "?pre (sret ()) (?j, w0) = (Inr (), (journal_bound i d m', w1))" "tame w1" "wcore w1 = c'"
    using givesD [OF pre w0(2,3)] .
  have assoc: "sthen (sthen a b) k s = sthen a (sthen b k) s" for a b :: "unit jm" and k :: "unit jm" and s
    by (simp add: sthen_def sbind_def split: sum.splits prod.splits)
  have "sthen (?pre (sret ())) k (?j, w0) = ?pre k (?j, w0)" for k :: "unit jm"
    by (simp add: sthen_def sbind_def split: sum.splits prod.splits)
  then have pre_eq: "?pre k (?j, w0) = k (journal_bound i d m', w1)" for k :: "unit jm"
    using sthen_step(1) [where m = "?pre (sret ())", OF w1(1)] by metis
  have "open_file (?j, w) = ?pre (sthen write_header validate_binding) (?j, w0)"
    unfolding open_file_def by (subst sbind_step(1) [where m = open_or_create, OF w0(1)]) simp
  then have "r = ?pre (sthen write_header validate_binding) (?j, w0)" using open_w by simp
  with pre_eq w1 bound show ?thesis by auto
qed

lemma write_header_tame:
  assumes "tame w" "wcore w = c"
  shows "\<exists>k w'. write_header (j, w) = (Inr (), (j, w')) \<and> tame w' \<and> grown c journal_header (wcore w') \<or>
                write_header (j, w) = (Inl (Sup JournalIo), (j, w')) \<and> tame w' \<and> grown c (take k journal_header) (wcore w')"
proof -
  obtain k res w1 where w1: "write_all journal_header w = (res, w1)" "tame w1" "grown c (take k journal_header) (wcore w1)"
    "res = Inr () \<and> take k journal_header = journal_header \<or> res = Inl (Sup JournalIo)"
    using write_all_tame [OF assms] by metis
  have o: "on_os (write_all journal_header) (j, w) = (res, (j, w1))" using w1(1) by (rule on_os_eq)
  obtain w2 where w2: "tame w2" "wcore w2 = wcore w1" "os_fsync w1 = (Inr (), w2) \<or> os_fsync w1 = (Inl OsErr, w2)"
    using os_fsync_tame [OF w1(2) refl] by metis
  obtain w3 where w3: "tame w3" "wcore w3 = wcore w2" "os_fsync w2 = (Inr (), w3) \<or> os_fsync w2 = (Inl OsErr, w3)"
    using os_fsync_tame [OF w2(1) refl] by metis
  have f: "on_os os_fsync (j, w1) = (fst (os_fsync w1), (j, w2))" "on_os os_fsync (j, w2) = (fst (os_fsync w2), (j, w3))"
    using w2(3) w3(3) by (auto simp: on_os_def)
  consider "res = Inl (Sup JournalIo)" | "res = Inr ()" "os_fsync w1 = (Inl OsErr, w2)"
    | "res = Inr ()" "os_fsync w1 = (Inr (), w2)" "os_fsync w2 = (Inl OsErr, w3)"
    | "res = Inr ()" "os_fsync w1 = (Inr (), w2)" "os_fsync w2 = (Inr (), w3)"
    using w1(4) w2(3) w3(3) by auto
  then show ?thesis
  proof cases
    case 1
    with o have "write_header (j, w) = (Inl (Sup JournalIo), (j, w1))"
      by (simp add: write_header_def scatch_def sthen_def sbind_def)
    with w1 show ?thesis by blast
  next
    case 2
    with o f have "write_header (j, w) = (Inl (Sup JournalIo), (j, w2))"
      by (simp add: write_header_def scatch_def sthen_def sbind_def)
    with w1 w2 show ?thesis by metis
  next
    case 3
    with o f have "write_header (j, w) = (Inl (Sup JournalIo), (j, w3))"
      by (simp add: write_header_def scatch_def sthen_def sbind_def)
    with w1 w2 w3 show ?thesis by metis
  next
    case 4
    with o f have "write_header (j, w) = (Inr (), (j, w3))"
      by (simp add: write_header_def scatch_def sthen_def sbind_def)
    moreover have "grown c journal_header (wcore w3)" using w1(3,4) w2(2) w3(2) 4 by auto
    ultimately show ?thesis using w3 by blast
  qed
qed

definition creatable :: "fs \<Rightarrow> bool" where
  "creatable c \<longleftrightarrow> fs_entry c = EMissing \<and> fs_chmod_ok c \<and>
     (case fs_fresh c of Some m \<Rightarrow> st_kind m = FReg \<and> st_uid m = fs_euid c \<and> st_nlink m = 1 | None \<Rightarrow> False)"

lemma open_created:
  assumes c: "openable c" "creatable c" and i: "identity_ok i" and w: "tame w" "wcore w = c"
  shows "\<exists>j' w'. tame w' \<and>
     (journal_open (journal_new i, w) = (Inr (), (j', w')) \<and> journal_at i [] j' (wcore w') \<and> j_file j' = Some True \<or>
      journal_open (journal_new i, w) = (Inl (Sup JournalIo), (j', w')) \<and> j_closed j')"
proof -
  obtain d where d: "fs_dup_ok c" "fs_read_ok c" "\<not> fs_locked c" "fs_dir c = Some d" "dir_ok (fs_euid c) d"
    using openableE [OF c(1)] .
  obtain m where m: "fs_entry c = EMissing" "fs_chmod_ok c" "fs_fresh c = Some m" "st_kind m = FReg" "st_uid m = fs_euid c" "st_nlink m = 1"
    using c(2) by (auto simp: creatable_def split: option.splits)
  let ?j = "(journal_new i)\<lparr>j_dir_open := True, j_dir_id := Some (metadata_identity d)\<rparr>"
  define m' where "m' = m\<lparr>st_perm := 384, st_size := 0\<rparr>"
  define c' where "c' = (created c m)\<lparr>fs_meta := Some (m\<lparr>st_perm := 384\<rparr>), fs_locked := True\<rparr>"
  let ?b = "journal_bound i d m'"
  let ?prefix = "\<lambda>k. sthen (on_os os_dup_dir)
    (sthen (jput (\<lambda>j. j\<lparr>j_dir_open := True\<rparr>))
    (sbind (on_os os_fstat_dir) (\<lambda>d.
     sbind (on_os os_geteuid) (\<lambda>euid.
     sthen (sguard (dir_ok euid d) (Sup InvalidJournal))
    (sthen (jput (\<lambda>j. j\<lparr>j_dir_id := Some (metadata_identity d)\<rparr>)) k)))))"
  have pg: "gives (?prefix (sret ())) (journal_new i) c (Inr ()) ?j c"
    by (rule gives_sthen [OF gives_dup [OF d(1)]], rule gives_sthen [OF gives_simple(4)],
      rule gives_sbind [OF gives_fstat_dir [OF d(4)]], rule gives_sbind [OF gives_geteuid],
      rule gives_sthen [OF gives_guard [OF d(5)]], rule gives_sthen [OF gives_simple(4)], rule gives_simple(1))
  obtain w0 where w0: "?prefix (sret ()) (journal_new i, w) = (Inr (), (?j, w0))" "tame w0" "wcore w0 = c" using givesD [OF pg w] .
  have "sthen (?prefix (sret ())) k (journal_new i, w) = ?prefix k (journal_new i, w)" for k :: "unit jm"
    by (simp add: sthen_def sbind_def split: sum.splits prod.splits)
  then have steps: "open_steps (journal_new i, w) = sthen open_file verify_full (?j, w0)"
    using sthen_step(1) [where m = "?prefix (sret ())", OF w0(1)] unfolding open_steps_def by metis
  obtain w1 where w1: "tame w1" "wcore w1 = c'" "open_file (?j, w0) = sthen write_header validate_binding (?b, w1)" "fs_bound ?b c'"
    using gives_create_file [OF d(4,5,3) m(1,3-6,2) refl w0(2,3)] unfolding m'_def c'_def by blast
  have c'f: "fs_content c' = []" "fs_read_ok c'" using d(2) by (simp_all add: c'_def created_def)
  have fail: "\<exists>j' w'. tame w' \<and> journal_open (journal_new i, w) = (Inl (Sup JournalIo), (j', w')) \<and> j_closed j'"
    if "open_steps (journal_new i, w) = (Inl (Sup JournalIo), (?b, w2))" "tame w2" for w2
  proof -
    note h = that
    obtain w3 where "journal_close (?b, w2) = (Inr (), (?b\<lparr>j_closed := True, j_file := None, j_dir_open := False\<rparr>, w3))" "tame w3"
      using givesD [OF gives_close [of ?b] h(2) refl] by auto
    then show ?thesis using h(1)
      by (intro exI [of _ "?b\<lparr>j_closed := True, j_file := None, j_dir_open := False\<rparr>"] exI [of _ w3])
         (simp add: journal_open_def scatch_def sthen_def sbind_def is_os_error_def)
  qed
  obtain k w2 where w2: "write_header (?b, w1) = (Inr (), (?b, w2)) \<and> tame w2 \<and> grown c' journal_header (wcore w2) \<or>
      write_header (?b, w1) = (Inl (Sup JournalIo), (?b, w2)) \<and> tame w2 \<and> grown c' (take k journal_header) (wcore w2)"
    using write_header_tame [OF w1(1,2), of ?b] by metis
  then show ?thesis
  proof
    assume "write_header (?b, w1) = (Inl (Sup JournalIo), (?b, w2)) \<and> tame w2 \<and> grown c' (take k journal_header) (wcore w2)"
    then have "open_steps (journal_new i, w) = (Inl (Sup JournalIo), (?b, w2))" "tame w2"
      unfolding steps by (simp_all add: w1(3) sthen_def sbind_def)
    from fail [OF this] show ?thesis by blast
  next
    assume g: "write_header (?b, w1) = (Inr (), (?b, w2)) \<and> tame w2 \<and> grown c' journal_header (wcore w2)"
    let ?c2 = "wcore w2"
    have gr: "grown c' journal_header ?c2" using g by blast
    have bound: "fs_bound ?b ?c2" using grown_bound [OF gr w1(4)] .
    have cont: "fs_content ?c2 = log_image i []" "fs_read_ok ?c2" using grown_fields [OF gr] c'f by simp_all
    obtain m2 where m2: "file_meta ?c2 = Some m2" using fs_boundE [OF bound] by metis
    let ?j2 = "?b\<lparr>j_view := start_view, j_tail := start_pos, j_ready := None, j_verified := Some (content_state m2)\<rparr>"
    have lok: "log_ok i []" using i by (simp add: log_ok_def)
    have "gives verify_full ?b ?c2 (Inr ()) ?j2 ?c2"
      using gives_verify_full [OF bound cont(2) lok _ cont(1) m2, of start_view] by simp
    then have "gives (sthen validate_binding verify_full) ?b ?c2 (Inr ()) ?j2 ?c2" by (rule gives_sthen [OF gives_validate [OF bound]])
    then obtain w3 where w3: "sthen validate_binding verify_full (?b, w2) = (Inr (), (?j2, w3))" "tame w3" "wcore w3 = ?c2"
      using g givesD by blast
    have "sthen (sthen write_header validate_binding) verify_full (?b, w1) = sthen validate_binding verify_full (?b, w2)"
      using g by (simp add: sthen_def sbind_def split: sum.splits prod.splits)
    then have "open_steps (journal_new i, w) = (Inr (), (?j2, w3))"
      unfolding steps using w1(3) w3(1) by (simp add: sthen_def sbind_def)
    then have "journal_open (journal_new i, w) = (Inr (), (?j2, w3))" by (simp add: journal_open_def scatch_def)
    moreover have "journal_at i [] ?j2 (wcore w3)"
    proof -
      have "fs_bound ?j2 ?c2" using bound by (subst fs_bound_cong [of ?j2 ?b]) simp_all
      then show ?thesis using w3(3) cont lok m2 by (simp add: journal_at_def)
    qed
    ultimately show ?thesis using w3(2) by (intro exI [of _ ?j2] exI [of _ w3]) simp
  qed
qed

end
