(* ===== verification/Journal_Props.thy ===== *)
theory Journal_Props imports Main Journal_Create begin

text \<open>
  What the supervisor journal guarantees: the record codec, the bounds of a frame, append
  and reopen as operations on the list of records, replay, torn tails, tampering, and the
  order of the records of a run.
\<close>

section \<open>Sample objects\<close>

definition sample_run :: existing_run where
  "sample_run = \<lparr>er_name = ul ''web'', er_run_id = ul ''0f8fad5b-d9cb-469f-a165-70867728950e'', er_schema = 2,
     er_key = \<lparr>dk_kind = OciRoot, dk_backend = Kvm\<rparr>\<rparr>"

definition sample_identity :: sup_identity where
  "sample_identity = \<lparr>si_record = sample_run, si_generation = ul ''7c9e6679-7425-40de-944b-e07fc1f90ae7'', si_owner = 1000\<rparr>"

definition ready_record :: journal_record where
  "ready_record = args_record 1 KReady None None None None"

definition output_record :: journal_record where
  "output_record = args_record 2 KOutput (Some Stdout) (Some [72, 105]) None None"

definition sample_stat :: "file_kind \<Rightarrow> int \<Rightarrow> int \<Rightarrow> file_stat" where
  "sample_stat k perm ino = \<lparr>st_kind = k, st_perm = perm, st_uid = 1000, st_nlink = 1, st_dev = 8, st_ino = ino,
     st_size = 0, st_mtime = 0, st_ctime = 0\<rparr>"

definition sample_fs :: "bytes \<Rightarrow> fs" where
  "sample_fs content = \<lparr>fs_euid = 1000, fs_dir = Some (sample_stat FDir 448 2), fs_meta = Some (sample_stat FReg 384 3),
     fs_entry = ESame, fs_content = content, fs_fresh = None, fs_room = None, fs_sync_ok = True, fs_read_ok = True,
     fs_chmod_ok = True, fs_dup_ok = True, fs_locked = False, fs_clock = 0\<rparr>"

definition sample_world :: "bytes \<Rightarrow> world" where
  "sample_world content = \<lparr>w_fs = sample_fs content, w_env = [Fault (Some 10) True 1]\<rparr>"

lemma sample_identity_ok: "identity_ok sample_identity"
  by (simp add: identity_ok_def sample_identity_def sample_run_def is_uuid_def uuid_shape_def ul_def is_hex_lower_def eval_nat_numeral)

lemma sample_fs_ok: "openable (sample_fs b)" "own_file (sample_fs b)" "fs_content (sample_fs b) = b"
  by (simp_all add: openable_def own_file_def sample_fs_def sample_stat_def file_meta_def dir_ok_def owned_file_def)

lemma sample_world_ok: "tame (sample_world b)" "wcore (sample_world b) = sample_fs b"
  by (simp_all add: sample_world_def tame_def wcore_def fcore_def sample_fs_def)

lemma ready_entry: "entry_ok sample_identity 1 ready_record"
  using payload_length [OF sample_identity_ok, of 1 None None KReady None None]
  by (auto simp: entry_ok_def record_ok_def ready_record_def args_record_def)

lemma output_entry: "entry_ok sample_identity 2 output_record"
  using payload_length [OF sample_identity_ok, of 2 None "Some [72, 105]" KOutput "Some Stdout" None]
  by (auto simp: entry_ok_def record_ok_def output_record_def args_record_def max_output_bytes_def)

lemma sample_logs:
  "log_ok sample_identity []"
  "log_ok sample_identity [ready_record]"
  "log_ok sample_identity [ready_record, output_record]"
proof -
  show 0: "log_ok sample_identity []" by (simp add: log_ok_def sample_identity_ok)
  have "log_view ([] @ [ready_record]) = Inr (start_view\<lparr>v_phase := PReady, v_ready := Some 1\<rparr>)"
    by (simp only: log_view_simps rbind_simps) (simp add: apply_semantics_def start_view_def ready_record_def args_record_def)
  then have v1: "log_view [ready_record] = Inr (start_view\<lparr>v_phase := PReady, v_ready := Some 1\<rparr>)" by simp
  with 0 ready_entry log_ok_snoc [of sample_identity "[]" ready_record] show 1: "log_ok sample_identity [ready_record]" by simp
  have "log_view ([ready_record] @ [output_record]) = Inr (start_view\<lparr>v_phase := PReady, v_ready := Some 1\<rparr>)"
    by (simp only: log_view_simps v1 rbind_simps) (simp add: apply_semantics_def output_record_def args_record_def)
  with 1 output_entry log_ok_snoc [of sample_identity "[ready_record]" output_record]
  show "log_ok sample_identity [ready_record, output_record]" by (simp add: numeral_2_eq_2)
qed

lemma sample_journal:
  assumes "log_ok sample_identity rs"
  shows "\<exists>j w. tame w \<and> journal_at sample_identity rs j (wcore w) \<and> j_file j = Some True"
proof -
  let ?b = "log_image sample_identity rs"
  obtain j' where j: "gives journal_open (journal_new sample_identity) (sample_fs ?b) (Inr ()) j' (sample_fs ?b\<lparr>fs_locked := True\<rparr>)"
    "journal_at sample_identity rs j' (sample_fs ?b\<lparr>fs_locked := True\<rparr>)" "j_file j' = Some True"
    using gives_open [OF sample_fs_ok(1,2) assms sample_fs_ok(3)] by blast
  obtain w where "tame w" "wcore w = sample_fs ?b\<lparr>fs_locked := True\<rparr>" using givesD [OF j(1) sample_world_ok] .
  with j show ?thesis by metis
qed

section \<open>The record codec\<close>

text \<open>C25. Whatever bytes a journal frame carries and however much of its stack the interpreter has
  left, \<open>_decode_payload\<close> returns a record with the expected cursor and exactly the fields of its kind
  (an output record has a stream other than the pty and 1 to 65536 bytes, an exit record a consistent
  process exit, a failure record the one category of its kind, and every other field is empty), or
  refuses the bytes with \<open>JOURNAL_CORRUPT\<close>, or lets the \<open>RecursionError\<close> of \<open>json.loads\<close> through. The
  last needs a payload of more bytes than there are levels left, and it does happen, for that many opening
  brackets and one more.\<close>

theorem decoded_record_typed:
  "(case decode_payload_at lv i payload cursor of
      Inl e \<Rightarrow> e = Sup JournalCorrupt \<or> e = PyErr RecursionErr \<and> (\<exists>k. lv = Some k \<and> k < length payload)
    | Inr r \<Rightarrow> record_ok r \<and> jr_cursor r = cursor) \<and>
   decode_payload_at (Some levels) i (replicate (Suc levels) 91) cursor = Inl (PyErr RecursionErr)"
  using decode_payload_deep [of lv i payload cursor] decode_payload_ok decode_payload_errors decode_payload_brackets
  by (auto split: sum.splits)

text \<open>C22. The payload \<open>_payload_for\<close> writes for a well-formed record of a run decodes, at the record's
  cursor, to that very record (base64 of the data, sorted keys and ASCII escaping included).\<close>

theorem record_roundtrip:
  assumes "identity_ok i" "record_ok r"
    and "payload_for i (jr_cursor r) (jr_kind r) (jr_stream r) (jr_data r) (jr_exit r) (jr_error r) = Inr b"
  shows "decode_payload i b (jr_cursor r) = Inr r"
  using record_payload_decodes [OF assms] .

theorem record_roundtrip_witness:
  "\<exists>b. payload_for sample_identity 2 KOutput (Some Stdout) (Some [72, 105]) None None = Inr b \<and>
       decode_payload sample_identity b 2 = Inr output_record"
proof -
  obtain b where "record_payload sample_identity output_record = Inr b" "record_ok output_record"
    using output_entry by (auto simp: entry_ok_def)
  with record_roundtrip [OF sample_identity_ok this(2), of b] show ?thesis
    by (auto simp: output_record_def args_record_def)
qed

text \<open>C24. The size check of \<open>append\<close> never fires for what the supervisor core passes it: up to twenty-digit
  cursors, any data of at most 65536 bytes and any exit with twenty-digit fields, the payload exists and
  has at most 131072 bytes.\<close>

theorem payload_fits_frame:
  assumes "identity_ok i" "\<bar>cursor\<bar> < 10 ^ 20" "pred_option short_exit ex" "pred_option (\<lambda>b. length b \<le> max_output_bytes) data"
  shows "\<exists>b. payload_for i cursor kind stream data ex err = Inr b \<and> length b \<le> max_frame_bytes"
  using payload_length [OF assms] .

theorem payload_fits_frame_witness:
  "\<exists>b. payload_for sample_identity 7 KOutput (Some Stderr) (Some (replicate 65536 0)) None None = Inr b \<and> length b \<le> 131072"
  using payload_fits_frame [OF sample_identity_ok, of 7 None "Some (replicate 65536 0)" KOutput "Some Stderr" None]
  by (simp add: max_output_bytes_def max_frame_bytes_def)

section \<open>Append, reopen, replay\<close>

text \<open>C18. \<open>append\<close> refines adding a record to a list, whatever writes come up short and whatever syncs fail.
  If the abstract list refuses the record (it does not fit its kind, its payload is too long, or the phase
  does not allow it) the call raises that error and nothing changes. Otherwise it either returns the record
  and the journal stands for the longer list, or it latches \<open>JOURNAL_IO\<close> and the file holds the old image
  and some prefix of the new frame.\<close>

theorem append_refines_list:
  assumes "journal_at i rs j (wcore w)" "tame w" "pred_option process_exit_ok ex"
    and "journal_append kind stream data ex err (j, w) = (res, (j', w'))"
  shows "case admit i rs (args_record (int (length rs) + 1) kind stream data ex err) of
      Inl e \<Rightarrow> res = Inl e \<and> j' = j \<and> wcore w' = wcore w
    | Inr r \<Rightarrow>
        res = Inr r \<and> journal_at i (rs @ [r]) j' (wcore w') \<or>
        res = Inl (Sup JournalIo) \<and> j_failure j' = Some JournalIo \<and>
          (\<exists>n. fs_content (wcore w') = log_image i rs @ take n (frame_bytes i r))"
proof -
  let ?r = "args_record (int (length rs) + 1) kind stream data ex err"
  have x: "ex = Some p \<Longrightarrow> process_exit_ok p" for p using assms(3) by simp
  note p = journal_at_parts [OF assms(1)]
  have adm: "admit i rs ?r = Inr ?r" if "log_ok i (rs @ [?r])"
    using that admit_ok [OF p(6), of ?r ?r] x by (simp add: args_record_def)
  have l: "j_failure (latch JournalIo j) = Some JournalIo" using p(3) by (simp add: latch_def)
  from append_result [OF assms(1,2) refl x refl, where k = kind and s = stream and d = data and err = err] show ?thesis
    using assms(4) adm l p(7) grown_fields(1) by (fastforce split: sum.splits)
qed

theorem append_refines_list_witness:
  "\<exists>j w res j' w'. journal_at sample_identity [] j (wcore w) \<and>
     journal_append KReady None None None None (j, w) = (res, (j', w')) \<and>
     (res = Inr ready_record \<and> journal_at sample_identity [ready_record] j' (wcore w') \<or>
      res = Inl (Sup JournalIo) \<and> j_failure j' = Some JournalIo)"
proof -
  obtain j w where jw: "tame w" "journal_at sample_identity [] j (wcore w)" using sample_journal [OF sample_logs(1)] by blast
  obtain res j' w' where a: "journal_append KReady None None None None (j, w) = (res, (j', w'))" by (metis surj_pair)
  have "admit sample_identity [] (args_record 1 KReady None None None None) = Inr ready_record"
    using admit_ok [OF sample_logs(1), of ready_record ready_record] sample_logs(2) by (simp add: ready_record_def args_record_def)
  with append_refines_list [OF jw(2,1) _ a] jw a show ?thesis by fastforce
qed

text \<open>C20. What the constant-time state of an open journal says is what a full verification of its file says:
  close it and open the file again, with nobody tampering, and the new object has the same phase, exit
  status, tail position, checksum chain and readiness anchor.\<close>

theorem reopen_gives_same_state:
  assumes "journal_at i rs j (wcore w)" "tame w" "j_file j = Some True" "fs_dup_ok (wcore w)"
  shows "\<exists>j1 w1 j2 w2. journal_close (j, w) = (Inr (), (j1, w1)) \<and> journal_open (journal_new i, w1) = (Inr (), (j2, w2)) \<and>
    j_view j2 = j_view j \<and> j_tail j2 = j_tail j \<and> j_ready j2 = j_ready j \<and> journal_at i rs j2 (wcore w2)"
proof -
  note p = journal_at_parts [OF assms(1)]
  let ?c = "wcore w" and ?c1 = "(wcore w)\<lparr>fs_locked := False\<rparr>"
  obtain j1 w1 where w1: "journal_close (j, w) = (Inr (), (j1, w1))" "tame w1" "wcore w1 = ?c1"
    using givesD [OF gives_close [OF p(2)] assms(2) refl] unfolding if_P [OF assms(3)] .
  obtain d m where dm: "fs_dir ?c = Some d" "file_meta ?c = Some m" "binding_ok (fs_euid ?c) j d m m" "fs_entry ?c = ESame"
    using fs_boundE [OF p(4)] .
  have "openable ?c1" "own_file ?c1"
    using dm p(5) assms(4) by (auto simp: openable_def own_file_def binding_ok_def file_meta_def)
  moreover have "fs_content ?c1 = log_image i rs" using p(7) by simp
  ultimately obtain j2 where j2: "gives journal_open (journal_new i) ?c1 (Inr ()) j2 (?c1\<lparr>fs_locked := True\<rparr>)"
    "journal_at i rs j2 (?c1\<lparr>fs_locked := True\<rparr>)" using gives_open [OF _ _ p(6)] by blast
  obtain w2 where w2: "journal_open (journal_new i, w1) = (Inr (), (j2, w2))" "wcore w2 = ?c1\<lparr>fs_locked := True\<rparr>"
    using givesD [OF j2(1) w1(2,3)] by metis
  note p2 = journal_at_parts [OF j2(2)]
  have "j_view j2 = j_view j" "j_tail j2 = j_tail j" "j_ready j2 = j_ready j" using p(8-10) p2(8-10) by simp_all
  with w1 w2 j2(2) show ?thesis by metis
qed

theorem reopen_gives_same_state_witness:
  "\<exists>j w j1 w1 j2 w2. journal_close (j, w) = (Inr (), (j1, w1)) \<and> journal_open (journal_new sample_identity, w1) = (Inr (), (j2, w2)) \<and>
    j_tail j2 = j_tail j \<and> journal_at sample_identity [ready_record, output_record] j2 (wcore w2)"
proof -
  let ?b = "log_image sample_identity [ready_record, output_record]"
  obtain j' where j: "gives journal_open (journal_new sample_identity) (sample_fs ?b) (Inr ()) j' (sample_fs ?b\<lparr>fs_locked := True\<rparr>)"
    "journal_at sample_identity [ready_record, output_record] j' (sample_fs ?b\<lparr>fs_locked := True\<rparr>)" "j_file j' = Some True"
    using gives_open [OF sample_fs_ok(1,2) sample_logs(3) sample_fs_ok(3)] by blast
  obtain w where "tame w" "wcore w = sample_fs ?b\<lparr>fs_locked := True\<rparr>" using givesD [OF j(1) sample_world_ok] .
  moreover have "fs_dup_ok (sample_fs ?b\<lparr>fs_locked := True\<rparr>)" by (simp add: sample_fs_def)
  ultimately show ?thesis using reopen_gives_same_state [of sample_identity _ j' w] j by metis
qed

end
