(* ===== verification/Journal_Safety.thy ===== *)
theory Journal_Safety imports Main Journal_Props begin

text \<open>
  Replay, torn tails, tampering and the order of records of the supervisor journal.
\<close>

section \<open>The order of the records\<close>

text \<open>A run is ready once, puts out, and ends once; or it fails before it is ready.\<close>

fun ready_word :: "record_kind list \<Rightarrow> bool" where
  "ready_word [] = True"
| "ready_word (k # ks) = (if k = KOutput then ready_word ks else k \<in> {KExit, KDegraded} \<and> ks = [])"

fun phase_word :: "record_kind list \<Rightarrow> bool" where
  "phase_word [] = True"
| "phase_word (k # ks) = (if k = KReady then ready_word ks else k = KReadinessFailed \<and> ks = [])"

lemma apply_phase:
  "v_phase v = PStarting \<Longrightarrow> apply_semantics r v =
     (case jr_kind r of KReady \<Rightarrow> Inr (v\<lparr>v_phase := PReady, v_ready := Some (jr_cursor r)\<rparr>)
      | KReadinessFailed \<Rightarrow> Inr (v\<lparr>v_phase := PReadinessFailed, v_error := Some ReadinessFailed\<rparr>)
      | _ \<Rightarrow> Inl (Sup JournalCorrupt))"
  "v_phase v = PReady \<Longrightarrow> apply_semantics r v =
     (case jr_kind r of KOutput \<Rightarrow> Inr v | KExit \<Rightarrow> Inr (v\<lparr>v_phase := PExited, v_exit := jr_exit r\<rparr>)
      | KDegraded \<Rightarrow> Inr (v\<lparr>v_phase := PDegraded, v_error := Some ControlLost\<rparr>)
      | _ \<Rightarrow> Inl (Sup JournalCorrupt))"
  "v_phase v \<notin> {PStarting, PReady} \<Longrightarrow> apply_semantics r v = Inl (Sup JournalCorrupt)"
  by (auto simp: apply_semantics_def split: sup_phase.splits record_kind.splits)

lemma final_phase_stuck:
  "v_phase v \<notin> {PStarting, PReady} \<Longrightarrow> rfold (\<lambda>v r. apply_semantics r v) v rs = Inr v' \<longleftrightarrow> rs = [] \<and> v' = v"
  by (cases rs) (auto simp: apply_phase(3))

lemma ready_phase_word:
  "v_phase v = PReady \<Longrightarrow> (\<exists>v'. rfold (\<lambda>v r. apply_semantics r v) v rs = Inr v') \<longleftrightarrow> ready_word (map jr_kind rs)"
proof (induction rs arbitrary: v)
  case (Cons r rs)
  then show ?case
    by (cases "jr_kind r") (auto simp: apply_phase(2) final_phase_stuck)
qed simp

text \<open>C23. The record sequences \<open>_apply_semantics\<close> lets through, from the state of a new journal, are exactly:
  nothing, one readiness failure, or one READY, any number of OUTPUT records, and at most one EXIT or
  DEGRADED record at the end.\<close>

theorem accepted_record_order:
  "(\<exists>v. rfold (\<lambda>v r. apply_semantics r v) start_view rs = Inr v) \<longleftrightarrow> phase_word (map jr_kind rs)"
proof (cases rs)
  case (Cons r rs')
  then show ?thesis
    by (cases "jr_kind r") (auto simp: apply_phase(1) start_view_def final_phase_stuck ready_phase_word)
qed simp

section \<open>Replay\<close>

fun pull_many :: "nat \<Rightarrow> jpos \<Rightarrow> (journal_record list \<times> jpos) jm" where
  "pull_many 0 p = sret ([], p)"
| "pull_many (Suc n) p =
     sbind (pull_from_position p pull_limit) (\<lambda>(rs, q).
     sbind (pull_many n q) (\<lambda>(ss, q'). sret (rs @ ss, q')))"

lemma gives_pull_many:
  assumes at: "journal_at i rs j c" and k: "k \<le> length rs"
  shows "gives (pull_many n (fst (anchors i (take k rs)))) j c
           (Inr (take n (drop k rs), fst (anchors i (take (k + n) rs)))) j c"
  using k
proof (induction n arbitrary: k)
  case 0
  show ?case unfolding pull_many.simps take_0 add_0_right by (rule gives_simple(1))
next
  case (Suc n)
  let ?k = "if k < length rs then Suc k else k"
  let ?got = "if k < length rs then [rs ! k] else []"
  have pull: "gives (pull_from_position (fst (anchors i (take k rs))) pull_limit) j c (Inr (?got, fst (anchors i (take ?k rs)))) j c"
    using gives_pull [OF at Suc.prems] Suc.prems by (cases "k < length rs") auto
  have rest: "gives (pull_many n (fst (anchors i (take ?k rs)))) j c
      (Inr (take n (drop ?k rs), fst (anchors i (take (?k + n) rs)))) j c"
    by (rule Suc.IH) (use Suc.prems in auto)
  have eq: "?got @ take n (drop ?k rs) = take (Suc n) (drop k rs)" "take (?k + n) rs = take (k + Suc n) rs"
    using Suc.prems by (auto simp flip: Cons_nth_drop_Suc)
  have "gives (pull_many (Suc n) (fst (anchors i (take k rs)))) j c
      (Inr (?got @ take n (drop ?k rs), fst (anchors i (take (?k + n) rs)))) j c"
    unfolding pull_many.simps
    by (rule gives_sbind [OF pull], unfold split_conv, rule gives_sbind [OF rest], unfold split_conv) (rule gives_simple(1))
  then show ?case unfolding eq .
qed

lemma ready_first:
  assumes "log_view (r # rs) = Inr v" "jr_kind r = KReady"
  shows "v_ready v = Some (jr_cursor r) \<and> v_phase v \<noteq> PStarting \<and> snd (anchors i (r # rs)) = Some (fst (anchors i [r]))"
  using assms(1)
proof (induction rs arbitrary: v rule: rev_induct)
  case Nil
  then have "log_view ([] @ [r]) = Inr v" by simp
  then have "apply_semantics r start_view = Inr v" by (simp only: log_view_simps rbind_simps)
  moreover have "anchors i [r] = anchor_step i (anchors i []) r" using anchors_simps(2) [of i "[]" r] by simp
  ultimately show ?case using assms(2)
    by (auto simp: apply_semantics_def start_view_def anchor_step_def Let_def)
next
  case (snoc x rs)
  then obtain u where u: "log_view (r # rs) = Inr u" "apply_semantics x u = Inr v"
    using snoc.prems log_view_simps(2) [of "r # rs" x] by (metis append_Cons rbind_Inr_iff)
  note ih = snoc.IH [OF u(1)]
  have "jr_kind x \<noteq> KReady" "v_ready v = v_ready u" "v_phase v \<noteq> PStarting"
    using ih u(2) by (auto simp: apply_semantics_def split: sup_phase.splits record_kind.splits)
  with ih show ?case using anchors_simps(2) [of i "r # rs" x] by (simp add: anchor_step_def Let_def)
qed

text \<open>C19. A session that starts at the readiness position and pulls one record at a time gets every record
  after READY, each once and in order, then nothing more, and stands at the tail of the journal.\<close>

theorem replay_is_complete:
  assumes "journal_at i (r # rs) j (wcore w)" "tame w" "jr_kind r = KReady" "length rs \<le> n"
  shows "\<exists>w'. sbind ready_position (pull_many n) (j, w) = (Inr (rs, j_tail j), (j, w'))"
proof -
  note p = journal_at_parts [OF assms(1)]
  have first: "v_ready (j_view j) = Some (jr_cursor r)" "snd (anchors i (r # rs)) = Some (fst (anchors i [r]))"
    using ready_first [OF p(10) assms(3), of i] by auto
  have pos: "gives ready_position j (wcore w) (Inr (fst (anchors i [r]))) j (wcore w)"
    using gives_ready_position [OF assms(1)] first by simp
  have "gives (pull_many n (fst (anchors i [r]))) j (wcore w) (Inr (rs, j_tail j)) j (wcore w)"
    using gives_pull_many [OF assms(1), of 1 n] assms(4) p(8) by simp
  from gives_sbind [where f = "pull_many n", OF pos this] show ?thesis using givesD [OF _ assms(2) refl] by metis
qed

theorem replay_is_complete_witness:
  "\<exists>j w w'. sbind ready_position (pull_many 5) (j, w) = (Inr ([output_record], j_tail j), (j, w'))"
proof -
  obtain j w where "tame w" "journal_at sample_identity [ready_record, output_record] j (wcore w)"
    using sample_journal [OF sample_logs(3)] by blast
  then show ?thesis using replay_is_complete [of sample_identity ready_record "[output_record]" j w 5]
    by (auto simp: ready_record_def args_record_def)
qed

section \<open>Torn tails\<close>

text \<open>A journal whose last append was cut off in the middle of its frame cannot be opened again: the call
  raises \<open>JOURNAL_CORRUPT\<close> and leaves the object closed, whatever records come before.\<close>

theorem torn_tail_refused:
  assumes "openable (wcore w)" "own_file (wcore w)" "tame w"
    and "log_ok i rs" "entry_ok i n r" "frame_bytes i r = z @ rest" "z \<noteq> []" "rest \<noteq> []"
    and "fs_content (wcore w) = log_image i rs @ z"
  shows "\<exists>j' w'. journal_open (journal_new i, w) = (Inl (Sup JournalCorrupt), (j', w')) \<and> j_closed j'"
proof -
  have "identity_ok i" using assms(4) by (simp add: log_ok_def)
  then obtain b where b: "frame_bytes i r = frame_of b" "0 < length b" "length b \<le> max_frame_bytes"
    using entry_frame [OF _ assms(5)] by metis
  obtain j' where "gives journal_open (journal_new i) (wcore w) (Inl (Sup JournalCorrupt)) j' (wcore w)" "j_closed j'"
    using gives_open_torn [OF assms(1,2,4,9) _ assms(8,7) b(2,3)] assms(6) b(1) by metis
  then show ?thesis using givesD [OF _ assms(3) refl] by metis
qed

theorem torn_tail_refused_witness:
  "\<exists>w j' w'. fs_content (wcore w) = journal_header @ take 5 (frame_bytes sample_identity ready_record) \<and>
     journal_open (journal_new sample_identity, w) = (Inl (Sup JournalCorrupt), (j', w')) \<and> j_closed j'"
proof -
  let ?f = "frame_bytes sample_identity ready_record"
  let ?w = "sample_world (journal_header @ take 5 ?f)"
  obtain b where "?f = frame_of b" using entry_frame [OF sample_identity_ok ready_entry] by metis
  then have "36 \<le> length ?f" by (simp add: checksum_bytes_def)
  then have "take 5 ?f \<noteq> []" "drop 5 ?f \<noteq> []" by auto
  then show ?thesis
    using torn_tail_refused [of ?w sample_identity "[]" 1 ready_record "take 5 ?f" "drop 5 ?f"] sample_fs_ok sample_world_ok
      sample_logs(1) ready_entry unfolding log_image_simps append_take_drop_id by metis
qed

section \<open>Tampering\<close>

datatype journal_call =
  CallCursor | CallSnapshot | CallReadyPosition | CallPull jpos int
  | CallAppend record_kind "process_stream option" "bytes option" "process_exit option" "sup_category option"

definition call_journal :: "journal_call \<Rightarrow> unit jm" where
  "call_journal call =
     (case call of
        CallCursor \<Rightarrow> sbind journal_cursor (\<lambda>_. sret ())
      | CallSnapshot \<Rightarrow> sbind journal_snapshot (\<lambda>_. sret ())
      | CallReadyPosition \<Rightarrow> sbind ready_position (\<lambda>_. sret ())
      | CallPull p limit \<Rightarrow> sbind (pull_from_position p limit) (\<lambda>_. sret ())
      | CallAppend k s d ex err \<Rightarrow> sbind (journal_append k s d ex err) (\<lambda>_. sret ()))"

lemma guard_fails: "ready_guard s = (Inl e, t) \<Longrightarrow> sthen ready_guard k s = (Inl e, t)"
  by (rule sthen_step(2) [where m = ready_guard])

lemma call_guarded:
  assumes "ready_guard s = (Inl e, t)"
  shows "call_journal call s = (Inl e, t)"
  by (cases call)
    (simp_all add: call_journal_def journal_cursor_def journal_snapshot_def ready_position_def pull_from_position_def
      journal_append_def sbind_step(2) [where m = "sthen ready_guard _", OF guard_fails [OF assms]])

lemma gives_binding_stats_fails:
  assumes "\<not> (\<exists>d m. fs_dir c = Some d \<and> file_meta c = Some m \<and> (fs_entry c = ESame \<or> (\<exists>e. fs_entry c = EOther e)))"
  shows "gives binding_stats j c (Inl (Sup InvalidJournal)) j c"
proof -
  have os: "gives (os_error_as InvalidJournal m) j c (Inl (Sup InvalidJournal)) j c"
    if "gives m j c (Inl e) j c" "is_os_error e" for m :: "(file_stat \<times> file_stat \<times> file_stat) jm" and e
    using gives_os_error_as_fails [OF that(1), of InvalidJournal] that(2) by simp
  have s_dir: "gives (on_os os_fstat_dir) j c (stat_result (fs_dir c)) j c"
    unfolding os_fstat_dir_def by (rule gives_os_look) auto
  have s_file: "gives (on_os os_fstat_file) j c (stat_result (file_meta c)) j c"
    unfolding os_fstat_file_def by (rule gives_os_look) auto
  have s_entry: "fs_entry c = EMissing \<Longrightarrow> gives (on_os os_stat_entry) j c (Inl OsMissing) j c"
    unfolding os_stat_entry_def by (rule gives_os_look) auto
  show ?thesis
  proof (cases "fs_dir c")
    case None
    with s_dir have "gives (on_os os_fstat_dir) j c (Inl OsErr) j c" by (simp add: stat_result_def)
    then show ?thesis unfolding binding_stats_def
      by (intro os [where e = OsErr] gives_sbind_fails) (simp_all add: is_os_error_def)
  next
    case (Some d)
    note d = gives_fstat_dir [OF Some, of j]
    show ?thesis
    proof (cases "file_meta c")
      case None
      with s_file have f: "gives (on_os os_fstat_file) j c (Inl OsErr) j c" by (simp add: stat_result_def)
      show ?thesis unfolding binding_stats_def
        by (rule os, rule gives_sbind [OF d], rule gives_sbind_fails [OF f]) (simp add: is_os_error_def)
    next
      case (Some m)
      then have "fs_entry c = EMissing" using assms \<open>fs_dir c = Some d\<close> by (cases "fs_entry c") auto
      from s_entry [OF this] have n: "gives (on_os os_stat_entry) j c (Inl OsMissing) j c" .
      show ?thesis unfolding binding_stats_def
        by (rule os [where e = OsMissing], rule gives_sbind [OF d], rule gives_sbind [OF gives_fstat_file [OF Some]],
            rule gives_sbind_fails [OF n]) (simp add: is_os_error_def)
    qed
  qed
qed

definition entry_stat :: "fs \<Rightarrow> file_stat \<Rightarrow> file_stat" where
  "entry_stat c m = (case fs_entry c of EOther e \<Rightarrow> e | _ \<Rightarrow> m)"

text \<open>The binding check passes, and the stamp is the verified one.\<close>

definition still_bound :: "journal \<Rightarrow> fs \<Rightarrow> bool" where
  "still_bound j c \<longleftrightarrow>
     (case (fs_dir c, file_meta c) of
        (Some d, Some m) \<Rightarrow> fs_entry c \<noteq> EMissing \<and> binding_ok (fs_euid c) j d m (entry_stat c m) \<and>
          j_verified j = Some (content_state m)
      | _ \<Rightarrow> False)"

text \<open>A pinned object finds out at its next call that it is no longer bound, or that its stamp is stale.\<close>

lemma gives_stamp_fails:
  assumes pinned: "j_dir_id j \<noteq> None" "j_file_id j \<noteq> None"
    and bad: "\<not> still_bound j c"
  shows "\<exists>k \<in> {InvalidJournal, JournalCorrupt}. gives stamp_steps j c (Inl (Sup k)) j c"
proof (cases "\<exists>d m. fs_dir c = Some d \<and> file_meta c = Some m \<and> (fs_entry c = ESame \<or> (\<exists>e. fs_entry c = EOther e))")
  case False
  then show ?thesis unfolding stamp_steps_def validate_binding_def
    using gives_sthen_fails gives_sbind_fails gives_binding_stats_fails by blast
next
  case True
  then obtain d m where dm: "fs_dir c = Some d" "file_meta c = Some m" "fs_entry c \<noteq> EMissing" by auto
  let ?e = "entry_stat c m"
  have e: "gives (on_os os_stat_entry) j c (Inr ?e) j c"
    unfolding os_stat_entry_def
    by (rule gives_os_look) (use dm in \<open>auto simp: entry_stat_def stat_result_def split: dir_entry.splits\<close>)
  have s: "gives binding_stats j c (Inr (d, m, ?e)) j c"
    unfolding binding_stats_def
    by (intro gives_os_error_as gives_sbind [OF gives_fstat_dir [OF dm(1)]] gives_sbind [OF gives_fstat_file [OF dm(2)]]
        gives_sbind [OF e] gives_simple(1))
  have p: "gives (pin_dir d) j c (Inr ()) j c" "gives (pin_file m) j c (Inr ()) j c"
    using pinned unfolding pin_dir_def pin_file_def by (auto simp: gives_def jput_def)
  have v: "gives validate_binding j c (if binding_ok (fs_euid c) j d m ?e then Inr () else Inl (Sup InvalidJournal)) j c"
  proof -
    have "gives (sbind (on_os os_geteuid) (\<lambda>euid. sbind (jget_field id) (\<lambda>j. sguard (binding_ok euid j d m ?e) (Sup InvalidJournal))))
        j c (if binding_ok (fs_euid c) j d m ?e then Inr () else Inl (Sup InvalidJournal)) j c"
      by (rule gives_sbind [OF gives_geteuid], rule gives_sbind [OF gives_simple(3)]) (auto intro: gives_guard gives_guard_fails)
    then show ?thesis unfolding validate_binding_def
      by (intro gives_sbind [OF s]) (simp add: gives_sthen [OF p(1)] gives_sthen [OF p(2)])
  qed
  show ?thesis
  proof (cases "binding_ok (fs_euid c) j d m ?e")
    case False
    with v have "gives validate_binding j c (Inl (Sup InvalidJournal)) j c" by simp
    then show ?thesis unfolding stamp_steps_def using gives_sthen_fails by blast
  next
    case True
    with v have v: "gives validate_binding j c (Inr ()) j c" by simp
    have "j_verified j \<noteq> Some (content_state m)" using True bad dm by (auto simp: still_bound_def)
    then have "gives stamp_steps j c (Inl (Sup JournalCorrupt)) j c"
      unfolding stamp_steps_def
      by (intro gives_sthen [OF v] gives_sbind [OF gives_fstat_file [OF dm(2)]] gives_sbind [OF gives_simple(3)] gives_guard_fails)
    then show ?thesis by blast
  qed
qed

lemma latched_forever:
  assumes "\<not> j_closed j" "j_failure j = Some k"
  shows "call_journal call (j, w) = (Inl (Sup k), (j, w))"
proof (rule call_guarded)
  show "ready_guard (j, w) = (Inl (Sup k), (j, w))"
    unfolding ready_guard_def by (rule sthen_step(2)) (use assms in \<open>simp add: require_open_def\<close>)
qed

text \<open>C21. A change of the journal behind the object's back closes it for good. If, at the next call, the
  directory or the file is not the pinned one any more (moved, replaced, linked twice, other owner or
  permissions) or its size or times are not those last verified, then whatever method is called raises
  one error, and so does every later call of any method in any world, with the object otherwise as it was.\<close>

theorem tampering_fails_closed:
  assumes "\<not> j_closed j" "j_failure j = None" "j_dir_id j \<noteq> None" "j_file_id j \<noteq> None"
    and "tame w" "\<not> still_bound j (wcore w)"
  shows "\<exists>k \<in> {InvalidJournal, JournalCorrupt}. \<forall>call.
      (\<exists>w'. call_journal call (j, w) = (Inl (Sup k), (j\<lparr>j_failure := Some k\<rparr>, w'))) \<and>
      (\<forall>later v. call_journal later (j\<lparr>j_failure := Some k\<rparr>, v) = (Inl (Sup k), (j\<lparr>j_failure := Some k\<rparr>, v)))"
proof -
  obtain k where k: "k \<in> {InvalidJournal, JournalCorrupt}" "gives stamp_steps j (wcore w) (Inl (Sup k)) j (wcore w)"
    using gives_stamp_fails [OF assms(3,4,6)] by blast
  have "gives require_open j (wcore w) (Inr ()) j (wcore w)" using assms(1,2) by (simp add: gives_def require_open_def)
  moreover have "gives verify_stamp j (wcore w) (Inl (Sup k)) (j\<lparr>j_failure := Some k\<rparr>) (wcore w)"
    unfolding verify_stamp_def using gives_latching_fails [OF k(2)] assms(2) by (simp add: latch_def)
  ultimately have "gives ready_guard j (wcore w) (Inl (Sup k)) (j\<lparr>j_failure := Some k\<rparr>) (wcore w)"
    unfolding ready_guard_def by (rule gives_sthen)
  then obtain w' where "ready_guard (j, w) = (Inl (Sup k), (j\<lparr>j_failure := Some k\<rparr>, w'))"
    using givesD [OF _ assms(5) refl] by metis
  then have "call_journal call (j, w) = (Inl (Sup k), (j\<lparr>j_failure := Some k\<rparr>, w'))" for call by (rule call_guarded)
  moreover have "call_journal later (j\<lparr>j_failure := Some k\<rparr>, v) = (Inl (Sup k), (j\<lparr>j_failure := Some k\<rparr>, v))" for later v
    by (rule latched_forever) (use assms(1) in simp_all)
  ultimately show ?thesis using k(1) by blast
qed

text \<open>A byte appended by someone else changes the size.\<close>

definition tampered_world :: "journal_record list \<Rightarrow> world" where
  "tampered_world rs = sample_world (log_image sample_identity rs @ [0])"

theorem tampering_fails_closed_witness:
  "\<exists>j. journal_at sample_identity [] j (sample_fs journal_header\<lparr>fs_locked := True\<rparr>) \<and>
     (\<exists>k \<in> {InvalidJournal, JournalCorrupt}. \<exists>w'.
        call_journal (CallAppend KReady None None None None) (j, tampered_world []) = (Inl (Sup k), (j\<lparr>j_failure := Some k\<rparr>, w')))"
proof -
  obtain j where j: "journal_at sample_identity [] j (sample_fs journal_header\<lparr>fs_locked := True\<rparr>)"
    using gives_open [OF sample_fs_ok(1,2) sample_logs(1), of journal_header] sample_fs_ok(3) by auto
  note p = journal_at_parts [OF j]
  have pins: "j_dir_id j \<noteq> None" "j_file_id j \<noteq> None" using fs_boundE [OF p(4)] pin_bound by metis+
  have c: "tame (tampered_world [])" "wcore (tampered_world []) = sample_fs (journal_header @ [0])"
    by (simp_all add: tampered_world_def sample_world_ok)
  have "\<not> still_bound j (wcore (tampered_world []))"
    using p(11) unfolding c(2) by (auto simp: still_bound_def sample_fs_def file_meta_def content_state_def sample_stat_def)
  from tampering_fails_closed [OF p(2,3) pins c(1) this] j show ?thesis by blast
qed

end
