(* ===== verification/Exec_Control.thy ===== *)
theory Exec_Control imports Main Control_V2 State_Exn begin

text \<open>
  \<open>src/palimpsest_local/oci_exec_control.py\<close>: the mailbox that holds the one guest exec job
  of a monitor. Clients submit, poll and acknowledge; the lifecycle worker takes the job,
  appends its output and completes it. Each method holds the lock and is one step. A
  \<open>MonitorExecControlError\<close> is \<open>Refused\<close> with its category; an argument the code tests the
  type of is a \<open>json\<close> value, or an option where the type is a class of the module.
\<close>

section \<open>Limits and validation\<close>

definition max_mail_output :: nat where "max_mail_output = 65536"
definition max_mail_chunk :: nat where "max_mail_chunk = 1024"
definition max_mail_sequence :: int where "max_mail_sequence = 2 ^ 63 - 1"

definition exec_identity_of :: "json \<Rightarrow> json \<Rightarrow> exn + int \<times> ustr" where
  "exec_identity_of sequence token =
     (case sequence of
        JInt n \<Rightarrow>
          if \<not> (1 \<le> n \<and> n \<le> max_mail_sequence) then Inl (Refused ''invalid-request'')
          else (case token of
                  JStr t \<Rightarrow> if is_uuid t then Inr (n, t) else Inl (Refused ''invalid-request'')
                | _ \<Rightarrow> Inl (Refused ''invalid-request''))
      | _ \<Rightarrow> Inl (Refused ''invalid-request''))"

text \<open>\<open>except OCIControlProtocolV2Error\<close>; other exceptions go through.\<close>

definition validate_exec_request :: "json \<Rightarrow> json \<Rightarrow> exn + ustr list \<times> int" where
  "validate_exec_request argv timeout_ms =
     (case rbind (validate_exec_argv argv) (\<lambda>args. rbind (validate_exec_timeout timeout_ms) (\<lambda>t. Inr (args, t))) of
        Inl (Refused _) \<Rightarrow> Inl (Refused ''invalid-request'')
      | r \<Rightarrow> r)"

section \<open>State\<close>

record exec_job =
  ej_sequence :: int
  ej_token :: ustr
  ej_argv :: "ustr list"
  ej_timeout :: int

datatype mail_state = MNotReady | MReady | MStopping | MTerminal | MControlLost

fun mail_state_name :: "mail_state \<Rightarrow> string" where
  "mail_state_name MNotReady = ''not-ready''"
| "mail_state_name MReady = ''ready''"
| "mail_state_name MStopping = ''stopping''"
| "mail_state_name MTerminal = ''terminal''"
| "mail_state_name MControlLost = ''control-lost''"

datatype job_state = XQueued | XRunning | XCompleted | XLost

fun job_state_name :: "job_state \<Rightarrow> string" where
  "job_state_name XQueued = ''queued''"
| "job_state_name XRunning = ''running''"
| "job_state_name XCompleted = ''completed''"
| "job_state_name XLost = ''control-lost''"

record mailbox =
  mb_state :: mail_state
  mb_next :: int
  mb_job :: "exec_job option"
  mb_job_state :: "job_state option"
  mb_stdout :: bytes
  mb_stderr :: bytes
  mb_terminal :: "terminal option"
  mb_reason :: "ustr option"
  mb_last_ack :: "(int \<times> ustr) option"

type_synonym 'a mail = "(mailbox, exn, 'a) sx"

definition mail_new :: mailbox where
  "mail_new = \<lparr>mb_state = MNotReady, mb_next = 1, mb_job = None, mb_job_state = None, mb_stdout = [], mb_stderr = [],
     mb_terminal = None, mb_reason = None, mb_last_ack = None\<rparr>"

section \<open>Client side\<close>

definition status_json :: "mailbox \<Rightarrow> json" where
  "status_json m = JObj [(ul ''state'', JStr (ul (mail_state_name (mb_state m)))),
     (ul ''next_sequence'', JInt (mb_next m)), (ul ''occupied'', JBool (mb_job m \<noteq> None))]"

definition mail_status :: "json mail" where
  "mail_status = sget status_json"

definition chunk_at :: "nat \<Rightarrow> bytes \<Rightarrow> bytes" where
  "chunk_at offset output = take max_mail_chunk (drop offset output)"

definition valid_offset :: "json \<Rightarrow> bytes \<Rightarrow> exn + nat" where
  "valid_offset offset output =
     (case offset of
        JInt i \<Rightarrow> if 0 \<le> i \<and> i \<le> int (length output) then Inr (nat i) else Inl (Refused ''invalid-offset'')
      | _ \<Rightarrow> Inl (Refused ''invalid-offset''))"

definition poll_items :: "exec_job \<Rightarrow> job_state \<Rightarrow> nat \<Rightarrow> nat \<Rightarrow> mailbox \<Rightarrow> (ustr \<times> json) list" where
  "poll_items job js stdout_offset stderr_offset m =
     [(ul ''sequence'', JInt (ej_sequence job)),
      (ul ''token'', JStr (ej_token job)),
      (ul ''state'', JStr (ul (job_state_name js))),
      (ul ''stdout_offset'', JInt (int stdout_offset)),
      (ul ''stderr_offset'', JInt (int stderr_offset)),
      (ul ''stdout_hex'', JStr (hex_of_bytes (chunk_at stdout_offset (mb_stdout m)))),
      (ul ''stderr_hex'', JStr (hex_of_bytes (chunk_at stderr_offset (mb_stderr m)))),
      (ul ''stdout_size'', JInt (int (length (mb_stdout m)))),
      (ul ''stderr_size'', JInt (int (length (mb_stderr m)))),
      (ul ''terminal'', (case mb_terminal m of None \<Rightarrow> JNull | Some t \<Rightarrow> terminal_json t)),
      (ul ''reason'', jstr (mb_reason m))]"

text \<open>
  \<open>_poll\<close>: the callers have made sure that there is a job, and a job has a state
  (\<open>mail_inv\<close>); without one the attribute access on \<open>None\<close> is a \<open>TypeErr\<close> here.
\<close>

definition poll_job :: "json \<Rightarrow> json \<Rightarrow> json mail" where
  "poll_job stdout_offset stderr_offset m =
     sbind (slift (valid_offset stdout_offset (mb_stdout m))) (\<lambda>a.
     sbind (slift (valid_offset stderr_offset (mb_stderr m))) (\<lambda>b.
     case (mb_job m, mb_job_state m) of
       (Some job, Some js) \<Rightarrow> sret (JObj (poll_items job js a b m))
     | _ \<Rightarrow> sraise TypeErr)) m"

definition require_job :: "int \<times> ustr \<Rightarrow> unit mail" where
  "require_job ident m =
     sguard (case mb_job m of None \<Rightarrow> False | Some job \<Rightarrow> (ej_sequence job, ej_token job) = ident)
       (Refused ''unknown-job'') m"

definition mail_submit :: "json \<Rightarrow> json \<Rightarrow> json \<Rightarrow> json \<Rightarrow> json mail" where
  "mail_submit sequence token argv timeout_ms =
     sbind (slift (exec_identity_of sequence token)) (\<lambda>(n, t).
     sbind (slift (validate_exec_request argv timeout_ms)) (\<lambda>(args, ms).
     let candidate = \<lparr>ej_sequence = n, ej_token = t, ej_argv = args, ej_timeout = ms\<rparr> in
     sbind (sget id) (\<lambda>m.
     sthen (sguard (n = mb_next m) (Refused ''stale-sequence''))
    (if mb_job m \<noteq> None
     then sthen (sguard (mb_job m = Some candidate) (Refused ''busy'')) (poll_job (JInt 0) (JInt 0))
     else sthen (sguard (mb_state m = MReady \<and> mb_next m \<noteq> max_mail_sequence) (Refused ''not-ready''))
         (sthen (sput (\<lambda>m. m\<lparr>mb_job := Some candidate, mb_job_state := Some XQueued\<rparr>))
                (poll_job (JInt 0) (JInt 0)))))))"

definition mail_poll :: "json \<Rightarrow> json \<Rightarrow> json \<Rightarrow> json \<Rightarrow> json mail" where
  "mail_poll sequence token stdout_offset stderr_offset =
     sbind (slift (exec_identity_of sequence token)) (\<lambda>ident.
     sthen (require_job ident) (poll_job stdout_offset stderr_offset))"

definition mail_acknowledge :: "json \<Rightarrow> json \<Rightarrow> json mail" where
  "mail_acknowledge sequence token =
     sbind (slift (exec_identity_of sequence token)) (\<lambda>ident.
     sbind (sget id) (\<lambda>m.
     if mb_last_ack m = Some ident then mail_status
     else sthen (require_job ident)
         (sthen (sguard (mb_job_state m = Some XCompleted) (Refused ''not-completed''))
         (sthen (sput (\<lambda>m. m\<lparr>mb_last_ack := Some ident, mb_next := mb_next m + 1, mb_job := None, mb_job_state := None,
                            mb_terminal := None, mb_reason := None, mb_stdout := [], mb_stderr := []\<rparr>))
                mail_status))))"

section \<open>Worker side\<close>

definition mail_mark_ready :: "unit mail" where
  "mail_mark_ready = sput (\<lambda>m. if mb_state m = MNotReady then m\<lparr>mb_state := MReady\<rparr> else m)"

definition close_reasons :: "mail_state list" where
  "close_reasons = [MStopping, MTerminal, MControlLost]"

definition lost_job :: "mailbox \<Rightarrow> mailbox" where
  "lost_job m =
     (if mb_job_state m \<in> {Some XQueued, Some XRunning}
      then m\<lparr>mb_job_state := Some XLost, mb_reason := Some (ul ''control-lost'')\<rparr> else m)"

definition close_with :: "mail_state \<Rightarrow> mailbox \<Rightarrow> mailbox" where
  "close_with reason m =
     (let m1 = (if mb_state m \<in> {MTerminal, MControlLost} then m else m\<lparr>mb_state := reason\<rparr>)
      in if reason \<in> {MTerminal, MControlLost} then lost_job m1 else m1)"

definition mail_close_to_exec :: "json \<Rightarrow> unit mail" where
  "mail_close_to_exec reason =
     sbind (slift (text_in reason (map mail_state_name close_reasons))) (\<lambda>ok.
     sthen (sguard ok (Refused ''invalid-state''))
    (case find (\<lambda>s. is_text reason (mail_state_name s)) close_reasons of
       None \<Rightarrow> sret () | Some s \<Rightarrow> sput (close_with s)))"

definition mail_take_exec :: "exec_job option mail" where
  "mail_take_exec =
     sbind (sget id) (\<lambda>m.
     if mb_state m \<noteq> MReady \<or> mb_job_state m \<noteq> Some XQueued then sret None
     else sthen (sput (\<lambda>m. m\<lparr>mb_job_state := Some XRunning\<rparr>)) (sget mb_job))"

text \<open>The arguments \<open>job\<close> and \<open>data\<close> are \<open>None\<close> when they are no job and no \<open>bytes\<close>.\<close>

definition mail_append_output :: "exec_job option \<Rightarrow> json \<Rightarrow> json \<Rightarrow> bytes option \<Rightarrow> unit mail" where
  "mail_append_output job stream offset data =
     sthen (sguard (job \<noteq> None) (Refused ''invalid-output''))
    (sbind (slift (text_in stream [''stdout'', ''stderr''])) (\<lambda>ok.
     sthen (sguard (ok \<and> data \<noteq> None) (Refused ''invalid-output''))
    (sbind (sget id) (\<lambda>m.
     sthen (sguard (mb_job m = job \<and> mb_job_state m = Some XRunning) (Refused ''invalid-output''))
    (let on_stdout = is_text stream ''stdout'';
         target = (if on_stdout then mb_stdout m else mb_stderr m) in
     sthen (sguard (offset = JInt (int (length target)) \<and>
                    1 \<le> length (the data) \<and> length (the data) \<le> max_mail_chunk \<and>
                    length (mb_stdout m) + length (mb_stderr m) + length (the data) \<le> max_mail_output)
             (Refused ''invalid-output''))
    (sput (if on_stdout then mb_stdout_update (\<lambda>b. b @ the data) else mb_stderr_update (\<lambda>b. b @ the data))))))))"

definition completion_reasons :: "string list" where
  "completion_reasons = [''completed'', ''timeout'', ''output-limit'', ''cancelled'']"

text \<open>
  The terminal argument: \<open>None\<close>, or a dictionary of an exit code or a signal. Sizes
  equal \<open>0\<close> as Python numbers, so \<open>False\<close> and \<open>0.0\<close> pass this test.
\<close>

definition is_zero :: "json \<Rightarrow> bool" where
  "is_zero v \<longleftrightarrow> v = JInt 0 \<or> v = JBool False \<or> v = JFloat (Some 0)"

definition completion_terminal :: "json \<Rightarrow> exn + terminal" where
  "completion_terminal v =
     (case v of
        JObj d \<Rightarrow>
          if \<not> same_keys d [''exit_code'', ''signal''] then Inl (Refused ''invalid-result'')
          else (case (jget d ''exit_code'', jget d ''signal'') of
                  (JInt c, JNull) \<Rightarrow>
                    if 0 \<le> c \<and> c \<le> 255 then Inr \<lparr>t_exit = Some c, t_signal = None\<rparr> else Inl (Refused ''invalid-result'')
                | (JNull, JInt s) \<Rightarrow>
                    if 1 \<le> s \<and> s \<le> 64 then Inr \<lparr>t_exit = None, t_signal = Some s\<rparr> else Inl (Refused ''invalid-result'')
                | _ \<Rightarrow> Inl (Refused ''invalid-result''))
      | _ \<Rightarrow> Inl (Refused ''invalid-result''))"

definition text_of :: "json \<Rightarrow> ustr" where
  "text_of v = (case v of JStr s \<Rightarrow> s | _ \<Rightarrow> [])"

definition mail_complete :: "exec_job option \<Rightarrow> json \<Rightarrow> json \<Rightarrow> json \<Rightarrow> json \<Rightarrow> unit mail" where
  "mail_complete job terminal stdout_bytes stderr_bytes reason =
     sthen (sguard (job \<noteq> None) (Refused ''invalid-result''))
    (sbind (slift (text_in reason completion_reasons)) (\<lambda>ok.
     sthen (sguard ok (Refused ''invalid-result''))
    (sbind (if terminal = JNull
            then sthen (sguard (is_text reason ''cancelled'' \<and> is_zero stdout_bytes \<and> is_zero stderr_bytes)
                        (Refused ''invalid-result'')) (sret None)
            else sbind (slift (completion_terminal terminal)) (\<lambda>t. sret (Some t))) (\<lambda>t.
     sbind (sget id) (\<lambda>m.
     sthen (sguard (mb_job m = job \<and> mb_job_state m = Some XRunning \<and>
                    stdout_bytes = JInt (int (length (mb_stdout m))) \<and> stderr_bytes = JInt (int (length (mb_stderr m))))
             (Refused ''invalid-result''))
    (sput (\<lambda>m. m\<lparr>mb_terminal := t, mb_reason := Some (text_of reason), mb_job_state := Some XCompleted\<rparr>)))))))"

lemmas exec_control_exec [exec] = max_mail_output_def max_mail_chunk_def max_mail_sequence_def exec_identity_of_def
  validate_exec_request_def mail_new_def status_json_def mail_status_def chunk_at_def valid_offset_def poll_items_def
  poll_job_def require_job_def mail_submit_def mail_poll_def mail_acknowledge_def mail_mark_ready_def close_reasons_def
  lost_job_def close_with_def mail_close_to_exec_def mail_take_exec_def mail_append_output_def completion_reasons_def
  is_zero_def completion_terminal_def text_of_def mail_complete_def

end
