(* ===== verification/Exec_Session.thy ===== *)
theory Exec_Session imports Main Exec_Control Runtime_Types begin

text \<open>
  \<open>src/palimpsest_local/oci_exec_session.py\<close>: the client of the exec mailbox. What the
  session calls is an interface (\<open>exec_io\<close>): the process id, the exchange of one request for
  one decoded reply (the monitor client and the deadline, which may raise), the sleep, and
  the record writer. A \<open>StateError\<close> is \<open>XState\<close> with its message.
\<close>

section \<open>Observations and errors\<close>

record observation =
  ob_terminal :: "process_exit option"
  ob_reason :: ustr
  ob_stdout :: int
  ob_stderr :: int
  ob_ack :: ustr

definition observed_terminal_ok :: "process_exit \<Rightarrow> bool" where
  "observed_terminal_ok p =
     (if pe_category p = Exited
      then (case pe_exit_code p of JInt c \<Rightarrow> 0 \<le> c \<and> c \<le> 255 | _ \<Rightarrow> False) \<and> pe_signal p = JNull
      else pe_category p = Signaled \<and> pe_exit_code p = JNull \<and>
           (case pe_signal p of JInt s \<Rightarrow> 1 \<le> s \<and> s \<le> 64 | _ \<Rightarrow> False))"

definition observation_init :: "process_exit option \<Rightarrow> ustr \<Rightarrow> int \<Rightarrow> int \<Rightarrow> ustr \<Rightarrow> exn + observation" where
  "observation_init terminal reason stdout_bytes stderr_bytes ack =
     (if reason \<notin> set (map ul completion_reasons) then Inl ValueErr
      else if ack \<notin> {ul ''unconfirmed'', ul ''confirmed''} then Inl ValueErr
      else if stdout_bytes < 0 \<or> stderr_bytes < 0 \<or> int max_mail_output < stdout_bytes + stderr_bytes then Inl ValueErr
      else if (case terminal of
                 None \<Rightarrow> reason = ul ''cancelled'' \<and> stdout_bytes = 0 \<and> stderr_bytes = 0
               | Some p \<Rightarrow> observed_terminal_ok p)
      then Inr \<lparr>ob_terminal = terminal, ob_reason = reason, ob_stdout = stdout_bytes, ob_stderr = stderr_bytes, ob_ack = ack\<rparr>
      else Inl ValueErr)"

text \<open>
  \<open>XAck\<close> is \<open>OCIExecAcknowledgementError\<close>, \<open>XRecording\<close> \<open>OCIExecRecordingError\<close> with its
  stage, \<open>XCapability\<close> \<open>ProcessCapabilityError\<close>, \<open>XOther\<close> any other exception.
\<close>

datatype exec_exn =
  XState string | XAck observation | XRecording string "observation option" | XCapability string | XOther exn

text \<open>The constructor of \<open>OCIExecRecordingError\<close>.\<close>

definition recording_error :: "string \<Rightarrow> observation option \<Rightarrow> exec_exn" where
  "recording_error stage ob =
     (if stage \<notin> {''pre-ack'', ''post-ack''} then XOther ValueErr
      else if stage = ''post-ack'' \<and> (case ob of None \<Rightarrow> True | Some x \<Rightarrow> ob_ack x \<noteq> ul ''confirmed'') then XOther ValueErr
      else if stage = ''pre-ack'' \<and> (case ob of None \<Rightarrow> False | Some x \<Rightarrow> ob_ack x \<noteq> ul ''unconfirmed'') then XOther ValueErr
      else XRecording stage ob)"

definition default_exec_timeout :: int where "default_exec_timeout = 30000"

definition effective_exec_timeout :: "int option \<Rightarrow> int" where
  "effective_exec_timeout t = (case t of None \<Rightarrow> default_exec_timeout | Some ms \<Rightarrow> ms)"

section \<open>The session\<close>

record exec_session =
  xs_pid :: int
  xs_closed :: bool
  xs_consumed :: bool
  xs_result :: "process_exit option"
  xs_stdout :: nat
  xs_stderr :: nat
  xs_sizes :: "nat \<times> nat"
  xs_phase :: nat
  xs_terminal :: "(terminal option \<times> ustr \<times> nat \<times> nat) option"
  xs_observed :: "observation option"
  xs_token :: ustr
  xs_sequence :: int
  xs_client :: bool
  xs_writer :: bool
  xs_recording :: bool

datatype exec_op = OpStatus | OpSubmit | OpPoll | OpAcknowledge

record 'w exec_io =
  io_pid :: "'w \<Rightarrow> int"
  io_connect :: "('w, exec_exn, unit) sx"
  io_request :: "exec_op \<Rightarrow> (ustr \<times> json) list \<Rightarrow> ('w, exec_exn, json) sx"
  io_observed :: "observation \<Rightarrow> ('w, exec_exn, unit) sx"
  io_confirmed :: "observation \<Rightarrow> ('w, exec_exn, unit) sx"
  io_sleep :: "('w, exec_exn, unit) sx"
  io_close_client :: "'w \<Rightarrow> 'w"
  io_close_writer :: "'w \<Rightarrow> 'w"

type_synonym ('w, 'a) xm = "(exec_session \<times> 'w, exec_exn, 'a) sx"

definition on_io :: "('w, exec_exn, 'a) sx \<Rightarrow> ('w, 'a) xm" where
  "on_io m s = (case m (snd s) of (r, w) \<Rightarrow> (r, (fst s, w)))"

definition xput :: "(exec_session \<Rightarrow> exec_session) \<Rightarrow> ('w, unit) xm" where
  "xput f = sput (map_prod f id)"

definition xget :: "('w, exec_session) xm" where
  "xget = sget fst"

definition exec_close :: "'w exec_io \<Rightarrow> ('w, unit) xm" where
  "exec_close io =
     sthen (xput (\<lambda>s. s\<lparr>xs_closed := True\<rparr>))
    (sbind xget (\<lambda>s.
     sthen (if xs_client s then sput (map_prod (\<lambda>s. s\<lparr>xs_client := False\<rparr>) (io_close_client io)) else sret ())
           (if xs_writer s then sput (map_prod (\<lambda>s. s\<lparr>xs_writer := False\<rparr>) (io_close_writer io)) else sret ())))"

definition session_usable :: "'w exec_io \<Rightarrow> exec_session \<times> 'w \<Rightarrow> bool" where
  "session_usable io s \<longleftrightarrow> \<not> xs_closed (fst s) \<and> io_pid io (snd s) = xs_pid (fst s)"

definition check_usable :: "'w exec_io \<Rightarrow> ('w, unit) xm" where
  "check_usable io s = sguard (session_usable io s) (XState ''OCI exec session is closed'') s"

definition exec_request :: "'w exec_io \<Rightarrow> exec_op \<Rightarrow> (ustr \<times> json) list \<Rightarrow> ('w, json) xm" where
  "exec_request io op payload = sthen (check_usable io) (on_io (io_request io op payload))"

definition job_identity_items :: "exec_session \<Rightarrow> (ustr \<times> json) list" where
  "job_identity_items s = [(ul ''sequence'', JInt (xs_sequence s)), (ul ''token'', JStr (xs_token s))]"

definition observed_completion :: "'w exec_io \<Rightarrow> ('w, observation option) xm" where
  "observed_completion io s =
     (if io_pid io (snd s) = xs_pid (fst s) then sret (xs_observed (fst s))
      else sraise (XState ''OCI exec session is closed'')) s"

section \<open>Reading a mailbox status\<close>

definition mail_states :: "mail_state list" where
  "mail_states = [MNotReady, MReady, MStopping, MTerminal, MControlLost]"

definition validate_exec_status :: "json \<Rightarrow> exec_exn + mail_state \<times> int \<times> bool" where
  "validate_exec_status value =
     (case value of
        JObj d \<Rightarrow>
          if \<not> same_keys d [''state'', ''next_sequence'', ''occupied''] then Inl (XState ''OCI exec mailbox status is invalid'')
          else (case (find (\<lambda>m. is_text (jget d ''state'') (mail_state_name m)) mail_states,
                      jget d ''next_sequence'', jget d ''occupied'') of
                  (Some m, JInt n, JBool occ) \<Rightarrow>
                    if 1 \<le> n \<and> n \<le> max_mail_sequence then Inr (m, n, occ)
                    else Inl (XState ''OCI exec mailbox status is invalid'')
                | _ \<Rightarrow> Inl (XState ''OCI exec mailbox status is invalid''))
      | _ \<Rightarrow> Inl (XState ''OCI exec mailbox status is invalid''))"

fun refusal :: "mail_state \<Rightarrow> string" where
  "refusal MNotReady = ''OCI exec is not ready; check the run status and wait for authenticated READY''"
| "refusal MStopping = ''OCI exec is unavailable while the run is stopping; wait for shutdown and inspect existing results''"
| "refusal MTerminal = ''OCI exec is unavailable because the run has ended; inspect the run's terminal result''"
| "refusal MControlLost = ''OCI exec control was lost; preserve the run evidence and inspect the original client's result; do not rerun a command whose outcome is unknown''"
| "refusal MReady = []"

definition require_mail_ready :: "mail_state \<times> int \<times> bool \<Rightarrow> exec_exn + int" where
  "require_mail_ready st =
     (case st of (m, n, occ) \<Rightarrow>
        if m \<noteq> MReady then Inl (XState (refusal m))
        else if occ then Inl (XState ''OCI exec is occupied: a previous command may still be active or its result may be unacknowledged; let the original client finish consuming its result; result takeover is not supported, and a command with an unknown outcome must not be rerun'')
        else Inr n)"

section \<open>Reading a poll reply\<close>

text \<open>\<open>bytes.fromhex\<close>: pairs of hexadecimal digits of either case with ASCII space between them.\<close>

definition is_hex_char :: "int \<Rightarrow> bool" where
  "is_hex_char c \<longleftrightarrow> is_hex_lower c \<or> 65 \<le> c \<and> c \<le> 70"

fun py_fromhex :: "ustr \<Rightarrow> bytes option" where
  "py_fromhex [] = Some []"
| "py_fromhex (a # s) =
     (if a \<in> {32, 9, 10, 11, 12, 13} then py_fromhex s
      else (case s of
              [] \<Rightarrow> None
            | b # r \<Rightarrow>
                if is_hex_char a \<and> is_hex_char b
                then map_option ((#) (byte_of (hex_value a * 16 + hex_value b))) (py_fromhex r) else None))"

definition job_states :: "job_state list" where
  "job_states = [XQueued, XRunning, XCompleted, XLost]"

fun phase_number :: "job_state \<Rightarrow> nat" where
  "phase_number XQueued = 0"
| "phase_number XRunning = 1"
| "phase_number XCompleted = 2"
| "phase_number XLost = 3"

definition poll_keys :: "string list" where
  "poll_keys = [''sequence'', ''token'', ''state'', ''stdout_offset'', ''stderr_offset'', ''stdout_hex'', ''stderr_hex'',
     ''stdout_size'', ''stderr_size'', ''terminal'', ''reason'']"

definition decode_head :: "exec_session \<Rightarrow> json \<Rightarrow> exec_exn + (ustr \<times> json) list \<times> job_state" where
  "decode_head s value =
     (case value of
        JObj d \<Rightarrow>
          if \<not> same_keys d poll_keys \<or> jget d ''sequence'' \<noteq> JInt (xs_sequence s) \<or> jget d ''token'' \<noteq> JStr (xs_token s)
          then Inl (XState ''OCI exec result identity changed'')
          else (case find (\<lambda>j. is_text (jget d ''state'') (job_state_name j)) job_states of
                  None \<Rightarrow> Inl (XState ''OCI exec result identity changed'')
                | Some j \<Rightarrow>
                    if phase_number j < xs_phase s then Inl (XState ''OCI exec result identity changed'') else Inr (d, j))
      | _ \<Rightarrow> Inl (XState ''OCI exec result identity changed''))"

text \<open>One stream: the size it reports and the bytes it carries.\<close>

definition decode_stream :: "json \<Rightarrow> json \<Rightarrow> json \<Rightarrow> nat \<Rightarrow> nat \<Rightarrow> exec_exn + nat \<times> bytes" where
  "decode_stream encoded reply_size reported offset previous =
     (case (reply_size, encoded) of
        (JInt n, JStr e) \<Rightarrow>
          if \<not> (int previous \<le> n \<and> n \<le> int max_mail_output) \<or> reported \<noteq> JInt (int offset) \<or> max_mail_chunk * 2 < length e
          then Inl (XState ''OCI exec output bounds changed'')
          else (case py_fromhex e of
                  None \<Rightarrow> Inl (XState ''OCI exec output encoding is invalid'')
                | Some data \<Rightarrow>
                    if hex_of_bytes data \<noteq> e \<or> int (length data) \<noteq> min (int max_mail_chunk) (n - int offset)
                    then Inl (XState ''OCI exec output offset changed'') else Inr (nat n, data))
      | _ \<Rightarrow> Inl (XState ''OCI exec output bounds changed''))"

definition decode_terminal :: "json \<Rightarrow> json \<Rightarrow> nat \<Rightarrow> nat \<Rightarrow> exec_exn + terminal option" where
  "decode_terminal terminal reason out_size err_size =
     (if terminal = JNull
      then (if \<not> is_text reason ''cancelled'' \<or> out_size \<noteq> 0 \<or> err_size \<noteq> 0
            then Inl (XState ''OCI exec terminal is invalid'') else Inr None)
      else (case completion_terminal terminal of
              Inl _ \<Rightarrow> Inl (XState ''OCI exec terminal is invalid'')
            | Inr t \<Rightarrow> Inr (Some t)))"

definition hashed :: "exn + bool \<Rightarrow> exec_exn + bool" where
  "hashed r = (case r of Inl e \<Rightarrow> Inl (XOther e) | Inr b \<Rightarrow> Inr b)"

definition decode_completed ::
  "exec_session \<Rightarrow> json \<Rightarrow> json \<Rightarrow> nat \<Rightarrow> nat \<Rightarrow> exec_exn + terminal option \<times> ustr \<times> nat \<times> nat" where
  "decode_completed s terminal reason out_size err_size =
     rbind (decode_terminal terminal reason out_size err_size) (\<lambda>t.
     rbind (hashed (text_in reason completion_reasons)) (\<lambda>ok.
     if \<not> ok then Inl (XState ''OCI exec completion reason is invalid'')
     else let evidence = (t, text_of reason, out_size, err_size)
          in if xs_terminal s \<noteq> None \<and> xs_terminal s \<noteq> Some evidence then Inl (XState ''OCI exec terminal changed'')
             else Inr evidence))"

definition pending_ok :: "job_state \<Rightarrow> json \<Rightarrow> json \<Rightarrow> exec_exn + bool" where
  "pending_ok j terminal reason =
     (if terminal \<noteq> JNull then Inr False
      else rbind (hashed (text_in reason [''control-lost''])) (\<lambda>lost. Inr (if j = XLost then lost else reason = JNull)))"

definition decode_checked ::
  "exec_session \<Rightarrow> json \<Rightarrow> exec_exn + job_state \<times> (nat \<times> bytes) \<times> (nat \<times> bytes) \<times> (terminal option \<times> ustr \<times> nat \<times> nat) option" where
  "decode_checked s value =
     rbind (decode_head s value) (\<lambda>(d, j).
     rbind (decode_stream (jget d ''stdout_hex'') (jget d ''stdout_size'') (jget d ''stdout_offset'') (xs_stdout s) (fst (xs_sizes s)))
       (\<lambda>(n, out).
     rbind (decode_stream (jget d ''stderr_hex'') (jget d ''stderr_size'') (jget d ''stderr_offset'') (xs_stderr s) (snd (xs_sizes s)))
       (\<lambda>(k, err).
     if max_mail_output < n + k then Inl (XState ''OCI exec output limit exceeded'')
     else if j = XCompleted
     then rbind (decode_completed s (jget d ''terminal'') (jget d ''reason'') n k) (\<lambda>ev. Inr (j, (n, out), (k, err), Some ev))
     else rbind (pending_ok j (jget d ''terminal'') (jget d ''reason'')) (\<lambda>ok.
          if ok then Inr (j, (n, out), (k, err), xs_terminal s) else Inl (XState ''OCI exec pending result is invalid'')))))"

definition exec_decode :: "json \<Rightarrow> ('w, job_state \<times> bytes \<times> bytes) xm" where
  "exec_decode value =
     sbind xget (\<lambda>s.
     sbind (slift (decode_checked s value)) (\<lambda>(j, (n, out), (k, err), ev).
     sthen (xput (\<lambda>s. s\<lparr>xs_terminal := ev, xs_phase := phase_number j, xs_sizes := (n, k)\<rparr>)) (sret (j, out, err))))"


section \<open>Opening\<close>

definition exec_session_new :: "int \<Rightarrow> bool \<Rightarrow> exec_session" where
  "exec_session_new pid recording =
     \<lparr>xs_pid = pid, xs_closed = False, xs_consumed = False, xs_result = None, xs_stdout = 0, xs_stderr = 0,
      xs_sizes = (0, 0), xs_phase = 0, xs_terminal = None, xs_observed = None, xs_token = [], xs_sequence = 0,
      xs_client = False, xs_writer = recording, xs_recording = recording\<rparr>"

definition exec_open_steps :: "'w exec_io \<Rightarrow> json \<Rightarrow> json \<Rightarrow> ustr \<Rightarrow> ('w, unit) xm" where
  "exec_open_steps io argv timeout_ms token =
     sbind (slift (case validate_exec_request argv timeout_ms of Inl e \<Rightarrow> Inl (XOther e) | Inr r \<Rightarrow> Inr r)) (\<lambda>(args, ms).
     sthen (xput (\<lambda>s. s\<lparr>xs_token := token\<rparr>))
    (sthen (on_io (io_connect io))
    (sthen (xput (\<lambda>s. s\<lparr>xs_client := True\<rparr>))
    (sbind (exec_request io OpStatus []) (\<lambda>status.
     sbind (slift (validate_exec_status status)) (\<lambda>st.
     sbind (slift (require_mail_ready st)) (\<lambda>n.
     sthen (xput (\<lambda>s. s\<lparr>xs_sequence := n\<rparr>))
    (sbind xget (\<lambda>s.
     sbind (exec_request io OpSubmit
             (job_identity_items s @ [(ul ''argv'', JArr (map JStr args)), (ul ''timeout_ms'', JInt ms)])) (\<lambda>value.
     sbind (exec_decode value) (\<lambda>_. sret ())))))))))))"

text \<open>\<open>__init__\<close>: any exception closes the session first.\<close>

definition exec_open :: "'w exec_io \<Rightarrow> json \<Rightarrow> json \<Rightarrow> ustr \<Rightarrow> ('w, unit) xm" where
  "exec_open io argv timeout_ms token =
     scatch (exec_open_steps io argv timeout_ms token) (\<lambda>e. sthen (exec_close io) (sraise e))"

section \<open>The event generator\<close>

text \<open>
  Where the generator stands: not started or about to poll; after the yield of the standard
  output of a reply, with what is left of that reply; after the yield of its standard error;
  finished. One call of \<open>exec_next\<close> runs to the next yield, the end of the loop body or the
  end of the generator.
\<close>

datatype exec_gen = GPoll | GStdout job_state bytes bytes | GStderr job_state bytes bytes | GDone

datatype gen_out = Yielded process_event | Again | Stopped

definition exit_of :: "terminal \<Rightarrow> exn + process_exit" where
  "exit_of t =
     (case t_exit t of
        Some c \<Rightarrow> process_exit_init (JInt c) (JInt c) (jint (t_signal t)) Exited
      | None \<Rightarrow> (case t_signal t of
                   None \<Rightarrow> Inl TypeErr
                 | Some s \<Rightarrow> process_exit_init (JInt (- s)) JNull (JInt s) Signaled))"

definition as_exec :: "exn + 'a \<Rightarrow> exec_exn + 'a" where
  "as_exec r = (case r of Inl e \<Rightarrow> Inl (XOther e) | Inr x \<Rightarrow> Inr x)"

definition observe_completion :: "('w, process_exit option \<times> ustr) xm" where
  "observe_completion =
     sbind xget (\<lambda>s.
     case xs_terminal s of
       None \<Rightarrow> sraise (XOther TypeErr)
     | Some (t, reason, n, k) \<Rightarrow>
         sbind (slift (case t of None \<Rightarrow> Inr None | Some t \<Rightarrow> rbind (as_exec (exit_of t)) (\<lambda>p. Inr (Some p)))) (\<lambda>result.
         sbind (slift (as_exec (observation_init result reason (int n) (int k) (ul ''unconfirmed'')))) (\<lambda>ob.
         sthen (xput (\<lambda>s. s\<lparr>xs_observed := Some ob\<rparr>)) (sret (result, reason)))))"

text \<open>\<open>publish_observed\<close> and \<open>publish_confirmed\<close>: an exception closes the session and is a recording error.\<close>

definition record_stage :: "'w exec_io \<Rightarrow> string \<Rightarrow> (observation \<Rightarrow> ('w, exec_exn, unit) sx) \<Rightarrow> ('w, unit) xm" where
  "record_stage io stage publish =
     sbind xget (\<lambda>s.
     if \<not> xs_writer s then sret ()
     else (case xs_observed s of
             None \<Rightarrow> sraise (XOther TypeErr)
           | Some ob \<Rightarrow> scatch (on_io (publish ob)) (\<lambda>_. sthen (exec_close io) (sraise (recording_error stage (Some ob))))))"

definition acknowledge_steps :: "'w exec_io \<Rightarrow> ('w, unit) xm" where
  "acknowledge_steps io =
     sbind xget (\<lambda>s.
     sbind (exec_request io OpAcknowledge (job_identity_items s)) (\<lambda>status.
     sbind (slift (validate_exec_status status)) (\<lambda>(m, n, occ).
     sguard (n = xs_sequence s + 1) (XState ''OCI exec acknowledgement identity changed''))))"

text \<open>\<open>OCIExecAcknowledgementError\<close> for whatever goes wrong, else the observation is confirmed.\<close>

definition acknowledge_completion :: "'w exec_io \<Rightarrow> ('w, unit) xm" where
  "acknowledge_completion io =
     sbind xget (\<lambda>s.
     case xs_observed s of
       None \<Rightarrow> sraise (XOther TypeErr)
     | Some ob \<Rightarrow>
         sthen (scatch (acknowledge_steps io) (\<lambda>_. sraise (XAck ob)))
               (xput (\<lambda>s. s\<lparr>xs_observed := Some (ob\<lparr>ob_ack := ul ''confirmed''\<rparr>)\<rparr>)))"

definition exec_finish :: "'w exec_io \<Rightarrow> ('w, gen_out \<times> exec_gen) xm" where
  "exec_finish io =
     sthen (check_usable io)
    (sbind observe_completion (\<lambda>(result, reason).
     sthen (record_stage io ''pre-ack'' (io_observed io))
    (sthen (acknowledge_completion io)
    (sthen (record_stage io ''post-ack'' (io_confirmed io))
    (sthen (exec_close io)
    (if reason \<noteq> ul ''completed'' then sraise (XState (''OCI exec did not complete: '' @ map (char_of \<circ> nat) reason))
     else (case result of
             None \<Rightarrow> sraise (XOther TypeErr)
           | Some p \<Rightarrow> sthen (xput (\<lambda>s. s\<lparr>xs_result := Some p\<rparr>)) (sret (Yielded (StatusEvent p), GDone)))))))))"

text \<open>The end of the loop body, after the yields: control loss, completion, or another turn, after a sleep if
  the reply was empty (the deadline may raise there).\<close>

definition exec_tail :: "'w exec_io \<Rightarrow> job_state \<Rightarrow> bytes \<Rightarrow> bytes \<Rightarrow> ('w, gen_out \<times> exec_gen) xm" where
  "exec_tail io j out err =
     (if j = XLost then sraise (XState ''OCI exec control was lost; preserve the run evidence'')
      else sbind xget (\<lambda>s.
           if xs_terminal s \<noteq> None \<and> (xs_stdout s, xs_stderr s) = xs_sizes s then exec_finish io
           else sthen (if out = [] \<and> err = [] then on_io (io_sleep io) else sret ()) (sret (Again, GPoll))))"

definition output_event :: "process_stream \<Rightarrow> bytes \<Rightarrow> ('w, process_event) xm" where
  "output_event stream data = slift (as_exec (output_event_init stream data))"

definition after_stdout :: "'w exec_io \<Rightarrow> job_state \<Rightarrow> bytes \<Rightarrow> bytes \<Rightarrow> ('w, gen_out \<times> exec_gen) xm" where
  "after_stdout io j out err =
     (if err \<noteq> [] then sbind (output_event process_stream.Stderr err) (\<lambda>ev. sret (Yielded ev, GStderr j out err))
      else exec_tail io j out err)"

definition exec_poll :: "'w exec_io \<Rightarrow> ('w, gen_out \<times> exec_gen) xm" where
  "exec_poll io =
     sbind xget (\<lambda>s.
     sbind (exec_request io OpPoll (job_identity_items s @
             [(ul ''stdout_offset'', JInt (int (xs_stdout s))), (ul ''stderr_offset'', JInt (int (xs_stderr s)))])) (\<lambda>value.
     sbind (exec_decode value) (\<lambda>(j, out, err).
     sthen (xput (\<lambda>s. s\<lparr>xs_stdout := xs_stdout s + length out, xs_stderr := xs_stderr s + length err\<rparr>))
    (if out \<noteq> [] then sbind (output_event process_stream.Stdout out) (\<lambda>ev. sret (Yielded ev, GStdout j out err))
     else after_stdout io j out err))))"

text \<open>An exception ends the generator, and closes a session that records.\<close>

definition closing_if_recording :: "'w exec_io \<Rightarrow> ('w, 'a) xm \<Rightarrow> ('w, 'a) xm" where
  "closing_if_recording io m =
     scatch m (\<lambda>e. sbind xget (\<lambda>s. sthen (if xs_recording s then exec_close io else sret ()) (sraise e)))"

definition exec_next :: "'w exec_io \<Rightarrow> exec_gen \<Rightarrow> ('w, gen_out \<times> exec_gen) xm" where
  "exec_next io g =
     closing_if_recording io
       (case g of
          GPoll \<Rightarrow> exec_poll io
        | GStdout j out err \<Rightarrow> sthen (check_usable io) (after_stdout io j out err)
        | GStderr j out err \<Rightarrow> sthen (check_usable io) (exec_tail io j out err)
        | GDone \<Rightarrow> sret (Stopped, GDone))"

definition exec_events :: "'w exec_io \<Rightarrow> ('w, exec_gen) xm" where
  "exec_events io =
     sbind xget (\<lambda>s.
     sthen (sguard (\<not> xs_consumed s) (XState ''OCI exec session is closed or already consumed''))
    (sthen (\<lambda>t. sguard (session_usable io t) (XState ''OCI exec session is closed or already consumed'') t)
    (sthen (xput (\<lambda>s. s\<lparr>xs_consumed := True\<rparr>)) (sret GPoll))))"

text \<open>
  A loop over the generator, which may never end: at most \<open>n\<close> calls, \<open>None\<close> when they were
  not enough, else the events it yielded. An \<open>Again\<close> yields nothing.
\<close>

fun exec_drain :: "nat \<Rightarrow> 'w exec_io \<Rightarrow> exec_gen \<Rightarrow> ('w, process_event list option) xm" where
  "exec_drain 0 io g = sret None"
| "exec_drain (Suc n) io g =
     sbind (exec_next io g) (\<lambda>(r, g').
     case r of
       Stopped \<Rightarrow> sret (Some [])
     | Again \<Rightarrow> exec_drain n io g'
     | Yielded ev \<Rightarrow> sbind (exec_drain n io g') (\<lambda>evs. sret (map_option ((#) ev) evs)))"

definition exec_wait :: "nat \<Rightarrow> 'w exec_io \<Rightarrow> ('w, process_exit option option) xm" where
  "exec_wait n io =
     sbind xget (\<lambda>s.
     if xs_result s \<noteq> None then sret (Some (xs_result s))
     else sthen (sguard (\<not> xs_consumed s) (XState ''OCI exec events are still active''))
         (sbind (exec_events io) (\<lambda>g.
          sbind (exec_drain n io g) (\<lambda>evs.
          sbind xget (\<lambda>s. sret (map_option (\<lambda>_. xs_result s) evs))))))"

definition exec_unsupported :: "string \<Rightarrow> ('w, unit) xm" where
  "exec_unsupported capability = sraise (XCapability capability)"

definition exec_capabilities :: process_capabilities where
  "exec_capabilities = \<lparr>pc_stdin = False, pc_tty = False, pc_resize = False, pc_signal = False\<rparr>"

end
