(* ===== verification/Mail_Effects.thy ===== *)
theory Mail_Effects imports Main Exec_Control begin

text \<open>
  What each method of the exec mailbox does to its state, its invariant, and the calls as
  data: client requests and worker calls in any order.
\<close>

section \<open>Calls\<close>

datatype mail_request =
  RStatus | RSubmit json json json json | RPoll json json json json | RAcknowledge json json

fun mail_serve :: "mail_request \<Rightarrow> json mail" where
  "mail_serve RStatus = mail_status"
| "mail_serve (RSubmit sequence token argv timeout_ms) = mail_submit sequence token argv timeout_ms"
| "mail_serve (RPoll sequence token a b) = mail_poll sequence token a b"
| "mail_serve (RAcknowledge sequence token) = mail_acknowledge sequence token"

datatype worker_call =
  WReady | WClose json | WTake | WAppend "exec_job option" json json "bytes option"
| WComplete "exec_job option" json json json json

definition no_job :: "unit mail \<Rightarrow> exec_job option mail" where
  "no_job m = sthen m (sret None)"

fun mail_work :: "worker_call \<Rightarrow> exec_job option mail" where
  "mail_work WReady = no_job mail_mark_ready"
| "mail_work (WClose reason) = no_job (mail_close_to_exec reason)"
| "mail_work WTake = mail_take_exec"
| "mail_work (WAppend job stream offset data) = no_job (mail_append_output job stream offset data)"
| "mail_work (WComplete job terminal a b reason) = no_job (mail_complete job terminal a b reason)"

section \<open>Effects\<close>

lemmas mail_unfold = sbind_def sthen_def sguard_def

lemma text_in_True: "text_in v names = Inr True \<Longrightarrow> \<exists>k \<in> set names. v = JStr (ul k)"
  by (auto simp: text_in_def split: json.splits)

lemma poll_job_state [simp]: "snd (poll_job a b m) = m"
  by (auto simp: poll_job_def mail_unfold split: sum.splits option.splits)

lemma exec_identity_Inr:
  "exec_identity_of s t = Inr (n, tk) \<Longrightarrow> s = JInt n \<and> t = JStr tk \<and> 1 \<le> n \<and> n \<le> max_mail_sequence \<and> is_uuid tk"
  by (auto simp: exec_identity_of_def split: json.splits if_splits)

text \<open>A submission that is accepted.\<close>

definition accepted :: "json \<Rightarrow> json \<Rightarrow> json \<Rightarrow> json \<Rightarrow> exec_job \<Rightarrow> bool" where
  "accepted s t argv ms job \<longleftrightarrow>
     exec_identity_of s t = Inr (ej_sequence job, ej_token job) \<and>
     validate_exec_request argv ms = Inr (ej_argv job, ej_timeout job)"

definition enqueue :: "exec_job \<Rightarrow> mailbox \<Rightarrow> mailbox" where
  "enqueue job m = m\<lparr>mb_job := Some job, mb_job_state := Some XQueued\<rparr>"

lemma submit_effect:
  assumes "mail_submit s t argv ms m = (r, m')"
  obtains (refused) e where "r = Inl e" "m' = m"
    | (again) job where "accepted s t argv ms job" "ej_sequence job = mb_next m" "mb_job m = Some job" "m' = m"
        "r = fst (poll_job (JInt 0) (JInt 0) m)"
    | (new) job where "accepted s t argv ms job" "ej_sequence job = mb_next m" "mb_job m = None" "mb_state m = MReady"
        "mb_next m \<noteq> max_mail_sequence" "m' = enqueue job m" "r = fst (poll_job (JInt 0) (JInt 0) m')"
proof (cases "exec_identity_of s t")
  case (Inl e)
  with assms that(1) show ?thesis by (auto simp: mail_submit_def sbind_step)
next
  case ident: (Inr nt)
  obtain n tk where nt: "nt = (n, tk)" by force
  show ?thesis
  proof (cases "validate_exec_request argv ms")
    case (Inl e)
    with assms ident nt that(1) show ?thesis by (auto simp: mail_submit_def sbind_step)
  next
    case val: (Inr am)
    obtain args ti where am: "am = (args, ti)" by force
    let ?job = "\<lparr>ej_sequence = n, ej_token = tk, ej_argv = args, ej_timeout = ti\<rparr>"
    have acc: "accepted s t argv ms ?job" using ident val nt am by (simp add: accepted_def)
    show ?thesis
    proof (cases "n = mb_next m")
      case False
      with assms ident val nt am that(1) show ?thesis by (auto simp: mail_submit_def mail_unfold Let_def)
    next
      case n: True
      show ?thesis
      proof (cases "mb_job m")
        case (Some job)
        show ?thesis
        proof (cases "job = ?job")
          case True
          with assms ident val nt am n Some have "poll_job (JInt 0) (JInt 0) m = (r, m')"
            by (simp add: mail_submit_def mail_unfold Let_def)
          moreover have "m' = m" using calculation poll_job_state [of "JInt 0" "JInt 0" m] by simp
          ultimately show ?thesis using that(2) [OF acc] n Some True by simp
        next
          case False
          with assms ident val nt am n Some that(1) show ?thesis by (auto simp: mail_submit_def mail_unfold Let_def)
        qed
      next
        case None
        show ?thesis
        proof (cases "mb_state m = MReady \<and> mb_next m \<noteq> max_mail_sequence")
          case True
          with assms ident val nt am n None have p: "poll_job (JInt 0) (JInt 0) (enqueue ?job m) = (r, m')"
            by (simp add: mail_submit_def mail_unfold enqueue_def Let_def)
          moreover have "m' = enqueue ?job m" using p poll_job_state [of "JInt 0" "JInt 0" "enqueue ?job m"] by simp
          ultimately show ?thesis using that(3) [OF acc] n None True by simp
        next
          case False
          with assms ident val nt am n None that(1) show ?thesis by (auto simp: mail_submit_def mail_unfold Let_def)
        qed
      qed
    qed
  qed
qed

lemma poll_effect:
  assumes "mail_poll s t a b m = (r, m')"
  shows "m' = m"
proof -
  have "poll_job a b x = (r, m') \<Longrightarrow> m' = x" for x using poll_job_state [of a b x] by simp
  with assms show ?thesis
    by (auto simp: mail_poll_def require_job_def mail_unfold split: sum.splits option.splits prod.splits if_splits)
qed

definition released :: "int \<times> ustr \<Rightarrow> mailbox \<Rightarrow> mailbox" where
  "released ident m = m\<lparr>mb_last_ack := Some ident, mb_next := mb_next m + 1, mb_job := None, mb_job_state := None,
     mb_terminal := None, mb_reason := None, mb_stdout := [], mb_stderr := []\<rparr>"

lemma acknowledge_effect:
  assumes "mail_acknowledge s t m = (r, m')"
  obtains (refused) e where "r = Inl e" "m' = m"
    | (again) ident where "exec_identity_of s t = Inr ident" "mb_last_ack m = Some ident" "m' = m" "r = Inr (status_json m)"
    | (ok) job where "exec_identity_of s t = Inr (ej_sequence job, ej_token job)" "mb_job m = Some job"
        "mb_job_state m = Some XCompleted" "m' = released (ej_sequence job, ej_token job) m" "r = Inr (status_json m')"
proof (cases "exec_identity_of s t")
  case (Inl e)
  with assms that(1) show ?thesis by (auto simp: mail_acknowledge_def sbind_step)
next
  case (Inr ident)
  show ?thesis
  proof (cases "mb_last_ack m = Some ident")
    case True
    have "mail_acknowledge s t m = (Inr (status_json m), m)"
      using Inr True by (simp add: mail_acknowledge_def mail_unfold mail_status_def)
    with assms again [OF Inr True] show ?thesis by auto
  next
    case False
    show ?thesis
    proof (cases "\<exists>job. mb_job m = Some job \<and> (ej_sequence job, ej_token job) = ident \<and> mb_job_state m = Some XCompleted")
      case True
      then obtain job where "mb_job m = Some job" "(ej_sequence job, ej_token job) = ident" "mb_job_state m = Some XCompleted"
        by blast
      note job = this
      have "mail_acknowledge s t m = (Inr (status_json (released ident m)), released ident m)"
        using Inr False job by (simp add: mail_acknowledge_def mail_unfold mail_status_def require_job_def released_def)
      with assms ok [of job] Inr job show ?thesis by auto
    next
      case no: False
      have "\<exists>e. mail_acknowledge s t m = (Inl e, m)"
        using Inr False no by (cases "mb_job m") (auto simp: mail_acknowledge_def mail_unfold mail_status_def require_job_def)
      with assms refused show ?thesis by auto
    qed
  qed
qed

lemma mark_ready_effect: "mail_mark_ready m = (Inr (), if mb_state m = MNotReady then m\<lparr>mb_state := MReady\<rparr> else m)"
  by (simp add: mail_mark_ready_def)

lemma close_effect:
  assumes "mail_close_to_exec reason m = (r, m')"
  obtains (refused) e where "r = Inl e" "m' = m"
    | (closed) s where "s \<in> set close_reasons" "r = Inr ()" "m' = close_with s m"
proof (cases "text_in reason (map mail_state_name close_reasons) = Inr True")
  case True
  then obtain k where "k \<in> set close_reasons" "reason = JStr (ul (mail_state_name k))" using text_in_True by fastforce
  then have "find (\<lambda>s. is_text reason (mail_state_name s)) close_reasons = Some k"
    by (auto simp: close_reasons_def is_text_def)
  with True assms \<open>k \<in> set close_reasons\<close> closed show ?thesis by (simp add: mail_close_to_exec_def mail_unfold)
next
  case False
  with assms refused show ?thesis by (auto simp: mail_close_to_exec_def mail_unfold split: sum.splits)
qed

lemma take_effect:
  "mail_take_exec m =
     (if mb_state m = MReady \<and> mb_job_state m = Some XQueued then (Inr (mb_job m), m\<lparr>mb_job_state := Some XRunning\<rparr>)
      else (Inr None, m))"
  by (simp add: mail_take_exec_def mail_unfold)

definition put_output :: "bool \<Rightarrow> bytes \<Rightarrow> mailbox \<Rightarrow> mailbox" where
  "put_output on_stdout data =
     (if on_stdout then mb_stdout_update (\<lambda>b. b @ data) else mb_stderr_update (\<lambda>b. b @ data))"

lemma append_effect:
  assumes "mail_append_output job stream offset data m = (r, m')"
  obtains (refused) e where "r = Inl e" "m' = m"
    | (ok) j d where "job = Some j" "data = Some d" "mb_job m = Some j" "mb_job_state m = Some XRunning"
        "1 \<le> length d" "length (mb_stdout m) + length (mb_stderr m) + length d \<le> max_mail_output" "r = Inr ()"
        "m' = put_output (is_text stream ''stdout'') d m"
proof (cases r)
  case (Inl e)
  with assms have "m' = m" unfolding mail_append_output_def Let_def
    by (auto simp: sx_results)
  with Inl refused show ?thesis by simp
next
  case (Inr u)
  with assms have "mail_append_output job stream offset data m = (Inr (), m')" by simp
  from this [unfolded mail_append_output_def Let_def sx_results] ok Inr show ?thesis
    by (auto simp: put_output_def split: if_splits)
qed

lemma completion_terminal_valid: "completion_terminal v = Inr t \<Longrightarrow> valid_terminal t \<and> v \<noteq> JNull"
  by (auto simp: completion_terminal_def valid_terminal_def split: json.splits if_splits)

lemma complete_effect:
  assumes "mail_complete job terminal a b reason m = (r, m')"
  obtains (refused) e where "r = Inl e" "m' = m"
    | (ok) j t k where "job = Some j" "mb_job m = Some j" "mb_job_state m = Some XRunning" "k \<in> set completion_reasons"
        "case t of None \<Rightarrow> k = ''cancelled'' \<and> mb_stdout m = [] \<and> mb_stderr m = [] | Some t \<Rightarrow> valid_terminal t" "r = Inr ()"
        "m' = m\<lparr>mb_terminal := t, mb_reason := Some (ul k), mb_job_state := Some XCompleted\<rparr>"
proof (cases "\<exists>e. r = Inl e")
  case True
  then have "m' = m" using assms unfolding mail_complete_def
    by (auto simp: sx_results split: if_splits)
  with True that(1) show ?thesis by blast
next
  case False
  then have r: "r = Inr ()" by (cases r) auto
  with assms obtain j where j: "job = Some j" "mb_job m = Some j" "mb_job_state m = Some XRunning"
    "text_in reason completion_reasons = Inr True"
    and m': "m' = m\<lparr>mb_terminal := (if terminal = JNull then None else Some (projr (completion_terminal terminal))),
        mb_reason := Some (text_of reason), mb_job_state := Some XCompleted\<rparr>"
    and ab: "a = JInt (int (length (mb_stdout m)))" "b = JInt (int (length (mb_stderr m)))"
    and n: "terminal = JNull \<Longrightarrow> is_text reason ''cancelled'' \<and> is_zero a \<and> is_zero b"
    and t: "terminal \<noteq> JNull \<Longrightarrow> \<exists>t. completion_terminal terminal = Inr t"
    unfolding mail_complete_def by (cases job) (auto simp: sx_results split: if_splits)
  from j(4) obtain k where k: "k \<in> set completion_reasons" "reason = JStr (ul k)"
    by (cases reason) (auto simp: text_in_def)
  show ?thesis
  proof (cases "terminal = JNull")
    case True
    with n ab k have "k = ''cancelled''" "mb_stdout m = []" "mb_stderr m = []" by (auto simp: is_text_def is_zero_def)
    then show ?thesis using that(2) [OF j(1-3) k(1) _ r, of None] m' True k(2) by (simp add: text_of_def)
  next
    case False
    with t obtain x where "completion_terminal terminal = Inr x" by blast
    then show ?thesis using that(2) [OF j(1-3) k(1) _ r, of "Some x"] m' False k(2) completion_terminal_valid
      by (simp add: text_of_def)
  qed
qed

end
