(* ===== verification/Mail_Props.thy ===== *)
theory Mail_Props imports Main Mail_Effects begin

text \<open>
  Runs of the exec mailbox: client requests and worker calls in any order and with any
  arguments. A run lists the jobs \<open>take_exec\<close> handed to the worker.
\<close>

definition taken :: "exn + exec_job option \<Rightarrow> exec_job list" where
  "taken r = (case r of Inr (Some j) \<Rightarrow> [j] | _ \<Rightarrow> [])"

inductive mail_run :: "mailbox \<Rightarrow> exec_job list \<Rightarrow> mailbox \<Rightarrow> bool" where
  start: "mail_run m [] m"
| serve: "mail_run m js m1 \<Longrightarrow> mail_serve q m1 = (r, m2) \<Longrightarrow> mail_run m js m2"
| work: "mail_run m js m1 \<Longrightarrow> mail_work c m1 = (r, m2) \<Longrightarrow> mail_run m (js @ taken r) m2"

section \<open>The invariant\<close>

definition job_valid :: "exec_job \<Rightarrow> bool" where
  "job_valid j \<longleftrightarrow> is_uuid (ej_token j) \<and> ej_argv j \<noteq> [] \<and> 1 \<le> ej_timeout j \<and> ej_timeout j \<le> max_exec_timeout"

definition result_ok :: "mailbox \<Rightarrow> bool" where
  "result_ok m \<longleftrightarrow>
     (case mb_job_state m of
        Some XCompleted \<Rightarrow>
          (\<exists>k \<in> set completion_reasons. mb_reason m = Some (ul k)) \<and>
          (case mb_terminal m of None \<Rightarrow> mb_reason m = Some (ul ''cancelled'') \<and> mb_stdout m = [] \<and> mb_stderr m = []
           | Some t \<Rightarrow> valid_terminal t)
      | Some XLost \<Rightarrow> mb_terminal m = None \<and> mb_reason m = Some (ul ''control-lost'') \<and> mb_state m \<in> {MTerminal, MControlLost}
      | _ \<Rightarrow> mb_terminal m = None \<and> mb_reason m = None)"

definition mail_inv :: "mailbox \<Rightarrow> bool" where
  "mail_inv m \<longleftrightarrow>
     1 \<le> mb_next m \<and> mb_next m \<le> max_mail_sequence \<and>
     (mb_job m = None \<longleftrightarrow> mb_job_state m = None) \<and>
     pred_option (\<lambda>j. ej_sequence j = mb_next m \<and> mb_next m < max_mail_sequence \<and> job_valid j) (mb_job m) \<and>
     length (mb_stdout m) + length (mb_stderr m) \<le> max_mail_output \<and>
     (mb_job_state m \<in> {None, Some XQueued} \<longrightarrow> mb_stdout m = [] \<and> mb_stderr m = []) \<and>
     (mb_state m = MNotReady \<longrightarrow> mb_job m = None) \<and>
     (mb_state m \<in> {MTerminal, MControlLost} \<longrightarrow> mb_job_state m \<notin> {Some XQueued, Some XRunning}) \<and>
     pred_option (\<lambda>(n, t). n + 1 = mb_next m) (mb_last_ack m) \<and> result_ok m"

lemma mail_inv_new: "mail_inv mail_new"
  by (simp add: mail_inv_def mail_new_def max_mail_sequence_def result_ok_def)

lemma accepted_valid: "accepted s t argv ms job \<Longrightarrow> job_valid job"
  by (auto simp: accepted_def job_valid_def validate_exec_request_def validate_exec_argv_def validate_exec_timeout_def
      rbind_Inr_iff text_items_def dest!: exec_identity_Inr split: sum.splits exn.splits json.splits if_splits option.splits)

lemma submit_inv:
  assumes "mail_submit s t argv ms m = (r, m')" "mail_inv m"
  shows "mail_inv m'"
  using assms(1)
proof (cases rule: submit_effect)
  case (new job)
  then show ?thesis using assms(2) accepted_valid [OF new(1)]
    by (auto simp: mail_inv_def enqueue_def result_ok_def)
qed (use assms in auto)

lemma acknowledge_inv:
  assumes "mail_acknowledge s t m = (r, m')" "mail_inv m"
  shows "mail_inv m'"
  using assms(1)
proof (cases rule: acknowledge_effect)
  case (ok job)
  then show ?thesis using assms(2) by (auto simp: mail_inv_def released_def result_ok_def)
qed (use assms in auto)

lemma serve_inv: "mail_serve q m = (r, m') \<Longrightarrow> mail_inv m \<Longrightarrow> mail_inv m'"
proof (cases q)
  case (RPoll s t a b)
  then show "mail_serve q m = (r, m') \<Longrightarrow> mail_inv m \<Longrightarrow> mail_inv m'"
    using poll_effect [of s t a b m] by auto
qed (auto simp: mail_status_def intro: submit_inv acknowledge_inv)

lemma close_with_inv: "s \<in> set close_reasons \<Longrightarrow> mail_inv m \<Longrightarrow> mail_inv (close_with s m)"
  by (auto simp: mail_inv_def close_with_def close_reasons_def lost_job_def result_ok_def Let_def
      split: option.splits job_state.splits)

lemma no_job_Pair: "no_job c m = (r, m') \<Longrightarrow> \<exists>r'. c m = (r', m') \<and> taken r = []"
  by (auto simp: no_job_def sthen_def sbind_def taken_def split: prod.splits sum.splits)

lemma work_inv:
  assumes "mail_work c m = (r, m')" "mail_inv m"
  shows "mail_inv m'"
proof (cases c)
  case WReady
  then show ?thesis using assms
    by (auto simp: mail_inv_def result_ok_def no_job_def sthen_def sbind_def mark_ready_effect split: option.splits job_state.splits if_splits)
next
  case (WClose s)
  then obtain r' where "mail_close_to_exec s m = (r', m')" using assms(1) no_job_Pair by fastforce
  then show ?thesis using assms(2) close_with_inv by (cases rule: close_effect) auto
next
  case WTake
  then show ?thesis using assms by (auto simp: take_effect mail_inv_def result_ok_def split: if_splits)
next
  case (WAppend job stream offset data)
  then obtain r' where "mail_append_output job stream offset data m = (r', m')" using assms(1) no_job_Pair by fastforce
  then show ?thesis
  proof (cases rule: append_effect)
    case (ok j d)
    then show ?thesis using assms(2) by (auto simp: mail_inv_def result_ok_def put_output_def)
  qed (use assms(2) in auto)
next
  case (WComplete job terminal a b reason)
  then obtain r' where "mail_complete job terminal a b reason m = (r', m')" using assms(1) no_job_Pair by fastforce
  then show ?thesis
  proof (cases rule: complete_effect)
    case (ok j t k)
    then show ?thesis using assms(2) by (auto simp: mail_inv_def result_ok_def split: option.splits)
  qed (use assms(2) in auto)
qed

section \<open>A sample run\<close>

definition token1 :: ustr where "token1 = ul ''00000000-0000-4000-8000-000000000001''"
definition token2 :: ustr where "token2 = ul ''00000000-0000-4000-8000-000000000002''"

definition sample_job :: "int \<Rightarrow> ustr \<Rightarrow> exec_job" where
  "sample_job n t = \<lparr>ej_sequence = n, ej_token = t, ej_argv = [ul ''id''], ej_timeout = 1000\<rparr>"

definition submit_of :: "exec_job \<Rightarrow> mail_request" where
  "submit_of j = RSubmit (JInt (ej_sequence j)) (JStr (ej_token j)) (JArr (map JStr (ej_argv j))) (JInt (ej_timeout j))"

definition sample_mail_end :: mailbox where
  "sample_mail_end = \<lparr>mb_state = MReady, mb_next = 1, mb_job = Some (sample_job 1 token1), mb_job_state = Some XCompleted,
     mb_stdout = [104, 105], mb_stderr = [], mb_terminal = Some \<lparr>t_exit = Some 0, t_signal = None\<rparr>,
     mb_reason = Some (ul ''completed''), mb_last_ack = None\<rparr>"

lemma sample_tokens: "is_uuid token1" "is_uuid token2"
  by (simp_all add: exec token1_def token2_def numeral_eq_Suc)

lemma sample_accepted:
  "1 \<le> n \<Longrightarrow> n \<le> max_mail_sequence \<Longrightarrow> is_uuid t \<Longrightarrow>
   accepted (JInt n) (JStr t) (JArr [JStr (ul ''id'')]) (JInt 1000) (sample_job n t)"
  by (simp add: accepted_def sample_job_def exec_identity_of_def) (simp add: exec cong: eval_cong)


lemma sample_submit:
  assumes "mb_job m = None" "mb_state m = MReady" "1 \<le> mb_next m" "mb_next m < max_mail_sequence" "is_uuid t"
  shows "\<exists>r. mail_serve (submit_of (sample_job (mb_next m) t)) m = (r, enqueue (sample_job (mb_next m) t) m)"
proof -
  note acc = sample_accepted [OF assms(3) _ assms(5)]
  have "mail_serve (submit_of (sample_job (mb_next m) t)) m =
      poll_job (JInt 0) (JInt 0) (enqueue (sample_job (mb_next m) t) m)"
    using acc assms(1,2,4) unfolding accepted_def
    by (simp add: submit_of_def sample_job_def mail_submit_def mail_unfold Let_def enqueue_def)
  then show ?thesis using poll_job_state [of "JInt 0" "JInt 0" "enqueue (sample_job (mb_next m) t) m"] by (metis prod.collapse)
qed

lemma sample_run1: "mail_run mail_new [sample_job 1 token1] sample_mail_end"
proof -
  let ?j = "sample_job 1 token1"
  let ?m1 = "mail_new\<lparr>mb_state := MReady\<rparr>"
  let ?m2 = "enqueue ?j ?m1"
  let ?m3 = "?m2\<lparr>mb_job_state := Some XRunning\<rparr>"
  let ?m4 = "?m3\<lparr>mb_stdout := [104, 105]\<rparr>"
  have 1: "mail_work WReady mail_new = (Inr None, ?m1)"
    by (simp add: no_job_def mail_unfold mark_ready_effect mail_new_def)
  obtain r where 2: "mail_serve (submit_of ?j) ?m1 = (r, ?m2)"
    using sample_submit [of ?m1 token1] sample_tokens by (auto simp: mail_new_def max_mail_sequence_def)
  have 3: "mail_work WTake ?m2 = (Inr (Some ?j), ?m3)" by (simp add: take_effect enqueue_def)
  have 4: "mail_work (WAppend (Some ?j) (JStr (ul ''stdout'')) (JInt 0) (Some [104, 105])) ?m3 = (Inr None, ?m4)"
    by (simp add: no_job_def mail_unfold mail_append_output_def enqueue_def text_in_def is_text_def mail_new_def
        max_mail_chunk_def max_mail_output_def Let_def)
  have 5: "mail_work (WComplete (Some ?j) (JObj [(ul ''exit_code'', JInt 0), (ul ''signal'', JNull)]) (JInt 2) (JInt 0)
      (JStr (ul ''completed''))) ?m4 = (Inr None, sample_mail_end)"
    by (simp add: no_job_def mail_unfold mail_complete_def enqueue_def text_in_def completion_reasons_def mail_new_def
        completion_terminal_def same_keys_def jget_def text_of_def sample_mail_end_def)
  have "mail_run mail_new ([] @ taken (Inr None) @ taken (Inr (Some ?j)) @ taken (Inr None) @ taken (Inr None)) sample_mail_end"
    using mail_run.work [OF mail_run.work [OF mail_run.work [OF mail_run.serve [OF mail_run.work
      [OF mail_run.start 1] 2] 3] 4] 5] by simp
  then show ?thesis by (simp add: taken_def)
qed

lemma sample_run2:
  "mail_run mail_new [sample_job 1 token1, sample_job 2 token2]
     ((enqueue (sample_job 2 token2) (released (1, token1) sample_mail_end))\<lparr>mb_job_state := Some XRunning\<rparr>)"
proof -
  let ?j = "sample_job 2 token2"
  let ?m1 = "released (1, token1) sample_mail_end"
  have 1: "mail_serve (RAcknowledge (JInt 1) (JStr token1)) sample_mail_end = (Inr (status_json ?m1), ?m1)"
    by (simp add: mail_acknowledge_def mail_unfold mail_status_def require_job_def released_def sample_mail_end_def
        exec_identity_of_def max_mail_sequence_def sample_tokens sample_job_def)
  obtain r where 2: "mail_serve (submit_of ?j) ?m1 = (r, enqueue ?j ?m1)"
    using sample_submit [of ?m1 token2] sample_tokens by (auto simp: released_def sample_mail_end_def max_mail_sequence_def)
  have 3: "mail_work WTake (enqueue ?j ?m1) = (Inr (Some ?j), (enqueue ?j ?m1)\<lparr>mb_job_state := Some XRunning\<rparr>)"
    by (simp add: take_effect enqueue_def released_def sample_mail_end_def)
  show ?thesis
    using mail_run.work [OF mail_run.serve [OF mail_run.serve [OF sample_run1 1] 2] 3] by (simp add: taken_def)
qed

section \<open>Well-formedness\<close>

text \<open>Whatever clients and the worker call, in any order and with any arguments, the exec mailbox stays
  well formed: at most 65536 bytes of output are held, the job in it is valid and carries the current
  sequence number, it has output only once taken, a completed job has a reason and a valid terminal or was
  cancelled without output, and a run that ended or lost its control holds no queued or running job.\<close>

theorem mailbox_well_formed:
  assumes "mail_run mail_new js m"
  shows "mail_inv m"
  using assms
proof (induction "mail_new" js m rule: mail_run.induct)
  case start
  show ?case by (rule mail_inv_new)
qed (use serve_inv work_inv in blast)+

theorem mailbox_well_formed_witness:
  "mail_inv sample_mail_end \<and> mb_job_state sample_mail_end = Some XCompleted"
  using mailbox_well_formed [OF sample_run1] by (simp add: sample_mail_end_def)

section \<open>At most once\<close>

definition handed_out :: "exec_job list \<Rightarrow> mailbox \<Rightarrow> bool" where
  "handed_out js m \<longleftrightarrow>
     mail_inv m \<and> sorted_wrt (<) (map ej_sequence js) \<and>
     (\<forall>j \<in> set js. job_valid j \<and> (ej_sequence j < mb_next m \<or> mb_job m = Some j \<and> mb_job_state m \<noteq> Some XQueued))"

definition keeps_job :: "mailbox \<Rightarrow> mailbox \<Rightarrow> bool" where
  "keeps_job m m' \<longleftrightarrow>
     mb_next m' = mb_next m + 1 \<or>
     mb_next m' = mb_next m \<and> (mb_job m \<noteq> None \<longrightarrow> mb_job m' = mb_job m \<and>
       (mb_job_state m' = Some XQueued \<longrightarrow> mb_job_state m = Some XQueued))"

lemma keeps_job_same: "keeps_job m m"
  by (simp add: keeps_job_def)

lemma handed_out_keeps:
  assumes "handed_out js m" "keeps_job m m'" "mail_inv m'"
  shows "handed_out js m'"
proof -
  have "ej_sequence j < mb_next m' \<or> mb_job m' = Some j \<and> mb_job_state m' \<noteq> Some XQueued" if "j \<in> set js" for j
  proof -
    from that assms(1) consider "ej_sequence j < mb_next m" | "mb_job m = Some j" "mb_job_state m \<noteq> Some XQueued"
      by (auto simp: handed_out_def)
    then show ?thesis
    proof cases
      case 1
      then show ?thesis using assms(2) by (auto simp: keeps_job_def)
    next
      case 2
      then have "ej_sequence j = mb_next m" using assms(1) by (auto simp: handed_out_def mail_inv_def)
      with 2 show ?thesis using assms(2) by (auto simp: keeps_job_def)
    qed
  qed
  with assms(1,3) show ?thesis by (auto simp: handed_out_def)
qed

lemma serve_keeps_job:
  assumes "mail_serve q m = (r, m')"
  shows "keeps_job m m'"
proof (cases q)
  case RStatus
  with assms show ?thesis by (simp add: mail_status_def keeps_job_same)
next
  case (RSubmit s t argv ms)
  with assms have "mail_submit s t argv ms m = (r, m')" by simp
  then show ?thesis by (cases rule: submit_effect) (auto simp: enqueue_def keeps_job_def)
next
  case (RPoll s t a b)
  with assms have "m' = m" using poll_effect by simp
  then show ?thesis by (simp add: keeps_job_same)
next
  case (RAcknowledge s t)
  with assms have "mail_acknowledge s t m = (r, m')" by simp
  then show ?thesis by (cases rule: acknowledge_effect) (auto simp: released_def keeps_job_def)
qed

lemma work_keeps_job:
  assumes "mail_work c m = (r, m')"
  shows "keeps_job m m' \<and>
    (taken r = [] \<or> (\<exists>j. taken r = [j] \<and> mb_job m = Some j \<and> mb_job_state m = Some XQueued \<and>
                         mb_job m' = Some j \<and> mb_job_state m' = Some XRunning))"
proof (cases c)
  case WReady
  then show ?thesis using assms by (auto simp: no_job_def sthen_def sbind_def mark_ready_effect taken_def keeps_job_def split: if_splits)
next
  case (WClose s)
  then obtain r' where "mail_close_to_exec s m = (r', m')" "taken r = []" using assms(1) no_job_Pair by fastforce
  then show ?thesis by (cases rule: close_effect) (auto simp: close_with_def lost_job_def Let_def keeps_job_def)
next
  case WTake
  then have t: "mail_take_exec m = (r, m')" using assms by simp
  show ?thesis
  proof (cases "mb_state m = MReady \<and> mb_job_state m = Some XQueued")
    case True
    with t have "r = Inr (mb_job m)" "m' = m\<lparr>mb_job_state := Some XRunning\<rparr>" by (auto simp: take_effect)
    with True show ?thesis by (cases "mb_job m") (simp_all add: taken_def keeps_job_def)
  next
    case False
    with t have "r = Inr None" "m' = m" by (auto simp: take_effect)
    then show ?thesis by (simp add: taken_def keeps_job_def)
  qed
next
  case (WAppend job stream offset data)
  then obtain r' where "mail_append_output job stream offset data m = (r', m')" "taken r = []"
    using assms(1) no_job_Pair by fastforce
  then show ?thesis by (cases rule: append_effect) (auto simp: put_output_def keeps_job_def)
next
  case (WComplete job terminal a b reason)
  then obtain r' where "mail_complete job terminal a b reason m = (r', m')" "taken r = []"
    using assms(1) no_job_Pair by fastforce
  then show ?thesis by (cases rule: complete_effect) (auto simp: keeps_job_def)
qed

lemma handed_out_run:
  assumes "mail_run mail_new js m"
  shows "handed_out js m"
  using assms
proof (induction "mail_new" js m rule: mail_run.induct)
  case start
  show ?case by (simp add: handed_out_def mail_inv_new)
next
  case (serve js m1 q r m2)
  then show ?case using handed_out_keeps serve_keeps_job serve_inv unfolding handed_out_def by blast
next
  case (work js m1 c r m2)
  have inv: "mail_inv m1" "mail_inv m2" using work work_inv by (auto simp: handed_out_def)
  note keep = work_keeps_job [OF work(3)]
  have h: "handed_out js m2" using handed_out_keeps work(2) keep inv(2) by blast
  show ?case
  proof (cases "taken r = []")
    case False
    then obtain j where j: "taken r = [j]" "mb_job m1 = Some j" "mb_job_state m1 = Some XQueued"
      "mb_job m2 = Some j" "mb_job_state m2 = Some XRunning" using keep by blast
    then have "ej_sequence j = mb_next m1" "job_valid j" using inv(1) by (auto simp: mail_inv_def)
    moreover have "\<forall>i \<in> set js. ej_sequence i < mb_next m1" using work(2) j(3) by (auto simp: handed_out_def)
    ultimately show ?thesis using h j by (auto simp: handed_out_def sorted_wrt_append)
  qed (use h in simp)
qed

text \<open>C29. No submitted command is handed to the worker twice. Over any run of client requests (retried,
  stale, forged or concurrent submissions included) and worker calls, the jobs \<open>take_exec\<close> returns have
  strictly increasing sequence numbers, each a valid job.\<close>

theorem exec_at_most_once:
  assumes "mail_run mail_new js m"
  shows "sorted_wrt (<) (map ej_sequence js) \<and> (\<forall>j \<in> set js. job_valid j)"
  using handed_out_run [OF assms] by (simp add: handed_out_def)

theorem exec_at_most_once_witness:
  "sorted_wrt (<) (map ej_sequence [sample_job 1 token1, sample_job 2 token2]) \<and>
   (\<exists>m. mail_run mail_new [sample_job 1 token1, sample_job 2 token2] m)"
  using exec_at_most_once [OF sample_run2] sample_run2 by blast

section \<open>Lost replies\<close>

lemma submit_again:
  assumes "accepted s t argv ms job" "ej_sequence job = mb_next m" "mb_job m = Some job"
  shows "mail_submit s t argv ms m = poll_job (JInt 0) (JInt 0) m"
proof -
  have "job = \<lparr>ej_sequence = ej_sequence job, ej_token = ej_token job, ej_argv = ej_argv job, ej_timeout = ej_timeout job\<rparr>"
    by simp
  with assms show ?thesis unfolding accepted_def by (simp add: mail_submit_def mail_unfold Let_def)
qed

lemma acknowledge_again:
  "exec_identity_of s t = Inr ident \<Longrightarrow> mb_last_ack m = Some ident \<Longrightarrow> mail_acknowledge s t m = (Inr (status_json m), m)"
  by (simp add: mail_acknowledge_def mail_unfold mail_status_def)

text \<open>A client that lost a reply may send the same request again: if nothing happened in between, the
  second call gives the same answer and changes nothing, whatever the request was and however it was
  answered. So a resubmitted command is not queued again, and a repeated acknowledgement is confirmed.\<close>

theorem client_retry_same:
  "case mail_serve q m of (r, m') \<Rightarrow> mail_serve q m' = (r, m')"
proof (cases "mail_serve q m")
  case (Pair r m')
  have "mail_serve q m' = (r, m')"
  proof (cases q)
    case (RSubmit s t argv ms)
    with Pair have "mail_submit s t argv ms m = (r, m')" by simp
    then show ?thesis
    proof (cases rule: submit_effect)
      case (new job)
      with submit_again [of s t argv ms job m'] poll_job_state [of "JInt 0" "JInt 0" m'] show ?thesis
        using RSubmit by (simp add: enqueue_def prod_eq_iff)
    qed (use RSubmit Pair in auto)
  next
    case (RAcknowledge s t)
    with Pair have "mail_acknowledge s t m = (r, m')" by simp
    then show ?thesis
    proof (cases rule: acknowledge_effect)
      case (ok job)
      then show ?thesis using RAcknowledge acknowledge_again by (simp add: released_def)
    qed (use RAcknowledge Pair in auto)
  next
    case (RPoll s t a b)
    with Pair poll_effect [of s t a b m r m'] show ?thesis by simp
  qed (use Pair in \<open>auto simp: mail_status_def\<close>)
  with Pair show ?thesis by simp
qed

section \<open>The result waits for its client\<close>

lemma work_completed:
  assumes "mb_job_state m = Some XCompleted"
  shows "\<exists>s. snd (mail_work c m) = m\<lparr>mb_state := s\<rparr>"
proof -
  have id: "\<exists>s. m = m\<lparr>mb_state := s\<rparr>" by (rule exI [of _ "mb_state m"]) simp
  obtain r m' where e: "mail_work c m = (r, m')" by force
  show ?thesis
  proof (cases c)
    case WReady
    with id show ?thesis by (auto simp: no_job_def sthen_def sbind_def mark_ready_effect)
  next
    case (WClose s)
    then obtain r' where "mail_close_to_exec s m = (r', m')" using e no_job_Pair by fastforce
    then show ?thesis using id e assms
      by (cases rule: close_effect) (auto simp: close_with_def lost_job_def Let_def)
  next
    case WTake
    with id assms show ?thesis by (simp add: take_effect)
  next
    case (WAppend job stream offset data)
    then obtain r' where "mail_append_output job stream offset data m = (r', m')" using e no_job_Pair by fastforce
    then show ?thesis using id e assms by (cases rule: append_effect) auto
  next
    case (WComplete job terminal a b reason)
    then obtain r' where "mail_complete job terminal a b reason m = (r', m')" using e no_job_Pair by fastforce
    then show ?thesis using id e assms by (cases rule: complete_effect) auto
  qed
qed

text \<open>C30. Once a job is completed, its output, terminal status and reason stay as they are, and nobody can
  submit another command, until the one request that acknowledges exactly this job; that request empties the
  mailbox and moves on to the next sequence number. Worker calls change at most the state of the mailbox.\<close>

theorem completed_result_kept:
  assumes "mail_run mail_new js m" "mb_job m = Some job" "mb_job_state m = Some XCompleted"
  shows "snd (mail_serve q m) =
      (if q = RAcknowledge (JInt (ej_sequence job)) (JStr (ej_token job))
       then released (ej_sequence job, ej_token job) m else m) \<and>
    (\<exists>s. snd (mail_work c m) = m\<lparr>mb_state := s\<rparr>)"
proof
  have inv: "mail_inv m" using handed_out_run [OF assms(1)] by (simp add: handed_out_def)
  show "\<exists>s. snd (mail_work c m) = m\<lparr>mb_state := s\<rparr>" by (rule work_completed [OF assms(3)])
  obtain r m' where e: "mail_serve q m = (r, m')" by force
  show "snd (mail_serve q m) = (if q = RAcknowledge (JInt (ej_sequence job)) (JStr (ej_token job))
      then released (ej_sequence job, ej_token job) m else m)"
  proof (cases q)
    case (RSubmit s t argv ms)
    with e have "mail_submit s t argv ms m = (r, m')" by simp
    then show ?thesis using e RSubmit assms(2) by (cases rule: submit_effect) auto
  next
    case (RAcknowledge s t)
    have ident: "exec_identity_of (JInt (ej_sequence job)) (JStr (ej_token job)) = Inr (ej_sequence job, ej_token job)"
      using inv assms(2) by (auto simp: mail_inv_def exec_identity_of_def job_valid_def)
    have fresh: "mb_last_ack m \<noteq> Some (ej_sequence job, ej_token job)" using inv assms(2) by (auto simp: mail_inv_def)
    from RAcknowledge e have "mail_acknowledge s t m = (r, m')" by simp
    then show ?thesis
    proof (cases rule: acknowledge_effect)
      case (refused x)
      have "mail_acknowledge (JInt (ej_sequence job)) (JStr (ej_token job)) m =
          (Inr (status_json (released (ej_sequence job, ej_token job) m)), released (ej_sequence job, ej_token job) m)"
        using ident fresh assms(2,3)
        by (simp add: mail_acknowledge_def mail_unfold mail_status_def require_job_def released_def)
      with refused e RAcknowledge show ?thesis by auto
    next
      case (again i)
      then show ?thesis using e RAcknowledge ident fresh by auto
    next
      case (ok j)
      then show ?thesis using e RAcknowledge assms(2) by (auto dest!: exec_identity_Inr)
    qed
  next
    case (RPoll s t a b)
    with e show ?thesis using poll_effect by simp
  qed (simp add: mail_status_def)
qed

theorem completed_result_kept_witness:
  "snd (mail_serve (RAcknowledge (JInt 1) (JStr token1)) sample_mail_end) = released (1, token1) sample_mail_end \<and>
   snd (mail_serve (RAcknowledge (JInt 1) (JStr token2)) sample_mail_end) = sample_mail_end"
  using completed_result_kept [OF sample_run1, of "sample_job 1 token1" "RAcknowledge (JInt 1) (JStr token1)"]
    completed_result_kept [OF sample_run1, of "sample_job 1 token1" "RAcknowledge (JInt 1) (JStr token2)"]
  by (simp add: sample_mail_end_def sample_job_def token1_def token2_def ul_def)

end
