(* ===== verification/Exec_Dispatch.thy ===== *)
theory Exec_Dispatch imports Main Exec_Session Mail_Effects begin

text \<open>
  How an exec request of a client reaches the mailbox: the payload checks of
  \<open>_decode_exec_request\<close> and the dispatch of \<open>_serve_exec_request\<close> in
  \<open>src/palimpsest_local/oci_monitor_ipc.py\<close>. The frame around the payload (schema, identity
  of the run, peer credentials) is not modelled here.
\<close>

definition exec_operation_name :: "exec_op \<Rightarrow> string" where
  "exec_operation_name op =
     (case op of OpStatus \<Rightarrow> ''status'' | OpSubmit \<Rightarrow> ''submit'' | OpPoll \<Rightarrow> ''poll'' | OpAcknowledge \<Rightarrow> ''acknowledge'')"

definition exec_payload_keys :: "exec_op \<Rightarrow> string list" where
  "exec_payload_keys op =
     (case op of
        OpStatus \<Rightarrow> []
      | OpSubmit \<Rightarrow> [''sequence'', ''token'', ''argv'', ''timeout_ms'']
      | OpPoll \<Rightarrow> [''sequence'', ''token'', ''stdout_offset'', ''stderr_offset'']
      | OpAcknowledge \<Rightarrow> [''sequence'', ''token''])"

definition offset_in_range :: "json \<Rightarrow> bool" where
  "offset_in_range v = (case v of JInt i \<Rightarrow> 0 \<le> i \<and> i \<le> 65536 | _ \<Rightarrow> False)"

definition payload_checks :: "exec_op \<Rightarrow> (ustr \<times> json) list \<Rightarrow> exn + unit" where
  "payload_checks op p =
     rbind (if op = OpStatus then Inr () else rbind (exec_identity_of (jget p ''sequence'') (jget p ''token'')) (\<lambda>_. Inr ())) (\<lambda>_.
     rbind (if op = OpSubmit then rbind (validate_exec_request (jget p ''argv'') (jget p ''timeout_ms'')) (\<lambda>_. Inr ()) else Inr ()) (\<lambda>_.
     if op = OpPoll \<and> \<not> (offset_in_range (jget p ''stdout_offset'') \<and> offset_in_range (jget p ''stderr_offset''))
     then Inl ValueErr else Inr ()))"

text \<open>\<open>except (MonitorExecControlError, ValueError)\<close>: an invalid frame.\<close>

definition decode_exec_operation :: "json \<Rightarrow> json \<Rightarrow> exn + exec_op \<times> (ustr \<times> json) list" where
  "decode_exec_operation operation payload =
     (case (find (\<lambda>op. is_text operation (exec_operation_name op)) [OpStatus, OpSubmit, OpPoll, OpAcknowledge], payload) of
        (Some op, JObj p) \<Rightarrow>
          if \<not> same_keys p (exec_payload_keys op) then Inl (Refused ''invalid-frame'')
          else (case payload_checks op p of
                  Inl (Refused _) \<Rightarrow> Inl (Refused ''invalid-frame'')
                | Inl ValueErr \<Rightarrow> Inl (Refused ''invalid-frame'')
                | Inl e \<Rightarrow> Inl e
                | Inr _ \<Rightarrow> Inr (op, p))
      | _ \<Rightarrow> Inl (Refused ''invalid-frame''))"

text \<open>What the dispatch looks at: the worker, if there is one, and the phase of its lease.\<close>

record worker_view =
  wv_failed :: bool
  wv_done :: bool
  wv_stopping :: bool
  wv_phase :: string

definition worker_ready :: "worker_view \<Rightarrow> bool" where
  "worker_ready v \<longleftrightarrow> wv_phase v = ''ready'' \<and> \<not> wv_done v \<and> \<not> wv_stopping v"

definition refresh :: "worker_view \<Rightarrow> unit mail" where
  "refresh v =
     (if wv_failed v then mail_close_to_exec (JStr (ul ''control-lost''))
      else if wv_phase v = ''terminal'' then mail_close_to_exec (JStr (ul ''terminal''))
      else if worker_ready v then mail_mark_ready else sret ())"

text \<open>\<open>getattr(worker.exec_control, operation)(**payload)\<close>.\<close>

definition request_of :: "exec_op \<Rightarrow> (ustr \<times> json) list \<Rightarrow> mail_request" where
  "request_of op p =
     (case op of
        OpStatus \<Rightarrow> RStatus
      | OpSubmit \<Rightarrow> RSubmit (jget p ''sequence'') (jget p ''token'') (jget p ''argv'') (jget p ''timeout_ms'')
      | OpPoll \<Rightarrow> RPoll (jget p ''sequence'') (jget p ''token'') (jget p ''stdout_offset'') (jget p ''stderr_offset'')
      | OpAcknowledge \<Rightarrow> RAcknowledge (jget p ''sequence'') (jget p ''token''))"

definition serve_exec :: "worker_view option \<Rightarrow> exec_op \<Rightarrow> (ustr \<times> json) list \<Rightarrow> json mail" where
  "serve_exec worker op p =
     (case worker of
        None \<Rightarrow> sraise (Refused ''not-ready'')
      | Some v \<Rightarrow>
          sthen (refresh v)
         (sthen (if op = OpSubmit
                 then sthen (sguard (worker_ready v \<and> \<not> wv_failed v) (Refused ''not-ready'')) mail_mark_ready else sret ())
                (mail_serve (request_of op p))))"

text \<open>The reply: the result, or the category of a \<open>MonitorExecControlError\<close>.\<close>

definition exec_reply :: "worker_view option \<Rightarrow> exec_op \<Rightarrow> (ustr \<times> json) list \<Rightarrow> (json \<times> json) mail" where
  "exec_reply worker op p =
     scatch (sbind (serve_exec worker op p) (\<lambda>r. sret (r, JNull)))
       (\<lambda>e. case e of Refused c \<Rightarrow> sret (JNull, JStr (ul c)) | _ \<Rightarrow> sraise e)"

lemmas exec_dispatch_exec [exec] = exec_operation_name_def exec_payload_keys_def offset_in_range_def payload_checks_def
  decode_exec_operation_def worker_ready_def refresh_def request_of_def serve_exec_def exec_reply_def

end
