(* ===== verification/Exec_Link.thy ===== *)
theory Exec_Link imports Main Exec_Dispatch Mail_Props begin

text \<open>
  The exec session and the mailbox put together: every request of the session is answered by
  the dispatch of the monitor. Between two requests the worker makes any calls, and the view
  the dispatch has of it may change: \<open>mw_env\<close> lists this for the next requests.
\<close>

record mail_world =
  mw_mail :: mailbox
  mw_view :: worker_view
  mw_env :: "(worker_call list \<times> worker_view) list"
  mw_pid :: int

definition work_all :: "worker_call list \<Rightarrow> mailbox \<Rightarrow> mailbox" where
  "work_all cs m = fold (\<lambda>c m. snd (mail_work c m)) cs m"

definition next_turn :: "mail_world \<Rightarrow> mail_world" where
  "next_turn w =
     (case mw_env w of
        [] \<Rightarrow> w
      | (cs, v) # env \<Rightarrow> w\<lparr>mw_mail := work_all cs (mw_mail w), mw_view := v, mw_env := env\<rparr>)"

definition ask :: "exec_op \<Rightarrow> (ustr \<times> json) list \<Rightarrow> (mail_world, exec_exn, json) sx" where
  "ask op p w =
     (let w1 = next_turn w in
      case exec_reply (Some (mw_view w1)) op p (mw_mail w1) of
        (Inl e, m) \<Rightarrow> (Inl (XOther e), w1\<lparr>mw_mail := m\<rparr>)
      | (Inr (v, JNull), m) \<Rightarrow> (Inr v, w1\<lparr>mw_mail := m\<rparr>)
      | (Inr (v, _), m) \<Rightarrow> (Inl (XState ''OCI exec request refused''), w1\<lparr>mw_mail := m\<rparr>))"

definition mail_io :: "mail_world exec_io" where
  "mail_io = \<lparr>io_pid = mw_pid, io_connect = sret (), io_request = ask, io_observed = (\<lambda>_. sret ()),
     io_confirmed = (\<lambda>_. sret ()), io_sleep = sret (), io_close_client = id, io_close_writer = id\<rparr>"

section \<open>Bytes and hexadecimal text\<close>

lemma fromhex_hex: "py_fromhex (hex_of_bytes b) = Some b"
proof (induction b)
  case (Cons x xs)
  let ?h = "hex_digit (uint x div 16)" and ?l = "hex_digit (uint x mod 16)"
  have n: "0 \<le> uint x div 16" "uint x div 16 < 16" "0 \<le> uint x mod 16" "uint x mod 16 < 16"
    using nibbles [of x] by auto
  have "?h \<notin> {32, 9, 10, 11, 12, 13}" using n by (auto simp: hex_digit_def)
  moreover have "is_hex_char ?h" "is_hex_char ?l" using n by (simp_all add: is_hex_char_def is_hex_lower_digit)
  moreover have "byte_of (hex_value ?h * 16 + hex_value ?l) = x" using n nibbles [of x] by (simp add: hex_value_digit)
  moreover have "hex_of_bytes (x # xs) = ?h # ?l # hex_of_bytes xs" by (simp add: hex_of_bytes_def)
  ultimately show ?case using Cons by simp
qed (simp add: hex_of_bytes_def)

lemma decode_stream_chunk:
  assumes "previous \<le> length out" "offset \<le> previous" "length out \<le> max_mail_output"
  shows "decode_stream (JStr (hex_of_bytes (chunk_at offset out))) (JInt (int (length out))) (JInt (int offset)) offset previous
    = Inr (length out, chunk_at offset out)"
proof -
  have "length (chunk_at offset out) = min max_mail_chunk (length out - offset)" by (simp add: chunk_at_def min_def)
  moreover have "int (min max_mail_chunk (length out - offset)) = min (int max_mail_chunk) (int (length out) - int offset)"
    using assms by (auto simp: min_def)
  moreover have "length (chunk_at offset out) \<le> max_mail_chunk" by (simp add: chunk_at_def)
  ultimately show ?thesis using assms by (simp add: decode_stream_def fromhex_hex length_hex_of_bytes)
qed

section \<open>What the worker does to a job\<close>

definition sealed :: "mailbox \<Rightarrow> mailbox" where
  "sealed m = m\<lparr>mb_state := MReady\<rparr>"

lemma sealed_state [simp]: "sealed (m\<lparr>mb_state := s\<rparr>) = sealed m" "mb_job_state (sealed m) = mb_job_state m"
  by (simp_all add: sealed_def)

definition grows :: "mailbox \<Rightarrow> mailbox \<Rightarrow> bool" where
  "grows m m' \<longleftrightarrow>
     mb_job m' = mb_job m \<and> mb_next m' = mb_next m \<and> mb_last_ack m' = mb_last_ack m \<and>
     (\<exists>a. mb_stdout m' = mb_stdout m @ a) \<and> (\<exists>b. mb_stderr m' = mb_stderr m @ b) \<and>
     rel_option (\<lambda>x y. phase_number x \<le> phase_number y) (mb_job_state m) (mb_job_state m') \<and>
     (mb_job_state m = Some XCompleted \<longrightarrow> sealed m' = sealed m) \<and>
     (mb_job_state m = Some XLost \<longrightarrow> mb_job_state m' = Some XLost)"

lemma grows_refl: "grows m m"
  by (auto simp: grows_def option.rel_refl)

lemma grows_trans:
  assumes "grows a b" "grows b c"
  shows "grows a c"
proof -
  note d = assms [unfolded grows_def]
  have same: "mb_job c = mb_job a" "mb_next c = mb_next a" "mb_last_ack c = mb_last_ack a" using d by simp_all
  have out: "\<exists>x. mb_stdout c = mb_stdout a @ x" "\<exists>x. mb_stderr c = mb_stderr a @ x" using d by (metis append.assoc)+
  have phase: "rel_option (\<lambda>x y. phase_number x \<le> phase_number y) (mb_job_state a) (mb_job_state c)"
    using d by (auto simp: option_rel_Some1 option.rel_sel)
  have comp: "sealed c = sealed a" if "mb_job_state a = Some XCompleted"
    using d that sealed_state(2) by metis
  have lost: "mb_job_state a = Some XLost \<longrightarrow> mb_job_state c = Some XLost" using d by simp
  show ?thesis unfolding grows_def using same out phase comp lost by simp
qed

lemma work_grows:
  assumes "mb_job m \<noteq> None" "mb_job_state m \<noteq> None"
  shows "grows m (snd (mail_work c m))"
proof (cases "mb_job_state m = Some XCompleted")
  case True
  then obtain s where s: "snd (mail_work c m) = m\<lparr>mb_state := s\<rparr>" using work_completed by blast
  show ?thesis unfolding s by (auto simp: grows_def option.rel_refl)
next
  case nc: False
  obtain r m' where e: "mail_work c m = (r, m')" by force
  have "grows m m'"
  proof (cases c)
    case WReady
    with e have "m' = m \<or> m' = m\<lparr>mb_state := MReady\<rparr>" by (auto simp: no_job_def sthen_def sbind_def mark_ready_effect)
    then show ?thesis using grows_refl by (auto simp: grows_def option.rel_refl)
  next
    case (WClose s)
    then obtain r' where "mail_close_to_exec s m = (r', m')" using e no_job_Pair by fastforce
    then show ?thesis
    proof (cases rule: close_effect)
      case (closed k)
      have l: "grows x (lost_job x)" for x
        by (cases "mb_job_state x"; cases "the (mb_job_state x)") (auto simp: grows_def lost_job_def)
      have st: "grows m (m\<lparr>mb_state := k\<rparr>)" by (auto simp: grows_def option.rel_refl)
      show ?thesis unfolding closed close_with_def Let_def
        using grows_trans [OF st l] grows_trans [OF grows_refl l] st grows_refl by auto
    qed (simp add: grows_refl)
  next
    case WTake
    with e nc show ?thesis by (auto simp: take_effect grows_refl split: if_splits) (auto simp: grows_def)
  next
    case (WAppend job stream offset data)
    then obtain r' where "mail_append_output job stream offset data m = (r', m')" using e no_job_Pair by fastforce
    then show ?thesis
      by (cases rule: append_effect) (auto simp: grows_refl, auto simp: grows_def put_output_def)
  next
    case (WComplete job terminal a b reason)
    then obtain r' where "mail_complete job terminal a b reason m = (r', m')" using e no_job_Pair by fastforce
    then show ?thesis by (cases rule: complete_effect) (auto simp: grows_refl, auto simp: grows_def)
  qed
  with e show ?thesis by simp
qed

lemma grows_job: "grows m m' \<Longrightarrow> mb_job m \<noteq> None \<Longrightarrow> mb_job_state m \<noteq> None \<Longrightarrow> mb_job m' \<noteq> None \<and> mb_job_state m' \<noteq> None"
  by (auto simp: grows_def option_rel_Some1)

lemma work_all_grows:
  "mb_job m \<noteq> None \<Longrightarrow> mb_job_state m \<noteq> None \<Longrightarrow> grows m (work_all cs m)"
proof (induction cs arbitrary: m)
  case (Cons c cs)
  note g = work_grows [OF Cons.prems, of c]
  show ?case using grows_trans [OF g] Cons.IH [of "snd (mail_work c m)"] grows_job [OF g Cons.prems]
    by (simp add: work_all_def)
qed (simp add: work_all_def grows_refl)

lemma work_all_inv: "mail_inv m \<Longrightarrow> mail_inv (work_all cs m)"
proof (induction cs arbitrary: m)
  case (Cons c cs)
  then show ?case using work_inv [of c m "fst (mail_work c m)" "snd (mail_work c m)"] by (simp add: work_all_def)
qed (simp add: work_all_def)

text \<open>What the dispatch does before it serves a request is a worker call, or nothing.\<close>

lemma refresh_work:
  obtains (calls) cs where "\<And>m. refresh v m = (Inr (), work_all cs m)"
proof -
  have c: "mail_close_to_exec (JStr (ul (mail_state_name s))) m = (Inr (), close_with s m)" if "s \<in> set close_reasons" for s m
    using that by (auto simp: close_reasons_def mail_close_to_exec_def sbind_def sthen_def text_in_def is_text_def)
  show ?thesis
  proof (cases "wv_failed v \<or> wv_phase v = ''terminal''")
    case True
    let ?s = "if wv_failed v then MControlLost else MTerminal"
    have "refresh v m = (Inr (), work_all [WClose (JStr (ul (mail_state_name ?s)))] m)" for m
      using True c [of ?s m] by (auto simp: refresh_def work_all_def no_job_def sthen_def sbind_def close_reasons_def)
    then show ?thesis by (rule calls)
  next
    case False
    have "refresh v m = (Inr (), work_all (if worker_ready v then [WReady] else []) m)" for m
      using False by (auto simp: refresh_def work_all_def no_job_def sthen_def sbind_def mark_ready_effect)
    then show ?thesis by (rule calls)
  qed
qed

end
