(* ===== verification/Exec_Deliver.thy ===== *)
theory Exec_Deliver imports Main Exec_Link begin

text \<open>
  What the session holds of a job agrees with the mailbox (\<open>job_linked\<close>), a poll reply of the
  mailbox is accepted and carries the next bytes, and so the session delivers the job's output.
\<close>

definition evidence :: "mailbox \<Rightarrow> terminal option \<times> ustr \<times> nat \<times> nat" where
  "evidence m = (mb_terminal m, the (mb_reason m), length (mb_stdout m), length (mb_stderr m))"

definition job_linked :: "exec_session \<Rightarrow> mailbox \<Rightarrow> exec_job \<Rightarrow> bool" where
  "job_linked s m j \<longleftrightarrow>
     mail_inv m \<and> mb_job m = Some j \<and> ej_sequence j = xs_sequence s \<and> ej_token j = xs_token s \<and>
     xs_stdout s \<le> fst (xs_sizes s) \<and> fst (xs_sizes s) \<le> length (mb_stdout m) \<and>
     xs_stderr s \<le> snd (xs_sizes s) \<and> snd (xs_sizes s) \<le> length (mb_stderr m) \<and>
     xs_phase s \<le> phase_number (the (mb_job_state m)) \<and>
     (xs_terminal s \<noteq> None \<longrightarrow> mb_job_state m = Some XCompleted \<and> xs_terminal s = Some (evidence m))"

lemma evidence_sealed: "sealed m' = sealed m \<Longrightarrow> evidence m' = evidence m"
proof -
  have "evidence (sealed x) = evidence x" for x by (simp add: evidence_def sealed_def)
  then show "sealed m' = sealed m \<Longrightarrow> evidence m' = evidence m" by metis
qed

lemma linked_job: "job_linked s m j \<Longrightarrow> mb_job m = Some j \<and> (\<exists>js. mb_job_state m = Some js)"
  by (auto simp: job_linked_def mail_inv_def)

lemma linked_grows:
  assumes "job_linked s m j" "grows m m'" "mail_inv m'"
  shows "job_linked s m' j"
proof -
  obtain js where js: "mb_job_state m = Some js" using linked_job [OF assms(1)] by blast
  obtain js' where js': "mb_job_state m' = Some js'" "phase_number js \<le> phase_number js'"
    using assms(2) js by (auto simp: grows_def option_rel_Some1)
  have len: "length (mb_stdout m) \<le> length (mb_stdout m')" "length (mb_stderr m) \<le> length (mb_stderr m')"
    using assms(2) by (auto simp: grows_def)
  have t: "mb_job_state m' = Some XCompleted \<and> evidence m' = evidence m" if "mb_job_state m = Some XCompleted"
    using assms(2) that evidence_sealed sealed_state(2) unfolding grows_def by metis
  show ?thesis using assms js js' len t by (auto simp: job_linked_def grows_def)
qed

section \<open>A poll\<close>

lemma poll_fields:
  "jget (poll_items j js a b m) ''sequence'' = JInt (ej_sequence j)"
  "jget (poll_items j js a b m) ''token'' = JStr (ej_token j)"
  "jget (poll_items j js a b m) ''state'' = JStr (ul (job_state_name js))"
  "jget (poll_items j js a b m) ''stdout_offset'' = JInt (int a)"
  "jget (poll_items j js a b m) ''stderr_offset'' = JInt (int b)"
  "jget (poll_items j js a b m) ''stdout_hex'' = JStr (hex_of_bytes (chunk_at a (mb_stdout m)))"
  "jget (poll_items j js a b m) ''stderr_hex'' = JStr (hex_of_bytes (chunk_at b (mb_stderr m)))"
  "jget (poll_items j js a b m) ''stdout_size'' = JInt (int (length (mb_stdout m)))"
  "jget (poll_items j js a b m) ''stderr_size'' = JInt (int (length (mb_stderr m)))"
  "jget (poll_items j js a b m) ''terminal'' = (case mb_terminal m of None \<Rightarrow> JNull | Some t \<Rightarrow> terminal_json t)"
  "jget (poll_items j js a b m) ''reason'' = jstr (mb_reason m)"
  by (simp_all add: jget_def poll_items_def)

lemma poll_same_keys: "same_keys (poll_items j js a b m) poll_keys"
  by (simp add: same_keys_def poll_items_def poll_keys_def)

lemma job_state_found: "find (\<lambda>j. is_text (JStr (ul (job_state_name js))) (job_state_name j)) job_states = Some js"
  by (cases js) (simp_all add: job_states_def is_text_def)

lemma completion_terminal_json: "valid_terminal t \<Longrightarrow> completion_terminal (terminal_json t) = Inr t \<and> terminal_json t \<noteq> JNull"
  by (cases "t_exit t"; cases "t_signal t")
     (auto simp: completion_terminal_def terminal_json_def valid_terminal_def same_keys_def jget_def jint_def)

lemma decode_poll:
  assumes "job_linked s m j" "mb_job_state m = Some js"
  shows "decode_checked s (JObj (poll_items j js (xs_stdout s) (xs_stderr s) m)) =
    Inr (js, (length (mb_stdout m), chunk_at (xs_stdout s) (mb_stdout m)),
             (length (mb_stderr m), chunk_at (xs_stderr s) (mb_stderr m)),
         if js = XCompleted then Some (evidence m) else xs_terminal s)"
proof -
  have i: "mail_inv m" using assms(1) by (simp add: job_linked_def)
  then have "result_ok m" by (simp add: mail_inv_def)
  note inv = i this
  have len: "length (mb_stdout m) + length (mb_stderr m) \<le> max_mail_output" using inv by (simp add: mail_inv_def)
  have head: "decode_head s (JObj (poll_items j js (xs_stdout s) (xs_stderr s) m)) =
      Inr (poll_items j js (xs_stdout s) (xs_stderr s) m, js)"
    using assms by (simp add: decode_head_def poll_same_keys poll_fields job_state_found job_linked_def)
  have streams: "decode_stream (JStr (hex_of_bytes (chunk_at (xs_stdout s) (mb_stdout m)))) (JInt (int (length (mb_stdout m))))
      (JInt (int (xs_stdout s))) (xs_stdout s) (fst (xs_sizes s)) = Inr (length (mb_stdout m), chunk_at (xs_stdout s) (mb_stdout m))"
    "decode_stream (JStr (hex_of_bytes (chunk_at (xs_stderr s) (mb_stderr m)))) (JInt (int (length (mb_stderr m))))
      (JInt (int (xs_stderr s))) (xs_stderr s) (snd (xs_sizes s)) = Inr (length (mb_stderr m), chunk_at (xs_stderr s) (mb_stderr m))"
    using assms(1) len by (auto simp: job_linked_def intro!: decode_stream_chunk)
  let ?t = "case mb_terminal m of None \<Rightarrow> JNull | Some t \<Rightarrow> terminal_json t"
  show ?thesis
  proof (cases "js = XCompleted")
    case True
    then obtain k where k: "k \<in> set completion_reasons" "mb_reason m = Some (ul k)"
      using inv assms(2) by (auto simp: result_ok_def)
    have t: "decode_terminal ?t (jstr (mb_reason m)) (length (mb_stdout m)) (length (mb_stderr m)) = Inr (mb_terminal m)"
      using inv(2) assms(2) True k completion_terminal_json
      by (auto simp: decode_terminal_def result_ok_def is_text_def jstr_def split: option.splits)
    have r: "text_in (jstr (mb_reason m)) completion_reasons = Inr True" "text_of (jstr (mb_reason m)) = the (mb_reason m)"
      using k by (auto simp: text_in_def jstr_def text_of_def)
    have "decode_completed s ?t (jstr (mb_reason m)) (length (mb_stdout m)) (length (mb_stderr m)) = Inr (evidence m)"
      using t r assms(1) by (auto simp: decode_completed_def hashed_def evidence_def job_linked_def Let_def)
    then show ?thesis using head streams len True by (simp add: decode_checked_def poll_fields)
  next
    case False
    then have "pending_ok js ?t (jstr (mb_reason m)) = Inr True"
      using inv(2) assms(2) by (cases js) (simp_all add: result_ok_def pending_ok_def hashed_def jstr_def text_in_def)
    then show ?thesis using head streams len False by (simp add: decode_checked_def poll_fields)
  qed
qed

section \<open>Requests that are answered\<close>

definition settled :: "mail_world \<Rightarrow> mail_world" where
  "settled w = (let w1 = next_turn w in w1\<lparr>mw_mail := snd (refresh (mw_view w1) (mw_mail w1))\<rparr>)"

lemma settled_grows:
  assumes "job_linked s (mw_mail w) j"
  shows "grows (mw_mail w) (mw_mail (settled w)) \<and> mail_inv (mw_mail (settled w))"
proof -
  obtain cs where cs: "mw_mail (next_turn w) = work_all cs (mw_mail w)"
  proof (cases "mw_env w")
    case Nil
    then show ?thesis using that [of "[]"] by (simp add: next_turn_def work_all_def)
  qed (use that in \<open>auto simp: next_turn_def\<close>)
  obtain ds where ds: "snd (refresh (mw_view (next_turn w)) m) = work_all ds m" for m
    using refresh_work [of "mw_view (next_turn w)"] by (metis snd_conv)
  have m: "mw_mail (settled w) = work_all (cs @ ds) (mw_mail w)"
    unfolding settled_def Let_def by (simp add: ds cs) (simp add: work_all_def)
  show ?thesis unfolding m using assms linked_job [OF assms] by (auto simp: job_linked_def intro!: work_all_grows work_all_inv)
qed

lemma settled_linked: "job_linked s (mw_mail w) j \<Longrightarrow> job_linked s (mw_mail (settled w)) j"
  using settled_grows linked_grows by blast

lemma settled_fields [simp]: "mw_pid (settled w) = mw_pid w" "mw_env (settled w) = tl (mw_env w)"
  by (auto simp: settled_def next_turn_def Let_def split: list.splits)

text \<open>A request whose method returns a value, on the settled mailbox.\<close>

lemma ask_served:
  assumes "mail_serve (request_of op p) (mw_mail (settled w)) = (Inr v, m')" "op \<noteq> OpSubmit"
  shows "ask op p w = (Inr v, (settled w)\<lparr>mw_mail := m'\<rparr>)"
proof -
  have "refresh (mw_view (next_turn w)) (mw_mail (next_turn w)) = (Inr (), mw_mail (settled w))"
    by (rule refresh_work [of "mw_view (next_turn w)"]) (simp add: settled_def Let_def)
  then have "exec_reply (Some (mw_view (next_turn w))) op p (mw_mail (next_turn w)) = (Inr (v, JNull), m')"
    using assms by (simp add: exec_reply_def serve_exec_def scatch_def sbind_def sthen_def)
  then show ?thesis by (simp add: ask_def Let_def settled_def)
qed

lemma linked_identity:
  assumes "job_linked s m j"
  shows "exec_identity_of (JInt (xs_sequence s)) (JStr (xs_token s)) = Inr (xs_sequence s, xs_token s)"
proof -
  have "mail_inv m" "mb_job m = Some j" "ej_sequence j = xs_sequence s" "ej_token j = xs_token s"
    using assms by (simp_all add: job_linked_def)
  then have "1 \<le> xs_sequence s" "xs_sequence s \<le> max_mail_sequence" "is_uuid (xs_token s)"
    unfolding mail_inv_def by (simp_all add: job_valid_def)
  then show ?thesis by (simp add: exec_identity_of_def)
qed

lemma identity_fields:
  "jget (job_identity_items s @ r) ''sequence'' = JInt (xs_sequence s)" "jget (job_identity_items s @ r) ''token'' = JStr (xs_token s)"
  by (simp_all add: jget_def job_identity_items_def)

lemma ask_poll:
  assumes "job_linked s (mw_mail w) j" "mb_job_state (mw_mail (settled w)) = Some js"
  shows "ask OpPoll (job_identity_items s @ [(ul ''stdout_offset'', JInt (int (xs_stdout s))),
      (ul ''stderr_offset'', JInt (int (xs_stderr s)))]) w =
    (Inr (JObj (poll_items j js (xs_stdout s) (xs_stderr s) (mw_mail (settled w)))), settled w)"
proof -
  let ?m = "mw_mail (settled w)"
  note l = settled_linked [OF assms(1)]
  have o: "valid_offset (JInt (int (xs_stdout s))) (mb_stdout ?m) = Inr (xs_stdout s)"
    "valid_offset (JInt (int (xs_stderr s))) (mb_stderr ?m) = Inr (xs_stderr s)"
    using l by (simp_all add: valid_offset_def job_linked_def)
  let ?p = "job_identity_items s @ [(ul ''stdout_offset'', JInt (int (xs_stdout s))), (ul ''stderr_offset'', JInt (int (xs_stderr s)))]"
  have f: "jget ?p ''stdout_offset'' = JInt (int (xs_stdout s))" "jget ?p ''stderr_offset'' = JInt (int (xs_stderr s))"
    by (simp_all add: jget_def job_identity_items_def)
  have job: "mb_job ?m = Some j" "(ej_sequence j, ej_token j) = (xs_sequence s, xs_token s)" using l by (simp_all add: job_linked_def)
  have "mail_serve (request_of OpPoll ?p) ?m = (Inr (JObj (poll_items j js (xs_stdout s) (xs_stderr s) ?m)), ?m)"
    using linked_identity [OF l] o job assms(2)
    by (simp add: request_of_def identity_fields f mail_poll_def require_job_def poll_job_def mail_unfold)
  from ask_served [OF this] show ?thesis by simp
qed

end
