(* ===== verification/Exec_Exchange.thy ===== *)
theory Exec_Exchange imports Main Exec_Deliver begin

text \<open>
  The exchanges of the guest exec path: one turn of the event generator against the mailbox, the
  acknowledgement and the recording, and what a whole sequence of turns hands to the caller.
\<close>

section \<open>One turn of the generator\<close>

definition after_poll :: "exec_session \<Rightarrow> mailbox \<Rightarrow> exec_session" where
  "after_poll s m =
     s\<lparr>xs_terminal := (if mb_job_state m = Some XCompleted then Some (evidence m) else xs_terminal s),
       xs_phase := phase_number (the (mb_job_state m)), xs_sizes := (length (mb_stdout m), length (mb_stderr m)),
       xs_stdout := xs_stdout s + length (chunk_at (xs_stdout s) (mb_stdout m)),
       xs_stderr := xs_stderr s + length (chunk_at (xs_stderr s) (mb_stderr m))\<rparr>"

lemma chunk_bound: "n \<le> length b \<Longrightarrow> n + length (chunk_at n b) \<le> length b"
  by (simp add: chunk_at_def)

lemma linked_after_poll:
  assumes "job_linked s m j"
  shows "job_linked (after_poll s m) m j"
proof -
  have "xs_stdout s \<le> length (mb_stdout m)" "xs_stderr s \<le> length (mb_stderr m)" using assms by (simp_all add: job_linked_def)
  with chunk_bound [of "xs_stdout s" "mb_stdout m"] chunk_bound [of "xs_stderr s" "mb_stderr m"] assms
  show ?thesis by (simp add: job_linked_def after_poll_def)
qed

definition usable :: "exec_session \<Rightarrow> mail_world \<Rightarrow> bool" where
  "usable s w \<longleftrightarrow> \<not> xs_closed s \<and> mw_pid w = xs_pid s"

lemma session_usable_iff [simp]: "session_usable mail_io (s, w) = usable s w"
  by (simp add: session_usable_def usable_def mail_io_def)

lemma mail_io_sel [simp]:
  "io_request mail_io = ask" "io_observed mail_io = (\<lambda>_. sret ())" "io_confirmed mail_io = (\<lambda>_. sret ())"
  "io_sleep mail_io = sret ()" "io_close_client mail_io = id" "io_close_writer mail_io = id"
  by (simp_all add: mail_io_def)

lemma usable_after_poll [simp]: "usable (after_poll s m) w = usable s w" "usable s (settled w) = usable s w"
  by (simp_all add: usable_def after_poll_def)

lemma request_step:
  assumes "usable s w" "ask op p w = (Inr v, w')"
  shows "exec_request mail_io op p (s, w) = (Inr v, (s, w'))"
  using assms by (simp add: exec_request_def sthen_def sbind_def check_usable_def on_io_def)

lemma xstate_simps [simp]: "xget s = (Inr (fst s), s)" "xput f s = (Inr (), (f (fst s), snd s))"
  by (simp_all add: xget_def xput_def map_prod_def split: prod.split)

definition chunk_events :: "process_stream \<Rightarrow> bytes \<Rightarrow> process_event list" where
  "chunk_events stream b = (if b = [] then [] else [OutputEvent stream b])"

lemma output_event_step: "b \<noteq> [] \<Longrightarrow> output_event stream b s = (Inr (OutputEvent stream b), s)"
  by (simp add: output_event_def as_exec_def output_event_init_def)

lemma exec_poll_step:
  assumes "job_linked s (mw_mail w) j" "usable s w" "mb_job_state (mw_mail (settled w)) = Some js"
  defines "m \<equiv> mw_mail (settled w)"
  defines "out \<equiv> chunk_at (xs_stdout s) (mb_stdout m)" and "err \<equiv> chunk_at (xs_stderr s) (mb_stderr m)"
  shows "exec_poll mail_io (s, w) =
    (if out \<noteq> [] then (Inr (Yielded (OutputEvent process_stream.Stdout out), GStdout js out err), (after_poll s m, settled w))
     else after_stdout mail_io js out err (after_poll s m, settled w))"
proof -
  note ask = ask_poll [OF assms(1,3)]
  note dec = decode_poll [OF settled_linked [OF assms(1)] assms(3)]
  have d: "exec_decode (JObj (poll_items j js (xs_stdout s) (xs_stderr s) m)) (s, settled w) =
      (Inr (js, out, err), (s\<lparr>xs_terminal := (if js = XCompleted then Some (evidence m) else xs_terminal s),
        xs_phase := phase_number js, xs_sizes := (length (mb_stdout m), length (mb_stderr m))\<rparr>, settled w))"
    using dec by (simp add: exec_decode_def sbind_def sthen_def m_def out_def err_def)
  have p: "exec_poll mail_io (s, w) =
      (if out \<noteq> [] then sbind (output_event process_stream.Stdout out) (\<lambda>ev. sret (Yielded ev, GStdout js out err))
       else after_stdout mail_io js out err) (after_poll s m, settled w)"
    using request_step [OF assms(2) ask] d assms(3)
    by (simp add: exec_poll_def sbind_def sthen_def after_poll_def m_def out_def err_def)
  show ?thesis unfolding p by (simp add: sbind_def output_event_step)
qed

section \<open>Draining\<close>

definition delivers :: "nat \<Rightarrow> exec_gen \<Rightarrow> exec_session \<times> mail_world \<Rightarrow> process_event list \<Rightarrow> exec_session \<times> mail_world \<Rightarrow> bool" where
  "delivers n g st evs st' \<longleftrightarrow> exec_drain n mail_io g st = (Inr (Some evs), st')"

lemma next_step: "m st = (Inr x, st') \<Longrightarrow> closing_if_recording io m st = (Inr x, st')"
  by (simp add: closing_if_recording_def scatch_def)

lemma delivers_step:
  assumes "exec_next mail_io g st = (Inr (r, g'), st1)" "delivers n g' st1 evs st'" "r \<noteq> Stopped"
  shows "delivers (Suc n) g st ((case r of Yielded ev \<Rightarrow> [ev] | _ \<Rightarrow> []) @ evs) st'"
  using assms by (cases r) (simp_all add: delivers_def sbind_def)

lemma delivers_stop: "delivers (Suc n) GDone st [] st"
  by (simp add: delivers_def exec_next_def sbind_def next_step closing_if_recording_def scatch_def)

lemma delivers_more:
  assumes "delivers n g st evs st'" "n \<le> k"
  shows "delivers k g st evs st'"
  using assms
proof (induction n arbitrary: g st evs k)
  case 0
  then show ?case by (simp add: delivers_def)
next
  case (Suc n)
  then obtain k' where k: "k = Suc k'" "n \<le> k'" by (cases k) auto
  obtain res st1 where e: "exec_next mail_io g st = (res, st1)" by (metis surj_pair)
  show ?case
  proof (cases res)
    case (Inl x)
    with Suc.prems e show ?thesis by (simp add: delivers_def sbind_def)
  next
    case (Inr rg)
    obtain r g' where rg: "rg = (r, g')" by force
    show ?thesis
    proof (cases r)
      case Again
      with Suc.prems e Inr rg have "delivers n g' st1 evs st'" by (simp add: delivers_def sbind_def)
      with Suc.IH k have "delivers k' g' st1 evs st'" by blast
      with e Inr rg Again k show ?thesis by (simp add: delivers_def sbind_def)
    next
      case Stopped
      with Suc.prems e Inr rg k show ?thesis by (simp add: delivers_def sbind_def)
    next
      case (Yielded ev)
      with Suc.prems e Inr rg obtain evs' where "delivers n g' st1 evs' st'" "evs = ev # evs'"
        by (auto simp: delivers_def sbind_def split: prod.splits sum.splits)
      with Suc.IH k have "delivers k' g' st1 evs' st'" "evs = ev # evs'" by auto
      with e Inr rg Yielded k show ?thesis by (simp add: delivers_def sbind_def)
    qed
  qed
qed

text \<open>One reply: its chunks are yielded, then the tail of the loop runs.\<close>

lemma delivers_poll:
  assumes "job_linked s (mw_mail w) j" "usable s w" "mb_job_state (mw_mail (settled w)) = Some js"
  defines "m \<equiv> mw_mail (settled w)"
  defines "out \<equiv> chunk_at (xs_stdout s) (mb_stdout m)" and "err \<equiv> chunk_at (xs_stderr s) (mb_stderr m)"
  assumes tail: "exec_tail mail_io js out err (after_poll s m, settled w) = (Inr (r, g'), st1)" "r \<noteq> Stopped"
    and rest: "delivers n g' st1 evs st'"
  shows "delivers (n + 3) GPoll (s, w)
    (chunk_events process_stream.Stdout out @ chunk_events process_stream.Stderr err @
     (case r of Yielded ev \<Rightarrow> [ev] | _ \<Rightarrow> []) @ evs) st'"
proof -
  let ?t = "(case r of Yielded ev \<Rightarrow> [ev] | _ \<Rightarrow> []) @ evs"
  let ?st = "(after_poll s m, settled w)"
  note poll = exec_poll_step [OF assms(1-3), folded m_def, folded out_def err_def]
  have u: "check_usable mail_io ?st = (Inr (), ?st)" using assms(2) by (simp add: check_usable_def)
  have 1: "delivers (Suc n) g ?st ?t st'"
    if "exec_next mail_io g ?st = (Inr (r, g'), st1)" for g
    using delivers_step [OF that rest tail(2)] .
  have e: "exec_next mail_io (GStderr js out err) ?st = (Inr (r, g'), st1)"
    using u tail(1) by (simp add: exec_next_def next_step sthen_def sbind_def)
  have o: "delivers (Suc (Suc n)) (GStdout js out err) ?st (chunk_events process_stream.Stderr err @ ?t) st'"
  proof (cases "err = []")
    case True
    then have "exec_next mail_io (GStdout js out err) ?st = (Inr (r, g'), st1)"
      using u tail(1) by (simp add: exec_next_def next_step sthen_def sbind_def after_stdout_def)
    from delivers_more [OF 1 [OF this]] True show ?thesis by (simp add: chunk_events_def)
  next
    case False
    then have "exec_next mail_io (GStdout js out err) ?st = (Inr (Yielded (OutputEvent process_stream.Stderr err), GStderr js out err), ?st)"
      using u by (simp add: exec_next_def next_step sthen_def sbind_def after_stdout_def output_event_step)
    from delivers_step [OF this 1 [OF e]] False show ?thesis by (simp add: chunk_events_def)
  qed
  show ?thesis
  proof (cases "out = []")
    case False
    then have "exec_next mail_io GPoll (s, w) = (Inr (Yielded (OutputEvent process_stream.Stdout out), GStdout js out err), ?st)"
      using poll by (simp add: exec_next_def next_step)
    from delivers_step [OF this o] False show ?thesis by (simp add: chunk_events_def numeral_3_eq_3)
  next
    case True
    show ?thesis
    proof (cases "err = []")
      case e0: True
      have "exec_next mail_io GPoll (s, w) = (Inr (r, g'), st1)"
        using poll True e0 tail(1) by (simp add: exec_next_def next_step after_stdout_def)
      from delivers_step [OF this rest tail(2)] have "delivers (Suc n) GPoll (s, w) ?t st'" .
      from delivers_more [OF this] True e0 show ?thesis by (simp add: chunk_events_def)
    next
      case e0: False
      have "exec_next mail_io GPoll (s, w) = (Inr (Yielded (OutputEvent process_stream.Stderr err), GStderr js out err), ?st)"
        using poll True e0 by (simp add: exec_next_def next_step after_stdout_def sbind_def output_event_step)
      from delivers_step [OF this 1 [OF e]]
      have "delivers (Suc (Suc n)) GPoll (s, w) (OutputEvent process_stream.Stderr err # ?t) st'" by simp
      from delivers_more [OF this] True e0 show ?thesis by (simp add: chunk_events_def)
    qed
  qed
qed


section \<open>The end\<close>

lemma exit_of_valid:
  assumes "valid_terminal t"
  shows "\<exists>p. exit_of t = Inr p \<and> observed_terminal_ok p"
  using assms
  by (cases "t_exit t"; cases "t_signal t")
     (auto simp: valid_terminal_def exit_of_def process_exit_init_def process_exit_check_def num_eq_def jint_def
       observed_terminal_ok_def)

lemma validate_status_json:
  assumes "1 \<le> mb_next m" "mb_next m \<le> max_mail_sequence"
  shows "validate_exec_status (status_json m) = Inr (mb_state m, mb_next m, mb_job m \<noteq> None)"
proof -
  have "find (\<lambda>k. is_text (JStr (ul (mail_state_name (mb_state m)))) (mail_state_name k)) mail_states = Some (mb_state m)"
    by (cases "mb_state m") (simp_all add: mail_states_def is_text_def)
  with assms show ?thesis by (simp add: validate_exec_status_def status_json_def same_keys_def jget_def)
qed

lemma linked_completed:
  assumes "job_linked s m j" "mb_job_state m = Some XCompleted"
  shows "mb_last_ack m \<noteq> Some (xs_sequence s, xs_token s)" "1 \<le> mb_next m" "mb_next m < max_mail_sequence"
    "mb_next m = xs_sequence s" "length (mb_stdout m) + length (mb_stderr m) \<le> max_mail_output" "result_ok m"
proof -
  have i: "mail_inv m" and j: "mb_job m = Some j" and n: "ej_sequence j = xs_sequence s" using assms(1) by (simp_all add: job_linked_def)
  note d = i [unfolded mail_inv_def j]
  from d n show "1 \<le> mb_next m" "mb_next m < max_mail_sequence" "mb_next m = xs_sequence s"
    "length (mb_stdout m) + length (mb_stderr m) \<le> max_mail_output" "result_ok m" by simp_all
  with d show "mb_last_ack m \<noteq> Some (xs_sequence s, xs_token s)" by (cases "mb_last_ack m") auto
qed

lemma ask_acknowledge:
  assumes "job_linked s (mw_mail w) j" "mb_job_state (mw_mail w) = Some XCompleted"
  defines "m \<equiv> released (xs_sequence s, xs_token s) (mw_mail (settled w))"
  shows "ask OpAcknowledge (job_identity_items s) w = (Inr (status_json m), (settled w)\<lparr>mw_mail := m\<rparr>)"
proof -
  let ?m = "mw_mail (settled w)"
  note l = settled_linked [OF assms(1)]
  have c: "mb_job_state ?m = Some XCompleted"
    using settled_grows [OF assms(1)] assms(2) sealed_state(2) unfolding grows_def by metis
  have job: "mb_job ?m = Some j" "(ej_sequence j, ej_token j) = (xs_sequence s, xs_token s)" using l by (simp_all add: job_linked_def)
  have "mail_serve (request_of OpAcknowledge (job_identity_items s)) ?m = (Inr (status_json m), m)"
    using linked_identity [OF l] linked_completed(1) [OF l c] job c identity_fields [of s "[]"]
    by (simp add: request_of_def mail_acknowledge_def require_job_def mail_unfold mail_status_def m_def released_def)
  from ask_served [OF this] show ?thesis by simp
qed

lemma acknowledge_step:
  assumes "job_linked s (mw_mail w) j" "mb_job_state (mw_mail w) = Some XCompleted" "usable s w"
  shows "acknowledge_steps mail_io (s, w) =
    (Inr (), (s, (settled w)\<lparr>mw_mail := released (xs_sequence s, xs_token s) (mw_mail (settled w))\<rparr>))"
proof -
  let ?m = "released (xs_sequence s, xs_token s) (mw_mail (settled w))"
  note l = settled_linked [OF assms(1)]
  have c: "mb_job_state (mw_mail (settled w)) = Some XCompleted"
    using settled_grows [OF assms(1)] assms(2) sealed_state(2) unfolding grows_def by metis
  have n: "mb_next ?m = xs_sequence s + 1" using linked_completed(4) [OF l c] by (simp add: released_def)
  have "validate_exec_status (status_json ?m) = Inr (mb_state ?m, mb_next ?m, mb_job ?m \<noteq> None)"
    by (rule validate_status_json) (use linked_completed(2-4) [OF l c] n in simp_all)
  with request_step [OF assms(3) ask_acknowledge [OF assms(1,2)]] n show ?thesis
    by (simp add: acknowledge_steps_def sbind_def)
qed

lemma exec_close_step:
  "exec_close mail_io (s, w) = (Inr (), (s\<lparr>xs_closed := True, xs_client := False, xs_writer := False\<rparr>, w))"
proof -
  have "(s\<lparr>xs_closed := True, xs_client := False\<rparr>) = s\<lparr>xs_closed := True\<rparr>" if "\<not> xs_client s"
    using that by (cases s) simp
  moreover have "(t\<lparr>xs_writer := False\<rparr>) = t" if "\<not> xs_writer t" for t :: exec_session
    using that by (cases t) simp
  ultimately show ?thesis by (auto simp: exec_close_def sbind_def sthen_def)
qed

lemma finish_step:
  assumes "job_linked s (mw_mail w) j" "usable s w" "mb_job_state (mw_mail w) = Some XCompleted"
    and "xs_terminal s = Some (evidence (mw_mail w))" "mb_terminal (mw_mail w) = Some t"
    and "mb_reason (mw_mail w) = Some (ul ''completed'')" "exit_of t = Inr p"
  shows "\<exists>s' w'. exec_finish mail_io (s, w) = (Inr (Yielded (StatusEvent p), GDone), (s', w')) \<and>
    xs_result s' = Some p \<and> xs_closed s' \<and> mb_job (mw_mail w') = None \<and> mb_next (mw_mail w') = xs_sequence s + 1"
proof -
  let ?m = "mw_mail w" and ?w = "(settled w)\<lparr>mw_mail := released (xs_sequence s, xs_token s) (mw_mail (settled w))\<rparr>"
  note lc = linked_completed [OF assms(1,3)]
  have "valid_terminal t" using lc(6) assms(3,5) by (simp add: result_ok_def)
  then have "observed_terminal_ok p" using exit_of_valid assms(7) by fastforce
  then obtain ob where ob: "observation_init (Some p) (ul ''completed'') (int (length (mb_stdout ?m)))
      (int (length (mb_stderr ?m))) (ul ''unconfirmed'') = Inr ob" "ob_ack ob = ul ''unconfirmed''"
    using lc(5) by (simp add: observation_init_def completion_reasons_def)
  let ?s = "s\<lparr>xs_observed := Some ob\<rparr>"
  have 1: "observe_completion (s, w) = (Inr (Some p, ul ''completed''), (?s, w))"
    using assms(4-7) ob(1) by (simp add: observe_completion_def sbind_def sthen_def evidence_def as_exec_def)
  have 2: "record_stage mail_io st (io_observed mail_io) (x, y) = (Inr (), (x, y))"
    "record_stage mail_io st (io_confirmed mail_io) (x, y) = (Inr (), (x, y))" if "xs_observed x \<noteq> None" for st x y
    using that by (auto simp: record_stage_def sbind_def scatch_def on_io_def)
  have l: "job_linked ?s ?m j" "usable ?s w" using assms(1,2) by (simp_all add: job_linked_def usable_def)
  have 3: "acknowledge_completion mail_io (?s, w) = (Inr (), (?s\<lparr>xs_observed := Some (ob\<lparr>ob_ack := ul ''confirmed''\<rparr>)\<rparr>, ?w))"
    using acknowledge_step [OF l(1) assms(3) l(2)]
    by (simp add: acknowledge_completion_def sbind_def sthen_def scatch_def)
  have u: "check_usable mail_io (s, w) = (Inr (), (s, w))" using assms(2) by (simp add: check_usable_def)
  have n: "mb_next (mw_mail (settled w)) = xs_sequence s"
    using settled_grows [OF assms(1)] lc(4) by (simp add: grows_def)
  show ?thesis using u 1 2 3 exec_close_step n
    by (simp add: exec_finish_def sbind_def sthen_def released_def)
qed


section \<open>The whole exchange\<close>

text \<open>The mailbox when the worker has made all its calls.\<close>

definition final_mail :: "mail_world \<Rightarrow> mailbox" where
  "final_mail w = fold (\<lambda>(cs, v) m. snd (refresh v (work_all cs m))) (mw_env w) (mw_mail w)"

definition stream_bytes :: "process_stream \<Rightarrow> process_event list \<Rightarrow> bytes" where
  "stream_bytes st evs = concat (map (\<lambda>ev. case ev of OutputEvent s b \<Rightarrow> if s = st then b else [] | _ \<Rightarrow> []) evs)"

lemma stream_bytes_simps [simp]:
  "stream_bytes st [] = []" "stream_bytes st (xs @ ys) = stream_bytes st xs @ stream_bytes st ys"
  "stream_bytes st [StatusEvent p] = []"
  "stream_bytes st (chunk_events s b) = (if s = st then b else [])"
  by (simp_all add: stream_bytes_def chunk_events_def)

lemma sealed_fields:
  assumes "sealed a = sealed b"
  shows "mb_stdout a = mb_stdout b" "mb_stderr a = mb_stderr b" "mb_job_state a = mb_job_state b"
    "mb_terminal a = mb_terminal b" "mb_reason a = mb_reason b"
  using assms by (cases a; cases b; simp add: sealed_def)+

lemma final_settled: "mw_env w \<noteq> [] \<Longrightarrow> final_mail (settled w) = final_mail w"
  by (cases "mw_env w") (auto simp: final_mail_def settled_def next_turn_def Let_def)

lemma final_grows:
  assumes "job_linked s (mw_mail w) j"
  shows "grows (mw_mail w) (final_mail w)"
  using assms
proof (induction "mw_env w" arbitrary: w)
  case Nil
  then show ?case by (simp add: final_mail_def grows_refl)
next
  case (Cons e env)
  then have "grows (mw_mail (settled w)) (final_mail (settled w))"
    by (metis list.sel(3) settled_fields(2) settled_linked)
  moreover have "final_mail (settled w) = final_mail w" using Cons.hyps(2) by (metis final_settled list.distinct(1))
  ultimately show ?case using grows_trans settled_grows [OF Cons.prems] by metis
qed

lemma final_settled_sealed:
  assumes "job_linked s (mw_mail w) j" "mb_job_state (final_mail w) = Some XCompleted"
  shows "sealed (final_mail (settled w)) = sealed (final_mail w)"
proof (cases "mw_env w")
  case Nil
  then have f: "final_mail w = mw_mail w" "final_mail (settled w) = mw_mail (settled w)" by (simp_all add: final_mail_def)
  show ?thesis unfolding f using settled_grows [OF assms(1)] assms(2) f by (simp add: grows_def)
qed (simp add: final_settled)

definition chunks_left :: "bytes \<Rightarrow> nat \<Rightarrow> nat" where
  "chunks_left b n = (length b - n + (max_mail_chunk - 1)) div max_mail_chunk"

lemma chunks_left_mono: "n \<le> k \<Longrightarrow> chunks_left b k \<le> chunks_left b n"
  by (auto simp: chunks_left_def intro: div_le_mono)

lemma chunks_left_step: "n < length b \<Longrightarrow> chunks_left b (n + length (chunk_at n b)) < chunks_left b n"
  by (auto simp: chunks_left_def chunk_at_def max_mail_chunk_def min_def)

definition turns_left :: "exec_session \<Rightarrow> mail_world \<Rightarrow> nat" where
  "turns_left s w = length (mw_env w) + chunks_left (mb_stdout (final_mail w)) (xs_stdout s) +
     chunks_left (mb_stderr (final_mail w)) (xs_stderr s)"

lemma chunk_prefix: "n \<le> length b \<Longrightarrow> chunk_at n b @ drop (n + length (chunk_at n b)) (b @ c) = drop n (b @ c)"
proof -
  assume n: "n \<le> length b"
  have "chunk_at n b = take (length (chunk_at n b)) (drop n (b @ c))" using n by (auto simp: chunk_at_def min_def)
  then show ?thesis by (metis append_take_drop_id add.commute drop_drop)
qed

definition exchange_done :: "exec_session \<Rightarrow> mailbox \<Rightarrow> process_exit \<Rightarrow> process_event list \<Rightarrow> exec_session \<times> mail_world \<Rightarrow> bool" where
  "exchange_done s F p evs st \<longleftrightarrow>
     stream_bytes process_stream.Stdout evs = drop (xs_stdout s) (mb_stdout F) \<and>
     stream_bytes process_stream.Stderr evs = drop (xs_stderr s) (mb_stderr F) \<and>
     last evs = StatusEvent p \<and> evs \<noteq> [] \<and> xs_result (fst st) = Some p \<and> xs_closed (fst st) \<and>
     mb_job (mw_mail (snd st)) = None \<and> mb_next (mw_mail (snd st)) = xs_sequence s + 1"

lemma exchange_completes:
  assumes "job_linked s (mw_mail w) j" "usable s w"
    and "mb_job_state (final_mail w) = Some XCompleted" "mb_terminal (final_mail w) = Some t"
    and "mb_reason (final_mail w) = Some (ul ''completed'')" "exit_of t = Inr p"
  shows "\<exists>evs st. delivers (3 * turns_left s w + 4) GPoll (s, w) evs st \<and> exchange_done s (final_mail w) p evs st"
  using assms
proof (induction "turns_left s w" arbitrary: s w rule: less_induct)
  case less
  let ?m = "mw_mail (settled w)" and ?F = "final_mail w"
  note l = settled_linked [OF less.prems(1)]
  obtain js where js: "mb_job_state ?m = Some js" using linked_job [OF l] by blast
  let ?s = "after_poll s ?m"
  define out where "out = chunk_at (xs_stdout s) (mb_stdout ?m)"
  define err where "err = chunk_at (xs_stderr s) (mb_stderr ?m)"
  have l1: "job_linked ?s (mw_mail (settled w)) j" "usable ?s (settled w)"
    using linked_after_poll [OF l] less.prems(2) by simp_all
  note seal = final_settled_sealed [OF less.prems(1,3)]
  have F': "mb_stdout (final_mail (settled w)) = mb_stdout ?F" "mb_stderr (final_mail (settled w)) = mb_stderr ?F"
    "mb_job_state (final_mail (settled w)) = Some XCompleted" "mb_terminal (final_mail (settled w)) = Some t"
    "mb_reason (final_mail (settled w)) = Some (ul ''completed'')"
    using sealed_fields [OF seal] less.prems(3-5) by simp_all
  note g = final_grows [OF l1(1)]
  have lost: "js \<noteq> XLost" using g F'(3) js by (auto simp: grows_def)
  obtain c d where cd: "mb_stdout ?F = mb_stdout ?m @ c" "mb_stderr ?F = mb_stderr ?m @ d"
    using g F'(1,2) by (auto simp: grows_def)
  have le: "xs_stdout s \<le> length (mb_stdout ?m)" "xs_stderr s \<le> length (mb_stderr ?m)" using l by (simp_all add: job_linked_def)
  have pre: "out @ drop (xs_stdout ?s) (mb_stdout ?F) = drop (xs_stdout s) (mb_stdout ?F)"
    "err @ drop (xs_stderr ?s) (mb_stderr ?F) = drop (xs_stderr s) (mb_stderr ?F)"
    using chunk_prefix [OF le(1)] chunk_prefix [OF le(2)] cd by (simp_all add: after_poll_def out_def err_def)
  have seq: "xs_sequence ?s = xs_sequence s" by (simp add: after_poll_def)
  note step = delivers_poll [OF less.prems(1,2) js, folded out_def err_def]
  show ?case
  proof (cases "js = XCompleted \<and> (xs_stdout ?s, xs_stderr ?s) = xs_sizes ?s")
    case True
    then have done_: "mb_job_state ?m = Some XCompleted" "xs_stdout ?s = length (mb_stdout ?m)" "xs_stderr ?s = length (mb_stderr ?m)"
      using js by (auto simp: after_poll_def)
    then have sF: "sealed (final_mail (settled w)) = sealed ?m" using g by (simp add: grows_def)
    note m = sealed_fields [OF sF, unfolded F', symmetric]
    have t: "xs_terminal ?s = Some (evidence ?m)" using True js by (simp add: after_poll_def)
    obtain s' w' where f: "exec_finish mail_io (?s, settled w) = (Inr (Yielded (StatusEvent p), GDone), (s', w'))"
      "xs_result s' = Some p \<and> xs_closed s' \<and> mb_job (mw_mail w') = None \<and> mb_next (mw_mail w') = xs_sequence ?s + 1"
      using finish_step [OF l1 done_(1) t m(4,5) less.prems(6)] by blast
    have "exec_tail mail_io js out err (?s, settled w) = (Inr (Yielded (StatusEvent p), GDone), (s', w'))"
      using f(1) lost True t by (simp add: exec_tail_def sbind_def evidence_def)
    from step [OF this _ delivers_stop [of 0]]
    have "delivers 4 GPoll (s, w) (chunk_events process_stream.Stdout out @ chunk_events process_stream.Stderr err @
        [StatusEvent p]) (s', w')" by simp
    then have "delivers (3 * turns_left s w + 4) GPoll (s, w) (chunk_events process_stream.Stdout out @
        chunk_events process_stream.Stderr err @ [StatusEvent p]) (s', w')" by (rule delivers_more) simp
    moreover have "exchange_done s ?F p (chunk_events process_stream.Stdout out @ chunk_events process_stream.Stderr err @
        [StatusEvent p]) (s', w')"
      using f(2) pre done_ m(1,2) seq by (simp add: exchange_done_def)
    ultimately show ?thesis by blast
  next
    case False
    have "xs_terminal ?s = None \<or> (xs_stdout ?s, xs_stderr ?s) \<noteq> xs_sizes ?s"
      using False l1(1) js by (auto simp: job_linked_def)
    then have tail: "exec_tail mail_io js out err (?s, settled w) = (Inr (Again, GPoll), (?s, settled w))"
      using lost by (auto simp: exec_tail_def sbind_def sthen_def on_io_def)
    have le': "chunks_left (mb_stdout ?F) (xs_stdout ?s) \<le> chunks_left (mb_stdout ?F) (xs_stdout s)"
      "chunks_left (mb_stderr ?F) (xs_stderr ?s) \<le> chunks_left (mb_stderr ?F) (xs_stderr s)"
      by (auto intro!: chunks_left_mono simp: after_poll_def)
    have less_turns: "turns_left ?s (settled w) < turns_left s w"
    proof (cases "mw_env w")
      case (Cons e env)
      then show ?thesis using le' F'(1,2) by (simp add: turns_left_def)
    next
      case Nil
      then have f: "final_mail w = mw_mail w" by (simp add: final_mail_def)
      then have m: "sealed ?m = sealed ?F" using settled_grows [OF less.prems(1)] less.prems(3) by (simp add: grows_def)
      note mf = sealed_fields [OF m]
      have "js = XCompleted" using mf(3) js less.prems(3) by simp
      with False have "(xs_stdout ?s, xs_stderr ?s) \<noteq> (length (mb_stdout ?m), length (mb_stderr ?m))"
        by (simp add: after_poll_def)
      then have "xs_stdout s < length (mb_stdout ?m) \<or> xs_stderr s < length (mb_stderr ?m)"
        using le by (auto simp: after_poll_def chunk_at_def)
      then show ?thesis
        using chunks_left_step [of "xs_stdout s" "mb_stdout ?m"] chunks_left_step [of "xs_stderr s" "mb_stderr ?m"] le' mf(1,2) F'(1,2) Nil
        by (auto simp: turns_left_def after_poll_def)
    qed
    obtain evs st where ih: "delivers (3 * turns_left ?s (settled w) + 4) GPoll (?s, settled w) evs st"
      "exchange_done ?s (final_mail (settled w)) p evs st"
      using less.hyps [OF less_turns l1 F'(3-5) less.prems(6)] by blast
    from step [OF tail _ ih(1)]
    have "delivers (3 * turns_left ?s (settled w) + 7) GPoll (s, w)
      (chunk_events process_stream.Stdout out @ chunk_events process_stream.Stderr err @ evs) st" by (simp add: add.commute)
    then have "delivers (3 * turns_left s w + 4) GPoll (s, w)
      (chunk_events process_stream.Stdout out @ chunk_events process_stream.Stderr err @ evs) st"
      by (rule delivers_more) (use less_turns in simp)
    moreover have "exchange_done s ?F p (chunk_events process_stream.Stdout out @ chunk_events process_stream.Stderr err @ evs) st"
      using ih(2) pre seq F'(1,2) by (simp add: exchange_done_def)
    ultimately show ?thesis by blast
  qed
qed

end
