(* ===== verification/Exec_Props.thy ===== *)
theory Exec_Props imports Main Exec_Exchange begin

text \<open>
  Opening an exec session against the mailbox, and the end-to-end theorem of the guest exec
  path: session, dispatch, mailbox and worker.
\<close>

section \<open>Opening\<close>

lemma on_ready_inv: "mail_inv m \<Longrightarrow> mail_inv (snd (mail_mark_ready m))"
  using work_inv [of WReady m "Inr None" "snd (mail_mark_ready m)"] by (simp add: no_job_def sthen_def sbind_def mark_ready_effect)

lemma settled_inv: "mail_inv (mw_mail w) \<Longrightarrow> mail_inv (mw_mail (settled w))"
proof -
  assume i: "mail_inv (mw_mail w)"
  then have "mail_inv (mw_mail (next_turn w))" by (auto simp: next_turn_def work_all_inv split: list.splits)
  moreover obtain cs where "refresh (mw_view (next_turn w)) (mw_mail (next_turn w)) = (Inr (), work_all cs (mw_mail (next_turn w)))"
    by (rule refresh_work) blast
  ultimately show ?thesis by (simp add: settled_def Let_def work_all_inv)
qed

text \<open>What a request that returned has done.\<close>

lemma ask_inversion:
  assumes "ask op p w = (Inr v, w')"
  obtains m where "w' = (settled w)\<lparr>mw_mail := m\<rparr>" "op \<noteq> OpSubmit" "mail_serve (request_of op p) (mw_mail (settled w)) = (Inr v, m)"
  | m where "w' = (settled w)\<lparr>mw_mail := m\<rparr>" "op = OpSubmit"
      "mail_serve (request_of op p) (snd (mail_mark_ready (mw_mail (settled w)))) = (Inr v, m)"
proof -
  let ?w = "next_turn w"
  obtain m where m: "exec_reply (Some (mw_view ?w)) op p (mw_mail ?w) = (Inr (v, JNull), m)" "w' = ?w\<lparr>mw_mail := m\<rparr>"
    using assms by (auto simp: ask_def Let_def split: prod.splits sum.splits json.splits)
  then have s: "serve_exec (Some (mw_view ?w)) op p (mw_mail ?w) = (Inr v, m)"
  proof -
    have "(case e of Refused c \<Rightarrow> sret (JNull, JStr (ul c)) | _ \<Rightarrow> sraise e) t \<noteq> (Inr (v, JNull), m)" for e t
      by (cases e) auto
    with m(1) show ?thesis unfolding exec_reply_def scatch_Inr sbind_Inr by auto
  qed
  have r: "refresh (mw_view ?w) (mw_mail ?w) = (Inr (), mw_mail (settled w))"
    by (rule refresh_work [of "mw_view ?w"]) (simp add: settled_def Let_def)
  have w: "w' = (settled w)\<lparr>mw_mail := m\<rparr>" using m(2) by (simp add: settled_def Let_def)
  show ?thesis
  proof (cases "op = OpSubmit")
    case True
    with s r have "mail_serve (request_of op p) (snd (mail_mark_ready (mw_mail (settled w)))) = (Inr v, m)"
      by (auto simp: serve_exec_def sthen_def sbind_def mark_ready_effect split: if_splits)
    with that(2) w True show ?thesis by blast
  next
    case False
    with s r have "mail_serve (request_of op p) (mw_mail (settled w)) = (Inr v, m)"
      by (auto simp: serve_exec_def sthen_def sbind_def)
    with that(1) w False show ?thesis by blast
  qed
qed

lemma ask_inv: "ask op p w = (Inr v, w') \<Longrightarrow> mail_inv (mw_mail w) \<Longrightarrow> mail_inv (mw_mail w') \<and> mw_pid w' = mw_pid w"
  by (erule ask_inversion) (auto intro: serve_inv settled_inv on_ready_inv)

lemma request_inversion:
  "exec_request mail_io op p (s, w) = (Inr v, st) \<Longrightarrow> usable s w \<and> (\<exists>w'. st = (s, w') \<and> ask op p w = (Inr v, w'))"
  by (auto simp: exec_request_def sthen_def sbind_def check_usable_def on_io_def split: if_splits prod.splits)

lemma submit_linked:
  assumes "ask OpSubmit (job_identity_items s @ r) w = (Inr v, w')" "mail_inv (mw_mail w)"
    and "xs_stdout s = 0" "xs_stderr s = 0" "xs_sizes s = (0, 0)" "xs_phase s = 0" "xs_terminal s = None"
  shows "\<exists>j js. job_linked s (mw_mail w') j \<and> mb_job_state (mw_mail w') = Some js \<and> v = JObj (poll_items j js 0 0 (mw_mail w'))"
  using assms(1)
proof (cases rule: ask_inversion)
  case (2 m)
  let ?p = "job_identity_items s @ r" and ?m = "snd (mail_mark_ready (mw_mail (settled w)))"
  have inv: "mail_inv m" using ask_inv [OF assms(1,2)] 2 by simp
  have e: "mail_submit (JInt (xs_sequence s)) (JStr (xs_token s)) (jget ?p ''argv'') (jget ?p ''timeout_ms'') ?m = (Inr v, m)"
    using 2(3) by (simp add: request_of_def identity_fields)
  have job: "\<exists>j. mb_job m = Some j \<and> ej_sequence j = xs_sequence s \<and> ej_token j = xs_token s \<and> Inr v = fst (poll_job (JInt 0) (JInt 0) m)"
    using e
  proof (cases rule: submit_effect)
    case (again j)
    then show ?thesis by (auto simp: accepted_def dest!: exec_identity_Inr)
  next
    case (new j)
    then show ?thesis by (auto simp: accepted_def enqueue_def dest!: exec_identity_Inr)
  qed simp
  then obtain j where j: "mb_job m = Some j" "ej_sequence j = xs_sequence s" "ej_token j = xs_token s"
    "Inr v = fst (poll_job (JInt 0) (JInt 0) m)" by blast
  obtain js where js: "mb_job_state m = Some js" using inv j(1) unfolding mail_inv_def by fastforce
  have "job_linked s m j" using inv j assms(3-7) by (simp add: job_linked_def)
  moreover have "v = JObj (poll_items j js 0 0 m)"
    using j(1,4) js by (simp add: poll_job_def mail_unfold valid_offset_def)
  ultimately show ?thesis using 2(1) js by auto
qed simp


lemma session_new_fields:
  "xs_stdout (exec_session_new pid rec) = 0" "xs_stderr (exec_session_new pid rec) = 0"
  "xs_sizes (exec_session_new pid rec) = (0, 0)" "xs_phase (exec_session_new pid rec) = 0"
  "xs_terminal (exec_session_new pid rec) = None" "xs_pid (exec_session_new pid rec) = pid"
  "\<not> xs_closed (exec_session_new pid rec)"
  by (simp_all add: exec_session_new_def)

lemma open_linked:
  assumes "exec_open mail_io argv timeout_ms token (exec_session_new (mw_pid w) rec, w) = (Inr (), (s, w'))"
    and "mail_inv (mw_mail w)"
  shows "\<exists>j. job_linked s (mw_mail w') j \<and> usable s w' \<and> xs_token s = token \<and> xs_stdout s = 0 \<and> xs_stderr s = 0"
proof -
  let ?new = "exec_session_new (mw_pid w) rec"
  let ?s1 = "?new\<lparr>xs_token := token, xs_client := True\<rparr>"
  have steps: "exec_open_steps mail_io argv timeout_ms token (?new, w) = (Inr (), (s, w'))"
    using assms(1) by (auto simp: exec_open_def sx_results exec_close_step)
  have conn: "io_connect mail_io = sret ()" by (simp add: mail_io_def)
  from steps obtain args ms status st1 n reply st2 x where
    1: "exec_request mail_io OpStatus [] (?s1, w) = (Inr status, st1)" and
    2: "exec_request mail_io OpSubmit (job_identity_items (fst st1\<lparr>xs_sequence := n\<rparr>) @
         [(ul ''argv'', JArr (map JStr args)), (ul ''timeout_ms'', JInt ms)]) (fst st1\<lparr>xs_sequence := n\<rparr>, snd st1) = (Inr reply, st2)" and
    3: "exec_decode reply st2 = (Inr x, (s, w'))"
    by (auto simp: exec_open_steps_def sx_results on_io_def conn split: prod.splits sum.splits)
  obtain w1 where w1: "st1 = (?s1, w1)" "ask OpStatus [] w = (Inr status, w1)" using request_inversion [OF 1] by blast
  let ?s2 = "?s1\<lparr>xs_sequence := n\<rparr>"
  note 2 = 2 [unfolded w1(1) fst_conv snd_conv]
  obtain w2 where w2: "st2 = (?s2, w2)" "usable ?s2 w1" and
    a2: "ask OpSubmit (job_identity_items ?s2 @ [(ul ''argv'', JArr (map JStr args)), (ul ''timeout_ms'', JInt ms)]) w1 = (Inr reply, w2)"
    using request_inversion [OF 2] by blast
  have i1: "mail_inv (mw_mail w1)" using ask_inv [OF w1(2) assms(2)] by simp
  obtain j js where j: "job_linked ?s2 (mw_mail w2) j" "mb_job_state (mw_mail w2) = Some js"
    "reply = JObj (poll_items j js 0 0 (mw_mail w2))"
    using submit_linked [OF a2 i1] by (auto simp: session_new_fields)
  have dec: "decode_checked ?s2 reply = Inr (js, (length (mb_stdout (mw_mail w2)), chunk_at 0 (mb_stdout (mw_mail w2))),
      (length (mb_stderr (mw_mail w2)), chunk_at 0 (mb_stderr (mw_mail w2))), if js = XCompleted then Some (evidence (mw_mail w2)) else None)"
    using decode_poll [OF j(1,2)] j(3) by (simp add: session_new_fields)
  have s: "s = ?s2\<lparr>xs_terminal := (if js = XCompleted then Some (evidence (mw_mail w2)) else None), xs_phase := phase_number js,
      xs_sizes := (length (mb_stdout (mw_mail w2)), length (mb_stderr (mw_mail w2)))\<rparr>" "w' = w2"
    using 3 dec w2(1) by (auto simp: exec_decode_def sbind_def sthen_def)
  have "mw_pid w2 = mw_pid w" using ask_inv [OF w1(2) assms(2)] ask_inv [OF a2 i1] by simp
  then have "usable s w'" by (simp add: s usable_def session_new_fields)
  moreover have "job_linked s (mw_mail w') j" using j(1,2) by (simp add: s job_linked_def session_new_fields)
  ultimately show ?thesis by (auto simp: s session_new_fields)
qed

lemma final_inv: "mail_inv (mw_mail w) \<Longrightarrow> mail_inv (final_mail w)"
proof (induction "mw_env w" arbitrary: w)
  case Nil
  then show ?case by (simp add: final_mail_def)
next
  case (Cons e env)
  have "mw_env (settled w) = env" using Cons.hyps(2) by (metis list.sel(3) settled_fields(2))
  then have "mail_inv (final_mail (settled w))" using Cons settled_inv by blast
  moreover have "final_mail (settled w) = final_mail w" using Cons.hyps(2) by (metis final_settled list.distinct(1))
  ultimately show ?case by simp
qed

section \<open>End to end\<close>

text \<open>C28. What a guest command writes is what its client reads. Open a session on any mailbox that client
  requests and worker calls can lead to, and let the worker make any calls between the session's requests. If
  they complete the job normally, then iterating the session's events at most \<open>3 * turns_left + 4\<close> times ends
  with the status event of the job's terminal status, after output events that together are exactly the bytes
  the worker appended to each stream; and the acknowledged mailbox is free for the next sequence number.\<close>

theorem exec_output_delivered:
  assumes "mail_run mail_new js (mw_mail w)"
    and "exec_open mail_io argv timeout_ms token (exec_session_new (mw_pid w) rec, w) = (Inr (), (s, w'))"
    and "mb_job_state (final_mail w') = Some XCompleted" "mb_terminal (final_mail w') = Some t"
    and "mb_reason (final_mail w') = Some (ul ''completed'')"
  shows "\<exists>evs p s1 w1. exec_drain (3 * turns_left s w' + 4) mail_io GPoll (s, w') = (Inr (Some evs), (s1, w1)) \<and>
    stream_bytes process_stream.Stdout evs = mb_stdout (final_mail w') \<and>
    stream_bytes process_stream.Stderr evs = mb_stderr (final_mail w') \<and>
    exit_of t = Inr p \<and> evs \<noteq> [] \<and> last evs = StatusEvent p \<and> xs_result s1 = Some p \<and>
    mb_job (mw_mail w1) = None \<and> mb_next (mw_mail w1) = xs_sequence s + 1"
proof -
  have "mail_inv (mw_mail w)" using handed_out_run [OF assms(1)] by (simp add: handed_out_def)
  then obtain j where j: "job_linked s (mw_mail w') j" "usable s w'" "xs_stdout s = 0" "xs_stderr s = 0"
    using open_linked [OF assms(2)] by blast
  have "mail_inv (final_mail w')" using j(1) by (simp add: job_linked_def final_inv)
  then have "result_ok (final_mail w')" by (simp add: mail_inv_def)
  then have "valid_terminal t" using assms(3,4) by (simp add: result_ok_def)
  then obtain p where p: "exit_of t = Inr p" using exit_of_valid by blast
  obtain evs st where "delivers (3 * turns_left s w' + 4) GPoll (s, w') evs st" "exchange_done s (final_mail w') p evs st"
    using exchange_completes [OF j(1,2) assms(3-5) p] by blast
  with p j(3,4) show ?thesis unfolding delivers_def exchange_done_def by (cases st) auto
qed


section \<open>A sample exchange\<close>

lemma submit_fresh:
  assumes "accepted s t argv ms job" "ej_sequence job = mb_next m" "mb_job m = None" "mb_state m = MReady" "mb_next m \<noteq> max_mail_sequence"
  shows "mail_submit s t argv ms m = (Inr (JObj (poll_items job XQueued 0 0 (enqueue job m))), enqueue job m)"
  using assms unfolding accepted_def
  by (cases job) (simp add: mail_submit_def mail_unfold Let_def enqueue_def poll_job_def valid_offset_def)

lemma open_gives:
  assumes "validate_exec_request argv timeout_ms = Inr (args, ms)"
    and "accepted (JInt n) (JStr token) (JArr (map JStr args)) (JInt ms) job"
    and "mw_mail (settled w) = m" "mw_mail (settled (settled w)) = m" "mail_inv m" "mb_state m = MReady" "mb_job m = None"
    and "mb_next m = n" "n \<noteq> max_mail_sequence" "worker_ready (mw_view (next_turn (settled w)))" "\<not> wv_failed (mw_view (next_turn (settled w)))"
  shows "\<exists>s. exec_open mail_io argv timeout_ms token (exec_session_new (mw_pid w) rec, w) =
    (Inr (), (s, (settled (settled w))\<lparr>mw_mail := enqueue job m\<rparr>))"
proof -
  let ?new = "exec_session_new (mw_pid w) rec" and ?m = "enqueue job m" and ?w2 = "(settled (settled w))\<lparr>mw_mail := enqueue job m\<rparr>"
  let ?s1 = "?new\<lparr>xs_token := token, xs_client := True\<rparr>"
  let ?s2 = "?s1\<lparr>xs_sequence := n\<rparr>"
  have id: "ej_sequence job = n" "ej_token job = token" using assms(2) by (auto simp: accepted_def dest!: exec_identity_Inr)
  have rng: "1 \<le> n" "n \<le> max_mail_sequence" using assms(2) by (auto simp: accepted_def dest!: exec_identity_Inr)
  have w: "(settled w)\<lparr>mw_mail := m\<rparr> = settled w" using assms(3) by auto
  have "ask OpStatus [] w = (Inr (status_json m), settled w)"
    using ask_served [of OpStatus "[]" w "status_json m" m] assms(3) w by (simp add: request_of_def mail_status_def)
  then have 1: "exec_request mail_io OpStatus [] (?s1, w) = (Inr (status_json m), (?s1, settled w))"
    by (intro request_step) (simp_all add: usable_def session_new_fields)
  have st: "validate_exec_status (status_json m) = Inr (MReady, n, False)"
    using validate_status_json [of m] assms(6-8) rng by simp
  let ?p = "job_identity_items ?s2 @ [(ul ''argv'', JArr (map JStr args)), (ul ''timeout_ms'', JInt ms)]"
  let ?v = "JObj (poll_items job XQueued 0 0 ?m)"
  have f: "jget ?p ''argv'' = JArr (map JStr args)" "jget ?p ''timeout_ms'' = JInt ms"
    by (simp_all add: jget_def job_identity_items_def)
  have sub: "mail_serve (request_of OpSubmit ?p) m = (Inr ?v, ?m)"
    using submit_fresh [OF assms(2), of m] id assms(6-9) identity_fields(1) [of ?s2] identity_fields(2) [of ?s2]
    by (simp add: request_of_def f)
  have ref: "refresh (mw_view (next_turn (settled w))) (mw_mail (next_turn (settled w))) = (Inr (), m)"
    by (rule refresh_work [of "mw_view (next_turn (settled w))"]) (use assms(4) in \<open>simp add: settled_def [of "settled w"] Let_def\<close>)
  have "serve_exec (Some (mw_view (next_turn (settled w)))) OpSubmit ?p (mw_mail (next_turn (settled w))) = (Inr ?v, ?m)"
    using ref sub assms(6,10,11) by (simp add: serve_exec_def sthen_def sbind_def mark_ready_effect)
  then have "ask OpSubmit ?p (settled w) = (Inr ?v, ?w2)"
    by (simp add: ask_def Let_def exec_reply_def scatch_def sbind_def settled_def [of "settled w"])
  then have 2: "exec_request mail_io OpSubmit ?p (?s2, settled w) = (Inr ?v, (?s2, ?w2))"
    by (intro request_step) (simp_all add: usable_def session_new_fields)
  have "mail_inv ?m" using submit_inv [OF submit_fresh [OF assms(2), of m]] id assms(5-9) by simp
  then have "job_linked ?s2 ?m job" by (simp add: job_linked_def enqueue_def id session_new_fields)
  from decode_poll [OF this, of XQueued] have "decode_checked ?s2 ?v = Inr (XQueued, (length (mb_stdout ?m), chunk_at 0 (mb_stdout ?m)),
      (length (mb_stderr ?m), chunk_at 0 (mb_stderr ?m)), None)" by (simp add: session_new_fields enqueue_def)
  then have 3: "\<exists>x s. exec_decode ?v (?s2, ?w2) = (Inr x, (s, ?w2))" by (simp add: exec_decode_def sbind_def sthen_def)
  have "\<exists>s. exec_open_steps mail_io argv timeout_ms token (?new, w) = (Inr (), (s, ?w2))"
    using 1 st 2 3 assms(1) by (auto simp: exec_open_steps_def sbind_def sthen_def on_io_def mail_io_def [THEN arg_cong, of io_connect] require_mail_ready_def)
  then show ?thesis by (auto simp: exec_open_def scatch_def)
qed

definition ready_view :: worker_view where
  "ready_view = \<lparr>wv_failed = False, wv_done = False, wv_stopping = False, wv_phase = ''ready''\<rparr>"

definition sample_work :: "worker_call list" where
  "sample_work =
     [WTake, WAppend (Some (sample_job 1 token1)) (JStr (ul ''stdout'')) (JInt 0) (Some [104, 105]),
      WComplete (Some (sample_job 1 token1)) (JObj [(ul ''exit_code'', JInt 0), (ul ''signal'', JNull)]) (JInt 2) (JInt 0)
        (JStr (ul ''completed''))]"

definition sample_mail_world :: mail_world where
  "sample_mail_world = \<lparr>mw_mail = mail_new, mw_view = ready_view,
     mw_env = [([], ready_view), ([], ready_view), (sample_work, ready_view)], mw_pid = 7\<rparr>"

lemma sample_work_end: "work_all sample_work (enqueue (sample_job 1 token1) (mail_new\<lparr>mb_state := MReady\<rparr>)) = sample_mail_end"
  by (simp add: work_all_def sample_work_def take_effect enqueue_def no_job_def mail_unfold mail_append_output_def text_in_def
      is_text_def mail_new_def max_mail_chunk_def max_mail_output_def Let_def mail_complete_def completion_reasons_def
      completion_terminal_def same_keys_def jget_def text_of_def sample_mail_end_def)

lemma ready_refresh: "mb_state m = MReady \<Longrightarrow> refresh ready_view m = (Inr (), m)"
  by (simp add: refresh_def ready_view_def worker_ready_def mark_ready_effect)


lemma sample_settled:
  "mw_mail (settled sample_mail_world) = mail_new\<lparr>mb_state := MReady\<rparr>"
  "mw_mail (settled (settled sample_mail_world)) = mail_new\<lparr>mb_state := MReady\<rparr>"
  "next_turn (settled sample_mail_world) = (settled sample_mail_world)\<lparr>mw_env := [(sample_work, ready_view)]\<rparr>"
  "mw_view (settled sample_mail_world) = ready_view"
  "final_mail ((settled (settled sample_mail_world))\<lparr>mw_mail := enqueue (sample_job 1 token1) (mail_new\<lparr>mb_state := MReady\<rparr>)\<rparr>) = sample_mail_end"
proof -
  have r: "refresh ready_view mail_new = (Inr (), mail_new\<lparr>mb_state := MReady\<rparr>)"
    by (simp add: refresh_def ready_view_def worker_ready_def mark_ready_effect mail_new_def)
  show 1: "mw_mail (settled sample_mail_world) = mail_new\<lparr>mb_state := MReady\<rparr>"
    by (simp add: settled_def next_turn_def sample_mail_world_def work_all_def r)
  have w: "settled sample_mail_world = \<lparr>mw_mail = mail_new\<lparr>mb_state := MReady\<rparr>, mw_view = ready_view,
      mw_env = [([], ready_view), (sample_work, ready_view)], mw_pid = 7\<rparr>"
    by (simp add: settled_def next_turn_def sample_mail_world_def work_all_def r)
  show "mw_view (settled sample_mail_world) = ready_view" by (simp add: w)
  show "next_turn (settled sample_mail_world) = (settled sample_mail_world)\<lparr>mw_env := [(sample_work, ready_view)]\<rparr>"
    by (simp add: w next_turn_def work_all_def)
  show "mw_mail (settled (settled sample_mail_world)) = mail_new\<lparr>mb_state := MReady\<rparr>"
    unfolding w by (simp add: settled_def next_turn_def work_all_def ready_refresh)
  have "snd (refresh ready_view sample_mail_end) = sample_mail_end" by (simp add: ready_refresh sample_mail_end_def)
  then show "final_mail ((settled (settled sample_mail_world))\<lparr>mw_mail := enqueue (sample_job 1 token1) (mail_new\<lparr>mb_state := MReady\<rparr>)\<rparr>) = sample_mail_end"
    unfolding w by (simp add: final_mail_def settled_def next_turn_def sample_work_end)
qed

theorem exec_output_delivered_witness:
  "\<exists>n s w evs p st. exec_open mail_io (JArr [JStr (ul ''id'')]) (JInt 1000) token1 (exec_session_new 7 True, sample_mail_world) = (Inr (), (s, w)) \<and>
     exec_drain n mail_io GPoll (s, w) = (Inr (Some evs), st) \<and> stream_bytes process_stream.Stdout evs = [104, 105] \<and>
     last evs = StatusEvent p \<and> pe_returncode p = 0"
proof -
  let ?m = "mail_new\<lparr>mb_state := MReady\<rparr>" and ?w = sample_mail_world
  let ?w2 = "(settled (settled ?w))\<lparr>mw_mail := enqueue (sample_job 1 token1) ?m\<rparr>"
  have acc: "accepted (JInt 1) (JStr token1) (JArr [JStr (ul ''id'')]) (JInt 1000) (sample_job 1 token1)"
    by (rule sample_accepted) (simp_all add: sample_tokens max_mail_sequence_def)
  then have v: "validate_exec_request (JArr [JStr (ul ''id'')]) (JInt 1000) = Inr ([ul ''id''], 1000)"
    by (simp add: accepted_def sample_job_def)
  have r: "mail_run mail_new [] (mw_mail ?w)" by (simp add: sample_mail_world_def mail_run.start)
  have inv: "mail_inv ?m" using mail_inv_new by (simp add: mail_inv_def mail_new_def result_ok_def)
  have pid: "mw_pid ?w = 7" by (simp add: sample_mail_world_def)
  have vw: "worker_ready (mw_view (next_turn (settled ?w)))" "\<not> wv_failed (mw_view (next_turn (settled ?w)))"
    by (simp_all add: sample_settled worker_ready_def ready_view_def)
  obtain s where o: "exec_open mail_io (JArr [JStr (ul ''id'')]) (JInt 1000) token1 (exec_session_new 7 True, ?w) = (Inr (), (s, ?w2))"
    using open_gives [OF v, of 1 token1 "sample_job 1 token1" ?w ?m True] acc sample_settled inv vw pid
    by (auto simp: mail_new_def max_mail_sequence_def)
  have e: "mb_job_state (final_mail ?w2) = Some XCompleted" "mb_terminal (final_mail ?w2) = Some \<lparr>t_exit = Some 0, t_signal = None\<rparr>"
    "mb_reason (final_mail ?w2) = Some (ul ''completed'')" "mb_stdout (final_mail ?w2) = [104, 105]"
    unfolding sample_settled(5) by (simp_all add: sample_mail_end_def)
  have "exec_open mail_io (JArr [JStr (ul ''id'')]) (JInt 1000) token1 (exec_session_new (mw_pid ?w) True, ?w) = (Inr (), (s, ?w2))"
    using o pid by simp
  from exec_output_delivered [OF r this e(1-3)] e(4) obtain n evs p st where
    d: "exec_drain n mail_io GPoll (s, ?w2) = (Inr (Some evs), st)" "stream_bytes process_stream.Stdout evs = [104, 105]"
    "last evs = StatusEvent p" "exit_of \<lparr>t_exit = Some 0, t_signal = None\<rparr> = Inr p" by auto
  have "pe_returncode p = 0"
    using d(4) by (auto simp: exit_of_def process_exit_init_def process_exit_check_def num_eq_def jint_def Let_def)
  with o d show ?thesis by blast
qed

end
