(* ===== verification/Supervisor_Core.thy ===== *)
theory Supervisor_Core imports Main Supervisor_Journal begin

text \<open>
  \<open>SupervisorCore\<close> and \<open>SupervisorProcessSession\<close> of
  \<open>src/palimpsest_local/oci_supervisor.py\<close>. The core calls a journal and a control port,
  which are interfaces here (\<open>journal_ops\<close>, \<open>control_port\<close>); \<open>supervisor_journal\<close> is the
  journal of the module. The sections of a method that hold a lock are definitions of their
  own, composed as the method composes them; where a method waits on the condition the model
  returns \<open>Blocked\<close>. Instances passed as arguments are typed. An assertion that fails is
  \<open>PyErr TypeErr\<close>.
\<close>

section \<open>Interfaces\<close>

record 's journal_ops =
  jo_identity :: "'s \<Rightarrow> sup_identity"
  jo_append :: "record_kind \<Rightarrow> process_stream option \<Rightarrow> bytes option \<Rightarrow> process_exit option \<Rightarrow> sup_category option \<Rightarrow>
    ('s, sup_exn, journal_record) sx"
  jo_snapshot :: "('s, sup_exn, snapshot) sx"
  jo_ready_position :: "('s, sup_exn, jpos) sx"
  jo_pull :: "jpos \<Rightarrow> int \<Rightarrow> ('s, sup_exn, journal_record list \<times> jpos) sx"
  jo_close :: "('s, sup_exn, unit) sx"

definition supervisor_journal :: "jstate journal_ops" where
  "supervisor_journal = \<lparr>jo_identity = (\<lambda>s. j_identity (fst s)), jo_append = journal_append, jo_snapshot = journal_snapshot,
     jo_ready_position = ready_position, jo_pull = pull_from_position, jo_close = journal_close\<rparr>"

record 'p control_port =
  cp_signal :: "process_signal \<Rightarrow> ('p, sup_exn, unit) sx"
  cp_request_stop :: "('p, sup_exn, unit) sx"
  cp_close :: "('p, sup_exn, unit) sx"

section \<open>The result of a create operation\<close>

datatype attachment_mode = Detached | Attached

definition allowed_statuses :: "runtime_kind \<Rightarrow> string list" where
  "allowed_statuses k =
     (case k of
        CloudImage \<Rightarrow> [''creating'', ''defined'', ''starting'', ''running'', ''stopping'', ''stopped'', ''removed'', ''failed'']
      | OciRoot \<Rightarrow> [''creating'', ''defined'', ''fetching'', ''converting'', ''root-mounted'', ''starting'', ''running'',
          ''stopping'', ''stopped'', ''exited'', ''removing'', ''removed'', ''failed''])"

record 'x run_result =
  rr_record :: existing_run
  rr_status :: string
  rr_ready :: bool
  rr_mode :: attachment_mode
  rr_session :: "'x option"

text \<open>\<open>RunResult\<close> without a guest address, which the supervisor never passes.\<close>

definition run_result_init :: "existing_run \<Rightarrow> string \<Rightarrow> bool \<Rightarrow> attachment_mode \<Rightarrow> 'x option \<Rightarrow> exn + 'x run_result" where
  "run_result_init r status ready mode session =
     (let kind = dk_kind (er_key r) in
      if status \<notin> set (allowed_statuses kind) then Inl ValueErr
      else if kind = CloudImage \<and> ready \<noteq> (status = ''running'') then Inl ValueErr
      else if kind \<noteq> CloudImage \<and> ready \<noteq> (status \<in> {''running'', ''exited''}) then Inl ValueErr
      else if mode = Detached
      then (if session \<noteq> None then Inl ValueErr
            else Inr \<lparr>rr_record = r, rr_status = status, rr_ready = ready, rr_mode = mode, rr_session = session\<rparr>)
      else if kind \<noteq> OciRoot \<or> \<not> ready \<or> status \<notin> {''running'', ''exited''} \<or> session = None then Inl ValueErr
      else Inr \<lparr>rr_record = r, rr_status = status, rr_ready = ready, rr_mode = mode, rr_session = session\<rparr>)"

section \<open>State\<close>

record session =
  ss_token :: nat
  ss_position :: jpos
  ss_consumed :: bool
  ss_closed :: bool
  ss_terminal :: "process_exit option"
  ss_terminal_error :: "sup_category option"

record core =
  co_identity :: sup_identity
  co_view :: jview
  co_cursor :: int
  co_closed :: bool
  co_clients :: "nat list"
  co_next :: nat

record ('s, 'p) supervisor =
  sv_core :: core
  sv_journal :: 's
  sv_port :: 'p

type_synonym ('s, 'p, 'a) cm = "(('s, 'p) supervisor, sup_exn, 'a) sx"

datatype 'a wait = Blocked | Got 'a

definition on_journal :: "('s, sup_exn, 'a) sx \<Rightarrow> ('s, 'p, 'a) cm" where
  "on_journal m s = (case m (sv_journal s) of (r, j) \<Rightarrow> (r, s\<lparr>sv_journal := j\<rparr>))"

definition on_port :: "('p, sup_exn, 'a) sx \<Rightarrow> ('s, 'p, 'a) cm" where
  "on_port m s = (case m (sv_port s) of (r, p) \<Rightarrow> (r, s\<lparr>sv_port := p\<rparr>))"

definition cput :: "(core \<Rightarrow> core) \<Rightarrow> ('s, 'p, unit) cm" where
  "cput f = sput (sv_core_update f)"

definition cget :: "('s, 'p, core) cm" where
  "cget = sget sv_core"

definition max_active_sessions :: nat where "max_active_sessions = 32"

text \<open>The categories after which the journal is lost for good.\<close>

definition fatal :: "sup_category \<Rightarrow> bool" where
  "fatal c \<longleftrightarrow> c \<in> {InvalidJournal, JournalCorrupt, JournalIo, ClosedError}"

section \<open>Construction and views\<close>

text \<open>The constructor; \<open>mk\<close> is the journal and the port it was given.\<close>

definition core_new :: "'s journal_ops \<Rightarrow> sup_identity \<Rightarrow> 's \<Rightarrow> 'p \<Rightarrow> (sup_exn + ('s, 'p) supervisor) \<times> 's" where
  "core_new J i j port =
     (if jo_identity J j \<noteq> i then (Inl (Sup InvalidIdentity), j)
      else (case jo_snapshot J j of
              (Inl e, j') \<Rightarrow> (Inl e, j')
            | (Inr sn, j') \<Rightarrow>
                if sn \<noteq> \<lparr>sn_view = start_view, sn_cursor = 0\<rparr> then (Inl (Sup AdoptionForbidden), j')
                else (Inr \<lparr>sv_core = \<lparr>co_identity = i, co_view = sn_view sn, co_cursor = sn_cursor sn, co_closed = False,
                             co_clients = [], co_next = 1\<rparr>, sv_journal = j', sv_port = port\<rparr>, j')))"

definition core_snapshot :: "('s, 'p, snapshot) cm" where
  "core_snapshot = sget (\<lambda>s. let c = sv_core s in
     \<lparr>sn_view = (if co_closed c then (co_view c)\<lparr>v_phase := PClosed\<rparr> else co_view c), sn_cursor = co_cursor c\<rparr>)"

definition core_require_open :: "('s, 'p, unit) cm" where
  "core_require_open = sbind cget (\<lambda>c. sguard (\<not> co_closed c) (Sup ClosedError))"

definition raise_fatal :: "core \<Rightarrow> ('s, 'p, unit) cm" where
  "raise_fatal c = (case v_error (co_view c) of
     Some e \<Rightarrow> if fatal e then sraise (Sup e) else sret () | None \<Rightarrow> sret ())"

definition core_require_ready :: "('s, 'p, unit) cm" where
  "core_require_ready =
     sthen core_require_open
    (sbind cget (\<lambda>c.
     sthen (raise_fatal c)
    (sthen (sguard (v_phase (co_view c) \<noteq> PReadinessFailed) (Sup ReadinessFailed))
    (sthen (sguard (v_phase (co_view c) \<noteq> PDegraded) (Sup ControlLost))
    (sguard (v_ready (co_view c) \<noteq> None) (Sup NotReady))))))"

definition core_public_id :: "('s, 'p, ustr) cm" where
  "core_public_id = sthen core_require_ready (sbind cget (\<lambda>c. sret (er_run_id (si_record (co_identity c)))))"

section \<open>Commit\<close>

definition fail_core :: "sup_category \<Rightarrow> ('s, 'p, unit) cm" where
  "fail_core e = cput (\<lambda>c. if fatal e
     then c\<lparr>co_view := (co_view c)\<lparr>v_phase := (if v_ready (co_view c) = None then PReadinessFailed else PDegraded),
                                    v_error := Some e\<rparr>\<rparr>
     else c)"

definition publish :: "journal_record \<Rightarrow> snapshot \<Rightarrow> ('s, 'p, unit) cm" where
  "publish r sn = cput (\<lambda>c. c\<lparr>co_view := sn_view sn, co_cursor := jr_cursor r\<rparr>)"

text \<open>\<open>except SupervisorError as error: handle(error.category); raise\<close>.\<close>

definition on_sup_error :: "('s, 'p, 'a) cm \<Rightarrow> (sup_category \<Rightarrow> ('s, 'p, unit) cm) \<Rightarrow> ('s, 'p, 'a) cm" where
  "on_sup_error m h = scatch m (\<lambda>e. case e of Sup c \<Rightarrow> sthen (h c) (sraise e) | _ \<Rightarrow> sraise e)"

definition core_commit ::
  "'s journal_ops \<Rightarrow> record_kind \<Rightarrow> process_stream option \<Rightarrow> bytes option \<Rightarrow> process_exit option \<Rightarrow> sup_category option \<Rightarrow>
   ('s, 'p, journal_record) cm" where
  "core_commit J kind stream data ex err =
     sthen core_require_open
    (sbind (on_sup_error
             (sbind (on_journal (jo_append J kind stream data ex err)) (\<lambda>r.
              sbind (on_journal (jo_snapshot J)) (\<lambda>sn. sret (r, sn)))) fail_core) (\<lambda>(r, sn).
     sthen (publish r sn) (sret r)))"

definition core_mark_ready :: "'s journal_ops \<Rightarrow> ('s, 'p, int) cm" where
  "core_mark_ready J = sbind (core_commit J KReady None None None None) (\<lambda>r. sret (jr_cursor r))"

definition core_append_output :: "'s journal_ops \<Rightarrow> process_stream \<Rightarrow> bytes \<Rightarrow> ('s, 'p, int) cm" where
  "core_append_output J stream data =
     sthen (sguard (stream \<in> {Stdout, Stderr}) (Sup InvalidTransition))
    (sthen (sguard (data \<noteq> [] \<and> length data \<le> max_output_bytes) (Sup InvalidTransition))
    (sbind (core_commit J KOutput (Some stream) (Some data) None None) (\<lambda>r. sret (jr_cursor r))))"

definition core_mark_exit :: "'s journal_ops \<Rightarrow> process_exit \<Rightarrow> ('s, 'p, int) cm" where
  "core_mark_exit J p =
     sthen (sguard (pe_category p \<in> {Exited, Signaled}) (Sup InvalidTransition))
    (sbind (core_commit J KExit None None (Some p) None) (\<lambda>r. sret (jr_cursor r)))"

definition core_fail_readiness :: "'s journal_ops \<Rightarrow> ('s, 'p, int) cm" where
  "core_fail_readiness J =
     sbind (core_commit J KReadinessFailed None None None (Some ReadinessFailed)) (\<lambda>r. sret (jr_cursor r))"

definition core_mark_control_lost :: "'s journal_ops \<Rightarrow> ('s, 'p, int) cm" where
  "core_mark_control_lost J =
     sbind (core_commit J KDegraded None None None (Some ControlLost)) (\<lambda>r. sret (jr_cursor r))"

section \<open>Waiting for readiness and control\<close>

text \<open>
  One turn of the loop of \<open>wait_ready\<close>, after \<open>elapsed\<close> of the timeout. (A boolean timeout,
  which the code refuses, is not an integer here.)
\<close>

definition core_wait_ready :: "int option \<Rightarrow> int \<Rightarrow> ('s, 'p, int wait) cm" where
  "core_wait_ready timeout elapsed =
     sthen (sguard (pred_option (\<lambda>t. 0 \<le> t) timeout) (PyErr ValueErr))
    (sbind cget (\<lambda>c.
     case v_ready (co_view c) of
       Some n \<Rightarrow> sret (Got n)
     | None \<Rightarrow>
         sthen core_require_open
        (sthen (raise_fatal c)
        (sthen (sguard (v_phase (co_view c) \<noteq> PReadinessFailed) (Sup ReadinessFailed))
        (case timeout of
           None \<Rightarrow> sret Blocked
         | Some t \<Rightarrow> if t - elapsed \<le> 0 then sraise (Sup NotReady) else sret Blocked)))))"

definition core_require_control :: "('s, 'p, unit) cm" where
  "core_require_control =
     sthen core_require_open
    (sbind cget (\<lambda>c.
     case v_phase (co_view c) of
       PDegraded \<Rightarrow> sraise (Sup ControlLost)
     | PReadinessFailed \<Rightarrow> sraise (Sup ReadinessFailed)
     | PExited \<Rightarrow> sraise (Sup InvalidTransition)
     | _ \<Rightarrow> sret ()))"

definition core_request_stop :: "'p control_port \<Rightarrow> ('s, 'p, unit) cm" where
  "core_request_stop P = sthen core_require_control (on_port (cp_request_stop P))"

definition core_signal :: "'p control_port \<Rightarrow> nat \<Rightarrow> process_signal \<Rightarrow> ('s, 'p, unit) cm" where
  "core_signal P token sig =
     sbind cget (\<lambda>c.
     sthen (sguard (token \<in> set (co_clients c)) (Sup ClosedError))
    (sthen core_require_control (on_port (cp_signal P sig))))"

text \<open>\<open>finally\<close>: the journal is closed also when the port raises.\<close>

definition core_close :: "'s journal_ops \<Rightarrow> 'p control_port \<Rightarrow> ('s, 'p, unit) cm" where
  "core_close J P =
     sbind cget (\<lambda>c.
     if co_closed c then sret ()
     else sthen (cput (\<lambda>c. c\<lparr>co_closed := True\<rparr>))
         (sthen (scatch (on_port (cp_close P)) (\<lambda>e. sthen (on_journal (jo_close J)) (sraise e)))
                (on_journal (jo_close J))))"

section \<open>Sessions\<close>

definition session_new :: "nat \<Rightarrow> jpos \<Rightarrow> session" where
  "session_new token pos = \<lparr>ss_token = token, ss_position = pos, ss_consumed = False, ss_closed = False,
     ss_terminal = None, ss_terminal_error = None\<rparr>"

definition session_capabilities :: process_capabilities where
  "session_capabilities = \<lparr>pc_stdin = False, pc_tty = False, pc_resize = False, pc_signal = True\<rparr>"

definition status_of :: "core \<Rightarrow> string" where
  "status_of c = (if v_phase (co_view c) = PExited then ''exited'' else ''running'')"

definition as_sup :: "exn + 'a \<Rightarrow> sup_exn + 'a" where
  "as_sup r = (case r of Inl e \<Rightarrow> Inl (PyErr e) | Inr x \<Rightarrow> Inr x)"

definition core_detached_result :: "('s, 'p, session run_result wait) cm" where
  "core_detached_result =
     sbind (core_wait_ready None 0) (\<lambda>w.
     case w of
       Blocked \<Rightarrow> sret Blocked
     | Got _ \<Rightarrow>
         sthen core_require_ready
        (sbind cget (\<lambda>c.
         sbind (slift (as_sup (run_result_init (si_record (co_identity c)) (status_of c) True Detached None))) (\<lambda>r.
         sret (Got r)))))"

definition degrade :: "sup_category \<Rightarrow> ('s, 'p, unit) cm" where
  "degrade e = cput (\<lambda>c. c\<lparr>co_view := (co_view c)\<lparr>v_phase := PDegraded, v_error := Some e\<rparr>\<rparr>)"

text \<open>The section of \<open>attached_result\<close> under the condition, at the readiness position.\<close>

definition core_admit :: "jpos \<Rightarrow> ('s, 'p, session run_result) cm" where
  "core_admit pos =
     sthen core_require_ready
    (sbind cget (\<lambda>c.
     sthen (sguard (length (co_clients c) < max_active_sessions) (Sup SessionCapacity))
    (let token = co_next c in
     sthen (cput (\<lambda>c. c\<lparr>co_next := token + 1\<rparr>))
    (sthen (sguard (Some (p_cursor pos) = v_ready (co_view c)) (Sup JournalCorrupt))
    (sthen (cput (\<lambda>c. c\<lparr>co_clients := List.insert token (co_clients c)\<rparr>))
    (slift (as_sup (run_result_init (si_record (co_identity c)) (status_of c) True Attached
             (Some (session_new token pos))))))))))"

definition core_attached_result :: "'s journal_ops \<Rightarrow> ('s, 'p, session run_result wait) cm" where
  "core_attached_result J =
     sbind (core_wait_ready None 0) (\<lambda>w.
     case w of
       Blocked \<Rightarrow> sret Blocked
     | Got _ \<Rightarrow>
         sbind (on_sup_error (on_journal (jo_ready_position J)) degrade) (\<lambda>pos.
         sbind (core_admit pos) (\<lambda>r. sret (Got r))))"

definition core_release :: "nat \<Rightarrow> ('s, 'p, unit) cm" where
  "core_release token = cput (\<lambda>c. c\<lparr>co_clients := removeAll token (co_clients c)\<rparr>)"

text \<open>
  \<open>_records_or_wait\<close>: the check under the condition, the pull, and the check of the token
  again. \<open>Got None\<close> when the session is not active any more.
\<close>

datatype reader_check = ReadWait | ReadGone | ReadPull

definition core_reader_check :: "jpos \<Rightarrow> nat \<Rightarrow> ('s, 'p, reader_check) cm" where
  "core_reader_check pos token =
     sbind cget (\<lambda>c.
     if token \<notin> set (co_clients c) then sret ReadGone
     else sthen (sguard (\<not> co_closed c) (Sup ClosedError))
         (if co_cursor c \<le> p_cursor pos then sthen (raise_fatal c) (sret ReadWait) else sret ReadPull))"

definition core_reader_pull :: "'s journal_ops \<Rightarrow> jpos \<Rightarrow> ('s, 'p, journal_record list \<times> jpos) cm" where
  "core_reader_pull J pos = on_sup_error (on_journal (jo_pull J pos pull_limit)) degrade"

definition core_reader_recheck :: "nat \<Rightarrow> 'b \<Rightarrow> ('s, 'p, 'b option) cm" where
  "core_reader_recheck token batch = sbind cget (\<lambda>c. sret (if token \<in> set (co_clients c) then Some batch else None))"

definition core_records_or_wait :: "'s journal_ops \<Rightarrow> jpos \<Rightarrow> nat \<Rightarrow> ('s, 'p, (journal_record list \<times> jpos) option wait) cm" where
  "core_records_or_wait J pos token =
     sbind (core_reader_check pos token) (\<lambda>k.
     case k of
       ReadGone \<Rightarrow> sret (Got None)
     | ReadWait \<Rightarrow> sret Blocked
     | ReadPull \<Rightarrow> sbind (core_reader_pull J pos) (\<lambda>batch. sbind (core_reader_recheck token batch) (\<lambda>b. sret (Got b))))"

text \<open>The \<open>for\<close> loop over a batch in \<open>_wait_terminal\<close>: an exit, or nothing yet.\<close>

fun terminal_of :: "journal_record list \<Rightarrow> sup_exn + process_exit option" where
  "terminal_of [] = Inr None"
| "terminal_of (r # rs) =
     (if jr_kind r = KExit then (case jr_exit r of Some p \<Rightarrow> Inr (Some p) | None \<Rightarrow> Inl (PyErr TypeErr))
      else if jr_kind r = KDegraded then Inl (Sup ControlLost) else terminal_of rs)"

text \<open>
  \<open>_wait_terminal\<close> from a position: at most \<open>n\<close> turns; \<open>Blocked\<close> when one of them waits or
  they run out, with the position it goes on from.
\<close>

fun core_terminal_loop :: "nat \<Rightarrow> 's journal_ops \<Rightarrow> jpos \<Rightarrow> nat \<Rightarrow> ('s, 'p, process_exit wait \<times> jpos) cm" where
  "core_terminal_loop 0 J pos token = sret (Blocked, pos)"
| "core_terminal_loop (Suc n) J pos token =
     sbind (core_records_or_wait J pos token) (\<lambda>w.
     case w of
       Blocked \<Rightarrow> sret (Blocked, pos)
     | Got None \<Rightarrow> sraise (Sup ClosedError)
     | Got (Some (records, next)) \<Rightarrow>
         sbind (slift (terminal_of records)) (\<lambda>t.
         case t of Some p \<Rightarrow> sret (Got p, next) | None \<Rightarrow> core_terminal_loop n J next token))"

text \<open>\<open>finally\<close>: the session is released when the call ends, not while it waits.\<close>

definition core_wait_terminal :: "nat \<Rightarrow> 's journal_ops \<Rightarrow> jpos \<Rightarrow> nat \<Rightarrow> ('s, 'p, process_exit wait \<times> jpos) cm" where
  "core_wait_terminal n J pos token =
     sbind (scatch (core_terminal_loop n J pos token) (\<lambda>e. sthen (core_release token) (sraise e))) (\<lambda>(w, next).
     case w of Blocked \<Rightarrow> sret (w, next) | Got _ \<Rightarrow> sthen (core_release token) (sret (w, next)))"

section \<open>The event generator of a session\<close>

text \<open>
  Where the generator stands: at the top of its loop, in the \<open>for\<close> loop with the records that
  are left, at the \<open>return\<close> after the status event, or finished.
\<close>

datatype session_gen = STop | SFor "journal_record list" | SReturn | SDone

datatype session_out = SYield process_event | SBlocked | SStopped

type_synonym ('s, 'p, 'a) ssm = "(session \<times> ('s, 'p) supervisor, sup_exn, 'a) sx"

definition on_core :: "('s, 'p, 'a) cm \<Rightarrow> ('s, 'p, 'a) ssm" where
  "on_core m s = (case m (snd s) of (r, c) \<Rightarrow> (r, (fst s, c)))"

definition ssput :: "(session \<Rightarrow> session) \<Rightarrow> ('s, 'p, unit) ssm" where
  "ssput f = sput (map_prod f id)"

definition ssget :: "('s, 'p, session) ssm" where
  "ssget = sget fst"

definition session_release :: "('s, 'p, unit) ssm" where
  "session_release = sbind ssget (\<lambda>s. on_core (core_release (ss_token s)))"

definition session_finish :: "('s, 'p, session_out \<times> session_gen) ssm" where
  "session_finish = sthen session_release (sret (SStopped, SDone))"

text \<open>One record; \<open>None\<close> when the loop goes on without a yield.\<close>

definition session_record :: "journal_record \<Rightarrow> journal_record list \<Rightarrow> ('s, 'p, (session_out \<times> session_gen) option) ssm" where
  "session_record r rs =
     (case jr_kind r of
        KOutput \<Rightarrow>
          (case (jr_stream r, jr_data r) of
             (Some s, Some d) \<Rightarrow> sbind (slift (as_sup (output_event_init s d))) (\<lambda>ev. sret (Some (SYield ev, SFor rs)))
           | _ \<Rightarrow> sraise (PyErr TypeErr))
      | KExit \<Rightarrow>
          (case jr_exit r of
             Some p \<Rightarrow> sthen (ssput (\<lambda>s. s\<lparr>ss_terminal := Some p\<rparr>)) (sret (Some (SYield (StatusEvent p), SReturn)))
           | None \<Rightarrow> sraise (PyErr TypeErr))
      | KDegraded \<Rightarrow> sraise (Sup ControlLost)
      | _ \<Rightarrow> sret None)"

fun session_records :: "journal_record list \<Rightarrow> ('s, 'p, (session_out \<times> session_gen) option) ssm" where
  "session_records [] = sret None"
| "session_records (r # rs) =
     sbind (session_record r rs) (\<lambda>x. case x of Some y \<Rightarrow> sret (Some y) | None \<Rightarrow> session_records rs)"

text \<open>
  One resumption of the generator: to the next yield, the next wait, or the end; at most \<open>n\<close>
  turns of the \<open>while\<close> loop (\<open>SBlocked\<close> when they run out).
\<close>

fun session_loop :: "nat \<Rightarrow> 's journal_ops \<Rightarrow> ('s, 'p, session_out \<times> session_gen) ssm" where
  "session_loop 0 J = sret (SBlocked, STop)"
| "session_loop (Suc n) J =
     sbind ssget (\<lambda>s.
     sbind (on_core (core_records_or_wait J (ss_position s) (ss_token s))) (\<lambda>w.
     case w of
       Blocked \<Rightarrow> sret (SBlocked, STop)
     | Got None \<Rightarrow> session_finish
     | Got (Some (records, pos)) \<Rightarrow>
         sthen (ssput (\<lambda>s. s\<lparr>ss_position := pos\<rparr>))
        (sbind (session_records records) (\<lambda>x.
         case x of Some y \<Rightarrow> sret y | None \<Rightarrow> session_loop n J))))"

text \<open>\<open>except SupervisorError\<close> notes the category, \<open>finally\<close> releases the session.\<close>

definition session_guarded :: "('s, 'p, 'a) ssm \<Rightarrow> ('s, 'p, 'a) ssm" where
  "session_guarded m = scatch m (\<lambda>e.
     sthen (case e of Sup c \<Rightarrow> ssput (\<lambda>s. s\<lparr>ss_terminal_error := Some c\<rparr>) | _ \<Rightarrow> sret ())
    (sthen session_release (sraise e)))"

definition session_next :: "nat \<Rightarrow> 's journal_ops \<Rightarrow> session_gen \<Rightarrow> ('s, 'p, session_out \<times> session_gen) ssm" where
  "session_next n J g =
     session_guarded
       (case g of
          STop \<Rightarrow> session_loop n J
        | SFor rs \<Rightarrow> sbind (session_records rs) (\<lambda>x. case x of Some y \<Rightarrow> sret y | None \<Rightarrow> session_loop n J)
        | SReturn \<Rightarrow> session_finish
        | SDone \<Rightarrow> sret (SStopped, SDone))"

definition session_events :: "('s, 'p, session_gen) ssm" where
  "session_events =
     sbind ssget (\<lambda>s.
     sthen (sguard (\<not> ss_consumed s) (Sup AlreadyConsumed))
    (sthen (ssput (\<lambda>s. s\<lparr>ss_consumed := True\<rparr>)) (sret STop)))"

definition session_signal :: "'p control_port \<Rightarrow> process_signal \<Rightarrow> ('s, 'p, unit) ssm" where
  "session_signal P sig = sbind ssget (\<lambda>s. on_core (core_signal P (ss_token s) sig))"

definition session_close :: "('s, 'p, unit) ssm" where
  "session_close =
     sbind ssget (\<lambda>s. if ss_closed s then sret ()
       else sthen (ssput (\<lambda>s. s\<lparr>ss_closed := True\<rparr>)) session_release)"

text \<open>\<open>wait\<close>: its checks and its claim on the session, then the wait itself.\<close>

definition session_wait_begin :: "('s, 'p, process_exit option) ssm" where
  "session_wait_begin =
     sbind ssget (\<lambda>s.
     case ss_terminal s of
       Some p \<Rightarrow> sret (Some p)
     | None \<Rightarrow>
         sthen (case ss_terminal_error s of Some c \<Rightarrow> sraise (Sup c) | None \<Rightarrow> sret ())
        (sthen (sguard (\<not> ss_closed s) (Sup ClosedError))
        (sthen (sguard (\<not> ss_consumed s) (Sup AlreadyConsumed))
        (sthen (ssput (\<lambda>s. s\<lparr>ss_consumed := True\<rparr>)) (sret None)))))"

definition session_wait_from :: "nat \<Rightarrow> 's journal_ops \<Rightarrow> jpos \<Rightarrow> ('s, 'p, process_exit wait \<times> jpos) ssm" where
  "session_wait_from n J pos =
     sbind ssget (\<lambda>s.
     sbind (scatch (on_core (core_wait_terminal n J pos (ss_token s)))
             (\<lambda>e. sthen (case e of Sup c \<Rightarrow> ssput (\<lambda>s. s\<lparr>ss_terminal_error := Some c\<rparr>) | _ \<Rightarrow> sret ()) (sraise e))) (\<lambda>(w, next).
     case w of
       Blocked \<Rightarrow> sret (w, next)
     | Got p \<Rightarrow> sthen (ssput (\<lambda>s. s\<lparr>ss_terminal := Some p\<rparr>)) (sret (w, next))))"

definition session_wait :: "nat \<Rightarrow> 's journal_ops \<Rightarrow> ('s, 'p, process_exit wait \<times> jpos) ssm" where
  "session_wait n J =
     sbind session_wait_begin (\<lambda>t.
     sbind ssget (\<lambda>s.
     case t of Some p \<Rightarrow> sret (Got p, ss_position s) | None \<Rightarrow> session_wait_from n J (ss_position s)))"

text \<open>\<open>write_stdin\<close>, \<open>close_stdin\<close> and \<open>resize\<close>: the capability they raise.\<close>

datatype session_refusal = RefuseStdin | RefuseCloseStdin | RefuseResize

fun refused_capability :: "session_refusal \<Rightarrow> string" where
  "refused_capability RefuseStdin = ''stdin''"
| "refused_capability RefuseCloseStdin = ''stdin''"
| "refused_capability RefuseResize = ''resize''"

lemmas supervisor_core_exec [exec] = allowed_statuses_def run_result_init_def on_journal_def on_port_def cput_def cget_def
  max_active_sessions_def fatal_def core_new_def core_snapshot_def core_require_open_def raise_fatal_def
  core_require_ready_def fail_core_def publish_def on_sup_error_def core_commit_def core_mark_ready_def
  core_append_output_def core_mark_exit_def core_fail_readiness_def core_mark_control_lost_def core_wait_ready_def
  core_require_control_def core_request_stop_def core_signal_def core_close_def session_new_def status_of_def as_sup_def
  core_detached_result_def degrade_def core_admit_def core_attached_result_def core_release_def core_reader_check_def
  core_reader_pull_def core_reader_recheck_def core_records_or_wait_def core_wait_terminal_def on_core_def ssput_def
  ssget_def session_release_def session_finish_def session_record_def session_guarded_def session_next_def
  session_events_def session_signal_def session_close_def session_wait_begin_def session_wait_from_def session_wait_def

end
