(* ===== verification/Core_Machine.thy ===== *)
theory Core_Machine imports Main Supervisor_Core begin

text \<open>
  The supervisor under concurrency. A step is one section of a method that runs under a lock:
  a thread that holds the commit lock commits a record, attaches a session or closes the core
  (\<open>lock_pc\<close> says how far it is), and every session has a reader that checks, pulls and takes
  its batch (\<open>reader_pc\<close>). The sections are those of \<open>Supervisor_Core\<close>.
\<close>

section \<open>Threads\<close>

text \<open>The commits the core makes, with the guards of the method that makes them.\<close>

datatype commit = CReady | COutput process_stream bytes | CExit process_exit | CFailReadiness | CControlLost

fun commit_allowed :: "commit \<Rightarrow> bool" where
  "commit_allowed (COutput stream data) \<longleftrightarrow> stream \<in> {Stdout, Stderr} \<and> data \<noteq> [] \<and> length data \<le> max_output_bytes"
| "commit_allowed (CExit p) \<longleftrightarrow> pe_category p \<in> {Exited, Signaled} \<and> process_exit_ok p"
| "commit_allowed _ \<longleftrightarrow> True"

fun commit_append :: "'s journal_ops \<Rightarrow> commit \<Rightarrow> ('s, sup_exn, journal_record) sx" where
  "commit_append J CReady = jo_append J KReady None None None None"
| "commit_append J (COutput stream data) = jo_append J KOutput (Some stream) (Some data) None None"
| "commit_append J (CExit p) = jo_append J KExit None None (Some p) None"
| "commit_append J CFailReadiness = jo_append J KReadinessFailed None None None (Some ReadinessFailed)"
| "commit_append J CControlLost = jo_append J KDegraded None None None (Some ControlLost)"

datatype lock_pc =
  LFree | LAppend commit | LSnap journal_record | LPublish journal_record snapshot | LFail sup_category
| LAttach | LAttachAt jpos | LAttachFail sup_category | LClosePort | LCloseJournal

datatype reader_pc = RIdle | RPull | RBatch "journal_record list" jpos | RFail sup_category | REnd

record reader =
  rd_pos :: jpos
  rd_got :: "journal_record list"
  rd_pc :: reader_pc

record ('s, 'p) machine =
  ma_sup :: "('s, 'p) supervisor"
  ma_lock :: lock_pc
  ma_readers :: "nat \<Rightarrow> reader option"

text \<open>After an exception of a locked call: a \<open>SupervisorError\<close> is handled first.\<close>

definition handled :: "sup_exn \<Rightarrow> (sup_category \<Rightarrow> lock_pc) \<Rightarrow> lock_pc" where
  "handled e h = (case e of Sup c \<Rightarrow> h c | _ \<Rightarrow> LFree)"

definition set_reader :: "nat \<Rightarrow> reader \<Rightarrow> ('s, 'p) machine \<Rightarrow> ('s, 'p) machine" where
  "set_reader t rd m = m\<lparr>ma_readers := (ma_readers m)(t \<mapsto> rd)\<rparr>"

inductive sup_step :: "'s journal_ops \<Rightarrow> 'p control_port \<Rightarrow> ('s, 'p) machine \<Rightarrow> ('s, 'p) machine \<Rightarrow> bool" for J P where
  commit_begin: "sup_step J P m (m\<lparr>ma_sup := sv, ma_lock := LAppend a\<rparr>)"
    if "ma_lock m = LFree" "commit_allowed a" "core_require_open (ma_sup m) = (Inr (), sv)"
| commit_append: "sup_step J P m (m\<lparr>ma_sup := sv, ma_lock := LSnap r\<rparr>)"
    if "ma_lock m = LAppend a" "on_journal (commit_append J a) (ma_sup m) = (Inr r, sv)"
| commit_append_fails: "sup_step J P m (m\<lparr>ma_sup := sv, ma_lock := handled e LFail\<rparr>)"
    if "ma_lock m = LAppend a" "on_journal (commit_append J a) (ma_sup m) = (Inl e, sv)"
| commit_snap: "sup_step J P m (m\<lparr>ma_sup := sv, ma_lock := LPublish r sn\<rparr>)"
    if "ma_lock m = LSnap r" "on_journal (jo_snapshot J) (ma_sup m) = (Inr sn, sv)"
| commit_snap_fails: "sup_step J P m (m\<lparr>ma_sup := sv, ma_lock := handled e LFail\<rparr>)"
    if "ma_lock m = LSnap r" "on_journal (jo_snapshot J) (ma_sup m) = (Inl e, sv)"
| commit_publish: "sup_step J P m (m\<lparr>ma_sup := sv, ma_lock := LFree\<rparr>)"
    if "ma_lock m = LPublish r sn" "publish r sn (ma_sup m) = (Inr (), sv)"
| commit_fail: "sup_step J P m (m\<lparr>ma_sup := sv, ma_lock := LFree\<rparr>)"
    if "ma_lock m = LFail c" "fail_core c (ma_sup m) = (Inr (), sv)"
| attach_begin: "sup_step J P m (m\<lparr>ma_sup := sv, ma_lock := LAttach\<rparr>)"
    if "ma_lock m = LFree" "core_wait_ready None 0 (ma_sup m) = (Inr (Got n), sv)"
| attach_at: "sup_step J P m (m\<lparr>ma_sup := sv, ma_lock := LAttachAt p\<rparr>)"
    if "ma_lock m = LAttach" "on_journal (jo_ready_position J) (ma_sup m) = (Inr p, sv)"
| attach_fails: "sup_step J P m (m\<lparr>ma_sup := sv, ma_lock := handled e LAttachFail\<rparr>)"
    if "ma_lock m = LAttach" "on_journal (jo_ready_position J) (ma_sup m) = (Inl e, sv)"
| attach_degrade: "sup_step J P m (m\<lparr>ma_sup := sv, ma_lock := LFree\<rparr>)"
    if "ma_lock m = LAttachFail c" "degrade c (ma_sup m) = (Inr (), sv)"
| attach_admit: "sup_step J P m (set_reader (ss_token s) \<lparr>rd_pos = p, rd_got = [], rd_pc = RIdle\<rparr> (m\<lparr>ma_sup := sv, ma_lock := LFree\<rparr>))"
    if "ma_lock m = LAttachAt p" "core_admit p (ma_sup m) = (Inr res, sv)" "rr_session res = Some s"
| attach_refuse: "sup_step J P m (m\<lparr>ma_sup := sv, ma_lock := LFree\<rparr>)"
    if "ma_lock m = LAttachAt p" "core_admit p (ma_sup m) = (Inl e, sv)"
| control_stop: "sup_step J P m (m\<lparr>ma_sup := sv\<rparr>)"
    if "ma_lock m = LFree" "core_request_stop P (ma_sup m) = (res, sv)"
| control_signal: "sup_step J P m (m\<lparr>ma_sup := sv\<rparr>)"
    if "ma_lock m = LFree" "core_signal P t sig (ma_sup m) = (res, sv)"
| close_begin: "sup_step J P m (m\<lparr>ma_sup := sv, ma_lock := LClosePort\<rparr>)"
    if "ma_lock m = LFree" "\<not> co_closed (sv_core (ma_sup m))" "cput (\<lambda>c. c\<lparr>co_closed := True\<rparr>) (ma_sup m) = (Inr (), sv)"
| close_port: "sup_step J P m (m\<lparr>ma_sup := sv, ma_lock := LCloseJournal\<rparr>)"
    if "ma_lock m = LClosePort" "on_port (cp_close P) (ma_sup m) = (res, sv)"
| close_journal: "sup_step J P m (m\<lparr>ma_sup := sv, ma_lock := LFree\<rparr>)"
    if "ma_lock m = LCloseJournal" "on_journal (jo_close J) (ma_sup m) = (res, sv)"
| reader_check: "sup_step J P m (set_reader t (rd\<lparr>rd_pc := RPull\<rparr>) (m\<lparr>ma_sup := sv\<rparr>))"
    if "ma_readers m t = Some rd" "rd_pc rd = RIdle" "core_reader_check (rd_pos rd) t (ma_sup m) = (Inr ReadPull, sv)"
| reader_gone: "sup_step J P m (set_reader t (rd\<lparr>rd_pc := REnd\<rparr>) (m\<lparr>ma_sup := sv\<rparr>))"
    if "ma_readers m t = Some rd" "rd_pc rd = RIdle" "core_reader_check (rd_pos rd) t (ma_sup m) = (res, sv)"
      "res = Inr ReadGone \<or> (\<exists>e. res = Inl e)"
| reader_pull: "sup_step J P m (set_reader t (rd\<lparr>rd_pc := RBatch rs q\<rparr>) (m\<lparr>ma_sup := sv\<rparr>))"
    if "ma_readers m t = Some rd" "rd_pc rd = RPull" "on_journal (jo_pull J (rd_pos rd) pull_limit) (ma_sup m) = (Inr (rs, q), sv)"
| reader_pull_fails: "sup_step J P m (set_reader t (rd\<lparr>rd_pc := (case e of Sup c \<Rightarrow> RFail c | _ \<Rightarrow> REnd)\<rparr>) (m\<lparr>ma_sup := sv\<rparr>))"
    if "ma_readers m t = Some rd" "rd_pc rd = RPull" "on_journal (jo_pull J (rd_pos rd) pull_limit) (ma_sup m) = (Inl e, sv)"
| reader_degrade: "sup_step J P m (set_reader t (rd\<lparr>rd_pc := REnd\<rparr>) (m\<lparr>ma_sup := sv\<rparr>))"
    if "ma_readers m t = Some rd" "rd_pc rd = RFail c" "degrade c (ma_sup m) = (Inr (), sv)"
| reader_take: "sup_step J P m (set_reader t \<lparr>rd_pos = q, rd_got = rd_got rd @ rs, rd_pc = RIdle\<rparr> (m\<lparr>ma_sup := sv\<rparr>))"
    if "ma_readers m t = Some rd" "rd_pc rd = RBatch rs q" "core_reader_recheck t (rs, q) (ma_sup m) = (Inr (Some b), sv)"
| reader_dropped: "sup_step J P m (set_reader t (rd\<lparr>rd_pc := REnd\<rparr>) (m\<lparr>ma_sup := sv\<rparr>))"
    if "ma_readers m t = Some rd" "rd_pc rd = RBatch rs q" "core_reader_recheck t (rs, q) (ma_sup m) = (Inr None, sv)"
| release: "sup_step J P m (m\<lparr>ma_sup := sv\<rparr>)"
    if "core_release t (ma_sup m) = (Inr (), sv)"

inductive sup_run :: "'s journal_ops \<Rightarrow> 'p control_port \<Rightarrow> ('s, 'p) machine \<Rightarrow> ('s, 'p) machine \<Rightarrow> bool" for J P m0 where
  none: "sup_run J P m0 m0"
| more: "sup_run J P m0 m \<Longrightarrow> sup_step J P m m' \<Longrightarrow> sup_run J P m0 m'"

definition machine_start :: "('s, 'p) supervisor \<Rightarrow> ('s, 'p) machine" where
  "machine_start sv = \<lparr>ma_sup = sv, ma_lock = LFree, ma_readers = (\<lambda>_. None)\<rparr>"

end
