(* ===== verification/Core_Laws.thy ===== *)
theory Core_Laws imports Main Core_Machine Journal_Safety begin

text \<open>
  The contract the supervisor core needs of its journal, as a locale: the journal stands for
  a list of records (\<open>at\<close>) or is lost after some of them were stored (\<open>lost\<close>). The journal
  of \<open>Supervisor_Journal\<close> keeps the contract in every world in which nobody tampers with
  the file, short writes and failing syncs included.
\<close>

section \<open>Lists of records\<close>

definition view_of :: "journal_record list \<Rightarrow> jview" where
  "view_of rs = (case log_view rs of Inl _ \<Rightarrow> start_view | Inr v \<Rightarrow> v)"

definition proper_log :: "journal_record list \<Rightarrow> bool" where
  "proper_log rs \<longleftrightarrow> (\<forall>n < length rs. jr_cursor (rs ! n) = int (Suc n)) \<and> (\<exists>v. log_view rs = Inr v)"

lemma proper_log_Nil [simp]: "proper_log []"
  by (simp add: proper_log_def)

lemma proper_log_prefix: "proper_log (rs @ ss) \<Longrightarrow> proper_log rs"
proof (induction ss rule: rev_induct)
  case (snoc r ss)
  then have "proper_log (rs @ ss)"
    unfolding proper_log_def
    by (auto simp: rbind_Inr_iff nth_append All_less_Suc simp flip: append_assoc)
  then show ?case by (rule snoc.IH)
qed simp

lemma proper_log_take: "proper_log rs \<Longrightarrow> proper_log (take n rs)"
  using proper_log_prefix [of "take n rs" "drop n rs"] by simp

lemma view_of_log: "proper_log rs \<Longrightarrow> log_view rs = Inr (view_of rs)"
  by (auto simp: proper_log_def view_of_def)

lemma view_of_Nil [simp]: "view_of [] = start_view"
  by (simp add: view_of_def)

lemma apply_moves: "apply_semantics r u = Inr v \<Longrightarrow> v_phase v \<noteq> PStarting"
  by (cases "v_phase u"; cases "jr_kind r") (auto simp: apply_semantics_def)

lemma starting_empty: "log_view rs = Inr v \<Longrightarrow> v_phase v = PStarting \<Longrightarrow> rs = []"
  by (cases rs rule: rev_exhaust) (auto simp: rbind_Inr_iff dest: apply_moves)

lemma ready_head:
  assumes "log_view rs = Inr v" "v_ready v \<noteq> None"
  shows "\<exists>r rs'. rs = r # rs' \<and> jr_kind r = KReady"
  using assms
proof (induction rs arbitrary: v rule: rev_induct)
  case (snoc r rs)
  then obtain u where u: "log_view rs = Inr u" "apply_semantics r u = Inr v" by (auto simp: rbind_Inr_iff)
  show ?case
  proof (cases "v_ready u")
    case (Some n)
    with snoc.IH [OF u(1)] show ?thesis by auto
  next
    case None
    with u(2) snoc.prems(2) have "v_phase u = PStarting" "jr_kind r = KReady"
      by (auto simp: apply_semantics_def split: sup_phase.splits record_kind.splits)
    with starting_empty [OF u(1)] show ?thesis by simp
  qed
qed (simp add: start_view_def)

text \<open>A log is ready iff it starts with READY, and then its cursor is 1.\<close>

lemma ready_iff:
  assumes "proper_log rs"
  shows "v_ready (view_of rs) = (if rs \<noteq> [] \<and> jr_kind (hd rs) = KReady then Some 1 else None)"
proof (cases "rs \<noteq> [] \<and> jr_kind (hd rs) = KReady")
  case True
  then obtain r rs' where rs: "rs = r # rs'" "jr_kind r = KReady" by (cases rs) auto
  moreover have "jr_cursor r = 1" using assms rs by (auto simp: proper_log_def)
  ultimately show ?thesis using ready_first [of r rs' "view_of rs" undefined] view_of_log [OF assms] True by simp
next
  case False
  then have "v_ready (view_of rs) = None"
    using ready_head [OF view_of_log [OF assms]] by (metis list.sel(1) list.discI)
  then show ?thesis using False by simp
qed

lemma ready_take:
  assumes "proper_log rs" "v_ready (view_of (take n rs)) \<noteq> None"
  shows "v_ready (view_of rs) = Some 1" "1 \<le> n" "rs \<noteq> []"
proof -
  have "take n rs \<noteq> [] \<and> jr_kind (hd (take n rs)) = KReady"
    using assms(2) ready_iff [OF proper_log_take [OF assms(1)]] by (auto split: if_splits)
  then show "v_ready (view_of rs) = Some 1" "1 \<le> n" "rs \<noteq> []"
    using ready_iff [OF assms(1)] by (cases n; cases rs; simp)+
qed

lemma ready_grows: "proper_log rs \<Longrightarrow> m \<le> n \<Longrightarrow> v_ready (view_of (take m rs)) \<noteq> None \<Longrightarrow> v_ready (view_of (take n rs)) = Some 1"
  using ready_take(1) [OF proper_log_take [of rs n], of m] by (simp add: min_absorb1)

section \<open>The contract\<close>

fun commit_record :: "int \<Rightarrow> commit \<Rightarrow> journal_record" where
  "commit_record n CReady = args_record n KReady None None None None"
| "commit_record n (COutput stream data) = args_record n KOutput (Some stream) (Some data) None None"
| "commit_record n (CExit p) = args_record n KExit None None (Some p) None"
| "commit_record n CFailReadiness = args_record n KReadinessFailed None None None (Some ReadinessFailed)"
| "commit_record n CControlLost = args_record n KDegraded None None None (Some ControlLost)"

locale durable_journal =
  fixes J :: "'s journal_ops" and at :: "journal_record list \<Rightarrow> 's \<Rightarrow> bool" and lost :: "journal_record list \<Rightarrow> 's \<Rightarrow> bool"
    and pos :: "journal_record list \<Rightarrow> jpos"
  assumes proper: "at rs s \<or> lost rs s \<Longrightarrow> proper_log rs"
    and pos_cursor: "p_cursor (pos rs) = int (length rs)"
    and append_law: "at rs s \<Longrightarrow> commit_allowed a \<Longrightarrow> commit_append J a s = (ra, s') \<Longrightarrow>
      (\<exists>e. ra = Inl e \<and> (\<forall>c. e = Sup c \<longrightarrow> \<not> fatal c) \<and> at rs s') \<or>
      (let r = commit_record (int (length rs) + 1) a in
        ra = Inr r \<and> at (rs @ [r]) s' \<or> ra = Inl (Sup JournalIo) \<and> lost rs s')"
    and snapshot_law: "at rs s \<Longrightarrow> jo_snapshot J s = (rn, s') \<Longrightarrow>
      rn = Inr \<lparr>sn_view = view_of rs, sn_cursor = int (length rs)\<rparr> \<and> at rs s'"
    and ready_law: "at rs s \<Longrightarrow> v_ready (view_of rs) \<noteq> None \<Longrightarrow> jo_ready_position J s = (rp, s') \<Longrightarrow>
      rp = Inr (pos (take 1 rs)) \<and> at rs s'"
    and pull_law: "at rs s \<Longrightarrow> n < length rs \<Longrightarrow> jo_pull J (pos (take n rs)) pull_limit s = (rl, s') \<Longrightarrow>
      rl = Inr ([rs ! n], pos (take (Suc n) rs)) \<and> at rs s'"
    and close_law: "at rs s \<or> lost rs s \<Longrightarrow> jo_close J s = (ru, s') \<Longrightarrow> lost rs s'"
    and lost_append: "lost rs s \<Longrightarrow> commit_append J a s = (ra, s') \<Longrightarrow> lost rs s' \<and> (\<exists>c. ra = Inl (Sup c) \<and> fatal c)"
    and lost_snapshot: "lost rs s \<Longrightarrow> jo_snapshot J s = (rn, s') \<Longrightarrow> lost rs s' \<and> (\<exists>c. rn = Inl (Sup c) \<and> fatal c)"
    and lost_ready: "lost rs s \<Longrightarrow> jo_ready_position J s = (rp, s') \<Longrightarrow> lost rs s' \<and> (\<exists>c. rp = Inl (Sup c) \<and> fatal c)"
    and lost_pull: "lost rs s \<Longrightarrow> jo_pull J p n' s = (rl, s') \<Longrightarrow> lost rs s' \<and> (\<exists>c. rl = Inl (Sup c) \<and> fatal c)"

text \<open>The relation of the journal of the module: tame worlds, and what is stored is in the file.\<close>

definition journal_stands :: "sup_identity \<Rightarrow> journal_record list \<Rightarrow> jstate \<Rightarrow> bool" where
  "journal_stands i rs s \<longleftrightarrow> tame (snd s) \<and> journal_at i rs (fst s) (wcore (snd s))"

definition journal_lost :: "sup_identity \<Rightarrow> journal_record list \<Rightarrow> jstate \<Rightarrow> bool" where
  "journal_lost i rs s \<longleftrightarrow>
     tame (snd s) \<and> log_ok i rs \<and> (\<exists>t. fs_content (wcore (snd s)) = log_image i rs @ t) \<and>
     (j_closed (fst s) \<or> (\<exists>c. j_failure (fst s) = Some c \<and> fatal c))"

lemma stands_gives:
  assumes "journal_stands i rs s" "m s = (res, s')" "gives m (fst s) (wcore (snd s)) r j (wcore (snd s))"
  shows "res = r \<and> fst s' = j \<and> tame (snd s') \<and> wcore (snd s') = wcore (snd s)"
proof -
  have "tame (snd s)" using assms(1) by (simp add: journal_stands_def)
  then obtain w' where "m (fst s, snd s) = (r, (j, w'))" "tame w'" "wcore w' = wcore (snd s)"
    by (rule givesD [OF assms(3) _ refl])
  with assms(2) show ?thesis by simp
qed

lemma stands_keeps:
  assumes "journal_stands i rs s" "m s = (res, s')" "gives m (fst s) (wcore (snd s)) r (fst s) (wcore (snd s))"
  shows "res = r \<and> journal_stands i rs s'"
  using stands_gives [OF assms] assms(1) by (simp add: journal_stands_def)

lemma lost_guard:
  assumes "journal_lost i rs s"
  shows "\<exists>c. ready_guard s = (Inl (Sup c), s) \<and> fatal c"
  using assms
  by (cases s) (auto simp: journal_lost_def ready_guard_def require_open_def sthen_def sbind_def fatal_def)

lemma lost_call:
  assumes "journal_lost i rs s" "m = sthen ready_guard k" "m s = (res, s')"
  shows "journal_lost i rs s' \<and> (\<exists>c. res = Inl (Sup c) \<and> fatal c)"
  using lost_guard [OF assms(1)] assms by (auto simp: sthen_step(2))


lemma pull_guarded: "\<exists>k. pull_from_position p n = sthen ready_guard k"
  unfolding pull_from_position_def by blast

lemma append_guarded: "\<exists>k. journal_append kind stream data ex err = sthen ready_guard k"
  unfolding journal_append_def by blast

lemma supervisor_journal_simps [simp]:
  "jo_snapshot supervisor_journal = journal_snapshot" "jo_ready_position supervisor_journal = ready_position"
  "jo_pull supervisor_journal = pull_from_position" "jo_close supervisor_journal = journal_close"
  "jo_append supervisor_journal = journal_append" "jo_identity supervisor_journal = (\<lambda>s. j_identity (fst s))"
  by (simp_all add: supervisor_journal_def)

lemma commit_append_guarded: "\<exists>k. commit_append supervisor_journal a = sthen ready_guard k"
  by (cases a) (simp_all add: append_guarded)

lemma log_ok_proper: "log_ok i rs \<Longrightarrow> proper_log rs"
  by (auto simp: log_ok_def proper_log_def entry_ok_def)

lemma commit_record_ok: "commit_allowed a \<Longrightarrow> record_ok (commit_record n a)"
  by (cases a) (auto simp: record_ok_def args_record_def error_of_kind_def)

lemma stands_proper: "journal_stands i rs s \<Longrightarrow> proper_log rs"
  using journal_at_parts(6) log_ok_proper by (metis journal_stands_def)

lemma commit_record_args:
  fixes n a
  defines "r \<equiv> commit_record n a"
  shows "commit_append J a = jo_append J (jr_kind r) (jr_stream r) (jr_data r) (jr_exit r) (jr_error r)"
    "r = args_record n (jr_kind r) (jr_stream r) (jr_data r) (jr_exit r) (jr_error r)"
  unfolding r_def by (cases a; simp add: args_record_def)+

lemma append_keeps_contract:
  assumes at: "journal_stands i rs s" and a: "commit_allowed a" and run: "commit_append supervisor_journal a s = (res, s')"
  shows "(\<exists>e. res = Inl e \<and> (\<forall>c. e = Sup c \<longrightarrow> \<not> fatal c) \<and> journal_stands i rs s') \<or>
      (let r = commit_record (int (length rs) + 1) a in
        res = Inr r \<and> journal_stands i (rs @ [r]) s' \<or> res = Inl (Sup JournalIo) \<and> journal_lost i rs s')"
proof -
  let ?r = "commit_record (int (length rs) + 1) a"
  let ?k = "jr_kind ?r" and ?st = "jr_stream ?r" and ?d = "jr_data ?r" and ?ex = "jr_exit ?r" and ?err = "jr_error ?r"
  have args: "commit_append supervisor_journal a = journal_append ?k ?st ?d ?ex ?err"
    "?r = args_record (int (length rs) + 1) ?k ?st ?d ?ex ?err"
    by (simp only: commit_record_args(1) [where n = "int (length rs) + 1"] supervisor_journal_simps) (rule commit_record_args(2))
  have x: "process_exit_ok p" if "?ex = Some p" for p using that a by (cases a) (simp_all add: args_record_def)
  obtain j w where s: "s = (j, w)" by (cases s)
  with at have jw: "journal_at i rs j (wcore w)" "tame w" by (simp_all add: journal_stands_def)
  have nonfatal: "\<forall>c. e = Sup c \<longrightarrow> \<not> fatal c" if "admit i rs ?r = Inl e" for e
    using that commit_record_ok [OF a] payload_for_errors
    by (cases "record_payload i ?r") (fastforce simp: admit_def fatal_def split: sum.splits if_splits)+
  note p = journal_at_parts [OF jw(1)]
  from append_result [OF jw(1,2) refl x args(2)] run args(1) s nonfatal show ?thesis
    using jw p by (auto simp: journal_stands_def journal_lost_def Let_def latch_def fatal_def dest: grown_fields(1))
qed

lemma fcore_content: "fcore f = fcore g \<Longrightarrow> fs_content f = fs_content g"
  by (metis fcore_fields(5))

lemma close_keeps_contract:
  assumes "journal_stands i rs s \<or> journal_lost i rs s" "journal_close s = (res, s')"
  shows "journal_lost i rs s'"
proof -
  obtain j w where s: "s = (j, w)" by (cases s)
  have l: "tame w" "log_ok i rs" "\<exists>t. fs_content (wcore w) = log_image i rs @ t"
    using assms(1) s journal_at_parts(6,7) by (auto simp: journal_stands_def journal_lost_def)
  have "tame (snd s') \<and> fs_content (wcore (snd s')) = fs_content (wcore w) \<and> j_closed (fst s')"
  proof (cases "j_closed j \<or> j_file j = None")
    case True
    with assms(2) l(1) s show ?thesis
      by (auto simp: journal_close_def jget_field_def jput_def sbind_def sthen_def split: if_splits)
  next
    case False
    then obtain b where b: "\<not> j_closed j" "j_file j = Some b" by auto
    have "tame (snd (os_close_file b w)) \<and> fs_content (wcore (snd (os_close_file b w))) = fs_content (wcore w) \<and>
        (\<exists>x. fst (os_close_file b w) = Inr x)"
      using os_call_tame [OF l(1) refl, of "\<lambda>f. (Inr (), if b then f\<lparr>fs_locked := False\<rparr> else f)"] l(1)
      by (auto simp: os_close_file_def wcore_def dest: fcore_content)
    with assms(2) s b show ?thesis
      by (auto simp: journal_close_def jget_field_def jput_def on_os_def sbind_def sthen_def split: prod.splits)
  qed
  with l show ?thesis by (auto simp: journal_lost_def)
qed

interpretation sj: durable_journal supervisor_journal "journal_stands i" "journal_lost i" "\<lambda>rs. fst (anchors i rs)" for i
proof
  show "proper_log rs" if "journal_stands i rs s \<or> journal_lost i rs s" for rs s
    using that by (elim disjE) (auto simp: journal_lost_def intro: stands_proper log_ok_proper)
  show "p_cursor (fst (anchors i rs)) = int (length rs)" for rs by (rule anchors_pos)
next
  fix rs s a ra s'
  assume "journal_stands i rs s" "commit_allowed a" "commit_append supervisor_journal a s = (ra, s')"
  then show "(\<exists>e. ra = Inl e \<and> (\<forall>c. e = Sup c \<longrightarrow> \<not> fatal c) \<and> journal_stands i rs s') \<or>
      (let r = commit_record (int (length rs) + 1) a in
        ra = Inr r \<and> journal_stands i (rs @ [r]) s' \<or> ra = Inl (Sup JournalIo) \<and> journal_lost i rs s')"
    by (rule append_keeps_contract)
next
  fix rs s rn s'
  assume at: "journal_stands i rs s" and run: "jo_snapshot supervisor_journal s = (rn, s')"
  have j: "journal_at i rs (fst s) (wcore (snd s))" using at by (simp add: journal_stands_def)
  then have "view_of rs = j_view (fst s)" using journal_at_parts(10) by (simp add: view_of_def)
  then show "rn = Inr \<lparr>sn_view = view_of rs, sn_cursor = int (length rs)\<rparr> \<and> journal_stands i rs s'"
    using stands_keeps [OF at _ gives_snapshot [OF j]] run by simp
next
  fix rs s rp s'
  assume at: "journal_stands i rs s" and r: "v_ready (view_of rs) \<noteq> None" and run: "jo_ready_position supervisor_journal s = (rp, s')"
  have j: "journal_at i rs (fst s) (wcore (snd s))" using at by (simp add: journal_stands_def)
  note v = view_of_log [OF stands_proper [OF at]]
  obtain x rs' where x: "rs = x # rs'" "jr_kind x = KReady" using ready_head [OF v r] by blast
  have "snd (anchors i rs) = Some (fst (anchors i (take 1 rs)))" using ready_first v x by simp
  moreover have "view_of rs = j_view (fst s)" using journal_at_parts(10) [OF j] by (simp add: view_of_def)
  ultimately show "rp = Inr (fst (anchors i (take 1 rs))) \<and> journal_stands i rs s'"
    using stands_keeps [OF at _ gives_ready_position [OF j]] run r by auto
next
  fix rs s n rl s'
  assume at: "journal_stands i rs s" and n: "n < length rs"
    and run: "jo_pull supervisor_journal (fst (anchors i (take n rs))) pull_limit s = (rl, s')"
  have j: "journal_at i rs (fst s) (wcore (snd s))" using at by (simp add: journal_stands_def)
  then show "rl = Inr ([rs ! n], fst (anchors i (take (Suc n) rs))) \<and> journal_stands i rs s'"
    using stands_keeps [OF at _ gives_pull [OF j, of n]] run n by simp
next
  fix rs s ru s'
  assume "journal_stands i rs s \<or> journal_lost i rs s" "jo_close supervisor_journal s = (ru, s')"
  then show "journal_lost i rs s'" by (auto intro: close_keeps_contract)
next
  fix rs s a ra s'
  assume l: "journal_lost i rs s" and "commit_append supervisor_journal a s = (ra, s')"
  then show "journal_lost i rs s' \<and> (\<exists>c. ra = Inl (Sup c) \<and> fatal c)"
    using commit_append_guarded lost_call by metis
next
  fix rs s rn s'
  assume "journal_lost i rs s" "jo_snapshot supervisor_journal s = (rn, s')"
  then show "journal_lost i rs s' \<and> (\<exists>c. rn = Inl (Sup c) \<and> fatal c)"
    by (intro lost_call [OF _ journal_snapshot_def]) simp_all
next
  fix rs s rp s'
  assume "journal_lost i rs s" "jo_ready_position supervisor_journal s = (rp, s')"
  then show "journal_lost i rs s' \<and> (\<exists>c. rp = Inl (Sup c) \<and> fatal c)"
    by (intro lost_call [OF _ ready_position_def]) simp_all
next
  fix rs s p n' rl s'
  assume l: "journal_lost i rs s" and "jo_pull supervisor_journal p n' s = (rl, s')"
  then show "journal_lost i rs s' \<and> (\<exists>c. rl = Inl (Sup c) \<and> fatal c)"
    by (intro lost_call [OF l pull_from_position_def]) simp_all
qed

end
