(* ===== verification/Core_Safety.thy ===== *)
theory Core_Safety imports Main Core_Laws begin

text \<open>
  The invariant of the supervisor under every interleaving of its threads, for any journal
  that keeps the contract \<open>durable_journal\<close>: what the core shows is what the first \<open>n\<close> stored
  records say, and every session has read a prefix of those.
\<close>

section \<open>The invariant\<close>

text \<open>\<open>b\<close>: the journal is lost.\<close>

definition core_shows :: "journal_record list \<Rightarrow> bool \<Rightarrow> core \<Rightarrow> bool" where
  "core_shows rs b c \<longleftrightarrow>
     co_cursor c = int (length rs) \<and> v_ready (co_view c) = v_ready (view_of rs) \<and>
     v_exit (co_view c) = v_exit (view_of rs) \<and>
     (co_view c = view_of rs \<or>
      b \<and> (\<exists>e. v_error (co_view c) = Some e \<and> fatal e) \<and> v_phase (co_view c) \<in> {PDegraded, PReadinessFailed})"

definition clients_ok :: "core \<Rightarrow> bool" where
  "clients_ok c \<longleftrightarrow> distinct (co_clients c) \<and> length (co_clients c) \<le> max_active_sessions \<and> (\<forall>t \<in> set (co_clients c). t < co_next c)"

fun lock_ok :: "(journal_record list \<Rightarrow> jpos) \<Rightarrow> journal_record list \<Rightarrow> nat \<Rightarrow> bool \<Rightarrow> lock_pc \<Rightarrow> bool" where
  "lock_ok pos rs n b (LSnap r) \<longleftrightarrow> length rs = Suc n \<and> r = rs ! n"
| "lock_ok pos rs n b (LPublish r sn) \<longleftrightarrow> length rs = Suc n \<and> r = rs ! n \<and> sn = \<lparr>sn_view = view_of rs, sn_cursor = int (length rs)\<rparr>"
| "lock_ok pos rs n b (LAppend a) \<longleftrightarrow> (b \<or> n = length rs) \<and> commit_allowed a"
| "lock_ok pos rs n b (LFail c) \<longleftrightarrow> (b \<or> n = length rs) \<and> (fatal c \<longrightarrow> b)"
| "lock_ok pos rs n b LAttach \<longleftrightarrow> (b \<or> n = length rs) \<and> v_ready (view_of (take n rs)) \<noteq> None"
| "lock_ok pos rs n b (LAttachAt p) \<longleftrightarrow> (b \<or> n = length rs) \<and> p = pos (take 1 rs) \<and> 1 \<le> n"
| "lock_ok pos rs n b (LAttachFail c) \<longleftrightarrow> b \<and> fatal c"
| "lock_ok pos rs n b _ \<longleftrightarrow> b \<or> n = length rs"

fun at_pc :: "(journal_record list \<Rightarrow> jpos) \<Rightarrow> journal_record list \<Rightarrow> nat \<Rightarrow> bool \<Rightarrow> nat \<Rightarrow> reader_pc \<Rightarrow> bool" where
  "at_pc pos rs n b k RPull \<longleftrightarrow> k < n"
| "at_pc pos rs n b k (RBatch xs q) \<longleftrightarrow> k < n \<and> xs = [rs ! k] \<and> q = pos (take (Suc k) rs)"
| "at_pc pos rs n b k (RFail c) \<longleftrightarrow> b \<and> fatal c"
| "at_pc pos rs n b k _ \<longleftrightarrow> True"

definition reader_ok :: "(journal_record list \<Rightarrow> jpos) \<Rightarrow> journal_record list \<Rightarrow> nat \<Rightarrow> bool \<Rightarrow> reader \<Rightarrow> bool" where
  "reader_ok pos rs n b rd \<longleftrightarrow>
     (\<exists>k. 1 \<le> k \<and> k \<le> n \<and> rd_pos rd = pos (take k rs) \<and> rd_got rd = drop 1 (take k rs) \<and> at_pc pos rs n b k (rd_pc rd))"

definition threads_ok :: "(journal_record list \<Rightarrow> jpos) \<Rightarrow> journal_record list \<Rightarrow> nat \<Rightarrow> bool \<Rightarrow> core \<Rightarrow> lock_pc \<Rightarrow>
    (nat \<Rightarrow> reader option) \<Rightarrow> bool" where
  "threads_ok pos rs n b c pc readers \<longleftrightarrow>
     n \<le> length rs \<and> core_shows (take n rs) b c \<and> clients_ok c \<and> lock_ok pos rs n b pc \<and>
     (\<forall>t rd. readers t = Some rd \<longrightarrow> t < co_next c \<and> reader_ok pos rs n b rd)"

definition machine_inv :: "(journal_record list \<Rightarrow> 's \<Rightarrow> bool) \<Rightarrow> (journal_record list \<Rightarrow> 's \<Rightarrow> bool) \<Rightarrow>
    (journal_record list \<Rightarrow> jpos) \<Rightarrow> journal_record list \<Rightarrow> nat \<Rightarrow> bool \<Rightarrow> ('s, 'p) machine \<Rightarrow> bool" where
  "machine_inv at lost pos rs n b m \<longleftrightarrow>
     (if b then lost rs (sv_journal (ma_sup m)) else at rs (sv_journal (ma_sup m))) \<and>
     threads_ok pos rs n b (sv_core (ma_sup m)) (ma_lock m) (ma_readers m)"

section \<open>The sections as functions of the core\<close>

lemma on_journal_result:
  assumes "on_journal m sv = (r, sv')"
  obtains j where "m (sv_journal sv) = (r, j)" "sv' = sv\<lparr>sv_journal := j\<rparr>"
  using assms by (auto simp: on_journal_def split: prod.splits)

lemma on_port_result:
  assumes "on_port m sv = (r, sv')"
  shows "sv_core sv' = sv_core sv" "sv_journal sv' = sv_journal sv"
  using assms by (auto simp: on_port_def split: prod.splits)

lemma core_guards:
  "core_require_open sv = (r, sv') \<Longrightarrow> sv' = sv"
  "raise_fatal c sv = (r1, sv') \<Longrightarrow> sv' = sv"
  "core_require_control sv = (r2, sv') \<Longrightarrow> sv' = sv"
  "core_wait_ready timeout t sv = (r3, sv') \<Longrightarrow> sv' = sv"
  "core_reader_check p k sv = (r4, sv') \<Longrightarrow> sv' = sv"
  "core_reader_recheck k x sv = (r5, sv') \<Longrightarrow> sv' = sv"
  by (auto simp: core_require_open_def raise_fatal_def core_require_control_def core_wait_ready_def core_reader_check_def
      core_reader_recheck_def cget_def sbind_def sthen_def Let_def split: option.splits if_splits sup_phase.splits sum.splits prod.splits)


section \<open>Moves that keep the invariant\<close>

lemma core_shows_mono: "core_shows rs b c \<Longrightarrow> (b \<longrightarrow> b') \<Longrightarrow> core_shows rs b' c"
  by (auto simp: core_shows_def)

lemma core_shows_error:
  assumes "core_shows rs b c" "b" "fatal e"
  shows "core_shows rs b (c\<lparr>co_view := (co_view c)\<lparr>v_phase := PDegraded, v_error := Some e\<rparr>\<rparr>)"
    "core_shows rs b (c\<lparr>co_view := (co_view c)\<lparr>v_phase := (if v_ready (co_view c) = None then PReadinessFailed else PDegraded),
       v_error := Some e\<rparr>\<rparr>)"
  using assms by (simp_all add: core_shows_def)

lemma at_pc_mono:
  assumes "at_pc pos rs n b k pc" "n \<le> length rs" "take n rs' = take n rs" "n \<le> n'" "b \<longrightarrow> b'"
  shows "at_pc pos rs' n' b' k pc"
proof -
  have "rs' ! k = rs ! k \<and> take (Suc k) rs' = take (Suc k) rs" if "k < n"
    using that arg_cong [OF assms(3), of "\<lambda>xs. xs ! k"] arg_cong [OF assms(3), of "take (Suc k)"] by (simp add: min_def)
  with assms show ?thesis by (cases pc) auto
qed

lemma reader_ok_mono:
  assumes "reader_ok pos rs n b rd" "n \<le> length rs" "take n rs' = take n rs" "n \<le> n'" "b \<longrightarrow> b'"
  shows "reader_ok pos rs' n' b' rd"
proof -
  from assms(1) obtain k where k: "1 \<le> k" "k \<le> n" "rd_pos rd = pos (take k rs)" "rd_got rd = drop 1 (take k rs)"
    "at_pc pos rs n b k (rd_pc rd)" by (auto simp: reader_ok_def)
  have "take k rs' = take k rs" using arg_cong [OF assms(3), of "take k"] k(2) by (simp add: min_def)
  moreover have "at_pc pos rs' n' b' k (rd_pc rd)" using at_pc_mono [OF k(5) assms(2-5)] .
  ultimately show ?thesis using k assms(4) unfolding reader_ok_def by (intro exI [of _ k]) simp
qed

lemma threads_keep:
  assumes "threads_ok pos rs n b c pc R" "b \<longrightarrow> b'" "core_shows (take n rs) b' c'" "clients_ok c'" "co_next c \<le> co_next c'"
    "lock_ok pos rs n b' pc'"
  shows "threads_ok pos rs n b' c' pc' R"
  using assms reader_ok_mono [of pos rs n b _ rs n b'] by (fastforce simp: threads_ok_def)

lemma threads_lock:
  assumes "threads_ok pos rs n b c pc R" "b \<longrightarrow> b'" "lock_ok pos rs n b' pc'"
  shows "threads_ok pos rs n b' c pc' R"
proof (rule threads_keep [OF assms(1,2) _ _ _ assms(3)])
  show "core_shows (take n rs) b' c" using core_shows_mono [of "take n rs" b c b'] assms(1,2) by (simp add: threads_ok_def)
qed (use assms(1) in \<open>simp_all add: threads_ok_def\<close>)

lemma threads_more:
  assumes "threads_ok pos rs n b c pc R" "lock_ok pos (rs @ [r]) n b pc'"
  shows "threads_ok pos (rs @ [r]) n b c pc' R"
  using assms reader_ok_mono [of pos rs n b _ "rs @ [r]" n b] by (auto simp: threads_ok_def)

lemma threads_publish:
  assumes "threads_ok pos rs n b c pc R" "length rs = Suc n" "core_shows rs b c'" "clients_ok c'" "co_next c' = co_next c"
  shows "threads_ok pos rs (Suc n) b c' LFree R"
  using assms reader_ok_mono [of pos rs n b _ rs "Suc n" b] by (auto simp: threads_ok_def)

lemma threads_reader:
  assumes "threads_ok pos rs n b c pc R" "t < co_next c" "reader_ok pos rs n b rd"
  shows "threads_ok pos rs n b c pc (R(t \<mapsto> rd))"
  using assms by (auto simp: threads_ok_def)

lemma threads_some:
  assumes "threads_ok pos rs n b c pc R" "R t = Some rd"
  shows "t < co_next c" "reader_ok pos rs n b rd"
  using assms by (auto simp: threads_ok_def)

lemma threads_parts:
  assumes "threads_ok pos rs n b c pc R"
  shows "n \<le> length rs" "core_shows (take n rs) b c" "clients_ok c" "lock_ok pos rs n b pc"
  using assms by (simp_all add: threads_ok_def)

lemma lock_synced: "lock_ok pos rs n b pc \<Longrightarrow> pc \<in> {LFree, LClosePort, LCloseJournal} \<Longrightarrow> b \<or> n = length rs"
  by auto

lemma core_puts:
  "cput f sv = (r, sv') \<Longrightarrow> sv' = sv\<lparr>sv_core := f (sv_core sv)\<rparr>"
  "publish x sn sv = (r1, sv') \<Longrightarrow> sv' = sv\<lparr>sv_core := (sv_core sv)\<lparr>co_view := sn_view sn, co_cursor := jr_cursor x\<rparr>\<rparr>"
  "degrade e sv = (r2, sv') \<Longrightarrow>
     sv' = sv\<lparr>sv_core := (sv_core sv)\<lparr>co_view := (co_view (sv_core sv))\<lparr>v_phase := PDegraded, v_error := Some e\<rparr>\<rparr>\<rparr>"
  "core_release t sv = (r3, sv') \<Longrightarrow> sv' = sv\<lparr>sv_core := (sv_core sv)\<lparr>co_clients := removeAll t (co_clients (sv_core sv))\<rparr>\<rparr>"
  by (auto simp: cput_def publish_def degrade_def core_release_def)

lemma clients_release: "clients_ok c \<Longrightarrow> clients_ok (c\<lparr>co_clients := removeAll t (co_clients c)\<rparr>)"
  using length_removeAll_less_eq [of t "co_clients c"] by (auto simp: clients_ok_def distinct_removeAll simp del: length_removeAll_less_eq)

lemma fail_core_shows:
  assumes "core_shows rs b (sv_core sv)" "fatal e \<longrightarrow> b" "fail_core e sv = (r, sv')"
  shows "core_shows rs b (sv_core sv')" "clients_ok (sv_core sv) \<Longrightarrow> clients_ok (sv_core sv')"
    "co_next (sv_core sv') = co_next (sv_core sv)" "sv_journal sv' = sv_journal sv"
  using assms core_shows_error(2) [OF assms(1), of e] by (auto simp: fail_core_def cput_def clients_ok_def split: if_splits)

lemma fail_core_keeps:
  "fail_core e sv = (r, sv') \<Longrightarrow> (clients_ok (sv_core sv') \<longleftrightarrow> clients_ok (sv_core sv)) \<and>
     co_next (sv_core sv') = co_next (sv_core sv) \<and> sv_journal sv' = sv_journal sv"
  by (cases "fatal e") (auto simp: fail_core_def cput_def clients_ok_def)

lemma on_port_keeps:
  "sv_core (snd (on_port q sv)) = sv_core sv" "sv_journal (snd (on_port q sv)) = sv_journal sv"
  by (simp_all add: on_port_def split: prod.splits)

lemma guarded_port_keeps:
  "sv_core (snd (sthen core_require_control (on_port q) sv)) = sv_core sv"
  "sv_journal (snd (sthen core_require_control (on_port q) sv)) = sv_journal sv"
  using core_guards(3) by (cases "core_require_control sv"; fastforce simp: sthen_def sbind_def on_port_keeps split: sum.splits)+

lemma control_result:
  "core_request_stop P sv = (r, sv') \<Longrightarrow> sv_core sv' = sv_core sv \<and> sv_journal sv' = sv_journal sv"
  "core_signal P t sig sv = (r, sv') \<Longrightarrow> sv_core sv' = sv_core sv \<and> sv_journal sv' = sv_journal sv"
proof -
  show "core_request_stop P sv = (r, sv') \<Longrightarrow> sv_core sv' = sv_core sv \<and> sv_journal sv' = sv_journal sv"
    using guarded_port_keeps [of "cp_request_stop P" sv] by (simp add: core_request_stop_def)
  show "core_signal P t sig sv = (r, sv') \<Longrightarrow> sv_core sv' = sv_core sv \<and> sv_journal sv' = sv_journal sv"
    using guarded_port_keeps [of "cp_signal P sig" sv]
    by (auto simp: core_signal_def cget_def sthen_def [of "sguard _ _"] sbind_def split: if_splits)
qed

lemma admit_result:
  assumes "core_admit p sv = (res, sv')" "clients_ok (sv_core sv)"
  shows "clients_ok (sv_core sv')" "co_next (sv_core sv) \<le> co_next (sv_core sv')" "sv_journal sv' = sv_journal sv"
    "co_view (sv_core sv') = co_view (sv_core sv)" "co_cursor (sv_core sv') = co_cursor (sv_core sv)"
    "res = Inr y \<Longrightarrow> rr_session y = Some s \<Longrightarrow> ss_token s = co_next (sv_core sv) \<and> co_next (sv_core sv') = co_next (sv_core sv) + 1"
proof -
  have "core_require_ready sv = (r, t) \<Longrightarrow> t = sv" for r t
    by (auto simp: core_require_ready_def core_require_open_def raise_fatal_def cget_def sbind_def sthen_def
        split: option.splits if_splits sum.splits prod.splits)
  note rr = this
  obtain r where r: "core_require_ready sv = (r, sv)" using rr by (metis surj_pair)
  let ?c = "sv_core sv"
  have new: "co_next ?c \<notin> set (co_clients ?c)" using assms(2) by (auto simp: clients_ok_def)
  have "sv' = sv \<or> sv' = sv\<lparr>sv_core := ?c\<lparr>co_next := co_next ?c + 1\<rparr>\<rparr> \<or>
    length (co_clients ?c) < max_active_sessions \<and>
    sv' = sv\<lparr>sv_core := ?c\<lparr>co_next := co_next ?c + 1, co_clients := List.insert (co_next ?c) (co_clients ?c)\<rparr>\<rparr> "
    using assms(1) r by (auto simp: core_admit_def cget_def cput_def sbind_def sthen_def Let_def split: sum.splits prod.splits if_splits)
  then show "clients_ok (sv_core sv')" "co_next (sv_core sv) \<le> co_next (sv_core sv')" "sv_journal sv' = sv_journal sv"
    "co_view (sv_core sv') = co_view (sv_core sv)" "co_cursor (sv_core sv') = co_cursor (sv_core sv)"
    using assms(2) new by (auto simp: clients_ok_def less_Suc_eq)
  show "ss_token s = co_next (sv_core sv) \<and> co_next (sv_core sv') = co_next (sv_core sv) + 1" if "res = Inr y" "rr_session y = Some s"
    using assms(1) r that
    by (auto simp: core_admit_def cget_def cput_def sbind_def sthen_def Let_def as_sup_def run_result_init_def session_new_def
        split: sum.splits prod.splits if_splits)
qed


section \<open>Every step keeps the invariant\<close>

definition machine_ok :: "(journal_record list \<Rightarrow> 's \<Rightarrow> bool) \<Rightarrow> (journal_record list \<Rightarrow> 's \<Rightarrow> bool) \<Rightarrow>
    (journal_record list \<Rightarrow> jpos) \<Rightarrow> ('s, 'p) machine \<Rightarrow> bool" where
  "machine_ok at lost pos m \<longleftrightarrow> (\<exists>rs n b. machine_inv at lost pos rs n b m)"

lemma machine_okI:
  assumes "if b then lost rs (sv_journal (ma_sup m)) else at rs (sv_journal (ma_sup m))"
    and "threads_ok pos rs n b (sv_core (ma_sup m)) (ma_lock m) (ma_readers m)"
  shows "machine_ok at lost pos m"
  using assms unfolding machine_ok_def machine_inv_def by blast

lemma machine_okE:
  assumes "machine_ok at lost pos m"
  obtains rs n b where "if b then lost rs (sv_journal (ma_sup m)) else at rs (sv_journal (ma_sup m))"
    and "threads_ok pos rs n b (sv_core (ma_sup m)) (ma_lock m) (ma_readers m)"
  using assms by (auto simp: machine_ok_def machine_inv_def)

lemma set_reader_simps [simp]:
  "ma_sup (set_reader t rd m) = ma_sup m" "ma_lock (set_reader t rd m) = ma_lock m"
  "ma_readers (set_reader t rd m) = (ma_readers m)(t \<mapsto> rd)"
  by (simp_all add: set_reader_def)

lemma handled_simps [simp]: "handled (Sup c) h = h c" "handled (PyErr x) h = LFree"
  by (simp_all add: handled_def)

lemma handled_cases: "handled e h = LFree \<or> (\<exists>c. e = Sup c \<and> handled e h = h c)"
  by (cases e) (auto simp: handled_def)

context durable_journal begin

lemma commit_append_keeps:
  assumes ok: "machine_ok at lost pos m" and l: "ma_lock m = LAppend a"
    and run: "on_journal (commit_append J a) (ma_sup m) = (res, sv)"
  shows "machine_ok at lost pos (m\<lparr>ma_sup := sv, ma_lock := (case res of Inr r \<Rightarrow> LSnap r | Inl e \<Rightarrow> handled e LFail)\<rparr>)"
proof -
  obtain rs n b where j: "if b then lost rs (sv_journal (ma_sup m)) else at rs (sv_journal (ma_sup m))"
    and t: "threads_ok pos rs n b (sv_core (ma_sup m)) (ma_lock m) (ma_readers m)" using machine_okE [OF ok] .
  obtain s' where s: "commit_append J a (sv_journal (ma_sup m)) = (res, s')" "sv = (ma_sup m)\<lparr>sv_journal := s'\<rparr>"
    using on_journal_result [OF run] .
  have a: "commit_allowed a" "b \<or> n = length rs" using threads_parts(4) [OF t] l by auto
  show ?thesis
  proof (cases b)
    case True
    with j lost_append s(1) obtain c where "lost rs s'" "res = Inl (Sup c)" "fatal c" by fastforce
    then show ?thesis using threads_lock [OF t, of True "LFail c"] True s(2) by (intro machine_okI [where b = True and rs = rs and n = n]) simp_all
  next
    case False
    let ?r = "commit_record (int (length rs) + 1) a"
    consider (refused) e where "res = Inl e" "\<forall>c. e = Sup c \<longrightarrow> \<not> fatal c" "at rs s'"
      | (stored) "res = Inr ?r" "at (rs @ [?r]) s'" | (died) "res = Inl (Sup JournalIo)" "lost rs s'"
      using append_law [OF _ a(1) s(1), of rs] j False by (auto simp: Let_def)
    then show ?thesis
    proof cases
      case refused
      have "lock_ok pos rs n False (handled e LFail)" using a(2) False refused(2) handled_cases [of e LFail] by auto
      then show ?thesis using threads_lock [OF t, of False] refused s(2) False
        by (intro machine_okI [where b = False and rs = rs and n = n]) simp_all
    next
      case stored
      then show ?thesis using threads_more [OF t, of ?r "LSnap ?r"] a(2) s(2) False
        by (intro machine_okI [where b = False and rs = "rs @ [?r]" and n = n]) simp_all
    next
      case died
      then show ?thesis using threads_lock [OF t, of True "LFail JournalIo"] s(2)
        by (intro machine_okI [where b = True and rs = rs and n = n]) simp_all
    qed
  qed
qed

lemma commit_snap_keeps:
  assumes ok: "machine_ok at lost pos m" and l: "ma_lock m = LSnap r"
    and run: "on_journal (jo_snapshot J) (ma_sup m) = (res, sv)"
  shows "machine_ok at lost pos (m\<lparr>ma_sup := sv, ma_lock := (case res of Inr sn \<Rightarrow> LPublish r sn | Inl e \<Rightarrow> handled e LFail)\<rparr>)"
proof -
  obtain rs n b where j: "if b then lost rs (sv_journal (ma_sup m)) else at rs (sv_journal (ma_sup m))"
    and t: "threads_ok pos rs n b (sv_core (ma_sup m)) (ma_lock m) (ma_readers m)" using machine_okE [OF ok] .
  obtain s' where s: "jo_snapshot J (sv_journal (ma_sup m)) = (res, s')" "sv = (ma_sup m)\<lparr>sv_journal := s'\<rparr>"
    using on_journal_result [OF run] .
  show ?thesis
  proof (cases b)
    case True
    with j lost_snapshot s(1) obtain c where "lost rs s'" "res = Inl (Sup c)" "fatal c" by fastforce
    then show ?thesis using threads_lock [OF t, of True "LFail c"] True s(2)
      by (intro machine_okI [where b = True and rs = rs and n = n]) simp_all
  next
    case False
    let ?sn = "\<lparr>sn_view = view_of rs, sn_cursor = int (length rs)\<rparr>"
    have "res = Inr ?sn" "at rs s'" using snapshot_law [OF _ s(1), of rs] j False by simp_all
    then show ?thesis using threads_lock [OF t, of False "LPublish r ?sn"] threads_parts(4) [OF t] l False s(2)
      by (intro machine_okI [where b = False and rs = rs and n = n]) simp_all
  qed
qed

lemma commit_publish_keeps:
  assumes ok: "machine_ok at lost pos m" and l: "ma_lock m = LPublish r sn" and run: "publish r sn (ma_sup m) = (res, sv)"
  shows "machine_ok at lost pos (m\<lparr>ma_sup := sv, ma_lock := LFree\<rparr>)"
proof -
  obtain rs n b where j: "if b then lost rs (sv_journal (ma_sup m)) else at rs (sv_journal (ma_sup m))"
    and t: "threads_ok pos rs n b (sv_core (ma_sup m)) (ma_lock m) (ma_readers m)" using machine_okE [OF ok] .
  have r: "length rs = Suc n" "r = rs ! n" "sn = \<lparr>sn_view = view_of rs, sn_cursor = int (length rs)\<rparr>"
    using threads_parts(4) [OF t] l by auto
  have "proper_log rs" using proper j by (metis (full_types))
  then have "jr_cursor r = int (length rs)" using r(1,2) by (simp add: proper_log_def)
  then have "core_shows rs b (sv_core sv)" "clients_ok (sv_core sv)" "co_next (sv_core sv) = co_next (sv_core (ma_sup m))"
    "sv_journal sv = sv_journal (ma_sup m)"
    using core_puts(2) [OF run] r(3) threads_parts(3) [OF t] by (simp_all add: core_shows_def clients_ok_def)
  then show ?thesis using threads_publish [OF t r(1)] j
    by (intro machine_okI [where b = b and rs = rs and n = "Suc n"]) simp_all
qed

text \<open>Steps that leave the journal and the core as they are, and steps that fail the core.\<close>

lemma lock_keeps:
  assumes ok: "machine_ok at lost pos m"
    and l: "\<And>rs n b. lock_ok pos rs n b (ma_lock m) \<Longrightarrow> core_shows (take n rs) b (sv_core (ma_sup m)) \<Longrightarrow> lock_ok pos rs n b pc"
    and s: "sv_core sv = sv_core (ma_sup m)" "sv_journal sv = sv_journal (ma_sup m)"
  shows "machine_ok at lost pos (m\<lparr>ma_sup := sv, ma_lock := pc\<rparr>)"
proof -
  obtain rs n b where j: "if b then lost rs (sv_journal (ma_sup m)) else at rs (sv_journal (ma_sup m))"
    and t: "threads_ok pos rs n b (sv_core (ma_sup m)) (ma_lock m) (ma_readers m)" using machine_okE [OF ok] .
  show ?thesis using threads_lock [OF t, of b pc] l [OF threads_parts(4,2) [OF t]] j s
    by (intro machine_okI [where b = b and rs = rs and n = n]) simp_all
qed

lemma core_keeps:
  assumes ok: "machine_ok at lost pos m"
    and c: "\<And>rs n b. lock_ok pos rs n b (ma_lock m) \<Longrightarrow> core_shows (take n rs) b (sv_core (ma_sup m)) \<Longrightarrow>
      lock_ok pos rs n b pc \<and> core_shows (take n rs) b (sv_core sv)"
    and s: "clients_ok (sv_core (ma_sup m)) \<Longrightarrow> clients_ok (sv_core sv)" "co_next (sv_core (ma_sup m)) \<le> co_next (sv_core sv)"
      "sv_journal sv = sv_journal (ma_sup m)"
  shows "machine_ok at lost pos (m\<lparr>ma_sup := sv, ma_lock := pc\<rparr>)"
proof -
  obtain rs n b where j: "if b then lost rs (sv_journal (ma_sup m)) else at rs (sv_journal (ma_sup m))"
    and t: "threads_ok pos rs n b (sv_core (ma_sup m)) (ma_lock m) (ma_readers m)" using machine_okE [OF ok] .
  show ?thesis
    using threads_keep [OF t, of b "sv_core sv" pc] c [OF threads_parts(4,2) [OF t]] s threads_parts(3) [OF t] j
    by (intro machine_okI [where b = b and rs = rs and n = n]) simp_all
qed

lemma commit_fail_keeps:
  assumes ok: "machine_ok at lost pos m" and l: "ma_lock m = LFail c" and run: "fail_core c (ma_sup m) = (res, sv)"
  shows "machine_ok at lost pos (m\<lparr>ma_sup := sv, ma_lock := LFree\<rparr>)"
  by (rule core_keeps [OF ok]) (use l fail_core_keeps [OF run] fail_core_shows(1) [OF _ _ run] in auto)

lemma degrade_keeps:
  assumes ok: "machine_ok at lost pos m" and l: "ma_lock m = LAttachFail c" and run: "degrade c (ma_sup m) = (res, sv)"
  shows "machine_ok at lost pos (m\<lparr>ma_sup := sv, ma_lock := LFree\<rparr>)"
  by (rule core_keeps [OF ok]) (use l core_puts(3) [OF run] core_shows_error(1) in \<open>auto simp: clients_ok_def\<close>)

lemma close_begin_keeps:
  assumes ok: "machine_ok at lost pos m" and l: "ma_lock m = LFree" and run: "cput (\<lambda>c. c\<lparr>co_closed := True\<rparr>) (ma_sup m) = (res, sv)"
  shows "machine_ok at lost pos (m\<lparr>ma_sup := sv, ma_lock := LClosePort\<rparr>)"
  by (rule core_keeps [OF ok]) (use l core_puts(1) [OF run] in \<open>auto simp: clients_ok_def core_shows_def\<close>)

lemma attach_at_keeps:
  assumes ok: "machine_ok at lost pos m" and l: "ma_lock m = LAttach"
    and run: "on_journal (jo_ready_position J) (ma_sup m) = (res, sv)"
  shows "machine_ok at lost pos (m\<lparr>ma_sup := sv, ma_lock := (case res of Inr p \<Rightarrow> LAttachAt p | Inl e \<Rightarrow> handled e LAttachFail)\<rparr>)"
proof -
  obtain rs n b where j: "if b then lost rs (sv_journal (ma_sup m)) else at rs (sv_journal (ma_sup m))"
    and t: "threads_ok pos rs n b (sv_core (ma_sup m)) (ma_lock m) (ma_readers m)" using machine_okE [OF ok] .
  obtain s' where s: "jo_ready_position J (sv_journal (ma_sup m)) = (res, s')" "sv = (ma_sup m)\<lparr>sv_journal := s'\<rparr>"
    using on_journal_result [OF run] .
  have lk: "b \<or> n = length rs" "v_ready (view_of (take n rs)) \<noteq> None" using threads_parts(4) [OF t] l by auto
  have "proper_log rs" using proper j by (metis (full_types))
  note r = ready_take [OF this lk(2)]
  show ?thesis
  proof (cases b)
    case True
    with j lost_ready s(1) obtain c where "lost rs s'" "res = Inl (Sup c)" "fatal c" by fastforce
    then show ?thesis using threads_lock [OF t, of True "LAttachFail c"] True s(2)
      by (intro machine_okI [where b = True and rs = rs and n = n]) simp_all
  next
    case False
    have "res = Inr (pos (take 1 rs))" "at rs s'" using ready_law [OF _ _ s(1), of rs] r j False by simp_all
    then show ?thesis using threads_lock [OF t, of False "LAttachAt (pos (take 1 rs))"] lk r False s(2)
      by (intro machine_okI [where b = False and rs = rs and n = n]) simp_all
  qed
qed

lemma attach_admit_keeps:
  assumes ok: "machine_ok at lost pos m" and l: "ma_lock m = LAttachAt p" and run: "core_admit p (ma_sup m) = (Inr y, sv)"
    and y: "rr_session y = Some s"
  shows "machine_ok at lost pos (set_reader (ss_token s) \<lparr>rd_pos = p, rd_got = [], rd_pc = RIdle\<rparr> (m\<lparr>ma_sup := sv, ma_lock := LFree\<rparr>))"
proof -
  obtain rs n b where j: "if b then lost rs (sv_journal (ma_sup m)) else at rs (sv_journal (ma_sup m))"
    and t: "threads_ok pos rs n b (sv_core (ma_sup m)) (ma_lock m) (ma_readers m)" using machine_okE [OF ok] .
  have lk: "b \<or> n = length rs" "p = pos (take 1 rs)" "1 \<le> n" using threads_parts(4) [OF t] l by auto
  note a = admit_result [OF run threads_parts(3) [OF t]]
  have "core_shows (take n rs) b (sv_core sv)" using threads_parts(2) [OF t] a(4,5) by (simp add: core_shows_def)
  then have t': "threads_ok pos rs n b (sv_core sv) LFree (ma_readers m)"
    using threads_keep [OF t, of b "sv_core sv" LFree] a(1,2) lk(1) by simp
  have "reader_ok pos rs n b \<lparr>rd_pos = p, rd_got = [], rd_pc = RIdle\<rparr>"
    using lk(2,3) by (auto simp: reader_ok_def intro!: exI [of _ 1])
  then have "threads_ok pos rs n b (sv_core sv) LFree ((ma_readers m)(ss_token s \<mapsto> \<lparr>rd_pos = p, rd_got = [], rd_pc = RIdle\<rparr>))"
    using threads_reader [OF t'] a(6) [OF refl y] by simp
  then show ?thesis using j a(3) by (intro machine_okI [where b = b and rs = rs and n = n]) simp_all
qed

text \<open>Steps of a reader.\<close>

lemma reader_keeps:
  assumes ok: "machine_ok at lost pos m" and rd: "ma_readers m t = Some rd"
    and c: "\<And>rs n b. n \<le> length rs \<Longrightarrow> core_shows (take n rs) b (sv_core (ma_sup m)) \<Longrightarrow> reader_ok pos rs n b rd \<Longrightarrow>
      reader_ok pos rs n b rd' \<and> core_shows (take n rs) b (sv_core sv)"
    and s: "clients_ok (sv_core (ma_sup m)) \<Longrightarrow> clients_ok (sv_core sv)" "co_next (sv_core (ma_sup m)) \<le> co_next (sv_core sv)"
      "sv_journal sv = sv_journal (ma_sup m)"
  shows "machine_ok at lost pos (set_reader t rd' (m\<lparr>ma_sup := sv\<rparr>))"
proof -
  obtain rs n b where j: "if b then lost rs (sv_journal (ma_sup m)) else at rs (sv_journal (ma_sup m))"
    and t: "threads_ok pos rs n b (sv_core (ma_sup m)) (ma_lock m) (ma_readers m)" using machine_okE [OF ok] .
  note k = c [OF threads_parts(1,2) [OF t] threads_some(2) [OF t rd]]
  have t': "threads_ok pos rs n b (sv_core sv) (ma_lock m) (ma_readers m)"
    using threads_keep [OF t, of b "sv_core sv" "ma_lock m"] k s threads_parts(3,4) [OF t] by simp
  have "t < co_next (sv_core sv)" using threads_some(1) [OF t rd] s(2) by simp
  from threads_reader [OF t' this] k show ?thesis using j s(3)
    by (intro machine_okI [where b = b and rs = rs and n = n]) simp_all
qed

lemma reader_ok_pc: "reader_ok pos rs n b rd \<Longrightarrow> reader_ok pos rs n b (rd\<lparr>rd_pc := REnd\<rparr>)"
  by (auto simp: reader_ok_def)

lemma reader_check_keeps:
  assumes ok: "machine_ok at lost pos m" and rd: "ma_readers m t = Some rd"
    and run: "core_reader_check (rd_pos rd) t (ma_sup m) = (Inr ReadPull, sv)"
  shows "machine_ok at lost pos (set_reader t (rd\<lparr>rd_pc := RPull\<rparr>) (m\<lparr>ma_sup := sv\<rparr>))"
proof (rule reader_keeps [OF ok rd])
  fix rs n b
  assume n: "n \<le> length rs" and c: "core_shows (take n rs) b (sv_core (ma_sup m))" and r: "reader_ok pos rs n b rd"
  have "p_cursor (rd_pos rd) < co_cursor (sv_core (ma_sup m))"
    using run by (auto simp: core_reader_check_def cget_def raise_fatal_def sbind_def sthen_def
        split: if_splits option.splits sum.splits prod.splits)
  then show "reader_ok pos rs n b (rd\<lparr>rd_pc := RPull\<rparr>) \<and> core_shows (take n rs) b (sv_core sv)"
    using r c n core_guards(5) [OF run] by (auto simp: reader_ok_def core_shows_def pos_cursor)
qed (use core_guards(5) [OF run] in auto)

lemma reader_pull_keeps:
  assumes ok: "machine_ok at lost pos m" and rd: "ma_readers m t = Some rd" "rd_pc rd = RPull"
    and run: "on_journal (jo_pull J (rd_pos rd) pull_limit) (ma_sup m) = (res, sv)"
  shows "machine_ok at lost pos (set_reader t (rd\<lparr>rd_pc := (case res of Inr (xs, q) \<Rightarrow> RBatch xs q
      | Inl e \<Rightarrow> (case e of Sup c \<Rightarrow> RFail c | _ \<Rightarrow> REnd))\<rparr>) (m\<lparr>ma_sup := sv\<rparr>))"
proof -
  obtain rs n b where j: "if b then lost rs (sv_journal (ma_sup m)) else at rs (sv_journal (ma_sup m))"
    and t: "threads_ok pos rs n b (sv_core (ma_sup m)) (ma_lock m) (ma_readers m)" using machine_okE [OF ok] .
  obtain s' where s: "jo_pull J (rd_pos rd) pull_limit (sv_journal (ma_sup m)) = (res, s')" "sv = (ma_sup m)\<lparr>sv_journal := s'\<rparr>"
    using on_journal_result [OF run] .
  obtain k where k: "1 \<le> k" "k < n" "rd_pos rd = pos (take k rs)" "rd_got rd = drop 1 (take k rs)"
    using threads_some(2) [OF t rd(1)] rd(2) by (auto simp: reader_ok_def)
  show ?thesis
  proof (cases b)
    case True
    with j lost_pull s(1) obtain c where "lost rs s'" "res = Inl (Sup c)" "fatal c" by fastforce
    moreover have "reader_ok pos rs n True (rd\<lparr>rd_pc := RFail c\<rparr>)"
      using k \<open>fatal c\<close> by (auto simp: reader_ok_def intro!: exI [of _ k])
    ultimately show ?thesis using threads_reader [OF t threads_some(1) [OF t rd(1)]] True s(2)
      by (intro machine_okI [where b = True and rs = rs and n = n]) simp_all
  next
    case False
    have "k < length rs" using k(2) threads_parts(1) [OF t] by simp
    then have "res = Inr ([rs ! k], pos (take (Suc k) rs))" "at rs s'" using pull_law [OF _ _ s(1) [unfolded k(3)]] j False by simp_all
    moreover have "reader_ok pos rs n False (rd\<lparr>rd_pc := RBatch [rs ! k] (pos (take (Suc k) rs))\<rparr>)"
      using k by (auto simp: reader_ok_def intro!: exI [of _ k])
    ultimately show ?thesis using threads_reader [OF t threads_some(1) [OF t rd(1)]] False s(2)
      by (intro machine_okI [where b = False and rs = rs and n = n]) simp_all
  qed
qed

lemma reader_take_keeps:
  assumes ok: "machine_ok at lost pos m" and rd: "ma_readers m t = Some rd" "rd_pc rd = RBatch xs q"
    and run: "core_reader_recheck t (xs, q) (ma_sup m) = (res, sv)"
  shows "machine_ok at lost pos (set_reader t \<lparr>rd_pos = q, rd_got = rd_got rd @ xs, rd_pc = RIdle\<rparr> (m\<lparr>ma_sup := sv\<rparr>))"
proof (rule reader_keeps [OF ok rd(1)])
  fix rs n b
  assume n: "n \<le> length rs" and c: "core_shows (take n rs) b (sv_core (ma_sup m))" and r: "reader_ok pos rs n b rd"
  then obtain k where k: "1 \<le> k" "k < n" "rd_got rd = drop 1 (take k rs)" "xs = [rs ! k]" "q = pos (take (Suc k) rs)"
    using rd(2) by (auto simp: reader_ok_def)
  have "rd_got rd @ xs = drop 1 (take (Suc k) rs)" using k n by (simp add: take_Suc_conv_app_nth)
  then show "reader_ok pos rs n b \<lparr>rd_pos = q, rd_got = rd_got rd @ xs, rd_pc = RIdle\<rparr> \<and> core_shows (take n rs) b (sv_core sv)"
    using k c core_guards(6) [OF run] by (auto simp: reader_ok_def intro!: exI [of _ "Suc k"])
qed (use core_guards(6) [OF run] in auto)

lemma reader_degrade_keeps:
  assumes ok: "machine_ok at lost pos m" and rd: "ma_readers m t = Some rd" "rd_pc rd = RFail c" and run: "degrade c (ma_sup m) = (res, sv)"
  shows "machine_ok at lost pos (set_reader t (rd\<lparr>rd_pc := REnd\<rparr>) (m\<lparr>ma_sup := sv\<rparr>))"
proof (rule reader_keeps [OF ok rd(1)])
  fix rs n b
  assume c: "core_shows (take n rs) b (sv_core (ma_sup m))" and r: "reader_ok pos rs n b rd"
  then have "b" "fatal c" using rd(2) by (auto simp: reader_ok_def)
  then show "reader_ok pos rs n b (rd\<lparr>rd_pc := REnd\<rparr>) \<and> core_shows (take n rs) b (sv_core sv)"
    using reader_ok_pc [OF r] core_shows_error(1) [OF c] core_puts(3) [OF run] by simp
qed (use core_puts(3) [OF run] in \<open>simp_all add: clients_ok_def\<close>)

lemma reader_end_keeps:
  assumes ok: "machine_ok at lost pos m" and rd: "ma_readers m t = Some rd" and sv: "sv = ma_sup m"
  shows "machine_ok at lost pos (set_reader t (rd\<lparr>rd_pc := REnd\<rparr>) (m\<lparr>ma_sup := sv\<rparr>))"
  by (rule reader_keeps [OF ok rd]) (use sv reader_ok_pc in auto)

lemma close_journal_keeps:
  assumes ok: "machine_ok at lost pos m" and run: "on_journal (jo_close J) (ma_sup m) = (res, sv)"
  shows "machine_ok at lost pos (m\<lparr>ma_sup := sv, ma_lock := LFree\<rparr>)"
proof -
  obtain rs n b where j: "if b then lost rs (sv_journal (ma_sup m)) else at rs (sv_journal (ma_sup m))"
    and t: "threads_ok pos rs n b (sv_core (ma_sup m)) (ma_lock m) (ma_readers m)" using machine_okE [OF ok] .
  obtain s' where s: "jo_close J (sv_journal (ma_sup m)) = (res, s')" "sv = (ma_sup m)\<lparr>sv_journal := s'\<rparr>"
    using on_journal_result [OF run] .
  have "lost rs s'" using close_law [OF _ s(1)] j by (metis (full_types))
  then show ?thesis using threads_lock [OF t, of True LFree] s(2)
    by (intro machine_okI [where b = True and rs = rs and n = n]) simp_all
qed

lemma release_keeps:
  assumes ok: "machine_ok at lost pos m" and run: "core_release t (ma_sup m) = (res, sv)"
  shows "machine_ok at lost pos (m\<lparr>ma_sup := sv\<rparr>)"
proof -
  have "machine_ok at lost pos (m\<lparr>ma_sup := sv, ma_lock := ma_lock m\<rparr>)"
    by (rule core_keeps [OF ok])
      (use core_puts(4) [OF run] clients_release in \<open>simp_all add: core_shows_def\<close>)
  then show ?thesis by simp
qed

lemma control_keeps:
  assumes ok: "machine_ok at lost pos m" and s: "sv_core sv = sv_core (ma_sup m)" "sv_journal sv = sv_journal (ma_sup m)"
  shows "machine_ok at lost pos (m\<lparr>ma_sup := sv\<rparr>)"
  using lock_keeps [OF ok _ s, of "ma_lock m"] by simp

lemma attach_begin_keeps:
  assumes ok: "machine_ok at lost pos m" and l: "ma_lock m = LFree" and run: "core_wait_ready None 0 (ma_sup m) = (Inr (Got k), sv)"
  shows "machine_ok at lost pos (m\<lparr>ma_sup := sv, ma_lock := LAttach\<rparr>)"
proof (rule lock_keeps [OF ok])
  have "v_ready (co_view (sv_core (ma_sup m))) \<noteq> None"
    using run by (auto simp: core_wait_ready_def cget_def raise_fatal_def core_require_open_def sbind_def sthen_def
        split: option.splits if_splits sum.splits prod.splits)
  then show "lock_ok pos rs n b LAttach" if "lock_ok pos rs n b (ma_lock m)" "core_shows (take n rs) b (sv_core (ma_sup m))" for rs n b
    using that l by (auto simp: core_shows_def)
qed (use core_guards(4) [OF run] in simp_all)

lemma step_keeps:
  assumes step: "sup_step J P m m'" and ok: "machine_ok at lost pos m"
  shows "machine_ok at lost pos m'"
  using step
proof cases
  case (commit_begin a sv)
  then show ?thesis using lock_keeps [OF ok, of "LAppend a" sv] core_guards(1) by auto
next
  case (commit_append a r sv)
  then show ?thesis using commit_append_keeps [OF ok, of a "Inr r" sv] by simp
next
  case (commit_append_fails a e sv)
  then show ?thesis using commit_append_keeps [OF ok, of a "Inl e" sv] by simp
next
  case (commit_snap r sn sv)
  then show ?thesis using commit_snap_keeps [OF ok, of r "Inr sn" sv] by simp
next
  case (commit_snap_fails r e sv)
  then show ?thesis using commit_snap_keeps [OF ok, of r "Inl e" sv] by simp
next
  case (commit_publish r sn sv)
  then show ?thesis using commit_publish_keeps [OF ok] by blast
next
  case (commit_fail c sv)
  then show ?thesis using commit_fail_keeps [OF ok] by blast
next
  case (attach_begin n sv)
  then show ?thesis using attach_begin_keeps [OF ok] by blast
next
  case (attach_at p sv)
  then show ?thesis using attach_at_keeps [OF ok, of "Inr p" sv] by simp
next
  case (attach_fails e sv)
  then show ?thesis using attach_at_keeps [OF ok, of "Inl e" sv] by simp
next
  case (attach_degrade c sv)
  then show ?thesis using degrade_keeps [OF ok] by blast
next
  case (attach_admit p res sv s)
  then show ?thesis using attach_admit_keeps [OF ok] by blast
next
  case (attach_refuse p e sv)
  have "clients_ok (sv_core (ma_sup m))" using machine_okE [OF ok] threads_parts(3) by metis
  from admit_result [OF attach_refuse(3) this] show ?thesis using attach_refuse(1,2)
    by (auto intro!: core_keeps [OF ok] simp: core_shows_def)
next
  case (control_stop res sv)
  then show ?thesis using control_keeps [OF ok] control_result(1) by blast
next
  case (control_signal tk sig res sv)
  then show ?thesis using control_keeps [OF ok] control_result(2) by blast
next
  case (close_begin sv)
  then show ?thesis using close_begin_keeps [OF ok] by blast
next
  case (close_port res sv)
  then show ?thesis using lock_keeps [OF ok, of LCloseJournal sv] on_port_result [OF close_port(3)] by simp
next
  case (close_journal res sv)
  then show ?thesis using close_journal_keeps [OF ok] by blast
next
  case (reader_check t rd sv)
  then show ?thesis using reader_check_keeps [OF ok] by blast
next
  case (reader_gone t rd res sv)
  then show ?thesis using reader_end_keeps [OF ok reader_gone(2) core_guards(5) [OF reader_gone(4)]] by simp
next
  case (reader_pull t rd rs q sv)
  then show ?thesis using reader_pull_keeps [OF ok, of t rd "Inr (rs, q)" sv] by simp
next
  case (reader_pull_fails t rd e sv)
  then show ?thesis using reader_pull_keeps [OF ok, of t rd "Inl e" sv] by simp
next
  case (reader_degrade t rd c sv)
  then show ?thesis using reader_degrade_keeps [OF ok] by blast
next
  case (reader_take t rd rs q b sv)
  then show ?thesis using reader_take_keeps [OF ok] by blast
next
  case (reader_dropped t rd rs q sv)
  then show ?thesis using reader_end_keeps [OF ok reader_dropped(2) core_guards(6) [OF reader_dropped(4)]] by simp
next
  case (release t sv)
  then show ?thesis using release_keeps [OF ok] by blast
qed

lemma run_keeps:
  assumes "sup_run J P m0 m" "machine_ok at lost pos m0"
  shows "machine_ok at lost pos m"
  using assms by induction (auto intro: step_keeps)

lemma start_ok:
  assumes "at [] (sv_journal sv)" "sv_core sv = \<lparr>co_identity = i, co_view = start_view, co_cursor = 0, co_closed = False,
    co_clients = [], co_next = 1\<rparr>"
  shows "machine_ok at lost pos (machine_start sv)"
  using assms by (intro machine_okI [where b = False and rs = "[]" and n = 0])
    (simp_all add: machine_start_def threads_ok_def core_shows_def clients_ok_def start_view_def)

end

end
