(* ===== verification/Core_Replay.thy ===== *)
theory Core_Replay imports Main Core_Safety begin

text \<open>
  What a session gets from a journal that stands: \<open>wait\<close> and the event generator go through
  the stored records one pull at a time and end, or wait for more, after finitely many turns.
\<close>

section \<open>The event a record becomes\<close>

datatype session_end = EndWait | EndExit process_exit | EndLost

text \<open>The events of the records in order, up to the first EXIT or DEGRADED record.\<close>

fun events_of :: "journal_record list \<Rightarrow> process_event list \<times> session_end" where
  "events_of [] = ([], EndWait)"
| "events_of (r # rs) =
     (case jr_kind r of
        KOutput \<Rightarrow> (case events_of rs of (evs, e) \<Rightarrow> (OutputEvent (the (jr_stream r)) (the (jr_data r)) # evs, e))
      | KExit \<Rightarrow> ([StatusEvent (the (jr_exit r))], EndExit (the (jr_exit r)))
      | KDegraded \<Rightarrow> ([], EndLost)
      | _ \<Rightarrow> events_of rs)"

text \<open>Resuming the generator until it waits, stops or raises; at most \<open>m\<close> times.\<close>

fun session_drain :: "nat \<Rightarrow> nat \<Rightarrow> 's journal_ops \<Rightarrow> session_gen \<Rightarrow> session \<times> ('s, 'p) supervisor \<Rightarrow>
    process_event list \<times> (sup_exn + session_out \<times> session_gen) \<times> session \<times> ('s, 'p) supervisor" where
  "session_drain 0 n J g s = ([], Inr (SBlocked, g), s)"
| "session_drain (Suc m) n J g s =
     (case session_next n J g s of
        (Inr (SYield ev, g'), t) \<Rightarrow> (case session_drain m n J g' t of (evs, r, u) \<Rightarrow> (ev # evs, r, u))
      | (r, t) \<Rightarrow> ([], r, t))"

section \<open>An attached session on a journal that stands\<close>

definition attached :: "(journal_record list \<Rightarrow> 's \<Rightarrow> bool) \<Rightarrow> journal_record list \<Rightarrow> nat \<Rightarrow> ('s, 'p) supervisor \<Rightarrow> bool" where
  "attached at rs t sv \<longleftrightarrow>
     at rs (sv_journal sv) \<and> \<not> co_closed (sv_core sv) \<and> co_cursor (sv_core sv) = int (length rs) \<and>
     co_view (sv_core sv) = view_of rs \<and> t \<in> set (co_clients (sv_core sv))"

lemma view_error_mild:
  assumes "log_view rs = Inr v" "v_error v = Some e"
  shows "\<not> fatal e"
  using assms
proof (induction rs arbitrary: v rule: rev_induct)
  case (snoc r rs)
  then obtain u where "log_view rs = Inr u" "apply_semantics r u = Inr v" by (auto simp: rbind_Inr_iff)
  with snoc show ?case
    by (cases "v_phase u"; cases "jr_kind r") (auto simp: apply_semantics_def fatal_def)
qed (simp add: start_view_def)

context durable_journal begin

lemma attached_not_fatal: "attached at rs t sv \<Longrightarrow> raise_fatal (sv_core sv) s = (Inr (), s)"
  using proper view_of_log view_error_mild
  by (fastforce simp: attached_def raise_fatal_def split: option.splits)

lemma records_next:
  assumes a: "attached at rs t sv" and k: "k < length rs"
  obtains sv' where "core_records_or_wait J (pos (take k rs)) t sv = (Inr (Got (Some ([rs ! k], pos (take (Suc k) rs)))), sv')"
    "attached at rs t sv'" "sv_core sv' = sv_core sv" "sv_port sv' = sv_port sv"
proof -
  obtain res s' where s: "jo_pull J (pos (take k rs)) pull_limit (sv_journal sv) = (res, s')" by fastforce
  have "res = Inr ([rs ! k], pos (take (Suc k) rs))" "at rs s'" using pull_law [OF _ k s] a by (simp_all add: attached_def)
  then show ?thesis using a k s
    by (intro that [of "sv\<lparr>sv_journal := s'\<rparr>"])
      (auto simp: attached_def core_records_or_wait_def core_reader_check_def core_reader_pull_def core_reader_recheck_def
        cget_def on_sup_error_def on_journal_def sbind_def sthen_def scatch_def pos_cursor)
qed

lemma records_wait:
  assumes a: "attached at rs t sv"
  shows "core_records_or_wait J (pos rs) t sv = (Inr Blocked, sv)"
  using a attached_not_fatal [OF a, of sv]
  by (simp add: attached_def core_records_or_wait_def core_reader_check_def cget_def sbind_def sthen_def pos_cursor)

subsection \<open>\<open>wait\<close>\<close>

text \<open>What the loop of \<open>_wait_terminal\<close> returns.\<close>

lemma terminal_loop:
  assumes "attached at rs t sv" "k \<le> length rs" "length rs - k < n"
  shows "\<exists>sv' q. core_terminal_loop n J (pos (take k rs)) t sv =
      (rbind (terminal_of (drop k rs)) (\<lambda>x. Inr (case x of None \<Rightarrow> (Blocked, pos rs) | Some p \<Rightarrow> (Got p, q))), sv') \<and>
      attached at rs t sv' \<and> sv_core sv' = sv_core sv"
  using assms
proof (induction n arbitrary: k sv)
  case (Suc n)
  show ?case
  proof (cases "k < length rs")
    case False
    then have k: "k = length rs" using Suc.prems(2) by simp
    have "core_terminal_loop (Suc n) J (pos rs) t sv = (Inr (Blocked, pos rs), sv)"
      by (simp add: sbind_def records_wait [OF Suc.prems(1)])
    then show ?thesis using k Suc.prems(1) by auto
  next
    case True
    obtain sv1 where s1: "core_records_or_wait J (pos (take k rs)) t sv = (Inr (Got (Some ([rs ! k], pos (take (Suc k) rs)))), sv1)"
      "attached at rs t sv1" "sv_core sv1 = sv_core sv" using records_next [OF Suc.prems(1) True] .
    have d: "drop k rs = rs ! k # drop (Suc k) rs" using True by (rule Cons_nth_drop_Suc [symmetric])
    have loop: "core_terminal_loop (Suc n) J (pos (take k rs)) t sv =
        (case terminal_of [rs ! k] of Inl e \<Rightarrow> (Inl e, sv1) | Inr (Some p) \<Rightarrow> (Inr (Got p, pos (take (Suc k) rs)), sv1)
         | Inr None \<Rightarrow> core_terminal_loop n J (pos (take (Suc k) rs)) t sv1)"
      by (simp add: sbind_def s1(1) split: sum.splits option.splits)
    have lt: "length rs - Suc k < n" using Suc.prems(3) True by linarith
    obtain sv2 q where s2: "core_terminal_loop n J (pos (take (Suc k) rs)) t sv1 =
        (rbind (terminal_of (drop (Suc k) rs)) (\<lambda>x. Inr (case x of None \<Rightarrow> (Blocked, pos rs) | Some p \<Rightarrow> (Got p, q))), sv2)"
      "attached at rs t sv2" "sv_core sv2 = sv_core sv1" using Suc.IH [OF s1(2) Suc_leI [OF True] lt] by auto
    show ?thesis
    proof (cases "jr_kind (rs ! k) \<in> {KExit, KDegraded}")
      case True
      then show ?thesis unfolding loop d using s1(2,3) by (auto split: option.splits)
    next
      case False
      then show ?thesis unfolding loop d using s2 s1(3) by auto
    qed
  qed
qed simp


text \<open>The session is released when the loop ends, and stays attached while it waits.\<close>

lemma wait_terminal:
  assumes "attached at rs t sv" "k \<le> length rs" "length rs - k < n"
  shows "\<exists>sv' q. core_wait_terminal n J (pos (take k rs)) t sv =
      (rbind (terminal_of (drop k rs)) (\<lambda>x. Inr (case x of None \<Rightarrow> (Blocked, pos rs) | Some p \<Rightarrow> (Got p, q))), sv') \<and>
      at rs (sv_journal sv') \<and> (if terminal_of (drop k rs) = Inr None then attached at rs t sv' else t \<notin> set (co_clients (sv_core sv')))"
proof -
  obtain sv1 q where l: "core_terminal_loop n J (pos (take k rs)) t sv =
      (rbind (terminal_of (drop k rs)) (\<lambda>x. Inr (case x of None \<Rightarrow> (Blocked, pos rs) | Some p \<Rightarrow> (Got p, q))), sv1)"
    "attached at rs t sv1" using terminal_loop [OF assms] by blast
  then show ?thesis
    by (cases "terminal_of (drop k rs)")
      (auto simp: core_wait_terminal_def core_release_def cput_def sbind_def scatch_def sthen_def attached_def split: option.splits)
qed

end

subsection \<open>The events\<close>

definition session_at :: "(journal_record list \<Rightarrow> 's \<Rightarrow> bool) \<Rightarrow> (journal_record list \<Rightarrow> jpos) \<Rightarrow> journal_record list \<Rightarrow> nat \<Rightarrow>
    session \<times> ('s, 'p) supervisor \<Rightarrow> bool" where
  "session_at at pos rs k s \<longleftrightarrow> k \<le> length rs \<and> ss_position (fst s) = pos (take k rs) \<and> attached at rs (ss_token (fst s)) (snd s)"

text \<open>Where a run of the generator's loop stops, over the records from the \<open>k\<close>th on.\<close>

fun loop_stops :: "(nat \<Rightarrow> session \<times> ('s, 'p) supervisor \<Rightarrow> bool) \<Rightarrow> journal_record list \<Rightarrow>
    process_event list \<times> session_end \<Rightarrow> (sup_exn + session_out \<times> session_gen) \<times> session \<times> ('s, 'p) supervisor \<Rightarrow> bool" where
  "loop_stops Q rs ([], EndWait) x \<longleftrightarrow> fst x = Inr (SBlocked, STop) \<and> Q (length rs) (snd x)"
| "loop_stops Q rs ([], EndLost) x \<longleftrightarrow> fst x = Inl (Sup ControlLost) \<and> (\<exists>k. Q k (snd x))"
| "loop_stops Q rs (StatusEvent p # evs, e) x \<longleftrightarrow>
     fst x = Inr (SYield (StatusEvent p), SReturn) \<and> evs = [] \<and> e = EndExit p \<and> ss_terminal (fst (snd x)) = Some p \<and> (\<exists>k. Q k (snd x))"
| "loop_stops Q rs (OutputEvent st d # evs, e) x \<longleftrightarrow>
     fst x = Inr (SYield (OutputEvent st d), SFor []) \<and> (\<exists>k. Q k (snd x) \<and> events_of (drop k rs) = (evs, e))"
| "loop_stops Q rs ([], EndExit p) x \<longleftrightarrow> False"

context durable_journal begin

lemma session_turn:
  assumes s: "session_at at pos rs k s" and k: "k < length rs"
  obtains s' where "session_at at pos rs (Suc k) s'" "\<And>n. session_loop (Suc n) J s =
      sbind (session_records [rs ! k]) (\<lambda>x. case x of Some y \<Rightarrow> sret y | None \<Rightarrow> session_loop n J) s'"
proof -
  obtain ss sv where ss: "s = (ss, sv)" by (cases s)
  have a: "attached at rs (ss_token ss) sv" "ss_position ss = pos (take k rs)" using s ss by (simp_all add: session_at_def)
  obtain sv' where p: "core_records_or_wait J (pos (take k rs)) (ss_token ss) sv = (Inr (Got (Some ([rs ! k], pos (take (Suc k) rs)))), sv')"
    "attached at rs (ss_token ss) sv'" using records_next [OF a(1) k] .
  show ?thesis
  proof (rule that [of "(ss\<lparr>ss_position := pos (take (Suc k) rs)\<rparr>, sv')"])
    show "session_at at pos rs (Suc k) (ss\<lparr>ss_position := pos (take (Suc k) rs)\<rparr>, sv')"
      using p(2) k by (simp add: session_at_def)
    show "session_loop (Suc n) J s = sbind (session_records [rs ! k]) (\<lambda>x. case x of Some y \<Rightarrow> sret y | None \<Rightarrow> session_loop n J)
        (ss\<lparr>ss_position := pos (take (Suc k) rs)\<rparr>, sv')" for n
      by (simp add: ss sbind_def ssget_def on_core_def a(2) p(1) sthen_def ssput_def)
  qed
qed

lemma session_waits: "session_at at pos rs (length rs) s \<Longrightarrow> session_loop (Suc n) J s = (Inr (SBlocked, STop), s)"
  using records_wait [of rs "ss_token (fst s)" "snd s"] by (cases s) (simp add: session_at_def sbind_def ssget_def on_core_def)

lemma loop_result:
  assumes "session_at at pos rs k s" "list_all record_ok rs" "length rs - k < n"
  shows "loop_stops (session_at at pos rs) rs (events_of (drop k rs)) (session_loop n J s)"
  using assms
proof (induction n arbitrary: k s)
  case (Suc n)
  show ?case
  proof (cases "k < length rs")
    case False
    then have "k = length rs" using Suc.prems(1) by (simp add: session_at_def)
    with Suc.prems(1) have s: "session_at at pos rs (length rs) s" by simp
    show ?thesis unfolding session_waits [OF s] using \<open>k = length rs\<close> s by simp
  next
    case True
    obtain s' where s': "session_at at pos rs (Suc k) s'" "\<And>n. session_loop (Suc n) J s =
      sbind (session_records [rs ! k]) (\<lambda>x. case x of Some y \<Rightarrow> sret y | None \<Rightarrow> session_loop n J) s'"
      using session_turn [OF Suc.prems(1) True] by blast
    have d: "drop k rs = rs ! k # drop (Suc k) rs" using True by (rule Cons_nth_drop_Suc [symmetric])
    have ok: "record_ok (rs ! k)" using Suc.prems(2) True by (simp add: list_all_length)
    have lt: "length rs - Suc k < n" using Suc.prems(3) True by linarith
    note ih = Suc.IH [OF s'(1) Suc.prems(2) lt]
    obtain ss sv where ss: "s' = (ss, sv)" by (cases s')
    show ?thesis
    proof (cases "jr_kind (rs ! k)")
      case KOutput
      with ok obtain st b where "jr_stream (rs ! k) = Some st" "jr_data (rs ! k) = Some b" "b \<noteq> []" by (auto simp: record_ok_def)
      with KOutput s' show ?thesis
        by (auto simp: d sbind_def session_record_def as_sup_def output_event_init_def split: prod.splits intro!: exI [of _ "Suc k"])
    next
      case KExit
      with ok obtain p where "jr_exit (rs ! k) = Some p" by (auto simp: record_ok_def)
      with KExit s' ss show ?thesis
        by (auto simp: d sbind_def session_record_def sthen_def ssput_def session_at_def intro!: exI [of _ "Suc k"])
    next
      case KDegraded
      with s' show ?thesis by (auto simp: d sbind_def session_record_def)
    next
      case KReady
      with s'(2) ih show ?thesis by (simp add: d sbind_def session_record_def)
    next
      case KReadinessFailed
      with s'(2) ih show ?thesis by (simp add: d sbind_def session_record_def)
    qed
  qed
qed simp


lemma session_resume:
  "g \<in> {STop, SFor []} \<Longrightarrow> session_next n J g s = session_guarded (session_loop n J) s"
  by (auto simp: session_next_def session_guarded_def sbind_def scatch_def)

lemma drain_unfold:
  assumes "g \<in> {STop, SFor []}"
  shows "session_drain (Suc m) n J g s =
     (case session_guarded (session_loop n J) s of
        (Inr (SYield ev, g'), t) \<Rightarrow> (case session_drain m n J g' t of (evs, r, u) \<Rightarrow> (ev # evs, r, u))
      | (r, t) \<Rightarrow> ([], r, t))"
  by (simp add: session_resume [OF assms])

lemma guarded_result:
  "session_guarded m s = (case m s of
     (Inr x, t) \<Rightarrow> (Inr x, t)
   | (Inl e, (ss, sv)) \<Rightarrow> (Inl e, ((case e of Sup c \<Rightarrow> ss\<lparr>ss_terminal_error := Some c\<rparr> | _ \<Rightarrow> ss),
       sv\<lparr>sv_core := (sv_core sv)\<lparr>co_clients := removeAll (ss_token ss) (co_clients (sv_core sv))\<rparr>\<rparr>)))"
  by (auto simp: session_guarded_def scatch_def sthen_def sbind_def ssput_def session_release_def ssget_def on_core_def
      core_release_def cput_def split: sum.splits prod.splits sup_exn.splits)

lemma finish_result:
  "session_next n J SReturn (ss, sv) =
     (Inr (SStopped, SDone), (ss, sv\<lparr>sv_core := (sv_core sv)\<lparr>co_clients := removeAll (ss_token ss) (co_clients (sv_core sv))\<rparr>\<rparr>))"
  by (simp add: session_next_def session_finish_def session_guarded_def session_release_def ssget_def on_core_def
      core_release_def cput_def sthen_def sbind_def scatch_def)

text \<open>How a drained generator ends.\<close>

definition drained :: "journal_record list \<Rightarrow> session_end \<Rightarrow> (sup_exn + session_out \<times> session_gen) \<Rightarrow> session \<times> ('s, 'p) supervisor \<Rightarrow> bool" where
  "drained rs e r s \<longleftrightarrow>
     (case e of
        EndWait \<Rightarrow> r = Inr (SBlocked, STop) \<and> ss_position (fst s) = pos rs \<and> attached at rs (ss_token (fst s)) (snd s)
      | EndExit p \<Rightarrow> r = Inr (SStopped, SDone) \<and> ss_terminal (fst s) = Some p \<and> ss_token (fst s) \<notin> set (co_clients (sv_core (snd s)))
      | EndLost \<Rightarrow> r = Inl (Sup ControlLost) \<and> ss_terminal_error (fst s) = Some ControlLost \<and>
          ss_token (fst s) \<notin> set (co_clients (sv_core (snd s))))"

lemma drain_events:
  assumes "session_at at pos rs k s" "list_all record_ok rs" "length rs < n" "length (fst (events_of (drop k rs))) + 1 < m"
    "g \<in> {STop, SFor []}"
  shows "\<exists>r t. session_drain m n J g s = (fst (events_of (drop k rs)), r, t) \<and> drained rs (snd (events_of (drop k rs))) r t"
  using assms
proof (induction m arbitrary: k s g)
  case (Suc m)
  have lt: "length rs - k < n" using Suc.prems(3) by linarith
  obtain r ss sv where l: "session_loop n J s = (r, (ss, sv))" by (metis surj_pair)
  note st = loop_result [OF Suc.prems(1,2) lt, unfolded l]
  obtain evs e where ev: "events_of (drop k rs) = (evs, e)" by fastforce
  note u = drain_unfold [OF Suc.prems(5)] guarded_result l
  show ?case
  proof (cases evs)
    case Nil
    with st ev show ?thesis unfolding u by (cases e) (auto simp: drained_def session_at_def)
  next
    case (Cons x xs)
    show ?thesis
    proof (cases x)
      case (StatusEvent p)
      with st ev Cons Suc.prems(4) show ?thesis unfolding u
        by (cases m) (auto simp: drained_def finish_result simp del: session_drain.simps(1))
    next
      case (OutputEvent sr d)
      with st ev Cons obtain k' where k': "r = Inr (SYield x, SFor [])" "session_at at pos rs k' (ss, sv)" "events_of (drop k' rs) = (xs, e)"
        by auto
      with Suc.IH [OF k'(2) Suc.prems(2,3), of "SFor []"] Suc.prems(4) ev Cons show ?thesis unfolding u by fastforce
    qed
  qed
qed simp

end

end
