(* ===== verification/Core_Props.thy ===== *)
theory Core_Props imports Main Core_Replay begin

text \<open>
  What the supervisor core guarantees on the journal of the module: it shows only what is
  stored, whatever its threads do, and a session replays exactly the stored records.
\<close>

section \<open>Attaching\<close>

lemma require_ready_result: "core_require_ready sv = (Inr (), sv') \<Longrightarrow> sv' = sv \<and> \<not> co_closed (sv_core sv)"
  by (auto simp: core_require_ready_def core_require_open_def raise_fatal_def cget_def sbind_def sthen_def
      split: option.splits if_splits sum.splits prod.splits)

lemma wait_ready_result:
  "core_wait_ready None 0 sv = (Inr (Got n), sv') \<Longrightarrow> sv' = sv \<and> v_ready (co_view (sv_core sv)) = Some n"
  by (auto simp: core_wait_ready_def core_require_open_def raise_fatal_def cget_def sbind_def sthen_def
      split: option.splits if_splits sum.splits prod.splits)

lemma admit_session:
  assumes "core_admit p sv = (Inr res, sv')" "rr_session res = Some ss"
  shows "ss = session_new (co_next (sv_core sv)) p" "\<not> co_closed (sv_core sv)"
    "\<exists>c. sv' = sv\<lparr>sv_core := c\<rparr> \<and> co_closed c = co_closed (sv_core sv) \<and> co_cursor c = co_cursor (sv_core sv) \<and>
       co_view c = co_view (sv_core sv) \<and> ss_token ss \<in> set (co_clients c)"
proof -
  obtain t where "core_require_ready sv = (Inr (), t)" using assms(1) by (auto simp: core_admit_def sthen_Inr)
  with require_ready_result have r: "core_require_ready sv = (Inr (), sv)" "\<not> co_closed (sv_core sv)" by auto
  let ?c = "sv_core sv"
  have "ss = session_new (co_next ?c) p \<and>
      sv' = sv\<lparr>sv_core := ?c\<lparr>co_next := co_next ?c + 1, co_clients := List.insert (co_next ?c) (co_clients ?c)\<rparr>\<rparr>"
    using assms r(1)
    by (auto simp: core_admit_def cget_def cput_def sbind_def sthen_def Let_def as_sup_def run_result_init_def
        split: sum.splits prod.splits if_splits)
  then show "ss = session_new (co_next ?c) p" "\<exists>c. sv' = sv\<lparr>sv_core := c\<rparr> \<and> co_closed c = co_closed ?c \<and>
      co_cursor c = co_cursor ?c \<and> co_view c = co_view ?c \<and> ss_token ss \<in> set (co_clients c)"
    by (auto simp: session_new_def)
  show "\<not> co_closed ?c" by (rule r(2))
qed

lemma terminal_events:
  "list_all record_ok rs \<Longrightarrow> terminal_of rs = (case snd (events_of rs) of
     EndWait \<Rightarrow> Inr None | EndExit p \<Rightarrow> Inr (Some p) | EndLost \<Rightarrow> Inl (Sup ControlLost))"
proof (induction rs)
  case (Cons r rs)
  then show ?case by (cases "jr_kind r") (auto simp: record_ok_def split: prod.splits)
qed simp

context durable_journal begin

lemma attach_session:
  assumes at: "at rs (sv_journal sv)" and sync: "co_cursor (sv_core sv) = int (length rs)" "co_view (sv_core sv) = view_of rs"
    and run: "core_attached_result J sv = (Inr (Got res), sv1)" "rr_session res = Some ss"
  shows "session_at at pos rs 1 (ss, sv1) \<and> ss = session_new (ss_token ss) (pos (take 1 rs))"
proof -
  obtain x t where x: "core_wait_ready None 0 sv = (Inr x, t)" "x \<noteq> Blocked"
    using run(1) unfolding core_attached_result_def sbind_Inr by (auto split: wait.splits) (metis wait.exhaust)
  then obtain n where "core_wait_ready None 0 sv = (Inr (Got n), t)" by (cases x) auto
  with wait_ready_result [OF this] sync(2) have w: "core_wait_ready None 0 sv = (Inr (Got n), sv)" "v_ready (view_of rs) = Some n"
    by simp_all
  obtain rp s' where p: "jo_ready_position J (sv_journal sv) = (rp, s')" by fastforce
  with ready_law [OF at _ p] w(2) have p': "rp = Inr (pos (take 1 rs))" "at rs s'" by simp_all
  let ?sv = "sv\<lparr>sv_journal := s'\<rparr>"
  have "core_admit (pos (take 1 rs)) ?sv = (Inr res, sv1)"
    using run(1) p p'(1) w(1)
    by (auto simp: core_attached_result_def on_sup_error_def on_journal_def sbind_def scatch_def split: sum.splits prod.splits)
  note a = admit_session [OF this run(2)]
  have "rs \<noteq> []" using ready_take(3) [of rs "length rs"] proper at w(2) by force
  then have "1 \<le> length rs" by (cases rs) auto
  then show ?thesis using a p'(2) sync by (auto simp: session_at_def attached_def session_new_def)
qed

end

section \<open>A sample supervisor\<close>

definition idle_port :: "unit control_port" where
  "idle_port = \<lparr>cp_signal = (\<lambda>_. sret ()), cp_request_stop = sret (), cp_close = sret ()\<rparr>"

definition sample_supervisor :: "journal_record list \<Rightarrow> jstate \<Rightarrow> (jstate, unit) supervisor" where
  "sample_supervisor rs s = \<lparr>sv_core = \<lparr>co_identity = sample_identity, co_view = view_of rs, co_cursor = int (length rs),
     co_closed = False, co_clients = [], co_next = 1\<rparr>, sv_journal = s, sv_port = ()\<rparr>"

lemma sample_stands: "log_ok sample_identity rs \<Longrightarrow> \<exists>s. journal_stands sample_identity rs s"
  using sample_journal [of rs] by (auto simp: journal_stands_def)

lemma sample_view: "view_of [ready_record, output_record] = start_view\<lparr>v_phase := PReady, v_ready := Some 1\<rparr>"
  by (simp add: view_of_def log_view_def start_view_def apply_semantics_def ready_record_def output_record_def args_record_def)

lemma sample_key: "dk_kind (er_key (si_record sample_identity)) = OciRoot"
  by (simp add: sample_identity_def sample_run_def)

lemma sample_attach:
  fixes rs defines "rs \<equiv> [ready_record, output_record]"
  assumes "journal_stands sample_identity rs s"
  shows "\<exists>res sv1 ss. core_attached_result supervisor_journal (sample_supervisor rs s) = (Inr (Got res), sv1) \<and> rr_session res = Some ss"
proof -
  obtain rp s' where p: "ready_position s = (rp, s')" by (metis surj_pair)
  have v: "view_of rs = start_view\<lparr>v_phase := PReady, v_ready := Some 1\<rparr>" unfolding rs_def by (rule sample_view)
  have rp: "rp = Inr (fst (anchors sample_identity (take 1 rs)))" using sj.ready_law [OF assms(2), of rp s'] p v by simp
  have c: "p_cursor (fst (anchors sample_identity (take (Suc 0) rs))) = 1" by (simp add: anchors_pos rs_def)
  show ?thesis
    by (simp add: core_attached_result_def core_wait_ready_def core_admit_def core_require_ready_def core_require_open_def
        raise_fatal_def on_sup_error_def on_journal_def cget_def cput_def sbind_def sthen_def scatch_def Let_def p rp c v start_view_def
        sample_supervisor_def max_active_sessions_def as_sup_def run_result_init_def status_of_def allowed_statuses_def sample_key)
qed

section \<open>The core shows what is stored\<close>

lemma new_core_ok:
  assumes "journal_stands i [] s" "core_new supervisor_journal i s port = (Inr sv, s')"
  shows "machine_ok (journal_stands i) (journal_lost i) (\<lambda>rs. fst (anchors i rs)) (machine_start sv)"
proof -
  obtain rn t where r: "journal_snapshot s = (rn, t)" by (metis surj_pair)
  have "rn = Inr \<lparr>sn_view = start_view, sn_cursor = 0\<rparr>" "journal_stands i [] t"
    using sj.snapshot_law [OF assms(1), of rn t] r by simp_all
  then show ?thesis using assms(2) r
    by (intro sj.start_ok [where i = i]) (auto simp: core_new_def split: if_splits)
qed

text \<open>The bytes of the journal file of a machine.\<close>

definition journal_bytes :: "(jstate, 'p) machine \<Rightarrow> bytes" where
  "journal_bytes m = fs_content (wcore (snd (sv_journal (ma_sup m))))"

lemma threads_claim:
  assumes "threads_ok pos rs n b c pc R"
  shows "n \<le> length rs" "co_cursor c = int n" "v_ready (co_view c) = v_ready (view_of (take n rs))"
    "v_exit (co_view c) = v_exit (view_of (take n rs))" "\<not> b \<Longrightarrow> co_view c = view_of (take n rs)"
    "distinct (co_clients c)" "length (co_clients c) \<le> max_active_sessions"
    "R t = Some rd \<Longrightarrow> \<exists>k. 1 \<le> k \<and> k \<le> n \<and> rd_got rd = drop 1 (take k rs)"
proof -
  show "R t = Some rd \<Longrightarrow> \<exists>k. 1 \<le> k \<and> k \<le> n \<and> rd_got rd = drop 1 (take k rs)"
    using threads_some(2) [OF assms] unfolding reader_ok_def by blast
qed (use assms in \<open>auto simp: threads_ok_def core_shows_def clients_ok_def\<close>)

lemma stands_bytes:
  "journal_stands i rs s \<Longrightarrow> log_ok i rs \<and> fs_content (wcore (snd s)) = log_image i rs"
  using journal_at_parts(6,7) by (auto simp: journal_stands_def)

text \<open>C17. Nothing is published before it is stored, whatever the threads do. Take a new core on an empty
  journal and any interleaving of the locked sections of commits, attaches, signals, stops, releases,
  close, and of the pulls of any number of sessions, with short writes, failing writes and failing syncs. Then
  the journal file starts with the image of a well-formed list of records, and for some \<open>n\<close> the cursor,
  readiness and exit the core shows are those of the first \<open>n\<close> of them, its phase too unless the journal
  was lost; each session has taken a prefix of the records after the first, each once and in
  order, none of them past the cursor; and at most 32 sessions, all different, are active.\<close>

theorem core_shows_stored_records:
  assumes "journal_stands i [] s" "core_new supervisor_journal i s port = (Inr sv, s')"
    and "sup_run supervisor_journal P (machine_start sv) m"
  shows "\<exists>rs n t. let c = sv_core (ma_sup m) in
      log_ok i rs \<and> journal_bytes m = log_image i rs @ t \<and> n \<le> length rs \<and>
      co_cursor c = int n \<and> v_ready (co_view c) = v_ready (view_of (take n rs)) \<and> v_exit (co_view c) = v_exit (view_of (take n rs)) \<and>
      (co_view c = view_of (take n rs) \<or> journal_lost i rs (sv_journal (ma_sup m))) \<and>
      (\<forall>tk rd. ma_readers m tk = Some rd \<longrightarrow> (\<exists>k. 1 \<le> k \<and> k \<le> n \<and> rd_got rd = drop 1 (take k rs))) \<and>
      distinct (co_clients c) \<and> length (co_clients c) \<le> 32"
proof -
  obtain rs n b where j: "if b then journal_lost i rs (sv_journal (ma_sup m)) else journal_stands i rs (sv_journal (ma_sup m))"
    and t: "threads_ok (\<lambda>rs. fst (anchors i rs)) rs n b (sv_core (ma_sup m)) (ma_lock m) (ma_readers m)"
    using machine_okE [OF sj.run_keeps [OF assms(3) new_core_ok [OF assms(1,2)]]] .
  obtain t' where "log_ok i rs" "journal_bytes m = log_image i rs @ t'"
    using j stands_bytes by (cases b) (auto simp: journal_lost_def journal_bytes_def)
  moreover have "co_view (sv_core (ma_sup m)) = view_of (take n rs) \<or> journal_lost i rs (sv_journal (ma_sup m))"
    using threads_claim(5) [OF t] j by (cases b) simp_all
  ultimately show ?thesis using threads_claim [OF t] unfolding Let_def max_active_sessions_def
    by (intro exI [of _ rs] exI [of _ n] exI [of _ t']) blast
qed

theorem core_shows_stored_records_witness:
  "\<exists>s sv s' m. journal_stands sample_identity [] s \<and> core_new supervisor_journal sample_identity s () = (Inr sv, s') \<and>
     sup_run supervisor_journal idle_port (machine_start sv) m \<and> ma_lock m = LAppend CReady \<and>
     (\<exists>rs n t. log_ok sample_identity rs \<and> journal_bytes m = log_image sample_identity rs @ t \<and> n \<le> length rs \<and>
        co_cursor (sv_core (ma_sup m)) = int n)"
proof -
  obtain s where s: "journal_stands sample_identity [] s" using sample_stands [OF sample_logs(1)] by blast
  obtain rn s' where n: "journal_snapshot s = (rn, s')" by (metis surj_pair)
  have rn: "rn = Inr \<lparr>sn_view = start_view, sn_cursor = 0\<rparr>" using sj.snapshot_law [OF s, of rn s'] n by simp
  have id: "j_identity (fst s) = sample_identity" using s journal_at_parts(1) by (auto simp: journal_stands_def)
  let ?sv = "sample_supervisor [] s'"
  have new: "core_new supervisor_journal sample_identity s () = (Inr ?sv, s')"
    by (simp add: core_new_def n rn id sample_supervisor_def)
  have "core_require_open (ma_sup (machine_start ?sv)) = (Inr (), ?sv)"
    by (simp add: core_require_open_def cget_def sbind_def machine_start_def sample_supervisor_def)
  from sup_run.more [OF sup_run.none commit_begin [OF _ _ this, of CReady supervisor_journal idle_port]]
  have run: "sup_run supervisor_journal idle_port (machine_start ?sv) ((machine_start ?sv)\<lparr>ma_sup := ?sv, ma_lock := LAppend CReady\<rparr>)"
    by (simp add: machine_start_def)
  show ?thesis
    using core_shows_stored_records [OF s new run] s new run unfolding Let_def
    by (intro exI [of _ s] exI [of _ ?sv] exI [of _ s'] exI [of _ "(machine_start ?sv)\<lparr>ma_sup := ?sv, ma_lock := LAppend CReady\<rparr>"])
      (simp, blast)
qed

section \<open>What a session gets\<close>

lemma stands_records: "journal_stands i rs s \<Longrightarrow> list_all record_ok rs"
  using stands_bytes [of i rs s] by (auto simp: list_all_length log_ok_def entry_ok_def)

text \<open>C26. An attached session replays the journal. When \<open>attached_result\<close> gives a session on a journal
  that stands for \<open>rs\<close>, resuming its event generator yields exactly one output event per
  OUTPUT record after the first record, with the stream and the bytes of the record, then the status event
  of an EXIT record. After it the generator stops, holds the exit for \<open>wait\<close> and the session is
  released; on a DEGRADED record it raises \<open>CONTROL_LOST\<close> and the session is released; and when the records
  run out it waits at the tail, still attached.\<close>

theorem attached_session_replays:
  assumes "journal_stands i rs (sv_journal sv)" "co_cursor (sv_core sv) = int (length rs)" "co_view (sv_core sv) = view_of rs"
    and "core_attached_result supervisor_journal sv = (Inr (Got res), sv1)" "rr_session res = Some ss"
    and "length rs < n" "length rs + 1 < m"
  shows "\<exists>r s2 sv2. session_drain m n supervisor_journal STop (ss, sv1) = (fst (events_of (drop 1 rs)), r, (s2, sv2)) \<and>
    (case snd (events_of (drop 1 rs)) of
       EndWait \<Rightarrow> r = Inr (SBlocked, STop) \<and> ss_position s2 = fst (anchors i rs) \<and> ss_token s2 \<in> set (co_clients (sv_core sv2))
     | EndExit p \<Rightarrow> r = Inr (SStopped, SDone) \<and> ss_terminal s2 = Some p \<and> ss_token s2 \<notin> set (co_clients (sv_core sv2))
     | EndLost \<Rightarrow> r = Inl (Sup ControlLost) \<and> ss_terminal_error s2 = Some ControlLost \<and> ss_token s2 \<notin> set (co_clients (sv_core sv2)))"
proof -
  have len: "length (fst (events_of xs)) \<le> length xs" for xs
    by (induction xs) (auto split: record_kind.splits prod.splits)
  then have "length (fst (events_of (drop 1 rs))) + 1 < m" using assms(7) by (metis (no_types) le_less_trans add_le_mono1 diff_le_self length_drop le_trans)
  with sj.drain_events [OF conjunct1 [OF sj.attach_session [OF assms(1-5)]] stands_records [OF assms(1)] assms(6)]
  obtain r t where "session_drain m n supervisor_journal STop (ss, sv1) = (fst (events_of (drop 1 rs)), r, t)"
    "sj.drained i rs (snd (events_of (drop 1 rs))) r t" by blast
  then show ?thesis
    by (intro exI [of _ r] exI [of _ "fst t"] exI [of _ "snd t"]) (auto simp: sj.drained_def attached_def split: session_end.splits)
qed

theorem attached_session_replays_witness:
  "\<exists>s res sv1 ss r u. journal_stands sample_identity [ready_record, output_record] s \<and>
     core_attached_result supervisor_journal (sample_supervisor [ready_record, output_record] s) = (Inr (Got res), sv1) \<and>
     rr_session res = Some ss \<and>
     session_drain 4 3 supervisor_journal STop (ss, sv1) = ([OutputEvent Stdout [72, 105]], r, u) \<and> r = Inr (SBlocked, STop)"
proof -
  let ?rs = "[ready_record, output_record]"
  obtain s where s: "journal_stands sample_identity ?rs s" using sample_stands [OF sample_logs(3)] by blast
  obtain res sv1 ss where a: "core_attached_result supervisor_journal (sample_supervisor ?rs s) = (Inr (Got res), sv1)" "rr_session res = Some ss"
    using sample_attach [OF s] by blast
  have "events_of (drop 1 ?rs) = ([OutputEvent Stdout [72, 105]], EndWait)" by (simp add: output_record_def args_record_def)
  with attached_session_replays [of sample_identity ?rs "sample_supervisor ?rs s" res sv1 ss 3 4] s a
  obtain u where "session_drain 4 3 supervisor_journal STop (ss, sv1) = ([OutputEvent Stdout [72, 105]], Inr (SBlocked, STop), u)"
    by (auto simp: sample_supervisor_def)
  then show ?thesis using s a by blast
qed

text \<open>C27. \<open>wait\<close> on a fresh session ends within one turn per stored record: it returns the exit of the first EXIT
  record after the first record, or raises \<open>CONTROL_LOST\<close> for a DEGRADED one, and the session is released; with
  neither it waits, with nothing left to read.\<close>

theorem attached_session_wait_ends:
  assumes "journal_stands i rs (sv_journal sv)" "co_cursor (sv_core sv) = int (length rs)" "co_view (sv_core sv) = view_of rs"
    and "core_attached_result supervisor_journal sv = (Inr (Got res), sv1)" "rr_session res = Some ss" "length rs \<le> n"
  shows "\<exists>s2 sv2 q. session_wait n supervisor_journal (ss, sv1) =
      ((case snd (events_of (drop 1 rs)) of EndWait \<Rightarrow> Inr (Blocked, fst (anchors i rs)) | EndExit p \<Rightarrow> Inr (Got p, q)
        | EndLost \<Rightarrow> Inl (Sup ControlLost)), (s2, sv2)) \<and>
      (snd (events_of (drop 1 rs)) = EndWait \<longleftrightarrow> ss_token ss \<in> set (co_clients (sv_core sv2)))"
proof -
  note a = sj.attach_session [OF assms(1-5)]
  then have at: "attached (journal_stands i) rs (ss_token ss) sv1" "1 \<le> length rs" "ss_position ss = fst (anchors i (take 1 rs))"
    by (simp_all add: session_at_def)
  have fresh: "ss_terminal ss = None" "ss_terminal_error ss = None" "\<not> ss_closed ss" "\<not> ss_consumed ss"
    using arg_cong [OF conjunct2 [OF a], of ss_terminal] arg_cong [OF conjunct2 [OF a], of ss_terminal_error]
      arg_cong [OF conjunct2 [OF a], of ss_closed] arg_cong [OF conjunct2 [OF a], of ss_consumed] by (simp_all add: session_new_def)
  have "length rs - 1 < n" using at(2) assms(6) by linarith
  from sj.wait_terminal [OF at(1,2) this] obtain sv2 q where w:
    "core_wait_terminal n supervisor_journal (ss_position ss) (ss_token ss) sv1 =
      (rbind (terminal_of (drop 1 rs)) (\<lambda>x. Inr (case x of None \<Rightarrow> (Blocked, fst (anchors i rs)) | Some p \<Rightarrow> (Got p, q))), sv2)"
    "if terminal_of (drop 1 rs) = Inr None then attached (journal_stands i) rs (ss_token ss) sv2 else ss_token ss \<notin> set (co_clients (sv_core sv2))"
    unfolding at(3) by blast
  have "list_all record_ok (drop 1 rs)" using stands_records [OF assms(1)] by (auto simp: list_all_length)
  note t = terminal_events [OF this]
  have "session_wait n supervisor_journal (ss, sv1) = session_wait_from n supervisor_journal (ss_position ss) (ss\<lparr>ss_consumed := True\<rparr>, sv1)"
    using fresh by (simp add: session_wait_def session_wait_begin_def sbind_def sthen_def ssget_def ssput_def)
  then show ?thesis using w unfolding t
    by (cases "snd (events_of (drop 1 rs))")
      (auto simp: session_wait_from_def sbind_def sthen_def scatch_def ssget_def ssput_def on_core_def attached_def)
qed

theorem attached_session_wait_ends_witness:
  "\<exists>s res sv1 ss u. journal_stands sample_identity [ready_record, output_record] s \<and>
     core_attached_result supervisor_journal (sample_supervisor [ready_record, output_record] s) = (Inr (Got res), sv1) \<and>
     rr_session res = Some ss \<and>
     session_wait 2 supervisor_journal (ss, sv1) = (Inr (Blocked, fst (anchors sample_identity [ready_record, output_record])), u)"
proof -
  let ?rs = "[ready_record, output_record]"
  obtain s where s: "journal_stands sample_identity ?rs s" using sample_stands [OF sample_logs(3)] by blast
  obtain res sv1 ss where a: "core_attached_result supervisor_journal (sample_supervisor ?rs s) = (Inr (Got res), sv1)" "rr_session res = Some ss"
    using sample_attach [OF s] by blast
  have "snd (events_of (drop 1 ?rs)) = EndWait" by (simp add: output_record_def args_record_def)
  with attached_session_wait_ends [of sample_identity ?rs "sample_supervisor ?rs s" res sv1 ss 2] s a
  obtain u where "session_wait 2 supervisor_journal (ss, sv1) = (Inr (Blocked, fst (anchors sample_identity ?rs)), u)"
    by (auto simp: sample_supervisor_def)
  then show ?thesis using s a by blast
qed

end
