(* ===== verification/Oci_Process.thy ===== *)
theory Oci_Process imports Main Py_Text begin

text \<open>
  \<open>src/palimpsest_local/oci_process.py\<close>: the process contract of an OCI image. Values of
  type \<open>Any\<close> are JSON; a tuple argument is a list, so the checks that something is a tuple
  or an \<open>OCIUserSpec\<close> are by typing. Every \<open>ArtifactValidationError\<close> is
  \<open>invalid_process\<close>, its message is not modelled; \<open>ValueErr\<close> is what \<open>int()\<close> and the strict
  UTF-8 encoder raise.
\<close>

section \<open>Limits and texts\<close>

definition max_process_arguments :: nat where "max_process_arguments = 4096"
definition max_process_environment :: nat where "max_process_environment = 4096"
definition max_process_bytes :: nat where "max_process_bytes = 262144"
definition max_account_database :: nat where "max_account_database = 65536"
definition max_user_override :: nat where "max_user_override = 65"
definition max_plain_bytes :: nat where "max_plain_bytes = 32768"

definition oci_default_path :: ustr where
  "oci_default_path = ul ''/usr/local/sbin:/usr/local/bin:/usr/sbin:/usr/bin:/sbin:/bin''"

definition path_name :: ustr where "path_name = ul ''PATH''"

definition invalid_process :: exn where "invalid_process = Refused ''ArtifactValidationError''"

definition is_letter :: "int \<Rightarrow> bool" where
  "is_letter c \<longleftrightarrow> (65 \<le> c \<and> c \<le> 90) \<or> (97 \<le> c \<and> c \<le> 122) \<or> c = 95"

text \<open>The patterns of a variable and of an account name, matched in full.\<close>

definition is_env_name :: "ustr \<Rightarrow> bool" where
  "is_env_name s \<longleftrightarrow> (case s of [] \<Rightarrow> False | c # cs \<Rightarrow> is_letter c \<and> list_all (\<lambda>c. is_letter c \<or> is_digit c) cs)"

definition is_account_name :: "ustr \<Rightarrow> bool" where
  "is_account_name s \<longleftrightarrow>
     (case s of [] \<Rightarrow> False
      | c # cs \<Rightarrow> is_letter c \<and> length cs \<le> 31 \<and> list_all (\<lambda>c. is_letter c \<or> is_digit c \<or> c = 46 \<or> c = 45) cs)"

definition signal_numbers :: "(string \<times> int) list" where
  "signal_numbers = [(''SIGHUP'', 1), (''SIGINT'', 2), (''SIGQUIT'', 3), (''SIGABRT'', 6), (''SIGKILL'', 9), (''SIGUSR1'', 10),
     (''SIGUSR2'', 12), (''SIGPIPE'', 13), (''SIGALRM'', 14), (''SIGTERM'', 15), (''SIGCHLD'', 17), (''SIGCONT'', 18),
     (''SIGSTOP'', 19), (''SIGTSTP'', 20), (''SIGTTIN'', 21), (''SIGTTOU'', 22)]"

section \<open>Fields\<close>

definition plain_string :: "json \<Rightarrow> bool \<Rightarrow> exn + ustr" where
  "plain_string v allow_empty =
     (case v of
        JStr s \<Rightarrow>
          if (\<not> allow_empty \<and> s = []) \<or> 0 \<in> set s then Inl invalid_process
          else (case utf8_encode s of
                  None \<Rightarrow> Inl ValueErr
                | Some b \<Rightarrow> if length b > max_plain_bytes then Inl invalid_process else Inr s)
      | _ \<Rightarrow> Inl invalid_process)"

definition account :: "json \<Rightarrow> exn + ustr" where
  "account v =
     (case v of
        JStr s \<Rightarrow>
          if is_decimal s
          then rbind (py_int s) (\<lambda>n. if n > 2 ^ 32 - 2 \<or> dec_int n \<noteq> s then Inl invalid_process else Inr s)
          else if is_account_name s then Inr s else Inl invalid_process
      | _ \<Rightarrow> Inl invalid_process)"

text \<open>The signal a text names; 0 when there is none.\<close>

definition signal_named :: "ustr \<Rightarrow> exn + int" where
  "signal_named s =
     (let rendered = py_upper s in
      if is_decimal rendered
      then rbind (py_int rendered) (\<lambda>n. if dec_int n \<noteq> rendered then Inl invalid_process else Inr n)
      else let full = (if starts_with rendered (ul ''SIG'') then rendered else ul ''SIG'' @ rendered)
           in Inr (case map_of (map (map_prod ul id) signal_numbers) full of Some n \<Rightarrow> n | None \<Rightarrow> 0))"

definition stop_signal :: "json \<Rightarrow> exn + int" where
  "stop_signal v =
     (if v = JNull \<or> v = JStr [] then Inr 15
      else rbind (case v of JInt n \<Rightarrow> Inr n | JStr s \<Rightarrow> signal_named s | _ \<Rightarrow> Inr 0)
             (\<lambda>n. if 1 \<le> n \<and> n \<le> 64 then Inr n else Inl invalid_process))"

section \<open>The user\<close>

record user_spec =
  us_user :: ustr
  us_group :: "ustr option"

text \<open>The constructor; the group is \<open>JNull\<close> when it is \<open>None\<close>.\<close>

definition user_init :: "json \<Rightarrow> json \<Rightarrow> exn + user_spec" where
  "user_init u g =
     rbind (account u) (\<lambda>user.
     if g = JNull then Inr \<lparr>us_user = user, us_group = None\<rparr>
     else rbind (account g) (\<lambda>grp. Inr \<lparr>us_user = user, us_group = Some grp\<rparr>))"

definition user_to_json :: "user_spec \<Rightarrow> json" where
  "user_to_json u = JObj [(ul ''group'', jstr (us_group u)), (ul ''user'', JStr (us_user u))]"

definition user_from_value :: "json \<Rightarrow> exn + user_spec" where
  "user_from_value v =
     (if v = JNull \<or> v = JStr [] then user_init (JStr (ul ''0'')) (JStr (ul ''0''))
      else case v of
        JStr s \<Rightarrow>
          if length (filter (\<lambda>c. c = 58) s) > 1 then Inl invalid_process
          else (case partition_on 58 s of (user, rest) \<Rightarrow>
                  if user = [] \<or> rest = Some [] then Inl invalid_process
                  else user_init (JStr user) (jstr rest))
      | _ \<Rightarrow> Inl invalid_process)"

definition user_from_override :: "json \<Rightarrow> exn + user_spec" where
  "user_from_override v =
     (case v of
        JStr s \<Rightarrow> if s = [] \<or> length s > max_user_override then Inl invalid_process else user_from_value v
      | _ \<Rightarrow> Inl invalid_process)"

definition user_from_json :: "json \<Rightarrow> exn + user_spec" where
  "user_from_json v =
     (case v of
        JObj d \<Rightarrow>
          if \<not> same_keys d [''group'', ''user''] then Inl invalid_process
          else rbind (user_init (jget d ''user'') (jget d ''group'')) (\<lambda>u.
               if jget d ''group'' \<noteq> jstr (us_group u) \<or> jget d ''user'' \<noteq> JStr (us_user u) then Inl invalid_process
               else Inr u)
      | _ \<Rightarrow> Inl invalid_process)"

section \<open>The process\<close>

record process_spec =
  ps_argv :: "ustr list"
  ps_environment :: "(ustr \<times> ustr) list"
  ps_cwd :: ustr
  ps_user :: user_spec
  ps_stop_signal :: int

text \<open>One item of the environment: the name is new and well formed, the value plain.\<close>

definition env_item :: "(ustr \<times> ustr) list \<Rightarrow> json \<times> json \<Rightarrow> exn + (ustr \<times> ustr) list" where
  "env_item env item =
     (case fst item of
        JStr name \<Rightarrow>
          if \<not> is_env_name name \<or> name \<in> set (map fst env) then Inl invalid_process
          else rbind (plain_string (snd item) True) (\<lambda>v. Inr (env @ [(name, v)]))
      | _ \<Rightarrow> Inl invalid_process)"

definition with_default_path :: "(ustr \<times> ustr) list \<Rightarrow> exn + (ustr \<times> ustr) list" where
  "with_default_path env =
     (if path_name \<in> set (map fst env) then Inr env
      else if length env \<ge> max_process_environment then Inl invalid_process
      else Inr (env @ [(path_name, oci_default_path)]))"

fun adjacent_slashes :: "ustr \<Rightarrow> bool" where
  "adjacent_slashes (a # b # cs) \<longleftrightarrow> a = slash \<and> b = slash \<or> adjacent_slashes (b # cs)"
| "adjacent_slashes _ \<longleftrightarrow> False"

definition canonical_cwd :: "ustr \<Rightarrow> bool" where
  "canonical_cwd p \<longleftrightarrow> starts_with p [slash] \<and> normpath p = p \<and> \<not> adjacent_slashes p"

definition utf8_length :: "ustr \<Rightarrow> nat" where
  "utf8_length s = (case utf8_encode s of None \<Rightarrow> 0 | Some b \<Rightarrow> length b)"

text \<open>\<open>str(user.to_dict())\<close>: an account name has no character that \<open>repr\<close> escapes.\<close>

definition user_text :: "user_spec \<Rightarrow> ustr" where
  "user_text u =
     ul ''{'' @ [39] @ ul ''group'' @ [39] @ ul '': '' @
     (case us_group u of None \<Rightarrow> ul ''None'' | Some g \<Rightarrow> [39] @ g @ [39]) @
     ul '', '' @ [39] @ ul ''user'' @ [39] @ ul '': '' @ [39] @ us_user u @ [39] @ ul ''}''"

definition contract_size :: "ustr list \<Rightarrow> (ustr \<times> ustr) list \<Rightarrow> ustr \<Rightarrow> user_spec \<Rightarrow> nat" where
  "contract_size argv env cwd user =
     sum_list (map (\<lambda>v. utf8_length v + 1) argv) +
     sum_list (map (\<lambda>(n, v). utf8_length n + utf8_length v + 2) env) + (utf8_length cwd + utf8_length (user_text user))"

definition process_init :: "json list \<Rightarrow> (json \<times> json) list \<Rightarrow> json \<Rightarrow> user_spec \<Rightarrow> json \<Rightarrow> exn + process_spec" where
  "process_init argv env cwd user stop =
     (if length argv > max_process_arguments then Inl invalid_process
      else rbind (rmap (\<lambda>v. plain_string v True) argv) (\<lambda>argv'.
      if length env > max_process_environment then Inl invalid_process
      else rbind (rfold env_item [] env) (\<lambda>env0.
           rbind (with_default_path env0) (\<lambda>env'.
           rbind (plain_string cwd False) (\<lambda>cwd'.
           if \<not> canonical_cwd cwd' then Inl invalid_process
           else rbind (stop_signal stop) (\<lambda>n.
                if contract_size argv' env' cwd' user > max_process_bytes then Inl invalid_process
                else Inr \<lparr>ps_argv = argv', ps_environment = env', ps_cwd = cwd', ps_user = user, ps_stop_signal = n\<rparr>))))))"

definition process_again :: "ustr list \<Rightarrow> (ustr \<times> ustr) list \<Rightarrow> ustr \<Rightarrow> user_spec \<Rightarrow> int \<Rightarrow> exn + process_spec" where
  "process_again argv env cwd user n = process_init (map JStr argv) (map (map_prod JStr JStr) env) (JStr cwd) user (JInt n)"

definition bootable :: "process_spec \<Rightarrow> bool" where
  "bootable p \<longleftrightarrow> ps_argv p \<noteq> [] \<and> hd (ps_argv p) \<noteq> []"

definition require_bootable :: "process_spec \<Rightarrow> exn + unit" where
  "require_bootable p = (if bootable p then Inr () else Inl invalid_process)"

definition with_user :: "process_spec \<Rightarrow> user_spec \<Rightarrow> exn + process_spec" where
  "with_user p user = process_again (ps_argv p) (ps_environment p) (ps_cwd p) user (ps_stop_signal p)"

definition with_command :: "process_spec \<Rightarrow> json list \<Rightarrow> json list \<Rightarrow> exn + process_spec" where
  "with_command p entrypoint command =
     (if command = [] then Inl invalid_process
      else process_init (entrypoint @ command) (map (map_prod JStr JStr) (ps_environment p)) (JStr (ps_cwd p)) (ps_user p)
             (JInt (ps_stop_signal p)))"

definition env_to_json :: "ustr \<times> ustr \<Rightarrow> json" where
  "env_to_json e = JObj [(ul ''name'', JStr (fst e)), (ul ''value'', JStr (snd e))]"

definition process_to_json :: "process_spec \<Rightarrow> json" where
  "process_to_json p = JObj [(ul ''argv'', JArr (map JStr (ps_argv p))), (ul ''cwd'', JStr (ps_cwd p)),
     (ul ''environment'', JArr (map env_to_json (ps_environment p))), (ul ''stop_signal'', JInt (ps_stop_signal p)),
     (ul ''user'', user_to_json (ps_user p))]"

definition process_empty :: "exn + process_spec" where
  "process_empty = rbind (user_init (JStr (ul ''0'')) (JStr (ul ''0''))) (\<lambda>u. process_init [] [] (JStr [slash]) u (JInt 15))"

section \<open>From the image configuration\<close>

definition string_array :: "(ustr \<times> json) list \<Rightarrow> string \<Rightarrow> exn + ustr list" where
  "string_array d field =
     (case jget d field of
        JNull \<Rightarrow> Inr []
      | JArr vs \<Rightarrow> rmap (\<lambda>v. plain_string v True) vs
      | _ \<Rightarrow> Inl invalid_process)"

definition env_entry :: "json \<Rightarrow> exn + (ustr \<times> ustr)" where
  "env_entry v =
     rbind (plain_string v True) (\<lambda>s.
     case partition_on 61 s of (name, None) \<Rightarrow> Inl invalid_process | (name, Some x) \<Rightarrow> Inr (name, x))"

definition config_environment :: "(ustr \<times> json) list \<Rightarrow> exn + (ustr \<times> ustr) list" where
  "config_environment d =
     (case jget d ''Env'' of JNull \<Rightarrow> Inr [] | JArr vs \<Rightarrow> rmap env_entry vs | _ \<Rightarrow> Inl invalid_process)"

definition config_cwd :: "(ustr \<times> json) list \<Rightarrow> exn + ustr" where
  "config_cwd d =
     (let raw = jget d ''WorkingDir'' in
      rbind (plain_string (if raw = JNull \<or> raw = JStr [] then JStr [slash] else raw) False) (\<lambda>s. Inr (normpath s)))"

definition process_from_config :: "json \<Rightarrow> exn + process_spec" where
  "process_from_config v =
     (case v of
        JNull \<Rightarrow> process_empty
      | JObj d \<Rightarrow>
          if \<not> (case jget d ''ArgsEscaped'' of JNull \<Rightarrow> True | JBool _ \<Rightarrow> True | _ \<Rightarrow> False) then Inl invalid_process
          else rbind (string_array d ''Entrypoint'') (\<lambda>entrypoint.
               rbind (string_array d ''Cmd'') (\<lambda>command.
               rbind (config_environment d) (\<lambda>env.
               rbind (config_cwd d) (\<lambda>cwd.
               rbind (user_from_value (jget d ''User'')) (\<lambda>user.
               rbind (stop_signal (jget d ''StopSignal'')) (\<lambda>n.
               process_again (entrypoint @ command) env cwd user n))))))
      | _ \<Rightarrow> Inl invalid_process)"

section \<open>From its own dictionary\<close>

definition env_pair :: "json \<Rightarrow> exn + (json \<times> json)" where
  "env_pair v =
     (case v of
        JObj d \<Rightarrow> if same_keys d [''name'', ''value''] then Inr (jget d ''name'', jget d ''value'') else Inl invalid_process
      | _ \<Rightarrow> Inl invalid_process)"

text \<open>
  \<open>process.to_dict() == dict(value)\<close>: the keys are those of \<open>to_dict\<close> by then, the user was
  compared by its own constructor, and the values of the other fields are texts and an integer.
\<close>

definition same_process :: "(ustr \<times> json) list \<Rightarrow> json list \<Rightarrow> (json \<times> json) list \<Rightarrow> process_spec \<Rightarrow> bool" where
  "same_process d argv env p \<longleftrightarrow>
     argv = map JStr (ps_argv p) \<and> env = map (map_prod JStr JStr) (ps_environment p) \<and>
     jget d ''cwd'' = JStr (ps_cwd p) \<and> jget d ''stop_signal'' = JInt (ps_stop_signal p)"

definition process_from_json :: "json \<Rightarrow> exn + process_spec" where
  "process_from_json v =
     (case v of
        JObj d \<Rightarrow>
          if \<not> same_keys d [''argv'', ''cwd'', ''environment'', ''stop_signal'', ''user''] then Inl invalid_process
          else (case (jget d ''argv'', jget d ''environment'') of
                  (JArr argv, JArr items) \<Rightarrow>
                    rbind (rmap env_pair items) (\<lambda>env.
                    rbind (user_from_json (jget d ''user'')) (\<lambda>user.
                    rbind (process_init argv env (jget d ''cwd'') user (jget d ''stop_signal'')) (\<lambda>p.
                    if same_process d argv env p then Inr p else Inl invalid_process)))
                | _ \<Rightarrow> Inl invalid_process)
      | _ \<Rightarrow> Inl invalid_process)"

definition image_process_vectors :: "json \<Rightarrow> exn + (ustr list \<times> ustr list)" where
  "image_process_vectors v =
     (case v of
        JObj d \<Rightarrow> rbind (string_array d ''Entrypoint'') (\<lambda>e. rbind (string_array d ''Cmd'') (\<lambda>c. Inr (e, c)))
      | _ \<Rightarrow> Inl invalid_process)"

section \<open>Resolving the user in the image root\<close>

definition account_number :: "ustr \<Rightarrow> exn + int" where
  "account_number s =
     rbind (account (JStr s)) (\<lambda>c. if is_decimal c then py_int c else Inl invalid_process)"

text \<open>The lines of a database that are neither empty nor comments, as texts.\<close>

definition account_lines :: "bytes \<Rightarrow> exn + ustr list" where
  "account_lines payload =
     (if length payload > max_account_database \<or> 0 \<in> set payload then Inl invalid_process
      else if \<not> list_all (\<lambda>b. uint b < 128) payload then Inl invalid_process
      else let text' = map uint payload in
        if text' \<noteq> [] \<and> last text' \<noteq> 10 then Inl invalid_process
        else Inr (filter (\<lambda>l. l \<noteq> [] \<and> hd l \<noteq> 35) (if text' = [] then [] else split_on 10 (butlast text'))))"

definition passwd_entry :: "ustr \<Rightarrow> exn + (ustr \<times> int \<times> int)" where
  "passwd_entry line =
     (let fields = split_on 58 line in
      if length fields \<noteq> 7 \<or> \<not> is_account_name (fields ! 0) then Inl invalid_process
      else rbind (account_number (fields ! 2)) (\<lambda>uid.
           rbind (account_number (fields ! 3)) (\<lambda>gid. Inr (fields ! 0, uid, gid))))"

definition group_entry :: "ustr \<Rightarrow> exn + (ustr \<times> int)" where
  "group_entry line =
     (let fields = split_on 58 line in
      if length fields \<noteq> 4 \<or> \<not> is_account_name (fields ! 0) then Inl invalid_process
      else rbind (account_number (fields ! 2)) (\<lambda>gid. Inr (fields ! 0, gid)))"

definition passwd_records :: "user_spec \<Rightarrow> bytes option \<Rightarrow> exn + (ustr \<times> int \<times> int) list" where
  "passwd_records user passwd =
     (case passwd of
        Some b \<Rightarrow> if \<not> is_decimal (us_user user) \<or> us_group user = None
                  then rbind (account_lines b) (rmap passwd_entry) else Inr []
      | None \<Rightarrow> Inr [])"

text \<open>The number of the user, and the records of the passwd database that match it.\<close>

definition match_user :: "user_spec \<Rightarrow> (ustr \<times> int \<times> int) list \<Rightarrow> exn + (int \<times> (ustr \<times> int \<times> int) list)" where
  "match_user user records =
     (if is_decimal (us_user user)
      then rbind (py_int (us_user user)) (\<lambda>uid. Inr (uid, filter (\<lambda>r. fst (snd r) = uid) records))
      else case filter (\<lambda>r. fst r = us_user user) records of
             [] \<Rightarrow> Inl invalid_process
           | m # ms \<Rightarrow> Inr (fst (snd m), m # ms))"

definition resolve_group :: "user_spec \<Rightarrow> bytes option \<Rightarrow> (ustr \<times> int \<times> int) list \<Rightarrow> exn + int" where
  "resolve_group user grp matches =
     (case us_group user of
        None \<Rightarrow> Inr (case matches of [] \<Rightarrow> 0 | m # _ \<Rightarrow> snd (snd m))
      | Some g \<Rightarrow>
          if is_decimal g then py_int g
          else (case grp of
                  None \<Rightarrow> Inl invalid_process
                | Some b \<Rightarrow>
                    rbind (rbind (account_lines b) (rmap group_entry)) (\<lambda>entries.
                    case filter (\<lambda>e. fst e = g) entries of [e] \<Rightarrow> Inr (snd e) | _ \<Rightarrow> Inl invalid_process)))"

definition resolve_oci_user :: "user_spec \<Rightarrow> bytes option \<Rightarrow> bytes option \<Rightarrow> exn + (int \<times> int)" where
  "resolve_oci_user user passwd grp =
     rbind (passwd_records user passwd) (\<lambda>records.
     rbind (match_user user records) (\<lambda>(uid, matches).
     if length matches > 1 then Inl invalid_process
     else rbind (resolve_group user grp matches) (\<lambda>gid. Inr (uid, gid))))"

definition oci_path_candidates :: "process_spec \<Rightarrow> exn + ustr list" where
  "oci_path_candidates p =
     rbind (require_bootable p) (\<lambda>_.
     let command = hd (ps_argv p) in
     if slash \<in> set command then Inr [command]
     else let path = (case map_of (ps_environment p) path_name of Some v \<Rightarrow> v | None \<Rightarrow> oci_default_path)
          in Inr (map (\<lambda>dir. if dir = [] then command else dir @ [slash] @ command) (split_on 58 path)))"

lemmas oci_process_exec [exec] = max_process_arguments_def max_process_environment_def max_process_bytes_def
  max_account_database_def max_user_override_def max_plain_bytes_def oci_default_path_def path_name_def is_letter_def
  is_env_name_def is_account_name_def signal_numbers_def plain_string_def account_def signal_named_def stop_signal_def
  user_init_def user_to_json_def user_from_value_def user_from_override_def user_from_json_def env_item_def
  with_default_path_def canonical_cwd_def utf8_length_def user_text_def contract_size_def process_init_def
  process_again_def bootable_def require_bootable_def with_user_def with_command_def env_to_json_def process_to_json_def
  process_empty_def string_array_def env_entry_def config_environment_def config_cwd_def process_from_config_def
  env_pair_def same_process_def process_from_json_def image_process_vectors_def account_number_def account_lines_def
  passwd_entry_def group_entry_def passwd_records_def match_user_def resolve_group_def resolve_oci_user_def
  oci_path_candidates_def

end
