(* ===== verification/Oci_Process_Props.thy ===== *)
theory Oci_Process_Props imports Main Oci_Process begin

text \<open>
  What the process contract of an image guarantees: every process that is built keeps the
  contract (\<open>process_ok\<close>), survives the trip through its dictionary, and its user resolves to
  32-bit numbers that the databases of the image determine; and two inputs whose refusal is not
  the error class of the module.
\<close>

section \<open>The contract\<close>

definition plain_ok :: "ustr \<Rightarrow> bool" where
  "plain_ok s \<longleftrightarrow> 0 \<notin> set s \<and> (\<exists>b. utf8_encode s = Some b \<and> length b \<le> max_plain_bytes)"

text \<open>A canonical number of at most 32 bits but the last, or an account name.\<close>

definition account_ok :: "ustr \<Rightarrow> bool" where
  "account_ok s \<longleftrightarrow> (\<exists>n. 0 \<le> n \<and> n \<le> 2 ^ 32 - 2 \<and> s = dec_int n) \<or> is_account_name s"

definition user_ok :: "user_spec \<Rightarrow> bool" where
  "user_ok u \<longleftrightarrow> account_ok (us_user u) \<and> pred_option account_ok (us_group u)"

definition environment_ok :: "(ustr \<times> ustr) list \<Rightarrow> bool" where
  "environment_ok env \<longleftrightarrow>
     distinct (map fst env) \<and> list_all (\<lambda>(n, v). is_env_name n \<and> plain_ok v) env"

definition process_ok :: "process_spec \<Rightarrow> bool" where
  "process_ok p \<longleftrightarrow>
     length (ps_argv p) \<le> max_process_arguments \<and> list_all plain_ok (ps_argv p) \<and>
     length (ps_environment p) \<le> max_process_environment \<and> environment_ok (ps_environment p) \<and>
     path_name \<in> set (map fst (ps_environment p)) \<and>
     ps_cwd p \<noteq> [] \<and> plain_ok (ps_cwd p) \<and> canonical_cwd (ps_cwd p) \<and> user_ok (ps_user p) \<and>
     1 \<le> ps_stop_signal p \<and> ps_stop_signal p \<le> 64 \<and>
     contract_size (ps_argv p) (ps_environment p) (ps_cwd p) (ps_user p) \<le> max_process_bytes"

section \<open>The fields\<close>

lemma plain_string_iff: "plain_string v e = Inr s \<longleftrightarrow> v = JStr s \<and> plain_ok s \<and> (e \<or> s \<noteq> [])"
  by (auto simp: plain_string_def plain_ok_def split: json.splits if_splits option.splits)

lemma digits_not_letters: "is_account_name s \<Longrightarrow> \<not> is_decimal s"
proof -
  assume "is_account_name s"
  then obtain c cs where "s = c # cs" "is_letter c" by (cases s) (auto simp: is_account_name_def)
  moreover have "digit_of c = None" if "is_letter c"
    using that digit_of_small [of c] by (auto simp: is_letter_def is_digit_def)
  ultimately show ?thesis by (simp add: is_decimal_def)
qed

lemma account_iff: "account v = Inr s \<longleftrightarrow> v = JStr s \<and> account_ok s"
proof (cases v)
  case (JStr t)
  show ?thesis
  proof (cases "is_decimal t")
    case True
    have "account v = Inr s \<longleftrightarrow> s = t \<and> (\<exists>n. py_int t = Inr n \<and> n \<le> 2 ^ 32 - 2 \<and> dec_int n = t)"
      using True JStr by (cases "py_int t") (auto simp: account_def)
    moreover have "(\<exists>n. py_int t = Inr n \<and> n \<le> 2 ^ 32 - 2 \<and> dec_int n = t) \<longleftrightarrow> account_ok t"
      using True py_int_nonneg [OF True] py_int_dec digits_not_letters by (fastforce simp: account_ok_def)
    ultimately show ?thesis using JStr by auto
  next
    case False
    then show ?thesis using JStr dec_int_decimal by (auto simp: account_def account_ok_def)
  qed
qed (simp_all add: account_def)

lemma user_init_iff:
  "user_init u g = Inr x \<longleftrightarrow> u = JStr (us_user x) \<and> g = jstr (us_group x) \<and> user_ok x"
  by (cases x) (auto simp: user_init_def user_ok_def jstr_def rbind_Inr_iff account_iff split: option.splits)

lemma user_values_ok:
  "user_from_value v = Inr u \<Longrightarrow> user_ok u"
  "user_from_override v = Inr u \<Longrightarrow> user_ok u"
  "user_from_json v = Inr u \<Longrightarrow> user_ok u"
  by (auto simp: user_from_value_def user_from_override_def user_from_json_def user_init_iff rbind_Inr_iff
      split: json.splits if_splits prod.splits)

lemma user_roundtrip: "user_ok u \<Longrightarrow> user_from_json (user_to_json u) = Inr u"
proof -
  assume "user_ok u"
  then have "user_init (JStr (us_user u)) (jstr (us_group u)) = Inr u" by (simp add: user_init_iff)
  then show ?thesis by (simp add: user_from_json_def user_to_json_def same_keys_def jget_def)
qed

lemma stop_signal_range: "stop_signal v = Inr n \<Longrightarrow> 1 \<le> n \<and> n \<le> 64"
  by (auto simp: stop_signal_def rbind_Inr_iff split: if_splits)

lemma stop_signal_int: "1 \<le> n \<Longrightarrow> n \<le> 64 \<Longrightarrow> stop_signal (JInt n) = Inr n"
  by (simp add: stop_signal_def)

section \<open>The environment\<close>

lemma env_item_iff:
  "env_item env item = Inr env' \<longleftrightarrow>
     (\<exists>n v. item = (JStr n, JStr v) \<and> is_env_name n \<and> plain_ok v \<and> n \<notin> set (map fst env) \<and> env' = env @ [(n, v)])"
  by (cases item; cases "fst item") (auto simp: env_item_def rbind_Inr_iff plain_string_iff)

lemma environment_ok_snoc:
  "environment_ok (env @ [(n, v)]) \<longleftrightarrow> environment_ok env \<and> is_env_name n \<and> plain_ok v \<and> n \<notin> set (map fst env)"
  by (auto simp: environment_ok_def)

lemma env_items_iff:
  "environment_ok env \<Longrightarrow> rfold env_item env items = Inr env' \<longleftrightarrow>
     (\<exists>es. items = map (map_prod JStr JStr) es \<and> env' = env @ es \<and> environment_ok env')"
proof (induction items arbitrary: env)
  case (Cons item items)
  show ?case
  proof
    assume "rfold env_item env (item # items) = Inr env'"
    then obtain n v where nv: "item = (JStr n, JStr v)" "environment_ok (env @ [(n, v)])"
      "rfold env_item (env @ [(n, v)]) items = Inr env'"
      using Cons.prems by (auto simp: rbind_Inr_iff env_item_iff environment_ok_snoc)
    with Cons.IH [OF nv(2)] obtain es where "items = map (map_prod JStr JStr) es" "env' = (env @ [(n, v)]) @ es" "environment_ok env'"
      by blast
    with nv(1) show "\<exists>es. item # items = map (map_prod JStr JStr) es \<and> env' = env @ es \<and> environment_ok env'"
      by (intro exI [of _ "(n, v) # es"]) simp
  next
    assume "\<exists>es. item # items = map (map_prod JStr JStr) es \<and> env' = env @ es \<and> environment_ok env'"
    then obtain n v es where es: "item = (JStr n, JStr v)" "items = map (map_prod JStr JStr) es" "env' = (env @ [(n, v)]) @ es"
      "environment_ok env'" by (cases "[] :: nat list"; auto)
    then have "environment_ok (env @ [(n, v)])" by (auto simp: environment_ok_def)
    with Cons.IH [OF this] es show "rfold env_item env (item # items) = Inr env'"
      by (auto simp: rbind_Inr_iff env_item_iff environment_ok_snoc)
  qed
qed auto


section \<open>The constructor\<close>

lemma plain_list_iff: "rmap (\<lambda>v. plain_string v True) vs = Inr ss \<longleftrightarrow> vs = map JStr ss \<and> list_all plain_ok ss"
proof (induction vs arbitrary: ss)
  case (Cons v vs)
  then show ?case by (cases ss) (auto simp: rbind_Inr_iff plain_string_iff)
qed auto

lemma default_path_ok: "is_env_name path_name" "plain_ok oci_default_path"
proof -
  show "is_env_name path_name" by (simp add: is_env_name_def path_name_def ul_def is_letter_def)
  have "utf8_encode oci_default_path = Some (bl ''/usr/local/sbin:/usr/local/bin:/usr/sbin:/usr/bin:/sbin:/bin'')"
    by (simp add: oci_default_path_def ul_def bl_def utf8_char_def byte_of_def)
  then show "plain_ok oci_default_path" by (simp add: plain_ok_def max_plain_bytes_def) (simp add: oci_default_path_def ul_def)
qed

lemma with_default_path_ok:
  assumes "with_default_path env = Inr env'" "environment_ok env" "length env \<le> max_process_environment"
  shows "environment_ok env'" "path_name \<in> set (map fst env')" "length env' \<le> max_process_environment"
  using assms default_path_ok by (auto simp: with_default_path_def environment_ok_snoc split: if_splits)

lemma with_default_path_same: "path_name \<in> set (map fst env) \<Longrightarrow> with_default_path env = Inr env"
  by (simp add: with_default_path_def)

lemma process_init_ok:
  assumes "process_init argv env cwd user stop = Inr p" "user_ok user"
  shows "process_ok p"
proof -
  from assms(1) obtain env0 where r: "length argv \<le> max_process_arguments"
    "rmap (\<lambda>v. plain_string v True) argv = Inr (ps_argv p)" "length env \<le> max_process_environment"
    "rfold env_item [] env = Inr env0" "with_default_path env0 = Inr (ps_environment p)" "plain_string cwd False = Inr (ps_cwd p)"
    "canonical_cwd (ps_cwd p)" "stop_signal stop = Inr (ps_stop_signal p)" "ps_user p = user"
    "contract_size (ps_argv p) (ps_environment p) (ps_cwd p) user \<le> max_process_bytes"
    by (auto simp: process_init_def rbind_Inr_iff split: if_splits)
  from r(4) obtain es where "env = map (map_prod JStr JStr) es" "env0 = es" "environment_ok env0"
    using env_items_iff [of "[]" env env0] by (auto simp: environment_ok_def)
  with with_default_path_ok [OF r(5)] r(3) have "environment_ok (ps_environment p)" "path_name \<in> set (map fst (ps_environment p))"
    "length (ps_environment p) \<le> max_process_environment" by simp_all
  with r assms(2) stop_signal_range [OF r(8)] show ?thesis
    by (auto simp: process_ok_def plain_list_iff plain_string_iff)
qed

lemma process_ok_again:
  assumes "process_ok p"
  shows "process_again (ps_argv p) (ps_environment p) (ps_cwd p) (ps_user p) (ps_stop_signal p) = Inr p"
proof -
  have "rmap (\<lambda>v. plain_string v True) (map JStr (ps_argv p)) = Inr (ps_argv p)"
    using assms by (simp add: process_ok_def plain_list_iff)
  moreover have "rfold env_item [] (map (map_prod JStr JStr) (ps_environment p)) = Inr (ps_environment p)"
    using assms env_items_iff [of "[]"] by (auto simp: process_ok_def environment_ok_def)
  moreover have "with_default_path (ps_environment p) = Inr (ps_environment p)"
    using assms by (intro with_default_path_same) (simp add: process_ok_def)
  moreover have "plain_string (JStr (ps_cwd p)) False = Inr (ps_cwd p)" using assms by (simp add: process_ok_def plain_string_iff)
  moreover have "stop_signal (JInt (ps_stop_signal p)) = Inr (ps_stop_signal p)" using assms by (simp add: process_ok_def stop_signal_int)
  ultimately show ?thesis using assms by (simp add: process_again_def process_init_def process_ok_def)
qed

section \<open>A sample image\<close>

definition sample_config :: json where
  "sample_config = JObj [(ul ''Entrypoint'', JArr [JStr (ul ''/bin/sh'')]), (ul ''Env'', JArr [JStr (ul ''PATH=/bin'')]),
     (ul ''WorkingDir'', JStr (ul ''/srv/../app/'')), (ul ''User'', JStr (ul ''app'')), (ul ''StopSignal'', JStr (ul ''term''))]"

definition sample_process :: process_spec where
  "sample_process = \<lparr>ps_argv = [ul ''/bin/sh''], ps_environment = [(ul ''PATH'', ul ''/bin'')], ps_cwd = ul ''/app'',
     ps_user = \<lparr>us_user = ul ''app'', us_group = None\<rparr>, ps_stop_signal = 15\<rparr>"

definition sample_passwd :: bytes where
  "sample_passwd = bl ''app:x:7:9:::'' @ [10]"

lemma sample_process_built: "process_from_config sample_config = Inr sample_process"
  by (simp add: exec sample_config_def sample_process_def jget_def jstr_def utf8_char_def byte_of_def is_digit_def cong: eval_cong)

section \<open>Every process keeps the contract\<close>

text \<open>How a process comes about, from outside values.\<close>

inductive process_built :: "process_spec \<Rightarrow> bool" where
  built_config: "process_from_config v = Inr p \<Longrightarrow> process_built p"
| built_json: "process_from_json v = Inr p \<Longrightarrow> process_built p"
| built_user: "process_built q \<Longrightarrow> user_from_override v = Inr u \<Longrightarrow> with_user q u = Inr p \<Longrightarrow> process_built p"
| built_command: "process_built q \<Longrightarrow> with_command q entrypoint command = Inr p \<Longrightarrow> process_built p"

lemma process_built_ok: "process_built p \<Longrightarrow> process_ok p"
proof (induction rule: process_built.induct)
  case (built_config v p)
  then show ?case
    by (auto simp: process_from_config_def process_empty_def process_again_def rbind_Inr_iff user_init_iff
        intro: process_init_ok user_values_ok split: json.splits if_splits)
next
  case (built_json v p)
  then show ?case
    by (auto simp: process_from_json_def rbind_Inr_iff intro: process_init_ok user_values_ok split: json.splits if_splits)
next
  case (built_user q v u p)
  then show ?case by (auto simp: with_user_def process_again_def intro: process_init_ok user_values_ok)
next
  case (built_command q entrypoint command p)
  then show ?case by (auto simp: with_command_def process_ok_def [of q] intro: process_init_ok split: if_splits)
qed

lemma env_pairs_roundtrip: "rmap env_pair (map env_to_json es) = Inr (map (map_prod JStr JStr) es)"
  by (induction es) (auto simp: env_pair_def env_to_json_def same_keys_def jget_def)

lemma process_json_fields:
  "process_to_json p = JObj d \<Longrightarrow> same_keys d [''argv'', ''cwd'', ''environment'', ''stop_signal'', ''user''] \<and>
     jget d ''argv'' = JArr (map JStr (ps_argv p)) \<and> jget d ''environment'' = JArr (map env_to_json (ps_environment p)) \<and>
     jget d ''cwd'' = JStr (ps_cwd p) \<and> jget d ''stop_signal'' = JInt (ps_stop_signal p) \<and> jget d ''user'' = user_to_json (ps_user p)"
  by (auto simp: process_to_json_def same_keys_def jget_def)

lemma process_ok_roundtrip:
  assumes "process_ok p"
  shows "process_from_json (process_to_json p) = Inr p"
proof -
  obtain d where d: "process_to_json p = JObj d" by (simp add: process_to_json_def)
  have u: "user_from_json (user_to_json (ps_user p)) = Inr (ps_user p)"
    using assms by (intro user_roundtrip) (simp add: process_ok_def)
  show ?thesis
    using process_json_fields [OF d] process_ok_again [OF assms] u
    by (simp add: d process_from_json_def env_pairs_roundtrip same_process_def process_again_def)
qed

text \<open>C38. Every process built from an image configuration, a stored contract, a user override or a command
  override keeps the contract: at most 4096 arguments and variables, no NUL and at most 32 KiB per text, distinct
  well-formed variable names with \<open>PATH\<close> among them, a normalised absolute working directory,
  canonical user and group, a signal from 1 to 64, and at most 256 KiB in all; and \<open>from_dict\<close> reads it back
  from what \<open>to_dict\<close> writes.\<close>

theorem process_contract:
  assumes "process_built p"
  shows "process_ok p \<and> process_from_json (process_to_json p) = Inr p"
  using process_ok_roundtrip [OF process_built_ok [OF assms]] process_built_ok [OF assms] by blast

theorem process_contract_witness:
  "process_from_config sample_config = Inr sample_process \<and> process_ok sample_process \<and>
   process_from_json (process_to_json sample_process) = Inr sample_process"
  using process_contract [OF built_config [OF sample_process_built]] sample_process_built by blast

section \<open>Resolving the user\<close>

definition is_id :: "int \<Rightarrow> bool" where
  "is_id n \<longleftrightarrow> 0 \<le> n \<and> n \<le> 2 ^ 32 - 2"

lemma account_ok_decimal: "account_ok s \<Longrightarrow> is_decimal s \<Longrightarrow> \<exists>n. is_id n \<and> s = dec_int n \<and> py_int s = Inr n"
  using digits_not_letters py_int_dec by (auto simp: account_ok_def is_id_def)

lemma account_number_id: "account_number s = Inr n \<Longrightarrow> is_id n \<and> s = dec_int n"
  using account_ok_decimal [of s] by (auto simp: account_number_def rbind_Inr_iff account_iff split: if_splits)

lemma dec_int_inj: "is_id m \<Longrightarrow> is_id n \<Longrightarrow> dec_int m = dec_int n \<longleftrightarrow> m = n"
  using py_int_dec by (auto simp: is_id_def) (metis sum.inject(2))

lemma passwd_entry_fields:
  assumes "passwd_entry l = Inr r"
  shows "split_on 58 l ! 0 = fst r" "split_on 58 l ! 2 = dec_int (fst (snd r))" "split_on 58 l ! 3 = dec_int (snd (snd r))"
    "is_id (fst (snd r))" "is_id (snd (snd r))"
  using assms account_number_id by (auto simp: passwd_entry_def Let_def rbind_Inr_iff split: if_splits)

lemma group_entry_fields:
  assumes "group_entry l = Inr e"
  shows "split_on 58 l ! 0 = fst e" "split_on 58 l ! 2 = dec_int (snd e)" "is_id (snd e)"
  using assms account_number_id by (auto simp: group_entry_def Let_def rbind_Inr_iff split: if_splits)

text \<open>Selecting among the parsed entries is selecting among the lines.\<close>

lemma rmap_filter:
  assumes "rmap f xs = Inr ys" "\<And>x y. f x = Inr y \<Longrightarrow> P x \<longleftrightarrow> Q y"
  shows "rmap f (filter P xs) = Inr (filter Q ys)"
  using assms(1) assms(2) by (induction xs arbitrary: ys) (auto simp: rbind_Inr_iff)

lemma rmap_single: "rmap f xs = Inr [y] \<Longrightarrow> \<exists>x. xs = [x] \<and> f x = Inr y"
  by (cases xs; cases "tl xs") (auto simp: rbind_Inr_iff)

lemma rmap_empty: "rmap f xs = Inr [] \<Longrightarrow> xs = []"
  by (cases xs) (auto simp: rbind_Inr_iff)

definition first_field :: "ustr \<Rightarrow> ustr \<Rightarrow> bool" where
  "first_field name l \<longleftrightarrow> split_on 58 l ! 0 = name"

definition third_field :: "ustr \<Rightarrow> ustr \<Rightarrow> bool" where
  "third_field number l \<longleftrightarrow> split_on 58 l ! 2 = number"

text \<open>The lines of the passwd database the user selects, by name or by number.\<close>

definition passwd_lines :: "user_spec \<Rightarrow> bytes option \<Rightarrow> ustr list" where
  "passwd_lines u passwd =
     (case passwd of None \<Rightarrow> []
      | Some b \<Rightarrow> (case account_lines b of Inl _ \<Rightarrow> []
          | Inr ls \<Rightarrow> filter (if is_decimal (us_user u) then third_field (us_user u) else first_field (us_user u)) ls))"

definition group_lines :: "ustr \<Rightarrow> bytes option \<Rightarrow> ustr list" where
  "group_lines g grp =
     (case grp of None \<Rightarrow> [] | Some b \<Rightarrow> (case account_lines b of Inl _ \<Rightarrow> [] | Inr ls \<Rightarrow> filter (first_field g) ls))"

lemma matched_lines:
  assumes ok: "user_ok u" and r: "passwd_records u passwd = Inr records" "match_user u records = Inr (uid, ms)"
  shows "is_id uid"
    "is_decimal (us_user u) \<Longrightarrow> us_user u = dec_int uid"
    "\<not> is_decimal (us_user u) \<or> us_group u = None \<Longrightarrow> rmap passwd_entry (passwd_lines u passwd) = Inr ms"
    "\<not> is_decimal (us_user u) \<Longrightarrow> ms \<noteq> [] \<and> fst (snd (hd ms)) = uid"
proof -
  have recs: "rmap passwd_entry (passwd_lines u passwd) =
      Inr (filter (\<lambda>r. if is_decimal (us_user u) then dec_int (fst (snd r)) = us_user u else fst r = us_user u) records)"
    if "\<not> is_decimal (us_user u) \<or> us_group u = None"
  proof (cases passwd)
    case (Some b)
    with r(1) that obtain ls where ls: "account_lines b = Inr ls" "rmap passwd_entry ls = Inr records"
      by (auto simp: passwd_records_def rbind_Inr_iff)
    show ?thesis using Some ls(1) passwd_entry_fields
      by (auto simp: passwd_lines_def third_field_def first_field_def intro!: rmap_filter [OF ls(2)])
  qed (use r(1) in \<open>simp add: passwd_records_def passwd_lines_def\<close>)
  have ids: "is_id (fst (snd r'))" if "r' \<in> set records" for r'
  proof -
    have "rmap passwd_entry ls = Inr rs \<Longrightarrow> r' \<in> set rs \<Longrightarrow> is_id (fst (snd r'))" for ls rs
      by (induction ls arbitrary: rs) (auto simp: rbind_Inr_iff dest: passwd_entry_fields(4))
    then show ?thesis using r(1) that by (auto simp: passwd_records_def rbind_Inr_iff split: option.splits if_splits)
  qed
  show "is_id uid"
  proof (cases "is_decimal (us_user u)")
    case True
    with ok r(2) account_ok_decimal [of "us_user u"] show ?thesis by (auto simp: user_ok_def match_user_def)
  next
    case False
    with r(2) obtain m ms' where "filter (\<lambda>r. fst r = us_user u) records = m # ms'" "uid = fst (snd m)"
      by (auto simp: match_user_def split: list.splits)
    with ids show ?thesis by (metis filter_is_subset list.set_intros(1) subsetD)
  qed
  show "is_decimal (us_user u) \<Longrightarrow> us_user u = dec_int uid"
    using ok r(2) account_ok_decimal [of "us_user u"] by (auto simp: user_ok_def match_user_def)
  show "\<not> is_decimal (us_user u) \<Longrightarrow> ms \<noteq> [] \<and> fst (snd (hd ms)) = uid"
  proof -
    assume d: "\<not> is_decimal (us_user u)"
    with r(2) obtain m ms' where f: "filter (\<lambda>r. fst r = us_user u) records = m # ms'" "uid = fst (snd m)"
      by (auto simp: match_user_def split: list.splits)
    with r(2) d have "ms = m # ms'" by (simp add: match_user_def)
    with f(2) show ?thesis by simp
  qed
  show "rmap passwd_entry (passwd_lines u passwd) = Inr ms" if "\<not> is_decimal (us_user u) \<or> us_group u = None"
  proof (cases "is_decimal (us_user u)")
    case True
    with ok r(2) account_ok_decimal [of "us_user u"] have u: "us_user u = dec_int uid" "is_id uid"
      "ms = filter (\<lambda>r. fst (snd r) = uid) records" by (auto simp: user_ok_def match_user_def)
    have "filter (\<lambda>r. dec_int (fst (snd r)) = us_user u) records = ms"
      unfolding u(3) by (rule filter_cong) (use ids u dec_int_inj in auto)
    then show ?thesis using recs [OF that] True by simp
  next
    case False
    with r(2) have "filter (\<lambda>r. fst r = us_user u) records = ms" by (auto simp: match_user_def split: list.splits)
    then show ?thesis using recs [OF that] False by simp
  qed
qed

lemma resolved_group:
  assumes "account_ok g" "us_group u = Some g" "resolve_group u grp ms = Inr gid"
  shows "is_id gid \<and> (if is_decimal g then g = dec_int gid
    else \<exists>l. group_lines g grp = [l] \<and> split_on 58 l ! 2 = dec_int gid)"
proof (cases "is_decimal g")
  case True
  with account_ok_decimal [OF assms(1)] assms(2,3) show ?thesis by (auto simp: resolve_group_def)
next
  case False
  with assms(2,3) obtain b ls es where b: "grp = Some b" "account_lines b = Inr ls" "rmap group_entry ls = Inr es"
    "(case filter (\<lambda>e. fst e = g) es of [e] \<Rightarrow> Inr (snd e) | _ \<Rightarrow> Inl invalid_process) = Inr gid"
    by (auto simp: resolve_group_def rbind_Inr_iff split: option.splits)
  then obtain e where "filter (\<lambda>e. fst e = g) es = [e]" "gid = snd e"
    by (cases "filter (\<lambda>e. fst e = g) es"; cases "tl (filter (\<lambda>e. fst e = g) es)") auto
  note e = b(1-3) this
  have "rmap group_entry (filter (first_field g) ls) = Inr (filter (\<lambda>e. fst e = g) es)"
    by (rule rmap_filter [OF e(3)]) (simp add: first_field_def group_entry_fields(1))
  then obtain l where l: "filter (first_field g) ls = [l]" "group_entry l = Inr e" using rmap_single [of group_entry _ e] e(4) by auto
  have "group_lines g grp = [l]" using e(1,2) l(1) by (simp add: group_lines_def)
  then show ?thesis using False e(5) group_entry_fields(2,3) [OF l(2)] by simp
qed

text \<open>C39. What \<open>resolve_oci_user\<close> returns is what the databases of the image say, in 32 bits. Both numbers are at
  most \<open>2^32 - 2\<close>. A numeric user is its own number; a named one is the third field of the only line of
  passwd that starts with the name. A numeric group is its own number, a named one the third field of the
  only line of group that starts with it; without a group it is the fourth field of the only passwd line of the
  user, or 0 for a numeric user with no such line.\<close>

theorem resolved_user_is_in_databases:
  assumes "user_ok u" "resolve_oci_user u passwd grp = Inr (uid, gid)"
  shows "0 \<le> uid \<and> uid \<le> 2 ^ 32 - 2 \<and> 0 \<le> gid \<and> gid \<le> 2 ^ 32 - 2 \<and>
    (if is_decimal (us_user u) then us_user u = dec_int uid
     else \<exists>l. passwd_lines u passwd = [l] \<and> split_on 58 l ! 2 = dec_int uid) \<and>
    (case us_group u of
       Some g \<Rightarrow> if is_decimal g then g = dec_int gid else \<exists>l. group_lines g grp = [l] \<and> split_on 58 l ! 2 = dec_int gid
     | None \<Rightarrow> (\<exists>l. passwd_lines u passwd = [l] \<and> split_on 58 l ! 3 = dec_int gid) \<or>
               is_decimal (us_user u) \<and> passwd_lines u passwd = [] \<and> gid = 0)"
proof -
  from assms(2) obtain records ms where r: "passwd_records u passwd = Inr records" "match_user u records = Inr (uid, ms)"
    "length ms \<le> 1" "resolve_group u grp ms = Inr gid"
    by (auto simp: resolve_oci_user_def rbind_Inr_iff split: if_splits)
  note m = matched_lines [OF assms(1) r(1,2)]
  have named: "\<exists>l. passwd_lines u passwd = [l] \<and> split_on 58 l ! 2 = dec_int uid \<and> ms \<noteq> []"
    if "\<not> is_decimal (us_user u)"
  proof -
    from m(4) [OF that] r(3) obtain x where x: "ms = [x]" "fst (snd x) = uid" by (cases ms) auto
    have "rmap passwd_entry (passwd_lines u passwd) = Inr [x]" using m(3) that x(1) by blast
    from rmap_single [OF this] obtain l where "passwd_lines u passwd = [l]" "passwd_entry l = Inr x" by blast
    with x show ?thesis using passwd_entry_fields(2) [of l x] by simp
  qed
  have uid: "0 \<le> uid \<and> uid \<le> 2 ^ 32 - 2" using m(1) by (simp add: is_id_def)
  have user: "if is_decimal (us_user u) then us_user u = dec_int uid
     else \<exists>l. passwd_lines u passwd = [l] \<and> split_on 58 l ! 2 = dec_int uid"
    using m(2) named by (cases "is_decimal (us_user u)") auto
  show ?thesis
  proof (cases "us_group u")
    case (Some g)
    then have "account_ok g" using assms(1) by (simp add: user_ok_def)
    from resolved_group [OF this Some r(4)] Some uid user show ?thesis by (simp add: is_id_def)
  next
    case None
    then have lines: "rmap passwd_entry (passwd_lines u passwd) = Inr ms" using m(3) by simp
    have g: "gid = (case ms of [] \<Rightarrow> 0 | x # _ \<Rightarrow> snd (snd x))" using r(4) None by (simp add: resolve_group_def)
    show ?thesis
    proof (cases ms)
      case Nil
      then have "is_decimal (us_user u)" using named by blast
      moreover have "passwd_lines u passwd = []" using lines Nil rmap_empty by blast
      ultimately show ?thesis using Nil g None uid user by simp
    next
      case (Cons x xs)
      with r(3) have x: "ms = [x]" by simp
      from lines obtain l where l: "passwd_lines u passwd = [l]" "passwd_entry l = Inr x"
        using rmap_single [of passwd_entry "passwd_lines u passwd" x] x by auto
      with passwd_entry_fields(3,5) [OF l(2)] g x None uid user show ?thesis by (simp add: is_id_def)
    qed
  qed
qed


theorem resolved_user_is_in_databases_witness:
  "resolve_oci_user (ps_user sample_process) (Some sample_passwd) None = Inr (7, 9) \<and>
   (\<exists>l. passwd_lines (ps_user sample_process) (Some sample_passwd) = [l] \<and> split_on 58 l ! 2 = dec_int 7)"
proof -
  have r: "resolve_oci_user (ps_user sample_process) (Some sample_passwd) None = Inr (7, 9)"
    by (simp add: exec sample_process_def sample_passwd_def is_digit_def dec_int_def dec_nat_small cong: eval_cong)
  have u: "user_ok (ps_user sample_process)" using process_built_ok [OF built_config [OF sample_process_built]] by (simp add: process_ok_def)
  have "\<not> is_decimal (us_user (ps_user sample_process))"
    by (rule digits_not_letters) (simp add: sample_process_def is_account_name_def ul_def is_letter_def)
  with resolved_user_is_in_databases [OF u r] r show ?thesis by simp
qed

section \<open>Refusals\<close>

definition refusal_ok :: "exn \<Rightarrow> bool" where
  "refusal_ok e \<longleftrightarrow> e = invalid_process \<or> e = ValueErr"

lemma rmap_errors: "rmap f xs = Inl e \<Longrightarrow> (\<And>x e. f x = Inl e \<Longrightarrow> Q e) \<Longrightarrow> Q e"
  by (induction xs) (auto simp: rbind_Inl_iff)

lemma rfold_errors: "rfold f s xs = Inl e \<Longrightarrow> (\<And>s x e. f s x = Inl e \<Longrightarrow> Q e) \<Longrightarrow> Q e"
  by (induction xs arbitrary: s) (auto simp: rbind_Inl_iff)

lemma field_errors:
  "plain_string v b = Inl e \<Longrightarrow> refusal_ok e"
  "account v = Inl e \<Longrightarrow> refusal_ok e"
  "stop_signal v = Inl e \<Longrightarrow> refusal_ok e"
  by (auto simp: refusal_ok_def plain_string_def account_def stop_signal_def signal_named_def py_int_def Let_def rbind_Inl_iff
      split: json.splits if_splits option.splits)

lemma init_errors:
  "user_init u g = Inl e \<Longrightarrow> refusal_ok e"
  "user_from_value v = Inl e \<Longrightarrow> refusal_ok e"
  "string_array d f = Inl e \<Longrightarrow> refusal_ok e"
  "config_environment d = Inl e \<Longrightarrow> refusal_ok e"
  "config_cwd d = Inl e \<Longrightarrow> refusal_ok e"
proof -
  show u: "user_init u g = Inl e \<Longrightarrow> refusal_ok e" for u g
    using field_errors(2) by (auto simp: user_init_def rbind_Inl_iff split: if_splits)
  show "user_from_value v = Inl e \<Longrightarrow> refusal_ok e"
    using u by (auto simp: user_from_value_def refusal_ok_def [of invalid_process] split: json.splits if_splits prod.splits)
  show "string_array d f = Inl e \<Longrightarrow> refusal_ok e"
    using rmap_errors [of "\<lambda>v. plain_string v True" _ e refusal_ok] field_errors(1)
    by (auto simp: string_array_def refusal_ok_def [of invalid_process] split: json.splits)
  have "refusal_ok e" if "env_entry x = Inl e" for x e
  proof (cases "plain_string x True")
    case (Inl e')
    with that field_errors(1) [OF Inl] show ?thesis by (simp add: env_entry_def)
  next
    case (Inr s)
    obtain a b where "partition_on 61 s = (a, b)" by fastforce
    with that Inr show ?thesis by (cases b) (simp_all add: env_entry_def refusal_ok_def)
  qed
  then show "config_environment d = Inl e \<Longrightarrow> refusal_ok e"
    using rmap_errors [of env_entry _ e refusal_ok]
    by (auto simp: config_environment_def refusal_ok_def [of invalid_process] split: json.splits)
  show "config_cwd d = Inl e \<Longrightarrow> refusal_ok e"
    using field_errors(1) by (auto simp: config_cwd_def Let_def rbind_Inl_iff)
qed

lemma process_init_errors:
  assumes "process_init argv env cwd user stop = Inl e"
  shows "refusal_ok e"
proof -
  have item: "env_item s x = Inl e \<Longrightarrow> refusal_ok e" for s x e
    using field_errors(1) by (auto simp: env_item_def refusal_ok_def [of invalid_process] rbind_Inl_iff split: json.splits if_splits)
  have path: "with_default_path es = Inl e \<Longrightarrow> refusal_ok e" for es e
    by (auto simp: with_default_path_def refusal_ok_def split: if_splits)
  from assms show ?thesis
    using rmap_errors [of "\<lambda>v. plain_string v True" argv e refusal_ok] rfold_errors [of env_item "[]" env e refusal_ok] item path field_errors
    by (auto simp: process_init_def refusal_ok_def [of invalid_process] rbind_Inl_iff split: if_splits)
qed

lemma many_digits:
  assumes "max_digits < n"
  shows "is_decimal (replicate n 57)" "py_int (replicate n 57) = Inl ValueErr" "py_upper (replicate n 57) = replicate n 57"
    "account (JStr (replicate n 57)) = Inl ValueErr" "signal_named (replicate n 57) = Inl ValueErr"
proof -
  have "0 < n" using assms by simp
  then show d: "is_decimal (replicate n 57)" by (simp add: is_decimal_def list_all_iff digit_of_small is_digit_def)
  show p: "py_int (replicate n 57) = Inl ValueErr" using assms by (simp add: py_int_def)
  show u: "py_upper (replicate n 57) = replicate n 57"
    by (induction n) (simp_all add: py_upper_def upper_char_def special_upper_def)
  show "account (JStr (replicate n 57)) = Inl ValueErr" by (simp add: account_def d p)
  show "signal_named (replicate n 57) = Inl ValueErr" by (simp add: signal_named_def u d p)
qed

lemma many_digits_config:
  assumes "max_digits < n"
  shows "process_from_config (JObj [(ul ''User'', JStr (replicate n 57))]) = Inl ValueErr"
    "process_from_config (JObj [(ul ''StopSignal'', JStr (replicate n 57))]) = Inl ValueErr"
proof -
  have n: "replicate n (57 :: int) \<noteq> []" using assms by simp
  have p: "partition_on 58 (replicate n 57) = (replicate n (57 :: int), None)"
    by (auto simp: partition_on_def dropWhile_eq_Nil_conv takeWhile_eq_all_conv split: list.splits)
  have f: "filter (\<lambda>c. c = 58) (replicate n (57 :: int)) = []" by simp
  have cwd: "config_cwd d = Inr [slash]" if "jget d ''WorkingDir'' = JNull" for d
  proof -
    have "plain_string (JStr [slash]) False = Inr [slash]"
      by (simp add: plain_string_def slash_def utf8_char_def max_plain_bytes_def)
    moreover have "normpath [slash] = [slash]" by (simp add: exec)
    ultimately show ?thesis using that by (simp add: config_cwd_def)
  qed
  have "user_from_value (JStr (replicate n 57)) = Inl ValueErr"
    using n p f many_digits(4) [OF assms] by (simp add: user_from_value_def user_init_def)
  then show "process_from_config (JObj [(ul ''User'', JStr (replicate n 57))]) = Inl ValueErr"
    by (simp add: process_from_config_def jget_def string_array_def config_environment_def cwd)
  have "user_from_value JNull = Inr \<lparr>us_user = ul ''0'', us_group = Some (ul ''0'')\<rparr>"
  proof -
    have "account_ok (ul ''0'')" by (auto simp: account_ok_def dec_int_def dec_nat_small ul_def intro!: exI [of _ 0])
    then show ?thesis by (simp add: user_from_value_def user_init_iff user_ok_def jstr_def)
  qed
  then show "process_from_config (JObj [(ul ''StopSignal'', JStr (replicate n 57))]) = Inl ValueErr"
    using many_digits(5) [OF assms] n
    by (simp add: process_from_config_def jget_def string_array_def config_environment_def cwd stop_signal_def)
qed

lemma config_refusal_classes: "process_from_config v = Inl e \<Longrightarrow> e = invalid_process \<or> e = ValueErr"
proof -
  assume "process_from_config v = Inl e"
  then have "refusal_ok e"
    using init_errors process_init_errors field_errors(3)
    by (auto simp: process_from_config_def process_empty_def process_again_def refusal_ok_def [of invalid_process] rbind_Inl_iff
        split: json.splits if_splits)
  then show ?thesis by (simp add: refusal_ok_def)
qed

text \<open>C40. What \<open>from_config\<close> raises on an image configuration. It is the \<open>ArtifactValidationError\<close> of the module or a
  bare \<open>ValueError\<close>, and the second does happen: for a user of more than 4300 digits, for a stop signal
  of more than 4300 digits, and for an argument that contains a surrogate, which JSON can write.\<close>

theorem config_refusals:
  "{e. \<exists>v. process_from_config v = Inl e} = {invalid_process, ValueErr} \<and>
   process_from_config (JObj [(ul ''User'', JStr (replicate 4301 57))]) = Inl ValueErr \<and>
   process_from_config (JObj [(ul ''StopSignal'', JStr (replicate 4301 57))]) = Inl ValueErr \<and>
   process_from_config (JObj [(ul ''Cmd'', JArr [JStr [55296]])]) = Inl ValueErr"
proof (intro conjI)
  have n: "max_digits < 4301" by (simp add: max_digits_def)
  show "process_from_config (JObj [(ul ''User'', JStr (replicate 4301 57))]) = Inl ValueErr" by (rule many_digits_config(1) [OF n])
  show "process_from_config (JObj [(ul ''StopSignal'', JStr (replicate 4301 57))]) = Inl ValueErr" by (rule many_digits_config(2) [OF n])
  have "plain_string (JStr [55296]) True = Inl ValueErr" by (simp add: plain_string_def utf8_char_def)
  then show surrogate: "process_from_config (JObj [(ul ''Cmd'', JArr [JStr [55296]])]) = Inl ValueErr"
    by (simp add: process_from_config_def jget_def string_array_def)
  have "process_from_config (JInt 0) = Inl invalid_process" by (simp add: process_from_config_def)
  then show "{e. \<exists>v. process_from_config v = Inl e} = {invalid_process, ValueErr}"
    using surrogate config_refusal_classes by blast
qed

end
