(* ===== verification/Oci_Reference.thy ===== *)
theory Oci_Reference imports Main Py_Ip Py_Hash begin

text \<open>
  The names of \<open>src/palimpsest_local/oci_provenance.py\<close>: digests (with
  \<open>src/palimpsest_local/digest.py\<close>), registry authorities, repository names and image references.
  A value of type \<open>Any\<close> is a \<open>json\<close>. The messages of an \<open>ArtifactValidationError\<close> are left out;
  \<open>ValueErr\<close> is the plain \<open>ValueError\<close> of \<open>int\<close>.
\<close>

definition artifact_error :: exn where "artifact_error = Refused ''ArtifactValidationError''"

section \<open>Strings and digests\<close>

definition normalize_digest :: "ustr \<Rightarrow> ustr option" where
  "normalize_digest s =
     (let h = remove_prefix s digest_prefix
      in if length h = 64 \<and> list_all is_hex_any h then Some (digest_prefix @ ascii_lower h) else None)"

definition canonical_digest :: "json \<Rightarrow> exn + ustr" where
  "canonical_digest v =
     (case v of
        JStr s \<Rightarrow> (case normalize_digest s of
                    None \<Rightarrow> Inl artifact_error
                  | Some n \<Rightarrow> if n \<noteq> s then Inl artifact_error else Inr s)
      | _ \<Rightarrow> Inl artifact_error)"

definition plain_text :: "json \<Rightarrow> exn + ustr" where
  "plain_text v =
     (case v of
        JStr s \<Rightarrow>
          if s = [] \<or> s \<noteq> strip s then Inl artifact_error
          else if list_ex (\<lambda>c. c < 32 \<or> c = 127) s then Inl artifact_error
          else Inr s
      | _ \<Rightarrow> Inl artifact_error)"

section \<open>Registry authorities\<close>

text \<open>\<open>_HOST_LABEL_RE\<close>: up to 63 letters, digits and inner hyphens.\<close>

definition is_host_label :: "ustr \<Rightarrow> bool" where
  "is_host_label s \<longleftrightarrow> s \<noteq> [] \<and> length s \<le> 63 \<and> is_alnum (hd s) \<and> is_alnum (last s) \<and>
     list_all (\<lambda>c. is_alnum c \<or> c = 45) s"

text \<open>The canonical host and the text of the port; \<open>host.rsplit(":", 1)\<close> splits at the only colon.\<close>

definition bracketed_host :: "ustr \<Rightarrow> exn + ustr \<times> ustr option" where
  "bracketed_host authority =
     (case partition_on 93 (tl authority) of
        (host, None) \<Rightarrow> Inl artifact_error
      | (host, Some remainder) \<Rightarrow>
          if remainder \<noteq> [] \<and> (hd remainder \<noteq> 58 \<or> tl remainder = []) then Inl artifact_error
          else if 37 \<in> set host then Inl artifact_error
          else (case ip6_parse host of
                  None \<Rightarrow> Inl artifact_error
                | Some address \<Rightarrow>
                    Inr (91 # ascii_lower (ip6_text address) @ [93],
                         if remainder = [] then None else Some (tl remainder))))"

definition canonical_hostname :: "ustr \<Rightarrow> exn + ustr" where
  "canonical_hostname host =
     (let parts = split_on 46 host
      in if host = [] then Inl artifact_error
         else if length parts = 4 \<and> list_all ascii_digits parts then
           (case ip4_parse host of None \<Rightarrow> Inl artifact_error | Some address \<Rightarrow> Inr (ip4_text address))
         else if length host > 253 \<or> \<not> list_all is_host_label parts then Inl artifact_error
         else Inr (ascii_lower host))"

definition named_host :: "ustr \<Rightarrow> exn + ustr \<times> ustr option" where
  "named_host authority =
     (if count_list authority 58 > 1 then Inl artifact_error
      else case partition_on 58 authority of
        (host, port) \<Rightarrow> rbind (canonical_hostname host) (\<lambda>canonical. Inr (canonical, port)))"

definition canonical_port :: "ustr option \<Rightarrow> exn + ustr" where
  "canonical_port port =
     (case port of
        None \<Rightarrow> Inr []
      | Some t \<Rightarrow>
          if \<not> ascii_digits t then Inl artifact_error
          else rbind (py_int t) (\<lambda>n.
               if 1 \<le> n \<and> n \<le> 65535 then Inr (58 # dec_int n) else Inl artifact_error))"

definition registry_authority :: "json \<Rightarrow> exn + ustr" where
  "registry_authority v =
     rbind (plain_text v) (\<lambda>authority.
     if list_ex is_space authority \<or> 47 \<in> set authority \<or> 92 \<in> set authority \<or> 64 \<in> set authority
     then Inl artifact_error
     else rbind (if starts_with authority [91] then bracketed_host authority else named_host authority)
       (\<lambda>(host, port). rbind (canonical_port port) (\<lambda>p. Inr (host @ p))))"

section \<open>Repositories\<close>

text \<open>\<open>_REPOSITORY_COMPONENT_RE\<close>: runs of lower-case letters and digits between separators.\<close>

definition is_separator :: "ustr \<Rightarrow> bool" where
  "is_separator s \<longleftrightarrow> s = [46] \<or> s = [95] \<or> s = [95, 95] \<or> s \<noteq> [] \<and> list_all (\<lambda>c. c = 45) s"

lemma component_shorter:
  assumes "takeWhile is_lower s \<noteq> []"
  shows "length (dropWhile (\<lambda>c. \<not> is_lower c) (dropWhile is_lower s)) < length s"
proof -
  have "length (takeWhile is_lower s) + length (dropWhile is_lower s) = length s"
    by (metis length_append takeWhile_dropWhile_id)
  moreover have "0 < length (takeWhile is_lower s)" using assms by blast
  moreover have "length (dropWhile (\<lambda>c. \<not> is_lower c) (dropWhile is_lower s)) \<le> length (dropWhile is_lower s)"
    by (rule length_dropWhile_le)
  ultimately show ?thesis by linarith
qed

function is_component :: "ustr \<Rightarrow> bool" where
  "is_component s \<longleftrightarrow>
     (if takeWhile is_lower s = [] then False
      else let r = dropWhile is_lower s; t = dropWhile (\<lambda>c. \<not> is_lower c) r
           in r = [] \<or> is_separator (takeWhile (\<lambda>c. \<not> is_lower c) r) \<and> is_component t)"
  by pat_completeness auto
termination
  by (relation "measure length") (simp_all add: component_shorter)

declare is_component.simps [simp del]

definition repository_name :: "json \<Rightarrow> exn + ustr" where
  "repository_name v =
     rbind (plain_text v) (\<lambda>repository.
     if list_ex is_space repository \<or> 92 \<in> set repository then Inl artifact_error
     else if \<not> list_all is_component (split_on 47 repository) then Inl artifact_error
     else Inr repository)"

section \<open>Image references\<close>

definition is_tag :: "ustr \<Rightarrow> bool" where
  "is_tag s \<longleftrightarrow> s \<noteq> [] \<and> length s \<le> 128 \<and> (is_alnum (hd s) \<or> hd s = 95) \<and>
     list_all (\<lambda>c. is_alnum c \<or> c = 95 \<or> c = 46 \<or> c = 45) s"

fun has_scheme :: "ustr \<Rightarrow> bool" where
  "has_scheme [] = False"
| "has_scheme (c # s) = (starts_with (c # s) [58, 47, 47] \<or> has_scheme s)"

text \<open>\<open>s.rfind(x)\<close>.\<close>

definition rfind :: "int \<Rightarrow> ustr \<Rightarrow> int" where
  "rfind x s = int (length s) - 1 - int (length (takeWhile (\<lambda>c. c \<noteq> x) (rev s)))"

definition split_digest :: "ustr \<Rightarrow> exn + ustr \<times> ustr" where
  "split_digest reference =
     (if 64 \<notin> set reference then Inr (reference, [])
      else if count_list reference 64 \<noteq> 1 then Inl artifact_error
      else let (name, digest) = partition_on 64 reference
           in rbind (canonical_digest (JStr (the digest))) (\<lambda>d. Inr (name, 64 # d)))"

definition split_tag :: "ustr \<Rightarrow> exn + ustr \<times> ustr" where
  "split_tag name_and_tag =
     (let last_slash = rfind 47 name_and_tag; last_colon = rfind 58 name_and_tag
      in if last_colon > last_slash then
           (let tag = drop (nat last_colon + 1) name_and_tag
            in if is_tag tag then Inr (take (nat last_colon) name_and_tag, 58 # tag) else Inl artifact_error)
         else Inr (name_and_tag, []))"

definition explicit_registry :: "ustr \<Rightarrow> bool" where
  "explicit_registry first \<longleftrightarrow>
     ascii_lower first = ul ''localhost'' \<or> 46 \<in> set first \<or> 58 \<in> set first \<or> starts_with first [91]"

definition canonical_name :: "ustr \<Rightarrow> exn + ustr" where
  "canonical_name name =
     (let components = split_on 47 name
      in if name = [] then Inl artifact_error
         else if length components > 1 \<and> explicit_registry (hd components) then
           rbind (registry_authority (JStr (hd components))) (\<lambda>registry.
           rbind (repository_name (JStr (join_with 47 (tl components)))) (\<lambda>_.
           Inr (join_with 47 (registry # tl components))))
         else rbind (repository_name (JStr (join_with 47 components))) (\<lambda>_. Inr name))"

definition requested_reference :: "json \<Rightarrow> exn + ustr" where
  "requested_reference v =
     rbind (plain_text v) (\<lambda>reference.
     if list_ex is_space reference \<or> 92 \<in> set reference \<or> has_scheme reference then Inl artifact_error
     else if starts_with reference [47] \<or> starts_with reference [46, 47] \<or> starts_with reference [46, 46, 47] \<or>
             starts_with reference [126] then Inl artifact_error
     else rbind (split_digest reference) (\<lambda>(name_and_tag, digest_suffix).
          rbind (split_tag name_and_tag) (\<lambda>(name, tag_suffix).
          rbind (canonical_name name) (\<lambda>canonical. Inr (canonical @ tag_suffix @ digest_suffix)))))"

lemmas reference_exec [exec] = artifact_error_def normalize_digest_def canonical_digest_def plain_text_def is_host_label_def
  bracketed_host_def canonical_hostname_def named_host_def canonical_port_def registry_authority_def is_separator_def
  is_component.simps repository_name_def is_tag_def rfind_def split_digest_def split_tag_def explicit_registry_def canonical_name_def
  requested_reference_def

end
