(* ===== verification/Oci_Reference_Props.thy ===== *)
theory Oci_Reference_Props imports Main Oci_Reference begin

text \<open>
  Normal forms of registry authorities and image references: what the normalisation returns it
  returns unchanged, so the text of a stored reference can be read back.
\<close>

section \<open>Printable texts\<close>

definition printable :: "ustr \<Rightarrow> bool" where
  "printable s \<longleftrightarrow> s \<noteq> [] \<and> (\<forall>c \<in> set s. 33 \<le> c \<and> c < 127 \<and> c \<noteq> 92)"

lemma strip_no_space: "\<forall>c \<in> set s. \<not> is_space c \<Longrightarrow> strip s = s"
proof -
  assume s: "\<forall>c \<in> set s. \<not> is_space c"
  have "dropWhile is_space t = t" if "\<forall>c \<in> set t. \<not> is_space c" for t using that by (cases t) auto
  from this [of s] this [of "rev s"] s show ?thesis by (simp add: strip_def)
qed

lemma printable_no_space: "printable s \<Longrightarrow> \<forall>c \<in> set s. \<not> is_space c"
  by (fastforce simp: printable_def is_space_def)

lemma plain_printable:
  assumes "printable s"
  shows "plain_text (JStr s) = Inr s" "\<not> list_ex is_space s" "92 \<notin> set s"
proof -
  have "\<not> list_ex (\<lambda>c. c < 32 \<or> c = 127) s" using assms by (fastforce simp: printable_def list_ex_iff)
  then show "plain_text (JStr s) = Inr s"
    using assms strip_no_space [OF printable_no_space [OF assms]] by (simp add: plain_text_def printable_def)
  show "\<not> list_ex is_space s" using printable_no_space [OF assms] by (simp add: list_ex_iff)
  show "92 \<notin> set s" using assms by (auto simp: printable_def)
qed

lemma printable_append: "printable (s @ t) \<longleftrightarrow> printable s \<and> (t = [] \<or> printable t) \<or> s = [] \<and> printable t"
  by (auto simp: printable_def)

lemma printable_Cons: "printable (c # s) \<longleftrightarrow> 33 \<le> c \<and> c < 127 \<and> c \<noteq> 92 \<and> (s = [] \<or> printable s)"
  by (auto simp: printable_def)

lemma plain_text_iff: "plain_text v = Inr s \<longleftrightarrow> v = JStr s \<and> s \<noteq> [] \<and> s = strip s \<and> (\<forall>c \<in> set s. 32 \<le> c \<and> c \<noteq> 127)"
  by (fastforce simp: plain_text_def list_ex_iff split: json.splits if_splits)

lemma plain_text_again: "plain_text v = Inr s \<Longrightarrow> plain_text (JStr s) = Inr s"
  by (auto simp: plain_text_def split: json.splits if_splits)

section \<open>ASCII lower case\<close>

lemma lower_char_simps [simp]:
  "lower_char (lower_char c) = lower_char c" "is_digit (lower_char c) \<longleftrightarrow> is_digit c"
  "is_alnum (lower_char c) \<longleftrightarrow> is_alnum c" "lower_char c = 46 \<longleftrightarrow> c = 46" "lower_char c = 45 \<longleftrightarrow> c = 45"
  by (auto simp: lower_char_def is_digit_def is_alnum_def is_lower_def)

lemma ascii_lower_simps [simp]:
  "ascii_lower (ascii_lower s) = ascii_lower s" "length (ascii_lower s) = length s" "ascii_lower s = [] \<longleftrightarrow> s = []"
  "ascii_digits (ascii_lower s) \<longleftrightarrow> ascii_digits s" "is_host_label (ascii_lower s) \<longleftrightarrow> is_host_label s"
proof -
  have "hd (map lower_char s) = lower_char (hd s)" "last (map lower_char s) = lower_char (last s)" if "s \<noteq> []"
    using that by (simp_all add: hd_map last_map)
  then show "is_host_label (ascii_lower s) \<longleftrightarrow> is_host_label s"
    by (cases "s = []") (auto simp: is_host_label_def ascii_lower_def list_all_iff)
qed (simp_all add: ascii_lower_def ascii_digits_def list_all_iff)

lemma split_on_lower: "split_on 46 (ascii_lower s) = map ascii_lower (split_on 46 s)"
  unfolding ascii_lower_def
proof (induction s)
  case (Cons c s)
  then show ?case by (cases "split_on 46 s") auto
qed simp

lemma hex_lower_lower: "is_hex_lower c \<or> c = 58 \<Longrightarrow> lower_char c = c"
  by (auto simp: lower_char_def is_hex_lower_def)

lemma ip6_text_lower [simp]: "ascii_lower (ip6_text g) = ip6_text g"
  unfolding ascii_lower_def using ip6_text_chars hex_lower_lower by (intro map_idI) blast

section \<open>Hosts\<close>

definition host_char :: "int \<Rightarrow> bool" where
  "host_char c \<longleftrightarrow> is_alnum c \<or> c = 45 \<or> c = 46"

lemma host_parts:
  assumes "h \<noteq> []" and "list_all (\<lambda>p. p \<noteq> [] \<and> is_alnum (hd p) \<and> list_all (\<lambda>c. is_alnum c \<or> c = 45) p) (split_on 46 h)"
  shows "\<forall>c \<in> set h. host_char c" and "is_alnum (hd h)"
proof -
  show "\<forall>c \<in> set h. host_char c"
    using assms(2) set_split_on [of h 46] by (fastforce simp: list_all_iff host_char_def)
  obtain p ps where p: "split_on 46 h = p # ps" by (cases "split_on 46 h") auto
  then have "p \<noteq> []" "is_alnum (hd p)" using assms(2) by auto
  moreover have "h = join_with 46 (p # ps)" using p by (metis join_split)
  ultimately show "is_alnum (hd h)" by (cases ps) auto
qed

lemma hostname_stable:
  assumes "canonical_hostname h = Inr c"
  shows "canonical_hostname c = Inr c" and "\<forall>x \<in> set c. host_char x" and "c \<noteq> []" and "is_alnum (hd c)"
    and "46 \<in> set h \<Longrightarrow> 46 \<in> set c" and "ascii_lower h = ul ''localhost'' \<Longrightarrow> c = ul ''localhost''"
proof -
  let ?ps = "split_on 46 h"
  have h: "h \<noteq> []" using assms by (auto simp: canonical_hostname_def Let_def)
  consider (ip4) "length ?ps = 4" "list_all ascii_digits ?ps" "c = h"
    | (name) "\<not> (length ?ps = 4 \<and> list_all ascii_digits ?ps)" "length h \<le> 253" "list_all is_host_label ?ps" "c = ascii_lower h"
    using assms ip4_text_parse by (auto simp: canonical_hostname_def Let_def not_less split: if_splits option.splits)
  note cases = this
  have parts: "list_all (\<lambda>p. p \<noteq> [] \<and> is_alnum (hd p) \<and> list_all (\<lambda>c. is_alnum c \<or> c = 45) p) (split_on 46 c)"
    using cases
  proof cases
    case ip4
    then show ?thesis by (fastforce simp: list_all_iff ascii_digits_def is_alnum_def is_lower_def)
  next
    case name
    then have "list_all is_host_label (split_on 46 c)" by (simp add: split_on_lower list_all_iff)
    then show ?thesis by (fastforce simp: list_all_iff is_host_label_def)
  qed
  show c: "c \<noteq> []" using cases h by cases auto
  show "\<forall>x \<in> set c. host_char x" "is_alnum (hd c)" using host_parts [OF c parts] by auto
  show "canonical_hostname c = Inr c"
    using cases assms by cases (auto simp: canonical_hostname_def Let_def split_on_lower list_all_iff)
  show "46 \<in> set h \<Longrightarrow> 46 \<in> set c" using cases by cases (force simp: ascii_lower_def)+
  show "c = ul ''localhost''" if l: "ascii_lower h = ul ''localhost''"
  proof -
    have "46 \<notin> set (ascii_lower h)" unfolding l by (simp add: ul_def)
    then have "46 \<notin> set h" by (force simp: ascii_lower_def)
    then have "length ?ps = 1" by (simp add: split_on_no)
    with cases l show ?thesis by cases auto
  qed
qed

section \<open>Ports\<close>

lemma canonical_port_cases:
  assumes "canonical_port port = Inr p"
  shows "port = None \<and> p = [] \<or> (\<exists>t n. port = Some t \<and> ascii_digits t \<and> p = 58 # dec_int n \<and> 1 \<le> n \<and> n \<le> 65535)"
  using assms by (auto simp: canonical_port_def rbind_Inr_iff split: option.splits if_splits)

lemma canonical_port_None: "canonical_port None = Inr []"
  by (simp add: canonical_port_def)

lemma dec_int_digits: "0 \<le> n \<Longrightarrow> ascii_digits (dec_int n)"
  using dec_nat_digits [of n] by (simp add: ascii_digits_def dec_int_def list_all_iff)

lemma canonical_port_stable: "1 \<le> n \<Longrightarrow> n \<le> 65535 \<Longrightarrow> canonical_port (Some (dec_int n)) = Inr (58 # dec_int n)"
  by (simp add: canonical_port_def dec_int_digits py_int_dec)

section \<open>Registry authorities\<close>

text \<open>The two shapes of a canonical authority.\<close>

definition canonical_host :: "ustr \<Rightarrow> bool" where
  "canonical_host h \<longleftrightarrow>
     (\<exists>g. ip6_parse (ip6_text g) = Some g \<and> h = 91 # ip6_text g @ [93]) \<or> canonical_hostname h = Inr h"

definition authority_ok :: "ustr \<Rightarrow> bool" where
  "authority_ok r \<longleftrightarrow>
     (\<exists>h p. r = h @ p \<and> canonical_host h \<and> (p = [] \<or> (\<exists>n. p = 58 # dec_int n \<and> 1 \<le> n \<and> n \<le> 65535)))"

lemma canonical_host_shape:
  assumes "canonical_host h"
  shows "h \<noteq> [] \<and> (hd h = 91 \<or> is_alnum (hd h)) \<and> (\<forall>c\<in>set h. host_char c \<or> c = 58 \<or> c = 91 \<or> c = 93) \<and>
    (hd h \<noteq> 91 \<longrightarrow> 58 \<notin> set h)"
proof -
  have x: "host_char c" if "is_hex_lower c" for c
    using that by (auto simp: is_hex_lower_def host_char_def is_alnum_def is_lower_def is_digit_def)
  have y: "\<not> host_char 58" "\<not> is_alnum 91" by (simp_all add: host_char_def is_alnum_def is_lower_def is_digit_def)
  consider g where "h = 91 # ip6_text g @ [93]" | "canonical_hostname h = Inr h"
    using assms by (auto simp: canonical_host_def)
  then show ?thesis
  proof cases
    case 1
    then show ?thesis using ip6_text_chars x by fastforce
  next
    case 2
    then show ?thesis using hostname_stable [OF 2] y by auto
  qed
qed

lemma authority_chars:
  assumes "authority_ok r"
  shows "printable r" "47 \<notin> set r" "64 \<notin> set r" "hd r = 91 \<or> is_alnum (hd r)"
proof -
  obtain h p where r: "r = h @ p" "canonical_host h" "p = [] \<or> (\<exists>n. p = 58 # dec_int n \<and> 1 \<le> n)"
    using assms unfolding authority_ok_def by blast
  have h: "h \<noteq> []" "hd h = 91 \<or> is_alnum (hd h)" "\<forall>c\<in>set h. host_char c \<or> c = 58 \<or> c = 91 \<or> c = 93"
    using canonical_host_shape [OF r(2)] by blast+
  have d: "is_digit c" if "c \<in> set (dec_int n)" "1 \<le> n" for c n using that dec_nat_digits [of n c] by (simp add: dec_int_def)
  have cs: "\<forall>c \<in> set r. host_char c \<or> c = 58 \<or> c = 91 \<or> c = 93"
    using r(1,3) h(3) d by (fastforce simp: host_char_def is_alnum_def is_lower_def)
  show "hd r = 91 \<or> is_alnum (hd r)" using r(1) h(1,2) by simp
  have "33 \<le> c \<and> c < 127 \<and> c \<noteq> 92 \<and> c \<noteq> 47 \<and> c \<noteq> 64" if "host_char c \<or> c = 58 \<or> c = 91 \<or> c = 93" for c
    using that by (auto simp: host_char_def is_alnum_def is_lower_def is_digit_def)
  with cs r(1) h(1) show "printable r" "47 \<notin> set r" "64 \<notin> set r" by (auto simp: printable_def)
qed

lemma count_list_no: "x \<notin> set s \<Longrightarrow> count_list s x = 0"
  by (simp add: count_list_0_iff)

lemma partition_on_app: "x \<notin> set s \<Longrightarrow> partition_on x (s @ x # t) = (s, Some t)"
  by (induction s) (auto simp: partition_on_def)

lemma partition_on_no: "x \<notin> set s \<Longrightarrow> partition_on x s = (s, None)"
  by (induction s) (auto simp: partition_on_def)

lemma partition_on_cases:
  assumes "partition_on x s = (a, r)"
  obtains "r = None" "s = a" "x \<notin> set s" | t where "r = Some t" "s = a @ x # t" "x \<notin> set a"
proof (cases "x \<in> set s")
  case True
  then obtain u t where "s = u @ x # t" "x \<notin> set u" by (meson split_list_first)
  with assms have "r = Some t" "s = a @ x # t" "x \<notin> set a" by (auto simp: partition_on_app)
  then show ?thesis by (rule that(2))
next
  case False
  with that(1) assms show ?thesis by (simp add: partition_on_no)
qed

lemma port_text_digits: "58 \<notin> set (dec_int n)" if "1 \<le> n"
  using that dec_nat_digits [of n 58] by (auto simp: dec_int_def is_digit_def)

lemma authority_stable:
  assumes "authority_ok r"
  shows "registry_authority (JStr r) = Inr r"
proof -
  obtain h p where r: "r = h @ p" "canonical_host h" and p: "p = [] \<or> (\<exists>n. p = 58 # dec_int n \<and> 1 \<le> n \<and> n \<le> 65535)"
    using assms by (auto simp: authority_ok_def)
  define port where "port = (if p = [] then None else Some (tl p))"
  have port: "canonical_port port = Inr p"
    using p canonical_port_stable by (auto simp: port_def canonical_port_None)
  have host: "(if starts_with r [91] then bracketed_host r else named_host r) = Inr (h, port)"
  proof (cases "hd h = 91")
    case True
    then obtain g where g: "ip6_parse (ip6_text g) = Some g" "h = 91 # ip6_text g @ [93]"
      using r(2) hostname_stable(4) [of h h] by (auto simp: canonical_host_def is_alnum_def is_lower_def is_digit_def)
    have "93 \<notin> set (ip6_text g)" "37 \<notin> set (ip6_text g)" 
      using ip6_text_chars [of 93 g] ip6_text_chars [of 37 g] by (auto simp: is_hex_lower_def)
    moreover have "p = [] \<or> hd p = 58 \<and> tl p \<noteq> []" using p by (auto simp: dec_int_def)
    ultimately show ?thesis
      using g r(1) by (auto simp: starts_with_def bracketed_host_def partition_on_app port_def)
  next
    case False
    then have h: "canonical_hostname h = Inr h" using r(2) by (auto simp: canonical_host_def)
    have hd: "\<not> starts_with r [91]" "58 \<notin> set h"
      using False canonical_host_shape [OF r(2)] r(1) by (cases h; simp add: starts_with_def)+
    have "58 \<notin> set (tl p)" using p port_text_digits by auto
    with p hd h r(1) show ?thesis
      by (auto simp: named_host_def count_list_no port_def partition_on_app partition_on_no)
  qed
  have "registry_authority (JStr r) = Inr (h @ p)"
    using plain_printable [OF authority_chars(1) [OF assms]] authority_chars(2,3) [OF assms] host port
    by (simp add: registry_authority_def)
  then show ?thesis using r(1) by simp
qed

lemma authority_result:
  assumes "registry_authority v = Inr r"
  shows "authority_ok r" and "v = JStr a \<Longrightarrow> explicit_registry a \<Longrightarrow> explicit_registry r"
proof -
  obtain a h port p where a: "v = JStr a" "(if starts_with a [91] then bracketed_host a else named_host a) = Inr (h, port)"
      "canonical_port port = Inr p" "r = h @ p"
    using assms by (auto simp: registry_authority_def rbind_Inr_iff plain_text_iff split: if_splits prod.splits)
  note port = canonical_port_cases [OF a(3)]
  have "canonical_host h \<and> (explicit_registry a \<longrightarrow> explicit_registry r)"
  proof (cases "starts_with a [91]")
    case True
    then obtain g where "ip6_parse (ip6_text g) = Some g" "h = 91 # ip6_text g @ [93]"
      using a(2) ip6_text_stable by (auto simp: bracketed_host_def split: option.splits if_splits prod.splits)
    then show ?thesis using a(4) by (auto simp: canonical_host_def explicit_registry_def starts_with_def)
  next
    case False
    then obtain host where host: "partition_on 58 a = (host, port)" "canonical_hostname host = Inr h"
      using a(2) by (auto simp: named_host_def rbind_Inr_iff split: if_splits prod.splits)
    note st = hostname_stable [OF host(2)]
    have "explicit_registry r" if e: "explicit_registry a"
    proof (cases port)
      case None
      with host(1) have "host = a" "58 \<notin> set a" by (auto elim: partition_on_cases)
      moreover have "r = h" using a(4) port None by auto
      ultimately have "46 \<in> set r \<or> r = ul ''localhost''" using e False st(5,6) by (auto simp: explicit_registry_def)
      moreover have "explicit_registry (ul ''localhost'')" by (simp add: explicit_registry_def ascii_lower_def lower_char_def ul_def)
      ultimately show ?thesis by (auto simp: explicit_registry_def)
    next
      case (Some t)
      then show ?thesis using a(4) port by (auto simp: explicit_registry_def)
    qed
    with st(1) show ?thesis by (auto simp: canonical_host_def)
  qed
  then show "authority_ok r" "v = JStr a' \<Longrightarrow> explicit_registry a' \<Longrightarrow> explicit_registry r" for a'
    using a(1,4) port by (auto simp: authority_ok_def)
qed

section \<open>Repositories and tags\<close>

definition name_char :: "int \<Rightarrow> bool" where
  "name_char c \<longleftrightarrow> is_lower c \<or> c = 46 \<or> c = 95 \<or> c = 45"

lemma component_chars: "is_component s \<Longrightarrow> s \<noteq> [] \<and> is_lower (hd s) \<and> (\<forall>c \<in> set s. name_char c)"
proof (induction s rule: is_component.induct)
  case (1 s)
  let ?r = "dropWhile is_lower s"
  have u: "takeWhile is_lower s \<noteq> []" "?r = [] \<or> is_separator (takeWhile (\<lambda>c. \<not> is_lower c) ?r) \<and>
      is_component (dropWhile (\<lambda>c. \<not> is_lower c) ?r)"
    using 1(2) by (simp_all add: is_component.simps [of s] Let_def split: if_splits)
  have "\<forall>c \<in> set ?r. name_char c"
  proof (cases "?r = []")
    case False
    with u(2) 1(1) [OF u(1) refl refl]
    have "\<forall>c \<in> set (dropWhile (\<lambda>c. \<not> is_lower c) ?r). name_char c" "is_separator (takeWhile (\<lambda>c. \<not> is_lower c) ?r)" by auto
    moreover have "\<forall>c \<in> set x. name_char c" if "is_separator x" for x
      using that by (auto simp: is_separator_def name_char_def list_all_iff)
    ultimately show ?thesis by (metis Un_iff set_append takeWhile_dropWhile_id)
  next
    case True
    show ?thesis unfolding True by simp
  qed
  moreover have "\<forall>c \<in> set (takeWhile is_lower s). name_char c" by (auto simp: name_char_def dest: set_takeWhileD)
  ultimately have "\<forall>c \<in> set s. name_char c" by (metis Un_iff set_append takeWhile_dropWhile_id)
  moreover have "s \<noteq> []" "is_lower (hd s)" using u(1) by (cases s; simp split: if_splits)+
  ultimately show ?case by simp
qed

lemma repository_iff: "repository_name (JStr s) = Inr t \<longleftrightarrow> t = s \<and> s \<noteq> [] \<and> list_all is_component (split_on 47 s)"
proof
  assume "repository_name (JStr s) = Inr t"
  then show "t = s \<and> s \<noteq> [] \<and> list_all is_component (split_on 47 s)"
    by (auto simp: repository_name_def rbind_Inr_iff plain_text_iff split: if_splits)
next
  assume r: "t = s \<and> s \<noteq> [] \<and> list_all is_component (split_on 47 s)"
  have "name_char c \<or> c = 47" if "c \<in> set s" for c
    using r that set_split_on [of s 47] component_chars by (fastforce simp: list_all_iff)
  then have "printable s" using r by (fastforce simp: printable_def name_char_def is_lower_def is_digit_def)
  with r plain_printable show "repository_name (JStr s) = Inr t" by (simp add: repository_name_def)
qed

lemma repository_name_again: "repository_name v = Inr t \<Longrightarrow> v = JStr t \<and> repository_name (JStr t) = Inr t"
  by (auto simp: repository_name_def rbind_Inr_iff plain_text_iff split: if_splits)

lemma tag_chars: "is_tag t \<Longrightarrow> printable t \<and> 47 \<notin> set t \<and> 58 \<notin> set t \<and> 64 \<notin> set t"
  by (fastforce simp: is_tag_def list_all_iff printable_def is_alnum_def is_lower_def is_digit_def)

lemma digest_iff: "canonical_digest v = Inr d \<longleftrightarrow> v = JStr d \<and> is_digest d"
proof -
  have "normalize_digest s = Some s \<longleftrightarrow> is_digest s" for s
  proof
    assume "normalize_digest s = Some s"
    moreover define h where "h = remove_prefix s digest_prefix"
    ultimately have h: "s = digest_prefix @ ascii_lower h" "length h = 64" "list_all is_hex_any h"
      by (simp_all add: normalize_digest_def Let_def split: if_splits)
    have "is_hex_lower (lower_char c)" if "is_hex_any c" for c
      using that by (auto simp: is_hex_any_def is_hex_lower_def lower_char_def)
    with h show "is_digest s" by (auto simp: is_digest_def digest_prefix_def is_hex32_def ascii_lower_def list_all_iff)
  next
    assume d: "is_digest s"
    then have s: "s = digest_prefix @ drop 7 s" "is_hex32 (drop 7 s)" by (metis append_take_drop_id is_digest_def)+
    have "lower_char c = c" "is_hex_any c" if "is_hex_lower c" for c
      using that by (auto simp: is_hex_any_def is_hex_lower_def lower_char_def)
    then have "ascii_lower (drop 7 s) = drop 7 s" "list_all is_hex_any (drop 7 s)"
      using s(2) by (auto simp: is_hex32_def ascii_lower_def list_all_iff intro: map_idI)
    moreover have "remove_prefix s digest_prefix = drop 7 s"
      using s(1) by (metis append_eq_conv_conj remove_prefix_def starts_with_append)
    ultimately show "normalize_digest s = Some s" using s by (simp add: normalize_digest_def is_hex32_def)
  qed
  note normal = this
  have "canonical_digest (JStr s) = Inr d \<longleftrightarrow> normalize_digest s = Some s \<and> d = s" for s
    by (auto simp: canonical_digest_def split: option.splits)
  then show ?thesis using normal by (cases v) (auto simp: canonical_digest_def)
qed

section \<open>Image references\<close>

lemma rfind_app: "x \<notin> set b \<Longrightarrow> rfind x (a @ x # b) = int (length a)"
proof -
  assume "x \<notin> set b"
  then have "takeWhile (\<lambda>c. c \<noteq> x) (rev b @ x # rev a) = rev b" by (simp add: takeWhile_append)
  then show ?thesis by (simp add: rfind_def)
qed

lemma rfind_no: "x \<notin> set s \<Longrightarrow> rfind x s = -1"
proof -
  assume "x \<notin> set s"
  then have "takeWhile (\<lambda>c. c \<noteq> x) (rev s) = rev s" by (auto simp: takeWhile_eq_all_conv)
  then have "length (takeWhile (\<lambda>c. c \<noteq> x) (rev s)) = length s" by (metis length_rev)
  then show ?thesis by (simp only: rfind_def)
qed

lemma rfind_less: "rfind x s < int (length s)"
  by (simp add: rfind_def)

text \<open>No colon after the last slash.\<close>

definition untagged :: "ustr \<Rightarrow> bool" where
  "untagged c \<longleftrightarrow> rfind 58 c \<le> rfind 47 c"

lemma split_tag_result:
  assumes "split_tag s = Inr (name, t)"
  shows "s = name @ t \<and> (t = [] \<and> untagged name \<or> (\<exists>g. t = 58 # g \<and> is_tag g))"
proof (cases "rfind 58 s > rfind 47 s")
  case True
  have c: "58 \<in> set s"
  proof (rule ccontr)
    assume "58 \<notin> set s"
    with True rfind_no [of 58 s] have "rfind 47 s < -1" by simp
    then show False using length_takeWhile_le [of "\<lambda>c. c \<noteq> 47" "rev s"] by (simp add: rfind_def)
  qed
  then obtain a b where ab: "s = a @ 58 # b" "58 \<notin> set b" by (meson split_list_last)
  then have "rfind 58 s = int (length a)" by (simp add: rfind_app)
  with True ab assms show ?thesis by (auto simp: split_tag_def Let_def split: if_splits)
next
  case False
  then show ?thesis using assms by (auto simp: split_tag_def Let_def untagged_def)
qed

lemma split_tag_again: "untagged c \<Longrightarrow> t = [] \<or> (\<exists>g. t = 58 # g \<and> is_tag g) \<Longrightarrow> split_tag (c @ t) = Inr (c, t)"
proof -
  assume c: "untagged c" and "t = [] \<or> (\<exists>g. t = 58 # g \<and> is_tag g)"
  then consider "t = []" | g where "t = 58 # g" "is_tag g" by blast
  then show ?thesis
  proof cases
    case 1
    with c show ?thesis by (simp add: split_tag_def untagged_def)
  next
    case 2
    then have g: "58 \<notin> set g" "47 \<notin> set g" using tag_chars by auto
    have "rfind 47 (c @ 58 # g) < int (length c)"
    proof (cases "47 \<in> set c")
      case True
      then obtain a b where "c = a @ 47 # b" "47 \<notin> set b" by (meson split_list_last)
      with g rfind_app [of 47 "b @ 58 # g" a] show ?thesis by simp
    next
      case False
      with g show ?thesis by (simp add: rfind_no)
    qed
    with 2 g show ?thesis by (simp add: split_tag_def rfind_app Let_def)
  qed
qed

definition name_ok :: "ustr \<Rightarrow> bool" where
  "name_ok c \<longleftrightarrow> canonical_name c = Inr c \<and> printable c \<and> 64 \<notin> set c \<and> [] \<notin> set (split_on 47 c) \<and> untagged c \<and>
     (hd c = 91 \<or> is_alnum (hd c))"

lemma components_ok:
  assumes "list_all is_component cs" and "cs \<noteq> []"
  shows "printable (join_with 47 cs)" "64 \<notin> set (join_with 47 cs)" "58 \<notin> set (join_with 47 cs)"
    "[] \<notin> set cs" "is_alnum (hd (join_with 47 cs))" "\<forall>c \<in> set cs. 47 \<notin> set c"
proof -
  have j: "c \<in> set (join_with 47 ds) \<Longrightarrow> c = 47 \<or> (\<exists>d \<in> set ds. c \<in> set d)" for c :: int and ds
    by (induction ds rule: join_with.induct [of _ "47 :: int"]) auto
  have ch: "name_char c \<or> c = 47" if "c \<in> set (join_with 47 cs)" for c
    using j [OF that] assms(1) component_chars by (fastforce simp: list_all_iff)
  obtain d ds where cs: "cs = d # ds" using assms(2) by (cases cs) auto
  then have d: "d \<noteq> []" "is_lower (hd d)" using assms(1) component_chars by auto
  then have ne: "join_with 47 cs \<noteq> []" "hd (join_with 47 cs) = hd d" using cs by (cases ds; simp)+
  then show "is_alnum (hd (join_with 47 cs))" using d by (simp add: is_alnum_def)
  have "33 \<le> c \<and> c < 127 \<and> c \<noteq> 92 \<and> c \<noteq> 64 \<and> c \<noteq> 58" if "name_char c \<or> c = 47" for c
    using that by (auto simp: name_char_def is_lower_def is_digit_def)
  with ch ne show "printable (join_with 47 cs)" "64 \<notin> set (join_with 47 cs)" "58 \<notin> set (join_with 47 cs)"
    by (auto simp: printable_def)
  show "[] \<notin> set cs" using assms(1) component_chars by (auto simp: list_all_iff)
  show "\<forall>c \<in> set cs. 47 \<notin> set c"
    using assms(1) component_chars by (fastforce simp: list_all_iff name_char_def is_lower_def is_digit_def)
qed

lemma canonical_name_ok:
  assumes "canonical_name name = Inr c"
  shows "name_ok c"
proof (cases "length (split_on 47 name) > 1 \<and> explicit_registry (hd (split_on 47 name))")
  case False
  then have c: "c = name" "list_all is_component (split_on 47 name)" "name \<noteq> []"
    using assms by (auto simp: canonical_name_def Let_def rbind_Inr_iff repository_iff join_split split: if_splits)
  note ok = components_ok [OF c(2) split_on_ne, unfolded join_split]
  have "- 1 \<le> rfind 47 name" using length_takeWhile_le [of "\<lambda>c. c \<noteq> 47" "rev name"] by (simp add: rfind_def)
  with ok(3) have "untagged name" by (simp add: untagged_def rfind_no)
  with assms c(1) ok show ?thesis by (simp add: name_ok_def)
next
  case True
  then obtain f cs where f: "split_on 47 name = f # cs" "cs \<noteq> []" "explicit_registry f" by (cases "split_on 47 name") auto
  with assms obtain r where r: "registry_authority (JStr f) = Inr r" "c = join_with 47 (r # cs)"
      "repository_name (JStr (join_with 47 cs)) = Inr (join_with 47 cs)" "name \<noteq> []"
    using repository_iff by (auto simp: canonical_name_def Let_def rbind_Inr_iff split: if_splits)
  have parts: "\<forall>d \<in> set cs. 47 \<notin> set d" using f(1) split_on_part [of _ 47 name] by fastforce
  then have sp: "split_on 47 (join_with 47 cs) = cs" using f(2) by (intro split_join) (auto simp: list_all_iff)
  then have comps: "list_all is_component cs" using r(3) by (simp add: repository_iff)
  note ok = components_ok [OF comps f(2)] and a = authority_result [OF r(1)]
  note ac = authority_chars [OF a(1)]
  have cj: "c = r @ 47 # join_with 47 cs" using r(2) f(2) by (cases cs) auto
  have sc: "split_on 47 c = r # cs" unfolding cj by (simp add: split_on_app [OF ac(2)] sp)
  have "canonical_name c = Inr c"
    using sc f(2) a(2) [OF refl f(3)] authority_stable [OF a(1)] r(2,3) ok(1) ac(1)
    by (cases cs) (simp_all add: canonical_name_def Let_def printable_def cj)
  moreover have "untagged c"
  proof -
    obtain x y where xy: "join_with 47 cs = x" by simp
    have "\<exists>p q. c = p @ 47 # q \<and> 47 \<notin> set q \<and> length r \<le> length p"
    proof (cases "47 \<in> set x")
      case True
      then obtain p q where "x = p @ 47 # q" "47 \<notin> set q" by (meson split_list_last)
      then have "c = (r @ 47 # p) @ 47 # q \<and> 47 \<notin> set q \<and> length r \<le> length (r @ 47 # p)" using cj xy by simp
      then show ?thesis by blast
    next
      case False
      then show ?thesis using cj xy by blast
    qed
    then have "int (length r) \<le> rfind 47 c" by (auto simp: rfind_app)
    moreover have "rfind 58 c < int (length r)"
    proof (cases "58 \<in> set r")
      case True
      then obtain p q where "r = p @ 58 # q" "58 \<notin> set q" by (meson split_list_last)
      with cj ok(3) rfind_app [of 58 "q @ 47 # join_with 47 cs" p] show ?thesis by simp
    next
      case False
      with cj ok(3) show ?thesis by (simp add: rfind_no)
    qed
    ultimately show ?thesis by (simp add: untagged_def)
  qed
  moreover have "printable c" "64 \<notin> set c" "[] \<notin> set (split_on 47 c)" "hd c = 91 \<or> is_alnum (hd c)"
    using ac ok cj sc by (auto simp: printable_def)
  ultimately show ?thesis by (simp add: name_ok_def)
qed

lemma split_digest_result:
  assumes "split_digest s = Inr (n, d)"
  shows "s = n @ d \<and> 64 \<notin> set n \<and> (d = [] \<or> (\<exists>g. d = 64 # g \<and> is_digest g))"
proof (cases "64 \<in> set s")
  case True
  then obtain a b where "s = a @ 64 # b" "64 \<notin> set a" by (meson split_list_first)
  with True assms show ?thesis
    by (auto simp: split_digest_def partition_on_app rbind_Inr_iff digest_iff split: if_splits)
next
  case False
  with assms show ?thesis by (simp add: split_digest_def)
qed

lemma digest_again: "is_digest g \<Longrightarrow> canonical_digest (JStr g) = Inr g"
  by (simp add: digest_iff)

lemma digest_chars: "is_digest d \<Longrightarrow> printable d \<and> 47 \<notin> set d \<and> 64 \<notin> set d"
proof -
  assume d: "is_digest d"
  then have s: "d = digest_prefix @ drop 7 d" "is_hex32 (drop 7 d)" by (metis append_take_drop_id is_digest_def)+
  then have "\<forall>c \<in> set (drop 7 d). 48 \<le> c \<and> c \<le> 102 \<and> c \<noteq> 92 \<and> c \<noteq> 64"
    by (fastforce simp: is_hex32_def is_hex_lower_def)
  moreover have "\<forall>c \<in> set digest_prefix. 48 \<le> c \<and> c \<le> 122 \<and> c \<noteq> 92 \<and> c \<noteq> 64" by (simp add: digest_prefix_def ul_def)
  moreover have "set d = set digest_prefix \<union> set (drop 7 d)" using arg_cong [OF s(1), of set] by simp
  ultimately have "\<forall>c \<in> set d. 48 \<le> c \<and> c \<le> 122 \<and> c \<noteq> 92 \<and> c \<noteq> 64" by fastforce
  moreover have "d \<noteq> []" using s(1) by (auto simp: digest_prefix_def ul_def)
  ultimately show ?thesis by (fastforce simp: printable_def)
qed

lemma split_digest_again:
  "64 \<notin> set n \<Longrightarrow> d = [] \<or> (\<exists>g. d = 64 # g \<and> is_digest g) \<Longrightarrow> split_digest (n @ d) = Inr (n, d)"
  using digest_chars by (auto simp: split_digest_def partition_on_app count_list_no digest_again)

lemma has_scheme_slashes: "has_scheme s \<Longrightarrow> [] \<in> set (split_on 47 s)"
proof -
  assume "has_scheme s"
  then have "\<exists>a b. s = a @ 58 # 47 # 47 # b"
  proof (induction s)
    case (Cons c s)
    then show ?case
    proof (cases "has_scheme s")
      case True
      with Cons.IH obtain a b where "s = a @ 58 # 47 # 47 # b" by blast
      then have "c # s = (c # a) @ 58 # 47 # 47 # b" by simp
      then show ?thesis by blast
    next
      case False
      with Cons.prems have "starts_with (c # s) [58, 47, 47]" by simp
      then have "\<exists>r. c # s = [] @ 58 # 47 # 47 # r" by (auto simp: starts_with_iff)
      then show ?thesis by blast
    qed
  qed simp
  then obtain a b where "s = (a @ [58]) @ 47 # 47 # b" by auto
  then have "split_on 47 s = split_on 47 (a @ [58]) @ [] # split_on 47 b" by (simp only: split_on_append) simp
  then show ?thesis by simp
qed

lemma reference_stable:
  assumes "requested_reference v = Inr t"
  shows "requested_reference (JStr t) = Inr t"
proof -
  obtain r nt d name tag c where steps: "split_digest r = Inr (nt, d)" "split_tag nt = Inr (name, tag)"
      "canonical_name name = Inr c" and t: "t = c @ tag @ d"
    using assms unfolding requested_reference_def by (auto simp: rbind_Inr_iff split: if_splits)
  note c = canonical_name_ok [OF steps(3)]
  have tag: "tag = [] \<or> (\<exists>g. tag = 58 # g \<and> is_tag g)" and d: "d = [] \<or> (\<exists>g. d = 64 # g \<and> is_digest g)"
    using split_tag_result [OF steps(2)] split_digest_result [OF steps(1)] by blast+
  have cs: "canonical_name c = Inr c" "printable c" "64 \<notin> set c" "[] \<notin> set (split_on 47 c)" "untagged c" "hd c = 91 \<or> is_alnum (hd c)"
    using c by (simp_all add: name_ok_def)
  have s: "tag @ d = [] \<or> printable (tag @ d)" "47 \<notin> set (tag @ d)" "64 \<notin> set tag"
  proof -
    have "tag = [] \<or> printable tag \<and> 47 \<notin> set tag \<and> 64 \<notin> set tag" using tag tag_chars by (auto simp: printable_Cons)
    moreover have "d = [] \<or> printable d \<and> 47 \<notin> set d" using d digest_chars by (auto simp: printable_Cons)
    ultimately show "tag @ d = [] \<or> printable (tag @ d)" "47 \<notin> set (tag @ d)" "64 \<notin> set tag"
      by (auto simp: printable_append)
  qed
  have p: "printable t" using t cs(2) s(1) by (auto simp: printable_append)
  have cne: "c \<noteq> []" using cs(2) by (auto simp: printable_def)
  have "[] \<notin> set (split_on 47 t)"
    using cs(4) unfolding t split_on_last [OF s(2)] by (metis Un_iff append_butlast_last_id append_is_Nil_conv
        list.set_intros(1) set_ConsD set_append split_on_ne empty_iff list.set(1))
  then have "\<not> has_scheme t" using has_scheme_slashes by blast
  moreover have "\<not> (starts_with t [47] \<or> starts_with t [46, 47] \<or> starts_with t [46, 46, 47] \<or> starts_with t [126])"
    using cs(6) cne t by (cases c) (auto simp: starts_with_def is_alnum_def is_lower_def is_digit_def)
  moreover have "split_digest t = Inr (c @ tag, d)"
    using split_digest_again [of "c @ tag" d] cs(3) s(3) d t by simp
  ultimately show ?thesis
    using plain_printable [OF p] split_tag_again [OF cs(5) tag] cs(1) t by (simp add: requested_reference_def)
qed

end
