(* ===== verification/Oci_Provenance.thy ===== *)
theory Oci_Provenance imports Main Oci_Reference begin

text \<open>
  The content identities of \<open>src/palimpsest_local/oci_provenance.py\<close>: descriptors, platforms, the
  pinned source graph of an image, its layer occurrences, the chain identifier, the provenance
  document with its canonical JSON form, and the OCI referrer manifest that carries it.

  A constructor takes the JSON value the code passes for an argument of an unchecked type, and a
  record where the argument is one (the \<open>isinstance\<close> tests on records and tuples hold by typing).
\<close>

section \<open>Media types\<close>

definition oci_manifest_type :: ustr where "oci_manifest_type = ul ''application/vnd.oci.image.manifest.v1+json''"
definition docker_manifest_type :: ustr where
  "docker_manifest_type = ul ''application/vnd.docker.distribution.manifest.v2+json''"
definition oci_index_type :: ustr where "oci_index_type = ul ''application/vnd.oci.image.index.v1+json''"
definition docker_list_type :: ustr where
  "docker_list_type = ul ''application/vnd.docker.distribution.manifest.list.v2+json''"
definition oci_config_type :: ustr where "oci_config_type = ul ''application/vnd.oci.image.config.v1+json''"
definition docker_config_type :: ustr where "docker_config_type = ul ''application/vnd.docker.container.image.v1+json''"
definition oci_layer_type :: ustr where "oci_layer_type = ul ''application/vnd.oci.image.layer.v1.tar''"
definition oci_gzip_type :: ustr where "oci_gzip_type = ul ''application/vnd.oci.image.layer.v1.tar+gzip''"
definition docker_gzip_type :: ustr where "docker_gzip_type = ul ''application/vnd.docker.image.rootfs.diff.tar.gzip''"
definition empty_config_type :: ustr where "empty_config_type = ul ''application/vnd.oci.empty.v1+json''"
definition provenance_type :: ustr where
  "provenance_type = ul ''application/vnd.pieroot.palimpsest.provenance.v1+json''"
definition digest_annotation :: ustr where "digest_annotation = ul ''dev.pieroot.palimpsest.provenance.digest''"
definition runtime_index_type :: ustr where
  "runtime_index_type = ul ''application/vnd.pieroot.palimpsest.runtime-index.v1+json''"
definition squashfs_layer_type :: ustr where
  "squashfs_layer_type = ul ''application/vnd.pieroot.palimpsest.layer.squashfs.v1''"
definition erofs_layer_type :: ustr where "erofs_layer_type = ul ''application/vnd.pieroot.palimpsest.layer.erofs.v1''"
definition squashfs_backend :: ustr where
  "squashfs_backend = ul ''dev.pieroot.palimpsest.artifact-backend.squashfs-v1''"
definition erofs_backend :: ustr where "erofs_backend = ul ''dev.pieroot.palimpsest.artifact-backend.erofs-v1''"

definition manifest_types :: "ustr list" where "manifest_types = [oci_manifest_type, docker_manifest_type]"
definition index_types :: "ustr list" where "index_types = [oci_index_type, docker_list_type]"
definition config_types :: "ustr list" where "config_types = [oci_config_type, docker_config_type]"
definition layer_types :: "ustr list" where "layer_types = [oci_layer_type, oci_gzip_type, docker_gzip_type]"

definition annotation_whitelist :: "string list" where
  "annotation_whitelist =
     [''org.opencontainers.image.created'', ''org.opencontainers.image.authors'', ''org.opencontainers.image.url'',
      ''org.opencontainers.image.documentation'', ''org.opencontainers.image.source'', ''org.opencontainers.image.version'',
      ''org.opencontainers.image.revision'', ''org.opencontainers.image.vendor'', ''org.opencontainers.image.licenses'',
      ''org.opencontainers.image.ref.name'', ''org.opencontainers.image.title'', ''org.opencontainers.image.description'',
      ''org.opencontainers.image.base.digest'', ''org.opencontainers.image.base.name'']"

section \<open>Helpers\<close>

definition canonical_bytes :: "json \<Rightarrow> exn + bytes" where
  "canonical_bytes v = (case canonical_json_bytes v of None \<Rightarrow> Inl artifact_error | Some b \<Rightarrow> Inr b)"

definition exact_fields :: "json \<Rightarrow> string list \<Rightarrow> exn + (ustr \<times> json) list" where
  "exact_fields v expected =
     (case v of JObj d \<Rightarrow> if same_keys d expected then Inr d else Inl artifact_error | _ \<Rightarrow> Inl artifact_error)"

text \<open>
  \<open>_load_strict_json\<close>: everything \<open>json.loads\<close> raises becomes the error of the module, but for a
  \<open>RecursionError\<close>. The first argument is the number of levels the interpreter's stack has left; the
  readers of this module are modelled with enough of them.
\<close>

definition load_strict_json_at :: "nat option \<Rightarrow> bytes \<Rightarrow> exn + json" where
  "load_strict_json_at lv payload =
     (case utf8_decode payload of
        None \<Rightarrow> Inl artifact_error
      | Some t \<Rightarrow>
          (case loads_strict_at lv t of
             Inl JDeep \<Rightarrow> Inl RecursionErr
           | Inl _ \<Rightarrow> Inl artifact_error
           | Inr v \<Rightarrow> Inr v))"

abbreviation load_strict_json :: "bytes \<Rightarrow> exn + json" where
  "load_strict_json \<equiv> load_strict_json_at None"

definition require :: "bool \<Rightarrow> exn + unit" where
  "require b = (if b then Inr () else Inl artifact_error)"

section \<open>Descriptors\<close>

record descriptor =
  de_media_type :: ustr
  de_digest :: ustr
  de_size :: int

definition media_char :: "int \<Rightarrow> bool" where
  "media_char c \<longleftrightarrow> is_alnum c \<or> c \<in> set (ul ''!#$&^_.+-'')"

definition is_media_part :: "ustr \<Rightarrow> bool" where
  "is_media_part s \<longleftrightarrow> s \<noteq> [] \<and> is_alnum (hd s) \<and> list_all media_char s"

definition descriptor_init :: "json \<Rightarrow> json \<Rightarrow> json \<Rightarrow> exn + descriptor" where
  "descriptor_init media_type digest byte_count =
     rbind (plain_text media_type) (\<lambda>m.
     let components = split_on 47 m in
     if length components \<noteq> 2 \<or> list_ex (\<lambda>c. length c > 127) components \<or> \<not> list_all is_media_part components
     then Inl artifact_error
     else rbind (canonical_digest digest) (\<lambda>d.
          case byte_count of
            JInt n \<Rightarrow> if 0 \<le> n \<and> n \<le> 2 ^ 63 - 1
                      then Inr \<lparr>de_media_type = ascii_lower m, de_digest = d, de_size = n\<rparr> else Inl artifact_error
          | _ \<Rightarrow> Inl artifact_error))"

definition descriptor_to_json :: "descriptor \<Rightarrow> json" where
  "descriptor_to_json d =
     JObj [(ul ''mediaType'', JStr (de_media_type d)), (ul ''digest'', JStr (de_digest d)), (ul ''size'', JInt (de_size d))]"

definition descriptor_from_json :: "json \<Rightarrow> exn + descriptor" where
  "descriptor_from_json v =
     rbind (exact_fields v [''mediaType'', ''digest'', ''size'']) (\<lambda>d.
       descriptor_init (jget d ''mediaType'') (jget d ''digest'') (jget d ''size''))"

definition empty_config :: descriptor where
  "empty_config =
     \<lparr>de_media_type = empty_config_type,
      de_digest = ul ''sha256:44136fa355b3678a1146ad16f7e8649e94fb4fc21fe77e8310c060f61caaff8a'', de_size = 2\<rparr>"

section \<open>Platforms\<close>

record platform =
  pl_os :: ustr
  pl_architecture :: ustr
  pl_variant :: "ustr option"
  pl_os_version :: "ustr option"
  pl_os_features :: "ustr list"

definition platform_component :: "ustr \<Rightarrow> bool" where
  "platform_component s \<longleftrightarrow> s \<noteq> [] \<and> is_lower (hd s) \<and> list_all (\<lambda>c. is_lower c \<or> c = 95 \<or> c = 46 \<or> c = 45) s"

definition platform_field :: "json \<Rightarrow> exn + ustr" where
  "platform_field v = rbind (plain_text v) (\<lambda>s. if platform_component s then Inr s else Inl artifact_error)"

text \<open>A field that may be \<open>None\<close>.\<close>

definition optional_field :: "(json \<Rightarrow> exn + ustr) \<Rightarrow> json \<Rightarrow> exn + ustr option" where
  "optional_field check v = (if v = JNull then Inr None else rbind (check v) (\<lambda>s. Inr (Some s)))"

definition platform_init :: "json \<Rightarrow> json \<Rightarrow> json \<Rightarrow> json \<Rightarrow> json list \<Rightarrow> exn + platform" where
  "platform_init os architecture variant os_version os_features =
     rbind (platform_field os) (\<lambda>o'.
     rbind (platform_field architecture) (\<lambda>a.
     if o' \<noteq> ul ''linux'' then Inl artifact_error
     else rbind (optional_field platform_field variant) (\<lambda>v.
          rbind (optional_field plain_text os_version) (\<lambda>ov.
          rbind (rmap plain_text os_features) (\<lambda>features.
          Inr \<lparr>pl_os = o', pl_architecture = a, pl_variant = v, pl_os_version = ov,
               pl_os_features = sort (remdups features)\<rparr>)))))"

definition platform_to_json :: "platform \<Rightarrow> json" where
  "platform_to_json p =
     JObj [(ul ''architecture'', JStr (pl_architecture p)), (ul ''os'', JStr (pl_os p)),
           (ul ''os_features'', JArr (map JStr (pl_os_features p))),
           (ul ''os_version'', jstr (pl_os_version p)), (ul ''variant'', jstr (pl_variant p))]"

definition platform_from_json :: "json \<Rightarrow> exn + platform" where
  "platform_from_json v =
     rbind (exact_fields v [''architecture'', ''os'', ''os_features'', ''os_version'', ''variant'']) (\<lambda>d.
     case jget d ''os_features'' of
       JArr features \<Rightarrow>
         platform_init (jget d ''os'') (jget d ''architecture'') (jget d ''variant'') (jget d ''os_version'') features
     | _ \<Rightarrow> Inl artifact_error)"

section \<open>The source graph\<close>

record source =
  so_registry :: ustr
  so_repository :: ustr
  so_reference :: ustr
  so_index :: "descriptor option"
  so_manifest :: descriptor
  so_config :: descriptor
  so_platform :: platform

definition source_init ::
    "json \<Rightarrow> json \<Rightarrow> json \<Rightarrow> descriptor option \<Rightarrow> descriptor \<Rightarrow> descriptor \<Rightarrow> platform \<Rightarrow> exn + source" where
  "source_init registry repository reference index manifest config platform =
     rbind (registry_authority registry) (\<lambda>r.
     rbind (repository_name repository) (\<lambda>n.
     rbind (requested_reference reference) (\<lambda>q.
     rbind (require (de_media_type manifest \<in> set manifest_types)) (\<lambda>_.
     rbind (require (de_media_type config \<in> set config_types)) (\<lambda>_.
     rbind (require (pred_option (\<lambda>i. de_media_type i \<in> set index_types) index)) (\<lambda>_.
     Inr \<lparr>so_registry = r, so_repository = n, so_reference = q, so_index = index, so_manifest = manifest,
          so_config = config, so_platform = platform\<rparr>))))))"

definition optional_descriptor_json :: "descriptor option \<Rightarrow> json" where
  "optional_descriptor_json d = (case d of None \<Rightarrow> JNull | Some x \<Rightarrow> descriptor_to_json x)"

definition optional_descriptor_from :: "json \<Rightarrow> exn + descriptor option" where
  "optional_descriptor_from v = (if v = JNull then Inr None else rbind (descriptor_from_json v) (\<lambda>d. Inr (Some d)))"

definition source_to_json :: "source \<Rightarrow> json" where
  "source_to_json s =
     JObj [(ul ''config_descriptor'', descriptor_to_json (so_config s)),
           (ul ''index_descriptor'', optional_descriptor_json (so_index s)),
           (ul ''manifest_descriptor'', descriptor_to_json (so_manifest s)),
           (ul ''platform'', platform_to_json (so_platform s)), (ul ''registry'', JStr (so_registry s)),
           (ul ''repository'', JStr (so_repository s)), (ul ''requested_reference'', JStr (so_reference s))]"

definition source_from_json :: "json \<Rightarrow> exn + source" where
  "source_from_json v =
     rbind (exact_fields v [''config_descriptor'', ''index_descriptor'', ''manifest_descriptor'', ''platform'', ''registry'',
              ''repository'', ''requested_reference'']) (\<lambda>d.
     rbind (optional_descriptor_from (jget d ''index_descriptor'')) (\<lambda>index.
     rbind (descriptor_from_json (jget d ''manifest_descriptor'')) (\<lambda>manifest.
     rbind (descriptor_from_json (jget d ''config_descriptor'')) (\<lambda>config.
     rbind (platform_from_json (jget d ''platform'')) (\<lambda>platform.
     source_init (jget d ''registry'') (jget d ''repository'') (jget d ''requested_reference'') index manifest config platform)))))"

section \<open>Layer occurrences\<close>

record occurrence =
  oc_ordinal :: int
  oc_compressed :: descriptor
  oc_diff_id :: ustr
  oc_derived :: descriptor
  oc_filesystem :: ustr
  oc_backend :: ustr
  oc_converter :: ustr

text \<open>\<open>_SQUASHFS_CONVERTER_RE\<close> and \<open>_EROFS_CONVERTER_RE\<close>: a tool, an optional suffix, a digest.\<close>

definition is_converter :: "ustr \<Rightarrow> ustr \<Rightarrow> bool" where
  "is_converter tool s \<longleftrightarrow>
     (case partition_on 64 s of
        (name, Some digest) \<Rightarrow>
          is_digest digest \<and>
          (name = tool \<or>
           starts_with name (tool @ [45]) \<and>
           (let suffix = drop (length tool + 1) name
            in suffix \<noteq> [] \<and> is_lower (hd suffix) \<and> is_lower (last suffix) \<and>
               list_all (\<lambda>c. is_lower c \<or> c = 46 \<or> c = 95 \<or> c = 45) suffix))
      | (name, None) \<Rightarrow> False)"

text \<open>\<open>_ARTIFACT_PROFILES\<close>: the media type, the backend and the converter of a file system.\<close>

definition artifact_profiles :: "(ustr \<times> ustr \<times> ustr \<times> ustr) list" where
  "artifact_profiles =
     [(ul ''squashfs'', squashfs_layer_type, squashfs_backend, ul ''mksquashfs''),
      (ul ''erofs'', erofs_layer_type, erofs_backend, ul ''mkfs.erofs'')]"

definition occurrence_init ::
    "json \<Rightarrow> descriptor \<Rightarrow> json \<Rightarrow> descriptor \<Rightarrow> json \<Rightarrow> json \<Rightarrow> json \<Rightarrow> exn + occurrence" where
  "occurrence_init ordinal compressed diff_id derived filesystem backend converter =
     (case ordinal of
        JInt n \<Rightarrow>
          if n < 0 then Inl artifact_error
          else rbind (require (de_media_type compressed \<in> set layer_types)) (\<lambda>_.
               rbind (canonical_digest diff_id) (\<lambda>diff.
               case filesystem of
                 JStr fs \<Rightarrow>
                   (case map_of artifact_profiles fs of
                      None \<Rightarrow> Inl artifact_error
                    | Some (media_type, expected_backend, tool) \<Rightarrow>
                        if de_media_type derived \<noteq> media_type then Inl artifact_error
                        else if backend \<noteq> JStr expected_backend then Inl artifact_error
                        else (case converter of
                                JStr c \<Rightarrow>
                                  if is_converter tool c
                                  then Inr \<lparr>oc_ordinal = n, oc_compressed = compressed, oc_diff_id = diff,
                                            oc_derived = derived, oc_filesystem = fs, oc_backend = expected_backend,
                                            oc_converter = c\<rparr>
                                  else Inl artifact_error
                              | _ \<Rightarrow> Inl artifact_error))
               | _ \<Rightarrow> Inl artifact_error))
      | _ \<Rightarrow> Inl artifact_error)"

definition occurrence_to_json :: "occurrence \<Rightarrow> json" where
  "occurrence_to_json x =
     JObj [(ul ''backend'', JStr (oc_backend x)), (ul ''compressed'', descriptor_to_json (oc_compressed x)),
           (ul ''converter'', JStr (oc_converter x)), (ul ''derived'', descriptor_to_json (oc_derived x)),
           (ul ''diff_id'', JStr (oc_diff_id x)), (ul ''filesystem'', JStr (oc_filesystem x)),
           (ul ''ordinal'', JInt (oc_ordinal x))]"

definition occurrence_from_json :: "json \<Rightarrow> exn + occurrence" where
  "occurrence_from_json v =
     rbind (exact_fields v [''backend'', ''compressed'', ''converter'', ''derived'', ''diff_id'', ''filesystem'', ''ordinal''])
       (\<lambda>d.
     rbind (descriptor_from_json (jget d ''compressed'')) (\<lambda>compressed.
     rbind (descriptor_from_json (jget d ''derived'')) (\<lambda>derived.
     occurrence_init (jget d ''ordinal'') compressed (jget d ''diff_id'') derived (jget d ''filesystem'') (jget d ''backend'')
       (jget d ''converter''))))"

text \<open>The hash of the ordered identities, separated from other hashes by its domain.\<close>

definition chain_tuple :: "occurrence \<Rightarrow> json" where
  "chain_tuple x =
     JArr [JInt (oc_ordinal x), JStr (de_digest (oc_compressed x)), JStr (oc_diff_id x), JStr (de_digest (oc_derived x))]"

definition chain_json :: "occurrence list \<Rightarrow> json" where
  "chain_json xs = JObj [(ul ''domain'', JStr (ul ''palimpsest.oci.chain.v1'')), (ul ''occurrences'', JArr (map chain_tuple xs))]"

definition compute_chain_id :: "occurrence list \<Rightarrow> exn + ustr" where
  "compute_chain_id xs = rbind (canonical_bytes (chain_json xs)) (\<lambda>b. Inr (sha256_text b))"

section \<open>The provenance document\<close>

record provenance =
  pv_source :: source
  pv_occurrences :: "occurrence list"
  pv_runtime_index :: descriptor
  pv_schema_version :: int

definition provenance_init :: "source \<Rightarrow> occurrence list \<Rightarrow> descriptor \<Rightarrow> json \<Rightarrow> exn + provenance" where
  "provenance_init src occurrences runtime_index schema_version =
     (if schema_version \<noteq> JInt 1 then Inl artifact_error
      else if map oc_ordinal occurrences \<noteq> map int [0..<length occurrences] then Inl artifact_error
      else if de_media_type runtime_index \<noteq> runtime_index_type then Inl artifact_error
      else Inr \<lparr>pv_source = src, pv_occurrences = occurrences, pv_runtime_index = runtime_index, pv_schema_version = 1\<rparr>)"

definition provenance_to_json :: "provenance \<Rightarrow> exn + json" where
  "provenance_to_json p =
     rbind (compute_chain_id (pv_occurrences p)) (\<lambda>chain_id.
     Inr (JObj [(ul ''chain_id'', JStr chain_id), (ul ''occurrences'', JArr (map occurrence_to_json (pv_occurrences p))),
                (ul ''runtime_index'', descriptor_to_json (pv_runtime_index p)),
                (ul ''schema_version'', JInt (pv_schema_version p)), (ul ''source'', source_to_json (pv_source p))]))"

definition provenance_bytes :: "provenance \<Rightarrow> exn + bytes" where
  "provenance_bytes p = rbind (provenance_to_json p) canonical_bytes"

definition provenance_digest :: "provenance \<Rightarrow> exn + ustr" where
  "provenance_digest p = rbind (provenance_bytes p) (\<lambda>b. Inr (sha256_text b))"

definition provenance_from_json :: "json \<Rightarrow> exn + provenance" where
  "provenance_from_json v =
     rbind (exact_fields v [''chain_id'', ''occurrences'', ''runtime_index'', ''schema_version'', ''source'']) (\<lambda>d.
     case jget d ''occurrences'' of
       JArr raw \<Rightarrow>
         rbind (source_from_json (jget d ''source'')) (\<lambda>src.
         rbind (rmap occurrence_from_json raw) (\<lambda>occurrences.
         rbind (descriptor_from_json (jget d ''runtime_index'')) (\<lambda>runtime_index.
         rbind (provenance_init src occurrences runtime_index (jget d ''schema_version'')) (\<lambda>p.
         rbind (canonical_digest (jget d ''chain_id'')) (\<lambda>declared.
         rbind (compute_chain_id (pv_occurrences p)) (\<lambda>chain_id.
         if declared \<noteq> chain_id then Inl artifact_error else Inr p))))))
     | _ \<Rightarrow> Inl artifact_error)"

definition provenance_from_bytes :: "bytes \<Rightarrow> exn + provenance" where
  "provenance_from_bytes payload =
     rbind (load_strict_json payload) (\<lambda>v.
     rbind (provenance_from_json v) (\<lambda>p.
     rbind (provenance_bytes p) (\<lambda>encoded.
     if payload \<noteq> encoded then Inl artifact_error else Inr p)))"

section \<open>The referrer manifest\<close>

record referrer =
  rf_subject :: descriptor
  rf_blob :: descriptor
  rf_annotations :: "(ustr \<times> ustr) list"

text \<open>The loop over the annotations, with the keys seen and the previous key.\<close>

definition annotation_step :: "ustr list \<times> ustr option \<Rightarrow> ustr \<times> ustr \<Rightarrow> exn + ustr list \<times> ustr option" where
  "annotation_step st item =
     (case st of (seen, previous) \<Rightarrow>
        if fst item \<in> set seen then Inl artifact_error
        else if previous \<noteq> None \<and> fst item < the previous then Inl artifact_error
        else Inr (fst item # seen, Some (fst item)))"

definition referrer_init :: "descriptor \<Rightarrow> descriptor \<Rightarrow> (ustr \<times> ustr) list \<Rightarrow> exn + referrer" where
  "referrer_init subject blob annotations =
     (if de_media_type subject \<notin> set manifest_types then Inl artifact_error
      else if de_media_type blob \<noteq> provenance_type then Inl artifact_error
      else rbind (rfold annotation_step ([], None) annotations) (\<lambda>_.
           Inr \<lparr>rf_subject = subject, rf_blob = blob, rf_annotations = annotations\<rparr>))"

definition referrer_to_json :: "referrer \<Rightarrow> json" where
  "referrer_to_json m =
     JObj ([(ul ''artifactType'', JStr provenance_type), (ul ''config'', descriptor_to_json empty_config),
            (ul ''layers'', JArr [descriptor_to_json (rf_blob m)]), (ul ''mediaType'', JStr oci_manifest_type),
            (ul ''schemaVersion'', JInt 2), (ul ''subject'', descriptor_to_json (rf_subject m))] @
           (if rf_annotations m = [] then []
            else [(ul ''annotations'', JObj (map (map_prod id JStr) (rf_annotations m)))]))"

definition referrer_bytes :: "referrer \<Rightarrow> exn + bytes" where
  "referrer_bytes m = canonical_bytes (referrer_to_json m)"

text \<open>The items of an annotation mapping sorted; its keys are distinct, so their order decides.\<close>

definition annotation_item :: "ustr \<times> json \<Rightarrow> exn + ustr \<times> ustr" where
  "annotation_item kv = (case snd kv of JStr s \<Rightarrow> Inr (fst kv, s) | _ \<Rightarrow> Inl artifact_error)"

definition consumer_annotations :: "json \<Rightarrow> exn + (ustr \<times> ustr) list" where
  "consumer_annotations v =
     (case v of
        JNull \<Rightarrow> Inr []
      | JObj d \<Rightarrow> rbind (rmap annotation_item d) (\<lambda>items. Inr (sort_key fst items))
      | _ \<Rightarrow> Inl artifact_error)"

definition producer_annotations :: "json \<Rightarrow> exn + (ustr \<times> ustr) list" where
  "producer_annotations v =
     rbind (consumer_annotations v) (\<lambda>items.
     if list_ex (\<lambda>(k, _). k \<notin> ul ` set annotation_whitelist \<and> starts_with k (ul ''org.opencontainers.'')) items
     then Inl artifact_error else Inr items)"

definition build_referrer :: "provenance \<Rightarrow> bool \<Rightarrow> json \<Rightarrow> exn + bytes" where
  "build_referrer p include_digest annotations =
     rbind (producer_annotations annotations) (\<lambda>merged.
     rbind (provenance_digest p) (\<lambda>digest.
     if map_of merged digest_annotation \<noteq> None \<and> map_of merged digest_annotation \<noteq> Some digest
     then Inl artifact_error
     else let items = (if include_digest then AList.update digest_annotation digest merged else merged) in
          rbind (provenance_bytes p) (\<lambda>encoded.
          rbind (descriptor_init (JStr provenance_type) (JStr digest) (JInt (int (length encoded)))) (\<lambda>blob.
          rbind (referrer_init (so_manifest (pv_source p)) blob (sort_key fst items)) referrer_bytes))))"

definition parse_referrer :: "bytes \<Rightarrow> bytes \<Rightarrow> descriptor option \<Rightarrow> exn + referrer" where
  "parse_referrer manifest_payload provenance_payload expected_subject =
     rbind (provenance_from_bytes provenance_payload) (\<lambda>p.
     let subject = (case expected_subject of None \<Rightarrow> so_manifest (pv_source p) | Some s \<Rightarrow> s);
         fields = [''artifactType'', ''config'', ''layers'', ''mediaType'', ''schemaVersion'', ''subject'']
     in
     rbind (load_strict_json manifest_payload) (\<lambda>v.
     case v of
       JObj data \<Rightarrow>
         rbind (require (list_all (\<lambda>f. ul f \<in> set (dkeys data)) fields \<and>
                         list_all (\<lambda>k. k \<in> ul ` set (''annotations'' # fields)) (dkeys data))) (\<lambda>_.
         rbind (require (jget data ''schemaVersion'' = JInt 2)) (\<lambda>_.
         rbind (require (jget data ''mediaType'' = JStr oci_manifest_type)) (\<lambda>_.
         rbind (require (jget data ''artifactType'' = JStr provenance_type)) (\<lambda>_.
         rbind (descriptor_from_json (jget data ''config'')) (\<lambda>config.
         rbind (require (config = empty_config)) (\<lambda>_.
         case jget data ''layers'' of
           JArr [layer] \<Rightarrow>
             rbind (descriptor_from_json layer) (\<lambda>blob.
             rbind (descriptor_init (JStr provenance_type) (JStr (sha256_text provenance_payload))
                      (JInt (int (length provenance_payload)))) (\<lambda>expected_blob.
             rbind (require (blob = expected_blob)) (\<lambda>_.
             rbind (descriptor_from_json (jget data ''subject'')) (\<lambda>parsed_subject.
             rbind (require (parsed_subject = subject \<and> parsed_subject = so_manifest (pv_source p))) (\<lambda>_.
             case (case map_of data (ul ''annotations'') of None \<Rightarrow> JObj [] | Some x \<Rightarrow> x) of
               JObj raw \<Rightarrow>
                 rbind (consumer_annotations (JObj raw)) (\<lambda>items.
                 rbind (provenance_digest p) (\<lambda>digest.
                 rbind (require (map_of raw digest_annotation \<in> {None, Some JNull, Some (JStr digest)})) (\<lambda>_.
                 rbind (referrer_init parsed_subject blob items) (\<lambda>m.
                 rbind (referrer_bytes m) (\<lambda>encoded.
                 rbind (require (manifest_payload = encoded)) (\<lambda>_. Inr m))))))
             | _ \<Rightarrow> Inl artifact_error)))))
         | _ \<Rightarrow> Inl artifact_error))))))
     | _ \<Rightarrow> Inl artifact_error))"

end
