(* ===== verification/Oci_Referrer.thy ===== *)
theory Oci_Referrer imports Main Oci_Provenance_Props begin

text \<open>
  The claims about the provenance document and its referrer manifest, and a sample document for
  their witnesses.
\<close>

section \<open>Identity by digest\<close>

lemma provenance_bytes_inj:
  assumes "provenance_ok p" "provenance_ok q" "provenance_bytes p = Inr b" "provenance_bytes q = Inr b"
  shows "p = q"
proof -
  have "provenance_from_bytes b = Inr p" "provenance_from_bytes b = Inr q" using assms provenance_codec by blast+
  then show ?thesis by simp
qed

lemma sha256_text_eq: "sha256_text x = sha256_text y \<Longrightarrow> sha256 x = sha256 y"
  by (metis bytes_of_hex_of_bytes same_append_eq sha256_text_def)

lemma wf_chain: "list_all occurrence_ok xs \<Longrightarrow> wf_json (chain_json xs)"
  using digest_wf by (auto simp: chain_json_def chain_tuple_def list_all_iff occurrence_ok_def descriptor_ok_def)

lemma canon_chain: "canon (chain_json xs) = chain_json xs"
proof -
  have "canon (chain_tuple x) = chain_tuple x" for x by (simp add: chain_tuple_def)
  then have "map (canon \<circ> chain_tuple) xs = map chain_tuple xs" by simp
  then show ?thesis
    unfolding chain_json_def canon.simps list.map list.map_comp map_prod_simp id_apply by (simp add: ul_def)
qed

lemma chain_json_inj: "chain_json xs = chain_json ys \<Longrightarrow> map chain_tuple xs = map chain_tuple ys"
  by (simp add: chain_json_def)

lemma chain_binds:
  assumes "list_all occurrence_ok xs" "list_all occurrence_ok ys" "compute_chain_id xs = Inr c" "compute_chain_id ys = Inr c"
  shows "map chain_tuple xs = map chain_tuple ys \<or>
    (\<exists>x y. canonical_bytes (chain_json xs) = Inr x \<and> canonical_bytes (chain_json ys) = Inr y \<and> x \<noteq> y \<and> sha256 x = sha256 y)"
proof -
  obtain x y where xy: "canonical_bytes (chain_json xs) = Inr x" "canonical_bytes (chain_json ys) = Inr y"
      and d: "sha256_text x = c" "sha256_text y = c"
    using assms(3,4) by (auto simp: compute_chain_id_def rbind_Inr_iff)
  have h: "sha256 x = sha256 y" using sha256_text_eq d by simp
  show ?thesis
  proof (cases "x = y")
    case True
    then have "canon (chain_json xs) = canon (chain_json ys)"
      using canonical_json_bytes_inj [of "chain_json xs" x "chain_json ys"] xy assms(1,2) wf_chain
      by (simp add: canonical_bytes_Inr)
    then have "chain_json xs = chain_json ys" unfolding canon_chain .
    then show ?thesis by (rule disjI1 [OF chain_json_inj])
  next
    case False
    with xy h show ?thesis by blast
  qed
qed

section \<open>Building and reading a referrer\<close>

lemma annotation_step_iff:
  "annotation_step (seen, prev) x = Inr st \<longleftrightarrow>
     fst x \<notin> set seen \<and> (prev = None \<or> \<not> fst x < the prev) \<and> st = (fst x # seen, Some (fst x))"
  by (auto simp: annotation_step_def)

lemma annotation_steps:
  "rfold annotation_step (seen, prev) xs = Inr st \<Longrightarrow> distinct (map fst xs) \<and> set (map fst xs) \<inter> set seen = {}"
proof (induction xs arbitrary: seen prev)
  case (Cons x xs)
  then have "fst x \<notin> set seen" "rfold annotation_step (fst x # seen, Some (fst x)) xs = Inr st"
    by (auto simp: annotation_step_iff rbind_Inr_iff)
  with Cons.IH [OF this(2)] show ?case by auto
qed simp

lemma referrer_init_iff:
  "referrer_init s d xs = Inr r \<longleftrightarrow>
     rf_subject r = s \<and> rf_blob r = d \<and> rf_annotations r = xs \<and> de_media_type s \<in> set manifest_types \<and>
     de_media_type d = provenance_type \<and> (\<exists>st. rfold annotation_step ([], None) xs = Inr st)"
  by (cases r) (auto simp: referrer_init_def rbind_Inr_iff)

lemma annotation_items:
  "rmap annotation_item d = Inr items \<longleftrightarrow> d = map (map_prod id JStr) items"
proof -
  have "annotation_item x = Inr y \<longleftrightarrow> x = map_prod id JStr y" for x y
    by (cases x; cases y; cases "snd x") (auto simp: annotation_item_def)
  then show ?thesis by (auto simp: rmap_iff list_all2_conv_all_nth intro: nth_equalityI)
qed

lemma sorted_items_again:
  "consumer_annotations (JObj (map (map_prod id JStr) (sort_key fst items))) = Inr (sort_key fst items)"
  using annotation_items [of "map (map_prod id JStr) (sort_key fst items)" "sort_key fst items"]
  by (simp add: consumer_annotations_def)

lemma canon_referrer:
  assumes "rf_annotations r = sort_key fst items"
  shows "canon (referrer_to_json r) =
    JObj ((if items = [] then [] else [(ul ''annotations'', JObj (map (map_prod id JStr) (sort_key fst items)))]) @
          [(ul ''artifactType'', JStr provenance_type), (ul ''config'', canon (descriptor_to_json empty_config)),
           (ul ''layers'', JArr [canon (descriptor_to_json (rf_blob r))]), (ul ''mediaType'', JStr oci_manifest_type),
           (ul ''schemaVersion'', JInt 2), (ul ''subject'', canon (descriptor_to_json (rf_subject r)))])"
proof -
  have i: "items = [] \<longleftrightarrow> sort_key fst items = []" by (metis length_0_conv length_sort)
  have "map (map_prod id canon) (map (map_prod id JStr) xs) = map (map_prod id JStr) xs" for xs :: "(ustr \<times> ustr) list"
    by (auto simp: map_prod_def)
  then have a: "canon (JObj (map (map_prod id JStr) (sort_key fst items))) = JObj (map (map_prod id JStr) (sort_key fst items))"
    by (simp only: canon.simps sort_key_map_snd sort_key_idem)
  show ?thesis
  proof (cases "items = []")
    case True
    then show ?thesis
      unfolding referrer_to_json_def assms canon.simps list.map map_prod_simp id_apply by (simp add: ul_def)
  next
    case False
    then have "canon (referrer_to_json r) = JObj (sort_key fst
        [(ul ''artifactType'', JStr provenance_type), (ul ''config'', canon (descriptor_to_json empty_config)),
         (ul ''layers'', JArr [canon (descriptor_to_json (rf_blob r))]), (ul ''mediaType'', JStr oci_manifest_type),
         (ul ''schemaVersion'', JInt 2), (ul ''subject'', canon (descriptor_to_json (rf_subject r))),
         (ul ''annotations'', JObj (map (map_prod id JStr) (sort_key fst items)))])"
      using i a by (simp add: referrer_to_json_def assms del: sort_key_simps)
    also have "\<dots> = JObj ((ul ''annotations'', JObj (map (map_prod id JStr) (sort_key fst items))) #
        [(ul ''artifactType'', JStr provenance_type), (ul ''config'', canon (descriptor_to_json empty_config)),
         (ul ''layers'', JArr [canon (descriptor_to_json (rf_blob r))]), (ul ''mediaType'', JStr oci_manifest_type),
         (ul ''schemaVersion'', JInt 2), (ul ''subject'', canon (descriptor_to_json (rf_subject r)))])"
      by (simp add: ul_def)
    finally show ?thesis using False by simp
  qed
qed

lemma empty_config_ok: "descriptor_ok empty_config"
  by (simp add: descriptor_ok_def empty_config_def media_type_ok_def empty_config_type_def ul_def ascii_lower_def
      lower_char_def is_media_part_def media_char_def is_alnum_def is_lower_def is_digit_def is_digest_def
      digest_prefix_def is_hex32_def is_hex_lower_def)

lemma wf_referrer:
  assumes "descriptor_ok (rf_blob r)" "descriptor_ok (rf_subject r)" "distinct (map fst (rf_annotations r))"
    and "\<forall>(k, v) \<in> set (rf_annotations r). wf_str k \<and> wf_str v"
  shows "wf_json (referrer_to_json r)"
proof -
  have "wf_json (JObj (map (map_prod id JStr) (rf_annotations r)))" using assms(3,4) by (force simp: comp_def)
  moreover have "wf_str provenance_type" "wf_str oci_manifest_type" by (simp_all add: provenance_type_def oci_manifest_type_def)
  ultimately show ?thesis
    using assms(1,2) wf_descriptor empty_config_ok by (simp add: referrer_to_json_def)
qed

lemma set_update_subset: "set (AList.update k v d) \<subseteq> insert (k, v) (set d)"
  by (induction d) auto

lemma map_of_JStr: "map_of (map (map_prod id JStr) d) k = map_option JStr (map_of d k)"
  by (induction d) auto

lemma referrer_reads_back:
  assumes ok: "provenance_ok p" "provenance_bytes p = Inr b" and wf: "wf_json annotations"
    and build: "build_referrer p include_digest annotations = Inr m"
  shows "\<exists>r items. parse_referrer m b None = Inr r \<and> referrer_bytes r = Inr m \<and> rf_subject r = so_manifest (pv_source p) \<and>
    consumer_annotations annotations = Inr items \<and> sorted (map fst (rf_annotations r)) \<and>
    map_of (rf_annotations r) =
      (if include_digest then (map_of items)(digest_annotation \<mapsto> sha256_text b) else map_of items)"
proof -
  obtain items where items: "producer_annotations annotations = Inr items"
    using build by (auto simp: build_referrer_def rbind_Inr_iff)
  define merged where "merged = (if include_digest then AList.update digest_annotation (sha256_text b) items else items)"
  have digest: "provenance_digest p = Inr (sha256_text b)" using ok(2) by (simp add: provenance_digest_def)
  obtain blob r where blob: "descriptor_init (JStr provenance_type) (JStr (sha256_text b)) (JInt (int (length b))) = Inr blob"
      and r: "referrer_init (so_manifest (pv_source p)) blob (sort_key fst merged) = Inr r" "referrer_bytes r = Inr m"
      and old: "map_of items digest_annotation \<in> {None, Some (sha256_text b)}"
    using build items digest ok(2) unfolding build_referrer_def
    by (auto simp: rbind_Inr_iff Let_def merged_def split: if_splits)
  have consumed: "consumer_annotations annotations = Inr items"
    using items by (auto simp: producer_annotations_def rbind_Inr_iff split: if_splits)
  have keys: "distinct (dkeys (sort_key fst merged))"
    using annotation_steps [of "[]" None] r(1) unfolding referrer_init_iff by blast
  have strings: "\<forall>(k, v) \<in> set items. wf_str k \<and> wf_str v"
  proof (cases annotations)
    case (JObj d)
    with consumed obtain xs where xs: "d = map (map_prod id JStr) xs" "items = sort_key fst xs"
      by (auto simp: consumer_annotations_def rbind_Inr_iff annotation_items)
    with wf JObj show ?thesis by fastforce
  qed (use consumed in \<open>auto simp: consumer_annotations_def\<close>)
  have "wf_str digest_annotation" "wf_str (sha256_text b)" by (simp_all add: digest_annotation_def digest_wf)
  moreover have "kv \<in> set items \<or> kv = (digest_annotation, sha256_text b)" if "kv \<in> set merged" for kv
    using that set_update_subset [of digest_annotation "sha256_text b" items] by (auto simp: merged_def split: if_splits)
  ultimately have "\<forall>(k, v) \<in> set merged. wf_str k \<and> wf_str v" using strings by blast
  then have "wf_json (referrer_to_json r)"
    using wf_referrer [of r] r(1) keys descriptor_init_ok [OF blob] ok(1)
    unfolding referrer_init_iff by (simp add: provenance_ok_def source_ok_def)
  moreover have "canonical_json_bytes (referrer_to_json r) = Some m" using r(2) by (simp add: referrer_bytes_def canonical_bytes_Inr)
  ultimately have load: "load_strict_json m = Inr (canon (referrer_to_json r))" using load_canonical by blast
  have fields: "rf_annotations r = sort_key fst merged" "rf_subject r = so_manifest (pv_source p)" "rf_blob r = blob"
    using r(1) by (simp_all add: referrer_init_iff)
  let ?raw = "map (map_prod id JStr) (sort_key fst merged)"
  have "distinct (dkeys merged)"
    using keys by (metis distinct_map distinct_sort set_sort)
  then have look: "map_of (rf_annotations r) = map_of merged" unfolding fields(1) by (rule map_of_sort_key)
  then have declared: "map_of ?raw digest_annotation \<in> {None, Some JNull, Some (JStr (sha256_text b))}"
    using old unfolding map_of_JStr fields(1) [symmetric] by (auto simp: merged_def update_conv')
  have raw_empty: "merged = [] \<Longrightarrow> ?raw = []" by simp
  have "parse_referrer m b None = Inr r"
  proof -
    have p: "provenance_from_bytes b = Inr p" using ok provenance_codec by blast
    have c: "descriptor_from_json (canon (descriptor_to_json empty_config)) = Inr empty_config"
      "descriptor_from_json (canon (descriptor_to_json blob)) = Inr blob"
      "descriptor_from_json (canon (descriptor_to_json (so_manifest (pv_source p)))) = Inr (so_manifest (pv_source p))"
      using descriptor_again empty_config_ok descriptor_init_ok [OF blob] ok(1) by (simp_all add: provenance_ok_def source_ok_def)
    note canon = canon_referrer [OF fields(1), unfolded fields(2,3)]
    show ?thesis
      unfolding parse_referrer_def p rbind_simps Let_def load canon
      using c blob r digest declared sorted_items_again [of merged]
      by (cases "merged = []") (simp_all add: jget_def)
  qed
  moreover have "map_of merged = (if include_digest then (map_of items)(digest_annotation \<mapsto> sha256_text b) else map_of items)"
    by (simp add: merged_def update_conv')
  ultimately show ?thesis using r(2) fields(1,2) consumed look by auto
qed

lemma object_case:
  "(case v of JObj d \<Rightarrow> f d | _ \<Rightarrow> Inl e) = Inr y \<longleftrightarrow> (\<exists>d. v = JObj d \<and> f d = Inr y)"
  by (cases v) auto

lemma single_case:
  "(case v of JArr [x] \<Rightarrow> f x | _ \<Rightarrow> Inl e) = Inr y \<longleftrightarrow> (\<exists>x. v = JArr [x] \<and> f x = Inr y)"
  by (auto split: json.splits list.splits)

lemma parsed_referrer:
  assumes "parse_referrer m b e = Inr r"
  shows "\<exists>p. provenance_from_bytes b = Inr p \<and> rf_subject r = so_manifest (pv_source p) \<and> e \<in> {None, Some (rf_subject r)} \<and>
    rf_blob r = \<lparr>de_media_type = provenance_type, de_digest = sha256_text b, de_size = int (length b)\<rparr> \<and>
    referrer_bytes r = Inr m"
proof -
  have lower: "ascii_lower provenance_type = provenance_type"
    by (simp add: provenance_type_def ul_def ascii_lower_def lower_char_def)
  have init: "d = \<lparr>de_media_type = provenance_type, de_digest = sha256_text b, de_size = int (length b)\<rparr>"
    if "descriptor_init (JStr provenance_type) (JStr (sha256_text b)) (JInt (int (length b))) = Inr d" for d
    using that by (auto simp: descriptor_init_def rbind_Inr_iff plain_text_iff digest_iff lower Let_def split: if_splits)
  have lift: "\<exists>p. provenance_from_bytes b = Inr p \<and> rf_subject r = so_manifest (pv_source p) \<and> e \<in> {None, Some (rf_subject r)} \<and>
      rf_blob r = blob \<and> referrer_bytes r = Inr m"
    if "provenance_from_bytes b = Inr p" "(case e of None \<Rightarrow> so_manifest (pv_source p) | Some s \<Rightarrow> s) = so_manifest (pv_source p)"
      "referrer_init (case e of None \<Rightarrow> so_manifest (pv_source p) | Some s \<Rightarrow> s) blob items = Inr r" "referrer_bytes r = Inr m"
    for p items blob
    using that by (auto simp: referrer_init_iff split: option.splits)
  obtain p blob items where s: "provenance_from_bytes b = Inr p"
      "descriptor_init (JStr provenance_type) (JStr (sha256_text b)) (JInt (int (length b))) = Inr blob"
      "(case e of None \<Rightarrow> so_manifest (pv_source p) | Some s \<Rightarrow> s) = so_manifest (pv_source p)"
      "referrer_init (case e of None \<Rightarrow> so_manifest (pv_source p) | Some s \<Rightarrow> s) blob items = Inr r" "referrer_bytes r = Inr m"
    using assms unfolding parse_referrer_def Let_def rbind_Inr_iff object_case single_case require_Inr sum.inject by metis
  show ?thesis using lift [OF s(1,3,4,5)] init [OF s(2)] by simp
qed

section \<open>How long a canonical text can be\<close>

primrec text_bound :: "json \<Rightarrow> nat" where
  "text_bound JNull = 5"
| "text_bound (JBool b) = 5"
| "text_bound (JInt i) = 4301"
| "text_bound JFifteen = 5"
| "text_bound (JFloat x) = 0"
| "text_bound (JStr s) = 6 * length s + 2"
| "text_bound (JArr vs) = 2 + sum_list (map Suc (map text_bound vs))"
| "text_bound (JObj ps) = 2 + sum_list (map (\<lambda>(k, n). 6 * length k + n + 4) (map (map_prod id text_bound) ps))"

lemma dump_str_length: "length (dump_str s) \<le> 6 * length s + 2"
proof -
  have "length (esc_char c) \<le> 6" for c by (simp add: esc_char_def)
  then have "length (concat (map esc_char s)) \<le> 6 * length s"
    by (induction s) (auto intro: add_le_mono)
  then show ?thesis by (simp add: dump_str_def)
qed

lemma dump_bound:
  "dump v = Some t \<Longrightarrow> length t \<le> text_bound v"
  "dump_items vs = Some u \<Longrightarrow> length u \<le> 1 + sum_list (map (Suc \<circ> text_bound) vs)"
  "dump_pairs ps = Some w \<Longrightarrow> length w \<le> 1 + sum_list (map (\<lambda>(k, v). 6 * length k + text_bound v + 4) ps)"
proof (induction v and vs and ps arbitrary: t and u and w rule: dump_dump_items_dump_pairs.induct)
  case (3 i)
  then show ?case by (auto simp: dec_int_def max_digits_def split: if_splits)
next
  case (6 s)
  then show ?case using dump_str_length by auto
next
  case (10 v vs)
  from "10.prems" obtain a where a: "dump v = Some a" by (auto split: option.splits)
  show ?case
  proof (cases "vs = []")
    case True
    with a "10.prems" "10.IH"(1) [OF a] show ?thesis by auto
  next
    case False
    with a "10.prems" obtain x where x: "dump_items vs = Some x" "u = a @ 44 # x" by auto
    show ?thesis using "10.IH"(1) [OF a] "10.IH"(2) [OF a False x(1)] x(2) by simp
  qed
next
  case (12 p ps)
  obtain k v where p: "p = (k, v)" by fastforce
  have k: "length (dump_str k) \<le> 6 * length k + 2" by (rule dump_str_length)
  from "12.prems" p obtain a where a: "dump (snd p) = Some a" by (auto split: option.splits)
  show ?case
  proof (cases "ps = []")
    case True
    with a p "12.prems" "12.IH"(1) [OF a] k show ?thesis by auto
  next
    case False
    with a p "12.prems" obtain x where x: "dump_pairs ps = Some x" "w = dump_str k @ 58 # a @ 44 # x" by auto
    show ?thesis using "12.IH"(1) [OF a] "12.IH"(2) [OF a False x(1)] x(2) p k by simp
  qed
qed (auto simp: comp_def split_def)

lemma canonical_bytes_bound: "canonical_json_bytes v = Some b \<Longrightarrow> length b \<le> 4 * text_bound (canon v)"
proof -
  assume "canonical_json_bytes v = Some b"
  then obtain t where "dump (canon v) = Some t" "utf8_encode t = Some b"
    by (auto simp: canonical_json_bytes_def split: option.splits)
  then show ?thesis using dump_bound(1) length_utf8_encode by fastforce
qed

section \<open>A sample document\<close>

definition sample_descriptor :: "ustr \<Rightarrow> int \<Rightarrow> descriptor" where
  "sample_descriptor m n = \<lparr>de_media_type = m, de_digest = digest_prefix @ replicate 64 97, de_size = n\<rparr>"

definition sample_occurrence :: occurrence where
  "sample_occurrence =
     \<lparr>oc_ordinal = 0, oc_compressed = sample_descriptor oci_gzip_type 10, oc_diff_id = digest_prefix @ replicate 64 98,
      oc_derived = sample_descriptor squashfs_layer_type 20, oc_filesystem = ul ''squashfs'', oc_backend = squashfs_backend,
      oc_converter = ul ''mksquashfs-4.6@'' @ digest_prefix @ replicate 64 99\<rparr>"

definition sample_source :: source where
  "sample_source =
     \<lparr>so_registry = ul ''ghcr.io:443'', so_repository = ul ''lib/app'', so_reference = ul ''ghcr.io:443/lib/app:v1'',
      so_index = None, so_manifest = sample_descriptor oci_manifest_type 30, so_config = sample_descriptor oci_config_type 40,
      so_platform = \<lparr>pl_os = ul ''linux'', pl_architecture = ul ''amd64'', pl_variant = None, pl_os_version = None,
                     pl_os_features = []\<rparr>\<rparr>"

definition sample_provenance :: "int \<Rightarrow> provenance" where
  "sample_provenance n =
     \<lparr>pv_source = sample_source, pv_occurrences = [sample_occurrence],
      pv_runtime_index = sample_descriptor runtime_index_type n, pv_schema_version = 1\<rparr>"

lemma sample_digest: "is_digest (digest_prefix @ replicate 64 c) \<longleftrightarrow> is_hex_lower c"
  by (auto simp: is_digest_def digest_prefix_def is_hex32_def)

lemma sample_descriptor_ok:
  "m \<in> {oci_gzip_type, squashfs_layer_type, oci_manifest_type, oci_config_type, runtime_index_type} \<Longrightarrow>
   0 \<le> n \<Longrightarrow> n < 2 ^ 63 \<Longrightarrow> descriptor_ok (sample_descriptor m n)"
proof -
  have "media_type_ok m" if "m \<in> {oci_gzip_type, squashfs_layer_type, oci_manifest_type, oci_config_type, runtime_index_type}"
    using that by (auto simp: media_type_ok_def oci_gzip_type_def squashfs_layer_type_def oci_manifest_type_def oci_config_type_def
        runtime_index_type_def ul_def ascii_lower_def lower_char_def is_media_part_def media_char_def is_alnum_def is_lower_def is_digit_def)
  then show "m \<in> {oci_gzip_type, squashfs_layer_type, oci_manifest_type, oci_config_type, runtime_index_type} \<Longrightarrow>
      0 \<le> n \<Longrightarrow> n < 2 ^ 63 \<Longrightarrow> descriptor_ok (sample_descriptor m n)"
    by (simp add: descriptor_ok_def sample_descriptor_def sample_digest is_hex_lower_def)
qed

lemma sample_names:
  "registry_authority (JStr (ul ''ghcr.io:443'')) = Inr (ul ''ghcr.io:443'')"
  "repository_name (JStr (ul ''lib/app'')) = Inr (ul ''lib/app'')"
  "requested_reference (JStr (ul ''ghcr.io:443/lib/app:v1'')) = Inr (ul ''ghcr.io:443/lib/app:v1'')"
  by (simp_all add: exec cong: eval_cong)

lemma sample_ok: "0 \<le> n \<Longrightarrow> n < 2 ^ 63 \<Longrightarrow> provenance_ok (sample_provenance n)"
proof -
  assume n: "0 \<le> n" "n < 2 ^ 63"
  have "source_ok sample_source"
    using sample_names sample_descriptor_ok
    by (simp add: source_ok_def sample_source_def platform_ok_def platform_component_def ul_def [of "''amd64''"]
        is_lower_def is_digit_def) (simp add: sample_descriptor_def manifest_types_def config_types_def)
  moreover have "occurrence_ok sample_occurrence"
  proof -
    have "is_converter (ul ''mksquashfs'') (oc_converter sample_occurrence)"
    proof -
      have at: "64 \<notin> set (ul ''mksquashfs-4.6'')" by (simp add: ul_def)
      have "oc_converter sample_occurrence = ul ''mksquashfs-4.6'' @ 64 # (digest_prefix @ replicate 64 99)"
        by (simp add: sample_occurrence_def ul_def)
      then have "partition_on 64 (oc_converter sample_occurrence) = (ul ''mksquashfs-4.6'', Some (digest_prefix @ replicate 64 99))"
        by (simp only: partition_on_app [OF at])
      then show ?thesis
        using sample_digest [of 99]
        by (simp add: is_converter_def is_hex_lower_def) (simp add: ul_def starts_with_def is_lower_def is_digit_def)
    qed
    moreover have "map_of artifact_profiles (ul ''squashfs'') = Some (squashfs_layer_type, squashfs_backend, ul ''mksquashfs'')"
      by (simp add: artifact_profiles_def)
    ultimately show ?thesis
      using sample_descriptor_ok sample_digest [of 98]
      by (simp add: occurrence_ok_def sample_occurrence_def is_hex_lower_def)
        (simp add: sample_descriptor_def layer_types_def)
  qed
  ultimately show ?thesis
    using sample_descriptor_ok n by (simp add: provenance_ok_def sample_provenance_def)
      (simp add: sample_descriptor_def sample_occurrence_def)
qed

lemma sample_json_ok: "is_digest c \<Longrightarrow> \<bar>n\<bar> \<le> 10 ^ 20 \<Longrightarrow> json_ok (document_json (sample_provenance n) c)"
  "json_ok (chain_json [sample_occurrence])"
proof -
  have p: "utf8_ok digest_prefix" by (simp add: digest_prefix_def)
  have d: "utf8_ok (replicate k x)" if "0 \<le> x" "x < 256" for k x
    using that by (auto simp: utf8_ok_def)
  have c: "utf8_ok c" if "is_digest c" for c using is_digest_ascii [OF that] ascii_utf8_ok by blast
  have a: "utf8_ok (s @ t) \<longleftrightarrow> utf8_ok s \<and> utf8_ok t" for s t by (auto simp: utf8_ok_def)
  note defs = sample_provenance_def sample_source_def sample_occurrence_def sample_descriptor_def document_json_def
    occurrence_to_json_def descriptor_to_json_def source_to_json_def platform_to_json_def optional_descriptor_json_def
    jstr_def chain_json_def chain_tuple_def oci_gzip_type_def squashfs_layer_type_def oci_manifest_type_def
    oci_config_type_def runtime_index_type_def squashfs_backend_def
  show "is_digest c \<Longrightarrow> \<bar>n\<bar> \<le> 10 ^ 20 \<Longrightarrow> json_ok (document_json (sample_provenance n) c)"
    "json_ok (chain_json [sample_occurrence])"
    using c d p by (simp_all add: defs a)
qed

lemma sample_bytes:
  assumes "0 \<le> n" "n < 2 ^ 63"
  obtains b where "provenance_bytes (sample_provenance n) = Inr b" "length b < 2 ^ 63"
proof -
  obtain x where x: "canonical_json_bytes (chain_json [sample_occurrence]) = Some x"
    using canonical_json_bytes_total [OF sample_json_ok(2)] by blast
  let ?c = "sha256_text x"
  have c: "compute_chain_id (pv_occurrences (sample_provenance n)) = Inr ?c"
    using x by (simp add: compute_chain_id_def sample_provenance_def canonical_bytes_def)
  obtain b where b: "canonical_json_bytes (document_json (sample_provenance n) ?c) = Some b"
    using canonical_json_bytes_total [OF sample_json_ok(1) [of ?c n]] assms by auto
  have len: "length ?c = 71" by (simp add: sha256_text_def digest_prefix_def)
  have "text_bound (canon (document_json (sample_provenance n) ?c)) \<le> 100000"
    using len by (simp add: canon_document canon_occurrence canon_descriptor canon_source platform_to_json_def sample_provenance_def
        sample_source_def sample_occurrence_def sample_descriptor_def optional_descriptor_json_def jstr_def comp_def
        oci_gzip_type_def squashfs_layer_type_def oci_manifest_type_def oci_config_type_def runtime_index_type_def
        squashfs_backend_def digest_prefix_def)
  with canonical_bytes_bound [OF b] have "length b \<le> 400000" by simp
  then have "length b < 2 ^ 63" by simp
  moreover have "provenance_bytes (sample_provenance n) = Inr b" using b c provenance_bytes_iff by blast
  ultimately show thesis by (rule that [rotated])
qed

lemma sample_referrer:
  assumes "provenance_bytes (sample_provenance 50) = Inr b" "length b < 2 ^ 63"
  shows "\<exists>m. build_referrer (sample_provenance 50) True JNull = Inr m"
proof -
  have subj: "so_manifest (pv_source (sample_provenance 50)) = sample_descriptor oci_manifest_type 30"
    by (simp add: sample_provenance_def sample_source_def)
  have "media_type_ok provenance_type"
    by (simp add: media_type_ok_def provenance_type_def ul_def ascii_lower_def lower_char_def is_media_part_def
        media_char_def is_alnum_def is_lower_def is_digit_def)
  then obtain blob where blob: "descriptor_init (JStr provenance_type) (JStr (sha256_text b)) (JInt (int (length b))) = Inr blob"
      and blob_eq: "blob = \<lparr>de_media_type = provenance_type, de_digest = sha256_text b, de_size = int (length b)\<rparr>"
    using descriptor_ok_init [of "\<lparr>de_media_type = provenance_type, de_digest = sha256_text b, de_size = int (length b)\<rparr>"] assms(2)
    by (auto simp: descriptor_ok_def)
  define r where "r = \<lparr>rf_subject = sample_descriptor oci_manifest_type 30, rf_blob = blob,
    rf_annotations = [(digest_annotation, sha256_text b)]\<rparr>"
  have init: "referrer_init (sample_descriptor oci_manifest_type 30) blob [(digest_annotation, sha256_text b)] = Inr r"
    by (simp add: referrer_init_iff r_def annotation_step_def blob_eq sample_descriptor_def manifest_types_def)
  have "utf8_ok (sha256_text b)" using is_digest_ascii [of "sha256_text b"] ascii_utf8_ok by simp
  then have "json_ok (referrer_to_json r)"
    using assms(2)
    by (simp add: r_def referrer_to_json_def descriptor_to_json_def blob_eq provenance_type_def oci_manifest_type_def
        empty_config_def empty_config_type_def digest_annotation_def sample_descriptor_def)
      (simp add: utf8_ok_def digest_prefix_def ul_def)
  then obtain m where "referrer_bytes r = Inr m"
    using canonical_json_bytes_total [of "referrer_to_json r"] canonical_bytes_Inr [of "referrer_to_json r"]
    by (auto simp: referrer_bytes_def)
  with assms(1) blob init subj have "build_referrer (sample_provenance 50) True JNull = Inr m"
    by (simp add: build_referrer_def producer_annotations_def consumer_annotations_def provenance_digest_def)
  then show ?thesis by blast
qed

section \<open>A port of too many digits\<close>

text \<open>It leaves as the \<open>ValueError\<close> of \<open>int\<close>, not as an error of the module.\<close>

lemma long_port:
  assumes "max_digits < n"
  shows "registry_authority (JStr (ul ''a:'' @ replicate n 57)) = Inl ValueErr"
proof -
  let ?p = "replicate n (57 :: int)"
  have n: "0 < n" using assms by simp
  have "dropWhile is_space (replicate k 57 @ 57 # xs) = replicate k 57 @ 57 # xs" for k xs
    by (cases k) (simp_all add: is_space_def)
  then have "strip (ul ''a:'' @ ?p) = ul ''a:'' @ ?p"
    using n by (cases n) (simp_all add: strip_def ul_def is_space_def replicate_append_same [symmetric] del: replicate_append_same)
  then have plain: "plain_text (JStr (ul ''a:'' @ ?p)) = Inr (ul ''a:'' @ ?p)"
    by (simp add: plain_text_def ul_def list_ex_iff)
  have host: "named_host (ul ''a:'' @ ?p) = Inr (ul ''a'', Some ?p)"
    by (simp add: named_host_def partition_on_def canonical_hostname_def is_host_label_def is_alnum_def is_lower_def ascii_lower_def
        lower_char_def ul_def)
  have port: "canonical_port (Some ?p) = Inl ValueErr"
    using assms n by (simp add: canonical_port_def ascii_digits_def py_int_def is_digit_def list_all_iff)
  show ?thesis
    using plain host port by (simp add: registry_authority_def) (simp add: ul_def starts_with_def list_ex_iff is_space_def)
qed

section \<open>The claims\<close>

text \<open>C36. Normalising a name twice changes nothing: what \<open>_requested_reference\<close> and \<open>_registry_authority\<close> return
  for a text they return again for their own result, and they refuse the same texts, so a stored reference is
  read back as it was written.\<close>

theorem names_normalise_once:
  "rbind (requested_reference v) (requested_reference \<circ> JStr) = requested_reference v \<and>
   rbind (registry_authority v) (registry_authority \<circ> JStr) = registry_authority v"
  using reference_stable [of v] authority_stable authority_result(1) [of v]
  by (cases "requested_reference v"; cases "registry_authority v") auto

text \<open>C33. The reader of provenance documents accepts exactly the canonical bytes of the well-formed documents: it
  returns a document for some bytes if and only if the document keeps every rule of the model and those are its
  bytes. So every document that is written is read back unchanged, no two byte strings are read as the same
  document, and nothing that breaks a rule is accepted.\<close>

theorem provenance_reader_exact:
  "provenance_from_bytes b = Inr p \<longleftrightarrow> provenance_ok p \<and> provenance_bytes p = Inr b"
  by (rule provenance_codec)

text \<open>C35. The digest identifies the document: two different well-formed documents have different canonical bytes, and
  their digests are equal just when those two byte strings are a collision of SHA-256; and equal chain
  identifiers come from equal lists of layer identities or from such a collision.\<close>

theorem digests_identify_documents:
  assumes "provenance_ok p" "provenance_ok q" "provenance_bytes p = Inr x" "provenance_bytes q = Inr y" "p \<noteq> q"
  shows "x \<noteq> y \<and> (provenance_digest p = provenance_digest q \<longleftrightarrow> sha256 x = sha256 y) \<and>
    (compute_chain_id (pv_occurrences p) = compute_chain_id (pv_occurrences q) \<longrightarrow>
     map chain_tuple (pv_occurrences p) = map chain_tuple (pv_occurrences q) \<or>
     (\<exists>u v. canonical_bytes (chain_json (pv_occurrences p)) = Inr u \<and>
            canonical_bytes (chain_json (pv_occurrences q)) = Inr v \<and> u \<noteq> v \<and> sha256 u = sha256 v))"
proof -
  have "x \<noteq> y" using provenance_bytes_inj assms by blast
  moreover have "provenance_digest p = provenance_digest q \<longleftrightarrow> sha256 x = sha256 y"
    using sha256_text_eq [of x y] assms(3,4) by (auto simp: provenance_digest_def sha256_text_def)
  moreover obtain c where "compute_chain_id (pv_occurrences p) = Inr c" using assms(3) by (auto simp: provenance_bytes_iff)
  ultimately show ?thesis
    using chain_binds [of "pv_occurrences p" "pv_occurrences q" c] assms(1,2) by (auto simp: provenance_ok_def)
qed

theorem digests_identify_documents_witness:
  "\<exists>x y. provenance_bytes (sample_provenance 50) = Inr x \<and> provenance_bytes (sample_provenance 51) = Inr y \<and> x \<noteq> y"
proof -
  obtain x where x: "provenance_bytes (sample_provenance 50) = Inr x" by (rule sample_bytes [of 50]) auto
  obtain y where y: "provenance_bytes (sample_provenance 51) = Inr y" by (rule sample_bytes [of 51]) auto
  have "sample_provenance 50 \<noteq> sample_provenance 51" by (simp add: sample_provenance_def sample_descriptor_def)
  with digests_identify_documents [OF sample_ok sample_ok x y] x y show ?thesis by simp
qed

text \<open>C34. A referrer manifest that the producer builds for a document is accepted by the consumer beside that
  document, carries the consumer's annotations with the document's digest where it was asked for, and names the
  selected platform manifest; and whatever manifest the consumer accepts beside some bytes is in its canonical
  form, names the platform manifest of the document those bytes encode (and the subject the caller expected),
  and its blob is the SHA-256 digest and the length of those bytes.\<close>

theorem referrer_binds_document:
  assumes "provenance_ok p" "provenance_bytes p = Inr b" "wf_json annotations"
    and "build_referrer p include_digest annotations = Inr m"
  shows "(\<exists>r items. parse_referrer m b None = Inr r \<and> consumer_annotations annotations = Inr items \<and>
            map_of (rf_annotations r) =
              (if include_digest then (map_of items)(digest_annotation \<mapsto> sha256_text b) else map_of items)) \<and>
    (\<forall>m' b' e r. parse_referrer m' b' e = Inr r \<longrightarrow>
       (\<exists>q. provenance_from_bytes b' = Inr q \<and> rf_subject r = so_manifest (pv_source q) \<and> e \<in> {None, Some (rf_subject r)} \<and>
            rf_blob r = \<lparr>de_media_type = provenance_type, de_digest = sha256_text b', de_size = int (length b')\<rparr> \<and>
            referrer_bytes r = Inr m'))"
  using referrer_reads_back [OF assms] parsed_referrer by blast

theorem referrer_binds_document_witness:
  "\<exists>b m r. provenance_bytes (sample_provenance 50) = Inr b \<and> build_referrer (sample_provenance 50) True JNull = Inr m \<and>
     parse_referrer m b None = Inr r \<and> map_of (rf_annotations r) digest_annotation = Some (sha256_text b)"
proof -
  obtain b where b: "provenance_bytes (sample_provenance 50) = Inr b" "length b < 2 ^ 63" by (rule sample_bytes [of 50]) auto
  obtain m where m: "build_referrer (sample_provenance 50) True JNull = Inr m" using sample_referrer [OF b] by blast
  have "\<exists>r items. parse_referrer m b None = Inr r \<and> consumer_annotations JNull = Inr items \<and>
      map_of (rf_annotations r) = (map_of items)(digest_annotation \<mapsto> sha256_text b)"
    using referrer_binds_document [OF sample_ok b(1) _ m] by simp
  then show ?thesis using b(1) m by auto
qed

end
