(* ===== verification/Oci_Image.thy ===== *)
theory Oci_Image imports Main Oci_Process Oci_Provenance begin

text \<open>
  \<open>src/palimpsest_local/oci_image.py\<close>: the verification of blobs against their descriptors and the
  resolution of a pinned manifest or index to one \<open>linux/amd64\<close> image.

  The blob reader is the caller's: a function from descriptors to what reading gives. A record
  argument needs no \<open>isinstance\<close> test, and an iterable of chunks is the list of its items,
  \<open>None\<close> for one that is not \<open>bytes\<close>.
\<close>

section \<open>Strict JSON\<close>

definition max_image_json :: nat where "max_image_json = 4 * 1024 * 1024"
definition max_image_layers :: nat where "max_image_layers = 128"
definition reserved_path_policy :: ustr where "reserved_path_policy = ul ''dev.pieroot.palimpsest.reserved-root.v1''"

text \<open>
  Only \<open>UnicodeDecodeError\<close> and \<open>JSONDecodeError\<close> are translated: an integer of more than 4300
  digits leaves as the \<open>ValueError\<close> that \<open>int\<close> raises, and a document nested deeper than the
  interpreter's stack allows (the first argument, \<open>None\<close> for enough) as \<open>RecursionError\<close>.
\<close>

definition strict_json :: "nat option \<Rightarrow> bytes \<Rightarrow> exn + (ustr \<times> json) list" where
  "strict_json lv payload =
     (if length payload > max_image_json then Inl artifact_error
      else case utf8_decode payload of
        None \<Rightarrow> Inl artifact_error
      | Some t \<Rightarrow>
          (case loads_strict_at lv t of
             Inl JLong \<Rightarrow> Inl ValueErr
           | Inl JDeep \<Rightarrow> Inl RecursionErr
           | Inl _ \<Rightarrow> Inl artifact_error
           | Inr (JObj d) \<Rightarrow> Inr d
           | Inr _ \<Rightarrow> Inl artifact_error))"

section \<open>Blobs\<close>

text \<open>One chunk; the state is the count and the bytes the hash has seen.\<close>

definition verify_chunk :: "int \<Rightarrow> int \<times> bytes \<Rightarrow> bytes option \<Rightarrow> exn + int \<times> bytes" where
  "verify_chunk expected_size st chunk =
     (case st of (total_size, hashed) \<Rightarrow>
        case chunk of
          None \<Rightarrow> Inl artifact_error
        | Some c \<Rightarrow>
            if c = [] then Inl artifact_error
            else if total_size + int (length c) > expected_size then Inl artifact_error
            else Inr (total_size + int (length c), hashed @ c))"

definition verify_blob_chunks :: "json \<Rightarrow> json \<Rightarrow> bytes option list \<Rightarrow> exn + unit" where
  "verify_blob_chunks expected_digest expected_size items =
     rbind (canonical_digest expected_digest) (\<lambda>digest.
     case expected_size of
       JInt n \<Rightarrow>
         if \<not> (0 \<le> n \<and> n \<le> 2 ^ 63 - 1) then Inl artifact_error
         else rbind (rfold (verify_chunk n) (0, []) items) (\<lambda>(total_size, hashed).
              if total_size \<noteq> n then Inl artifact_error
              else if sha256_text hashed \<noteq> digest then Inl artifact_error
              else Inr ())
     | _ \<Rightarrow> Inl artifact_error)"

datatype blob_read = Blob bytes | Not_bytes | Missing | Raised exn

type_synonym blob_reader = "descriptor \<Rightarrow> blob_read"

definition verify_descriptor_bytes :: "descriptor \<Rightarrow> blob_read \<Rightarrow> exn + bytes" where
  "verify_descriptor_bytes d payload =
     (case payload of
        Blob b \<Rightarrow>
          rbind (verify_blob_chunks (JStr (de_digest d)) (JInt (de_size d)) (if b = [] then [] else [Some b])) (\<lambda>_. Inr b)
      | _ \<Rightarrow> Inl artifact_error)"

definition read_verified_blob :: "blob_reader \<Rightarrow> descriptor \<Rightarrow> exn + bytes" where
  "read_verified_blob reader d =
     (case reader d of
        Raised e \<Rightarrow> Inl e
      | Missing \<Rightarrow> Inl artifact_error
      | payload \<Rightarrow> verify_descriptor_bytes d payload)"

text \<open>
  An image has up to three documents (index, manifest, config), each read at a stack depth of its
  own: the levels left are a function of the descriptor.
\<close>

type_synonym stack = "descriptor \<Rightarrow> nat option"

definition read_json_blob :: "stack \<Rightarrow> blob_reader \<Rightarrow> descriptor \<Rightarrow> exn + (ustr \<times> json) list" where
  "read_json_blob lv reader d =
     (if de_size d > int max_image_json then Inl artifact_error
      else rbind (read_verified_blob reader d) (strict_json (lv d)))"

section \<open>The image receipt\<close>

record image_ref =
  ir_registry :: ustr
  ir_repository :: ustr
  ir_reference :: ustr

definition image_ref_init :: "json \<Rightarrow> json \<Rightarrow> json \<Rightarrow> exn + image_ref" where
  "image_ref_init registry repository reference =
     rbind (registry_authority registry) (\<lambda>r.
     rbind (repository_name repository) (\<lambda>n.
     rbind (requested_reference reference) (\<lambda>q.
     Inr \<lparr>ir_registry = r, ir_repository = n, ir_reference = q\<rparr>)))"

definition image_ref_to_json :: "image_ref \<Rightarrow> json" where
  "image_ref_to_json r =
     JObj [(ul ''registry'', JStr (ir_registry r)), (ul ''repository'', JStr (ir_repository r)),
           (ul ''requested_reference'', JStr (ir_reference r))]"

record image_config =
  ic_descriptor :: descriptor
  ic_os :: ustr
  ic_architecture :: ustr
  ic_rootfs_type :: ustr
  ic_diff_ids :: "ustr list"
  ic_process :: process_spec

definition image_config_init ::
    "descriptor \<Rightarrow> json \<Rightarrow> json \<Rightarrow> json \<Rightarrow> json list \<Rightarrow> process_spec \<Rightarrow> exn + image_config" where
  "image_config_init d os architecture rootfs_type diff_ids process =
     (if de_media_type d \<notin> set config_types then Inl artifact_error
      else if os \<noteq> JStr (ul ''linux'') \<or> architecture \<noteq> JStr (ul ''amd64'') then Inl artifact_error
      else if rootfs_type \<noteq> JStr (ul ''layers'') then Inl artifact_error
      else rbind (rmap canonical_digest diff_ids) (\<lambda>ids.
           Inr \<lparr>ic_descriptor = d, ic_os = ul ''linux'', ic_architecture = ul ''amd64'', ic_rootfs_type = ul ''layers'',
                ic_diff_ids = ids, ic_process = process\<rparr>))"

definition image_config_to_json :: "image_config \<Rightarrow> json" where
  "image_config_to_json c =
     JObj [(ul ''architecture'', JStr (ic_architecture c)), (ul ''descriptor'', descriptor_to_json (ic_descriptor c)),
           (ul ''os'', JStr (ic_os c)), (ul ''process'', process_to_json (ic_process c)),
           (ul ''rootfs'', JObj [(ul ''diff_ids'', JArr (map JStr (ic_diff_ids c))), (ul ''type'', JStr (ic_rootfs_type c))])]"

record layer_source =
  ls_ordinal :: int
  ls_compressed :: descriptor
  ls_diff_id :: ustr

definition layer_source_init :: "int \<Rightarrow> descriptor \<Rightarrow> ustr \<Rightarrow> exn + layer_source" where
  "layer_source_init ordinal compressed diff_id =
     (if ordinal < 0 then Inl artifact_error
      else if de_media_type compressed \<notin> set layer_types then Inl artifact_error
      else rbind (canonical_digest (JStr diff_id)) (\<lambda>d.
           Inr \<lparr>ls_ordinal = ordinal, ls_compressed = compressed, ls_diff_id = d\<rparr>))"

definition layer_source_to_json :: "layer_source \<Rightarrow> json" where
  "layer_source_to_json l =
     JObj [(ul ''compressed'', descriptor_to_json (ls_compressed l)), (ul ''diff_id'', JStr (ls_diff_id l)),
           (ul ''ordinal'', JInt (ls_ordinal l))]"

record image =
  im_reference :: image_ref
  im_index :: "descriptor option"
  im_manifest :: descriptor
  im_config :: image_config
  im_platform :: platform
  im_layers :: "layer_source list"
  im_policy :: ustr

definition phase1_platform :: platform where
  "phase1_platform =
     \<lparr>pl_os = ul ''linux'', pl_architecture = ul ''amd64'', pl_variant = None, pl_os_version = None, pl_os_features = []\<rparr>"

definition image_init ::
    "image_ref \<Rightarrow> descriptor option \<Rightarrow> descriptor \<Rightarrow> image_config \<Rightarrow> platform \<Rightarrow> layer_source list \<Rightarrow> ustr \<Rightarrow> exn + image" where
  "image_init reference index manifest config platform layers policy =
     (if \<not> pred_option (\<lambda>i. de_media_type i \<in> set index_types) index then Inl artifact_error
      else if de_media_type manifest \<notin> set manifest_types then Inl artifact_error
      else if platform \<noteq> phase1_platform then Inl artifact_error
      else if \<not> (1 \<le> length layers \<and> length layers \<le> max_image_layers) then Inl artifact_error
      else if map ls_ordinal layers \<noteq> map int [0..<length layers] then Inl artifact_error
      else if map ls_diff_id layers \<noteq> ic_diff_ids config then Inl artifact_error
      else if policy \<noteq> reserved_path_policy then Inl artifact_error
      else Inr \<lparr>im_reference = reference, im_index = index, im_manifest = manifest, im_config = config,
                im_platform = platform, im_layers = layers, im_policy = policy\<rparr>)"

definition image_source :: "image \<Rightarrow> exn + source" where
  "image_source i =
     source_init (JStr (ir_registry (im_reference i))) (JStr (ir_repository (im_reference i)))
       (JStr (ir_reference (im_reference i))) (im_index i) (im_manifest i) (ic_descriptor (im_config i)) (im_platform i)"

definition image_to_json :: "image \<Rightarrow> json" where
  "image_to_json i =
     JObj [(ul ''config'', image_config_to_json (im_config i)), (ul ''index_descriptor'', optional_descriptor_json (im_index i)),
           (ul ''layers'', JArr (map layer_source_to_json (im_layers i))),
           (ul ''manifest_descriptor'', descriptor_to_json (im_manifest i)), (ul ''platform'', platform_to_json (im_platform i)),
           (ul ''reference'', image_ref_to_json (im_reference i)), (ul ''reserved_path_policy'', JStr (im_policy i))]"

definition image_bytes :: "image \<Rightarrow> exn + bytes" where
  "image_bytes i = canonical_bytes (image_to_json i)"

definition image_digest :: "image \<Rightarrow> exn + ustr" where
  "image_digest i = rbind (image_bytes i) (\<lambda>b. Inr (sha256_text b))"

section \<open>Wire descriptors\<close>

record wire_platform =
  wp_os :: ustr
  wp_architecture :: ustr
  wp_variant :: "ustr option"
  wp_os_version :: "ustr option"
  wp_os_features :: "ustr list"

definition nonempty_text :: "json \<Rightarrow> exn + ustr" where
  "nonempty_text v = (case v of JStr s \<Rightarrow> if s = [] then Inl artifact_error else Inr s | _ \<Rightarrow> Inl artifact_error)"

definition text_item :: "json \<Rightarrow> exn + ustr" where
  "text_item v = (case v of JStr s \<Rightarrow> Inr s | _ \<Rightarrow> Inl artifact_error)"

definition parse_wire_platform :: "json \<Rightarrow> exn + wire_platform" where
  "parse_wire_platform v =
     (case v of
        JObj d \<Rightarrow>
          if ul ''architecture'' \<notin> set (dkeys d) \<or> ul ''os'' \<notin> set (dkeys d) then Inl artifact_error
          else (case (case map_of d (ul ''os.features'') of None \<Rightarrow> JArr [] | Some x \<Rightarrow> x) of
                  JArr raw \<Rightarrow>
                    rbind (rmap text_item raw) (\<lambda>features.
                    rbind (nonempty_text (jget d ''os'')) (\<lambda>os.
                    rbind (nonempty_text (jget d ''architecture'')) (\<lambda>architecture.
                    rbind (optional_field nonempty_text (jget d ''variant'')) (\<lambda>variant.
                    rbind (optional_field nonempty_text (jget d ''os.version'')) (\<lambda>os_version.
                    Inr \<lparr>wp_os = os, wp_architecture = architecture, wp_variant = variant, wp_os_version = os_version,
                         wp_os_features = features\<rparr>)))))
                | _ \<Rightarrow> Inl artifact_error)
      | _ \<Rightarrow> Inl artifact_error)"

definition is_jstr :: "json \<Rightarrow> bool" where
  "is_jstr v = (case v of JStr s \<Rightarrow> True | _ \<Rightarrow> False)"

text \<open>The \<open>urls\<close> and \<open>annotations\<close> of a descriptor are checked and dropped.\<close>

definition valid_urls :: "json \<Rightarrow> bool" where
  "valid_urls v = (case v of JNull \<Rightarrow> True | JArr xs \<Rightarrow> list_all is_jstr xs | _ \<Rightarrow> False)"

definition valid_annotations :: "json \<Rightarrow> bool" where
  "valid_annotations v =
     (case v of JNull \<Rightarrow> True | JObj d \<Rightarrow> list_all (\<lambda>(k, x). is_jstr x) d | _ \<Rightarrow> False)"

record index_entry =
  ie_descriptor :: descriptor
  ie_platform :: "wire_platform option"

definition wire_descriptor :: "json \<Rightarrow> bool \<Rightarrow> exn + index_entry" where
  "wire_descriptor v platform_allowed =
     (case v of
        JObj d \<Rightarrow>
          if \<not> list_all (\<lambda>k. ul k \<in> set (dkeys d)) [''mediaType'', ''digest'', ''size''] then Inl artifact_error
          else rbind (descriptor_init (jget d ''mediaType'') (jget d ''digest'') (jget d ''size'')) (\<lambda>descriptor.
               if \<not> valid_urls (jget d ''urls'') then Inl artifact_error
               else if \<not> valid_annotations (jget d ''annotations'') then Inl artifact_error
               else if ul ''artifactType'' \<in> set (dkeys d) \<and> \<not> is_jstr (jget d ''artifactType'')
               then Inl artifact_error
               else if ul ''data'' \<in> set (dkeys d) then Inl artifact_error
               else if jget d ''platform'' \<noteq> JNull \<and> \<not> platform_allowed then Inl artifact_error
               else if jget d ''platform'' = JNull then Inr \<lparr>ie_descriptor = descriptor, ie_platform = None\<rparr>
               else rbind (parse_wire_platform (jget d ''platform'')) (\<lambda>platform.
                    Inr \<lparr>ie_descriptor = descriptor, ie_platform = Some platform\<rparr>))
      | _ \<Rightarrow> Inl artifact_error)"

definition exact_phase1_platform :: "wire_platform option \<Rightarrow> bool" where
  "exact_phase1_platform p \<longleftrightarrow>
     p = Some \<lparr>wp_os = ul ''linux'', wp_architecture = ul ''amd64'', wp_variant = None, wp_os_version = None, wp_os_features = []\<rparr>"

section \<open>Resolution\<close>

definition require_document :: "(ustr \<times> json) list \<Rightarrow> descriptor \<Rightarrow> exn + unit" where
  "require_document document d =
     (if jget document ''schemaVersion'' \<noteq> JInt 2 then Inl artifact_error
      else if jget document ''mediaType'' \<noteq> JStr (de_media_type d) then Inl artifact_error else Inr ())"

definition parse_config :: "stack \<Rightarrow> blob_reader \<Rightarrow> descriptor \<Rightarrow> exn + image_config" where
  "parse_config lv reader d =
     (if de_media_type d \<notin> set config_types then Inl artifact_error
      else rbind (read_json_blob lv reader d) (\<lambda>document.
           case jget document ''rootfs'' of
             JObj rootfs \<Rightarrow>
               if ul ''type'' \<notin> set (dkeys rootfs) \<or> ul ''diff_ids'' \<notin> set (dkeys rootfs) then Inl artifact_error
               else (case jget rootfs ''diff_ids'' of
                       JArr diff_ids \<Rightarrow>
                         rbind (process_from_config (jget document ''config'')) (\<lambda>process.
                         image_config_init d (jget document ''os'') (jget document ''architecture'') (jget rootfs ''type'')
                           diff_ids process)
                     | _ \<Rightarrow> Inl artifact_error)
           | _ \<Rightarrow> Inl artifact_error))"

definition manifest_profile :: "ustr \<Rightarrow> ustr \<times> ustr list" where
  "manifest_profile media_type =
     (if media_type = oci_manifest_type then (oci_config_type, [oci_layer_type, oci_gzip_type])
      else (docker_config_type, [docker_gzip_type]))"

definition manifest_layer :: "ustr list \<Rightarrow> json \<Rightarrow> exn + descriptor" where
  "manifest_layer expected raw =
     rbind (wire_descriptor raw False) (\<lambda>entry.
     if de_media_type (ie_descriptor entry) \<notin> set layer_types then Inl artifact_error
     else if de_media_type (ie_descriptor entry) \<notin> set expected then Inl artifact_error
     else Inr (ie_descriptor entry))"

definition pair_layers :: "descriptor list \<Rightarrow> ustr list \<Rightarrow> exn + layer_source list" where
  "pair_layers compressed diff_ids =
     rmap (\<lambda>i. layer_source_init (int i) (compressed ! i) (diff_ids ! i)) [0..<length compressed]"

definition resolve_manifest :: "stack \<Rightarrow> image_ref \<Rightarrow> blob_reader \<Rightarrow> descriptor \<Rightarrow> descriptor option \<Rightarrow> exn + image" where
  "resolve_manifest lv reference reader manifest index =
     (if de_media_type manifest \<notin> set manifest_types then Inl artifact_error
      else rbind (read_json_blob lv reader manifest) (\<lambda>document.
           rbind (require_document document manifest) (\<lambda>_.
           rbind (wire_descriptor (jget document ''config'') False) (\<lambda>config_entry.
           case manifest_profile (de_media_type manifest) of (config_type, expected) \<Rightarrow>
           if de_media_type (ie_descriptor config_entry) \<noteq> config_type then Inl artifact_error
           else case jget document ''layers'' of
             JArr raw_layers \<Rightarrow>
               if \<not> (1 \<le> length raw_layers \<and> length raw_layers \<le> max_image_layers) then Inl artifact_error
               else rbind (rmap (manifest_layer expected) raw_layers) (\<lambda>compressed.
                    rbind (parse_config lv reader (ie_descriptor config_entry)) (\<lambda>config.
                    if length (ic_diff_ids config) \<noteq> length compressed then Inl artifact_error
                    else rbind (pair_layers compressed (ic_diff_ids config)) (\<lambda>layers.
                         image_init reference index manifest config phase1_platform layers reserved_path_policy)))
           | _ \<Rightarrow> Inl artifact_error))))"

text \<open>The loop over the index: the manifests for exactly \<open>linux/amd64\<close>.\<close>

definition index_step :: "ustr \<Rightarrow> descriptor list \<Rightarrow> json \<Rightarrow> exn + descriptor list" where
  "index_step root_type matches raw =
     rbind (wire_descriptor raw True) (\<lambda>entry.
     if exact_phase1_platform (ie_platform entry) then
       (let media_type = de_media_type (ie_descriptor entry)
        in if media_type \<notin> set manifest_types then Inl artifact_error
           else if media_type \<noteq> (if root_type = oci_index_type then oci_manifest_type else docker_manifest_type)
           then Inl artifact_error
           else Inr (matches @ [ie_descriptor entry]))
     else Inr matches)"

definition resolve_image :: "stack \<Rightarrow> image_ref \<Rightarrow> descriptor \<Rightarrow> blob_reader \<Rightarrow> exn + image" where
  "resolve_image lv reference root reader =
     (if 64 \<in> set (ir_reference reference) \<and> rev (takeWhile (\<lambda>c. c \<noteq> 64) (rev (ir_reference reference))) \<noteq> de_digest root
      then Inl artifact_error
      else if de_media_type root \<in> set manifest_types then resolve_manifest lv reference reader root None
      else if de_media_type root \<notin> set index_types then Inl artifact_error
      else rbind (read_json_blob lv reader root) (\<lambda>document.
           rbind (require_document document root) (\<lambda>_.
           case jget document ''manifests'' of
             JArr manifests \<Rightarrow>
               rbind (rfold (index_step (de_media_type root)) [] manifests) (\<lambda>matches.
               case matches of
                 [m] \<Rightarrow> resolve_manifest lv reference reader m (Some root)
               | _ \<Rightarrow> Inl artifact_error)
           | _ \<Rightarrow> Inl artifact_error)))"

end
