(* ===== verification/Oci_Image_Props.thy ===== *)
theory Oci_Image_Props imports Main Oci_Image Oci_Process_Props Oci_Referrer begin

text \<open>
  What image resolution guarantees: the result depends on nothing but the root descriptor and the
  SHA-256 of the blobs, everything in it comes from verified bytes, and its provenance source always
  exists.
\<close>

section \<open>Verified reads\<close>

lemma verified_bytes:
  assumes "verify_descriptor_bytes d payload = Inr b"
  shows "payload = Blob b \<and> sha256_text b = de_digest d \<and> int (length b) = de_size d"
proof (cases payload)
  case (Blob c)
  with assms have "verify_blob_chunks (JStr (de_digest d)) (JInt (de_size d)) (if c = [] then [] else [Some c]) = Inr ()" "b = c"
    by (auto simp: verify_descriptor_bytes_def rbind_Inr_iff)
  then show ?thesis
    using Blob by (auto simp: verify_blob_chunks_def rbind_Inr_iff digest_iff verify_chunk_def split: if_splits)
qed (use assms in \<open>simp_all add: verify_descriptor_bytes_def\<close>)

lemma read_verified:
  "read_verified_blob reader d = Inr b \<Longrightarrow> reader d = Blob b \<and> sha256_text b = de_digest d \<and> int (length b) = de_size d"
  using verified_bytes by (cases "reader d") (auto simp: read_verified_blob_def)

text \<open>The stack makes no difference until it runs out.\<close>

lemma strict_json_deep:
  "strict_json lv b = strict_json None b \<or> strict_json lv b = Inl RecursionErr \<and> (\<exists>k. lv = Some k \<and> k < length b)"
proof (cases "utf8_decode b")
  case (Some t)
  then show ?thesis using loads_strict_deep [of lv t] length_utf8_decode [OF Some] by (auto simp: strict_json_def)
qed (simp add: strict_json_def)

lemma strict_json_Inr: "strict_json lv b = Inr doc \<Longrightarrow> strict_json None b = Inr doc"
  using strict_json_deep [of lv b] by auto

lemma read_json:
  "read_json_blob lv reader d = Inr doc \<Longrightarrow>
     \<exists>b. reader d = Blob b \<and> sha256_text b = de_digest d \<and> int (length b) = de_size d \<and> strict_json None b = Inr doc"
  using read_verified strict_json_Inr by (fastforce simp: read_json_blob_def rbind_Inr_iff split: if_splits)

section \<open>Two readers\<close>

text \<open>Two computations that do not return different results.\<close>

definition agree :: "exn + 'a \<Rightarrow> exn + 'a \<Rightarrow> bool" where
  "agree m n \<longleftrightarrow> (\<forall>x y. m = Inr x \<longrightarrow> n = Inr y \<longrightarrow> x = y)"

lemma agree_same [simp, intro]: "agree m m"
  by (simp add: agree_def)

lemma agree_rbind [intro]: "agree m n \<Longrightarrow> (\<And>x. agree (f x) (g x)) \<Longrightarrow> agree (rbind m f) (rbind n g)"
  by (fastforce simp: agree_def rbind_Inr_iff)

lemma agree_if [intro]: "(\<not> b \<Longrightarrow> agree m n) \<Longrightarrow> agree (if b then Inl e else m) (if b then Inl e else n)"
  by simp

lemma agree_object: "(\<And>d. agree (f d) (g d)) \<Longrightarrow>
  agree (case v of JObj d \<Rightarrow> f d | _ \<Rightarrow> Inl e) (case v of JObj d \<Rightarrow> g d | _ \<Rightarrow> Inl e)"
  by (cases v) auto

lemma agree_array: "(\<And>d. agree (f d) (g d)) \<Longrightarrow>
  agree (case v of JArr d \<Rightarrow> f d | _ \<Rightarrow> Inl e) (case v of JArr d \<Rightarrow> g d | _ \<Rightarrow> Inl e)"
  by (cases v) auto

lemma agree_pair: "(\<And>a b. agree (f a b) (g a b)) \<Longrightarrow> agree (case p of (a, b) \<Rightarrow> f a b) (case p of (a, b) \<Rightarrow> g a b)"
  by (cases p) auto

text \<open>No descriptor for which the two return different blobs of one hash.\<close>

definition collide :: "blob_reader \<Rightarrow> blob_reader \<Rightarrow> bool" where
  "collide r s \<longleftrightarrow> (\<exists>d x y. r d = Blob x \<and> s d = Blob y \<and> x \<noteq> y \<and> sha256 x = sha256 y)"

lemma read_agree:
  assumes "\<not> collide r s"
  shows "agree (read_json_blob lv r d) (read_json_blob lv' s d)"
proof -
  have "x = y" if x: "read_verified_blob r d = Inr x" and y: "read_verified_blob s d = Inr y" for x y
  proof -
    have "r d = Blob x" "s d = Blob y" "sha256_text x = sha256_text y" using read_verified [OF x] read_verified [OF y] by auto
    with sha256_text_eq assms show ?thesis unfolding collide_def by blast
  qed
  then have "agree (read_verified_blob r d) (read_verified_blob s d)" unfolding agree_def by blast
  moreover have "agree (strict_json l b) (strict_json l' b)" for l l' b
    using strict_json_Inr [of l b] strict_json_Inr [of l' b] by (force simp: agree_def)
  ultimately show ?thesis unfolding read_json_blob_def by (intro agree_if agree_rbind)
qed

lemma config_agree: "\<not> collide r s \<Longrightarrow> agree (parse_config lv r d) (parse_config lv' s d)"
  unfolding parse_config_def by (intro agree_if agree_rbind read_agree agree_object agree_array agree_same)

lemma manifest_agree: "\<not> collide r s \<Longrightarrow> agree (resolve_manifest lv q r m i) (resolve_manifest lv' q s m i)"
  unfolding resolve_manifest_def
  by (intro agree_if agree_rbind read_agree config_agree agree_object agree_array agree_pair agree_same)

lemma image_agree:
  assumes "\<not> collide r s"
  shows "agree (resolve_image lv q m r) (resolve_image lv' q m s)"
proof -
  have one: "agree (case ms of [m] \<Rightarrow> resolve_manifest lv q r m i | _ \<Rightarrow> Inl artifact_error)
     (case ms of [m] \<Rightarrow> resolve_manifest lv' q s m i | _ \<Rightarrow> Inl artifact_error)" for ms i
    using manifest_agree [OF assms] by (auto split: list.splits)
  have index: "agree
     (rbind (read_json_blob lv r m) (\<lambda>document. rbind (require_document document m) (\<lambda>_. case jget document ''manifests'' of
        JArr manifests \<Rightarrow> rbind (rfold (index_step (de_media_type m)) [] manifests) (\<lambda>matches.
          case matches of [x] \<Rightarrow> resolve_manifest lv q r x (Some m) | _ \<Rightarrow> Inl artifact_error) | _ \<Rightarrow> Inl artifact_error)))
     (rbind (read_json_blob lv' s m) (\<lambda>document. rbind (require_document document m) (\<lambda>_. case jget document ''manifests'' of
        JArr manifests \<Rightarrow> rbind (rfold (index_step (de_media_type m)) [] manifests) (\<lambda>matches.
          case matches of [x] \<Rightarrow> resolve_manifest lv' q s x (Some m) | _ \<Rightarrow> Inl artifact_error) | _ \<Rightarrow> Inl artifact_error)))"
    by (intro agree_rbind read_agree agree_array agree_same one assms)
  then show ?thesis using manifest_agree [OF assms] unfolding resolve_image_def by simp
qed

section \<open>The contents of a resolved image\<close>

lemma wire_descriptor_ok: "wire_descriptor v b = Inr e \<Longrightarrow> descriptor_ok (ie_descriptor e)"
  using descriptor_init_ok by (cases v) (auto simp: wire_descriptor_def rbind_Inr_iff split: if_splits)

lemma manifest_layer_ok:
  "manifest_layer expected raw = Inr d \<Longrightarrow>
     descriptor_ok d \<and> de_media_type d \<in> set expected \<and> de_media_type d \<in> set layer_types"
  using wire_descriptor_ok by (auto simp: manifest_layer_def rbind_Inr_iff split: if_splits)

lemma array_case: "(case v of JArr d \<Rightarrow> f d | _ \<Rightarrow> Inl e) = Inr y \<longleftrightarrow> (\<exists>d. v = JArr d \<and> f d = Inr y)"
  by (cases v) auto

lemma config_parsed:
  assumes "parse_config lv reader d = Inr c"
  shows "ic_descriptor c = d \<and> ic_os c = ul ''linux'' \<and> ic_architecture c = ul ''amd64'' \<and> ic_rootfs_type c = ul ''layers'' \<and>
    list_all is_digest (ic_diff_ids c) \<and> process_built (ic_process c) \<and> de_media_type d \<in> set config_types \<and>
    (\<exists>b. reader d = Blob b \<and> sha256_text b = de_digest d \<and> int (length b) = de_size d)"
proof -
  obtain doc rootfs ids p where "read_json_blob lv reader d = Inr doc" "process_from_config (jget doc ''config'') = Inr p"
      "image_config_init d (jget doc ''os'') (jget doc ''architecture'') (jget rootfs ''type'') ids p = Inr c"
    using assms by (auto simp: parse_config_def rbind_Inr_iff object_case array_case split: if_splits)
  moreover have "list_all is_digest xs" if "rmap canonical_digest ids = Inr xs" for xs
    using that by (auto simp: rmap_iff list_all2_conv_all_nth list_all_length digest_iff)
  ultimately show ?thesis
    using read_json built_config by (fastforce simp: image_config_init_def rbind_Inr_iff split: if_splits)
qed

lemma paired_layers:
  assumes "pair_layers compressed ids = Inr ls" "length ids = length compressed"
  shows "map ls_ordinal ls = map int [0..<length compressed] \<and> map ls_compressed ls = compressed \<and> map ls_diff_id ls = ids"
proof -
  have l: "list_all2 (\<lambda>i l. layer_source_init (int i) (compressed ! i) (ids ! i) = Inr l) [0..<length compressed] ls"
    using assms(1) by (simp add: pair_layers_def rmap_iff)
  have one: "ls_ordinal l = int i \<and> ls_compressed l = compressed ! i \<and> ls_diff_id l = ids ! i"
    if "layer_source_init (int i) (compressed ! i) (ids ! i) = Inr l" for i l
    using that by (auto simp: layer_source_init_def rbind_Inr_iff digest_iff split: if_splits)
  have len: "length ls = length compressed" using l by (simp add: list_all2_lengthD [symmetric])
  have "ls_ordinal (ls ! i) = int i \<and> ls_compressed (ls ! i) = compressed ! i \<and> ls_diff_id (ls ! i) = ids ! i"
    if "i < length compressed" for i
    using one list_all2_nthD [OF l, of i] that by simp
  with len assms(2) show ?thesis by (auto intro!: nth_equalityI)
qed

text \<open>What a resolved image holds, given the manifest it was read from.\<close>

definition image_ok :: "image \<Rightarrow> bool" where
  "image_ok i \<longleftrightarrow>
     de_media_type (im_manifest i) \<in> set manifest_types \<and>
     pred_option (\<lambda>d. de_media_type d \<in> set index_types) (im_index i) \<and>
     (let (config_type, expected) = manifest_profile (de_media_type (im_manifest i))
      in de_media_type (ic_descriptor (im_config i)) = config_type \<and>
         list_all (\<lambda>l. descriptor_ok (ls_compressed l) \<and> de_media_type (ls_compressed l) \<in> set expected) (im_layers i)) \<and>
     descriptor_ok (ic_descriptor (im_config i)) \<and> process_ok (ic_process (im_config i)) \<and>
     im_platform i = phase1_platform \<and> 1 \<le> length (im_layers i) \<and> length (im_layers i) \<le> max_image_layers \<and>
     map ls_ordinal (im_layers i) = map int [0..<length (im_layers i)] \<and>
     map ls_diff_id (im_layers i) = ic_diff_ids (im_config i) \<and> list_all is_digest (ic_diff_ids (im_config i))"

lemma manifest_resolved:
  assumes "resolve_manifest lv q reader m index = Inr i"
  shows "im_reference i = q \<and> im_manifest i = m \<and> im_index i = index \<and> image_ok i \<and>
    (\<exists>b. reader m = Blob b \<and> sha256_text b = de_digest m \<and> int (length b) = de_size m) \<and>
    (\<exists>b. reader (ic_descriptor (im_config i)) = Blob b \<and> sha256_text b = de_digest (ic_descriptor (im_config i)))"
proof -
  obtain config_type expected where prof: "manifest_profile (de_media_type m) = (config_type, expected)" by fastforce
  obtain doc ce raw compressed c ls where s: "read_json_blob lv reader m = Inr doc" "wire_descriptor (jget doc ''config'') False = Inr ce"
      "de_media_type (ie_descriptor ce) = config_type" "1 \<le> length raw" "length raw \<le> max_image_layers"
      "rmap (manifest_layer expected) raw = Inr compressed" "parse_config lv reader (ie_descriptor ce) = Inr c"
      "length (ic_diff_ids c) = length compressed" "pair_layers compressed (ic_diff_ids c) = Inr ls"
      "image_init q index m c phase1_platform ls reserved_path_policy = Inr i"
    using assms prof unfolding resolve_manifest_def
    by (auto simp: rbind_Inr_iff array_case not_less split: if_splits)
  note c = config_parsed [OF s(7)] and l = paired_layers [OF s(9,8)]
  have "list_all (\<lambda>d. descriptor_ok d \<and> de_media_type d \<in> set expected) compressed"
    using s(6) manifest_layer_ok by (fastforce simp: rmap_iff list_all2_conv_all_nth list_all_length)
  then have "list_all (\<lambda>l. descriptor_ok (ls_compressed l) \<and> de_media_type (ls_compressed l) \<in> set expected) ls"
    using l by (metis (no_types, lifting) length_map list_all_length nth_map)
  moreover have "im_reference i = q" "im_manifest i = m" "im_index i = index" "im_config i = c" "im_layers i = ls"
      "im_platform i = phase1_platform" "1 \<le> length ls" "length ls \<le> max_image_layers" "map ls_ordinal ls = map int [0..<length ls]"
      "map ls_diff_id ls = ic_diff_ids c" "de_media_type m \<in> set manifest_types"
      "pred_option (\<lambda>d. de_media_type d \<in> set index_types) index"
    using s(10) by (auto simp: image_init_def split: if_splits)
  ultimately show ?thesis
    using c s(3) wire_descriptor_ok [OF s(2)] prof process_built_ok read_json [OF s(1)] by (auto simp: image_ok_def)
qed

text \<open>The descriptors that an index lists for exactly \<open>linux/amd64\<close>, in order.\<close>

definition linux_entries :: "json list \<Rightarrow> descriptor list" where
  "linux_entries raws =
     List.map_filter (\<lambda>raw. case wire_descriptor raw True of
         Inl _ \<Rightarrow> None
       | Inr e \<Rightarrow> if exact_phase1_platform (ie_platform e) then Some (ie_descriptor e) else None) raws"

lemma index_steps: "rfold (index_step t) ms raws = Inr ms' \<Longrightarrow> ms' = ms @ linux_entries raws"
proof (induction raws arbitrary: ms)
  case (Cons raw raws)
  then obtain ms1 where one: "index_step t ms raw = Inr ms1" and rest: "rfold (index_step t) ms1 raws = Inr ms'"
    by (auto simp: rbind_Inr_iff)
  from one obtain e where "wire_descriptor raw True = Inr e"
      "ms1 = ms @ (if exact_phase1_platform (ie_platform e) then [ie_descriptor e] else [])"
    by (auto simp: index_step_def rbind_Inr_iff Let_def split: if_splits)
  with Cons.IH [OF rest] show ?case by (simp add: linux_entries_def List.map_filter_simps)
qed (simp add: linux_entries_def List.map_filter_simps)

lemma linux_entries_ok: "d \<in> set (linux_entries raws) \<Longrightarrow> descriptor_ok d"
  using wire_descriptor_ok by (fastforce simp: linux_entries_def List.map_filter_def split: sum.splits if_splits)

definition pinned_by :: "descriptor \<Rightarrow> blob_reader \<Rightarrow> image \<Rightarrow> bool" where
  "pinned_by root reader i \<longleftrightarrow>
     (case im_index i of
        None \<Rightarrow> im_manifest i = root
      | Some d \<Rightarrow> d = root \<and>
          (\<exists>b doc entries. reader root = Blob b \<and> sha256_text b = de_digest root \<and> strict_json None b = Inr doc \<and>
             jget doc ''manifests'' = JArr entries \<and> linux_entries entries = [im_manifest i])) \<and>
     (\<exists>b. reader (im_manifest i) = Blob b \<and> sha256_text b = de_digest (im_manifest i)) \<and>
     (\<exists>b. reader (ic_descriptor (im_config i)) = Blob b \<and> sha256_text b = de_digest (ic_descriptor (im_config i)))"

lemma last_part: "x \<in> set s \<Longrightarrow> \<exists>p. s = p @ x # rev (takeWhile (\<lambda>c. c \<noteq> x) (rev s))"
proof -
  assume "x \<in> set s"
  then obtain a b where "s = a @ x # b" "x \<notin> set b" by (meson split_list_last)
  then have "takeWhile (\<lambda>c. c \<noteq> x) (rev s) = rev b" by (simp add: takeWhile_append)
  with \<open>s = a @ x # b\<close> show ?thesis by auto
qed

lemma image_resolved:
  assumes "resolve_image lv q root reader = Inr i" and ok: "descriptor_ok root"
  shows "image_ok i \<and> descriptor_ok (im_manifest i) \<and> im_reference i = q \<and> pinned_by root reader i \<and>
    (64 \<notin> set (ir_reference q) \<or> (\<exists>p. ir_reference q = p @ 64 # de_digest root)) \<and> im_index i \<in> {None, Some root}"
proof -
  have pin: "64 \<notin> set (ir_reference q) \<or> (\<exists>p. ir_reference q = p @ 64 # de_digest root)"
    using assms(1) last_part [of 64 "ir_reference q"] by (auto simp: resolve_image_def split: if_splits)
  show ?thesis
  proof (cases "de_media_type root \<in> set manifest_types")
    case True
    then have "resolve_manifest lv q reader root None = Inr i"
      using assms(1) by (auto simp: resolve_image_def split: if_splits)
    from manifest_resolved [OF this] ok pin show ?thesis by (auto simp: pinned_by_def)
  next
    case False
    then obtain doc raws ms where r: "read_json_blob lv reader root = Inr doc" "jget doc ''manifests'' = JArr raws"
        "rfold (index_step (de_media_type root)) [] raws = Inr ms"
        "(case ms of [m] \<Rightarrow> resolve_manifest lv q reader m (Some root) | _ \<Rightarrow> Inl artifact_error) = Inr i"
      using assms(1) by (auto simp: resolve_image_def rbind_Inr_iff array_case split: if_splits)
    then obtain m where m: "ms = [m]" "resolve_manifest lv q reader m (Some root) = Inr i" by (auto split: list.splits)
    have e: "linux_entries raws = [m]" using index_steps [OF r(3)] m(1) by simp
    with manifest_resolved [OF m(2)] read_json [OF r(1)] r(2) linux_entries_ok [of m raws] pin show ?thesis
      by (auto simp: pinned_by_def)
  qed
qed

lemma image_ref_again:
  "image_ref_init r n t = Inr q \<Longrightarrow>
     registry_authority (JStr (ir_registry q)) = Inr (ir_registry q) \<and>
     repository_name (JStr (ir_repository q)) = Inr (ir_repository q) \<and>
     requested_reference (JStr (ir_reference q)) = Inr (ir_reference q)"
  using authority_stable authority_result(1) repository_name_again reference_stable
  by (auto simp: image_ref_init_def rbind_Inr_iff)

lemma image_has_source:
  assumes "image_ref_init r n t = Inr q" "resolve_image lv q root reader = Inr i" "descriptor_ok root"
  shows "\<exists>s. image_source i = Inr s \<and> source_ok s"
proof -
  note i = image_resolved [OF assms(2,3)] and q = image_ref_again [OF assms(1)]
  have "de_media_type (ic_descriptor (im_config i)) \<in> set config_types"
    using i by (auto simp: image_ok_def manifest_profile_def config_types_def split: if_splits)
  then have "\<exists>s. image_source i = Inr s" using i q by (auto simp: image_source_def source_init_def image_ok_def)
  then obtain s where s: "image_source i = Inr s" by blast
  have "platform_ok phase1_platform"
    by (simp add: platform_ok_def phase1_platform_def platform_component_def ul_def is_lower_def is_digit_def)
  moreover have "pred_option descriptor_ok (im_index i)" using i assms(3) by auto
  ultimately have "source_ok s"
    using source_init_ok [OF s [unfolded image_source_def]] i by (auto simp: image_ok_def)
  with s show ?thesis by blast
qed

section \<open>Refusals\<close>

text \<open>A blob with more bytes than there are levels of the stack left where it is parsed.\<close>

definition outgrown :: "stack \<Rightarrow> blob_reader \<Rightarrow> bool" where
  "outgrown lv reader \<longleftrightarrow> (\<exists>d b k. reader d = Blob b \<and> lv d = Some k \<and> k < length b)"

definition image_error :: "stack \<Rightarrow> blob_reader \<Rightarrow> exn \<Rightarrow> bool" where
  "image_error lv reader e \<longleftrightarrow>
     e = artifact_error \<or> e = ValueErr \<or> e = RecursionErr \<and> outgrown lv reader \<or> (\<exists>d. reader d = Raised e)"

lemma artifact_errors:
  "canonical_digest v = Inl e \<Longrightarrow> e = artifact_error" "plain_text v = Inl e \<Longrightarrow> e = artifact_error"
  "descriptor_init a b c = Inl e \<Longrightarrow> e = artifact_error" "nonempty_text v = Inl e \<Longrightarrow> e = artifact_error"
  "text_item v = Inl e \<Longrightarrow> e = artifact_error"
proof -
  show d: "canonical_digest v = Inl e \<Longrightarrow> e = artifact_error" for v
    by (auto simp: canonical_digest_def split: json.splits option.splits if_splits)
  show p: "plain_text v = Inl e \<Longrightarrow> e = artifact_error" for v
    by (auto simp: plain_text_def split: json.splits if_splits)
  show "descriptor_init a b c = Inl e \<Longrightarrow> e = artifact_error"
    using d p by (cases c) (auto simp: descriptor_init_def rbind_Inl_iff Let_def split: if_splits)
  show "nonempty_text v = Inl e \<Longrightarrow> e = artifact_error" "text_item v = Inl e \<Longrightarrow> e = artifact_error"
    by (auto simp: nonempty_text_def text_item_def split: json.splits if_splits)
qed

lemma wire_errors:
  "parse_wire_platform v = Inl e \<Longrightarrow> e = artifact_error" "wire_descriptor v b = Inl e \<Longrightarrow> e = artifact_error"
proof -
  have opt: "optional_field nonempty_text w = Inl e \<Longrightarrow> e = artifact_error" for w
    using artifact_errors(4) by (auto simp: optional_field_def rbind_Inl_iff split: if_splits)
  have items: "rmap text_item xs = Inl e \<Longrightarrow> e = artifact_error" for xs
    using rmap_errors [of text_item xs e "\<lambda>e. e = artifact_error"] artifact_errors(5) by blast
  show p: "parse_wire_platform v = Inl e \<Longrightarrow> e = artifact_error" for v
  proof (cases v)
    case (JObj d)
    assume "parse_wire_platform v = Inl e"
    with JObj opt items artifact_errors(4) show ?thesis
      by (cases "case map_of d (ul ''os.features'') of None \<Rightarrow> JArr [] | Some x \<Rightarrow> x")
        (auto simp: parse_wire_platform_def rbind_Inl_iff split: if_splits)
  qed (simp_all add: parse_wire_platform_def)
  show "wire_descriptor v b = Inl e \<Longrightarrow> e = artifact_error"
    using p artifact_errors(3) by (cases v) (auto simp: wire_descriptor_def rbind_Inl_iff split: if_splits)
qed

lemma read_errors: "read_json_blob lv reader d = Inl e \<Longrightarrow> image_error lv reader e"
proof -
  have "strict_json None b = Inl e \<Longrightarrow> image_error lv reader e" for b
    using loads_not_deep(2)
    by (auto simp: strict_json_def image_error_def split: option.splits sum.splits jerr.splits json.splits if_splits)
  then have s: "strict_json (lv d) b = Inl e \<Longrightarrow> reader d = Blob b \<Longrightarrow> image_error lv reader e" for b
    using strict_json_deep [of "lv d" b] by (fastforce simp: image_error_def outgrown_def)
  have one: "verify_chunk n x y = Inl e' \<Longrightarrow> e' = artifact_error" for n x y e'
    by (auto simp: verify_chunk_def split: prod.splits option.splits if_splits)
  then have c: "rfold (verify_chunk n) x xs = Inl e \<Longrightarrow> e = artifact_error" for n x xs
    using rfold_errors [of "verify_chunk n" x xs e "\<lambda>e. e = artifact_error"] by blast
  have "verify_descriptor_bytes d p = Inl e \<Longrightarrow> e = artifact_error" for p
    using c one artifact_errors(1)
    by (cases p) (auto simp: verify_descriptor_bytes_def verify_blob_chunks_def rbind_Inl_iff split: if_splits)
  then have "read_verified_blob reader d = Inl e \<Longrightarrow> image_error lv reader e"
    by (cases "reader d") (auto simp: read_verified_blob_def image_error_def)
  with s read_verified [of reader d] show "read_json_blob lv reader d = Inl e \<Longrightarrow> image_error lv reader e"
    by (auto simp: read_json_blob_def rbind_Inl_iff image_error_def [of lv reader artifact_error] split: if_splits)
qed

lemma object_case_Inl:
  "(case v of JObj d \<Rightarrow> f d | _ \<Rightarrow> Inl a) = Inl e \<Longrightarrow> (e = a \<or> (\<exists>d. v = JObj d \<and> f d = Inl e))"
  by (cases v) auto

lemma array_case_Inl:
  "(case v of JArr d \<Rightarrow> f d | _ \<Rightarrow> Inl a) = Inl e \<Longrightarrow> (e = a \<or> (\<exists>d. v = JArr d \<and> f d = Inl e))"
  by (cases v) auto

lemma config_errors: "parse_config lv reader d = Inl e \<Longrightarrow> image_error lv reader e"
proof -
  have p: "process_from_config v = Inl e \<Longrightarrow> image_error lv reader e" for v
    using config_refusal_classes by (auto simp: image_error_def artifact_error_def invalid_process_def)
  have i: "image_config_init d a b c xs q = Inl e \<Longrightarrow> image_error lv reader e" for a b c xs q
    using rmap_errors [of canonical_digest xs e "\<lambda>e. e = artifact_error"] artifact_errors(1)
    by (auto simp: image_config_init_def rbind_Inl_iff image_error_def split: if_splits)
  have a: "image_error lv reader artifact_error" by (simp add: image_error_def)
  show "parse_config lv reader d = Inl e \<Longrightarrow> image_error lv reader e"
    unfolding parse_config_def using p i a read_errors
    by (auto simp: rbind_Inl_iff split: if_splits dest!: object_case_Inl array_case_Inl)
qed

lemma manifest_errors: "resolve_manifest lv q reader m index = Inl e \<Longrightarrow> image_error lv reader e"
proof -
  have a: "image_error lv reader artifact_error" by (simp add: image_error_def)
  have "manifest_layer x y = Inl e' \<Longrightarrow> e' = artifact_error" for x y e'
    using wire_errors(2) by (auto simp: manifest_layer_def rbind_Inl_iff split: if_splits)
  then have l: "rmap (manifest_layer x) xs = Inl e \<Longrightarrow> image_error lv reader e" for x xs
    using a rmap_errors [of "manifest_layer x" xs e "\<lambda>e. e = artifact_error"] by blast
  have "layer_source_init n x y = Inl e' \<Longrightarrow> e' = artifact_error" for n x y e'
    using artifact_errors(1) by (auto simp: layer_source_init_def rbind_Inl_iff split: if_splits)
  then have p: "pair_layers xs ys = Inl e \<Longrightarrow> image_error lv reader e" for xs ys
    using a rmap_errors [of "\<lambda>i. layer_source_init (int i) (xs ! i) (ys ! i)" "[0..<length xs]" e "\<lambda>e. e = artifact_error"]
    unfolding pair_layers_def by blast
  have i: "image_init q index m c x ls y = Inl e \<Longrightarrow> image_error lv reader e" for c x ls y
    using a by (auto simp: image_init_def split: if_splits)
  have d: "require_document doc m = Inl e \<Longrightarrow> image_error lv reader e" for doc
    using a by (auto simp: require_document_def split: if_splits)
  have w: "wire_descriptor v b = Inl e \<Longrightarrow> image_error lv reader e" for v b
    using a wire_errors(2) by blast
  show "resolve_manifest lv q reader m index = Inl e \<Longrightarrow> image_error lv reader e"
    unfolding resolve_manifest_def using a l p i d w read_errors config_errors
    by (auto simp: rbind_Inl_iff case_prod_beta split: if_splits dest!: array_case_Inl)
qed

lemma image_errors: "resolve_image lv q root reader = Inl e \<Longrightarrow> image_error lv reader e"
proof -
  have a: "image_error lv reader artifact_error" by (simp add: image_error_def)
  have "index_step t ms raw = Inl e' \<Longrightarrow> e' = artifact_error" for t ms raw e'
    using wire_errors(2) by (auto simp: index_step_def rbind_Inl_iff Let_def split: if_splits)
  then have i: "rfold (index_step t) ms raws = Inl e \<Longrightarrow> image_error lv reader e" for t ms raws
    using a rfold_errors [of "index_step t" ms raws e "\<lambda>e. e = artifact_error"] by blast
  have m: "(case ms of [x] \<Rightarrow> resolve_manifest lv q reader x (Some root) | _ \<Rightarrow> Inl artifact_error) = Inl e \<Longrightarrow> image_error lv reader e" for ms
    using a manifest_errors by (auto split: list.splits)
  have d: "require_document doc root = Inl e \<Longrightarrow> image_error lv reader e" for doc
    using a by (auto simp: require_document_def split: if_splits)
  show "resolve_image lv q root reader = Inl e \<Longrightarrow> image_error lv reader e"
    unfolding resolve_image_def using a i m d read_errors manifest_errors
    by (auto simp: rbind_Inl_iff split: if_splits dest!: array_case_Inl)
qed

end
