(* ===== verification/Oci_Image_Claims.thy ===== *)
theory Oci_Image_Claims imports Main Oci_Image_Props begin

text \<open>
  A sample image, held in two blobs, and the properties of image resolution.
\<close>

section \<open>Reading canonical documents\<close>

lemma strict_canonical:
  assumes "canonical_json_bytes v = Some b" "wf_json v" "length b \<le> max_image_json" "canon v = JObj d"
  shows "strict_json None b = Inr d"
proof -
  from assms(1) obtain t where t: "dump (canon v) = Some t" "utf8_encode t = Some b"
    by (auto simp: canonical_json_bytes_def split: option.splits)
  with loads_dump(3) [OF t(1) wf_json_canon [OF assms(2)]] utf8_decode_encode [OF t(2)] assms(3,4)
  show ?thesis by (simp add: strict_json_def)
qed

text \<open>Bytes that carry the digest and the length of a descriptor are what its verification accepts.\<close>

lemma verify_own:
  assumes "reader d = Blob b" "de_digest d = sha256_text b" "de_size d = int (length b)" "length b < 2 ^ 63" "b \<noteq> []"
  shows "read_verified_blob reader d = Inr b"
proof -
  have "canonical_digest (JStr (sha256_text b)) = Inr (sha256_text b)" by (simp add: digest_iff)
  moreover have "int (length b) \<le> 2 ^ 63 - 1" using assms(4) by simp
  ultimately show ?thesis
    using assms by (simp add: read_verified_blob_def verify_descriptor_bytes_def verify_blob_chunks_def verify_chunk_def)
qed

section \<open>A sample image\<close>

definition sample_config_doc :: json where
  "sample_config_doc =
     JObj [(ul ''architecture'', JStr (ul ''amd64'')), (ul ''os'', JStr (ul ''linux'')),
           (ul ''rootfs'', JObj [(ul ''diff_ids'', JArr [JStr (digest_prefix @ replicate 64 98)]), (ul ''type'', JStr (ul ''layers''))])]"

definition sample_config_descriptor :: "bytes \<Rightarrow> descriptor" where
  "sample_config_descriptor b = \<lparr>de_media_type = oci_config_type, de_digest = sha256_text b, de_size = int (length b)\<rparr>"

definition sample_manifest_doc :: "bytes \<Rightarrow> json" where
  "sample_manifest_doc b =
     JObj [(ul ''config'', canon (descriptor_to_json (sample_config_descriptor b))),
           (ul ''layers'', JArr [canon (descriptor_to_json (sample_descriptor oci_gzip_type 10))]),
           (ul ''mediaType'', JStr oci_manifest_type), (ul ''schemaVersion'', JInt 2)]"

definition sample_root :: "bytes \<Rightarrow> descriptor" where
  "sample_root b = \<lparr>de_media_type = oci_manifest_type, de_digest = sha256_text b, de_size = int (length b)\<rparr>"

definition sample_reader :: "bytes \<Rightarrow> bytes \<Rightarrow> blob_reader" where
  "sample_reader c m d =
     (if de_media_type d = oci_config_type then Blob c else if de_media_type d = oci_manifest_type then Blob m else Missing)"

definition sample_image_ref :: image_ref where
  "sample_image_ref =
     \<lparr>ir_registry = ul ''ghcr.io:443'', ir_repository = ul ''lib/app'', ir_reference = ul ''ghcr.io:443/lib/app:v1''\<rparr>"

lemma sample_ref_built:
  "image_ref_init (JStr (ul ''ghcr.io:443'')) (JStr (ul ''lib/app'')) (JStr (ul ''ghcr.io:443/lib/app:v1'')) = Inr sample_image_ref"
  using sample_names by (simp add: image_ref_init_def sample_image_ref_def)

lemma digest_text_ok: "utf8_ok (sha256_text b)" "wf_str (sha256_text b)" "length (sha256_text b) = 71"
proof -
  show "utf8_ok (sha256_text b)" using is_digest_ascii [of "sha256_text b"] ascii_utf8_ok by simp
  show "wf_str (sha256_text b)" by (rule digest_wf) simp
  show "length (sha256_text b) = 71" by (simp add: sha256_text_def digest_prefix_def)
qed

lemma sample_config_bytes:
  obtains c where "canonical_json_bytes sample_config_doc = Some c" "strict_json None c = (case sample_config_doc of JObj d \<Rightarrow> Inr d)"
    "length c \<le> 100000" "c \<noteq> []"
proof -
  have can: "canon sample_config_doc = sample_config_doc"
    by (simp add: sample_config_doc_def exec cong: eval_cong)
  have "json_ok sample_config_doc" "wf_json sample_config_doc"
    by (simp_all add: sample_config_doc_def digest_prefix_def utf8_ok_def wf_str_def ul_def)
  moreover from this obtain c where c: "canonical_json_bytes sample_config_doc = Some c"
    using canonical_json_bytes_total by blast
  moreover have "length c \<le> 100000"
    using canonical_bytes_bound [OF c] by (simp add: can) (simp add: sample_config_doc_def digest_prefix_def)
  moreover have "c \<noteq> []" using loads_canonical [OF c] \<open>wf_json sample_config_doc\<close> by metis
  ultimately show thesis
    using strict_canonical [OF c] that can by (simp add: sample_config_doc_def max_image_json_def)
qed

lemma sample_manifest_bytes:
  assumes "length c \<le> 100000"
  obtains m where "canonical_json_bytes (sample_manifest_doc c) = Some m"
    "strict_json None m = (case sample_manifest_doc c of JObj d \<Rightarrow> Inr d)" "length m \<le> 100000" "m \<noteq> []"
proof -
  have can: "canon (sample_manifest_doc c) = sample_manifest_doc c"
    by (simp add: sample_manifest_doc_def canon_descriptor) (simp add: exec cong: eval_cong)
  have d: "utf8_ok digest_prefix" by (simp add: digest_prefix_def)
  have d': "wf_str digest_prefix" by (simp add: digest_prefix_def wf_str_def ul_def)
  have "json_ok (sample_manifest_doc c)" "wf_json (sample_manifest_doc c)"
    using assms digest_text_ok(1,2) [of c] d d'
    by (simp_all add: sample_manifest_doc_def sample_config_descriptor_def canon_descriptor sample_descriptor_def
        oci_config_type_def oci_gzip_type_def oci_manifest_type_def utf8_ok_def wf_str_def ul_def)
  moreover from this obtain m where m: "canonical_json_bytes (sample_manifest_doc c) = Some m"
    using canonical_json_bytes_total by blast
  moreover have "length m \<le> 100000"
    using canonical_bytes_bound [OF m] digest_text_ok(3) [of c]
    by (simp add: can) (simp add: sample_manifest_doc_def digest_prefix_def canon_descriptor sample_config_descriptor_def
        sample_descriptor_def oci_config_type_def oci_gzip_type_def oci_manifest_type_def)
  moreover have "m \<noteq> []" using loads_canonical [OF m] \<open>wf_json (sample_manifest_doc c)\<close> by metis
  ultimately show thesis
    using strict_canonical [OF m] that can by (simp add: sample_manifest_doc_def max_image_json_def)
qed

lemma read_own:
  assumes "reader d = Blob b" "de_digest d = sha256_text b" "de_size d = int (length b)" "length b \<le> max_image_json" "b \<noteq> []"
  shows "read_json_blob lv reader d = strict_json (lv d) b"
  using verify_own [of reader d b] assms by (simp add: read_json_blob_def max_image_json_def)

lemma sample_diff_id: "canonical_digest (JStr (digest_prefix @ replicate 64 98)) = Inr (digest_prefix @ replicate 64 98)"
  by (simp add: digest_iff sample_digest is_hex_lower_def)

lemma sample_config_parsed:
  assumes "reader (sample_config_descriptor c) = Blob c" "length c \<le> 100000" "c \<noteq> []"
    and "strict_json None c = (case sample_config_doc of JObj d \<Rightarrow> Inr d)"
  shows "\<exists>cfg. parse_config (\<lambda>_. None) reader (sample_config_descriptor c) = Inr cfg \<and> ic_diff_ids cfg = [digest_prefix @ replicate 64 98]"
proof -
  have "\<exists>p. process_from_config JNull = Inr p" by (simp add: exec cong: eval_cong)
  then obtain p where p: "process_from_config JNull = Inr p" by blast
  have "read_json_blob (\<lambda>_. None) reader (sample_config_descriptor c) = (case sample_config_doc of JObj d \<Rightarrow> Inr d)"
    using read_own [of reader _ c] assms by (simp add: sample_config_descriptor_def max_image_json_def)
  with p sample_diff_id show ?thesis
    by (simp add: parse_config_def sample_config_doc_def image_config_init_def jget_def ul_def
        sample_config_descriptor_def config_types_def)
qed

lemma sample_resolved:
  assumes "canonical_json_bytes sample_config_doc = Some c" "canonical_json_bytes (sample_manifest_doc c) = Some m"
  shows "descriptor_ok (sample_root m)" "\<exists>i. resolve_image (\<lambda>_. None) sample_image_ref (sample_root m) (sample_reader c m) = Inr i"
proof -
  from assms(1) have c: "strict_json None c = (case sample_config_doc of JObj d \<Rightarrow> Inr d)" "length c \<le> 100000" "c \<noteq> []"
    by (auto intro: sample_config_bytes)
  from assms(2) have m: "strict_json None m = (case sample_manifest_doc c of JObj d \<Rightarrow> Inr d)" "length m \<le> 100000" "m \<noteq> []"
    using c by (auto intro: sample_manifest_bytes [OF c(2)])
  let ?r = "sample_reader c m" and ?c = "sample_config_descriptor c" and ?l = "sample_descriptor oci_gzip_type 10"
  have mt: "media_type_ok oci_manifest_type" "media_type_ok oci_config_type"
    using sample_descriptor_ok [of _ 1] by (simp_all add: descriptor_ok_def sample_descriptor_def)
  show "descriptor_ok (sample_root m)" using mt m by (simp add: descriptor_ok_def sample_root_def)
  have cok: "descriptor_ok ?c" using mt c by (simp add: descriptor_ok_def sample_config_descriptor_def)
  have lok: "descriptor_ok ?l" by (rule sample_descriptor_ok) auto
  have wire: "wire_descriptor (canon (descriptor_to_json d)) False = Inr \<lparr>ie_descriptor = d, ie_platform = None\<rparr>"
    if "descriptor_ok d" for d
    using descriptor_ok_init [OF that] by (simp add: canon_descriptor wire_descriptor_def jget_def ul_def valid_urls_def valid_annotations_def)
  have types: "oci_manifest_type \<noteq> oci_config_type" by (simp add: oci_manifest_type_def oci_config_type_def ul_def)
  have doc: "read_json_blob (\<lambda>_. None) ?r (sample_root m) = (case sample_manifest_doc c of JObj d \<Rightarrow> Inr d)"
    using read_own [of ?r "sample_root m" m] m types by (simp add: sample_root_def sample_reader_def max_image_json_def)
  obtain cfg where cfg: "parse_config (\<lambda>_. None) ?r ?c = Inr cfg" "ic_diff_ids cfg = [digest_prefix @ replicate 64 98]"
    using sample_config_parsed [of ?r c] c by (auto simp: sample_config_descriptor_def sample_reader_def)
  define i where "i = \<lparr>im_reference = sample_image_ref, im_index = None, im_manifest = sample_root m, im_config = cfg,
      im_platform = phase1_platform,
      im_layers = [\<lparr>ls_ordinal = 0, ls_compressed = ?l, ls_diff_id = digest_prefix @ replicate 64 98\<rparr>],
      im_policy = reserved_path_policy\<rparr>"
  have conf: "wire_descriptor (jget d ''config'') False = Inr \<lparr>ie_descriptor = ?c, ie_platform = None\<rparr>"
      and lay: "jget d ''layers'' = JArr [canon (descriptor_to_json ?l)]" and req: "require_document d (sample_root m) = Inr ()"
    if "sample_manifest_doc c = JObj d" for d
    using that wire [OF cok]
    by (auto simp: sample_manifest_doc_def jget_def ul_def require_document_def sample_root_def)
  have lt: "de_media_type ?l = oci_gzip_type" "oci_gzip_type \<in> set layer_types"
    by (simp_all add: sample_descriptor_def layer_types_def)
  have layer: "manifest_layer [oci_layer_type, oci_gzip_type] (canon (descriptor_to_json ?l)) = Inr ?l"
    using wire [OF lok] lt by (simp add: manifest_layer_def)
  have pair: "pair_layers [?l] [digest_prefix @ replicate 64 98] =
      Inr [\<lparr>ls_ordinal = 0, ls_compressed = ?l, ls_diff_id = digest_prefix @ replicate 64 98\<rparr>]"
    using sample_diff_id lt by (simp add: pair_layers_def layer_source_init_def)
  obtain d where d: "sample_manifest_doc c = JObj d" by (simp add: sample_manifest_doc_def)
  have mtype: "de_media_type (sample_root m) = oci_manifest_type" "de_media_type ?c = oci_config_type"
    by (simp_all add: sample_root_def sample_config_descriptor_def)
  have init: "image_init sample_image_ref None (sample_root m) cfg phase1_platform
      [\<lparr>ls_ordinal = 0, ls_compressed = ?l, ls_diff_id = digest_prefix @ replicate 64 98\<rparr>] reserved_path_policy = Inr i"
    using cfg(2) by (simp add: image_init_def mtype manifest_types_def max_image_layers_def i_def)
  have "resolve_manifest (\<lambda>_. None) sample_image_ref ?r (sample_root m) None = Inr i"
    using doc d cfg layer pair init conf [OF d] lay [OF d] req [OF d]
    by (simp add: resolve_manifest_def mtype manifest_types_def manifest_profile_def max_image_layers_def)
  then show "\<exists>i. resolve_image (\<lambda>_. None) sample_image_ref (sample_root m) ?r = Inr i"
    by (simp add: resolve_image_def mtype manifest_types_def) (simp add: sample_image_ref_def ul_def)
qed

section \<open>A refusal that is not the module's own\<close>

lemma long_number_scan:
  assumes "max_digits < n"
  shows "loads_strict (replicate n 57) = Inl JLong"
proof -
  obtain k where n: "n = Suc k" using assms by (cases n) auto
  let ?s = "57 # replicate k 57"
  have ds: "takeWhile is_digit ?s = ?s" "dropWhile is_digit ?s = []"
    by (simp_all add: is_digit_def)
  have digits: "scan_digits ?s = Some (?s, [])"
    unfolding scan_digits_def using ds by (simp add: is_digit_def)
  then have "scan_number ?s = None"
    using assms n by (simp add: scan_number_def scan_frac_def scan_exp_def)
  then have lit: "scan_literal ?s = None"
    by (simp add: scan_literal_def starts_with_def ul_def)
  have "long_number ?s" using digits by (simp add: long_number_def)
  with lit have "scan_value hk (Suc m) ?s = Inl JLong" for hk m
    by (simp add: scan_value.simps(2))
  moreover have "skip_ws ?s = ?s" by (simp add: skip_ws_def is_ws_def)
  ultimately show ?thesis by (simp add: n loads_strict_def loads_with_def)
qed

lemma long_number_blob: "max_digits < n \<Longrightarrow> n \<le> max_image_json \<Longrightarrow> strict_json None (replicate n 57) = Inl ValueErr"
  using long_number_scan utf8_decode_replicate [of 57 n] by (simp add: strict_json_def)

lemma deep_blob: "k < max_image_json \<Longrightarrow> strict_json (Some k) (replicate (Suc k) 91) = Inl RecursionErr"
  using utf8_decode_replicate [of 91 "Suc k"] loads_at_brackets(2) [of k]
  by (simp add: strict_json_def del: replicate_Suc)

text \<open>A root manifest that names its own bytes, whatever they are, is parsed.\<close>

lemma resolve_own:
  assumes "length b \<le> max_image_json" "b \<noteq> []" "strict_json (lv (sample_root b)) b = Inl e"
  shows "resolve_image lv sample_image_ref (sample_root b) (\<lambda>d. Blob b) = Inl e"
proof -
  have "read_json_blob lv (\<lambda>d. Blob b) (sample_root b) = Inl e"
    using read_own [of _ "sample_root b" b lv] assms by (simp add: sample_root_def)
  then show ?thesis
    by (simp add: resolve_image_def resolve_manifest_def sample_root_def manifest_types_def) (simp add: sample_image_ref_def ul_def)
qed

section \<open>The claims\<close>

text \<open>C31. Resolution depends on nothing but the pinned root: for one requested reference and one root descriptor,
  two readers (a registry at two times, a mirror, a hostile cache) that both lead to an image lead to the same
  image, with any two stacks, unless for some descriptor they hand out two different blobs with one SHA-256.\<close>

theorem image_determined_by_root:
  "agree (resolve_image lv q root r) (resolve_image lv' q root s) \<or> collide r s"
  using image_agree by blast

text \<open>C32. A resolved image is what its root pins: its manifest is the root, or the only entry for exactly
  \<open>linux/amd64\<close> of the index whose bytes have the root's digest; manifest and config were read from blobs with
  their descriptors' digests; its layers are between 1 and 128, numbered in order, of the media types of the
  manifest's profile and paired one to one with the config's \<open>diff_ids\<close>; its process is one the supervisor
  accepts; a reference pinned by digest ends in the root's digest; and its provenance source can be built and is
  well-formed.\<close>

theorem resolved_image_is_pinned:
  assumes "image_ref_init r n t = Inr q" "descriptor_ok root" "resolve_image lv q root reader = Inr i"
  shows "image_ok i \<and> im_reference i = q \<and> pinned_by root reader i \<and>
    (64 \<notin> set (ir_reference q) \<or> (\<exists>p. ir_reference q = p @ 64 # de_digest root)) \<and>
    (\<exists>s. image_source i = Inr s \<and> source_ok s)"
  using image_resolved [OF assms(3,2)] image_has_source [OF assms(1,3,2)] by blast

theorem resolved_image_is_pinned_witness:
  "\<exists>c m i. resolve_image (\<lambda>_. None) sample_image_ref (sample_root m) (sample_reader c m) = Inr i \<and>
     image_ok i \<and> pinned_by (sample_root m) (sample_reader c m) i"
proof -
  obtain c where c: "canonical_json_bytes sample_config_doc = Some c" "length c \<le> 100000" by (rule sample_config_bytes)
  obtain m where m: "canonical_json_bytes (sample_manifest_doc c) = Some m" by (rule sample_manifest_bytes [OF c(2)])
  obtain i where i: "resolve_image (\<lambda>_. None) sample_image_ref (sample_root m) (sample_reader c m) = Inr i"
    using sample_resolved(2) [OF c(1) m] by blast
  from resolved_image_is_pinned [OF sample_ref_built sample_resolved(1) [OF c(1) m] i] i show ?thesis by blast
qed

text \<open>C37. Resolution fails in four ways only: with the module's \<open>ArtifactValidationError\<close>, with an error the blob
  reader itself raised, with a plain \<open>ValueError\<close>, or with \<open>RecursionError\<close>, the last only when some blob has more
  bytes than the stack has levels left where it is parsed. Both of the errors that are not the module's own do
  happen: for a root manifest whose verified bytes are a number of more than 4300 digits, and for one whose
  bytes are one opening bracket more than there are levels.\<close>

theorem image_refusals:
  assumes "max_digits < digits" "digits \<le> max_image_json" "levels < max_image_json"
  shows "{e. resolve_image lv q root reader = Inl e} \<subseteq>
       {artifact_error, ValueErr} \<union> {e. \<exists>d. reader d = Raised e} \<union> {e. e = RecursionErr \<and> outgrown lv reader} \<and>
     resolve_image (\<lambda>_. None) sample_image_ref (sample_root (replicate digits 57)) (\<lambda>d. Blob (replicate digits 57)) = Inl ValueErr \<and>
     resolve_image (\<lambda>_. Some levels) sample_image_ref (sample_root (replicate (Suc levels) 91)) (\<lambda>d. Blob (replicate (Suc levels) 91)) =
       Inl RecursionErr"
proof (intro conjI)
  show "{e. resolve_image lv q root reader = Inl e} \<subseteq>
       {artifact_error, ValueErr} \<union> {e. \<exists>d. reader d = Raised e} \<union> {e. e = RecursionErr \<and> outgrown lv reader}"
    using image_errors [of lv q root reader] by (auto simp: image_error_def)
  show "resolve_image (\<lambda>_. None) sample_image_ref (sample_root (replicate digits 57)) (\<lambda>d. Blob (replicate digits 57)) = Inl ValueErr"
    using assms(1,2) long_number_blob by (intro resolve_own) auto
  show "resolve_image (\<lambda>_. Some levels) sample_image_ref (sample_root (replicate (Suc levels) 91)) (\<lambda>d. Blob (replicate (Suc levels) 91)) =
       Inl RecursionErr"
    using assms(3) deep_blob by (intro resolve_own) auto
qed

theorem image_refusals_witness:
  "resolve_image (\<lambda>_. None) sample_image_ref (sample_root (replicate 4301 57)) (\<lambda>d. Blob (replicate 4301 57)) = Inl ValueErr \<and>
   resolve_image (\<lambda>_. Some 1000) sample_image_ref (sample_root (replicate 1001 91)) (\<lambda>d. Blob (replicate 1001 91)) = Inl RecursionErr"
proof -
  have "max_digits < 4301" "4301 \<le> max_image_json" "1000 < max_image_json" by (simp_all add: max_digits_def max_image_json_def)
  from image_refusals [OF this] show ?thesis by simp
qed

end
