(* ===== verification/Spec2Isabelle.thy ===== *)
theory Spec2Isabelle imports Main
  Prelude Py_Path Py_Bytes Py_Text Py_Ip Py_Json Py_Json_Props Py_Json_Total Py_Base64 Py_Hash
  State_Exn Wire_Values Frame_Codec Counter_Run
  Changeset Changeset_Tree Changeset_Steps Changeset_Final Changeset_Props Changeset_Links
  Control_V1 Control_V1_Codec Control_V1_Props Control_V1_Session Control_V1_Safety
  Control_V2 Control_V2_Wire Control_V2_Session Control_V2_Codec Control_V2_Auth Control_V2_Safety
  Control_V2_Runs Control_V2_Sample Control_V2_Props Control_V2_Boundary Control_V2_Final
  Runtime_Types Supervisor_Types Supervisor_Payload
  Journal_File Supervisor_Journal Journal_Logic Journal_Log Journal_Refine Journal_Write Journal_Open
  Journal_Create Journal_Props Journal_Safety
  Exec_Control Exec_Session Mail_Effects Mail_Props Exec_Dispatch Exec_Link Exec_Deliver Exec_Exchange Exec_Props
  Supervisor_Core Core_Machine Core_Laws Core_Safety Core_Replay Core_Props
  Oci_Process Oci_Process_Props
  Oci_Reference Oci_Reference_Props Oci_Provenance Oci_Provenance_Props Oci_Referrer
  Oci_Image Oci_Image_Props Oci_Image_Claims
begin

text \<open>
  \<^bold>\<open>Palimpsest's OCI-root engine.\<close>

  Palimpsest boots an OCI image as the root of a virtual machine and supervises the one process
  it runs. This development models the parts of \<open>src/palimpsest_local\<close> that decide what is booted,
  what host and guest say to each other, what is durable and what a client is shown. In the order of a
  run:

  \<^item> \<open>oci_image.py\<close> resolves a pinned descriptor to one image; \<open>oci_provenance.py\<close> names what it came from
    and \<open>oci_process.py\<close> turns its configuration into the process to start.
  \<^item> \<open>oci_changeset.py\<close> reduces the archive of each layer to a canonical list of entries.
  \<^item> \<open>oci_control_protocol.py\<close> and \<open>oci_control_protocol_v2.py\<close> are the lifecycle protocols between host
    and guest: messages, frames, authentication and the session of the host.
  \<^item> \<open>oci_supervisor.py\<close> writes what the session reports to an append-only journal and replays it to any number of
    attached clients; \<open>runtime_types.py\<close> holds the contracts it shares with the rest of the program.
  \<^item> \<open>oci_exec_control.py\<close>, \<open>oci_exec_session.py\<close> and part of \<open>oci_monitor_ipc.py\<close> run one extra command in the
    guest: a mailbox in the monitor, the client that polls it and the dispatch between them.

  \<^bold>\<open>How code becomes definitions.\<close> A function or method is a definition of the same name where Isabelle
  allows it (a prefix tells methods of different classes apart); a class is a record, an enumeration a
  datatype; \<open>str\<close> is a list of code points, \<open>bytes\<close> a list of 8-bit words, \<open>int\<close> unbounded. A value of type
  \<open>Any\<close> is a \<open>json\<close>, so that every test of a type is a branch. An exception is an \<open>Inl\<close> with its class (and, where
  code tells them apart, its message). A method that changes its object returns the object left behind
  even when it raises (\<open>State_Exn\<close>, or explicit states); a lock makes a section one step. Values of
  \<open>secrets\<close>, \<open>uuid4\<close>, clocks, system calls, blob readers and the remote side are arguments or interfaces.

  \<^bold>\<open>Basis.\<close> \<open>Prelude\<close>: strings, bytes, results, the \<open>exec\<close> collection that evaluates definitions. \<open>Py_Path\<close>,
  \<open>Py_Bytes\<close>, \<open>Py_Text\<close>, \<open>Py_Ip\<close>, \<open>Py_Base64\<close>, \<open>Py_Hash\<close>: what the modules use of the standard library (UTF-8, struct,
  decimal, path, address and base64 syntax; SHA-256, HMAC and HKDF written out). \<open>Py_Json*\<close>: the scanner and the canonical
  encoder; \<open>scan_value\<close> runs on fuel twice the length of the text plus one, which is never used up
  (\<open>loads_no_fuel\<close>), and canonical text scans back to its value (\<open>loads_dump\<close>). The levels of the stack it may still use
  are a field of its hook; running out of them is the only difference they make (\<open>scan_deep\<close>). \<open>Wire_Values\<close>: the typed readers of
  a message. \<open>Frame_Codec\<close>: the length-prefixed frames of both protocols, with the locale \<open>frame_format\<close> (payload codec
  in, stream decoder out), interpreted for both. \<open>Counter_Run\<close>: runs of a labelled step relation and the locale
  \<open>counter_run\<close>, interpreted for both wire counters of protocol v2.

  \<^bold>\<open>Layer changesets.\<close> \<open>Changeset\<close> has every nested function of \<open>normalize_changeset\<close> as an operation on the four
  dictionaries. \<open>Changeset_Tree\<close>, \<open>_Steps\<close> and \<open>_Final\<close> show that the dictionaries stay a tree, that no step of a member
  diverges, and what the emission order is; \<open>Changeset_Props\<close> that the result is a tree with parents first and hardlinks after
  their carriers, and which input is refused; \<open>Changeset_Links\<close> how a target binds the links that wait for it, and the link
  given twice that it does not bind. \<open>purge_loop\<close> and \<open>emit_order\<close> terminate by a measure; \<open>parent_chain\<close>
  follows pointers and is a \<open>partial_function (option)\<close>, shown to return on every reachable state.

  \<^bold>\<open>Lifecycle protocols.\<close> \<open>Control_V1\<close> and \<open>Control_V2\<close>, \<open>_Wire\<close>: fields, constructors, dictionary and wire form,
  subkeys and the text under the MAC; \<open>_Session\<close>: every method of the host session. \<open>_Codec\<close> and
  \<open>_Auth\<close>: frames and signed envelopes read back, in any chunking; \<open>_Safety\<close>, \<open>_Runs\<close>, \<open>_Props\<close>: invariants over
  arbitrary sequences of calls, failing ones included (only signed envelopes are taken, no replay, one STOP identity, exec output
  as a stream); \<open>_Boundary\<close> and \<open>_Final\<close>: when a recorded outcome is final, with the runs in which it is not.

  \<^bold>\<open>Supervisor.\<close> \<open>Runtime_Types\<close>, \<open>Supervisor_Types\<close>, \<open>Supervisor_Payload\<close>: constructors and the codec of a journal
  record. \<open>Journal_File\<close> is the operating system (short writes, failing calls, tampering between any two calls);
  \<open>Supervisor_Journal\<close> every method of the journal. \<open>Journal_Log\<close> defines the abstract journal, a list of records with its
  file image, and \<open>Journal_Refine\<close> the relation \<open>journal_at\<close>; \<open>_Logic\<close>, \<open>_Write\<close>, \<open>_Open\<close>, \<open>_Create\<close> show that
  each method refines the operation on the list; \<open>_Props\<close> and \<open>_Safety\<close> state it, with replay, torn tails and tampering.
  \<open>verify_loop\<close> terminates by the bytes left, \<open>pull_loop\<close> by its count of records. \<open>Supervisor_Core\<close> has the core
  and its sessions over an interface for the journal; \<open>Core_Machine\<close> interleaves the sections of its threads; the locale
  \<open>durable_journal\<close> (\<open>Core_Laws\<close>) says what the core needs of a journal and is interpreted on the journal of the module;
  \<open>Core_Safety\<close> proves the invariant of every interleaving inside it, \<open>Core_Replay\<close> what an attached session gets. The two loops
  that wait (\<open>core_terminal_loop\<close>, \<open>session_loop\<close>) run on fuel, one unit for a pull of records; \<open>Core_Props\<close> shows that as many units
  as there are records stored are enough for the answer.

  \<^bold>\<open>Guest exec.\<close> \<open>Exec_Control\<close>: the mailbox; \<open>Mail_Effects\<close>, \<open>Mail_Props\<close>: its invariant, and that over any calls in any
  order a job is handed out at most once and a completed result stays. \<open>Exec_Session\<close>: the client, its generator as a step
  function with resume points; \<open>exec_drain\<close> on fuel, one unit for an event. \<open>Exec_Dispatch\<close>: the dispatch of the monitor.
  \<open>Exec_Link\<close> puts them together with a worker that acts between any two requests; \<open>Exec_Deliver\<close>, \<open>Exec_Exchange\<close> and
  \<open>Exec_Props\<close> show that the client receives exactly the bytes the worker stored.

  \<^bold>\<open>Images.\<close> \<open>Oci_Process\<close>: the process contract, from image configurations to the user resolved in the databases of the image.
  \<open>Oci_Reference\<close>: digests, registry authorities, references, each shown to be stable under its own
  normalisation. \<open>Oci_Provenance\<close>: the document and its referrer manifest; its reader accepts exactly the canonical
  bytes of the well-formed documents (\<open>Oci_Provenance_Props\<close>, \<open>Oci_Referrer\<close>). \<open>Oci_Image\<close>: verified reads and resolution; the
  result is a function of the root descriptor up to collisions of SHA-256 (\<open>Oci_Image_Props\<close>, \<open>Oci_Image_Claims\<close>).
  SHA-256 is never assumed to be injective: a statement about digests has the collision as its other case.

  \<^bold>\<open>Not modelled.\<close> Messages of exceptions where no code reads them; memory; the recursion limit but for that of \<open>json.loads\<close>, which is
  an argument of the decoder of a journal payload, of the strict reader of the provenance module and of the resolution of an
  image (the journal's methods and the readers of provenance documents call theirs with enough stack, and the two lifecycle
  protocols translate the error like any other of the scanner); \<open>ipaddress\<close> is that of Python 3.11 and 3.12. Floating point numbers are kept up to what the code compares (\<open>Py_Json\<close>). The rest of the program
  drives external state and is listed part by part in the manifest of the development: the monitor's sockets, processes and
  recovery, the content stores and their leases, disks, virtual machines (libvirt, Lima, QEMU), networks, registries, builds, the
  command line, the hub service, deployment scripts and the C programs of the guest. Their correctness is that of sequences of
  system calls on state owned by the kernel and other programs, of which the source holds no model.
\<close>

end
